(* ===== verification/Prelude.thy ===== *)
theory Prelude
  imports Main "HOL-Library.Word" "HOL-Library.Char_ord" "HOL-Library.List_Lexorder"
begin

text \<open>
  Shared vocabulary of the development: machine integers, Rust's \<open>Result\<close> as a sum type
  with the question-mark operator as \<open>rbind\<close>, sequences of checks, fallible traversals,
  and the part of Rust's \<open>str\<close> that the program uses.

  A Rust \<open>String\<close> is its sequence of UTF-8 bytes, here a \<open>string\<close> whose characters are
  bytes, so \<open>length\<close> is \<open>len()\<close>, list order is Rust's byte-wise order on strings, and
  the Unicode scalar values that \<open>chars()\<close> yields are computed by decoding.
\<close>

section \<open>Machine integers and results\<close>

type_synonym u64 = "64 word"
type_synonym u8 = "8 word"

named_theorems ok_iff "success of a fallible operation, as the conjunction of its conditions"
named_theorems err_simps "evaluation of the combinators for fallible operations"

text \<open>The question-mark operator: continue with the value, or return the error.\<close>

fun rbind :: "'e + 'a \<Rightarrow> ('a \<Rightarrow> 'e + 'b) \<Rightarrow> 'e + 'b" where
  "rbind (Inl e) f = Inl e"
| "rbind (Inr x) f = f x"

text \<open>An early return: \<open>if !b { return Err(e) }\<close>.\<close>

definition ensure :: "bool \<Rightarrow> 'e \<Rightarrow> 'e + unit" where
  "ensure b e = (if b then Inr () else Inl e)"

definition ok_or :: "'a option \<Rightarrow> 'e \<Rightarrow> 'e + 'a" where
  "ok_or v e = (case v of None \<Rightarrow> Inl e | Some x \<Rightarrow> Inr x)"

definition map_err :: "('e \<Rightarrow> 'f) \<Rightarrow> 'e + 'a \<Rightarrow> 'f + 'a" where
  "map_err f r = (case r of Inl e \<Rightarrow> Inl (f e) | Inr x \<Rightarrow> Inr x)"

text \<open>A sequence of checks, each followed by the question-mark operator.\<close>

fun checks :: "('e + unit) list \<Rightarrow> 'e + unit" where
  "checks [] = Inr ()"
| "checks (c # cs) = rbind c (\<lambda>_. checks cs)"

text \<open>A fallible map over a list that stops at the first error.\<close>

fun traverse :: "('a \<Rightarrow> 'e + 'b) \<Rightarrow> 'a list \<Rightarrow> 'e + 'b list" where
  "traverse f [] = Inr []"
| "traverse f (x # xs) = rbind (f x) (\<lambda>y. rbind (traverse f xs) (\<lambda>ys. Inr (y # ys)))"

text \<open>A loop over a list that threads a mutable state and stops at the first error.\<close>

fun for_each :: "('a \<Rightarrow> 's \<Rightarrow> 'e + 's) \<Rightarrow> 'a list \<Rightarrow> 's \<Rightarrow> 'e + 's" where
  "for_each f [] s = Inr s"
| "for_each f (x # xs) s = rbind (f x s) (for_each f xs)"

lemma rbind_ok [ok_iff]: "rbind m f = Inr y \<longleftrightarrow> (\<exists>x. m = Inr x \<and> f x = Inr y)"
  by (cases m) auto

lemma rbind_err: "rbind m f = Inl e \<longleftrightarrow> m = Inl e \<or> (\<exists>x. m = Inr x \<and> f x = Inl e)"
  by (cases m) auto

lemma ensure_ok [ok_iff]: "ensure b e = Inr u \<longleftrightarrow> b"
  by (simp add: ensure_def)

lemma ensure_err: "ensure b e = Inl e' \<longleftrightarrow> \<not> b \<and> e' = e"
  by (auto simp: ensure_def)

lemma ensure_True [simp, err_simps]: "ensure True e = Inr ()"
  by (simp add: ensure_def)

lemma ensure_False [simp, err_simps]: "ensure False e = Inl e"
  by (simp add: ensure_def)

lemma ok_or_ok [ok_iff]: "ok_or v e = Inr x \<longleftrightarrow> v = Some x"
  by (simp add: ok_or_def split: option.split)

lemma ok_or_simps [simp, err_simps]:
  "ok_or None e = Inl e"
  "ok_or (Some x) e = Inr x"
  by (simp_all add: ok_or_def)

lemma map_err_ok [ok_iff]: "map_err f r = Inr x \<longleftrightarrow> r = Inr x"
  by (simp add: map_err_def split: sum.split)

lemma map_err_simps [simp, err_simps]:
  "map_err f (Inl e) = Inl (f e)"
  "map_err f (Inr x) = Inr x"
  by (simp_all add: map_err_def)

lemma checks_ok: "checks cs = Inr u \<longleftrightarrow> (\<forall>c \<in> set cs. c = Inr ())"
  by (induction cs) (auto simp: ok_iff)

lemma checks_Nil_ok [ok_iff]: "checks [] = Inr u \<longleftrightarrow> True"
  by simp

lemma checks_Cons_ok [ok_iff]: "checks (c # cs) = Inr u \<longleftrightarrow> c = Inr () \<and> checks cs = Inr ()"
  by (auto simp: rbind_ok)

lemma traverse_ok:
  "traverse f xs = Inr ys \<longleftrightarrow> list_all2 (\<lambda>x y. f x = Inr y) xs ys"
  by (induction xs arbitrary: ys) (auto simp: ok_iff list_all2_Cons1)

lemma traverse_ok_ex:
  "(\<exists>ys. traverse f xs = Inr ys) \<longleftrightarrow> (\<forall>x \<in> set xs. \<exists>y. f x = Inr y)"
  by (induction xs) (auto simp: ok_iff)

lemma traverse_cong [fundef_cong]:
  assumes "xs = ys" and "\<And>x. x \<in> set ys \<Longrightarrow> f x = g x"
  shows "traverse f xs = traverse g ys"
proof -
  have "(\<And>x. x \<in> set ys \<Longrightarrow> f x = g x) \<Longrightarrow> traverse f ys = traverse g ys"
    by (induction ys) auto
  with assms show ?thesis by simp
qed

lemma for_each_cong [fundef_cong]:
  assumes "xs = ys" and "s = t" and "\<And>x s. x \<in> set ys \<Longrightarrow> f x s = g x s"
  shows "for_each f xs s = for_each g ys t"
proof -
  have "(\<And>x s. x \<in> set ys \<Longrightarrow> f x s = g x s) \<Longrightarrow> for_each f ys s = for_each g ys s" for s
    by (induction ys arbitrary: s) (auto intro: arg_cong2 [of _ _ _ _ rbind])
  with assms show ?thesis by simp
qed

lemma rbind_cong [fundef_cong]:
  assumes "m = n" and "\<And>x. n = Inr x \<Longrightarrow> f x = g x"
  shows "rbind m f = rbind n g"
  using assms by (cases n) auto

text \<open>Adjacent pairs of a slice, as in \<open>values.windows(2).any(|w| p(w[0], w[1]))\<close>.\<close>

fun windows2_any :: "('a \<Rightarrow> 'a \<Rightarrow> bool) \<Rightarrow> 'a list \<Rightarrow> bool" where
  "windows2_any p (x # y # xs) = (p x y \<or> windows2_any p (y # xs))"
| "windows2_any p xs = False"

lemma windows2_any_sorted:
  fixes xs :: "'a::linorder list"
  shows "\<not> windows2_any (\<lambda>a b. b \<le> a) xs \<longleftrightarrow> sorted_wrt (<) xs"
  by (induction xs rule: induct_list012) (auto simp: not_le intro: less_trans)

lemma sorted_wrt_less_distinct:
  fixes xs :: "'a::linorder list"
  shows "sorted_wrt (<) xs \<Longrightarrow> distinct xs"
  by (simp add: strict_sorted_iff)

text \<open>Association lists with distinct keys, sorted by key (a \<open>BTreeMap\<close> in iteration order).\<close>

lemma map_of_sort_key:
  assumes "distinct (map fst kvs)"
  shows "map_of (sort_key fst kvs) = map_of kvs"
proof -
  have "distinct (map fst (sort_key fst kvs))"
    using assms by (simp add: distinct_map)
  moreover have "set (sort_key fst kvs) = set kvs" by simp
  ultimately show ?thesis using assms by (metis map_of_inject_set)
qed

section \<open>Strings\<close>

text \<open>
  \<open>chars\<close> decodes UTF-8. A Rust string is valid UTF-8; on other byte sequences, which are
  not strings, the result is only some list of numbers.
\<close>

fun chars :: "string \<Rightarrow> nat list" where
  "chars [] = []"
| "chars (a # s) =
     (if of_char a < (0x80::nat) then of_char a # chars s
      else if of_char a < (0xE0::nat) then
        (case s of
           b # s' \<Rightarrow> ((of_char a mod 0x20) * 0x40 + of_char b mod 0x40) # chars s'
         | _ \<Rightarrow> [of_char a])
      else if of_char a < (0xF0::nat) then
        (case s of
           b # c # s' \<Rightarrow> ((of_char a mod 0x10) * 0x1000 + (of_char b mod 0x40) * 0x40
                           + of_char c mod 0x40) # chars s'
         | _ \<Rightarrow> [of_char a])
      else
        (case s of
           b # c # d # s' \<Rightarrow> ((of_char a mod 0x08) * 0x40000 + (of_char b mod 0x40) * 0x1000
                               + (of_char c mod 0x40) * 0x40 + of_char d mod 0x40) # chars s'
         | _ \<Rightarrow> [of_char a]))"

text \<open>\<open>char::is_control\<close>: the Unicode general category Cc.\<close>

definition is_control :: "nat \<Rightarrow> bool" where
  "is_control c \<longleftrightarrow> c < 0x20 \<or> (0x7F \<le> c \<and> c < 0xA0)"

text \<open>\<open>char::is_whitespace\<close>: the Unicode property White\_Space.\<close>

definition is_whitespace :: "nat \<Rightarrow> bool" where
  "is_whitespace c \<longleftrightarrow>
     (0x09 \<le> c \<and> c \<le> 0x0D) \<or> c = 0x20 \<or> c = 0x85 \<or> c = 0xA0 \<or> c = 0x1680
     \<or> (0x2000 \<le> c \<and> c \<le> 0x200A) \<or> c = 0x2028 \<or> c = 0x2029 \<or> c = 0x202F
     \<or> c = 0x205F \<or> c = 0x3000"

definition trim_chars :: "nat list \<Rightarrow> nat list" where
  "trim_chars cs = rev (dropWhile is_whitespace (rev (dropWhile is_whitespace cs)))"

text \<open>The condition \<open>value.trim() == value\<close>.\<close>

definition is_trimmed :: "string \<Rightarrow> bool" where
  "is_trimmed s \<longleftrightarrow> trim_chars (chars s) = chars s"

lemma trim_chars_id:
  "trim_chars cs = cs \<longleftrightarrow> cs = [] \<or> (\<not> is_whitespace (hd cs) \<and> \<not> is_whitespace (last cs))"
proof (cases "cs = []")
  case True
  then show ?thesis by (simp add: trim_chars_def)
next
  case False
  let ?d = "dropWhile is_whitespace cs"
  show ?thesis
  proof
    assume id: "trim_chars cs = cs"
    have "length (trim_chars cs) \<le> length ?d"
      unfolding trim_chars_def using length_dropWhile_le [of is_whitespace "rev ?d"] by simp
    with id have "?d = cs"
      using length_dropWhile_le [of is_whitespace cs]
      by (metis dropWhile_eq_drop drop_eq_Nil drop0 le_antisym length_drop diff_diff_cancel
          length_takeWhile_le diff_self_eq_0)
    moreover from this id have "dropWhile is_whitespace (rev cs) = rev cs"
      by (metis rev_rev_ident trim_chars_def)
    ultimately have "\<not> is_whitespace (hd cs)" "\<not> is_whitespace (hd (rev cs))"
      using False hd_dropWhile by (metis, metis Nil_is_rev_conv)
    then show "cs = [] \<or> (\<not> is_whitespace (hd cs) \<and> \<not> is_whitespace (last cs))"
      by (simp add: hd_rev)
  next
    assume "cs = [] \<or> (\<not> is_whitespace (hd cs) \<and> \<not> is_whitespace (last cs))"
    with False have h: "\<not> is_whitespace (hd cs)" and l: "\<not> is_whitespace (hd (rev cs))"
      by (simp_all add: hd_rev)
    from False h have "?d = cs" by (cases cs) auto
    moreover from False l have "dropWhile is_whitespace (rev cs) = rev cs"
      by (cases "rev cs") auto
    ultimately show "trim_chars cs = cs" by (simp add: trim_chars_def)
  qed
qed

end
