(* ===== verification/Core_Types.thy ===== *)
theory Core_Types
  imports Prelude
begin

text \<open>
  The data of the core crate (crates/effect-transaction-core/src/lib.rs): limits and domain
  strings, the digest newtype, the outcome enums, the six protocol records, the bundle, the
  results of verification and the error enum. Fields that several structs share carry the
  initials of their struct, because the field names of Isabelle records are global.

  The libraries that the crate calls are the fields of \<open>lib\<close>: SHA-256 (crate sha2), the
  JSON string encoder and the typed deserializers (crates serde and serde\_json).
\<close>

section \<open>Limits and domains\<close>

definition PROFILE_VERSION :: u64 where "PROFILE_VERSION = 1"
definition MAX_SAFE_INTEGER :: u64 where "MAX_SAFE_INTEGER = 9007199254740991"
definition MAX_GRANT_LIFETIME_MS :: u64 where "MAX_GRANT_LIFETIME_MS = 300000"
definition MAX_TRANSPORT_INPUT_BYTES :: nat where "MAX_TRANSPORT_INPUT_BYTES = 1048576"
definition MAX_CANONICAL_NESTING_DEPTH :: nat where "MAX_CANONICAL_NESTING_DEPTH = 64"
definition MAX_CANONICAL_NODES :: nat where "MAX_CANONICAL_NODES = 100000"
definition MAX_RECONCILIATION_RECORDS :: nat where "MAX_RECONCILIATION_RECORDS = 10000"

definition TASK_COMMITMENT_DOMAIN :: string where
  "TASK_COMMITMENT_DOMAIN = ''effect-transaction/0.1/task-commitment''"
definition EFFECT_PROPOSAL_DOMAIN :: string where
  "EFFECT_PROPOSAL_DOMAIN = ''effect-transaction/0.1/effect-proposal''"
definition AUTHORIZATION_DECISION_DOMAIN :: string where
  "AUTHORIZATION_DECISION_DOMAIN = ''effect-transaction/0.1/authorization-decision''"
definition EXECUTION_GRANT_DOMAIN :: string where
  "EXECUTION_GRANT_DOMAIN = ''effect-transaction/0.1/execution-grant''"
definition EFFECT_RECEIPT_DOMAIN :: string where
  "EFFECT_RECEIPT_DOMAIN = ''effect-transaction/0.1/effect-receipt''"
definition RECONCILIATION_RECORD_DOMAIN :: string where
  "RECONCILIATION_RECORD_DOMAIN = ''effect-transaction/0.1/reconciliation-record''"

lemmas domain_defs =
  TASK_COMMITMENT_DOMAIN_def EFFECT_PROPOSAL_DOMAIN_def AUTHORIZATION_DECISION_DOMAIN_def
  EXECUTION_GRANT_DOMAIN_def EFFECT_RECEIPT_DOMAIN_def RECONCILIATION_RECORD_DOMAIN_def

section \<open>Digests and outcomes\<close>

datatype digest32 = Digest32 (as_str: string)

text \<open>The derived order compares the text of the digests.\<close>

instantiation digest32 :: linorder
begin

definition less_eq_digest32 :: "digest32 \<Rightarrow> digest32 \<Rightarrow> bool" where
  "less_eq_digest32 a b \<longleftrightarrow> as_str a \<le> as_str b"

definition less_digest32 :: "digest32 \<Rightarrow> digest32 \<Rightarrow> bool" where
  "less_digest32 a b \<longleftrightarrow> as_str a < as_str b"

instance
  by standard (auto simp: less_eq_digest32_def less_digest32_def digest32.expand)

end

datatype decision_outcome = Allow | Deny | Review

datatype receipt_outcome = NotDispatched | Succeeded | Failed | Unknown

datatype reconciliation_outcome =
  EffectConfirmed | NoEffectConfirmed | PartialEffect | StillUnknown | Compensated

section \<open>Records\<close>

record task_commitment =
  tc_version :: u64
  tc_commitment_id :: string
  tc_principal :: string
  tc_objective_digest :: digest32
  tc_constraints_digest :: digest32
  tc_authority_scope_digest :: digest32
  tc_policy_epoch :: u64
  tc_configuration_epoch :: u64
  tc_created_at_ms :: u64
  tc_expires_at_ms :: u64

record effect_proposal =
  ep_version :: u64
  ep_proposal_id :: string
  ep_commitment_hash :: digest32
  ep_effect_profile :: string
  ep_operation :: string
  ep_target :: string
  ep_arguments_digest :: digest32
  ep_expected_effect_digest :: digest32
  ep_pre_state_digest :: digest32
  ep_resource_claim_digest :: digest32
  ep_created_at_ms :: u64
  ep_expires_at_ms :: u64

record authorization_decision =
  ad_version :: u64
  ad_decision_id :: string
  ad_proposal_hash :: digest32
  ad_evidence_hashes :: "digest32 list"
  ad_outcome :: decision_outcome
  ad_reason_codes :: "string list"
  ad_decided_at_ms :: u64
  ad_expires_at_ms :: u64

record execution_grant =
  eg_version :: u64
  eg_grant_id :: string
  eg_proposal_hash :: digest32
  eg_decision_hash :: digest32
  eg_audience :: string
  eg_not_before_ms :: u64
  eg_expires_at_ms :: u64
  eg_uses :: u64
  eg_nonce :: string

record effect_receipt =
  er_version :: u64
  er_receipt_id :: string
  er_proposal_hash :: digest32
  er_grant_hash :: digest32
  er_attempt_id :: string
  er_claimed_at_ms :: u64
  er_dispatched_at_ms :: "u64 option"
  er_completed_at_ms :: u64
  er_outcome :: receipt_outcome
  er_observation_digest :: digest32

record reconciliation_record =
  rr_version :: u64
  rr_reconciliation_id :: string
  rr_receipt_hash :: digest32
  rr_sequence :: u64
  rr_parent_reconciliation_hash :: "digest32 option"
  rr_observed_at_ms :: u64
  rr_outcome :: reconciliation_outcome
  rr_evidence_digest :: digest32

record transaction_bundle =
  tb_commitment :: task_commitment
  tb_proposal :: effect_proposal
  tb_decision :: authorization_decision
  tb_grant :: "execution_grant option"
  tb_receipt :: "effect_receipt option"
  tb_reconciliations :: "reconciliation_record list"

section \<open>Results of verification\<close>

datatype transaction_state =
  TS_Decided | TS_Granted | TS_NotDispatched | TS_Succeeded | TS_Failed | TS_Unknown
| TS_EffectConfirmed | TS_NoEffectConfirmed | TS_PartialEffect | TS_StillUnknown
| TS_Compensated

record verified_transaction =
  vt_commitment_hash :: digest32
  vt_proposal_hash :: digest32
  vt_decision_hash :: digest32
  vt_grant_hash :: "digest32 option"
  vt_receipt_hash :: "digest32 option"
  vt_reconciliation_hashes :: "digest32 list"
  vt_state :: transaction_state

record verified_decision =
  vd_commitment_hash :: digest32
  vd_proposal_hash :: digest32
  vd_decision_hash :: digest32

record verified_authorization =
  va_commitment_hash :: digest32
  va_proposal_hash :: digest32
  va_decision_hash :: digest32
  va_grant_hash :: digest32

record verified_chain =
  vc_commitment_hash :: digest32
  vc_proposal_hash :: digest32
  vc_decision_hash :: digest32
  vc_grant_hash :: digest32
  vc_receipt_hash :: digest32

section \<open>Errors\<close>

text \<open>
  The payload of \<open>Json\<close> is an error value of serde\_json that only carries a message; it is
  left out.
\<close>

datatype protocol_error =
  Json
| UnsupportedVersion u64
| InvalidDigest
| InvalidBinding string
| DuplicateIdentifier string
| InvalidToken string
| InvalidNonce
| UnsafeInteger string
| UnsafeJsonNumber
| ResourceLimit string
| InvalidTimeWindow
| InvalidNestedWindow string
| NonCanonicalList string
| ListTooLong string
| MissingReasonCode
| MissingAuthorizingEvidence
| GrantMustBeSingleUse
| GrantLifetimeExceeded
| InvalidReceiptTimeline
| ContradictoryDispatchEvidence
| MissingDispatchEvidence
| InvalidSequence
| InvalidReconciliationParent
| InvalidReconciliationTimeline
| ReconciliationAlreadyTerminal
| ChainMismatch string
| MissingPredecessor string
| DecisionDoesNotAuthorize
| ReceiptOutsideGrantWindow
| ReconciliationRequiresUnknown
| StoreUnavailable
| ClockUnavailable
| ClockRollback
| DuplicateGrant
| DecisionAlreadyGranted
| ProposalAlreadyGranted
| UnknownGrant
| ReceiptWithoutClaim
| ReceiptClaimMismatch
| ReceiptAlreadyRecorded
| UnknownReceipt
| ReconciliationFork
| AudienceMismatch
| StaleAuthority
| StalePreState
| StaleResourceClaim
| GrantRevoked
| GrantNotYetValid
| GrantExpired
| GrantAlreadyClaimed

section \<open>The libraries the crate calls\<close>

record lib =
  sha256 :: "string \<Rightarrow> u8 list"
  json_quote :: "string \<Rightarrow> string option"
  from_json_tc :: "string \<Rightarrow> task_commitment option"
  from_json_ep :: "string \<Rightarrow> effect_proposal option"
  from_json_ad :: "string \<Rightarrow> authorization_decision option"
  from_json_eg :: "string \<Rightarrow> execution_grant option"
  from_json_er :: "string \<Rightarrow> effect_receipt option"
  from_json_rr :: "string \<Rightarrow> reconciliation_record option"
  from_json_tb :: "string \<Rightarrow> transaction_bundle option"

end
