(* ===== verification/Validation.thy ===== *)
theory Validation
  imports Core_Types
begin

text \<open>
  The field validators of the core crate (\<open>validate_version\<close> to \<open>format_digest\<close> in
  crates/effect-transaction-core/src/lib.rs), with the facts that the records and the
  stores rely on: what a passed check guarantees, and that a formatted digest is accepted
  by the digest parser exactly when it is not all zero.
\<close>

section \<open>Text\<close>

definition validate_version :: "u64 \<Rightarrow> protocol_error + unit" where
  "validate_version v = ensure (v = PROFILE_VERSION) (UnsupportedVersion v)"

definition validate_nonempty_text :: "string \<Rightarrow> string \<Rightarrow> nat \<Rightarrow> protocol_error + unit" where
  "validate_nonempty_text field value maximum_bytes =
     (if value = [] \<or> length value > maximum_bytes \<or> list_ex is_control (chars value)
      then Inl (InvalidBinding field) else Inr ())"

definition validate_trimmed_text :: "string \<Rightarrow> string \<Rightarrow> nat \<Rightarrow> protocol_error + unit" where
  "validate_trimmed_text field value maximum_bytes =
     checks [validate_nonempty_text field value maximum_bytes,
             ensure (is_trimmed value) (InvalidBinding field)]"

definition validate_identifier :: "string \<Rightarrow> string \<Rightarrow> protocol_error + unit" where
  "validate_identifier field value = validate_trimmed_text field value 256"

definition is_lower :: "char \<Rightarrow> bool" where
  "is_lower b \<longleftrightarrow> CHR ''a'' \<le> b \<and> b \<le> CHR ''z''"

definition is_upper :: "char \<Rightarrow> bool" where
  "is_upper b \<longleftrightarrow> CHR ''A'' \<le> b \<and> b \<le> CHR ''Z''"

definition is_digit :: "char \<Rightarrow> bool" where
  "is_digit b \<longleftrightarrow> CHR ''0'' \<le> b \<and> b \<le> CHR ''9''"

definition token_byte :: "char \<Rightarrow> bool" where
  "token_byte b \<longleftrightarrow> is_lower b \<or> is_digit b \<or> b \<in> set ''._:/-''"

text \<open>The iterator over the bytes is advanced by the first test, so the second sees the rest.\<close>

definition token_shape :: "string \<Rightarrow> bool" where
  "token_shape value =
     (case value of [] \<Rightarrow> False | b # bytes \<Rightarrow> is_lower b \<and> list_all token_byte bytes)"

definition validate_token :: "string \<Rightarrow> string \<Rightarrow> protocol_error + unit" where
  "validate_token field value =
     checks [validate_trimmed_text field value 256,
             ensure (token_shape value) (InvalidToken field)]"

definition validate_nonce :: "string \<Rightarrow> protocol_error + unit" where
  "validate_nonce value =
     (if \<not> (22 \<le> length value \<and> length value \<le> 128)
         \<or> \<not> list_all (\<lambda>b. is_upper b \<or> is_lower b \<or> is_digit b \<or> b \<in> set ''_-'') value
      then Inl InvalidNonce else Inr ())"

section \<open>Integers and windows\<close>

definition validate_safe_integer :: "string \<Rightarrow> u64 \<Rightarrow> protocol_error + unit" where
  "validate_safe_integer field value =
     (if value > MAX_SAFE_INTEGER then Inl (UnsafeInteger field) else Inr ())"

definition validate_window :: "u64 \<Rightarrow> u64 \<Rightarrow> protocol_error + unit" where
  "validate_window start end =
     checks [validate_safe_integer ''window start'' start,
             validate_safe_integer ''window end'' end,
             ensure (\<not> start \<ge> end) InvalidTimeWindow]"

section \<open>Lists\<close>

definition validate_sorted_unique_digests :: "digest32 list \<Rightarrow> nat \<Rightarrow> protocol_error + unit" where
  "validate_sorted_unique_digests values maximum_items =
     checks [ensure (\<not> length values > maximum_items) (ListTooLong ''evidence_hashes''),
             ensure (\<not> windows2_any (\<lambda>a b. a \<ge> b) values) (NonCanonicalList ''evidence_hashes'')]"

definition validate_sorted_unique_tokens ::
    "string \<Rightarrow> string list \<Rightarrow> nat \<Rightarrow> protocol_error + unit" where
  "validate_sorted_unique_tokens field values maximum_items =
     checks ([ensure (\<not> length values > maximum_items) (ListTooLong field)]
             @ map (validate_token field) values
             @ [ensure (\<not> windows2_any (\<lambda>a b. a \<ge> b) values) (NonCanonicalList field)])"

section \<open>Digests\<close>

definition DIGEST_PREFIX :: string where "DIGEST_PREFIX = ''sha256:''"

definition strip_prefix :: "string \<Rightarrow> string \<Rightarrow> string option" where
  "strip_prefix s prefix =
     (if take (length prefix) s = prefix then Some (drop (length prefix) s) else None)"

definition hex_byte :: "char \<Rightarrow> bool" where
  "hex_byte b \<longleftrightarrow> is_digit b \<or> (CHR ''a'' \<le> b \<and> b \<le> CHR ''f'')"

definition validate_digest_text :: "string \<Rightarrow> protocol_error + unit" where
  "validate_digest_text value =
     (case strip_prefix value DIGEST_PREFIX of
        None \<Rightarrow> Inl InvalidDigest
      | Some hex \<Rightarrow>
          if length hex \<noteq> 64 \<or> list_ex (\<lambda>b. \<not> hex_byte b) hex \<or> list_all (\<lambda>b. b = CHR ''0'') hex
          then Inl InvalidDigest else Inr ())"

definition HEX :: string where "HEX = ''0123456789abcdef''"

unbundle bit_operations_syntax

definition format_digest :: "u8 list \<Rightarrow> string" where
  "format_digest bytes =
     DIGEST_PREFIX @ concat (map (\<lambda>b. [HEX ! unat (drop_bit 4 b), HEX ! unat (b AND 0x0f)]) bytes)"

text \<open>\<open>Digest32::parse\<close>, \<open>Digest32::from_payload\<close> and \<open>Digest32\<close>'s deserializer.\<close>

definition parse_digest :: "string \<Rightarrow> protocol_error + digest32" where
  "parse_digest value = rbind (validate_digest_text value) (\<lambda>_. Inr (Digest32 value))"

definition from_payload :: "lib \<Rightarrow> string \<Rightarrow> digest32" where
  "from_payload L payload = Digest32 (format_digest (sha256 L payload))"

definition deserialize_digest :: "string \<Rightarrow> digest32 option" where
  "deserialize_digest value =
     (case parse_digest value of Inl e \<Rightarrow> None | Inr d \<Rightarrow> Some d)"

section \<open>What a passed check guarantees\<close>

lemma validate_version_ok [ok_iff]: "validate_version v = Inr u \<longleftrightarrow> v = 1"
  by (simp add: validate_version_def ensure_ok PROFILE_VERSION_def)

lemma validate_safe_integer_ok [ok_iff]:
  "validate_safe_integer f v = Inr u \<longleftrightarrow> v \<le> MAX_SAFE_INTEGER"
  by (auto simp: validate_safe_integer_def)

lemma validate_window_ok [ok_iff]:
  "validate_window s e = Inr u \<longleftrightarrow> s < e \<and> e \<le> MAX_SAFE_INTEGER"
  by (auto simp: validate_window_def ok_iff)

lemma validate_sorted_unique_digests_ok [ok_iff]:
  "validate_sorted_unique_digests ds n = Inr u \<longleftrightarrow> length ds \<le> n \<and> sorted_wrt (<) ds"
  by (auto simp: validate_sorted_unique_digests_def ok_iff windows2_any_sorted)

lemma validate_sorted_unique_tokens_ok [ok_iff]:
  "validate_sorted_unique_tokens f ts n = Inr u \<longleftrightarrow>
     length ts \<le> n \<and> (\<forall>t \<in> set ts. validate_token f t = Inr ()) \<and> sorted_wrt (<) ts"
  by (auto simp: validate_sorted_unique_tokens_def rbind_ok checks_ok ensure_ok windows2_any_sorted)

lemma safe_integer_int:
  "v \<le> MAX_SAFE_INTEGER \<Longrightarrow> uint v \<le> 9007199254740991"
  by (simp add: MAX_SAFE_INTEGER_def word_le_def)

section \<open>Digest text\<close>

lemma HEX_length [simp]: "length HEX = 16"
  by (simp add: HEX_def)

lemma HEX_inj: "m < 16 \<Longrightarrow> n < 16 \<Longrightarrow> HEX ! m = HEX ! n \<longleftrightarrow> m = n"
proof -
  have "distinct HEX" by (simp add: HEX_def)
  then show "m < 16 \<Longrightarrow> n < 16 \<Longrightarrow> HEX ! m = HEX ! n \<longleftrightarrow> m = n"
    by (simp add: nth_eq_iff_index_eq)
qed

lemma HEX_nth:
  assumes "n < 16"
  shows "hex_byte (HEX ! n)" and "HEX ! n = CHR ''0'' \<longleftrightarrow> n = 0"
proof -
  have "list_all hex_byte HEX" by (simp add: HEX_def hex_byte_def is_digit_def)
  with assms show "hex_byte (HEX ! n)" by (simp add: list_all_length)
  have "HEX ! 0 = CHR ''0''" by (simp add: HEX_def)
  with assms show "HEX ! n = CHR ''0'' \<longleftrightarrow> n = 0" using HEX_inj [of n 0] by simp
qed

lemma high_nibble: "unat (drop_bit 4 (b :: u8)) = unat b div 16"
  by (simp add: drop_bit_eq_div unat_div_distrib)

lemma low_nibble: "unat ((b :: u8) AND 0x0f) = unat b mod 16"
proof -
  have "(0x0f :: u8) = mask 4" by (simp add: mask_eq_exp_minus_1)
  then have "b AND 0x0f = take_bit 4 b" by (simp only: take_bit_eq_mask)
  then show ?thesis by (simp add: take_bit_eq_mod unat_mod_distrib)
qed

definition hex2 :: "u8 \<Rightarrow> string" where
  "hex2 b = [HEX ! (unat b div 16), HEX ! (unat b mod 16)]"

lemma format_digest_hex2: "format_digest bs = DIGEST_PREFIX @ concat (map hex2 bs)"
  by (simp only: format_digest_def hex2_def [abs_def] high_nibble low_nibble)

lemma nibble_bounds: "unat (b :: u8) div 16 < 16" "unat b mod 16 < 16"
  using unsigned_less [of b, where 'a = nat] by (simp_all add: less_mult_imp_div_less)

lemma hex2_props:
  "length (hex2 b) = 2" "list_all hex_byte (hex2 b)"
  "list_all (\<lambda>c. c = CHR ''0'') (hex2 b) \<longleftrightarrow> b = 0"
proof -
  show "length (hex2 b) = 2" "list_all hex_byte (hex2 b)"
    by (simp_all add: hex2_def HEX_nth nibble_bounds)
  have "list_all (\<lambda>c. c = CHR ''0'') (hex2 b) \<longleftrightarrow> unat b div 16 = 0 \<and> unat b mod 16 = 0"
    by (simp add: hex2_def HEX_nth(2) nibble_bounds)
  also have "\<dots> \<longleftrightarrow> unat b = 0" using div_mult_mod_eq [of "unat b" 16] by auto
  finally show "list_all (\<lambda>c. c = CHR ''0'') (hex2 b) \<longleftrightarrow> b = 0"
    by (simp add: unat_eq_zero)
qed

lemma hex2_inj: "hex2 a = hex2 b \<longleftrightarrow> a = b"
proof
  assume "hex2 a = hex2 b"
  then have "unat a div 16 = unat b div 16" "unat a mod 16 = unat b mod 16"
    by (simp_all add: hex2_def HEX_inj nibble_bounds)
  then have "unat a = unat b" by (metis div_mult_mod_eq)
  then show "a = b" by (simp add: word_unat_eq_iff)
qed simp

lemma concat_hex2_props:
  "length (concat (map hex2 bs)) = 2 * length bs"
  "list_all hex_byte (concat (map hex2 bs))"
  "list_all (\<lambda>c. c = CHR ''0'') (concat (map hex2 bs)) \<longleftrightarrow> (\<forall>b \<in> set bs. b = 0)"
  by (induction bs) (auto simp: hex2_props list_all_append)

lemma concat_hex2_inj: "concat (map hex2 as) = concat (map hex2 bs) \<Longrightarrow> as = bs"
proof (induction as arbitrary: bs)
  case Nil
  then show ?case by (cases bs) (auto simp: hex2_def)
next
  case (Cons a as)
  then show ?case
    by (cases bs) (auto simp: hex2_props append_eq_append_conv hex2_inj, auto simp: hex2_def)
qed

lemma format_digest_inj: "format_digest as = format_digest bs \<longleftrightarrow> as = bs"
  using concat_hex2_inj by (auto simp: format_digest_hex2)

lemma strip_prefix_append [simp]: "strip_prefix (p @ s) p = Some s"
  by (simp add: strip_prefix_def)

lemma format_digest_valid:
  assumes "length bs = 32"
  shows "validate_digest_text (format_digest bs) = Inr () \<longleftrightarrow> (\<exists>b \<in> set bs. b \<noteq> 0)"
proof -
  have "list_ex (\<lambda>b. \<not> hex_byte b) (concat (map hex2 bs)) \<longleftrightarrow> False"
    using concat_hex2_props(2) [of bs] by (auto simp: list_ex_iff list_all_iff)
  with assms show ?thesis
    by (simp add: validate_digest_text_def format_digest_hex2 concat_hex2_props)
qed

lemma deserialize_digest_Some:
  "deserialize_digest s = Some d \<longleftrightarrow> validate_digest_text s = Inr () \<and> d = Digest32 s"
  by (auto simp: deserialize_digest_def parse_digest_def rbind_ok split: sum.splits)

end
