(* ===== verification/Canonical_Json.thy ===== *)
theory Canonical_Json
  imports Validation
begin

text \<open>
  Canonical ETP JSON (\<open>canonical_json\<close>, \<open>validate_value_budget\<close>,
  \<open>encode_canonical_value\<close> and \<open>hash_record\<close> of
  crates/effect-transaction-core/src/lib.rs): the budget check against its reference
  (the nesting depth and the number of values), and the conditions under which a value is
  encoded.

  \<open>jvalue\<close> is \<open>serde_json::Value\<close>. An integer number carries its value and a float no
  payload, as the code only rejects it. An object is the list of its entries; the
  \<open>serde_json::Map\<close> behind it is a \<open>BTreeMap\<close>, so the code iterates it in key order.
  The encoder of one JSON string is the library function \<open>json_quote\<close>.
\<close>

section \<open>Values\<close>

datatype jnumber = JInt int | JFloat

datatype jvalue =
  JNull
| JBool bool
| JNumber jnumber
| JString string
| JArray "jvalue list"
| JObject "(string \<times> jvalue) list"

definition as_i64 :: "jnumber \<Rightarrow> int option" where
  "as_i64 n = (case n of
     JInt i \<Rightarrow> if - (2 ^ 63) \<le> i \<and> i < 2 ^ 63 then Some i else None
   | JFloat \<Rightarrow> None)"

definition as_u64 :: "jnumber \<Rightarrow> int option" where
  "as_u64 n = (case n of
     JInt i \<Rightarrow> if 0 \<le> i \<and> i < 2 ^ 64 then Some i else None
   | JFloat \<Rightarrow> None)"

definition MAX_SAFE :: int where "MAX_SAFE = uint MAX_SAFE_INTEGER"

lemma MAX_SAFE_val: "MAX_SAFE = 9007199254740991"
  by (simp add: MAX_SAFE_def MAX_SAFE_INTEGER_def)

text \<open>The values an array or an object holds, in iteration order.\<close>

definition children :: "jvalue \<Rightarrow> jvalue list" where
  "children v = (case v of
     JArray vs \<Rightarrow> vs
   | JObject kvs \<Rightarrow> map snd (sort_key fst kvs)
   | _ \<Rightarrow> [])"

lemma children_simps [simp]:
  "children JNull = []" "children (JBool b) = []" "children (JNumber n) = []"
  "children (JString s) = []" "children (JArray vs) = vs"
  "children (JObject kvs) = map snd (sort_key fst kvs)"
  by (simp_all add: children_def)

lemma children_size: "c \<in> set (children v) \<Longrightarrow> size c < size v"
proof (cases v)
  case (JArray vs)
  assume "c \<in> set (children v)"
  with JArray have "c \<in> set vs" by simp
  then show ?thesis unfolding JArray by (induction vs) auto
next
  case (JObject kvs)
  assume "c \<in> set (children v)"
  with JObject obtain k where "(k, c) \<in> set kvs" by auto
  then have "size c < size (JObject kvs)" by (induction kvs) auto
  with JObject show ?thesis by simp
qed auto

lemma jvalue_induct_children [case_names step]:
  assumes "\<And>v. (\<And>c. c \<in> set (children v) \<Longrightarrow> P c) \<Longrightarrow> P v"
  shows "P v"
  by (induction v rule: measure_induct_rule [of size]) (blast intro: assms children_size)

section \<open>The budget\<close>

definition USIZE_LIMIT :: nat where "USIZE_LIMIT = 2 ^ 64"

definition checked_add1 :: "nat \<Rightarrow> nat option" where
  "checked_add1 n = (if n + 1 < USIZE_LIMIT then Some (n + 1) else None)"

text \<open>The counter \<open>nodes\<close> is a mutable reference in the code; here it is argument and result.\<close>

function validate_value_budget :: "jvalue \<Rightarrow> nat \<Rightarrow> nat \<Rightarrow> protocol_error + nat" where
  "validate_value_budget v depth nodes =
     (if depth > MAX_CANONICAL_NESTING_DEPTH then Inl (ResourceLimit ''JSON nesting depth'')
      else rbind (ok_or (checked_add1 nodes) (ResourceLimit ''JSON nodes'')) (\<lambda>nodes.
        if nodes > MAX_CANONICAL_NODES then Inl (ResourceLimit ''JSON nodes'')
        else for_each (\<lambda>child nodes. validate_value_budget child (depth + 1) nodes)
               (children v) nodes))"
  by pat_completeness auto
termination
  by (relation "measure (\<lambda>(v, depth, nodes). size v)") (auto intro: children_size)

declare validate_value_budget.simps [simp del]

text \<open>The reference: nesting depth (a scalar has depth 1) and number of values.\<close>

function jdepth :: "jvalue \<Rightarrow> nat" where
  "jdepth v = Suc (Max (set (0 # map jdepth (children v))))"
  by pat_completeness auto
termination
  by (relation "measure size") (auto intro: children_size)

function jnodes :: "jvalue \<Rightarrow> nat" where
  "jnodes v = Suc (sum_list (map jnodes (children v)))"
  by pat_completeness auto
termination
  by (relation "measure size") (auto intro: children_size)

declare jdepth.simps [simp del] jnodes.simps [simp del]

lemma jdepth_le:
  "jdepth v + d \<le> b \<longleftrightarrow> Suc d \<le> b \<and> (\<forall>c \<in> set (children v). jdepth c + Suc d \<le> b)"
proof -
  let ?A = "insert 0 (jdepth ` set (children v))"
  have "Max ?A \<in> ?A" and "\<forall>x \<in> ?A. x \<le> Max ?A"
    by (intro Max_in) auto
  moreover have "jdepth v = Suc (Max ?A)" by (subst jdepth.simps) simp
  ultimately show ?thesis by fastforce
qed

text \<open>The loop over the children, given that the check is right for each child.\<close>

lemma budget_children:
  assumes "\<And>c k n. c \<in> set cs \<Longrightarrow> k \<le> MAX_CANONICAL_NODES \<Longrightarrow>
      validate_value_budget c (Suc depth) k = Inr n \<longleftrightarrow>
        jdepth c + depth \<le> MAX_CANONICAL_NESTING_DEPTH \<and> n = k + jnodes c
        \<and> n \<le> MAX_CANONICAL_NODES"
    and "k \<le> MAX_CANONICAL_NODES"
  shows "for_each (\<lambda>c k. validate_value_budget c (Suc depth) k) cs k = Inr n \<longleftrightarrow>
      (\<forall>c \<in> set cs. jdepth c + depth \<le> MAX_CANONICAL_NESTING_DEPTH)
      \<and> n = k + sum_list (map jnodes cs) \<and> n \<le> MAX_CANONICAL_NODES"
  using assms
proof (induction cs arbitrary: k)
  case Nil
  then show ?case by auto
next
  case (Cons c cs)
  have c: "validate_value_budget c (Suc depth) k = Inr m \<longleftrightarrow>
      jdepth c + depth \<le> MAX_CANONICAL_NESTING_DEPTH \<and> m = k + jnodes c
      \<and> m \<le> MAX_CANONICAL_NODES" for m
    using Cons.prems by simp
  have cs: "m \<le> MAX_CANONICAL_NODES \<Longrightarrow>
      for_each (\<lambda>c k. validate_value_budget c (Suc depth) k) cs m = Inr n \<longleftrightarrow>
      (\<forall>c \<in> set cs. jdepth c + depth \<le> MAX_CANONICAL_NESTING_DEPTH)
      \<and> n = m + sum_list (map jnodes cs) \<and> n \<le> MAX_CANONICAL_NODES" for m
    using Cons.IH Cons.prems by simp
  show ?case using cs [of "k + jnodes c"] by (auto simp: rbind_ok c)
qed

lemma validate_value_budget_iff:
  "k \<le> MAX_CANONICAL_NODES \<Longrightarrow>
   validate_value_budget v (Suc depth) k = Inr n \<longleftrightarrow>
     jdepth v + depth \<le> MAX_CANONICAL_NESTING_DEPTH \<and> n = k + jnodes v
     \<and> n \<le> MAX_CANONICAL_NODES"
proof (induction v arbitrary: depth k n rule: jvalue_induct_children)
  case (step v)
  have loop: "m \<le> MAX_CANONICAL_NODES \<Longrightarrow>
      for_each (\<lambda>c k. validate_value_budget c (Suc (Suc depth)) k) (children v) m = Inr n \<longleftrightarrow>
      (\<forall>c \<in> set (children v). jdepth c + Suc depth \<le> MAX_CANONICAL_NESTING_DEPTH)
      \<and> n = m + sum_list (map jnodes (children v)) \<and> n \<le> MAX_CANONICAL_NODES" for m
    by (rule budget_children) (use step.IH in auto)
  have add: "checked_add1 k = Some (Suc k)"
    using step.prems by (simp add: checked_add1_def USIZE_LIMIT_def MAX_CANONICAL_NODES_def)
  show ?case
    by (subst validate_value_budget.simps)
       (auto simp: add loop jdepth_le [of v] jnodes.simps [of v] not_less not_le)
qed

section \<open>The encoder\<close>

text \<open>\<open>to_string\<close> of an integer, in decimal.\<close>

definition DIGITS :: string where "DIGITS = ''0123456789''"

fun decimal :: "nat \<Rightarrow> string" where
  "decimal n = (if n < 10 then [DIGITS ! n] else decimal (n div 10) @ [DIGITS ! (n mod 10)])"

declare decimal.simps [simp del]

definition int_to_string :: "int \<Rightarrow> string" where
  "int_to_string i = (if i < 0 then CHR ''-'' # decimal (nat (- i)) else decimal (nat i))"

definition encode_number :: "jnumber \<Rightarrow> protocol_error + string" where
  "encode_number n =
     (case as_i64 n of
        Some number \<Rightarrow>
          if \<bar>number\<bar> > MAX_SAFE then Inl UnsafeJsonNumber else Inr (int_to_string number)
      | None \<Rightarrow>
          (case as_u64 n of
             Some number \<Rightarrow>
               if number > MAX_SAFE then Inl UnsafeJsonNumber else Inr (int_to_string number)
           | None \<Rightarrow> Inl UnsafeJsonNumber))"

fun join_comma :: "string list \<Rightarrow> string" where
  "join_comma [] = []"
| "join_comma [p] = p"
| "join_comma (p # q # ps) = p @ CHR '','' # join_comma (q # ps)"

function encode_canonical_value :: "lib \<Rightarrow> jvalue \<Rightarrow> protocol_error + string" where
  "encode_canonical_value L v =
     (case v of
        JNull \<Rightarrow> Inr ''null''
      | JBool b \<Rightarrow> Inr (if b then ''true'' else ''false'')
      | JNumber n \<Rightarrow> encode_number n
      | JString s \<Rightarrow> ok_or (json_quote L s) Json
      | JArray vs \<Rightarrow>
          rbind (traverse (encode_canonical_value L) vs) (\<lambda>ps. Inr (CHR ''['' # join_comma ps @ '']''))
      | JObject kvs \<Rightarrow>
          rbind (traverse (\<lambda>kv.
                   rbind (ok_or (json_quote L (fst kv)) Json) (\<lambda>key.
                   rbind (encode_canonical_value L (snd kv)) (\<lambda>text.
                   Inr (key @ CHR '':'' # text)))) (sort_key fst kvs))
                (\<lambda>ps. Inr (CHR ''{'' # join_comma ps @ ''}'')))"
  by pat_completeness auto
termination
proof (relation "measure (\<lambda>(L, v). size v)")
  fix L :: lib and v :: jvalue and vs c
  assume "v = JArray vs" "c \<in> set vs"
  then show "((L, c), (L, v)) \<in> measure (\<lambda>(L, v). size v)"
    using children_size [of c v] by simp
next
  fix L :: lib and v :: jvalue and kvs kv key
  assume "v = JObject kvs" "kv \<in> set (sort_key fst kvs)"
  then show "((L, snd kv), (L, v)) \<in> measure (\<lambda>(L, v). size v)"
    using children_size [of "snd kv" v] by simp
qed simp

declare encode_canonical_value.simps [simp del]

lemma encode_simps:
  "encode_canonical_value L JNull = Inr ''null''"
  "encode_canonical_value L (JBool b) = Inr (if b then ''true'' else ''false'')"
  "encode_canonical_value L (JNumber n) = encode_number n"
  "encode_canonical_value L (JString s) = ok_or (json_quote L s) Json"
  "encode_canonical_value L (JArray vs) =
     rbind (traverse (encode_canonical_value L) vs) (\<lambda>ps. Inr (CHR ''['' # join_comma ps @ '']''))"
  by (subst encode_canonical_value.simps; simp)+

definition encode_entry :: "lib \<Rightarrow> string \<times> jvalue \<Rightarrow> protocol_error + string" where
  "encode_entry L kv =
     rbind (ok_or (json_quote L (fst kv)) Json) (\<lambda>key.
     rbind (encode_canonical_value L (snd kv)) (\<lambda>text. Inr (key @ CHR '':'' # text)))"

lemma encode_object:
  "encode_canonical_value L (JObject kvs) =
     rbind (traverse (encode_entry L) (sort_key fst kvs))
       (\<lambda>ps. Inr (CHR ''{'' # join_comma ps @ ''}''))"
  by (subst encode_canonical_value.simps) (simp add: encode_entry_def [abs_def])

definition canonical_json :: "lib \<Rightarrow> jvalue \<Rightarrow> protocol_error + string" where
  "canonical_json L value =
     rbind (validate_value_budget value 1 0) (\<lambda>_. encode_canonical_value L value)"

definition hash_record :: "lib \<Rightarrow> string \<Rightarrow> jvalue \<Rightarrow> protocol_error + digest32" where
  "hash_record L domain record =
     rbind (canonical_json L record) (\<lambda>canonical.
     Inr (Digest32 (format_digest (sha256 L (domain @ [CHR 0x00] @ canonical)))))"

section \<open>Success of the encoder\<close>

lemma encode_number_ok [ok_iff]:
  "encode_number n = Inr s \<longleftrightarrow> (\<exists>i. n = JInt i \<and> \<bar>i\<bar> \<le> MAX_SAFE \<and> s = int_to_string i)"
  by (auto simp: encode_number_def as_i64_def as_u64_def MAX_SAFE_val
      split: jnumber.splits option.splits if_splits)

text \<open>A value without unsafe numbers, the only reason of its own the encoder has to fail.\<close>

function safe_numbers :: "jvalue \<Rightarrow> bool" where
  "safe_numbers v =
     ((case v of JNumber n \<Rightarrow> (case n of JInt i \<Rightarrow> \<bar>i\<bar> \<le> MAX_SAFE | JFloat \<Rightarrow> False) | _ \<Rightarrow> True)
      \<and> list_all safe_numbers (children v))"
  by pat_completeness auto
termination
  by (relation "measure size") (auto intro: children_size)

declare safe_numbers.simps [simp del]

lemma safe_numbers_simps [simp]:
  "safe_numbers JNull" "safe_numbers (JBool b)" "safe_numbers (JString s)"
  "safe_numbers (JNumber (JInt i)) \<longleftrightarrow> \<bar>i\<bar> \<le> MAX_SAFE"
  "\<not> safe_numbers (JNumber JFloat)"
  "safe_numbers (JArray vs) \<longleftrightarrow> (\<forall>v \<in> set vs. safe_numbers v)"
  "safe_numbers (JObject kvs) \<longleftrightarrow> (\<forall>kv \<in> set kvs. safe_numbers (snd kv))"
  by (subst safe_numbers.simps; auto simp: list_all_iff)+

definition quotes :: "lib \<Rightarrow> bool" where
  "quotes L \<longleftrightarrow> (\<forall>s. json_quote L s \<noteq> None)"

lemma encode_ok_iff:
  assumes "quotes L"
  shows "(\<exists>s. encode_canonical_value L v = Inr s) \<longleftrightarrow> safe_numbers v"
proof (induction v rule: jvalue_induct_children)
  case (step v)
  note q = assms [unfolded quotes_def, rule_format]
  show ?case
  proof (cases v)
    case (JNumber n)
    then show ?thesis by (cases n) (auto simp: encode_simps ok_iff)
  next
    case (JString s)
    with q [of s] show ?thesis
      by (auto simp: encode_simps ok_iff)
  next
    case (JArray vs)
    with step.IH show ?thesis
      by (auto simp: encode_simps rbind_ok traverse_ok_ex)
  next
    case (JObject kvs)
    have "(\<exists>t. encode_entry L kv = Inr t) \<longleftrightarrow> safe_numbers (snd kv)" if "kv \<in> set kvs" for kv
      using that step.IH [of "snd kv"] q [of "fst kv"] JObject
      by (auto simp: encode_entry_def rbind_ok ok_or_ok)
    then show ?thesis
      by (auto simp: JObject encode_object rbind_ok traverse_ok_ex)
  qed (simp_all add: encode_simps)
qed

lemma canonical_json_ok_iff:
  assumes "quotes L"
  shows "(\<exists>s. canonical_json L v = Inr s) \<longleftrightarrow>
    safe_numbers v \<and> jdepth v \<le> MAX_CANONICAL_NESTING_DEPTH \<and> jnodes v \<le> MAX_CANONICAL_NODES"
proof -
  have "validate_value_budget v 1 0 = Inr n \<longleftrightarrow>
      jdepth v \<le> MAX_CANONICAL_NESTING_DEPTH \<and> n = jnodes v \<and> n \<le> MAX_CANONICAL_NODES" for n
    using validate_value_budget_iff [of 0 v 0 n] by simp
  then show ?thesis
    using encode_ok_iff [OF assms, of v] by (auto simp: canonical_json_def rbind_ok)
qed

end
