(* ===== verification/Json_Reader.thy ===== *)
theory Json_Reader
  imports Canonical_Json
begin

text \<open>
  A reader for canonical text, the reference against which the encoder is judged: the
  string encoding that section 5.2 of SPEC.md prescribes (\<open>spec_quote\<close>), a reader for
  values, and the theorem that the reader recovers from \<open>encode_canonical_value\<close> the value
  up to the order of object entries. The encoder is therefore injective, and texts never
  run into each other.

  The code calls serde\_json for the strings; \<open>quote_conforms\<close> states that this library
  encodes every string as SPEC.md requires.
\<close>

section \<open>The string encoding of SPEC.md 5.2\<close>

definition escape :: "char \<Rightarrow> string" where
  "escape c =
     (if c = CHR 0x22 then [CHR 0x5C, CHR 0x22]
      else if c = CHR 0x5C then [CHR 0x5C, CHR 0x5C]
      else if c = CHR 0x08 then [CHR 0x5C, CHR ''b'']
      else if c = CHR 0x09 then [CHR 0x5C, CHR ''t'']
      else if c = CHR 0x0A then [CHR 0x5C, CHR ''n'']
      else if c = CHR 0x0C then [CHR 0x5C, CHR ''f'']
      else if c = CHR 0x0D then [CHR 0x5C, CHR ''r'']
      else if of_char c < (0x20 :: nat) then
        CHR 0x5C # ''u00'' @ [HEX ! (of_char c div 16), HEX ! (of_char c mod 16)]
      else [c])"

definition spec_quote :: "string \<Rightarrow> string" where
  "spec_quote s = CHR 0x22 # concat (map escape s) @ [CHR 0x22]"

definition quote_conforms :: "lib \<Rightarrow> bool" where
  "quote_conforms L \<longleftrightarrow> (\<forall>s. json_quote L s = Some (spec_quote s))"

lemma quote_conforms_quotes: "quote_conforms L \<Longrightarrow> quotes L"
  by (simp add: quote_conforms_def quotes_def)

section \<open>Reading strings\<close>

definition hexval :: "char \<Rightarrow> nat option" where
  "hexval c = find (\<lambda>i. HEX ! i = c) [0..<16]"

lemma hexval_HEX: "n < 16 \<Longrightarrow> hexval (HEX ! n) = Some n"
proof -
  assume n: "n < 16"
  then have "[0..<16] ! n = n" by simp
  with n show ?thesis
    unfolding hexval_def find_Some_iff
    by (intro exI [of _ n]) (auto simp: HEX_inj)
qed

definition unescape1 :: "char \<Rightarrow> char option" where
  "unescape1 e =
     (if e = CHR 0x22 then Some (CHR 0x22)
      else if e = CHR 0x5C then Some (CHR 0x5C)
      else if e = CHR ''b'' then Some (CHR 0x08)
      else if e = CHR ''t'' then Some (CHR 0x09)
      else if e = CHR ''n'' then Some (CHR 0x0A)
      else if e = CHR ''f'' then Some (CHR 0x0C)
      else if e = CHR ''r'' then Some (CHR 0x0D)
      else None)"

fun read_body :: "string \<Rightarrow> (string \<times> string) option" where
  "read_body [] = None"
| "read_body (c # r) =
     (if c = CHR 0x22 then Some ([], r)
      else if c = CHR 0x5C then
        (case r of
           [] \<Rightarrow> None
         | e # r' \<Rightarrow>
             if e = CHR ''u'' then
               (case r' of
                  z # y # h # l # r'' \<Rightarrow>
                    (case (hexval h, hexval l) of
                       (Some a, Some b) \<Rightarrow>
                         map_option (\<lambda>(s, t). (char_of (16 * a + b) # s, t)) (read_body r'')
                     | _ \<Rightarrow> None)
                | _ \<Rightarrow> None)
             else
               (case unescape1 e of
                  None \<Rightarrow> None
                | Some x \<Rightarrow> map_option (\<lambda>(s, t). (x # s, t)) (read_body r')))
      else map_option (\<lambda>(s, t). (c # s, t)) (read_body r))"

lemma read_body_escape:
  "read_body (escape c @ t) = map_option (\<lambda>(s, r). (c # s, r)) (read_body t)"
proof (cases "of_char c < (0x20 :: nat) \<and> c \<notin> {CHR 0x08, CHR 0x09, CHR 0x0A, CHR 0x0C, CHR 0x0D}")
  case True
  let ?n = "of_char c :: nat"
  from True have n: "?n < 32" by simp
  then have ch: "char_of (16 * (?n div 16) + ?n mod 16) = c"
    by (simp only: mult_div_mod_eq char_of_char)
  have "c \<noteq> CHR 0x22" "c \<noteq> CHR 0x5C" using n by auto
  with True have "escape c = CHR 0x5C # ''u00'' @ [HEX ! (?n div 16), HEX ! (?n mod 16)]"
    by (simp add: escape_def)
  moreover from n have "hexval (HEX ! (?n div 16)) = Some (?n div 16)"
    "hexval (HEX ! (?n mod 16)) = Some (?n mod 16)"
    by (intro hexval_HEX; simp)+
  ultimately show ?thesis by (simp add: ch del: mult_div_mod_eq)
next
  case False
  then show ?thesis by (auto simp: escape_def unescape1_def)
qed

lemma read_body_quote: "read_body (concat (map escape s) @ CHR 0x22 # t) = Some (s, t)"
  by (induction s) (simp_all add: read_body_escape)

section \<open>Reading numbers\<close>

definition digit_val :: "char \<Rightarrow> nat" where
  "digit_val c = of_char c - 48"

definition undecimal :: "string \<Rightarrow> nat" where
  "undecimal s = foldl (\<lambda>n c. 10 * n + digit_val c) 0 s"

lemma DIGITS_nth: "n < 10 \<Longrightarrow> is_digit (DIGITS ! n)" "n < 10 \<Longrightarrow> digit_val (DIGITS ! n) = n"
proof -
  have "list_all is_digit DIGITS" "map digit_val DIGITS = [0..<10]"
    by (simp_all add: DIGITS_def is_digit_def digit_val_def upt_rec)
  moreover have "length DIGITS = 10" by (simp add: DIGITS_def)
  ultimately show "n < 10 \<Longrightarrow> is_digit (DIGITS ! n)" "n < 10 \<Longrightarrow> digit_val (DIGITS ! n) = n"
    by (simp add: list_all_length, metis add_0 length_map nth_map nth_upt length_upt diff_zero)
qed

lemma decimal_props: "decimal n \<noteq> [] \<and> list_all is_digit (decimal n) \<and> undecimal (decimal n) = n"
proof (induction n rule: decimal.induct)
  case (1 n)
  show ?case
  proof (cases "n < 10")
    case True
    then show ?thesis
      by (subst (1 2 3) decimal.simps) (simp add: DIGITS_nth undecimal_def)
  next
    case False
    with 1 have IH: "list_all is_digit (decimal (n div 10))" "undecimal (decimal (n div 10)) = n div 10"
      by simp_all
    have "undecimal (decimal (n div 10) @ [DIGITS ! (n mod 10)]) = 10 * (n div 10) + n mod 10"
      using IH(2) by (simp add: undecimal_def DIGITS_nth)
    moreover have "decimal n = decimal (n div 10) @ [DIGITS ! (n mod 10)]"
      using False by (subst decimal.simps) simp
    ultimately show ?thesis using IH(1) by (simp add: DIGITS_nth)
  qed
qed

definition read_number :: "string \<Rightarrow> (int \<times> string) option" where
  "read_number s =
     (case s of
        [] \<Rightarrow> None
      | c # r \<Rightarrow>
          if c = CHR ''-'' then Some (- int (undecimal (takeWhile is_digit r)), dropWhile is_digit r)
          else if is_digit c then Some (int (undecimal (takeWhile is_digit s)), dropWhile is_digit s)
          else None)"

definition delimited :: "string \<Rightarrow> bool" where
  "delimited t \<longleftrightarrow> t = [] \<or> \<not> is_digit (hd t)"

lemma digits_delimited:
  assumes "list_all is_digit ds" "delimited t"
  shows "takeWhile is_digit (ds @ t) = ds" "dropWhile is_digit (ds @ t) = t"
proof -
  from assms(1) have "\<forall>c \<in> set ds. is_digit c" by (simp add: list_all_iff)
  moreover from assms(2) have "takeWhile is_digit t = []" "dropWhile is_digit t = t"
    by (cases t; simp add: delimited_def)+
  ultimately show "takeWhile is_digit (ds @ t) = ds" "dropWhile is_digit (ds @ t) = t"
    by simp_all
qed

lemma minus_no_digit [simp]: "\<not> is_digit (CHR ''-'')"
  by (simp add: is_digit_def)

lemma decimal_hd: "is_digit (hd (decimal n))"
  using decimal_props [of n] by (cases "decimal n") auto

lemma read_number_int:
  assumes "delimited t"
  shows "read_number (int_to_string i @ t) = Some (i, t)"
proof (cases "i < 0")
  case True
  with digits_delimited [OF _ assms, of "decimal (nat (- i))"] decimal_props [of "nat (- i)"]
  show ?thesis by (simp add: read_number_def int_to_string_def)
next
  case False
  let ?d = "decimal (nat i)"
  obtain c r where cr: "?d = c # r" using decimal_props [of "nat i"] by (cases ?d) auto
  with decimal_hd [of "nat i"] have "is_digit c" by simp
  then have "c \<noteq> CHR ''-''" by auto
  with False cr \<open>is_digit c\<close> digits_delimited [OF _ assms, of ?d] decimal_props [of "nat i"]
  show ?thesis by (simp add: read_number_def int_to_string_def)
qed

section \<open>Reading values\<close>

text \<open>Every call spends one unit of fuel; \<open>read_json\<close> below supplies enough.\<close>

fun read_value :: "nat \<Rightarrow> string \<Rightarrow> (jvalue \<times> string) option"
  and read_elems :: "nat \<Rightarrow> string \<Rightarrow> (jvalue list \<times> string) option"
  and read_members :: "nat \<Rightarrow> string \<Rightarrow> ((string \<times> jvalue) list \<times> string) option" where
  "read_value 0 s = None"
| "read_value (Suc f) s =
     (case s of
        [] \<Rightarrow> None
      | c # r \<Rightarrow>
          if c = CHR ''n'' then map_option (\<lambda>t. (JNull, t)) (strip_prefix r ''ull'')
          else if c = CHR ''t'' then map_option (\<lambda>t. (JBool True, t)) (strip_prefix r ''rue'')
          else if c = CHR ''f'' then map_option (\<lambda>t. (JBool False, t)) (strip_prefix r ''alse'')
          else if c = CHR 0x22 then map_option (\<lambda>(k, t). (JString k, t)) (read_body r)
          else if c = CHR ''['' then
            (if r \<noteq> [] \<and> hd r = CHR '']'' then Some (JArray [], tl r)
             else map_option (\<lambda>(vs, t). (JArray vs, t)) (read_elems f r))
          else if c = CHR ''{'' then
            (if r \<noteq> [] \<and> hd r = CHR ''}'' then Some (JObject [], tl r)
             else map_option (\<lambda>(kvs, t). (JObject kvs, t)) (read_members f r))
          else map_option (\<lambda>(i, t). (JNumber (JInt i), t)) (read_number s))"
| "read_elems 0 s = None"
| "read_elems (Suc f) s =
     (case read_value f s of
        Some (v, c # r) \<Rightarrow>
          if c = CHR '','' then map_option (\<lambda>(vs, t). (v # vs, t)) (read_elems f r)
          else if c = CHR '']'' then Some ([v], r) else None
      | _ \<Rightarrow> None)"
| "read_members 0 s = None"
| "read_members (Suc f) s =
     (case s of
        [] \<Rightarrow> None
      | q # r \<Rightarrow>
          if q \<noteq> CHR 0x22 then None
          else (case read_body r of
            Some (k, d # r') \<Rightarrow>
              if d \<noteq> CHR '':'' then None
              else (case read_value f r' of
                Some (v, c # r'') \<Rightarrow>
                  if c = CHR '','' then map_option (\<lambda>(kvs, t). ((k, v) # kvs, t)) (read_members f r'')
                  else if c = CHR ''}'' then Some ([(k, v)], r'') else None
              | _ \<Rightarrow> None)
          | _ \<Rightarrow> None))"

definition read_json :: "string \<Rightarrow> jvalue option" where
  "read_json s =
     (case read_value (2 * length s + 2) s of
        Some (v, []) \<Rightarrow> Some v
      | _ \<Rightarrow> None)"

text \<open>The value with the entries of all its objects in key order.\<close>

function norm :: "jvalue \<Rightarrow> jvalue" where
  "norm v =
     (case v of
        JArray vs \<Rightarrow> JArray (map norm vs)
      | JObject kvs \<Rightarrow> JObject (map (\<lambda>kv. (fst kv, norm (snd kv))) (sort_key fst kvs))
      | _ \<Rightarrow> v)"
  by pat_completeness auto
termination
proof (relation "measure size")
  fix v vs c
  assume "v = JArray vs" "c \<in> set vs"
  then show "(c, v) \<in> measure size" using children_size [of c v] by simp
next
  fix v kvs kv
  assume "v = JObject kvs" "kv \<in> set (sort_key fst kvs)"
  then show "(snd kv, v) \<in> measure size" using children_size [of "snd kv" v] by simp
qed simp

declare norm.simps [simp del]

lemma norm_simps [simp]:
  "norm JNull = JNull" "norm (JBool b) = JBool b" "norm (JNumber n) = JNumber n"
  "norm (JString s) = JString s" "norm (JArray vs) = JArray (map norm vs)"
  "norm (JObject kvs) = JObject (map (\<lambda>kv. (fst kv, norm (snd kv))) (sort_key fst kvs))"
  by (subst norm.simps; simp)+

section \<open>The shape of encoded text\<close>

lemma encode_hd:
  assumes "encode_canonical_value L v = Inr p" "quote_conforms L"
  shows "p \<noteq> [] \<and> hd p \<notin> {CHR '']'', CHR ''}''}"
proof (cases v)
  case (JNumber n)
  with assms obtain i where p: "p = int_to_string i" by (auto simp: encode_simps ok_iff)
  have "is_digit (hd (decimal (nat i)))" "decimal (nat i) \<noteq> []"
    using decimal_hd decimal_props by simp_all
  moreover have "\<not> is_digit (CHR '']'')" "\<not> is_digit (CHR ''}'')" by (simp_all add: is_digit_def)
  ultimately show ?thesis unfolding p by (auto simp: int_to_string_def)
qed (use assms in \<open>auto simp: encode_simps encode_object ok_iff quote_conforms_def spec_quote_def
       split: if_splits\<close>)

lemma length_join_comma: "length (join_comma ps) \<ge> sum_list (map length ps)"
  by (induction ps rule: join_comma.induct) auto

lemma jnodes_children:
  assumes "list_all2 (\<lambda>c p. jnodes c \<le> length p) cs ps"
  shows "sum_list (map jnodes cs) \<le> length (join_comma ps)"
proof -
  have "sum_list (map jnodes cs) \<le> sum_list (map length ps)"
    using assms by (induction rule: list_all2_induct) auto
  then show ?thesis using length_join_comma [of ps] by simp
qed

lemma jnodes_simps [simp]:
  "jnodes (JArray vs) = Suc (sum_list (map jnodes vs))"
  "jnodes (JObject kvs) = Suc (sum_list (map (\<lambda>kv. jnodes (snd kv)) (sort_key fst kvs)))"
  by (subst jnodes.simps; simp add: comp_def)+

lemma jnodes_scalar: "children v = [] \<Longrightarrow> jnodes v = 1"
  by (subst jnodes.simps) simp

lemma jnodes_pos: "jnodes v \<ge> 1"
  by (subst jnodes.simps) simp

lemma encode_length:
  assumes "quote_conforms L"
  shows "encode_canonical_value L v = Inr p \<Longrightarrow> jnodes v \<le> length p"
proof (induction v arbitrary: p rule: jvalue_induct_children)
  case (step v)
  show ?case
  proof (cases "\<exists>vs kvs. v = JArray vs \<or> v = JObject kvs")
    case False
    then have "children v = []" by (cases v) auto
    with encode_hd [OF step.prems assms] show ?thesis by (cases p) (auto simp: jnodes_scalar)
  next
    case True
    then consider vs where "v = JArray vs" | kvs where "v = JObject kvs" by blast
    then show ?thesis
    proof cases
      case 1
      with step.prems obtain ps where ps: "traverse (encode_canonical_value L) vs = Inr ps"
        and p: "p = CHR ''['' # join_comma ps @ '']''" by (auto simp: encode_simps rbind_ok)
      from ps have "list_all2 (\<lambda>c p. jnodes c \<le> length p) vs ps"
        unfolding traverse_ok by (rule list.rel_mono_strong) (use step.IH 1 in auto)
      then show ?thesis using jnodes_children [of vs ps] by (simp add: 1 p)
    next
      case 2
      with step.prems obtain ps where ps: "traverse (encode_entry L) (sort_key fst kvs) = Inr ps"
        and p: "p = CHR ''{'' # join_comma ps @ ''}''" by (auto simp: encode_object rbind_ok)
      have "encode_entry L kv = Inr q \<Longrightarrow> kv \<in> set kvs \<Longrightarrow> jnodes (snd kv) \<le> length q" for kv q
        using step.IH [of "snd kv"] 2 by (fastforce simp: encode_entry_def rbind_ok)
      then have "list_all2 (\<lambda>kv p. jnodes (snd kv) \<le> length p) (sort_key fst kvs) ps"
        using ps unfolding traverse_ok by (auto elim!: list.rel_mono_strong)
      then have "list_all2 (\<lambda>c p. jnodes c \<le> length p) (map snd (sort_key fst kvs)) ps"
        by (simp add: list_all2_map1)
      then show ?thesis
        using jnodes_children [of "map snd (sort_key fst kvs)" ps] by (simp add: 2 p comp_def)
    qed
  qed
qed

section \<open>The reader recovers what was encoded\<close>

text \<open>Reading one value back, with enough fuel and a delimited rest.\<close>

definition reads_back :: "lib \<Rightarrow> jvalue \<Rightarrow> bool" where
  "reads_back L v \<longleftrightarrow>
     (\<forall>p t f. encode_canonical_value L v = Inr p \<longrightarrow> delimited t \<longrightarrow> 2 * jnodes v \<le> f
        \<longrightarrow> read_value f (p @ t) = Some (norm v, t))"

lemma reads_backD:
  "reads_back L v \<Longrightarrow> encode_canonical_value L v = Inr p \<Longrightarrow> delimited t \<Longrightarrow> 2 * jnodes v \<le> f
     \<Longrightarrow> read_value f (p @ t) = Some (norm v, t)"
  by (simp add: reads_back_def)

lemma delimited_punct [simp]:
  "delimited []" "delimited (CHR '','' # t)" "delimited (CHR '']'' # t)" "delimited (CHR ''}'' # t)"
  by (simp_all add: delimited_def is_digit_def)

lemma read_elems_back:
  assumes "traverse (encode_canonical_value L) vs = Inr ps" and "vs \<noteq> []"
    and "\<And>v. v \<in> set vs \<Longrightarrow> reads_back L v"
    and "2 * sum_list (map jnodes vs) < f"
  shows "read_elems f (join_comma ps @ CHR '']'' # t) = Some (map norm vs, t)"
  using assms
proof (induction vs arbitrary: ps f)
  case (Cons v vs)
  obtain g where f: "f = Suc g" using Cons.prems(4) by (cases f) auto
  from Cons.prems(1) obtain p qs where p: "encode_canonical_value L v = Inr p"
    and qs: "traverse (encode_canonical_value L) vs = Inr qs" and ps: "ps = p # qs"
    by (auto simp: rbind_ok)
  have g: "2 * jnodes v \<le> g" "2 * sum_list (map jnodes vs) < g"
    using Cons.prems(4) jnodes_pos [of v] by (simp_all add: f)
  have rd: "delimited r \<Longrightarrow> read_value g (p @ r) = Some (norm v, r)" for r
    by (rule reads_backD) (use Cons.prems(3) p g in auto)
  show ?case
  proof (cases vs)
    case Nil
    with qs show ?thesis by (simp add: f ps rd)
  next
    case (Cons w ws)
    with qs obtain q qs' where "qs = q # qs'" by (auto simp: rbind_ok)
    moreover have "read_elems g (join_comma qs @ CHR '']'' # t) = Some (map norm vs, t)"
      by (rule Cons.IH [OF qs]) (use Cons Cons.prems g in auto)
    ultimately show ?thesis by (simp add: f ps rd)
  qed
qed simp

lemma read_members_back:
  assumes "traverse (encode_entry L) kvs = Inr ps" and "kvs \<noteq> []" and "quote_conforms L"
    and "\<And>kv. kv \<in> set kvs \<Longrightarrow> reads_back L (snd kv)"
    and "2 * sum_list (map (\<lambda>kv. jnodes (snd kv)) kvs) < f"
  shows "read_members f (join_comma ps @ CHR ''}'' # t)
    = Some (map (\<lambda>kv. (fst kv, norm (snd kv))) kvs, t)"
  using assms
proof (induction kvs arbitrary: ps f)
  case (Cons kv kvs)
  obtain g where f: "f = Suc g" using Cons.prems(5) by (cases f) auto
  from Cons.prems(1) obtain e qs where e: "encode_entry L kv = Inr e"
    and qs: "traverse (encode_entry L) kvs = Inr qs" and ps: "ps = e # qs"
    by (auto simp: rbind_ok)
  from e Cons.prems(3) obtain p where p: "encode_canonical_value L (snd kv) = Inr p"
    and ekv: "e = spec_quote (fst kv) @ CHR '':'' # p"
    by (auto simp: encode_entry_def rbind_ok ok_or_ok quote_conforms_def)
  have g: "2 * jnodes (snd kv) \<le> g" "2 * sum_list (map (\<lambda>kv. jnodes (snd kv)) kvs) < g"
    using Cons.prems(5) jnodes_pos [of "snd kv"] by (simp_all add: f)
  have rd: "delimited r \<Longrightarrow> read_value g (p @ r) = Some (norm (snd kv), r)" for r
    by (rule reads_backD) (use Cons.prems(4) p g in auto)
  show ?case
  proof (cases kvs)
    case Nil
    with qs show ?thesis by (simp add: f ps ekv spec_quote_def read_body_quote rd)
  next
    case (Cons w ws)
    with qs obtain q qs' where "qs = q # qs'" by (auto simp: rbind_ok)
    moreover have "read_members g (join_comma qs @ CHR ''}'' # t)
        = Some (map (\<lambda>kv. (fst kv, norm (snd kv))) kvs, t)"
      by (rule Cons.IH [OF qs]) (use Cons Cons.prems g in auto)
    ultimately show ?thesis by (simp add: f ps ekv spec_quote_def read_body_quote rd)
  qed
qed simp

lemma read_number_value:
  assumes "delimited t" "0 < f"
  shows "read_value f (int_to_string i @ t) = Some (JNumber (JInt i), t)"
proof -
  obtain g where f: "f = Suc g" using assms(2) by (cases f) auto
  obtain c r where cr: "int_to_string i = c # r" and c: "c = CHR ''-'' \<or> is_digit c"
  proof (cases "int_to_string i")
    case Nil
    then show thesis using decimal_props by (auto simp: int_to_string_def split: if_splits)
  next
    case (Cons c r)
    moreover have "c = CHR ''-'' \<or> is_digit c"
      using Cons decimal_hd by (auto simp: int_to_string_def split: if_splits) (metis list.sel(1))
    ultimately show thesis by (rule that)
  qed
  have "c \<notin> {CHR ''n'', CHR ''t'', CHR ''f'', CHR 0x22, CHR ''['', CHR ''{''}"
    using c by (auto simp: is_digit_def)
  with read_number_int [OF assms(1), of i] cr show ?thesis by (simp add: f)
qed

text \<open>The head of a joined text is the head of its first part.\<close>

lemma join_comma_hd: "p \<noteq> [] \<Longrightarrow> join_comma (p # ps) @ t \<noteq> [] \<and> hd (join_comma (p # ps) @ t) = hd p"
  by (cases ps) auto

lemma array_reads_back:
  assumes "quote_conforms L" and parts: "\<And>w. w \<in> set vs \<Longrightarrow> reads_back L w"
  shows "reads_back L (JArray vs)"
  unfolding reads_back_def
proof (intro allI impI)
  fix p t f
  assume "encode_canonical_value L (JArray vs) = Inr p" and f: "2 * jnodes (JArray vs) \<le> f"
  then obtain ps where ps: "traverse (encode_canonical_value L) vs = Inr ps"
    and p: "p = CHR ''['' # join_comma ps @ '']''" by (auto simp: encode_simps rbind_ok)
  obtain g where g: "f = Suc g" using f by (cases f) auto
  show "read_value f (p @ t) = Some (norm (JArray vs), t)"
  proof (cases vs)
    case Nil
    with ps show ?thesis by (simp add: g p)
  next
    case (Cons w ws)
    with ps obtain q qs where q: "encode_canonical_value L w = Inr q" "ps = q # qs"
      by (auto simp: rbind_ok)
    from join_comma_hd encode_hd [OF q(1) assms(1)]
    have "hd (join_comma ps @ CHR '']'' # t) \<noteq> CHR '']''" by (auto simp: q(2))
    moreover have "read_elems g (join_comma ps @ CHR '']'' # t) = Some (map norm vs, t)"
      by (rule read_elems_back [OF ps]) (use Cons f g parts in auto)
    ultimately show ?thesis by (simp add: g p)
  qed
qed

lemma object_reads_back:
  assumes "quote_conforms L" and parts: "\<And>kv. kv \<in> set kvs \<Longrightarrow> reads_back L (snd kv)"
  shows "reads_back L (JObject kvs)"
  unfolding reads_back_def
proof (intro allI impI)
  fix p t f
  let ?s = "sort_key fst kvs"
  assume "encode_canonical_value L (JObject kvs) = Inr p" and f: "2 * jnodes (JObject kvs) \<le> f"
  then obtain ps where ps: "traverse (encode_entry L) ?s = Inr ps"
    and p: "p = CHR ''{'' # join_comma ps @ ''}''" by (auto simp: encode_object rbind_ok)
  have parts': "reads_back L (snd kv)" if "kv \<in> set ?s" for kv using parts that by simp
  obtain g where g: "f = Suc g" using f by (cases f) auto
  show "read_value f (p @ t) = Some (norm (JObject kvs), t)"
  proof (cases ?s)
    case Nil
    with ps show ?thesis by (simp add: g p)
  next
    case (Cons w ws)
    with ps obtain q qs where q: "encode_entry L w = Inr q" "ps = q # qs"
      by (auto simp: rbind_ok)
    with assms(1) obtain q' where "q = CHR 0x22 # q'"
      by (auto simp: encode_entry_def rbind_ok ok_or_ok quote_conforms_def spec_quote_def)
    with join_comma_hd [of q] have "hd (join_comma ps @ CHR ''}'' # t) \<noteq> CHR ''}''"
      by (simp add: q(2))
    moreover have "read_members g (join_comma ps @ CHR ''}'' # t)
        = Some (map (\<lambda>kv. (fst kv, norm (snd kv))) ?s, t)"
      by (rule read_members_back [OF ps _ assms(1) parts']) (use Cons f g in auto)
    ultimately show ?thesis by (simp add: g p)
  qed
qed

lemma encode_reads_back:
  assumes "quote_conforms L"
  shows "reads_back L v"
proof (induction v rule: jvalue_induct_children)
  case (step v)
  have leaf: "reads_back L v" if "children v = []"
    unfolding reads_back_def
  proof (intro allI impI)
    fix p t f
    assume p: "encode_canonical_value L v = Inr p" and t: "delimited t" and "2 * jnodes v \<le> f"
    then obtain g where g: "f = Suc g" using jnodes_pos [of v] by (cases f) auto
    show "read_value f (p @ t) = Some (norm v, t)"
    proof (cases v)
      case (JNumber n)
      with p obtain i where "n = JInt i" "p = int_to_string i" by (auto simp: encode_simps ok_iff)
      with JNumber read_number_value [OF t, of f i] g show ?thesis by simp
    next
      case (JString s)
      with p assms have "p = spec_quote s" by (simp add: encode_simps ok_iff quote_conforms_def)
      with JString show ?thesis by (simp add: g spec_quote_def read_body_quote)
    qed (use that p g in \<open>auto simp: encode_simps rbind_ok encode_object strip_prefix_def\<close>)
  qed
  show ?case
  proof (cases v)
    case (JArray vs)
    with step.IH show ?thesis by (auto intro!: array_reads_back [OF assms])
  next
    case (JObject kvs)
    with step.IH show ?thesis by (auto intro!: object_reads_back [OF assms])
  qed (use leaf in simp_all)
qed

lemma read_json_encode:
  assumes "quote_conforms L" and "encode_canonical_value L v = Inr p"
  shows "read_json p = Some (norm v)"
proof -
  have "2 * jnodes v \<le> 2 * length p + 2" using encode_length [OF assms] by simp
  from reads_backD [OF encode_reads_back [OF assms(1)] assms(2) delimited_punct(1) this]
  show ?thesis by (simp add: read_json_def)
qed

text \<open>No canonical text is a proper prefix of another continued by a delimiter.\<close>

lemma encode_prefix_free:
  assumes "quote_conforms L"
    and "encode_canonical_value L v = Inr p" and "encode_canonical_value L w = Inr q"
    and "p @ s = q @ t" and "delimited s" and "delimited t"
  shows "norm v = norm w \<and> s = t"
proof -
  let ?f = "2 * jnodes v + 2 * jnodes w"
  have "read_value ?f (p @ s) = Some (norm v, s)"
    by (rule reads_backD [OF encode_reads_back]) (use assms in auto)
  moreover have "read_value ?f (q @ t) = Some (norm w, t)"
    by (rule reads_backD [OF encode_reads_back]) (use assms in auto)
  ultimately show ?thesis using assms(4) by simp
qed

section \<open>Independence of the entry order\<close>

lemma sort_key_norm:
  "sort_key fst (map (\<lambda>kv. (fst kv, norm (snd kv))) (sort_key fst kvs))
     = map (\<lambda>kv. (fst kv, norm (snd kv))) (sort_key fst kvs)"
  by (rule sort_key_id_if_sorted) (simp add: comp_def)

lemma traverse_map: "traverse f (map g xs) = traverse (\<lambda>x. f (g x)) xs"
  by (induction xs) auto

lemma encode_norm: "encode_canonical_value L (norm v) = encode_canonical_value L v"
proof (induction v rule: jvalue_induct_children)
  case (step v)
  show ?case
  proof (cases v)
    case (JArray vs)
    have "traverse (\<lambda>c. encode_canonical_value L (norm c)) vs = traverse (encode_canonical_value L) vs"
      by (rule traverse_cong) (use step.IH JArray in auto)
    then show ?thesis by (simp add: JArray encode_simps traverse_map)
  next
    case (JObject kvs)
    have "traverse (\<lambda>kv. encode_entry L (fst kv, norm (snd kv))) (sort_key fst kvs)
        = traverse (encode_entry L) (sort_key fst kvs)"
      by (rule traverse_cong) (use step.IH JObject in \<open>auto simp: encode_entry_def\<close>)
    then show ?thesis by (simp add: JObject encode_object sort_key_norm traverse_map)
  qed auto
qed

lemma encode_eq_iff_norm:
  assumes "quote_conforms L" and "encode_canonical_value L v = Inr p"
  shows "encode_canonical_value L w = Inr p \<longleftrightarrow> norm w = norm v"
  using read_json_encode [OF assms(1)] assms(2) encode_norm [of L v] encode_norm [of L w]
  by (metis option.inject)

end
