(* ===== verification/Records.thy ===== *)
theory Records
  imports Json_Reader "HOL-Library.Multiset"
begin

text \<open>
  The six protocol records of crates/effect-transaction-core/src/lib.rs as implementations
  of the trait \<open>ProtocolRecord\<close>: their JSON values (the derived \<open>Serialize\<close>, which writes a
  struct as an object with its field names, an enum constant in snake case and an absent
  option as null), their validation, and their commitments.

  The trait is the locale \<open>protocol_record\<close>. Its laws say that the JSON value determines
  the record and that validation is strong enough for the canonical encoder to succeed; its
  lemmas say that a commitment exists exactly for valid records and binds the record, up to
  an explicit collision of the hash function. Every record interprets it.
\<close>

section \<open>Serialization\<close>

definition jnum :: "u64 \<Rightarrow> jvalue" where "jnum n = JNumber (JInt (uint n))"
definition jdigest :: "digest32 \<Rightarrow> jvalue" where "jdigest d = JString (as_str d)"
definition jopt :: "('a \<Rightarrow> jvalue) \<Rightarrow> 'a option \<Rightarrow> jvalue" where
  "jopt f v = (case v of None \<Rightarrow> JNull | Some x \<Rightarrow> f x)"

fun decision_outcome_name :: "decision_outcome \<Rightarrow> string" where
  "decision_outcome_name Allow = ''allow''"
| "decision_outcome_name Deny = ''deny''"
| "decision_outcome_name Review = ''review''"

fun receipt_outcome_name :: "receipt_outcome \<Rightarrow> string" where
  "receipt_outcome_name NotDispatched = ''not_dispatched''"
| "receipt_outcome_name Succeeded = ''succeeded''"
| "receipt_outcome_name Failed = ''failed''"
| "receipt_outcome_name Unknown = ''unknown''"

fun reconciliation_outcome_name :: "reconciliation_outcome \<Rightarrow> string" where
  "reconciliation_outcome_name EffectConfirmed = ''effect_confirmed''"
| "reconciliation_outcome_name NoEffectConfirmed = ''no_effect_confirmed''"
| "reconciliation_outcome_name PartialEffect = ''partial_effect''"
| "reconciliation_outcome_name StillUnknown = ''still_unknown''"
| "reconciliation_outcome_name Compensated = ''compensated''"

definition tc_value :: "task_commitment \<Rightarrow> jvalue" where
  "tc_value c = JObject
     [(''version'', jnum (tc_version c)),
      (''commitment_id'', JString (tc_commitment_id c)),
      (''principal'', JString (tc_principal c)),
      (''objective_digest'', jdigest (tc_objective_digest c)),
      (''constraints_digest'', jdigest (tc_constraints_digest c)),
      (''authority_scope_digest'', jdigest (tc_authority_scope_digest c)),
      (''policy_epoch'', jnum (tc_policy_epoch c)),
      (''configuration_epoch'', jnum (tc_configuration_epoch c)),
      (''created_at_ms'', jnum (tc_created_at_ms c)),
      (''expires_at_ms'', jnum (tc_expires_at_ms c))]"

definition ep_value :: "effect_proposal \<Rightarrow> jvalue" where
  "ep_value p = JObject
     [(''version'', jnum (ep_version p)),
      (''proposal_id'', JString (ep_proposal_id p)),
      (''commitment_hash'', jdigest (ep_commitment_hash p)),
      (''effect_profile'', JString (ep_effect_profile p)),
      (''operation'', JString (ep_operation p)),
      (''target'', JString (ep_target p)),
      (''arguments_digest'', jdigest (ep_arguments_digest p)),
      (''expected_effect_digest'', jdigest (ep_expected_effect_digest p)),
      (''pre_state_digest'', jdigest (ep_pre_state_digest p)),
      (''resource_claim_digest'', jdigest (ep_resource_claim_digest p)),
      (''created_at_ms'', jnum (ep_created_at_ms p)),
      (''expires_at_ms'', jnum (ep_expires_at_ms p))]"

definition ad_value :: "authorization_decision \<Rightarrow> jvalue" where
  "ad_value d = JObject
     [(''version'', jnum (ad_version d)),
      (''decision_id'', JString (ad_decision_id d)),
      (''proposal_hash'', jdigest (ad_proposal_hash d)),
      (''evidence_hashes'', JArray (map jdigest (ad_evidence_hashes d))),
      (''outcome'', JString (decision_outcome_name (ad_outcome d))),
      (''reason_codes'', JArray (map JString (ad_reason_codes d))),
      (''decided_at_ms'', jnum (ad_decided_at_ms d)),
      (''expires_at_ms'', jnum (ad_expires_at_ms d))]"

definition eg_value :: "execution_grant \<Rightarrow> jvalue" where
  "eg_value g = JObject
     [(''version'', jnum (eg_version g)),
      (''grant_id'', JString (eg_grant_id g)),
      (''proposal_hash'', jdigest (eg_proposal_hash g)),
      (''decision_hash'', jdigest (eg_decision_hash g)),
      (''audience'', JString (eg_audience g)),
      (''not_before_ms'', jnum (eg_not_before_ms g)),
      (''expires_at_ms'', jnum (eg_expires_at_ms g)),
      (''uses'', jnum (eg_uses g)),
      (''nonce'', JString (eg_nonce g))]"

definition er_value :: "effect_receipt \<Rightarrow> jvalue" where
  "er_value r = JObject
     [(''version'', jnum (er_version r)),
      (''receipt_id'', JString (er_receipt_id r)),
      (''proposal_hash'', jdigest (er_proposal_hash r)),
      (''grant_hash'', jdigest (er_grant_hash r)),
      (''attempt_id'', JString (er_attempt_id r)),
      (''claimed_at_ms'', jnum (er_claimed_at_ms r)),
      (''dispatched_at_ms'', jopt jnum (er_dispatched_at_ms r)),
      (''completed_at_ms'', jnum (er_completed_at_ms r)),
      (''outcome'', JString (receipt_outcome_name (er_outcome r))),
      (''observation_digest'', jdigest (er_observation_digest r))]"

definition rr_value :: "reconciliation_record \<Rightarrow> jvalue" where
  "rr_value r = JObject
     [(''version'', jnum (rr_version r)),
      (''reconciliation_id'', JString (rr_reconciliation_id r)),
      (''receipt_hash'', jdigest (rr_receipt_hash r)),
      (''sequence'', jnum (rr_sequence r)),
      (''parent_reconciliation_hash'', jopt jdigest (rr_parent_reconciliation_hash r)),
      (''observed_at_ms'', jnum (rr_observed_at_ms r)),
      (''outcome'', JString (reconciliation_outcome_name (rr_outcome r))),
      (''evidence_digest'', jdigest (rr_evidence_digest r))]"

lemmas value_defs = tc_value_def ep_value_def ad_value_def eg_value_def er_value_def rr_value_def

section \<open>Validation\<close>

definition tc_validate :: "task_commitment \<Rightarrow> protocol_error + unit" where
  "tc_validate c = checks
     [validate_version (tc_version c),
      validate_identifier ''commitment_id'' (tc_commitment_id c),
      validate_trimmed_text ''principal'' (tc_principal c) 512,
      validate_safe_integer ''policy_epoch'' (tc_policy_epoch c),
      validate_safe_integer ''configuration_epoch'' (tc_configuration_epoch c),
      validate_window (tc_created_at_ms c) (tc_expires_at_ms c)]"

definition ep_validate :: "effect_proposal \<Rightarrow> protocol_error + unit" where
  "ep_validate p = checks
     [validate_version (ep_version p),
      validate_identifier ''proposal_id'' (ep_proposal_id p),
      validate_trimmed_text ''effect_profile'' (ep_effect_profile p) 256,
      validate_token ''operation'' (ep_operation p),
      validate_trimmed_text ''target'' (ep_target p) 4096,
      validate_window (ep_created_at_ms p) (ep_expires_at_ms p)]"

definition ad_validate :: "authorization_decision \<Rightarrow> protocol_error + unit" where
  "ad_validate d = checks
     [validate_version (ad_version d),
      validate_identifier ''decision_id'' (ad_decision_id d),
      validate_sorted_unique_digests (ad_evidence_hashes d) 256,
      validate_sorted_unique_tokens ''reason_codes'' (ad_reason_codes d) 64,
      ensure (ad_reason_codes d \<noteq> []) MissingReasonCode,
      validate_window (ad_decided_at_ms d) (ad_expires_at_ms d),
      ensure (\<not> (ad_outcome d = Allow \<and> ad_evidence_hashes d = [])) MissingAuthorizingEvidence]"

definition eg_validate :: "execution_grant \<Rightarrow> protocol_error + unit" where
  "eg_validate g = checks
     [validate_version (eg_version g),
      validate_identifier ''grant_id'' (eg_grant_id g),
      validate_trimmed_text ''audience'' (eg_audience g) 512,
      validate_nonce (eg_nonce g),
      ensure (\<not> eg_uses g \<noteq> 1) GrantMustBeSingleUse,
      validate_window (eg_not_before_ms g) (eg_expires_at_ms g),
      ensure (\<not> eg_expires_at_ms g - eg_not_before_ms g > MAX_GRANT_LIFETIME_MS)
        GrantLifetimeExceeded]"

definition er_validate :: "effect_receipt \<Rightarrow> protocol_error + unit" where
  "er_validate r = checks
     [validate_version (er_version r),
      validate_identifier ''receipt_id'' (er_receipt_id r),
      validate_identifier ''attempt_id'' (er_attempt_id r),
      validate_safe_integer ''claimed_at_ms'' (er_claimed_at_ms r),
      validate_safe_integer ''completed_at_ms'' (er_completed_at_ms r),
      ensure (\<not> er_claimed_at_ms r > er_completed_at_ms r) InvalidReceiptTimeline,
      (case er_dispatched_at_ms r of
         Some dispatched_at_ms \<Rightarrow> checks
           [validate_safe_integer ''dispatched_at_ms'' dispatched_at_ms,
            ensure (\<not> (dispatched_at_ms < er_claimed_at_ms r
                       \<or> dispatched_at_ms > er_completed_at_ms r)) InvalidReceiptTimeline]
       | None \<Rightarrow> Inr ()),
      (case (er_outcome r, er_dispatched_at_ms r) of
         (NotDispatched, Some _) \<Rightarrow> Inl ContradictoryDispatchEvidence
       | (Succeeded, None) \<Rightarrow> Inl MissingDispatchEvidence
       | (Failed, None) \<Rightarrow> Inl MissingDispatchEvidence
       | _ \<Rightarrow> Inr ())]"

definition rr_validate :: "reconciliation_record \<Rightarrow> protocol_error + unit" where
  "rr_validate r = checks
     [validate_version (rr_version r),
      validate_identifier ''reconciliation_id'' (rr_reconciliation_id r),
      validate_safe_integer ''observed_at_ms'' (rr_observed_at_ms r),
      ensure (\<not> (rr_sequence r = 0 \<or> rr_sequence r > MAX_SAFE_INTEGER)) InvalidSequence,
      ensure ((rr_sequence r = 1) = (rr_parent_reconciliation_hash r = None))
        InvalidReconciliationParent]"

lemmas validate_defs =
  tc_validate_def ep_validate_def ad_validate_def eg_validate_def er_validate_def rr_validate_def

section \<open>Commitments\<close>

text \<open>The default method \<open>commitment\<close> of the trait, and its six instances.\<close>

definition trait_commitment ::
    "lib \<Rightarrow> string \<Rightarrow> ('r \<Rightarrow> protocol_error + unit) \<Rightarrow> ('r \<Rightarrow> jvalue) \<Rightarrow> 'r
     \<Rightarrow> protocol_error + digest32" where
  "trait_commitment L domain validate to_value r =
     rbind (validate r) (\<lambda>_. hash_record L domain (to_value r))"

definition tc_commitment :: "lib \<Rightarrow> task_commitment \<Rightarrow> protocol_error + digest32" where
  "tc_commitment L = trait_commitment L TASK_COMMITMENT_DOMAIN tc_validate tc_value"
definition ep_commitment :: "lib \<Rightarrow> effect_proposal \<Rightarrow> protocol_error + digest32" where
  "ep_commitment L = trait_commitment L EFFECT_PROPOSAL_DOMAIN ep_validate ep_value"
definition ad_commitment :: "lib \<Rightarrow> authorization_decision \<Rightarrow> protocol_error + digest32" where
  "ad_commitment L = trait_commitment L AUTHORIZATION_DECISION_DOMAIN ad_validate ad_value"
definition eg_commitment :: "lib \<Rightarrow> execution_grant \<Rightarrow> protocol_error + digest32" where
  "eg_commitment L = trait_commitment L EXECUTION_GRANT_DOMAIN eg_validate eg_value"
definition er_commitment :: "lib \<Rightarrow> effect_receipt \<Rightarrow> protocol_error + digest32" where
  "er_commitment L = trait_commitment L EFFECT_RECEIPT_DOMAIN er_validate er_value"
definition rr_commitment :: "lib \<Rightarrow> reconciliation_record \<Rightarrow> protocol_error + digest32" where
  "rr_commitment L = trait_commitment L RECONCILIATION_RECORD_DOMAIN rr_validate rr_value"

lemmas commitment_defs =
  tc_commitment_def ep_commitment_def ad_commitment_def
  eg_commitment_def er_commitment_def rr_commitment_def

text \<open>Two hashed texts that differ and collide; the texts are those of the two records.\<close>

definition hash_collision :: "lib \<Rightarrow> string \<Rightarrow> jvalue \<Rightarrow> string \<Rightarrow> jvalue \<Rightarrow> bool" where
  "hash_collision L d v e w \<longleftrightarrow>
     (\<exists>s t. canonical_json L v = Inr s \<and> canonical_json L w = Inr t
        \<and> d @ [CHR 0x00] @ s \<noteq> e @ [CHR 0x00] @ t
        \<and> sha256 L (d @ [CHR 0x00] @ s) = sha256 L (e @ [CHR 0x00] @ t))"

lemma canonical_json_inj:
  assumes "quote_conforms L" "canonical_json L v = Inr s" "canonical_json L w = Inr s"
  shows "norm v = norm w"
  using assms encode_eq_iff_norm [OF assms(1), of w s v] by (auto simp: canonical_json_def rbind_ok)

lemma split_at_nul:
  "CHR 0x00 \<notin> set d \<Longrightarrow> CHR 0x00 \<notin> set e \<Longrightarrow>
   d @ [CHR 0x00] @ s = e @ [CHR 0x00] @ t \<longleftrightarrow> d = e \<and> s = t"
  by (induction d arbitrary: e; case_tac e) auto

lemma hash_record_binding:
  assumes "quote_conforms L" and "hash_record L d v = Inr h" and "hash_record L e w = Inr h"
    and "CHR 0x00 \<notin> set d" and "CHR 0x00 \<notin> set e"
  shows "(d = e \<and> norm v = norm w) \<or> hash_collision L d v e w"
proof -
  from assms(2,3) obtain s t where s: "canonical_json L v = Inr s" and t: "canonical_json L w = Inr t"
    and "sha256 L (d @ [CHR 0x00] @ s) = sha256 L (e @ [CHR 0x00] @ t)"
    by (auto simp: hash_record_def rbind_ok format_digest_inj)
  then show ?thesis
    using split_at_nul [OF assms(4,5), of s t] canonical_json_inj [OF assms(1) s, of w]
    by (auto simp: hash_collision_def)
qed

text \<open>Trait law and lemmas.\<close>

locale protocol_record =
  fixes domain :: string
    and validate :: "'r \<Rightarrow> protocol_error + unit"
    and to_value :: "'r \<Rightarrow> jvalue"
  assumes value_inj: "norm (to_value a) = norm (to_value b) \<Longrightarrow> a = b"
    and valid_safe: "validate r = Inr () \<Longrightarrow> safe_numbers (to_value r)"
    and valid_depth: "validate r = Inr () \<Longrightarrow> jdepth (to_value r) \<le> MAX_CANONICAL_NESTING_DEPTH"
    and valid_nodes: "validate r = Inr () \<Longrightarrow> jnodes (to_value r) \<le> MAX_CANONICAL_NODES"
    and domain_text: "CHR 0x00 \<notin> set domain"
begin

lemma valid_canonical:
  "quotes L \<Longrightarrow> validate r = Inr () \<Longrightarrow> \<exists>s. canonical_json L (to_value r) = Inr s"
  by (simp add: canonical_json_ok_iff valid_safe valid_depth valid_nodes)

lemma commitment_ok_iff:
  "quotes L \<Longrightarrow>
   (\<exists>h. trait_commitment L domain validate to_value r = Inr h) \<longleftrightarrow> validate r = Inr ()"
  using valid_canonical [of L r] by (auto simp: trait_commitment_def hash_record_def rbind_ok)

lemma commitment_valid:
  "trait_commitment L domain validate to_value r = Inr h \<Longrightarrow> validate r = Inr ()"
  by (simp add: trait_commitment_def rbind_ok)

lemma commitment_error:
  "quotes L \<Longrightarrow>
   trait_commitment L domain validate to_value r = Inl e \<longleftrightarrow> validate r = Inl e"
  using valid_canonical [of L r] by (cases "validate r") (auto simp: trait_commitment_def hash_record_def)

lemma commitment_binding:
  assumes "quote_conforms L"
    and "trait_commitment L domain validate to_value a = Inr h"
    and "trait_commitment L domain validate to_value b = Inr h"
  shows "a = b \<or> hash_collision L domain (to_value a) domain (to_value b)"
  using assms hash_record_binding [of L domain "to_value a" h domain "to_value b"] value_inj domain_text
  by (auto simp: trait_commitment_def rbind_ok)

lemma canonical_inj:
  assumes "quote_conforms L"
    and "canonical_json L (to_value a) = Inr s" and "canonical_json L (to_value b) = Inr s"
  shows "a = b"
  using canonical_json_inj [OF assms] by (rule value_inj)

end

section \<open>The records implement the trait\<close>

lemma norm_object_entries:
  assumes "map fst a = map fst b" and "distinct (map fst a)"
    and "norm (JObject a) = norm (JObject b)"
  shows "map (\<lambda>kv. norm (snd kv)) a = map (\<lambda>kv. norm (snd kv)) b"
proof -
  let ?g = "\<lambda>kv. (fst kv, norm (snd kv))"
  have m: "map_of (map ?g xs) k = map_option norm (map_of xs k)" for xs k
    by (induction xs) auto
  have d: "distinct (map fst b)" using assms(1,2) by simp
  have "map_option norm (map_of a k) = map_option norm (map_of b k)" for k
    using assms(3) m [of "sort_key fst a" k] m [of "sort_key fst b" k]
    by (simp add: map_of_sort_key [OF assms(2)] map_of_sort_key [OF d])
  moreover have l: "length a = length b" using assms(1) by (metis length_map)
  moreover have "map_of a (fst (a ! i)) = Some (snd (a ! i)) \<and> map_of b (fst (a ! i)) = Some (snd (b ! i))"
    if "i < length a" for i
    using that l assms(1,2) d by (metis map_of_eq_Some_iff nth_map nth_mem prod.collapse)
  ultimately show ?thesis
    by (intro nth_equalityI) (auto, metis option.inject option.simps(9))
qed

lemma jnodes_object: "jnodes (JObject kvs) = Suc (sum_list (map (\<lambda>kv. jnodes (snd kv)) kvs))"
proof -
  have "mset (map (\<lambda>kv. jnodes (snd kv)) (sort_key fst kvs)) = mset (map (\<lambda>kv. jnodes (snd kv)) kvs)"
    by simp
  then show ?thesis by (simp add: sum_mset_sum_list [symmetric] del: mset_map)
qed

lemma jnodes_leaf [simp]:
  "jnodes JNull = 1" "jnodes (JBool b) = 1" "jnodes (JNumber n) = 1" "jnodes (JString s) = 1"
  by (simp_all add: jnodes_scalar)

lemma jdepth_leaf [simp]:
  "jdepth JNull = 1" "jdepth (JBool b) = 1" "jdepth (JNumber n) = 1" "jdepth (JString s) = 1"
  by (subst jdepth.simps; simp)+

lemma jdepth_array_le: "jdepth (JArray vs) \<le> Suc d \<longleftrightarrow> (\<forall>v \<in> set vs. jdepth v \<le> d)"
  using jdepth_le [of "JArray vs" 0 "Suc d"] by simp

lemma jdepth_object_le: "jdepth (JObject kvs) \<le> Suc d \<longleftrightarrow> (\<forall>kv \<in> set kvs. jdepth (snd kv) \<le> d)"
  using jdepth_le [of "JObject kvs" 0 "Suc d"] by auto

lemma jvalue_parts [simp]:
  "norm (jnum n) = jnum n" "norm (jdigest d) = jdigest d"
  "jnodes (jnum n) = 1" "jnodes (jdigest d) = 1" "jdepth (jnum n) = 1" "jdepth (jdigest d) = 1"
  "safe_numbers (jdigest d)" "safe_numbers (jnum n) \<longleftrightarrow> n \<le> MAX_SAFE_INTEGER"
  "jnum m = jnum n \<longleftrightarrow> m = n" "jdigest d = jdigest e \<longleftrightarrow> d = e"
  by (auto simp: jnum_def jdigest_def MAX_SAFE_def word_le_def word_uint_eq_iff digest32.expand)

lemma jopt_parts [simp]:
  "jopt f None = JNull" "jopt f (Some x) = f x"
  "norm (jopt jnum n) = jopt jnum n" "norm (jopt jdigest d) = jopt jdigest d"
  "jnodes (jopt jnum n) = 1" "jnodes (jopt jdigest d) = 1"
  "jdepth (jopt jnum n) = 1" "jdepth (jopt jdigest d) = 1" "safe_numbers (jopt jdigest d)"
  "jopt jnum m = jopt jnum n \<longleftrightarrow> m = n" "jopt jdigest d = jopt jdigest e \<longleftrightarrow> d = e"
  by (auto simp: jopt_def jnum_def jdigest_def word_uint_eq_iff digest32.expand split: option.splits)

lemma safe_jopt [simp]:
  "safe_numbers (jopt jnum n) \<longleftrightarrow> (\<forall>x. n = Some x \<longrightarrow> x \<le> MAX_SAFE_INTEGER)"
  by (cases n) auto

lemma decision_outcome_name_inj [simp]:
  "decision_outcome_name a = decision_outcome_name b \<longleftrightarrow> a = b"
  by (cases a; cases b; simp)

lemma receipt_outcome_name_inj [simp]:
  "receipt_outcome_name a = receipt_outcome_name b \<longleftrightarrow> a = b"
  by (cases a; cases b; simp)

lemma reconciliation_outcome_name_inj [simp]:
  "reconciliation_outcome_name a = reconciliation_outcome_name b \<longleftrightarrow> a = b"
  by (cases a; cases b; simp)

lemma tc_value_inj: "norm (tc_value a) = norm (tc_value b) \<Longrightarrow> a = b"
  unfolding tc_value_def by (drule norm_object_entries [rotated 2]) simp_all

lemma ep_value_inj: "norm (ep_value a) = norm (ep_value b) \<Longrightarrow> a = b"
  unfolding ep_value_def by (drule norm_object_entries [rotated 2]) simp_all

lemma ad_value_inj: "norm (ad_value a) = norm (ad_value b) \<Longrightarrow> a = b"
  unfolding ad_value_def
  by (drule norm_object_entries [rotated 2]) (simp_all add: comp_def inj_map_eq_map inj_def)

lemma eg_value_inj: "norm (eg_value a) = norm (eg_value b) \<Longrightarrow> a = b"
  unfolding eg_value_def by (drule norm_object_entries [rotated 2]) simp_all

lemma er_value_inj: "norm (er_value a) = norm (er_value b) \<Longrightarrow> a = b"
  unfolding er_value_def by (drule norm_object_entries [rotated 2]) simp_all

lemma rr_value_inj: "norm (rr_value a) = norm (rr_value b) \<Longrightarrow> a = b"
  unfolding rr_value_def by (drule norm_object_entries [rotated 2]) simp_all

lemma one_safe [simp]: "(1 :: u64) \<le> MAX_SAFE_INTEGER" "MAX_SAFE_INTEGER \<noteq> 0"
  by (simp_all add: MAX_SAFE_INTEGER_def)

text \<open>Validity of a receipt and of a reconciliation record, without the error values.\<close>

lemma er_validate_ok [ok_iff]:
  "er_validate r = Inr u \<longleftrightarrow>
     er_version r = 1 \<and> validate_identifier ''receipt_id'' (er_receipt_id r) = Inr ()
     \<and> validate_identifier ''attempt_id'' (er_attempt_id r) = Inr ()
     \<and> er_claimed_at_ms r \<le> er_completed_at_ms r \<and> er_completed_at_ms r \<le> MAX_SAFE_INTEGER
     \<and> (\<forall>t. er_dispatched_at_ms r = Some t \<longrightarrow> er_claimed_at_ms r \<le> t \<and> t \<le> er_completed_at_ms r)
     \<and> (er_outcome r = NotDispatched \<longrightarrow> er_dispatched_at_ms r = None)
     \<and> (er_outcome r \<in> {Succeeded, Failed} \<longrightarrow> er_dispatched_at_ms r \<noteq> None)"
  by (cases "er_outcome r"; cases "er_dispatched_at_ms r") (auto simp: er_validate_def ok_iff)

lemma rr_validate_ok [ok_iff]:
  "rr_validate r = Inr u \<longleftrightarrow>
     rr_version r = 1 \<and> validate_identifier ''reconciliation_id'' (rr_reconciliation_id r) = Inr ()
     \<and> rr_observed_at_ms r \<le> MAX_SAFE_INTEGER
     \<and> rr_sequence r \<noteq> 0 \<and> rr_sequence r \<le> MAX_SAFE_INTEGER
     \<and> (rr_sequence r = 1 \<longleftrightarrow> rr_parent_reconciliation_hash r = None)"
  by (auto simp: rr_validate_def ok_iff)

lemmas value_simps = value_defs tc_validate_def ep_validate_def ad_validate_def eg_validate_def ok_iff jnodes_object
  jdepth_object_le [of _ 63, simplified] jdepth_array_le [of _ 62, simplified]
  MAX_CANONICAL_NESTING_DEPTH_def MAX_CANONICAL_NODES_def

lemma sum_list_ones: "(\<And>x. x \<in> set xs \<Longrightarrow> f x = (1::nat)) \<Longrightarrow> sum_list (map f xs) = length xs"
  by (induction xs) auto

interpretation tc: protocol_record TASK_COMMITMENT_DOMAIN tc_validate tc_value
  by unfold_locales (auto intro: tc_value_inj simp: value_simps domain_defs)

interpretation ep: protocol_record EFFECT_PROPOSAL_DOMAIN ep_validate ep_value
  by unfold_locales (auto intro: ep_value_inj simp: value_simps domain_defs)

interpretation ad: protocol_record AUTHORIZATION_DECISION_DOMAIN ad_validate ad_value
  by unfold_locales (auto intro: ad_value_inj simp: value_simps domain_defs sum_list_ones)

interpretation eg: protocol_record EXECUTION_GRANT_DOMAIN eg_validate eg_value
  by unfold_locales (auto intro: eg_value_inj simp: value_simps domain_defs)

interpretation er: protocol_record EFFECT_RECEIPT_DOMAIN er_validate er_value
  by unfold_locales (auto intro: er_value_inj simp: er_value_def value_simps domain_defs)

interpretation rr: protocol_record RECONCILIATION_RECORD_DOMAIN rr_validate rr_value
  by unfold_locales (auto intro: rr_value_inj simp: value_simps domain_defs)

end
