(* ===== verification/Chain.thy ===== *)
theory Chain
  imports Records
begin

text \<open>
  Verification of record chains (\<open>verify_decision\<close> to \<open>verify_transaction\<close> in
  crates/effect-transaction-core/src/lib.rs), with the characterisation of each function's
  success, the declarative description of a reconciliation history, and the equivalence of
  the loop in \<open>verify_transaction\<close> with it.
\<close>

section \<open>From the task to the receipt\<close>

definition verify_decision ::
    "lib \<Rightarrow> task_commitment \<Rightarrow> effect_proposal \<Rightarrow> authorization_decision
     \<Rightarrow> protocol_error + verified_decision" where
  "verify_decision L commitment proposal decision =
     rbind (tc_commitment L commitment) (\<lambda>commitment_hash.
     rbind (ensure (\<not> ep_commitment_hash proposal \<noteq> commitment_hash)
              (ChainMismatch ''commitment_hash'')) (\<lambda>_.
     rbind (ensure (\<not> (ep_created_at_ms proposal < tc_created_at_ms commitment
                      \<or> ep_expires_at_ms proposal > tc_expires_at_ms commitment))
              (InvalidNestedWindow ''proposal'')) (\<lambda>_.
     rbind (ep_commitment L proposal) (\<lambda>proposal_hash.
     rbind (ensure (\<not> ad_proposal_hash decision \<noteq> proposal_hash)
              (ChainMismatch ''decision.proposal_hash'')) (\<lambda>_.
     rbind (ensure (\<not> (ad_decided_at_ms decision < ep_created_at_ms proposal
                      \<or> ad_expires_at_ms decision > ep_expires_at_ms proposal))
              (InvalidNestedWindow ''decision'')) (\<lambda>_.
     rbind (ad_commitment L decision) (\<lambda>decision_hash.
     Inr \<lparr>vd_commitment_hash = commitment_hash, vd_proposal_hash = proposal_hash,
          vd_decision_hash = decision_hash\<rparr>)))))))"

definition verify_authorization ::
    "lib \<Rightarrow> task_commitment \<Rightarrow> effect_proposal \<Rightarrow> authorization_decision \<Rightarrow> execution_grant
     \<Rightarrow> protocol_error + verified_authorization" where
  "verify_authorization L commitment proposal decision grant =
     rbind (verify_decision L commitment proposal decision) (\<lambda>verified.
     rbind (ensure (\<not> ad_outcome decision \<noteq> Allow) DecisionDoesNotAuthorize) (\<lambda>_.
     rbind (ensure (\<not> eg_proposal_hash grant \<noteq> vd_proposal_hash verified)
              (ChainMismatch ''grant.proposal_hash'')) (\<lambda>_.
     rbind (ensure (\<not> eg_decision_hash grant \<noteq> vd_decision_hash verified)
              (ChainMismatch ''grant.decision_hash'')) (\<lambda>_.
     rbind (ensure (\<not> (eg_not_before_ms grant < ad_decided_at_ms decision
                      \<or> eg_expires_at_ms grant > ad_expires_at_ms decision))
              (InvalidNestedWindow ''grant'')) (\<lambda>_.
     rbind (eg_commitment L grant) (\<lambda>grant_hash.
     Inr \<lparr>va_commitment_hash = vd_commitment_hash verified,
          va_proposal_hash = vd_proposal_hash verified,
          va_decision_hash = vd_decision_hash verified, va_grant_hash = grant_hash\<rparr>))))))"

definition verify_grant ::
    "lib \<Rightarrow> task_commitment \<Rightarrow> effect_proposal \<Rightarrow> authorization_decision \<Rightarrow> execution_grant
     \<Rightarrow> protocol_error + digest32" where
  "verify_grant L commitment proposal decision grant =
     rbind (verify_authorization L commitment proposal decision grant) (\<lambda>a. Inr (va_grant_hash a))"

definition verify_chain ::
    "lib \<Rightarrow> task_commitment \<Rightarrow> effect_proposal \<Rightarrow> authorization_decision \<Rightarrow> execution_grant
     \<Rightarrow> effect_receipt \<Rightarrow> protocol_error + verified_chain" where
  "verify_chain L commitment proposal decision grant receipt =
     rbind (verify_authorization L commitment proposal decision grant) (\<lambda>authorization.
     rbind (ensure (\<not> er_proposal_hash receipt \<noteq> va_proposal_hash authorization)
              (ChainMismatch ''receipt.proposal_hash'')) (\<lambda>_.
     rbind (ensure (\<not> er_grant_hash receipt \<noteq> va_grant_hash authorization)
              (ChainMismatch ''receipt.grant_hash'')) (\<lambda>_.
     rbind (ensure (\<not> (er_claimed_at_ms receipt < eg_not_before_ms grant
                      \<or> er_claimed_at_ms receipt \<ge> eg_expires_at_ms grant))
              ReceiptOutsideGrantWindow) (\<lambda>_.
     rbind (er_commitment L receipt) (\<lambda>receipt_hash.
     Inr \<lparr>vc_commitment_hash = va_commitment_hash authorization,
          vc_proposal_hash = va_proposal_hash authorization,
          vc_decision_hash = va_decision_hash authorization,
          vc_grant_hash = va_grant_hash authorization, vc_receipt_hash = receipt_hash\<rparr>)))))"

section \<open>Reconciliation\<close>

definition saturating_add1 :: "u64 \<Rightarrow> u64" where
  "saturating_add1 n = (if n = - 1 then n else n + 1)"

definition terminal_outcome :: "reconciliation_outcome \<Rightarrow> bool" where
  "terminal_outcome outcome \<longleftrightarrow> outcome \<in> {EffectConfirmed, NoEffectConfirmed, Compensated}"

definition verify_reconciliation ::
    "lib \<Rightarrow> effect_receipt \<Rightarrow> reconciliation_record option \<Rightarrow> reconciliation_record
     \<Rightarrow> protocol_error + digest32" where
  "verify_reconciliation L receipt previous record =
     rbind (ensure (\<not> er_outcome receipt \<noteq> Unknown) ReconciliationRequiresUnknown) (\<lambda>_.
     rbind (er_commitment L receipt) (\<lambda>receipt_hash.
     rbind (ensure (\<not> rr_receipt_hash record \<noteq> receipt_hash)
              (ChainMismatch ''reconciliation.receipt_hash'')) (\<lambda>_.
     rbind (ensure (\<not> rr_observed_at_ms record < er_completed_at_ms receipt)
              InvalidReconciliationTimeline) (\<lambda>_.
     rbind (case previous of
              None \<Rightarrow>
                ensure (\<not> (rr_sequence record \<noteq> 1 \<or> rr_parent_reconciliation_hash record \<noteq> None))
                  InvalidReconciliationParent
            | Some parent \<Rightarrow>
                rbind (ensure (\<not> terminal_outcome (rr_outcome parent))
                         ReconciliationAlreadyTerminal) (\<lambda>_.
                rbind (rr_commitment L parent) (\<lambda>parent_hash.
                ensure (\<not> (rr_sequence record \<noteq> saturating_add1 (rr_sequence parent)
                          \<or> rr_parent_reconciliation_hash record \<noteq> Some parent_hash
                          \<or> rr_receipt_hash record \<noteq> rr_receipt_hash parent
                          \<or> rr_observed_at_ms record < rr_observed_at_ms parent))
                  InvalidReconciliationParent))) (\<lambda>_.
     rr_commitment L record)))))"

text \<open>
  The loop of \<open>verify_transaction\<close>: \<open>previous\<close> is the record before, \<open>identifiers\<close> the set of
  identifiers seen. The result is the list of hashes and the last record.
\<close>

fun verify_history ::
    "lib \<Rightarrow> effect_receipt \<Rightarrow> reconciliation_record option \<Rightarrow> string set
     \<Rightarrow> reconciliation_record list
     \<Rightarrow> protocol_error + (digest32 list \<times> reconciliation_record option)" where
  "verify_history L receipt previous identifiers [] = Inr ([], previous)"
| "verify_history L receipt previous identifiers (record # records) =
     rbind (ensure (rr_reconciliation_id record \<notin> identifiers)
              (DuplicateIdentifier ''reconciliation_id'')) (\<lambda>_.
     rbind (verify_reconciliation L receipt previous record) (\<lambda>hash.
     rbind (verify_history L receipt (Some record)
              (insert (rr_reconciliation_id record) identifiers) records) (\<lambda>(hashes, last).
     Inr (hash # hashes, last))))"

fun receipt_state :: "receipt_outcome \<Rightarrow> transaction_state" where
  "receipt_state NotDispatched = TS_NotDispatched"
| "receipt_state Succeeded = TS_Succeeded"
| "receipt_state Failed = TS_Failed"
| "receipt_state Unknown = TS_Unknown"

fun reconciliation_state :: "reconciliation_outcome \<Rightarrow> transaction_state" where
  "reconciliation_state EffectConfirmed = TS_EffectConfirmed"
| "reconciliation_state NoEffectConfirmed = TS_NoEffectConfirmed"
| "reconciliation_state PartialEffect = TS_PartialEffect"
| "reconciliation_state StillUnknown = TS_StillUnknown"
| "reconciliation_state Compensated = TS_Compensated"

definition verify_transaction ::
    "lib \<Rightarrow> transaction_bundle \<Rightarrow> protocol_error + verified_transaction" where
  "verify_transaction L bundle =
     rbind (ensure (\<not> length (tb_reconciliations bundle) > MAX_RECONCILIATION_RECORDS)
              (ResourceLimit ''reconciliation records'')) (\<lambda>_.
     rbind (verify_decision L (tb_commitment bundle) (tb_proposal bundle) (tb_decision bundle))
       (\<lambda>decision.
     case tb_grant bundle of
       None \<Rightarrow>
         rbind (ensure (\<not> (tb_receipt bundle \<noteq> None \<or> tb_reconciliations bundle \<noteq> []))
                  (MissingPredecessor ''grant'')) (\<lambda>_.
         Inr \<lparr>vt_commitment_hash = vd_commitment_hash decision,
              vt_proposal_hash = vd_proposal_hash decision,
              vt_decision_hash = vd_decision_hash decision, vt_grant_hash = None,
              vt_receipt_hash = None, vt_reconciliation_hashes = [], vt_state = TS_Decided\<rparr>)
     | Some grant \<Rightarrow>
         rbind (verify_grant L (tb_commitment bundle) (tb_proposal bundle) (tb_decision bundle) grant)
           (\<lambda>grant_hash.
         case tb_receipt bundle of
           None \<Rightarrow>
             rbind (ensure (tb_reconciliations bundle = []) (MissingPredecessor ''receipt'')) (\<lambda>_.
             Inr \<lparr>vt_commitment_hash = vd_commitment_hash decision,
                  vt_proposal_hash = vd_proposal_hash decision,
                  vt_decision_hash = vd_decision_hash decision, vt_grant_hash = Some grant_hash,
                  vt_receipt_hash = None, vt_reconciliation_hashes = [], vt_state = TS_Granted\<rparr>)
         | Some receipt \<Rightarrow>
             rbind (verify_chain L (tb_commitment bundle) (tb_proposal bundle) (tb_decision bundle)
                      grant receipt) (\<lambda>chain.
             rbind (verify_history L receipt None {} (tb_reconciliations bundle))
               (\<lambda>(reconciliation_hashes, previous).
             Inr \<lparr>vt_commitment_hash = vc_commitment_hash chain,
                  vt_proposal_hash = vc_proposal_hash chain,
                  vt_decision_hash = vc_decision_hash chain,
                  vt_grant_hash = Some (vc_grant_hash chain),
                  vt_receipt_hash = Some (vc_receipt_hash chain),
                  vt_reconciliation_hashes = reconciliation_hashes,
                  vt_state = (case previous of
                                None \<Rightarrow> receipt_state (er_outcome receipt)
                              | Some record \<Rightarrow> reconciliation_state (rr_outcome record))\<rparr>)))))"

section \<open>Success of the verifiers\<close>

lemma verify_decision_ok [ok_iff]:
  "verify_decision L c p d = Inr v \<longleftrightarrow>
     tc_commitment L c = Inr (vd_commitment_hash v) \<and> ep_commitment L p = Inr (vd_proposal_hash v)
     \<and> ad_commitment L d = Inr (vd_decision_hash v)
     \<and> ep_commitment_hash p = vd_commitment_hash v \<and> ad_proposal_hash d = vd_proposal_hash v
     \<and> tc_created_at_ms c \<le> ep_created_at_ms p \<and> ep_expires_at_ms p \<le> tc_expires_at_ms c
     \<and> ep_created_at_ms p \<le> ad_decided_at_ms d \<and> ad_expires_at_ms d \<le> ep_expires_at_ms p"
  by (cases v) (auto simp: verify_decision_def rbind_ok ensure_ok)

lemma verify_authorization_ok [ok_iff]:
  "verify_authorization L c p d g = Inr v \<longleftrightarrow>
     verify_decision L c p d
       = Inr \<lparr>vd_commitment_hash = va_commitment_hash v, vd_proposal_hash = va_proposal_hash v,
              vd_decision_hash = va_decision_hash v\<rparr>
     \<and> ad_outcome d = Allow \<and> eg_proposal_hash g = va_proposal_hash v
     \<and> eg_decision_hash g = va_decision_hash v
     \<and> ad_decided_at_ms d \<le> eg_not_before_ms g \<and> eg_expires_at_ms g \<le> ad_expires_at_ms d
     \<and> eg_commitment L g = Inr (va_grant_hash v)"
  by (cases v) (auto simp: verify_authorization_def rbind_ok ensure_ok verified_decision.splits)

lemma verify_grant_ok [ok_iff]:
  "verify_grant L c p d g = Inr h \<longleftrightarrow>
     (\<exists>v. verify_authorization L c p d g = Inr v \<and> va_grant_hash v = h)"
  by (auto simp: verify_grant_def rbind_ok)

lemma verify_chain_ok [ok_iff]:
  "verify_chain L c p d g r = Inr v \<longleftrightarrow>
     verify_authorization L c p d g
       = Inr \<lparr>va_commitment_hash = vc_commitment_hash v, va_proposal_hash = vc_proposal_hash v,
              va_decision_hash = vc_decision_hash v, va_grant_hash = vc_grant_hash v\<rparr>
     \<and> er_proposal_hash r = vc_proposal_hash v \<and> er_grant_hash r = vc_grant_hash v
     \<and> eg_not_before_ms g \<le> er_claimed_at_ms r \<and> er_claimed_at_ms r < eg_expires_at_ms g
     \<and> er_commitment L r = Inr (vc_receipt_hash v)"
  by (cases v) (auto simp: verify_chain_def rbind_ok ensure_ok)

section \<open>Reconciliation histories\<close>

text \<open>A record is evidence for an unknown receipt, and continues the record before it.\<close>

definition evidence_for :: "lib \<Rightarrow> effect_receipt \<Rightarrow> reconciliation_record \<Rightarrow> bool" where
  "evidence_for L receipt record \<longleftrightarrow>
     er_outcome receipt = Unknown \<and> er_commitment L receipt = Inr (rr_receipt_hash record)
     \<and> er_completed_at_ms receipt \<le> rr_observed_at_ms record"

definition follows :: "lib \<Rightarrow> reconciliation_record option \<Rightarrow> reconciliation_record \<Rightarrow> bool" where
  "follows L previous record =
     (case previous of
        None \<Rightarrow> rr_sequence record = 1 \<and> rr_parent_reconciliation_hash record = None
      | Some parent \<Rightarrow>
          \<not> terminal_outcome (rr_outcome parent)
          \<and> rr_sequence record = saturating_add1 (rr_sequence parent)
          \<and> (\<exists>h. rr_commitment L parent = Inr h \<and> rr_parent_reconciliation_hash record = Some h)
          \<and> rr_receipt_hash record = rr_receipt_hash parent
          \<and> rr_observed_at_ms parent \<le> rr_observed_at_ms record)"

lemma verify_reconciliation_ok [ok_iff]:
  "verify_reconciliation L receipt previous record = Inr h \<longleftrightarrow>
     evidence_for L receipt record \<and> follows L previous record \<and> rr_commitment L record = Inr h"
  by (cases previous)
     (auto simp: verify_reconciliation_def evidence_for_def follows_def rbind_ok ensure_ok not_less)

text \<open>Each record of a history is evidence, is valid and continues the one before it.\<close>

definition previous_at :: "reconciliation_record list \<Rightarrow> nat \<Rightarrow> reconciliation_record option" where
  "previous_at rs i = (if i = 0 then None else Some (rs ! (i - 1)))"

definition history_ok :: "lib \<Rightarrow> effect_receipt \<Rightarrow> reconciliation_record list \<Rightarrow> bool" where
  "history_ok L receipt rs \<longleftrightarrow>
     distinct (map rr_reconciliation_id rs)
     \<and> (\<forall>i < length rs. \<exists>h. verify_reconciliation L receipt (previous_at rs i) (rs ! i) = Inr h)"

definition last_record :: "reconciliation_record list \<Rightarrow> reconciliation_record option" where
  "last_record rs = (if rs = [] then None else Some (last rs))"

lemma history_ok_Nil [simp]: "history_ok L receipt []"
  by (simp add: history_ok_def)

lemma history_ok_snoc:
  "history_ok L receipt (rs @ [r]) \<longleftrightarrow>
     history_ok L receipt rs \<and> rr_reconciliation_id r \<notin> rr_reconciliation_id ` set rs
     \<and> (\<exists>h. verify_reconciliation L receipt (last_record rs) r = Inr h)"
proof -
  have prev: "previous_at (rs @ [r]) i = previous_at rs i" if "i < length rs" for i
    using that by (auto simp: previous_at_def nth_append)
  have lastp: "previous_at (rs @ [r]) (length rs) = last_record rs"
    by (auto simp: previous_at_def last_record_def nth_append last_conv_nth)
  show ?thesis
    unfolding history_ok_def
    by (auto simp: nth_append less_Suc_eq prev lastp all_conj_distrib)
qed

lemma history_ok_prefix: "history_ok L receipt (rs @ ts) \<Longrightarrow> history_ok L receipt rs"
  by (induction ts rule: rev_induct) (simp_all add: history_ok_snoc flip: append_assoc)

text \<open>The loop, started in the middle of a history, accepts exactly the continuations.\<close>

lemma verify_history_append:
  "verify_history L receipt (last_record rs) (rr_reconciliation_id ` set rs) ts = Inr (hs, p) \<and>
     history_ok L receipt rs \<longleftrightarrow>
   history_ok L receipt (rs @ ts) \<and> list_all2 (\<lambda>r h. rr_commitment L r = Inr h) ts hs
     \<and> p = last_record (rs @ ts)"
proof (induction ts arbitrary: rs hs)
  case Nil
  then show ?case by auto
next
  case (Cons t ts)
  have last: "last_record (rs @ [t]) = Some t" by (simp add: last_record_def)
  have ids: "rr_reconciliation_id ` set (rs @ [t])
      = insert (rr_reconciliation_id t) (rr_reconciliation_id ` set rs)" by auto
  note IH = Cons.IH [of "rs @ [t]", unfolded last ids]
  have pre: "history_ok L receipt (rs @ t # ts) \<Longrightarrow> history_ok L receipt (rs @ [t])"
    using history_ok_prefix [of L receipt "rs @ [t]" ts] by simp
  show ?case
    using IH pre
    by (cases hs) (auto simp: rbind_ok ensure_ok history_ok_snoc verify_reconciliation_ok)
qed

lemma verify_history_ok [ok_iff]:
  "verify_history L receipt None {} rs = Inr (hs, p) \<longleftrightarrow>
     history_ok L receipt rs \<and> list_all2 (\<lambda>r h. rr_commitment L r = Inr h) rs hs
     \<and> p = last_record rs"
  using verify_history_append [of L receipt "[]" rs hs p] by (simp add: last_record_def)

text \<open>What the records of a history look like.\<close>

lemma history_evidence:
  "history_ok L receipt rs \<Longrightarrow> i < length rs \<Longrightarrow>
   evidence_for L receipt (rs ! i) \<and> follows L (previous_at rs i) (rs ! i)
   \<and> rr_validate (rs ! i) = Inr ()"
  unfolding history_ok_def verify_reconciliation_ok
  using rr.commitment_valid by (fastforce simp: rr_commitment_def)

lemma history_step:
  "history_ok L receipt rs \<Longrightarrow> Suc i < length rs \<Longrightarrow> follows L (Some (rs ! i)) (rs ! Suc i)"
  using history_evidence [of L receipt rs "Suc i"] by (simp add: previous_at_def)

lemma saturating_add1_safe: "n \<le> MAX_SAFE_INTEGER \<Longrightarrow> saturating_add1 n = n + 1"
proof -
  assume n: "n \<le> MAX_SAFE_INTEGER"
  have "uint (- 1 :: u64) = 2 ^ 64 - 1" by (simp add: unsigned_minus_1_eq_mask mask_eq_exp_minus_1)
  with n have "n \<noteq> - 1" by (auto simp: MAX_SAFE_INTEGER_def word_le_def)
  then show ?thesis by (simp add: saturating_add1_def)
qed

lemma history_sequence:
  assumes "history_ok L receipt rs" and "i < length rs"
  shows "rr_sequence (rs ! i) = of_nat (Suc i)"
  using assms(2)
proof (induction i)
  case 0
  then show ?case using history_evidence [OF assms(1), of 0] by (simp add: previous_at_def follows_def)
next
  case (Suc i)
  then have "rr_sequence (rs ! i) \<le> MAX_SAFE_INTEGER"
    using history_evidence [OF assms(1), of i] by (simp add: rr_validate_ok)
  with Suc history_step [OF assms(1) Suc.prems] show ?case
    by (simp add: follows_def saturating_add1_safe)
qed

lemma history_sorted:
  assumes "history_ok L receipt rs"
  shows "sorted (map rr_observed_at_ms rs)"
  using history_step [OF assms] by (auto simp: sorted_iff_nth_Suc follows_def)

lemma history_nonterminal:
  "history_ok L receipt rs \<Longrightarrow> Suc i < length rs \<Longrightarrow> \<not> terminal_outcome (rr_outcome (rs ! i))"
  using history_step by (auto simp: follows_def)

lemma history_parent:
  "history_ok L receipt rs \<Longrightarrow> Suc i < length rs \<Longrightarrow>
   rr_commitment L (rs ! i) = Inr h \<Longrightarrow> rr_parent_reconciliation_hash (rs ! Suc i) = Some h"
  using history_step [of L receipt rs i] by (auto simp: follows_def)

lemma history_unknown:
  "history_ok L receipt rs \<Longrightarrow> rs \<noteq> [] \<Longrightarrow> er_outcome receipt = Unknown"
  using history_evidence [of L receipt rs 0] by (simp add: evidence_for_def)

section \<open>Success of the bundle verifier\<close>

definition bundle_state :: "transaction_bundle \<Rightarrow> transaction_state" where
  "bundle_state b =
     (case (tb_grant b, tb_receipt b) of
        (None, _) \<Rightarrow> TS_Decided
      | (Some g, None) \<Rightarrow> TS_Granted
      | (Some g, Some r) \<Rightarrow>
          (case last_record (tb_reconciliations b) of
             None \<Rightarrow> receipt_state (er_outcome r)
           | Some rec \<Rightarrow> reconciliation_state (rr_outcome rec)))"

text \<open>The records present form a prefix of the lifecycle, and each link verifies.\<close>

definition lifecycle_ok :: "lib \<Rightarrow> transaction_bundle \<Rightarrow> bool" where
  "lifecycle_ok L b \<longleftrightarrow>
     length (tb_reconciliations b) \<le> MAX_RECONCILIATION_RECORDS
     \<and> (\<exists>v. verify_decision L (tb_commitment b) (tb_proposal b) (tb_decision b) = Inr v)
     \<and> (case (tb_grant b, tb_receipt b) of
          (None, rc) \<Rightarrow> rc = None \<and> tb_reconciliations b = []
        | (Some g, None) \<Rightarrow>
            tb_reconciliations b = []
            \<and> (\<exists>h. verify_grant L (tb_commitment b) (tb_proposal b) (tb_decision b) g = Inr h)
        | (Some g, Some r) \<Rightarrow>
            (\<exists>v. verify_chain L (tb_commitment b) (tb_proposal b) (tb_decision b) g r = Inr v)
            \<and> history_ok L r (tb_reconciliations b))"

lemma history_hashes:
  assumes "history_ok L receipt rs"
  shows "\<exists>hs. list_all2 (\<lambda>r h. rr_commitment L r = Inr h) rs hs"
proof -
  have "\<forall>r \<in> set rs. \<exists>h. rr_commitment L r = Inr h"
    using assms by (auto simp: history_ok_def verify_reconciliation_ok in_set_conv_nth)
  then have "\<exists>hs. traverse (rr_commitment L) rs = Inr hs" by (simp add: traverse_ok_ex)
  then show ?thesis by (simp add: traverse_ok)
qed

lemma verify_transaction_ok_iff:
  "(\<exists>v. verify_transaction L b = Inr v) \<longleftrightarrow> lifecycle_ok L b"
proof (cases "tb_grant b")
  case None
  then show ?thesis
    by (auto simp: verify_transaction_def lifecycle_ok_def rbind_ok ensure_ok)
next
  case (Some g)
  show ?thesis
  proof (cases "tb_receipt b")
    case None
    with Some show ?thesis
      by (auto simp: verify_transaction_def lifecycle_ok_def rbind_ok ensure_ok)
  next
    case (Some r)
    have "verify_chain L (tb_commitment b) (tb_proposal b) (tb_decision b) g r = Inr v \<Longrightarrow>
        \<exists>h. verify_grant L (tb_commitment b) (tb_proposal b) (tb_decision b) g = Inr h" for v
      by (auto simp: verify_chain_ok verify_grant_ok)
    moreover have "(\<exists>hs p. verify_history L r None {} (tb_reconciliations b) = Inr (hs, p)) \<longleftrightarrow>
        history_ok L r (tb_reconciliations b)"
      using history_hashes [of L r "tb_reconciliations b"] by (auto simp: verify_history_ok)
    ultimately show ?thesis
      using \<open>tb_grant b = Some g\<close> Some
      by (simp add: verify_transaction_def lifecycle_ok_def rbind_ok ensure_ok) (auto; blast)
  qed
qed

lemma verify_transaction_state:
  "verify_transaction L b = Inr v \<Longrightarrow> vt_state v = bundle_state b"
  by (auto simp: verify_transaction_def bundle_state_def ok_iff
      split: option.splits prod.splits)

end
