(* ===== verification/Lifecycle_Spec.thy ===== *)
theory Lifecycle_Spec
  imports Chain
begin

text \<open>
  What a verified bundle promises, written without the verification functions: every record
  is valid, every record names its predecessor by its commitment, the validity windows are
  nested, and the reconciliation records form one parent-linked history. The section on
  binding shows that the commitment of the last record fixes all the records before it, up to
  an explicit collision of the hash function.
\<close>

section \<open>Specification of a lifecycle\<close>

definition decision_spec ::
    "lib \<Rightarrow> task_commitment \<Rightarrow> effect_proposal \<Rightarrow> authorization_decision \<Rightarrow> bool" where
  "decision_spec L c p d \<longleftrightarrow>
     tc_validate c = Inr () \<and> ep_validate p = Inr () \<and> ad_validate d = Inr ()
     \<and> tc_commitment L c = Inr (ep_commitment_hash p)
     \<and> ep_commitment L p = Inr (ad_proposal_hash d)
     \<and> tc_created_at_ms c \<le> ep_created_at_ms p \<and> ep_created_at_ms p \<le> ad_decided_at_ms d
     \<and> ad_expires_at_ms d \<le> ep_expires_at_ms p \<and> ep_expires_at_ms p \<le> tc_expires_at_ms c"

definition grant_spec ::
    "lib \<Rightarrow> effect_proposal \<Rightarrow> authorization_decision \<Rightarrow> execution_grant \<Rightarrow> bool" where
  "grant_spec L p d g \<longleftrightarrow>
     eg_validate g = Inr () \<and> ad_outcome d = Allow
     \<and> ep_commitment L p = Inr (eg_proposal_hash g) \<and> ad_commitment L d = Inr (eg_decision_hash g)
     \<and> ad_decided_at_ms d \<le> eg_not_before_ms g \<and> eg_expires_at_ms g \<le> ad_expires_at_ms d"

definition receipt_spec ::
    "lib \<Rightarrow> effect_proposal \<Rightarrow> execution_grant \<Rightarrow> effect_receipt \<Rightarrow> bool" where
  "receipt_spec L p g r \<longleftrightarrow>
     er_validate r = Inr () \<and> ep_commitment L p = Inr (er_proposal_hash r)
     \<and> eg_commitment L g = Inr (er_grant_hash r)
     \<and> eg_not_before_ms g \<le> er_claimed_at_ms r \<and> er_claimed_at_ms r < eg_expires_at_ms g"

text \<open>Record \<open>i\<close> of a history, given the records before it.\<close>

definition history_spec :: "lib \<Rightarrow> effect_receipt \<Rightarrow> reconciliation_record list \<Rightarrow> bool" where
  "history_spec L r recs \<longleftrightarrow>
     (recs \<noteq> [] \<longrightarrow> er_outcome r = Unknown)
     \<and> distinct (map rr_reconciliation_id recs)
     \<and> sorted (map rr_observed_at_ms recs)
     \<and> (\<forall>i < length recs.
          rr_validate (recs ! i) = Inr ()
          \<and> er_commitment L r = Inr (rr_receipt_hash (recs ! i))
          \<and> er_completed_at_ms r \<le> rr_observed_at_ms (recs ! i)
          \<and> rr_sequence (recs ! i) = of_nat (Suc i)
          \<and> (Suc i < length recs \<longrightarrow>
               \<not> terminal_outcome (rr_outcome (recs ! i))
               \<and> (\<exists>h. rr_commitment L (recs ! i) = Inr h
                      \<and> rr_parent_reconciliation_hash (recs ! Suc i) = Some h)))"

definition lifecycle_spec :: "lib \<Rightarrow> transaction_bundle \<Rightarrow> bool" where
  "lifecycle_spec L b \<longleftrightarrow>
     length (tb_reconciliations b) \<le> MAX_RECONCILIATION_RECORDS
     \<and> decision_spec L (tb_commitment b) (tb_proposal b) (tb_decision b)
     \<and> (case (tb_grant b, tb_receipt b) of
          (None, rc) \<Rightarrow> rc = None \<and> tb_reconciliations b = []
        | (Some g, None) \<Rightarrow>
            tb_reconciliations b = [] \<and> grant_spec L (tb_proposal b) (tb_decision b) g
        | (Some g, Some r) \<Rightarrow>
            grant_spec L (tb_proposal b) (tb_decision b) g \<and> receipt_spec L (tb_proposal b) g r
            \<and> history_spec L r (tb_reconciliations b))"

section \<open>The verification functions meet the specification\<close>

lemma commitment_valid_iff:
  assumes "quotes L"
  shows "(\<exists>h. tc_commitment L c = Inr h) \<longleftrightarrow> tc_validate c = Inr ()"
    and "(\<exists>h. ep_commitment L p = Inr h) \<longleftrightarrow> ep_validate p = Inr ()"
    and "(\<exists>h. ad_commitment L d = Inr h) \<longleftrightarrow> ad_validate d = Inr ()"
    and "(\<exists>h. eg_commitment L g = Inr h) \<longleftrightarrow> eg_validate g = Inr ()"
    and "(\<exists>h. er_commitment L r = Inr h) \<longleftrightarrow> er_validate r = Inr ()"
    and "(\<exists>h. rr_commitment L x = Inr h) \<longleftrightarrow> rr_validate x = Inr ()"
  using assms unfolding commitment_defs
  by (simp_all add: tc.commitment_ok_iff ep.commitment_ok_iff ad.commitment_ok_iff
      eg.commitment_ok_iff er.commitment_ok_iff rr.commitment_ok_iff)

lemma decision_spec_iff:
  assumes "quotes L"
  shows "(\<exists>v. verify_decision L c p d = Inr v) \<longleftrightarrow> decision_spec L c p d"
proof -
  have "(\<exists>v. verify_decision L c p d = Inr v) \<longleftrightarrow>
      (\<exists>hd. ad_commitment L d = Inr hd) \<and> tc_commitment L c = Inr (ep_commitment_hash p)
      \<and> ep_commitment L p = Inr (ad_proposal_hash d)
      \<and> tc_created_at_ms c \<le> ep_created_at_ms p \<and> ep_expires_at_ms p \<le> tc_expires_at_ms c
      \<and> ep_created_at_ms p \<le> ad_decided_at_ms d \<and> ad_expires_at_ms d \<le> ep_expires_at_ms p"
    by (auto simp: verify_decision_def rbind_ok ensure_ok not_less)
  then show ?thesis
    using commitment_valid_iff(1-3) [OF assms] unfolding decision_spec_def by (metis (no_types))
qed

lemma grant_spec_iff:
  assumes "quotes L"
  shows "(\<exists>h. verify_grant L c p d g = Inr h) \<longleftrightarrow> decision_spec L c p d \<and> grant_spec L p d g"
proof -
  have "(\<exists>h. verify_grant L c p d g = Inr h) \<longleftrightarrow>
      (\<exists>v. verify_decision L c p d = Inr v) \<and> ad_outcome d = Allow
      \<and> ep_commitment L p = Inr (eg_proposal_hash g) \<and> ad_commitment L d = Inr (eg_decision_hash g)
      \<and> ad_decided_at_ms d \<le> eg_not_before_ms g \<and> eg_expires_at_ms g \<le> ad_expires_at_ms d
      \<and> (\<exists>h. eg_commitment L g = Inr h)"
  proof (cases "verify_decision L c p d")
    case (Inr v)
    with Inr [unfolded verify_decision_ok] show ?thesis
      by (auto simp: verify_grant_def verify_authorization_def rbind_ok ensure_ok not_less)
  qed (simp add: verify_grant_def verify_authorization_def)
  then show ?thesis
    unfolding decision_spec_iff [OF assms] commitment_valid_iff(4) [OF assms] grant_spec_def
    by blast
qed

lemma receipt_spec_iff:
  assumes "quotes L"
  shows "(\<exists>v. verify_chain L c p d g r = Inr v) \<longleftrightarrow>
    decision_spec L c p d \<and> grant_spec L p d g \<and> receipt_spec L p g r"
proof -
  have "(\<exists>v. verify_chain L c p d g r = Inr v) \<longleftrightarrow>
      (\<exists>h. verify_grant L c p d g = Inr h)
      \<and> ep_commitment L p = Inr (er_proposal_hash r) \<and> eg_commitment L g = Inr (er_grant_hash r)
      \<and> eg_not_before_ms g \<le> er_claimed_at_ms r \<and> er_claimed_at_ms r < eg_expires_at_ms g
      \<and> (\<exists>h. er_commitment L r = Inr h)"
  proof (cases "verify_authorization L c p d g")
    case (Inr v)
    with Inr [unfolded verify_authorization_ok verify_decision_ok] show ?thesis
      by (auto simp: verify_chain_def verify_grant_def rbind_ok ensure_ok not_less not_le)
  qed (simp add: verify_chain_def verify_grant_def)
  then show ?thesis
    unfolding grant_spec_iff [OF assms] commitment_valid_iff(5) [OF assms] receipt_spec_def
    by blast
qed

lemma history_spec_iff:
  assumes "quotes L"
  shows "history_ok L r recs \<longleftrightarrow> history_spec L r recs"
proof
  assume h: "history_ok L r recs"
  then have valid: "rr_validate (recs ! i) = Inr ()" if "i < length recs" for i
    using that history_evidence by blast
  have "\<exists>h. rr_commitment L (recs ! i) = Inr h \<and> rr_parent_reconciliation_hash (recs ! Suc i) = Some h"
    if "Suc i < length recs" for i
    using history_step [OF h that] by (auto simp: follows_def)
  then show "history_spec L r recs"
    using h valid history_evidence [OF h] history_sequence [OF h] history_sorted [OF h]
      history_nonterminal [OF h] history_unknown [OF h]
    by (auto simp: history_spec_def evidence_for_def history_ok_def [THEN iffD1, OF h])
next
  assume s: "history_spec L r recs"
  have "\<exists>h. verify_reconciliation L r (previous_at recs i) (recs ! i) = Inr h"
    if i: "i < length recs" for i
  proof -
    obtain h where "rr_commitment L (recs ! i) = Inr h"
      using s i commitment_valid_iff(6) [OF assms] by (auto simp: history_spec_def)
    moreover have "evidence_for L r (recs ! i)"
      using s i by (auto simp: history_spec_def evidence_for_def)
    moreover have "follows L (previous_at recs i) (recs ! i)"
    proof (cases i)
      case 0
      with s i show ?thesis by (auto simp: history_spec_def previous_at_def follows_def rr_validate_ok)
    next
      case (Suc j)
      with i have j: "j < length recs" and Sj: "Suc j < length recs" by simp_all
      with s have facts: "rr_validate (recs ! j) = Inr ()" "\<not> terminal_outcome (rr_outcome (recs ! j))"
        "rr_sequence (recs ! j) = of_nat (Suc j)" "rr_sequence (recs ! Suc j) = of_nat (Suc (Suc j))"
        "\<exists>h. rr_commitment L (recs ! j) = Inr h \<and> rr_parent_reconciliation_hash (recs ! Suc j) = Some h"
        by (auto simp: history_spec_def)
      from s j Sj have "er_commitment L r = Inr (rr_receipt_hash (recs ! j))"
        and "er_commitment L r = Inr (rr_receipt_hash (recs ! Suc j))"
        unfolding history_spec_def by blast+
      then have "rr_receipt_hash (recs ! Suc j) = rr_receipt_hash (recs ! j)" by simp
      moreover have "rr_observed_at_ms (recs ! j) \<le> rr_observed_at_ms (recs ! Suc j)"
        using s Sj by (auto simp: history_spec_def sorted_iff_nth_Suc)
      moreover have "rr_sequence (recs ! Suc j) = saturating_add1 (rr_sequence (recs ! j))"
        using facts(1,3,4) by (subst saturating_add1_safe) (simp_all add: rr_validate_ok)
      ultimately show ?thesis using facts by (auto simp: Suc previous_at_def follows_def)
    qed
    ultimately show ?thesis by (auto simp: verify_reconciliation_ok)
  qed
  with s show "history_ok L r recs" by (simp add: history_ok_def history_spec_def)
qed

lemma lifecycle_spec_iff:
  assumes "quotes L"
  shows "lifecycle_ok L b \<longleftrightarrow> lifecycle_spec L b"
  unfolding lifecycle_ok_def lifecycle_spec_def decision_spec_iff [OF assms]
    grant_spec_iff [OF assms] receipt_spec_iff [OF assms] history_spec_iff [OF assms]
  by (auto split: option.splits)

section \<open>Binding\<close>

text \<open>A record of any kind, with its domain, its value and its commitment.\<close>

datatype etp_record =
  ETask task_commitment
| EProposal effect_proposal
| EDecision authorization_decision
| EGrant execution_grant
| EReceipt effect_receipt
| EReconciliation reconciliation_record

fun record_domain :: "etp_record \<Rightarrow> string" where
  "record_domain (ETask c) = TASK_COMMITMENT_DOMAIN"
| "record_domain (EProposal p) = EFFECT_PROPOSAL_DOMAIN"
| "record_domain (EDecision d) = AUTHORIZATION_DECISION_DOMAIN"
| "record_domain (EGrant g) = EXECUTION_GRANT_DOMAIN"
| "record_domain (EReceipt r) = EFFECT_RECEIPT_DOMAIN"
| "record_domain (EReconciliation x) = RECONCILIATION_RECORD_DOMAIN"

fun record_value :: "etp_record \<Rightarrow> jvalue" where
  "record_value (ETask c) = tc_value c"
| "record_value (EProposal p) = ep_value p"
| "record_value (EDecision d) = ad_value d"
| "record_value (EGrant g) = eg_value g"
| "record_value (EReceipt r) = er_value r"
| "record_value (EReconciliation x) = rr_value x"

fun record_commitment :: "lib \<Rightarrow> etp_record \<Rightarrow> protocol_error + digest32" where
  "record_commitment L (ETask c) = tc_commitment L c"
| "record_commitment L (EProposal p) = ep_commitment L p"
| "record_commitment L (EDecision d) = ad_commitment L d"
| "record_commitment L (EGrant g) = eg_commitment L g"
| "record_commitment L (EReceipt r) = er_commitment L r"
| "record_commitment L (EReconciliation x) = rr_commitment L x"

text \<open>The texts hashed for two records differ and have the same hash.\<close>

definition collides :: "lib \<Rightarrow> etp_record \<Rightarrow> etp_record \<Rightarrow> bool" where
  "collides L a b \<longleftrightarrow>
     hash_collision L (record_domain a) (record_value a) (record_domain b) (record_value b)"

lemma record_commitment_hash:
  "record_commitment L r = Inr h \<Longrightarrow> hash_record L (record_domain r) (record_value r) = Inr h"
  by (cases r) (auto simp: commitment_defs trait_commitment_def rbind_ok)

lemma record_domain_text: "CHR 0x00 \<notin> set (record_domain r)"
  by (cases r) (simp_all add: domain_defs)

lemma record_value_inj:
  assumes "record_domain a = record_domain b" and "norm (record_value a) = norm (record_value b)"
  shows "a = b"
  using assms
  by (cases a; cases b)
     (auto simp: domain_defs dest: tc_value_inj ep_value_inj ad_value_inj eg_value_inj
        er_value_inj rr_value_inj)

lemma record_commitment_binding:
  assumes "quote_conforms L" and "record_commitment L a = Inr h" and "record_commitment L b = Inr h"
  shows "a = b \<or> collides L a b"
  using hash_record_binding [OF assms(1) record_commitment_hash [OF assms(2)]
      record_commitment_hash [OF assms(3)] record_domain_text record_domain_text]
    record_value_inj [of a b]
  by (auto simp: collides_def)

text \<open>The commitment of a receipt fixes its chain.\<close>

lemma verify_chain_links:
  assumes "verify_chain L c p d g r = Inr v"
  shows "eg_commitment L g = Inr (er_grant_hash r)" "ep_commitment L p = Inr (er_proposal_hash r)"
    "ad_commitment L d = Inr (eg_decision_hash g)" "tc_commitment L c = Inr (ep_commitment_hash p)"
    "er_commitment L r = Inr (vc_receipt_hash v)"
  using assms by (simp_all add: verify_chain_ok verify_authorization_ok verify_decision_ok)

lemma receipt_binds_chain:
  assumes L: "quote_conforms L"
    and a: "verify_chain L c p d g r = Inr v" and b: "verify_chain L c' p' d' g' r' = Inr w"
    and same: "vc_receipt_hash v = vc_receipt_hash w"
  shows "(c = c' \<and> p = p' \<and> d = d' \<and> g = g' \<and> r = r')
    \<or> collides L (EReceipt r) (EReceipt r') \<or> collides L (EGrant g) (EGrant g')
    \<or> collides L (EDecision d) (EDecision d') \<or> collides L (EProposal p) (EProposal p')
    \<or> collides L (ETask c) (ETask c')"
proof -
  note bind = record_commitment_binding [OF L]
  note la = verify_chain_links [OF a] and lb = verify_chain_links [OF b]
  have "r = r' \<or> collides L (EReceipt r) (EReceipt r')"
    using bind [of "EReceipt r" _ "EReceipt r'"] la(5) lb(5) same by auto
  moreover have "g = g' \<or> collides L (EGrant g) (EGrant g')" if "r = r'"
    using bind [of "EGrant g" _ "EGrant g'"] la(1) lb(1) that by auto
  moreover have "p = p' \<or> collides L (EProposal p) (EProposal p')" if "r = r'"
    using bind [of "EProposal p" _ "EProposal p'"] la(2) lb(2) that by auto
  moreover have "d = d' \<or> collides L (EDecision d) (EDecision d')" if "g = g'"
    using bind [of "EDecision d" _ "EDecision d'"] la(3) lb(3) that by auto
  moreover have "c = c' \<or> collides L (ETask c) (ETask c')" if "p = p'"
    using bind [of "ETask c" _ "ETask c'"] la(4) lb(4) that by auto
  ultimately show ?thesis by blast
qed

lemma verify_transaction_hashes:
  "verify_transaction L b = Inr v \<Longrightarrow>
   list_all2 (\<lambda>x k. rr_commitment L x = Inr k) (tb_reconciliations b) (vt_reconciliation_hashes v)"
  by (cases "tb_grant b"; cases "tb_receipt b")
     (auto simp: verify_transaction_def rbind_ok ensure_ok verify_history_ok)

lemma verify_transaction_history:
  assumes "verify_transaction L b = Inr v" and "tb_reconciliations b \<noteq> []"
  shows "\<exists>r. tb_receipt b = Some r \<and> history_ok L r (tb_reconciliations b)"
proof -
  from assms have "lifecycle_ok L b" using verify_transaction_ok_iff by blast
  with assms(2) show ?thesis by (auto simp: lifecycle_ok_def split: option.splits)
qed

text \<open>The commitment of the last record of a history fixes the history.\<close>

lemma history_last_parent:
  assumes "history_ok L r (xs @ [x])"
  shows "xs = [] \<longleftrightarrow> rr_parent_reconciliation_hash x = None"
    and "xs \<noteq> [] \<Longrightarrow> \<exists>h. rr_commitment L (last xs) = Inr h \<and> rr_parent_reconciliation_hash x = Some h"
  using assms
  by (auto simp: history_ok_snoc verify_reconciliation_ok follows_def last_record_def
      split: if_splits)

lemma last_commitment_binds_history:
  assumes L: "quote_conforms L"
  shows "history_ok L r xs \<Longrightarrow> history_ok L r' ys \<Longrightarrow> xs \<noteq> [] \<Longrightarrow> ys \<noteq> [] \<Longrightarrow>
    rr_commitment L (last xs) = Inr h \<Longrightarrow> rr_commitment L (last ys) = Inr h \<Longrightarrow>
    xs = ys \<or> (\<exists>x \<in> set xs. \<exists>y \<in> set ys. collides L (EReconciliation x) (EReconciliation y))"
proof (induction xs arbitrary: ys h rule: rev_induct)
  case (snoc x xs)
  then obtain y zs where ys: "ys = zs @ [y]" by (metis rev_exhaust)
  have eq: "x = y \<or> collides L (EReconciliation x) (EReconciliation y)"
    using record_commitment_binding [OF L, of "EReconciliation x" h "EReconciliation y"]
      snoc.prems(5,6) by (simp add: ys)
  show ?case
  proof (cases "x = y \<and> xs \<noteq> []")
    case True
    note px = history_last_parent [OF snoc.prems(1)]
    note py = history_last_parent [OF snoc.prems(2) [unfolded ys]]
    from True px(1) py(1) have "zs \<noteq> []" by auto
    with True px(2) py(2) obtain k where k: "rr_commitment L (last xs) = Inr k"
      "rr_commitment L (last zs) = Inr k" by auto
    have "history_ok L r xs" "history_ok L r' zs"
      using snoc.prems(1,2) by (simp_all add: ys history_ok_snoc)
    from snoc.IH [OF this _ \<open>zs \<noteq> []\<close> k] True show ?thesis by (auto simp: ys)
  next
    case False
    have "xs = [] \<longleftrightarrow> rr_parent_reconciliation_hash x = None"
      "zs = [] \<longleftrightarrow> rr_parent_reconciliation_hash y = None"
      using history_last_parent(1) [OF snoc.prems(1)]
        history_last_parent(1) [OF snoc.prems(2) [unfolded ys]] by simp_all
    with False eq show ?thesis unfolding ys by (metis last_in_set last_snoc snoc.prems(3) snoc_eq_iff_butlast)
  qed
qed simp

end
