(* ===== verification/Typed_Reader.thy ===== *)
theory Typed_Reader
  imports Records "HOL-Library.Monad_Syntax"
begin

text \<open>
  A strict typed reader for the protocol records, after section 4 of SPEC.md: a record is an
  object with exactly the fields of its struct, without duplicates and unknown names, where
  an optional field may be null or absent; a digest is parsed by \<open>Digest32::parse\<close>. The crate
  leaves this work to the deserializers that serde derives from the struct declarations,
  which are fields of \<open>lib\<close>. The reader here shows that the assumption made about them
  elsewhere (\<open>reads_records\<close>, they read back what the canonical encoder wrote) can be met.
\<close>

section \<open>Fields\<close>

definition strict_object :: "string list \<Rightarrow> jvalue \<Rightarrow> (string \<times> jvalue) list option" where
  "strict_object names v =
     (case v of
        JObject kvs \<Rightarrow>
          if distinct (map fst kvs) \<and> set (map fst kvs) \<subseteq> set names then Some kvs else None
      | _ \<Rightarrow> None)"

definition field :: "(string \<times> jvalue) list \<Rightarrow> string \<Rightarrow> (jvalue \<Rightarrow> 'a option) \<Rightarrow> 'a option" where
  "field obj name f = Option.bind (map_of obj name) f"

definition optional ::
    "(string \<times> jvalue) list \<Rightarrow> string \<Rightarrow> (jvalue \<Rightarrow> 'a option) \<Rightarrow> 'a option option" where
  "optional obj name f =
     (case map_of obj name of
        None \<Rightarrow> Some None
      | Some v \<Rightarrow> if v = JNull then Some None else map_option Some (f v))"

definition read_u64 :: "jvalue \<Rightarrow> u64 option" where
  "read_u64 v =
     (case v of
        JNumber (JInt i) \<Rightarrow> if 0 \<le> i \<and> i < 2 ^ 64 then Some (word_of_int i) else None
      | _ \<Rightarrow> None)"

definition read_string :: "jvalue \<Rightarrow> string option" where
  "read_string v = (case v of JString s \<Rightarrow> Some s | _ \<Rightarrow> None)"

definition read_digest :: "jvalue \<Rightarrow> digest32 option" where
  "read_digest v = Option.bind (read_string v) deserialize_digest"

definition read_list :: "(jvalue \<Rightarrow> 'a option) \<Rightarrow> jvalue \<Rightarrow> 'a list option" where
  "read_list f v = (case v of JArray vs \<Rightarrow> those (map f vs) | _ \<Rightarrow> None)"

definition read_name :: "('a \<Rightarrow> string) \<Rightarrow> 'a list \<Rightarrow> jvalue \<Rightarrow> 'a option" where
  "read_name name values v =
     Option.bind (read_string v) (\<lambda>s. map_of (map (\<lambda>x. (name x, x)) values) s)"

section \<open>Records\<close>

definition read_tc :: "jvalue \<Rightarrow> task_commitment option" where
  "read_tc v = do {
     obj \<leftarrow> strict_object [''version'', ''commitment_id'', ''principal'', ''objective_digest'',
       ''constraints_digest'', ''authority_scope_digest'', ''policy_epoch'',
       ''configuration_epoch'', ''created_at_ms'', ''expires_at_ms''] v;
     version \<leftarrow> field obj ''version'' read_u64;
     commitment_id \<leftarrow> field obj ''commitment_id'' read_string;
     principal \<leftarrow> field obj ''principal'' read_string;
     objective \<leftarrow> field obj ''objective_digest'' read_digest;
     constraints \<leftarrow> field obj ''constraints_digest'' read_digest;
     authority \<leftarrow> field obj ''authority_scope_digest'' read_digest;
     policy \<leftarrow> field obj ''policy_epoch'' read_u64;
     configuration \<leftarrow> field obj ''configuration_epoch'' read_u64;
     created \<leftarrow> field obj ''created_at_ms'' read_u64;
     expires \<leftarrow> field obj ''expires_at_ms'' read_u64;
     Some \<lparr>tc_version = version, tc_commitment_id = commitment_id, tc_principal = principal,
           tc_objective_digest = objective, tc_constraints_digest = constraints,
           tc_authority_scope_digest = authority, tc_policy_epoch = policy,
           tc_configuration_epoch = configuration, tc_created_at_ms = created,
           tc_expires_at_ms = expires\<rparr> }"

definition read_ep :: "jvalue \<Rightarrow> effect_proposal option" where
  "read_ep v = do {
     obj \<leftarrow> strict_object [''version'', ''proposal_id'', ''commitment_hash'', ''effect_profile'',
       ''operation'', ''target'', ''arguments_digest'', ''expected_effect_digest'',
       ''pre_state_digest'', ''resource_claim_digest'', ''created_at_ms'', ''expires_at_ms''] v;
     version \<leftarrow> field obj ''version'' read_u64;
     proposal_id \<leftarrow> field obj ''proposal_id'' read_string;
     commitment_hash \<leftarrow> field obj ''commitment_hash'' read_digest;
     profile \<leftarrow> field obj ''effect_profile'' read_string;
     operation \<leftarrow> field obj ''operation'' read_string;
     target \<leftarrow> field obj ''target'' read_string;
     arguments \<leftarrow> field obj ''arguments_digest'' read_digest;
     expected \<leftarrow> field obj ''expected_effect_digest'' read_digest;
     pre_state \<leftarrow> field obj ''pre_state_digest'' read_digest;
     resource_claim \<leftarrow> field obj ''resource_claim_digest'' read_digest;
     created \<leftarrow> field obj ''created_at_ms'' read_u64;
     expires \<leftarrow> field obj ''expires_at_ms'' read_u64;
     Some \<lparr>ep_version = version, ep_proposal_id = proposal_id, ep_commitment_hash = commitment_hash,
           ep_effect_profile = profile, ep_operation = operation, ep_target = target,
           ep_arguments_digest = arguments, ep_expected_effect_digest = expected,
           ep_pre_state_digest = pre_state, ep_resource_claim_digest = resource_claim,
           ep_created_at_ms = created, ep_expires_at_ms = expires\<rparr> }"

definition read_ad :: "jvalue \<Rightarrow> authorization_decision option" where
  "read_ad v = do {
     obj \<leftarrow> strict_object [''version'', ''decision_id'', ''proposal_hash'', ''evidence_hashes'',
       ''outcome'', ''reason_codes'', ''decided_at_ms'', ''expires_at_ms''] v;
     version \<leftarrow> field obj ''version'' read_u64;
     decision_id \<leftarrow> field obj ''decision_id'' read_string;
     proposal_hash \<leftarrow> field obj ''proposal_hash'' read_digest;
     evidence \<leftarrow> field obj ''evidence_hashes'' (read_list read_digest);
     outcome \<leftarrow> field obj ''outcome'' (read_name decision_outcome_name [Allow, Deny, Review]);
     reasons \<leftarrow> field obj ''reason_codes'' (read_list read_string);
     decided \<leftarrow> field obj ''decided_at_ms'' read_u64;
     expires \<leftarrow> field obj ''expires_at_ms'' read_u64;
     Some \<lparr>ad_version = version, ad_decision_id = decision_id, ad_proposal_hash = proposal_hash,
           ad_evidence_hashes = evidence, ad_outcome = outcome, ad_reason_codes = reasons,
           ad_decided_at_ms = decided, ad_expires_at_ms = expires\<rparr> }"

definition read_eg :: "jvalue \<Rightarrow> execution_grant option" where
  "read_eg v = do {
     obj \<leftarrow> strict_object [''version'', ''grant_id'', ''proposal_hash'', ''decision_hash'',
       ''audience'', ''not_before_ms'', ''expires_at_ms'', ''uses'', ''nonce''] v;
     version \<leftarrow> field obj ''version'' read_u64;
     grant_id \<leftarrow> field obj ''grant_id'' read_string;
     proposal_hash \<leftarrow> field obj ''proposal_hash'' read_digest;
     decision_hash \<leftarrow> field obj ''decision_hash'' read_digest;
     audience \<leftarrow> field obj ''audience'' read_string;
     not_before \<leftarrow> field obj ''not_before_ms'' read_u64;
     expires \<leftarrow> field obj ''expires_at_ms'' read_u64;
     uses \<leftarrow> field obj ''uses'' read_u64;
     nonce \<leftarrow> field obj ''nonce'' read_string;
     Some \<lparr>eg_version = version, eg_grant_id = grant_id, eg_proposal_hash = proposal_hash,
           eg_decision_hash = decision_hash, eg_audience = audience, eg_not_before_ms = not_before,
           eg_expires_at_ms = expires, eg_uses = uses, eg_nonce = nonce\<rparr> }"

definition read_er :: "jvalue \<Rightarrow> effect_receipt option" where
  "read_er v = do {
     obj \<leftarrow> strict_object [''version'', ''receipt_id'', ''proposal_hash'', ''grant_hash'',
       ''attempt_id'', ''claimed_at_ms'', ''dispatched_at_ms'', ''completed_at_ms'', ''outcome'',
       ''observation_digest''] v;
     version \<leftarrow> field obj ''version'' read_u64;
     receipt_id \<leftarrow> field obj ''receipt_id'' read_string;
     proposal_hash \<leftarrow> field obj ''proposal_hash'' read_digest;
     grant_hash \<leftarrow> field obj ''grant_hash'' read_digest;
     attempt_id \<leftarrow> field obj ''attempt_id'' read_string;
     claimed \<leftarrow> field obj ''claimed_at_ms'' read_u64;
     dispatched \<leftarrow> optional obj ''dispatched_at_ms'' read_u64;
     completed \<leftarrow> field obj ''completed_at_ms'' read_u64;
     outcome \<leftarrow> field obj ''outcome''
       (read_name receipt_outcome_name [NotDispatched, Succeeded, Failed, Unknown]);
     observation \<leftarrow> field obj ''observation_digest'' read_digest;
     Some \<lparr>er_version = version, er_receipt_id = receipt_id, er_proposal_hash = proposal_hash,
           er_grant_hash = grant_hash, er_attempt_id = attempt_id, er_claimed_at_ms = claimed,
           er_dispatched_at_ms = dispatched, er_completed_at_ms = completed, er_outcome = outcome,
           er_observation_digest = observation\<rparr> }"

definition read_rr :: "jvalue \<Rightarrow> reconciliation_record option" where
  "read_rr v = do {
     obj \<leftarrow> strict_object [''version'', ''reconciliation_id'', ''receipt_hash'', ''sequence'',
       ''parent_reconciliation_hash'', ''observed_at_ms'', ''outcome'', ''evidence_digest''] v;
     version \<leftarrow> field obj ''version'' read_u64;
     reconciliation_id \<leftarrow> field obj ''reconciliation_id'' read_string;
     receipt_hash \<leftarrow> field obj ''receipt_hash'' read_digest;
     sequence \<leftarrow> field obj ''sequence'' read_u64;
     parent \<leftarrow> optional obj ''parent_reconciliation_hash'' read_digest;
     observed \<leftarrow> field obj ''observed_at_ms'' read_u64;
     outcome \<leftarrow> field obj ''outcome'' (read_name reconciliation_outcome_name
       [EffectConfirmed, NoEffectConfirmed, PartialEffect, StillUnknown, Compensated]);
     evidence \<leftarrow> field obj ''evidence_digest'' read_digest;
     Some \<lparr>rr_version = version, rr_reconciliation_id = reconciliation_id,
           rr_receipt_hash = receipt_hash, rr_sequence = sequence,
           rr_parent_reconciliation_hash = parent, rr_observed_at_ms = observed,
           rr_outcome = outcome, rr_evidence_digest = evidence\<rparr> }"

section \<open>The reader reads back canonical values\<close>

text \<open>Every digest in a value of type \<open>Digest32\<close> that was parsed has the digest syntax.\<close>

definition digest_ok :: "digest32 \<Rightarrow> bool" where
  "digest_ok d \<longleftrightarrow> validate_digest_text (as_str d) = Inr ()"

definition tc_digests :: "task_commitment \<Rightarrow> bool" where
  "tc_digests c \<longleftrightarrow> digest_ok (tc_objective_digest c) \<and> digest_ok (tc_constraints_digest c)
     \<and> digest_ok (tc_authority_scope_digest c)"
definition ep_digests :: "effect_proposal \<Rightarrow> bool" where
  "ep_digests p \<longleftrightarrow> digest_ok (ep_commitment_hash p) \<and> digest_ok (ep_arguments_digest p)
     \<and> digest_ok (ep_expected_effect_digest p) \<and> digest_ok (ep_pre_state_digest p)
     \<and> digest_ok (ep_resource_claim_digest p)"
definition ad_digests :: "authorization_decision \<Rightarrow> bool" where
  "ad_digests d \<longleftrightarrow> digest_ok (ad_proposal_hash d) \<and> (\<forall>e \<in> set (ad_evidence_hashes d). digest_ok e)"
definition eg_digests :: "execution_grant \<Rightarrow> bool" where
  "eg_digests g \<longleftrightarrow> digest_ok (eg_proposal_hash g) \<and> digest_ok (eg_decision_hash g)"
definition er_digests :: "effect_receipt \<Rightarrow> bool" where
  "er_digests r \<longleftrightarrow> digest_ok (er_proposal_hash r) \<and> digest_ok (er_grant_hash r)
     \<and> digest_ok (er_observation_digest r)"
definition rr_digests :: "reconciliation_record \<Rightarrow> bool" where
  "rr_digests r \<longleftrightarrow> digest_ok (rr_receipt_hash r) \<and> digest_ok (rr_evidence_digest r)
     \<and> (\<forall>h. rr_parent_reconciliation_hash r = Some h \<longrightarrow> digest_ok h)"

lemmas digests_defs =
  tc_digests_def ep_digests_def ad_digests_def eg_digests_def er_digests_def rr_digests_def

definition norm_entries :: "(string \<times> jvalue) list \<Rightarrow> (string \<times> jvalue) list" where
  "norm_entries kvs = map (\<lambda>kv. (fst kv, norm (snd kv))) (sort_key fst kvs)"

lemma strict_norm:
  "distinct (map fst kvs) \<Longrightarrow> set (map fst kvs) \<subseteq> set names \<Longrightarrow>
   strict_object names (norm (JObject kvs)) = Some (norm_entries kvs)"
  by (auto simp: strict_object_def norm_entries_def comp_def distinct_map)

lemma map_of_norm_entries:
  assumes "distinct (map fst kvs)"
  shows "map_of (norm_entries kvs) k = map_option norm (map_of kvs k)"
proof -
  have "map_of (map (\<lambda>kv. (fst kv, norm (snd kv))) xs) k = map_option norm (map_of xs k)" for xs
    by (induction xs) auto
  then show ?thesis by (simp add: norm_entries_def map_of_sort_key [OF assms])
qed

lemma read_u64_jnum [simp]: "read_u64 (jnum n) = Some n"
  using unsigned_less [of n, where 'a = int] by (simp add: read_u64_def jnum_def)

lemma read_string_JString [simp]: "read_string (JString s) = Some s"
  by (simp add: read_string_def)

lemma read_digest_jdigest [simp]: "digest_ok d \<Longrightarrow> read_digest (jdigest d) = Some d"
  by (simp add: read_digest_def jdigest_def deserialize_digest_Some digest_ok_def)

lemma read_list_map:
  "(\<And>x. x \<in> set xs \<Longrightarrow> f (g x) = Some x) \<Longrightarrow> read_list f (JArray (map g xs)) = Some xs"
  by (induction xs) (auto simp: read_list_def)

lemma read_names [simp]:
  "read_name decision_outcome_name [Allow, Deny, Review] (JString (decision_outcome_name d)) = Some d"
  "read_name receipt_outcome_name [NotDispatched, Succeeded, Failed, Unknown]
     (JString (receipt_outcome_name r)) = Some r"
  "read_name reconciliation_outcome_name
     [EffectConfirmed, NoEffectConfirmed, PartialEffect, StillUnknown, Compensated]
     (JString (reconciliation_outcome_name c)) = Some c"
proof -
  show "read_name decision_outcome_name [Allow, Deny, Review]
      (JString (decision_outcome_name d)) = Some d"
    by (cases d) (simp_all add: read_name_def)
  show "read_name receipt_outcome_name [NotDispatched, Succeeded, Failed, Unknown]
      (JString (receipt_outcome_name r)) = Some r"
    by (cases r) (simp_all add: read_name_def)
  show "read_name reconciliation_outcome_name
      [EffectConfirmed, NoEffectConfirmed, PartialEffect, StillUnknown, Compensated]
      (JString (reconciliation_outcome_name c)) = Some c"
    by (cases c) (simp_all add: read_name_def)
qed

lemma jnum_not_null [simp]: "jnum n \<noteq> JNull" "jdigest d \<noteq> JNull"
  by (simp_all add: jnum_def jdigest_def)

lemmas read_simps = strict_norm map_of_norm_entries field_def optional_def read_list_map

lemma read_tc_value: "tc_digests c \<Longrightarrow> read_tc (norm (tc_value c)) = Some c"
  unfolding read_tc_def tc_value_def by (subst strict_norm) (simp_all add: read_simps tc_digests_def)

lemma read_ep_value: "ep_digests p \<Longrightarrow> read_ep (norm (ep_value p)) = Some p"
  unfolding read_ep_def ep_value_def by (subst strict_norm) (simp_all add: read_simps ep_digests_def)

lemma read_ad_value: "ad_digests d \<Longrightarrow> read_ad (norm (ad_value d)) = Some d"
  unfolding read_ad_def ad_value_def
  by (subst strict_norm) (simp_all add: read_simps ad_digests_def comp_def)

lemma read_eg_value: "eg_digests g \<Longrightarrow> read_eg (norm (eg_value g)) = Some g"
  unfolding read_eg_def eg_value_def by (subst strict_norm) (simp_all add: read_simps eg_digests_def)

lemma read_er_value: "er_digests r \<Longrightarrow> read_er (norm (er_value r)) = Some r"
  unfolding read_er_def er_value_def
  by (subst strict_norm; cases "er_dispatched_at_ms r") (simp_all add: read_simps er_digests_def)

lemma read_rr_value: "rr_digests r \<Longrightarrow> read_rr (norm (rr_value r)) = Some r"
  unfolding read_rr_def rr_value_def
  by (subst strict_norm; cases "rr_parent_reconciliation_hash r")
     (simp_all add: read_simps rr_digests_def)

section \<open>The assumption about the typed deserializers\<close>

text \<open>
  The deserializer of each record type reads the canonical text of a record of that type
  back, when the digests in the record have the digest syntax.
\<close>

definition reads_records :: "lib \<Rightarrow> bool" where
  "reads_records L \<longleftrightarrow>
     (\<forall>r s. tc_digests r \<longrightarrow> canonical_json L (tc_value r) = Inr s \<longrightarrow> from_json_tc L s = Some r)
     \<and> (\<forall>r s. ep_digests r \<longrightarrow> canonical_json L (ep_value r) = Inr s \<longrightarrow> from_json_ep L s = Some r)
     \<and> (\<forall>r s. ad_digests r \<longrightarrow> canonical_json L (ad_value r) = Inr s \<longrightarrow> from_json_ad L s = Some r)
     \<and> (\<forall>r s. eg_digests r \<longrightarrow> canonical_json L (eg_value r) = Inr s \<longrightarrow> from_json_eg L s = Some r)
     \<and> (\<forall>r s. er_digests r \<longrightarrow> canonical_json L (er_value r) = Inr s \<longrightarrow> from_json_er L s = Some r)
     \<and> (\<forall>r s. rr_digests r \<longrightarrow> canonical_json L (rr_value r) = Inr s \<longrightarrow> from_json_rr L s = Some r)"

text \<open>A library that meets it: the reader of section 4 behind the untyped reader.\<close>

definition conforming_reader :: "(jvalue \<Rightarrow> 'r option) \<Rightarrow> string \<Rightarrow> 'r option" where
  "conforming_reader read s = Option.bind (read_json s) read"

definition with_conforming_readers :: "lib \<Rightarrow> lib" where
  "with_conforming_readers L = L\<lparr>
     from_json_tc := conforming_reader read_tc, from_json_ep := conforming_reader read_ep,
     from_json_ad := conforming_reader read_ad, from_json_eg := conforming_reader read_eg,
     from_json_er := conforming_reader read_er, from_json_rr := conforming_reader read_rr\<rparr>"

lemma conforming_reader_canonical:
  assumes "quote_conforms L" and "canonical_json L v = Inr s"
  shows "conforming_reader read s = read (norm v)"
  using read_json_encode [OF assms(1)] assms(2)
  by (auto simp: canonical_json_def conforming_reader_def rbind_ok)

lemma reads_records_met:
  assumes "quote_conforms L"
  shows "reads_records (with_conforming_readers L)"
proof -
  let ?L = "with_conforming_readers L"
  have q: "quote_conforms ?L"
    using assms by (simp add: quote_conforms_def with_conforming_readers_def)
  have from_json:
    "from_json_tc ?L = conforming_reader read_tc" "from_json_ep ?L = conforming_reader read_ep"
    "from_json_ad ?L = conforming_reader read_ad" "from_json_eg ?L = conforming_reader read_eg"
    "from_json_er ?L = conforming_reader read_er" "from_json_rr ?L = conforming_reader read_rr"
    by (simp_all add: with_conforming_readers_def)
  show ?thesis
    unfolding reads_records_def from_json
    by (simp add: conforming_reader_canonical [OF q] read_tc_value read_ep_value read_ad_value
        read_eg_value read_er_value read_rr_value)
qed

end
