(* ===== verification/Parsing.thy ===== *)
theory Parsing
  imports Typed_Reader Chain
begin

text \<open>
  The entry points for untrusted bytes, \<open>parse_record\<close> and \<open>parse_transaction_bundle\<close> of
  crates/effect-transaction-core/src/lib.rs. A call of a typed deserializer followed by
  \<open>end\<close> is the library function \<open>from_json_*\<close>, which is \<open>None\<close> when either fails.

  The lemmas bound the length of canonical text, so that a valid record always fits the
  transport limit, and show that parsing inverts canonical encoding.
\<close>

section \<open>Entry points\<close>

definition parse_record ::
    "lib \<Rightarrow> (string \<Rightarrow> 'r option) \<Rightarrow> ('r \<Rightarrow> protocol_error + unit) \<Rightarrow> ('r \<Rightarrow> jvalue) \<Rightarrow> string
     \<Rightarrow> protocol_error + 'r" where
  "parse_record L from_json validate to_value input =
     rbind (ensure (\<not> length input > MAX_TRANSPORT_INPUT_BYTES) (ResourceLimit ''transport bytes'')) (\<lambda>_.
     rbind (ok_or (from_json input) Json) (\<lambda>record.
     rbind (validate record) (\<lambda>_.
     rbind (canonical_json L (to_value record)) (\<lambda>_.
     Inr record))))"

definition parse_tc :: "lib \<Rightarrow> string \<Rightarrow> protocol_error + task_commitment" where
  "parse_tc L = parse_record L (from_json_tc L) tc_validate tc_value"
definition parse_ep :: "lib \<Rightarrow> string \<Rightarrow> protocol_error + effect_proposal" where
  "parse_ep L = parse_record L (from_json_ep L) ep_validate ep_value"
definition parse_ad :: "lib \<Rightarrow> string \<Rightarrow> protocol_error + authorization_decision" where
  "parse_ad L = parse_record L (from_json_ad L) ad_validate ad_value"
definition parse_eg :: "lib \<Rightarrow> string \<Rightarrow> protocol_error + execution_grant" where
  "parse_eg L = parse_record L (from_json_eg L) eg_validate eg_value"
definition parse_er :: "lib \<Rightarrow> string \<Rightarrow> protocol_error + effect_receipt" where
  "parse_er L = parse_record L (from_json_er L) er_validate er_value"
definition parse_rr :: "lib \<Rightarrow> string \<Rightarrow> protocol_error + reconciliation_record" where
  "parse_rr L = parse_record L (from_json_rr L) rr_validate rr_value"

lemmas parse_defs = parse_tc_def parse_ep_def parse_ad_def parse_eg_def parse_er_def parse_rr_def

definition parse_transaction_bundle ::
    "lib \<Rightarrow> string \<Rightarrow> protocol_error + transaction_bundle" where
  "parse_transaction_bundle L input =
     rbind (ensure (\<not> length input > MAX_TRANSPORT_INPUT_BYTES) (ResourceLimit ''transport bytes'')) (\<lambda>_.
     rbind (ok_or (from_json_tb L input) Json) (\<lambda>bundle.
     rbind (verify_transaction L bundle) (\<lambda>_.
     Inr bundle)))"

lemma parse_record_ok:
  "parse_record L from_json validate to_value input = Inr r \<longleftrightarrow>
     length input \<le> MAX_TRANSPORT_INPUT_BYTES \<and> from_json input = Some r \<and> validate r = Inr ()
     \<and> (\<exists>s. canonical_json L (to_value r) = Inr s)"
  by (auto simp: parse_record_def ok_iff)

lemma parse_transaction_bundle_ok:
  "parse_transaction_bundle L input = Inr b \<longleftrightarrow>
     length input \<le> MAX_TRANSPORT_INPUT_BYTES \<and> from_json_tb L input = Some b \<and> lifecycle_ok L b"
  by (auto simp: parse_transaction_bundle_def ok_iff verify_transaction_ok_iff [symmetric])

section \<open>Length of canonical text\<close>

text \<open>An upper bound: an escape takes up to six bytes, a safe integer up to seventeen.\<close>

function text_bound :: "jvalue \<Rightarrow> nat" where
  "text_bound v =
     (case v of
        JString s \<Rightarrow> 6 * length s + 2
      | JArray vs \<Rightarrow> 2 + sum_list (map (\<lambda>c. text_bound c + 1) vs)
      | JObject kvs \<Rightarrow> 2 + sum_list (map (\<lambda>kv. text_bound (snd kv) + 6 * length (fst kv) + 4) kvs)
      | _ \<Rightarrow> 17)"
  by pat_completeness auto
termination
proof (relation "measure size")
  fix v vs c
  assume "v = JArray vs" "c \<in> set vs"
  then show "(c, v) \<in> measure size" using children_size [of c v] by simp
next
  fix v kvs kv
  assume "v = JObject kvs" "kv \<in> set kvs"
  then show "(snd kv, v) \<in> measure size" using children_size [of "snd kv" v] by simp
qed simp

declare text_bound.simps [simp del]

lemma text_bound_simps [simp]:
  "text_bound JNull = 17" "text_bound (JBool b) = 17" "text_bound (JNumber n) = 17"
  "text_bound (JString s) = 6 * length s + 2"
  "text_bound (JArray vs) = 2 + sum_list (map (\<lambda>c. text_bound c + 1) vs)"
  "text_bound (JObject kvs) =
     2 + sum_list (map (\<lambda>kv. text_bound (snd kv) + 6 * length (fst kv) + 4) kvs)"
  by (subst text_bound.simps; simp)+

lemma decimal_length: "0 < k \<Longrightarrow> n < 10 ^ k \<Longrightarrow> length (decimal n) \<le> k"
proof (induction n arbitrary: k rule: decimal.induct)
  case (1 n)
  show ?case
  proof (cases "n < 10")
    case True
    with 1 show ?thesis by (subst decimal.simps) simp
  next
    case False
    from "1.prems" obtain j where k: "k = Suc j" by (cases k) auto
    with False "1.prems" have j: "k = Suc j" "0 < j" by (cases j; simp)+
    then have "n div 10 < 10 ^ j" using "1.prems"(2) by (simp add: less_mult_imp_div_less mult.commute)
    from "1.IH" [OF False j(2) this] False j show ?thesis by (subst decimal.simps) simp
  qed
qed

lemma int_to_string_length: "\<bar>i\<bar> \<le> MAX_SAFE \<Longrightarrow> length (int_to_string i) \<le> 17"
  using decimal_length [of 16 "nat i"] decimal_length [of 16 "nat (- i)"]
  by (auto simp: int_to_string_def MAX_SAFE_val nat_less_iff)

lemma escape_length: "length (escape c) \<le> 6"
  by (simp add: escape_def)

lemma spec_quote_length: "length (spec_quote s) \<le> 6 * length s + 2"
proof -
  have "length (concat (map escape s)) \<le> 6 * length s"
    by (induction s) (use escape_length in \<open>auto intro: add_mono\<close>)
  then show ?thesis by (simp add: spec_quote_def)
qed

lemma join_comma_length: "length (join_comma ps) \<le> sum_list (map (\<lambda>p. length p + 1) ps)"
  by (induction ps rule: join_comma.induct) auto

lemma sum_list_all2: "list_all2 (\<lambda>x y. g y \<le> f x) xs ys \<Longrightarrow>
  sum_list (map g ys) \<le> (sum_list (map f xs) :: nat)"
  by (induction rule: list_all2_induct) auto

lemma sum_list_sort_key: "sum_list (map f (sort_key k xs)) = (sum_list (map f xs) :: nat)"
  by (metis mset_map mset_sort sum_mset_sum_list)

lemma encode_text_bound:
  assumes q: "quote_conforms L"
  shows "encode_canonical_value L v = Inr p \<Longrightarrow> length p \<le> text_bound v"
proof (induction v arbitrary: p rule: jvalue_induct_children)
  case (step v)
  show ?case
  proof (cases v)
    case (JNumber n)
    with step.prems int_to_string_length show ?thesis by (auto simp: encode_simps ok_iff)
  next
    case (JString s)
    with step.prems q show ?thesis
      using spec_quote_length by (auto simp: encode_simps ok_iff quote_conforms_def)
  next
    case (JArray vs)
    with step.prems obtain ps where ps: "traverse (encode_canonical_value L) vs = Inr ps"
      and p: "p = CHR ''['' # join_comma ps @ '']''" by (auto simp: encode_simps ok_iff)
    have "list_all2 (\<lambda>c t. length t + 1 \<le> text_bound c + 1) vs ps"
      using ps step.IH JArray by (auto simp: traverse_ok elim!: list.rel_mono_strong)
    from sum_list_all2 [OF this] join_comma_length [of ps] show ?thesis by (simp add: p JArray)
  next
    case (JObject kvs)
    then obtain ps where ps: "traverse (encode_entry L) (sort_key fst kvs) = Inr ps"
      and p: "p = CHR ''{'' # join_comma ps @ ''}''"
      using step.prems by (auto simp: encode_object ok_iff)
    have entry: "length t + 1 \<le> text_bound (snd kv) + 6 * length (fst kv) + 4"
      if "kv \<in> set kvs" "encode_entry L kv = Inr t" for kv t
      using that step.IH [of "snd kv"] spec_quote_length [of "fst kv"] JObject q
      by (fastforce simp: encode_entry_def ok_iff quote_conforms_def)
    have "list_all2 (\<lambda>kv t. length t + 1 \<le> text_bound (snd kv) + 6 * length (fst kv) + 4)
        (sort_key fst kvs) ps"
      using ps entry by (auto simp: traverse_ok elim!: list.rel_mono_strong)
    from sum_list_all2 [OF this] join_comma_length [of ps] show ?thesis
      by (simp add: p JObject sum_list_sort_key)
  qed (use step.prems in \<open>auto simp: encode_simps\<close>)
qed

section \<open>Valid records fit the transport limit\<close>

lemma trimmed_text_length: "validate_trimmed_text f v n = Inr u \<Longrightarrow> length v \<le> n"
  by (auto simp: validate_trimmed_text_def validate_nonempty_text_def rbind_ok split: if_splits)

lemma identifier_length: "validate_identifier f v = Inr u \<Longrightarrow> length v \<le> 256"
  by (simp add: validate_identifier_def trimmed_text_length)

lemma token_length: "validate_token f v = Inr u \<Longrightarrow> length v \<le> 256"
  by (auto simp: validate_token_def rbind_ok dest: trimmed_text_length)

lemma nonce_length: "validate_nonce v = Inr u \<Longrightarrow> length v \<le> 128"
  by (auto simp: validate_nonce_def split: if_splits)

lemma digest_length: "digest_ok d \<Longrightarrow> length (as_str d) = 71"
  by (auto simp: digest_ok_def validate_digest_text_def strip_prefix_def DIGEST_PREFIX_def
      split: if_splits)

lemma jnum_bound [simp]: "text_bound (jnum n) = 17"
  by (simp add: jnum_def)

lemma jdigest_bound [simp]: "digest_ok d \<Longrightarrow> text_bound (jdigest d) = 428"
  by (simp add: jdigest_def digest_length)

lemma jopt_bound:
  "text_bound (jopt jnum n) = 17"
  "\<forall>h. d = Some h \<longrightarrow> digest_ok h \<Longrightarrow> text_bound (jopt jdigest d) \<le> 428"
  by (simp add: jopt_def split: option.split) (cases d; simp)

lemma name_lengths:
  "length (decision_outcome_name a) \<le> 6"
  "length (receipt_outcome_name b) \<le> 14"
  "length (reconciliation_outcome_name c) \<le> 19"
proof -
  show "length (decision_outcome_name a) \<le> 6" by (cases a) simp_all
  show "length (receipt_outcome_name b) \<le> 14" by (cases b) simp_all
  show "length (reconciliation_outcome_name c) \<le> 19" by (cases c) simp_all
qed

lemma sum_list_bound:
  "(\<And>x. x \<in> set xs \<Longrightarrow> f x \<le> n) \<Longrightarrow> length xs \<le> k \<Longrightarrow> sum_list (map f xs) \<le> k * (n :: nat)"
  using sum_list_mono [of xs f "\<lambda>_. n"] by (simp add: sum_list_triv) (meson le_trans mult_le_mono1)

lemmas text_lengths = identifier_length trimmed_text_length token_length nonce_length

lemma tc_fits: "tc_validate c = Inr () \<Longrightarrow> tc_digests c \<Longrightarrow>
  text_bound (tc_value c) \<le> MAX_TRANSPORT_INPUT_BYTES"
  by (auto simp: tc_validate_def tc_value_def tc_digests_def rbind_ok MAX_TRANSPORT_INPUT_BYTES_def
      dest!: text_lengths)

lemma ep_fits: "ep_validate p = Inr () \<Longrightarrow> ep_digests p \<Longrightarrow>
  text_bound (ep_value p) \<le> MAX_TRANSPORT_INPUT_BYTES"
  by (auto simp: ep_validate_def ep_value_def ep_digests_def rbind_ok MAX_TRANSPORT_INPUT_BYTES_def
      dest!: text_lengths)

lemma ad_fits:
  assumes "ad_validate d = Inr ()" and "ad_digests d"
  shows "text_bound (ad_value d) \<le> MAX_TRANSPORT_INPUT_BYTES"
proof -
  from assms have e: "length (ad_evidence_hashes d) \<le> 256" "\<forall>h \<in> set (ad_evidence_hashes d). digest_ok h"
    and r: "length (ad_reason_codes d) \<le> 64" "\<forall>t \<in> set (ad_reason_codes d). length t \<le> 256"
    and i: "length (ad_decision_id d) \<le> 256" and p: "digest_ok (ad_proposal_hash d)"
    by (auto simp: ad_validate_def ad_digests_def ok_iff dest: text_lengths)
  have "sum_list (map (\<lambda>h. text_bound (jdigest h) + 1) (ad_evidence_hashes d)) \<le> 256 * 429"
    using e by (intro sum_list_bound) auto
  moreover have "sum_list (map (\<lambda>t. text_bound (JString t) + 1) (ad_reason_codes d)) \<le> 64 * 1539"
    using r by (intro sum_list_bound) auto
  ultimately show ?thesis
    using i p name_lengths(1) [of "ad_outcome d"]
    by (simp add: ad_value_def MAX_TRANSPORT_INPUT_BYTES_def comp_def)
qed

lemma eg_fits: "eg_validate g = Inr () \<Longrightarrow> eg_digests g \<Longrightarrow>
  text_bound (eg_value g) \<le> MAX_TRANSPORT_INPUT_BYTES"
  by (auto simp: eg_validate_def eg_value_def eg_digests_def rbind_ok MAX_TRANSPORT_INPUT_BYTES_def
      dest!: text_lengths)

lemma er_fits: "er_validate r = Inr () \<Longrightarrow> er_digests r \<Longrightarrow>
  text_bound (er_value r) \<le> MAX_TRANSPORT_INPUT_BYTES"
  using name_lengths(2) [of "er_outcome r"]
  by (auto simp: er_validate_ok er_value_def er_digests_def MAX_TRANSPORT_INPUT_BYTES_def jopt_bound
      dest!: text_lengths)

lemma rr_fits: "rr_validate r = Inr () \<Longrightarrow> rr_digests r \<Longrightarrow>
  text_bound (rr_value r) \<le> MAX_TRANSPORT_INPUT_BYTES"
  using name_lengths(3) [of "rr_outcome r"] jopt_bound(2) [of "rr_parent_reconciliation_hash r"]
  by (auto simp: rr_validate_ok rr_value_def rr_digests_def MAX_TRANSPORT_INPUT_BYTES_def
      dest!: text_lengths)

text \<open>Parsing inverts canonical encoding.\<close>

lemma parse_record_canonical:
  assumes "quote_conforms L" and "canonical_json L (to_value r) = Inr s"
    and "from_json s = Some r" and "validate r = Inr ()"
    and "text_bound (to_value r) \<le> MAX_TRANSPORT_INPUT_BYTES"
  shows "parse_record L from_json validate to_value s = Inr r"
  using assms encode_text_bound [OF assms(1), of "to_value r" s]
  by (auto simp: parse_record_ok canonical_json_def rbind_ok)

lemma parse_canonical:
  assumes "quote_conforms L" and "reads_records L"
  shows "tc_validate c = Inr () \<Longrightarrow> tc_digests c \<Longrightarrow> canonical_json L (tc_value c) = Inr s
    \<Longrightarrow> parse_tc L s = Inr c"
    and "ep_validate p = Inr () \<Longrightarrow> ep_digests p \<Longrightarrow> canonical_json L (ep_value p) = Inr s
    \<Longrightarrow> parse_ep L s = Inr p"
    and "ad_validate d = Inr () \<Longrightarrow> ad_digests d \<Longrightarrow> canonical_json L (ad_value d) = Inr s
    \<Longrightarrow> parse_ad L s = Inr d"
    and "eg_validate g = Inr () \<Longrightarrow> eg_digests g \<Longrightarrow> canonical_json L (eg_value g) = Inr s
    \<Longrightarrow> parse_eg L s = Inr g"
    and "er_validate r = Inr () \<Longrightarrow> er_digests r \<Longrightarrow> canonical_json L (er_value r) = Inr s
    \<Longrightarrow> parse_er L s = Inr r"
    and "rr_validate x = Inr () \<Longrightarrow> rr_digests x \<Longrightarrow> canonical_json L (rr_value x) = Inr s
    \<Longrightarrow> parse_rr L s = Inr x"
  using assms unfolding parse_defs reads_records_def
  by (auto intro!: parse_record_canonical tc_fits ep_fits ad_fits eg_fits er_fits rr_fits)

end
