(* ===== verification/Fixtures.thy ===== *)
theory Fixtures
  imports Parsing
begin

text \<open>
  Concrete inputs for the properties: a library that meets every assumption made about the
  external crates, and the records of the crate's own test fixture (function \<open>fixture\<close> in
  the tests of crates/effect-transaction-core/src/lib.rs), continued by two reconciliation
  records. The hash of the library is a small checksum with 32 output bytes of which one is
  not zero; no property depends on which function it is.
\<close>

section \<open>A library\<close>

definition ref_sha :: "string \<Rightarrow> u8 list" where
  "ref_sha s = map (\<lambda>i. of_nat (foldl (\<lambda>h c. (h * 31 + of_char c) mod 251) (i + 1) s)) [0..<31] @ [1]"

definition base_lib :: lib where
  "base_lib = \<lparr>sha256 = ref_sha, json_quote = Some \<circ> spec_quote,
     from_json_tc = Map.empty, from_json_ep = Map.empty, from_json_ad = Map.empty,
     from_json_eg = Map.empty, from_json_er = Map.empty, from_json_rr = Map.empty,
     from_json_tb = Map.empty\<rparr>"

definition ref_lib :: lib where
  "ref_lib = with_conforming_readers base_lib"

lemma ref_lib_quote: "quote_conforms ref_lib"
  by (simp add: quote_conforms_def ref_lib_def with_conforming_readers_def base_lib_def)

lemma ref_lib_quotes: "quotes ref_lib"
  by (rule quote_conforms_quotes [OF ref_lib_quote])

lemma ref_lib_reads: "reads_records ref_lib"
  unfolding ref_lib_def
  by (rule reads_records_met) (simp add: quote_conforms_def base_lib_def)

text \<open>Hashes of 32 bytes that are not all zero have the digest syntax.\<close>

definition nonzero_hash :: "lib \<Rightarrow> bool" where
  "nonzero_hash L \<longleftrightarrow> (\<forall>s. length (sha256 L s) = 32 \<and> (\<exists>b \<in> set (sha256 L s). b \<noteq> 0))"

lemma ref_lib_hash: "nonzero_hash ref_lib"
  by (simp add: nonzero_hash_def ref_lib_def with_conforming_readers_def base_lib_def ref_sha_def)

lemma format_digest_ok:
  "nonzero_hash L \<Longrightarrow> digest_ok (Digest32 (format_digest (sha256 L s)))"
  by (simp add: digest_ok_def nonzero_hash_def format_digest_valid)

lemma payload_digest_ok: "nonzero_hash L \<Longrightarrow> digest_ok (from_payload L s)"
  by (simp add: from_payload_def format_digest_ok)

lemma commitment_digest_ok:
  "nonzero_hash L \<Longrightarrow> trait_commitment L d validate to_value r = Inr h \<Longrightarrow> digest_ok h"
  by (auto simp: trait_commitment_def hash_record_def rbind_ok format_digest_ok)

section \<open>Records\<close>

definition fx_digest :: "string \<Rightarrow> digest32" where
  "fx_digest = from_payload ref_lib"

definition hash_of :: "protocol_error + digest32 \<Rightarrow> digest32" where
  "hash_of r = (case r of Inl e \<Rightarrow> Digest32 [] | Inr h \<Rightarrow> h)"

definition fx_tc :: task_commitment where
  "fx_tc = \<lparr>tc_version = 1, tc_commitment_id = ''task-1'', tc_principal = ''user:alice'',
     tc_objective_digest = fx_digest ''objective'', tc_constraints_digest = fx_digest ''constraints'',
     tc_authority_scope_digest = fx_digest ''authority'', tc_policy_epoch = 7,
     tc_configuration_epoch = 3, tc_created_at_ms = 1000, tc_expires_at_ms = 20000\<rparr>"

definition tc_hash :: digest32 where "tc_hash = hash_of (tc_commitment ref_lib fx_tc)"

definition fx_ep :: effect_proposal where
  "fx_ep = \<lparr>ep_version = 1, ep_proposal_id = ''proposal-1'', ep_commitment_hash = tc_hash,
     ep_effect_profile = ''mcp/tool-call@1'', ep_operation = ''filesystem.write'',
     ep_target = ''workspace:/report.md'', ep_arguments_digest = fx_digest ''arguments'',
     ep_expected_effect_digest = fx_digest ''expected effect'',
     ep_pre_state_digest = fx_digest ''pre-state'',
     ep_resource_claim_digest = fx_digest ''resources'',
     ep_created_at_ms = 2000, ep_expires_at_ms = 15000\<rparr>"

definition ep_hash :: digest32 where "ep_hash = hash_of (ep_commitment ref_lib fx_ep)"

definition fx_ad :: authorization_decision where
  "fx_ad = \<lparr>ad_version = 1, ad_decision_id = ''decision-1'', ad_proposal_hash = ep_hash,
     ad_evidence_hashes = [fx_digest ''evidence''], ad_outcome = Allow,
     ad_reason_codes = [''policy_allow''], ad_decided_at_ms = 3000, ad_expires_at_ms = 10000\<rparr>"

definition ad_hash :: digest32 where "ad_hash = hash_of (ad_commitment ref_lib fx_ad)"

definition fx_eg :: execution_grant where
  "fx_eg = \<lparr>eg_version = 1, eg_grant_id = ''grant-1'', eg_proposal_hash = ep_hash,
     eg_decision_hash = ad_hash, eg_audience = ''executor:local'', eg_not_before_ms = 3000,
     eg_expires_at_ms = 9000, eg_uses = 1, eg_nonce = ''bm9uY2UtZm9yLWdyYW50LTE''\<rparr>"

definition eg_hash :: digest32 where "eg_hash = hash_of (eg_commitment ref_lib fx_eg)"

definition fx_er :: effect_receipt where
  "fx_er = \<lparr>er_version = 1, er_receipt_id = ''receipt-1'', er_proposal_hash = ep_hash,
     er_grant_hash = eg_hash, er_attempt_id = ''attempt-1'', er_claimed_at_ms = 4000,
     er_dispatched_at_ms = Some 4100, er_completed_at_ms = 4200, er_outcome = Unknown,
     er_observation_digest = fx_digest ''timeout after dispatch''\<rparr>"

definition er_hash :: digest32 where "er_hash = hash_of (er_commitment ref_lib fx_er)"

definition fx_rr1 :: reconciliation_record where
  "fx_rr1 = \<lparr>rr_version = 1, rr_reconciliation_id = ''reconciliation-1'',
     rr_receipt_hash = er_hash, rr_sequence = 1, rr_parent_reconciliation_hash = None,
     rr_observed_at_ms = 5000, rr_outcome = StillUnknown,
     rr_evidence_digest = fx_digest ''first query''\<rparr>"

definition rr1_hash :: digest32 where "rr1_hash = hash_of (rr_commitment ref_lib fx_rr1)"

definition fx_rr2 :: reconciliation_record where
  "fx_rr2 = \<lparr>rr_version = 1, rr_reconciliation_id = ''reconciliation-2'',
     rr_receipt_hash = er_hash, rr_sequence = 2, rr_parent_reconciliation_hash = Some rr1_hash,
     rr_observed_at_ms = 6000, rr_outcome = EffectConfirmed,
     rr_evidence_digest = fx_digest ''ledger query''\<rparr>"

definition rr2_hash :: digest32 where "rr2_hash = hash_of (rr_commitment ref_lib fx_rr2)"

lemmas fx_defs = fx_tc_def fx_ep_def fx_ad_def fx_eg_def fx_er_def fx_rr1_def fx_rr2_def
lemmas hash_defs = tc_hash_def ep_hash_def ad_hash_def eg_hash_def er_hash_def rr1_hash_def rr2_hash_def

section \<open>Validity\<close>

lemmas text_eval =
  validate_identifier_def validate_trimmed_text_def validate_nonempty_text_def validate_token_def
  validate_nonce_def is_control_def is_whitespace_def is_trimmed_def trim_chars_def token_shape_def
  token_byte_def is_lower_def is_upper_def is_digit_def
  validate_safe_integer_def validate_window_def MAX_SAFE_INTEGER_def MAX_GRANT_LIFETIME_MS_def
  validate_version_def PROFILE_VERSION_def

lemma fx_tc_valid: "tc_validate fx_tc = Inr ()"
  by (simp add: tc_validate_def fx_tc_def text_eval)

lemma fx_ep_valid: "ep_validate fx_ep = Inr ()"
  by (simp add: ep_validate_def fx_ep_def text_eval)

lemma fx_ad_valid: "ad_validate fx_ad = Inr ()"
  by (simp add: ad_validate_def fx_ad_def validate_sorted_unique_digests_def
      validate_sorted_unique_tokens_def text_eval)

lemma fx_eg_valid: "eg_validate fx_eg = Inr ()"
  by (simp add: eg_validate_def fx_eg_def text_eval)

lemma fx_er_valid: "er_validate fx_er = Inr ()"
  by (simp add: er_validate_def fx_er_def text_eval)

lemma fx_rr1_valid: "rr_validate fx_rr1 = Inr ()"
  by (simp add: rr_validate_def fx_rr1_def text_eval)

lemma fx_rr2_valid: "rr_validate fx_rr2 = Inr ()"
  by (simp add: rr_validate_def fx_rr2_def text_eval)

lemmas fx_valid = fx_tc_valid fx_ep_valid fx_ad_valid fx_eg_valid fx_er_valid fx_rr1_valid fx_rr2_valid

lemma hash_of_ok: "\<exists>h. r = Inr h \<Longrightarrow> r = Inr (hash_of r)"
  by (auto simp: hash_of_def)

lemma fx_commitments:
  "tc_commitment ref_lib fx_tc = Inr tc_hash" "ep_commitment ref_lib fx_ep = Inr ep_hash"
  "ad_commitment ref_lib fx_ad = Inr ad_hash" "eg_commitment ref_lib fx_eg = Inr eg_hash"
  "er_commitment ref_lib fx_er = Inr er_hash" "rr_commitment ref_lib fx_rr1 = Inr rr1_hash"
  "rr_commitment ref_lib fx_rr2 = Inr rr2_hash"
  unfolding hash_defs commitment_defs
  by (rule hash_of_ok,
      simp add: tc.commitment_ok_iff ep.commitment_ok_iff ad.commitment_ok_iff eg.commitment_ok_iff
        er.commitment_ok_iff rr.commitment_ok_iff ref_lib_quotes fx_valid)+

lemma fx_digests:
  "tc_digests fx_tc" "ep_digests fx_ep" "ad_digests fx_ad" "eg_digests fx_eg" "er_digests fx_er"
  "rr_digests fx_rr1" "rr_digests fx_rr2"
proof -
  have "digest_ok (fx_digest s)" for s by (simp add: fx_digest_def payload_digest_ok ref_lib_hash)
  moreover have "digest_ok tc_hash" "digest_ok ep_hash" "digest_ok ad_hash" "digest_ok eg_hash"
      "digest_ok er_hash" "digest_ok rr1_hash"
    using fx_commitments unfolding commitment_defs
    by (blast intro: commitment_digest_ok [OF ref_lib_hash])+
  ultimately show "tc_digests fx_tc" "ep_digests fx_ep" "ad_digests fx_ad" "eg_digests fx_eg"
      "er_digests fx_er" "rr_digests fx_rr1" "rr_digests fx_rr2"
    by (simp_all add: digests_defs fx_defs)
qed

section \<open>The chain\<close>

definition fx_authorization :: verified_authorization where
  "fx_authorization = \<lparr>va_commitment_hash = tc_hash, va_proposal_hash = ep_hash,
     va_decision_hash = ad_hash, va_grant_hash = eg_hash\<rparr>"

lemma fx_verify_authorization:
  "verify_authorization ref_lib fx_tc fx_ep fx_ad fx_eg = Inr fx_authorization"
  by (simp add: verify_authorization_ok verify_decision_ok fx_commitments fx_authorization_def)
     (simp add: fx_defs)

lemma fx_verify_grant: "verify_grant ref_lib fx_tc fx_ep fx_ad fx_eg = Inr eg_hash"
  by (simp add: verify_grant_def fx_verify_authorization fx_authorization_def)

definition fx_chain :: verified_chain where
  "fx_chain = \<lparr>vc_commitment_hash = tc_hash, vc_proposal_hash = ep_hash, vc_decision_hash = ad_hash,
     vc_grant_hash = eg_hash, vc_receipt_hash = er_hash\<rparr>"

lemma fx_verify_chain: "verify_chain ref_lib fx_tc fx_ep fx_ad fx_eg fx_er = Inr fx_chain"
  using fx_verify_authorization
  by (simp add: verify_chain_def fx_chain_def fx_authorization_def fx_commitments)
     (simp add: fx_er_def fx_eg_def fx_commitments [unfolded fx_er_def])

lemma fx_verify_reconciliation:
  "verify_reconciliation ref_lib fx_er None fx_rr1 = Inr rr1_hash"
  "verify_reconciliation ref_lib fx_er (Some fx_rr1) fx_rr2 = Inr rr2_hash"
  by (simp_all add: verify_reconciliation_ok evidence_for_def follows_def fx_commitments)
     (simp_all add: fx_rr1_def fx_rr2_def fx_er_def terminal_outcome_def saturating_add1_def)

lemma fx_history: "history_ok ref_lib fx_er [fx_rr1, fx_rr2]"
proof -
  have "rr_reconciliation_id fx_rr2 \<noteq> rr_reconciliation_id fx_rr1"
    by (simp add: fx_rr1_def fx_rr2_def)
  then show ?thesis
    using fx_verify_reconciliation history_ok_snoc [of ref_lib fx_er "[]" fx_rr1]
      history_ok_snoc [of ref_lib fx_er "[fx_rr1]" fx_rr2]
    by (simp add: last_record_def)
qed

definition fx_bundle :: transaction_bundle where
  "fx_bundle = \<lparr>tb_commitment = fx_tc, tb_proposal = fx_ep, tb_decision = fx_ad,
     tb_grant = Some fx_eg, tb_receipt = Some fx_er, tb_reconciliations = [fx_rr1, fx_rr2]\<rparr>"

lemma fx_lifecycle: "lifecycle_ok ref_lib fx_bundle"
  using fx_verify_authorization fx_verify_chain fx_history
  by (auto simp: lifecycle_ok_def fx_bundle_def MAX_RECONCILIATION_RECORDS_def verify_authorization_ok)

end
