(* ===== verification/Fixture_Twins.thy ===== *)
theory Fixture_Twins
  imports Fixtures Lifecycle_Spec
begin

text \<open>
  Colliding records. The checksum that stands for SHA-256 in the concrete inputs has collisions
  that can be written down: exchanging two neighbouring characters for two others of the same
  weight keeps it. So the test fixture has a twin: a different task with the same commitment,
  under which the same proposal, decision, grant and receipt verify, and a different first
  reconciliation record with the same commitment, after which the same second record follows.
  The properties that say what a hash fixes, up to a collision, are shown at these twins: all
  their hypotheses hold there, of two different records.
\<close>

section \<open>Texts with the same checksum\<close>

definition same_weight :: "string \<Rightarrow> string \<Rightarrow> bool" where
  "same_weight u v \<longleftrightarrow>
     (\<forall>h :: nat. foldl (\<lambda>h c. (h * 31 + of_char c) mod 251) h u
       = foldl (\<lambda>h c. (h * 31 + of_char c) mod 251) h v)"

lemma ref_sha_same: "same_weight u v \<Longrightarrow> ref_sha (p @ u @ s) = ref_sha (p @ v @ s)"
  by (simp add: ref_sha_def same_weight_def)

lemma same_weight_two:
  assumes "of_char a * 31 + of_char b = (of_char c * 31 + of_char d :: nat)"
  shows "same_weight [a, b] [c, d]"
  unfolding same_weight_def
proof (simp, intro allI)
  fix h :: nat
  have two: "((h * 31 + x) mod 251 * 31 + y) mod 251 = (h * 961 + (x * 31 + y)) mod 251" for x y :: nat
  proof -
    have "((h * 31 + x) mod 251 * 31 + y) mod 251 = ((h * 31 + x) * 31 + y) mod 251"
      by (metis mod_add_left_eq mod_mult_left_eq)
    also have "(h * 31 + x) * 31 + y = h * 961 + (x * 31 + y)" by (simp add: algebra_simps)
    finally show ?thesis .
  qed
  show "((h * 31 + of_char a) mod 251 * 31 + of_char b) mod 251
    = ((h * 31 + of_char c) mod 251 * 31 + of_char d) mod 251"
    by (simp only: two assms)
qed

lemma twin_weights: "same_weight ''al'' ''bM''" "same_weight ''re'' ''sF''"
  by (rule same_weight_two, simp)+

section \<open>Where a field stands in the text of a record\<close>

lemma join_comma_around:
  "\<exists>p q. \<forall>e. join_comma (P @ e # Q) = p @ e @ q"
proof (induction P rule: join_comma.induct)
  case 1
  then show ?case by (cases Q) (auto intro: exI [of _ "[]"])
next
  case (2 x)
  obtain q where "\<forall>e. join_comma (e # Q) = e @ q"
    by (cases Q) auto
  then have "\<forall>e. join_comma ([x] @ e # Q) = (x @ '','') @ e @ q" by simp
  then show ?case by blast
next
  case (3 x y P)
  then obtain p q where "\<forall>e. join_comma ((y # P) @ e # Q) = p @ e @ q" by blast
  then have "\<forall>e. join_comma ((x # y # P) @ e # Q) = (x @ '','' @ p) @ e @ q" by simp
  then show ?case by blast
qed

text \<open>The text of an object around one of its string fields.\<close>

lemma field_text:
  assumes "quote_conforms L"
    and "traverse (encode_entry L) ps = Inr P" and "traverse (encode_entry L) qs = Inr Q"
  shows "\<exists>p q. \<forall>es s. sort_key fst es = ps @ (k, JString s) # qs \<longrightarrow>
    encode_canonical_value L (JObject es) = Inr (p @ concat (map escape s) @ q)"
proof -
  have "traverse (encode_entry L) (ps @ (k, JString s) # qs)
      = Inr (P @ (spec_quote k @ CHR '':'' # spec_quote s) # Q)" for s
    using assms
    by (auto simp: traverse_ok list_all2_append encode_entry_def encode_simps quote_conforms_def rbind_ok
        ok_or_ok intro!: list_all2_appendI)
  moreover obtain p q where "\<forall>e. join_comma (P @ e # Q) = p @ e @ q"
    using join_comma_around by blast
  ultimately show ?thesis
    by (intro exI [of _ "''{'' @ p @ spec_quote k @ CHR '':'' # [CHR 0x22]"]
        exI [of _ "CHR 0x22 # q @ ''}''"])
       (simp add: encode_object spec_quote_def)
qed

section \<open>The twins\<close>

definition twin_tc :: task_commitment where
  "twin_tc = fx_tc\<lparr>tc_principal := ''user:bMice''\<rparr>"

definition twin_rr1 :: reconciliation_record where
  "twin_rr1 = fx_rr1\<lparr>rr_reconciliation_id := ''sFconciliation-1''\<rparr>"

lemma twins_differ: "fx_tc \<noteq> twin_tc" "fx_rr1 \<noteq> twin_rr1"
  by (simp_all add: twin_tc_def fx_tc_def twin_rr1_def fx_rr1_def)

lemma twins_valid: "tc_validate twin_tc = Inr ()" "rr_validate twin_rr1 = Inr ()"
  by (simp_all add: tc_validate_def twin_tc_def fx_tc_def rr_validate_def twin_rr1_def fx_rr1_def
      text_eval)

text \<open>Records whose values differ in one string field, by parts of the same weight.\<close>

lemma same_hash_record:
  assumes "sort_key fst es = ps @ (k, JString (a @ u @ b)) # qs"
    and "sort_key fst es' = ps @ (k, JString (a @ v @ b)) # qs"
    and "same_weight (concat (map escape u)) (concat (map escape v))"
    and "hash_record ref_lib d (JObject es) = Inr h" and "canonical_json ref_lib (JObject es') = Inr t'"
  shows "hash_record ref_lib d (JObject es') = Inr h"
proof -
  from assms(4) obtain t where t: "canonical_json ref_lib (JObject es) = Inr t"
    and h: "h = Digest32 (format_digest (sha256 ref_lib (d @ [CHR 0x00] @ t)))"
    by (auto simp: hash_record_def rbind_ok)
  then have e: "encode_canonical_value ref_lib (JObject es) = Inr t"
    by (auto simp: canonical_json_def rbind_ok)
  then obtain P0 where "traverse (encode_entry ref_lib) (ps @ (k, JString (a @ u @ b)) # qs) = Inr P0"
    by (auto simp: encode_object assms(1) rbind_ok)
  then obtain P Q where PQ: "traverse (encode_entry ref_lib) ps = Inr P"
      "traverse (encode_entry ref_lib) qs = Inr Q"
    by (auto simp: traverse_ok list_all2_append1 list_all2_Cons1)
  obtain p q where pq: "\<forall>es s. sort_key fst es = ps @ (k, JString s) # qs \<longrightarrow>
      encode_canonical_value ref_lib (JObject es) = Inr (p @ concat (map escape s) @ q)"
    using field_text [OF ref_lib_quote PQ] by blast
  from pq assms(1) e have "t = p @ concat (map escape (a @ u @ b)) @ q" by simp
  moreover from pq assms(2,5) have "t' = p @ concat (map escape (a @ v @ b)) @ q"
    by (auto simp: canonical_json_def rbind_ok)
  moreover have sha: "sha256 ref_lib = ref_sha"
    by (simp add: ref_lib_def with_conforming_readers_def base_lib_def)
  ultimately have "sha256 ref_lib (d @ [CHR 0x00] @ t) = sha256 ref_lib (d @ [CHR 0x00] @ t')"
    using ref_sha_same [OF assms(3), of "d @ [CHR 0x00] @ p @ concat (map escape a)"
        "concat (map escape b) @ q"] by simp
  with h assms(5) show ?thesis by (simp add: hash_record_def)
qed

lemma tc_entries:
  "sort_key fst [(''version'', v), (''commitment_id'', i), (''principal'', p),
      (''objective_digest'', o'), (''constraints_digest'', c), (''authority_scope_digest'', a),
      (''policy_epoch'', e), (''configuration_epoch'', f), (''created_at_ms'', n), (''expires_at_ms'', x)]
    = [(''authority_scope_digest'', a), (''commitment_id'', i), (''configuration_epoch'', f),
       (''constraints_digest'', c), (''created_at_ms'', n), (''expires_at_ms'', x),
       (''objective_digest'', o'), (''policy_epoch'', e)] @ (''principal'', p) # [(''version'', v)]"
  by simp

lemma rr_entries:
  "sort_key fst [(''version'', v), (''reconciliation_id'', i), (''receipt_hash'', r),
      (''sequence'', s), (''parent_reconciliation_hash'', p), (''observed_at_ms'', n),
      (''outcome'', out), (''evidence_digest'', e)]
    = [(''evidence_digest'', e), (''observed_at_ms'', n), (''outcome'', out),
       (''parent_reconciliation_hash'', p), (''receipt_hash'', r)]
      @ (''reconciliation_id'', i) # [(''sequence'', s), (''version'', v)]"
  by simp

lemma twin_commitments:
  "tc_commitment ref_lib twin_tc = Inr tc_hash" "rr_commitment ref_lib twin_rr1 = Inr rr1_hash"
proof -
  note [simp] = twin_weights [simplified]
  have "\<exists>h. tc_commitment ref_lib twin_tc = Inr h" "\<exists>h. rr_commitment ref_lib twin_rr1 = Inr h"
    unfolding commitment_defs
    by (simp_all add: tc.commitment_ok_iff rr.commitment_ok_iff ref_lib_quotes twins_valid)
  then obtain t r where t: "canonical_json ref_lib (tc_value twin_tc) = Inr t"
    and r: "canonical_json ref_lib (rr_value twin_rr1) = Inr r"
    by (auto simp: commitment_defs trait_commitment_def hash_record_def rbind_ok)
  have "hash_record ref_lib (record_domain (ETask fx_tc)) (tc_value fx_tc) = Inr tc_hash"
      "hash_record ref_lib (record_domain (EReconciliation fx_rr1)) (rr_value fx_rr1) = Inr rr1_hash"
    using record_commitment_hash [of ref_lib "ETask fx_tc" tc_hash]
      record_commitment_hash [of ref_lib "EReconciliation fx_rr1" rr1_hash] fx_commitments by simp_all
  then have "hash_record ref_lib (record_domain (ETask fx_tc)) (tc_value twin_tc) = Inr tc_hash"
      "hash_record ref_lib (record_domain (EReconciliation fx_rr1)) (rr_value twin_rr1) = Inr rr1_hash"
    using same_hash_record [OF tc_entries tc_entries, where a = "''user:''" and u = "''al''" and
        v = "''bM''" and b = "''ice''"] t
      same_hash_record [OF rr_entries rr_entries, where a = "''''" and u = "''re''" and
        v = "''sF''" and b = "''conciliation-1''"] r
    by (auto simp: tc_value_def fx_tc_def twin_tc_def rr_value_def fx_rr1_def twin_rr1_def escape_def)
  then show "tc_commitment ref_lib twin_tc = Inr tc_hash" "rr_commitment ref_lib twin_rr1 = Inr rr1_hash"
    by (simp_all add: commitment_defs trait_commitment_def twins_valid)
qed

lemma not_collides_self: "\<not> collides L r r"
  by (auto simp: collides_def hash_collision_def)

section \<open>Their chains\<close>

lemma twin_verify_authorization:
  "verify_authorization ref_lib twin_tc fx_ep fx_ad fx_eg = Inr fx_authorization"
  using fx_verify_authorization
  by (simp add: verify_authorization_ok verify_decision_ok fx_commitments twin_commitments)
     (simp add: twin_tc_def)

lemma twin_verify_chain: "verify_chain ref_lib twin_tc fx_ep fx_ad fx_eg fx_er = Inr fx_chain"
  using fx_verify_chain fx_verify_authorization twin_verify_authorization
  by (simp add: verify_chain_def)

lemma twin_verify_reconciliation:
  "verify_reconciliation ref_lib fx_er None twin_rr1 = Inr rr1_hash"
  "verify_reconciliation ref_lib fx_er (Some twin_rr1) fx_rr2 = Inr rr2_hash"
  using fx_verify_reconciliation
  by (simp_all add: verify_reconciliation_ok evidence_for_def follows_def fx_commitments twin_commitments)
     (simp_all add: twin_rr1_def)

lemma twin_history: "history_ok ref_lib fx_er [twin_rr1, fx_rr2]"
proof -
  have "rr_reconciliation_id fx_rr2 \<noteq> rr_reconciliation_id twin_rr1"
    by (simp add: twin_rr1_def fx_rr2_def)
  then show ?thesis
    using twin_verify_reconciliation history_ok_snoc [of ref_lib fx_er "[]" twin_rr1]
      history_ok_snoc [of ref_lib fx_er "[twin_rr1]" fx_rr2]
    by (simp add: last_record_def)
qed

definition twin_bundle :: transaction_bundle where
  "twin_bundle = fx_bundle\<lparr>tb_reconciliations := [twin_rr1, fx_rr2]\<rparr>"

definition fx_verified :: verified_transaction where
  "fx_verified = \<lparr>vt_commitment_hash = tc_hash, vt_proposal_hash = ep_hash, vt_decision_hash = ad_hash,
     vt_grant_hash = Some eg_hash, vt_receipt_hash = Some er_hash,
     vt_reconciliation_hashes = [rr1_hash, rr2_hash], vt_state = reconciliation_state EffectConfirmed\<rparr>"

lemma fx_verify_transaction:
  "verify_transaction ref_lib fx_bundle = Inr fx_verified"
  "verify_transaction ref_lib twin_bundle = Inr fx_verified"
proof -
  have grant: "verify_decision ref_lib fx_tc fx_ep fx_ad
      = Inr \<lparr>vd_commitment_hash = tc_hash, vd_proposal_hash = ep_hash, vd_decision_hash = ad_hash\<rparr>"
    using fx_verify_authorization by (auto simp: verify_authorization_ok fx_authorization_def)
  have "rr_reconciliation_id fx_rr2 \<noteq> rr_reconciliation_id fx_rr1"
      "rr_reconciliation_id fx_rr2 \<noteq> rr_reconciliation_id twin_rr1" "rr_outcome fx_rr2 = EffectConfirmed"
    by (simp_all add: fx_rr1_def fx_rr2_def twin_rr1_def)
  then show "verify_transaction ref_lib fx_bundle = Inr fx_verified"
      "verify_transaction ref_lib twin_bundle = Inr fx_verified"
    using grant fx_verify_grant fx_verify_chain fx_verify_reconciliation twin_verify_reconciliation
    by (simp_all add: verify_transaction_def twin_bundle_def fx_bundle_def fx_verified_def fx_chain_def
        MAX_RECONCILIATION_RECORDS_def ensure_def)
qed

end
