(* ===== verification/Core_Properties.thy ===== *)
theory Core_Properties
  imports Lifecycle_Spec Fixture_Twins
begin

text \<open>
  The properties of the core crate: canonical JSON, commitments, parsing and the verification
  of record chains. Each property with hypotheses is followed by an instance on the records
  of \<open>Fixtures\<close>.
\<close>

section \<open>Verification of bundles\<close>

text \<open>
  C5: \<open>verify_transaction\<close> accepts a bundle exactly when the bundle meets the declarative
  specification of a lifecycle (valid records, hash links, nested windows, a complete
  parent-linked history), and then it reports the state of the last record.
\<close>

theorem verify_transaction_meets_spec:
  assumes "quotes L"
  shows "case verify_transaction L b of
      Inl e \<Rightarrow> \<not> lifecycle_spec L b
    | Inr v \<Rightarrow> lifecycle_spec L b \<and> vt_state v = bundle_state b"
  using verify_transaction_ok_iff [of L b] verify_transaction_state [of L b]
    lifecycle_spec_iff [OF assms, of b]
  by (auto split: sum.split)

theorem verify_transaction_meets_spec_witness:
  "\<exists>v. verify_transaction ref_lib fx_bundle = Inr v \<and> lifecycle_spec ref_lib fx_bundle
     \<and> vt_state v = TS_EffectConfirmed"
proof -
  from fx_lifecycle obtain v where v: "verify_transaction ref_lib fx_bundle = Inr v"
    using verify_transaction_ok_iff by blast
  moreover have "bundle_state fx_bundle = TS_EffectConfirmed"
    by (simp add: bundle_state_def fx_bundle_def last_record_def fx_rr2_def)
  ultimately show ?thesis
    using verify_transaction_meets_spec [OF ref_lib_quotes, of fx_bundle] by simp
qed

text \<open>
  Verification is closed under lifecycle prefixes. From an accepted bundle one may drop
  the last reconciliation records, then the receipt, then the grant, and it stays accepted.
\<close>

theorem verify_transaction_prefix:
  assumes "verify_transaction L b = Inr v"
  shows "(\<exists>w. verify_transaction L (b\<lparr>tb_reconciliations := take n (tb_reconciliations b)\<rparr>) = Inr w)
    \<and> (\<exists>w. verify_transaction L (b\<lparr>tb_receipt := None, tb_reconciliations := []\<rparr>) = Inr w)
    \<and> (\<exists>w. verify_transaction L
           (b\<lparr>tb_grant := None, tb_receipt := None, tb_reconciliations := []\<rparr>) = Inr w)"
proof (intro conjI)
  from assms have b: "lifecycle_ok L b" using verify_transaction_ok_iff by blast
  have h: "history_ok L r recs \<Longrightarrow> history_ok L r (take n recs)" for r recs
    using history_ok_prefix [of L r "take n recs" "drop n recs"] by simp
  have grant: "verify_chain L c p d g r = Inr w \<Longrightarrow> \<exists>h. verify_grant L c p d g = Inr h" for c p d g r w
    by (auto simp: verify_chain_ok verify_grant_ok)
  from b show "\<exists>w. verify_transaction L (b\<lparr>tb_reconciliations := take n (tb_reconciliations b)\<rparr>) = Inr w"
    unfolding verify_transaction_ok_iff lifecycle_ok_def by (auto split: option.splits intro: h)
  from b show "\<exists>w. verify_transaction L (b\<lparr>tb_receipt := None, tb_reconciliations := []\<rparr>) = Inr w"
    unfolding verify_transaction_ok_iff lifecycle_ok_def
    by (auto split: option.splits simp del: verify_grant_ok intro: grant)
  from b show "\<exists>w. verify_transaction L
      (b\<lparr>tb_grant := None, tb_receipt := None, tb_reconciliations := []\<rparr>) = Inr w"
    unfolding verify_transaction_ok_iff lifecycle_ok_def by auto
qed

theorem verify_transaction_prefix_witness:
  "\<exists>w. verify_transaction ref_lib (fx_bundle\<lparr>tb_reconciliations := [fx_rr1]\<rparr>) = Inr w"
proof -
  from fx_lifecycle obtain v where v: "verify_transaction ref_lib fx_bundle = Inr v"
    using verify_transaction_ok_iff by blast
  have "take 1 (tb_reconciliations fx_bundle) = [fx_rr1]" by (simp add: fx_bundle_def)
  with verify_transaction_prefix [OF v, of 1] show ?thesis by simp
qed

text \<open>
  Every grant that verifies is single-use, rests on an allowing decision with evidence, and
  its window lies inside the windows of the decision, the proposal and the task and is at most
  five minutes long. The bounds hold for the unsigned values as mathematical integers, so the
  subtraction in the lifetime check cannot have wrapped.
\<close>

theorem verified_grant_scope:
  assumes "verify_grant L c p d g = Inr h"
  shows "ad_outcome d = Allow
    \<and> ad_evidence_hashes d \<noteq> []
    \<and> eg_uses g = 1
    \<and> uint (tc_created_at_ms c) \<le> uint (ep_created_at_ms p)
    \<and> uint (ep_created_at_ms p) \<le> uint (ad_decided_at_ms d)
    \<and> uint (ad_decided_at_ms d) \<le> uint (eg_not_before_ms g)
    \<and> uint (eg_not_before_ms g) < uint (eg_expires_at_ms g)
    \<and> uint (eg_expires_at_ms g) \<le> uint (ad_expires_at_ms d)
    \<and> uint (ad_expires_at_ms d) \<le> uint (ep_expires_at_ms p)
    \<and> uint (ep_expires_at_ms p) \<le> uint (tc_expires_at_ms c)
    \<and> uint (tc_expires_at_ms c) \<le> 9007199254740991
    \<and> uint (eg_expires_at_ms g) - uint (eg_not_before_ms g) \<le> 300000"
proof (intro conjI)
  from assms obtain v where v: "verify_authorization L c p d g = Inr v"
    by (auto simp: verify_grant_ok)
  then have ad: "ad_validate d = Inr ()" and eg: "eg_validate g = Inr ()"
    and tc: "tc_validate c = Inr ()"
    using ad.commitment_valid eg.commitment_valid tc.commitment_valid
    by (auto simp: verify_authorization_ok verify_decision_ok commitment_defs)
  from v show "ad_outcome d = Allow" by (simp add: verify_authorization_ok)
  with ad show "ad_evidence_hashes d \<noteq> []" by (auto simp: ad_validate_def ok_iff)
  from eg show "eg_uses g = 1" by (simp add: eg_validate_def ok_iff)
  from v show "uint (tc_created_at_ms c) \<le> uint (ep_created_at_ms p)"
    "uint (ep_created_at_ms p) \<le> uint (ad_decided_at_ms d)"
    "uint (ad_decided_at_ms d) \<le> uint (eg_not_before_ms g)"
    "uint (eg_expires_at_ms g) \<le> uint (ad_expires_at_ms d)"
    "uint (ad_expires_at_ms d) \<le> uint (ep_expires_at_ms p)"
    "uint (ep_expires_at_ms p) \<le> uint (tc_expires_at_ms c)"
    by (simp_all add: verify_authorization_ok verify_decision_ok word_le_def)
  from tc show "uint (tc_expires_at_ms c) \<le> 9007199254740991"
    by (simp add: tc_validate_def ok_iff safe_integer_int)
  from eg have w: "eg_not_before_ms g < eg_expires_at_ms g"
    "eg_expires_at_ms g - eg_not_before_ms g \<le> MAX_GRANT_LIFETIME_MS"
    by (simp_all add: eg_validate_def ok_iff not_less)
  then show lt: "uint (eg_not_before_ms g) < uint (eg_expires_at_ms g)"
    by (simp add: word_less_def)
  then have "uint (eg_expires_at_ms g - eg_not_before_ms g)
      = uint (eg_expires_at_ms g) - uint (eg_not_before_ms g)"
    by (simp add: uint_sub_if')
  with w(2) show "uint (eg_expires_at_ms g) - uint (eg_not_before_ms g) \<le> 300000"
    by (simp add: word_le_def MAX_GRANT_LIFETIME_MS_def)
qed

theorem verified_grant_scope_witness:
  "ad_outcome fx_ad = Allow \<and> eg_uses fx_eg = 1
   \<and> uint (eg_expires_at_ms fx_eg) - uint (eg_not_before_ms fx_eg) \<le> 300000"
  using verified_grant_scope [OF fx_verify_grant] by blast

text \<open>
  The reconciliation records of an accepted bundle are evidence for an unknown outcome
  only. They are numbered from one, have distinct identifiers and non-decreasing times that do
  not precede the receipt, each names the commitment of the record before it, and no record
  follows a terminal one.
\<close>

theorem verified_history:
  assumes "verify_transaction L b = Inr v" and "tb_receipt b = Some r"
    and "i < length (tb_reconciliations b)"
  shows "er_outcome r = Unknown
    \<and> er_commitment L r = Inr (rr_receipt_hash (tb_reconciliations b ! i))
    \<and> unat (rr_sequence (tb_reconciliations b ! i)) = i + 1
    \<and> er_completed_at_ms r \<le> rr_observed_at_ms (tb_reconciliations b ! i)
    \<and> distinct (map rr_reconciliation_id (tb_reconciliations b))
    \<and> sorted (map rr_observed_at_ms (tb_reconciliations b))
    \<and> (0 < i \<longrightarrow> (\<exists>h. rr_commitment L (tb_reconciliations b ! (i - 1)) = Inr h
           \<and> rr_parent_reconciliation_hash (tb_reconciliations b ! i) = Some h
           \<and> \<not> terminal_outcome (rr_outcome (tb_reconciliations b ! (i - 1)))))"
proof (intro conjI)
  let ?rs = "tb_reconciliations b"
  from assms(1) have ok: "lifecycle_ok L b" using verify_transaction_ok_iff by blast
  with assms(2,3) have h: "history_ok L r ?rs" and len: "length ?rs \<le> 10000"
    by (auto simp: lifecycle_ok_def MAX_RECONCILIATION_RECORDS_def split: option.splits)
  note ev = history_evidence [OF h assms(3)]
  from ev show "er_outcome r = Unknown" "er_commitment L r = Inr (rr_receipt_hash (?rs ! i))"
    "er_completed_at_ms r \<le> rr_observed_at_ms (?rs ! i)"
    by (simp_all add: evidence_for_def)
  have "rr_sequence (?rs ! i) = of_nat (Suc i)" by (rule history_sequence [OF h assms(3)])
  with len assms(3) show "unat (rr_sequence (?rs ! i)) = i + 1"
    by (simp add: unsigned_of_nat take_bit_nat_eq_self del: of_nat_Suc)
  from h show "distinct (map rr_reconciliation_id ?rs)" by (simp add: history_ok_def)
  from h show "sorted (map rr_observed_at_ms ?rs)" by (rule history_sorted)
  show "0 < i \<longrightarrow> (\<exists>h. rr_commitment L (?rs ! (i - 1)) = Inr h
      \<and> rr_parent_reconciliation_hash (?rs ! i) = Some h
      \<and> \<not> terminal_outcome (rr_outcome (?rs ! (i - 1))))"
    using assms(3) history_step [OF h, of "i - 1"] by (auto simp: follows_def)
qed

theorem verified_history_witness:
  "unat (rr_sequence (tb_reconciliations fx_bundle ! 1)) = 1 + 1
   \<and> (\<exists>h. rr_commitment ref_lib fx_rr1 = Inr h
          \<and> rr_parent_reconciliation_hash fx_rr2 = Some h)"
proof -
  from fx_lifecycle obtain v where v: "verify_transaction ref_lib fx_bundle = Inr v"
    using verify_transaction_ok_iff by blast
  have "tb_receipt fx_bundle = Some fx_er" "1 < length (tb_reconciliations fx_bundle)"
    "tb_reconciliations fx_bundle ! (1 - 1) = fx_rr1" "tb_reconciliations fx_bundle ! 1 = fx_rr2"
    by (simp_all add: fx_bundle_def)
  with verified_history [OF v, of fx_er 1] show ?thesis by auto
qed

text \<open>
  A receipt that completes a chain was claimed inside the window of its grant, which lies
  inside the window of the task; a dispatch lies between claim and completion; and the outcome
  agrees with the dispatch evidence (success and failure need it, not-dispatched excludes it).
\<close>

theorem verified_receipt_evidence:
  assumes "verify_chain L c p d g r = Inr v"
  shows "eg_not_before_ms g \<le> er_claimed_at_ms r \<and> er_claimed_at_ms r < eg_expires_at_ms g
    \<and> tc_created_at_ms c \<le> er_claimed_at_ms r \<and> er_claimed_at_ms r < tc_expires_at_ms c
    \<and> er_claimed_at_ms r \<le> er_completed_at_ms r
    \<and> (case er_dispatched_at_ms r of
         None \<Rightarrow> er_outcome r \<in> {NotDispatched, Unknown}
       | Some t \<Rightarrow> er_outcome r \<noteq> NotDispatched
           \<and> er_claimed_at_ms r \<le> t \<and> t \<le> er_completed_at_ms r)"
proof -
  from assms have r: "er_validate r = Inr ()"
    using er.commitment_valid by (auto simp: verify_chain_ok er_commitment_def)
  have window: "tc_created_at_ms c \<le> eg_not_before_ms g" "eg_expires_at_ms g \<le> tc_expires_at_ms c"
    using assms by (auto simp: verify_chain_ok verify_authorization_ok verify_decision_ok)
  from r have "case er_dispatched_at_ms r of
      None \<Rightarrow> er_outcome r \<in> {NotDispatched, Unknown}
    | Some t \<Rightarrow> er_outcome r \<noteq> NotDispatched \<and> er_claimed_at_ms r \<le> t \<and> t \<le> er_completed_at_ms r"
    by (cases "er_outcome r") (auto simp: er_validate_ok split: option.split)
  with assms r window show ?thesis
    by (auto simp: verify_chain_ok er_validate_ok)
qed

theorem verified_receipt_evidence_witness:
  "er_claimed_at_ms fx_er < tc_expires_at_ms fx_tc \<and> er_outcome fx_er \<noteq> NotDispatched"
  using verified_receipt_evidence [OF fx_verify_chain] by (simp add: fx_er_def)

section \<open>Commitments\<close>

text \<open>
  C34: A commitment exists exactly for the valid records, of every kind, and the error of
  \<open>commitment\<close> is the error of \<open>validate\<close>: the canonical encoder cannot fail on a valid record.
\<close>

theorem commitment_exactly_for_valid:
  assumes "quotes L"
  shows "rbind (tc_commitment L c) (\<lambda>_. Inr ()) = tc_validate c
    \<and> rbind (ep_commitment L p) (\<lambda>_. Inr ()) = ep_validate p
    \<and> rbind (ad_commitment L d) (\<lambda>_. Inr ()) = ad_validate d
    \<and> rbind (eg_commitment L g) (\<lambda>_. Inr ()) = eg_validate g
    \<and> rbind (er_commitment L r) (\<lambda>_. Inr ()) = er_validate r
    \<and> rbind (rr_commitment L x) (\<lambda>_. Inr ()) = rr_validate x"
proof -
  have same: "rbind w (\<lambda>_. Inr ()) = v"
    if "\<And>e. w = Inl e \<longleftrightarrow> v = Inl e" for v :: "protocol_error + unit" and w :: "protocol_error + digest32"
    using that by (cases v; cases w) auto
  show ?thesis
    unfolding commitment_defs
    by (intro conjI same tc.commitment_error ep.commitment_error ad.commitment_error
        eg.commitment_error er.commitment_error rr.commitment_error assms)
qed

theorem commitment_exactly_for_valid_witness:
  "rbind (tc_commitment ref_lib fx_tc) (\<lambda>_. Inr ()) = Inr ()
   \<and> rbind (eg_commitment ref_lib (fx_eg\<lparr>eg_uses := 2\<rparr>)) (\<lambda>_. Inr ()) = Inl GrantMustBeSingleUse"
proof -
  have "eg_validate (fx_eg\<lparr>eg_uses := 2\<rparr>) = Inl GrantMustBeSingleUse"
    by (simp add: eg_validate_def fx_eg_def text_eval)
  then show ?thesis
    using commitment_exactly_for_valid
      [OF ref_lib_quotes, of fx_tc fx_ep fx_ad "fx_eg\<lparr>eg_uses := 2\<rparr>" fx_er fx_rr1] fx_tc_valid
    by simp
qed

text \<open>
  C9: A commitment binds the kind and every field of the record. Two records of any kinds with
  the same commitment are the same record, or the two texts that were hashed for them differ
  and collide under SHA-256.
\<close>

theorem commitment_binds_record:
  assumes "quote_conforms L"
    and "record_commitment L a = Inr h" and "record_commitment L b = Inr h"
  shows "a = b \<or> collides L a b"
  by (rule record_commitment_binding [OF assms])

theorem commitment_binds_record_witness:
  "record_commitment ref_lib (ETask fx_tc) = Inr tc_hash
   \<and> record_commitment ref_lib (ETask twin_tc) = Inr tc_hash
   \<and> fx_tc \<noteq> twin_tc \<and> collides ref_lib (ETask fx_tc) (ETask twin_tc)"
  using commitment_binds_record [OF ref_lib_quote, of "ETask fx_tc" tc_hash "ETask twin_tc"]
  by (simp add: fx_commitments twin_commitments twins_differ)

text \<open>
  C10: The hash of a receipt fixes the whole chain behind it: two verified chains with the same
  receipt hash consist of the same task, proposal, decision, grant and receipt, or one of the
  five pairs of hashed texts collides.
\<close>

theorem receipt_hash_fixes_chain:
  assumes "quote_conforms L"
    and "verify_chain L c p d g r = Inr v" and "verify_chain L c' p' d' g' r' = Inr w"
    and "vc_receipt_hash v = vc_receipt_hash w"
  shows "(c = c' \<and> p = p' \<and> d = d' \<and> g = g' \<and> r = r')
    \<or> collides L (EReceipt r) (EReceipt r') \<or> collides L (EGrant g) (EGrant g')
    \<or> collides L (EDecision d) (EDecision d') \<or> collides L (EProposal p) (EProposal p')
    \<or> collides L (ETask c) (ETask c')"
  by (rule receipt_binds_chain [OF assms])

theorem receipt_hash_fixes_chain_witness:
  "verify_chain ref_lib fx_tc fx_ep fx_ad fx_eg fx_er = Inr fx_chain
   \<and> verify_chain ref_lib twin_tc fx_ep fx_ad fx_eg fx_er = Inr fx_chain
   \<and> fx_tc \<noteq> twin_tc \<and> collides ref_lib (ETask fx_tc) (ETask twin_tc)"
  using receipt_hash_fixes_chain [OF ref_lib_quote fx_verify_chain twin_verify_chain refl]
  by (simp add: fx_verify_chain twin_verify_chain twins_differ not_collides_self)

text \<open>
  C11: The hash of the last reconciliation record fixes the whole history: two verified
  histories whose last records have the same commitment are equal, or a record of one collides
  with a record of the other.
\<close>

theorem last_hash_fixes_history:
  assumes "quote_conforms L"
    and "verify_transaction L a = Inr v" and "verify_transaction L b = Inr w"
    and "vt_reconciliation_hashes v \<noteq> []" and "vt_reconciliation_hashes w \<noteq> []"
    and "last (vt_reconciliation_hashes v) = last (vt_reconciliation_hashes w)"
  shows "tb_reconciliations a = tb_reconciliations b
    \<or> (\<exists>x \<in> set (tb_reconciliations a). \<exists>y \<in> set (tb_reconciliations b).
         collides L (EReconciliation x) (EReconciliation y))"
proof -
  have facts: "tb_reconciliations b \<noteq> []
      \<and> rr_commitment L (last (tb_reconciliations b)) = Inr (last (vt_reconciliation_hashes w))"
    if "verify_transaction L b = Inr w" and ne: "vt_reconciliation_hashes w \<noteq> []" for b w
  proof -
    from that(1) have all: "list_all2 (\<lambda>x k. rr_commitment L x = Inr k)
        (tb_reconciliations b) (vt_reconciliation_hashes w)" by (rule verify_transaction_hashes)
    with ne have "tb_reconciliations b \<noteq> []" by auto
    with all ne show ?thesis by (auto simp: list_all2_conv_all_nth last_conv_nth)
  qed
  note fa = facts [OF assms(2,4)] and fb = facts [OF assms(3,5)]
  from verify_transaction_history [OF assms(2)] verify_transaction_history [OF assms(3)] fa fb
  obtain r r' where "history_ok L r (tb_reconciliations a)" "history_ok L r' (tb_reconciliations b)"
    by blast
  from last_commitment_binds_history [OF assms(1) this] fa fb assms(6) show ?thesis by auto
qed

theorem last_hash_fixes_history_witness:
  "verify_transaction ref_lib fx_bundle = Inr fx_verified
   \<and> verify_transaction ref_lib twin_bundle = Inr fx_verified
   \<and> last (vt_reconciliation_hashes fx_verified) = rr2_hash
   \<and> tb_reconciliations fx_bundle \<noteq> tb_reconciliations twin_bundle
   \<and> (\<exists>x \<in> set (tb_reconciliations fx_bundle). \<exists>y \<in> set (tb_reconciliations twin_bundle).
         collides ref_lib (EReconciliation x) (EReconciliation y))"
proof -
  have differ: "tb_reconciliations fx_bundle \<noteq> tb_reconciliations twin_bundle"
    by (simp add: fx_bundle_def twin_bundle_def twins_differ)
  have hashes: "vt_reconciliation_hashes fx_verified = [rr1_hash, rr2_hash]"
    by (simp add: fx_verified_def)
  from last_hash_fixes_history [OF ref_lib_quote fx_verify_transaction] hashes differ
  show ?thesis by (simp add: fx_verify_transaction)
qed

section \<open>Canonical JSON\<close>

text \<open>
  The recursive budget check with its mutable counter and its two limits accepts a value
  exactly when the value is nested at most 64 deep and consists of at most 100000 values; it
  then returns the number of values.
\<close>

theorem budget_check_reference:
  "validate_value_budget v 1 0 = Inr n \<longleftrightarrow> jdepth v \<le> 64 \<and> n = jnodes v \<and> jnodes v \<le> 100000"
  using validate_value_budget_iff [of 0 v 0 n]
  by (auto simp: MAX_CANONICAL_NESTING_DEPTH_def MAX_CANONICAL_NODES_def)

text \<open>
  Canonical encoding succeeds exactly on the values inside the budget whose numbers are all
  integers of magnitude at most \<open>2 ^ 53 - 1\<close>.
\<close>

theorem canonical_json_domain:
  assumes "quotes L"
  shows "(\<exists>s. canonical_json L v = Inr s) \<longleftrightarrow> safe_numbers v \<and> jdepth v \<le> 64 \<and> jnodes v \<le> 100000"
  using canonical_json_ok_iff [OF assms, of v]
  by (simp add: MAX_CANONICAL_NESTING_DEPTH_def MAX_CANONICAL_NODES_def)

theorem canonical_json_domain_witness:
  "(\<exists>s. canonical_json ref_lib (JNumber (JInt 9007199254740991)) = Inr s)
   \<and> \<not> (\<exists>s. canonical_json ref_lib (JNumber (JInt 9007199254740992)) = Inr s)"
  using canonical_json_domain [OF ref_lib_quotes, of "JNumber (JInt 9007199254740991)"]
    canonical_json_domain [OF ref_lib_quotes, of "JNumber (JInt 9007199254740992)"]
  by (simp add: MAX_SAFE_val)

text \<open>
  C39: Canonical text can be read back: a JSON reader returns the encoded value with the entries
  of every object in key order.
\<close>

theorem canonical_json_reads_back:
  assumes "quote_conforms L" and "canonical_json L v = Inr s"
  shows "read_json s = Some (norm v)"
  using read_json_encode [OF assms(1)] assms(2) by (auto simp: canonical_json_def rbind_ok)

theorem canonical_json_reads_back_witness:
  "\<exists>s. canonical_json ref_lib (eg_value fx_eg) = Inr s \<and> read_json s = Some (norm (eg_value fx_eg))"
proof -
  obtain s where s: "canonical_json ref_lib (eg_value fx_eg) = Inr s"
    using eg.valid_canonical [OF ref_lib_quotes fx_eg_valid] by blast
  with canonical_json_reads_back [OF ref_lib_quote s] show ?thesis by blast
qed

text \<open>
  C38: The canonical form does not depend on the order of object entries and forgets nothing
  else: two values have the same canonical text exactly when they agree up to that order.
\<close>

theorem canonical_json_key_order:
  assumes "quote_conforms L" and "canonical_json L v = Inr s" and "canonical_json L w = Inr t"
  shows "s = t \<longleftrightarrow> norm v = norm w"
  using encode_eq_iff_norm [OF assms(1), of v s w] assms(2,3)
  by (auto simp: canonical_json_def rbind_ok)

theorem canonical_json_key_order_witness:
  "canonical_json ref_lib (JObject [(''a'', JNull), (''b'', JBool True)])
     = canonical_json ref_lib (JObject [(''b'', JBool True), (''a'', JNull)])"
proof -
  let ?v = "JObject [(''a'', JNull), (''b'', JBool True)]"
  let ?w = "JObject [(''b'', JBool True), (''a'', JNull)]"
  have depth: "jdepth ?v \<le> 64" "jdepth ?w \<le> 64"
    by (simp_all add: jdepth_object_le [of _ 63, simplified])
  obtain s t where s: "canonical_json ref_lib ?v = Inr s" and t: "canonical_json ref_lib ?w = Inr t"
    using canonical_json_ok_iff [OF ref_lib_quotes, of ?v] canonical_json_ok_iff [OF ref_lib_quotes, of ?w]
      depth by (auto simp: jnodes_object MAX_CANONICAL_NESTING_DEPTH_def MAX_CANONICAL_NODES_def)
  have "norm ?v = norm ?w" by simp
  with canonical_json_key_order [OF ref_lib_quote s t] s t show ?thesis by simp
qed

section \<open>Parsing and digests\<close>

text \<open>
  C40: Parsing inverts canonical encoding for every record type: the canonical text of a valid
  record with well-formed digests fits the transport limit, and \<open>parse_record\<close> returns the
  record.
\<close>

theorem parse_record_roundtrip:
  assumes "quote_conforms L" and "reads_records L"
    and "tc_validate c = Inr ()" "tc_digests c" and "ep_validate p = Inr ()" "ep_digests p"
    and "ad_validate d = Inr ()" "ad_digests d" and "eg_validate g = Inr ()" "eg_digests g"
    and "er_validate r = Inr ()" "er_digests r" and "rr_validate x = Inr ()" "rr_digests x"
  shows "rbind (canonical_json L (tc_value c)) (parse_tc L) = Inr c
    \<and> rbind (canonical_json L (ep_value p)) (parse_ep L) = Inr p
    \<and> rbind (canonical_json L (ad_value d)) (parse_ad L) = Inr d
    \<and> rbind (canonical_json L (eg_value g)) (parse_eg L) = Inr g
    \<and> rbind (canonical_json L (er_value r)) (parse_er L) = Inr r
    \<and> rbind (canonical_json L (rr_value x)) (parse_rr L) = Inr x"
proof -
  note q = quote_conforms_quotes [OF assms(1)]
  note parsed = parse_canonical [OF assms(1,2)]
  show ?thesis
    unfolding rbind_ok
    using tc.valid_canonical [OF q assms(3)] ep.valid_canonical [OF q assms(5)]
      ad.valid_canonical [OF q assms(7)] eg.valid_canonical [OF q assms(9)]
      er.valid_canonical [OF q assms(11)] rr.valid_canonical [OF q assms(13)]
      parsed(1) [OF assms(3,4)] parsed(2) [OF assms(5,6)] parsed(3) [OF assms(7,8)]
      parsed(4) [OF assms(9,10)] parsed(5) [OF assms(11,12)] parsed(6) [OF assms(13,14)]
    by blast
qed

theorem parse_record_roundtrip_witness:
  "rbind (canonical_json ref_lib (er_value fx_er)) (parse_er ref_lib) = Inr fx_er
   \<and> rbind (canonical_json ref_lib (ad_value fx_ad)) (parse_ad ref_lib) = Inr fx_ad"
  using parse_record_roundtrip [OF ref_lib_quote ref_lib_reads fx_tc_valid fx_digests(1)
      fx_ep_valid fx_digests(2) fx_ad_valid fx_digests(3) fx_eg_valid fx_digests(4)
      fx_er_valid fx_digests(5) fx_rr1_valid fx_digests(6)]
  by blast

text \<open>
  The text of a 32-byte hash is accepted by \<open>Digest32::parse\<close> exactly when the hash is not
  all zero, and different hashes have different texts.
\<close>

theorem digest_text_roundtrip:
  assumes "length bs = 32"
  shows "parse_digest (format_digest bs)
      = (if bs = replicate 32 0 then Inl InvalidDigest else Inr (Digest32 (format_digest bs)))
    \<and> (\<forall>cs. format_digest cs = format_digest bs \<longleftrightarrow> cs = bs)"
proof -
  have zero: "(\<exists>b \<in> set bs. b \<noteq> 0) \<longleftrightarrow> bs \<noteq> replicate 32 0"
    using assms by (metis in_set_replicate replicate_length_same)
  have "validate_digest_text v = Inr () \<or> validate_digest_text v = Inl InvalidDigest" for v
    by (simp add: validate_digest_text_def split: option.split)
  with zero format_digest_valid [OF assms] show ?thesis
    by (auto simp: parse_digest_def format_digest_inj) (metis rbind.simps(1))
qed

theorem digest_text_roundtrip_witness:
  "parse_digest (format_digest (replicate 32 0)) = Inl InvalidDigest
   \<and> parse_digest (format_digest (replicate 32 1)) = Inr (Digest32 (format_digest (replicate 32 1)))"
  using digest_text_roundtrip [of "replicate 32 0"] digest_text_roundtrip [of "replicate 32 1"]
  by (simp add: replicate_eq_replicate)

end
