(* ===== verification/Store_Interface.thy ===== *)
theory Store_Interface
  imports Prelude
begin

text \<open>
  The contract that a lifecycle store offers to its callers, independent of how it keeps
  its data: every operation, failed or not, only extends the stored history, and a
  successful claim takes a free key. Two locales state it, and their lemmas lift it to every
  sequence of operations. As the operations of a store are serialized (by a mutex in memory,
  by an immediate transaction in SQLite), a concurrent execution is such a sequence.
\<close>

section \<open>Runs\<close>

text \<open>The results of a list of operations, each with its operation, and the final state.\<close>

fun run_ops :: "('op \<Rightarrow> 's \<Rightarrow> 'r \<times> 's) \<Rightarrow> 'op list \<Rightarrow> 's \<Rightarrow> ('op \<times> 'r) list \<times> 's" where
  "run_ops step [] s = ([], s)"
| "run_ops step (op # ops) s =
     (let (r, s') = step op s; (rs, s'') = run_ops step ops s' in ((op, r) # rs, s''))"

definition final_state :: "('op \<Rightarrow> 's \<Rightarrow> 'r \<times> 's) \<Rightarrow> 'op list \<Rightarrow> 's \<Rightarrow> 's" where
  "final_state step ops s = snd (run_ops step ops s)"

lemma final_state_simps [simp]:
  "final_state step [] s = s"
  "final_state step (op # ops) s = final_state step ops (snd (step op s))"
  by (simp_all add: final_state_def Let_def split: prod.split)

definition wins_of :: "('op \<Rightarrow> 'r \<Rightarrow> ('k \<times> 'c) option) \<Rightarrow> ('op \<times> 'r) list \<Rightarrow> ('k \<times> 'c) list" where
  "wins_of won rs = concat (map (\<lambda>(op, r). case won op r of None \<Rightarrow> [] | Some w \<Rightarrow> [w]) rs)"

lemma wins_of_simps [simp]:
  "wins_of won [] = []"
  "wins_of won ((op, r) # rs) =
     (case won op r of None \<Rightarrow> wins_of won rs | Some w \<Rightarrow> w # wins_of won rs)"
  by (simp_all add: wins_of_def split: option.split)

text \<open>The winning claims of a run.\<close>

definition run_wins ::
    "('op \<Rightarrow> 's \<Rightarrow> 'r \<times> 's) \<Rightarrow> ('op \<Rightarrow> 'r \<Rightarrow> ('k \<times> 'c) option) \<Rightarrow> 'op list \<Rightarrow> 's \<Rightarrow> ('k \<times> 'c) list" where
  "run_wins step won ops s = wins_of won (fst (run_ops step ops s))"

lemma run_wins_simps [simp]:
  "run_wins step won [] s = []"
  "run_wins step won (op # ops) s =
     (case won op (fst (step op s)) of
        None \<Rightarrow> run_wins step won ops (snd (step op s))
      | Some w \<Rightarrow> w # run_wins step won ops (snd (step op s)))"
  by (simp_all add: run_wins_def Let_def split_def split: option.split)

section \<open>Append-only stores\<close>

locale append_only =
  fixes step :: "'op \<Rightarrow> 's \<Rightarrow> 'r \<times> 's"
    and invar :: "'s \<Rightarrow> bool"
    and extends :: "'s \<Rightarrow> 's \<Rightarrow> bool"
  assumes invar_step: "invar s \<Longrightarrow> invar (snd (step op s))"
    and extends_step: "invar s \<Longrightarrow> extends s (snd (step op s))"
    and extends_refl: "extends s s"
    and extends_trans: "extends s t \<Longrightarrow> extends t u \<Longrightarrow> extends s u"
begin

lemma invar_run: "invar s \<Longrightarrow> invar (final_state step ops s)"
  by (induction ops arbitrary: s) (simp_all add: invar_step)

lemma extends_run: "invar s \<Longrightarrow> extends s (final_state step ops s)"
proof (induction ops arbitrary: s)
  case Nil
  then show ?case by (simp add: extends_refl)
next
  case (Cons op ops)
  from Cons.prems have "extends s (snd (step op s))" by (rule extends_step)
  moreover have "extends (snd (step op s)) (final_state step ops (snd (step op s)))"
    using Cons by (simp add: invar_step)
  ultimately show ?case by (auto intro: extends_trans)
qed

end

section \<open>Single use\<close>

text \<open>
  \<open>holder s k\<close> is the claim that holds key \<open>k\<close>, and \<open>won op r\<close> the key and the claim that
  the result \<open>r\<close> of \<open>op\<close> reports as won.
\<close>

locale single_use = append_only +
  fixes holder :: "'s \<Rightarrow> 'k \<Rightarrow> 'c option"
    and won :: "'op \<Rightarrow> 'r \<Rightarrow> ('k \<times> 'c) option"
  assumes holder_extends: "extends s t \<Longrightarrow> holder s k = Some c \<Longrightarrow> holder t k = Some c"
    and win_free: "invar s \<Longrightarrow> won op (fst (step op s)) = Some (k, c) \<Longrightarrow> holder s k = None"
    and win_holds:
      "invar s \<Longrightarrow> won op (fst (step op s)) = Some (k, c) \<Longrightarrow> holder (snd (step op s)) k = Some c"
begin

lemma wins_free:
  "invar s \<Longrightarrow> (k, c) \<in> set (run_wins step won ops s) \<Longrightarrow> holder s k = None"
proof (induction ops arbitrary: s)
  case (Cons op ops)
  have "(k, c) \<in> set (run_wins step won ops (snd (step op s))) \<Longrightarrow> holder s k = None"
    using Cons.IH [OF invar_step [OF Cons.prems(1)]] holder_extends [OF extends_step [OF Cons.prems(1)]]
    by (metis option.collapse option.distinct(1))
  then show ?case
    using Cons.prems win_free [OF Cons.prems(1), of op] by (auto split: option.splits)
qed simp

lemma wins_hold:
  "invar s \<Longrightarrow> (k, c) \<in> set (run_wins step won ops s) \<Longrightarrow> holder (final_state step ops s) k = Some c"
proof (induction ops arbitrary: s)
  case (Cons op ops)
  note inv = invar_step [OF Cons.prems(1), of op]
  show ?case
  proof (cases "(k, c) \<in> set (run_wins step won ops (snd (step op s)))")
    case True
    with Cons.IH [OF inv] show ?thesis by simp
  next
    case False
    with Cons.prems(2) have "won op (fst (step op s)) = Some (k, c)" by (auto split: option.splits)
    with win_holds [OF Cons.prems(1)] holder_extends [OF extends_run [OF inv]] show ?thesis by simp
  qed
qed simp

lemma wins_distinct: "invar s \<Longrightarrow> distinct (map fst (run_wins step won ops s))"
proof (induction ops arbitrary: s)
  case (Cons op ops)
  note inv = invar_step [OF Cons.prems, of op]
  have "k \<notin> fst ` set (run_wins step won ops (snd (step op s)))"
    if "won op (fst (step op s)) = Some (k, c)" for k c
    using win_holds [OF Cons.prems that] wins_free [OF inv] by fastforce
  then show ?case using Cons.IH [OF inv] by (auto split: option.splits)
qed simp

end

text \<open>
  A store in which a key comes to be held only by the call that reports the win: what is held is
  exactly what was won.
\<close>

locale exact_use = single_use +
  assumes only_won: "invar s \<Longrightarrow> holder (snd (step op s)) k = Some c \<Longrightarrow>
    holder s k = Some c \<or> won op (fst (step op s)) = Some (k, c)"
begin

lemma holder_won:
  "invar s \<Longrightarrow> holder (final_state step ops s) k = Some c \<Longrightarrow>
   holder s k = Some c \<or> (k, c) \<in> set (run_wins step won ops s)"
proof (induction ops arbitrary: s)
  case (Cons op ops)
  from Cons.IH [OF invar_step [OF Cons.prems(1)]] Cons.prems(2)
  have "holder (snd (step op s)) k = Some c \<or> (k, c) \<in> set (run_wins step won ops (snd (step op s)))"
    by simp
  with only_won [OF Cons.prems(1), of op k c] show ?case by (auto split: option.splits)
qed simp

text \<open>From a state in which no key is held, exactly the winning claims are held.\<close>

lemma wins_exact:
  assumes "invar s" and "\<And>k. holder s k = None"
  shows "set (run_wins step won ops s) = {(k, c). holder (final_state step ops s) k = Some c}"
proof (intro set_eqI iffI)
  fix w
  show "w \<in> set (run_wins step won ops s) \<Longrightarrow> w \<in> {(k, c). holder (final_state step ops s) k = Some c}"
    using wins_hold [OF assms(1), of "fst w" "snd w" ops] by (simp add: split_def)
  assume "w \<in> {(k, c). holder (final_state step ops s) k = Some c}"
  then show "w \<in> set (run_wins step won ops s)"
    using holder_won [OF assms(1), of ops "fst w" "snd w"] assms(2) by (simp add: split_def)
qed

end

end
