(* ===== verification/Memory_Store.thy ===== *)
theory Memory_Store
  imports Chain Store_Interface
begin

text \<open>
  \<open>MemoryGrantStore\<close> of crates/effect-transaction-core/src/lib.rs. The maps of
  \<open>MemoryGrantState\<close> are partial functions and the mutex is the flag \<open>mg_poisoned\<close> with the
  protected state: \<open>lock\<close> fails exactly on a poisoned mutex. What an operation does before it
  takes the lock (validation, the clock reading) and under the lock are separate definitions;
  the part under the lock is the atomic step of the store. The trusted clock is the argument
  \<open>now\<close>, its reading.
\<close>

section \<open>State\<close>

record grant_claim =
  gc_grant_id :: string
  gc_grant_hash :: digest32
  gc_attempt_id :: string
  gc_claimed_at_ms :: u64

record grant_claim_request =
  gr_attempt_id :: string
  gr_expected_audience :: string
  gr_observed_policy_epoch :: u64
  gr_observed_configuration_epoch :: u64
  gr_observed_pre_state_digest :: digest32
  gr_observed_resource_claim_digest :: digest32
  gr_revoked :: bool

definition gr_validate :: "grant_claim_request \<Rightarrow> protocol_error + unit" where
  "gr_validate r = checks
     [validate_identifier ''attempt_id'' (gr_attempt_id r),
      validate_trimmed_text ''expected_audience'' (gr_expected_audience r) 512,
      validate_safe_integer ''observed_policy_epoch'' (gr_observed_policy_epoch r),
      validate_safe_integer ''observed_configuration_epoch'' (gr_observed_configuration_epoch r)]"

record stored_grant =
  sg_hash :: digest32
  sg_commitment :: task_commitment
  sg_proposal :: effect_proposal
  sg_decision :: authorization_decision
  sg_grant :: execution_grant
  sg_claim :: "grant_claim option"
  sg_receipt :: "effect_receipt option"
  sg_reconciliations :: "reconciliation_record list"

record memory_grant_state =
  ms_grants :: "string \<rightharpoonup> stored_grant"
  ms_grant_by_hash :: "digest32 \<rightharpoonup> string"
  ms_grant_by_proposal :: "digest32 \<rightharpoonup> string"
  ms_grant_by_decision :: "digest32 \<rightharpoonup> string"
  ms_grant_by_receipt :: "digest32 \<rightharpoonup> string"
  ms_last_trusted_time_ms :: "u64 option"

record memory_grant_store =
  mg_poisoned :: bool
  mg_state :: memory_grant_state

text \<open>\<open>MemoryGrantStore::default()\<close>.\<close>

definition empty_state :: memory_grant_state where
  "empty_state = \<lparr>ms_grants = Map.empty, ms_grant_by_hash = Map.empty,
     ms_grant_by_proposal = Map.empty, ms_grant_by_decision = Map.empty,
     ms_grant_by_receipt = Map.empty, ms_last_trusted_time_ms = None\<rparr>"

definition memory_default :: memory_grant_store where
  "memory_default = \<lparr>mg_poisoned = False, mg_state = empty_state\<rparr>"

text \<open>Run a critical section; a section that fails before its first write keeps the state.\<close>

definition with_lock ::
    "memory_grant_store \<Rightarrow> (memory_grant_state \<Rightarrow> (protocol_error + 'a) \<times> memory_grant_state)
     \<Rightarrow> (protocol_error + 'a) \<times> memory_grant_store" where
  "with_lock s section =
     (if mg_poisoned s then (Inl StoreUnavailable, s)
      else (case section (mg_state s) of (r, st) \<Rightarrow> (r, s\<lparr>mg_state := st\<rparr>)))"

definition keep_on_error ::
    "'s \<Rightarrow> protocol_error + ('a \<times> 's) \<Rightarrow> (protocol_error + 'a) \<times> 's" where
  "keep_on_error st r = (case r of Inl e \<Rightarrow> (Inl e, st) | Inr (x, st') \<Rightarrow> (Inr x, st'))"

section \<open>Registration\<close>

definition register_locked ::
    "task_commitment \<Rightarrow> effect_proposal \<Rightarrow> authorization_decision \<Rightarrow> execution_grant
     \<Rightarrow> verified_authorization \<Rightarrow> memory_grant_state
     \<Rightarrow> protocol_error + (digest32 \<times> memory_grant_state)" where
  "register_locked commitment proposal decision grant verified st =
     rbind (ensure (ms_grants st (eg_grant_id grant) = None) DuplicateGrant) (\<lambda>_.
     rbind (ensure (ms_grant_by_decision st (va_decision_hash verified) = None)
              DecisionAlreadyGranted) (\<lambda>_.
     rbind (ensure (ms_grant_by_proposal st (va_proposal_hash verified) = None)
              ProposalAlreadyGranted) (\<lambda>_.
     Inr (va_grant_hash verified,
       st\<lparr>ms_grants := (ms_grants st)(eg_grant_id grant \<mapsto>
            \<lparr>sg_hash = va_grant_hash verified, sg_commitment = commitment,
             sg_proposal = proposal, sg_decision = decision, sg_grant = grant,
             sg_claim = None, sg_receipt = None, sg_reconciliations = []\<rparr>),
          ms_grant_by_hash := (ms_grant_by_hash st)(va_grant_hash verified \<mapsto> eg_grant_id grant),
          ms_grant_by_decision :=
            (ms_grant_by_decision st)(va_decision_hash verified \<mapsto> eg_grant_id grant),
          ms_grant_by_proposal :=
            (ms_grant_by_proposal st)(va_proposal_hash verified \<mapsto> eg_grant_id grant)\<rparr>))))"

definition memory_register ::
    "lib \<Rightarrow> task_commitment \<Rightarrow> effect_proposal \<Rightarrow> authorization_decision \<Rightarrow> execution_grant
     \<Rightarrow> memory_grant_store \<Rightarrow> (protocol_error + digest32) \<times> memory_grant_store" where
  "memory_register L commitment proposal decision grant s =
     (case verify_authorization L commitment proposal decision grant of
        Inl e \<Rightarrow> (Inl e, s)
      | Inr verified \<Rightarrow>
          with_lock s (\<lambda>st. keep_on_error st
            (register_locked commitment proposal decision grant verified st)))"

section \<open>Claim\<close>

text \<open>The checks between the clock update and the write of the claim.\<close>

definition claim_checks ::
    "lib \<Rightarrow> execution_grant \<Rightarrow> grant_claim_request \<Rightarrow> u64 \<Rightarrow> digest32 \<Rightarrow> memory_grant_state
     \<Rightarrow> protocol_error + stored_grant" where
  "claim_checks L grant request now_ms supplied_hash st =
     rbind (ok_or (ms_grants st (eg_grant_id grant)) UnknownGrant) (\<lambda>stored.
     rbind (ensure (\<not> sg_hash stored \<noteq> supplied_hash) (ChainMismatch ''stored grant'')) (\<lambda>_.
     rbind (verify_authorization L (sg_commitment stored) (sg_proposal stored)
              (sg_decision stored) (sg_grant stored)) (\<lambda>verified.
     rbind (checks
       [ensure (\<not> va_grant_hash verified \<noteq> sg_hash stored) (ChainMismatch ''registered authorization''),
        ensure (\<not> gr_expected_audience request \<noteq> eg_audience (sg_grant stored)) AudienceMismatch,
        ensure (\<not> (gr_observed_policy_epoch request \<noteq> tc_policy_epoch (sg_commitment stored)
                  \<or> gr_observed_configuration_epoch request
                      \<noteq> tc_configuration_epoch (sg_commitment stored))) StaleAuthority,
        ensure (\<not> gr_observed_pre_state_digest request \<noteq> ep_pre_state_digest (sg_proposal stored))
          StalePreState,
        ensure (\<not> gr_observed_resource_claim_digest request
                  \<noteq> ep_resource_claim_digest (sg_proposal stored)) StaleResourceClaim,
        ensure (\<not> gr_revoked request) GrantRevoked,
        ensure (\<not> now_ms < eg_not_before_ms (sg_grant stored)) GrantNotYetValid,
        ensure (\<not> now_ms \<ge> eg_expires_at_ms (sg_grant stored)) GrantExpired,
        ensure (sg_claim stored = None) GrantAlreadyClaimed]) (\<lambda>_.
     Inr stored))))"

definition claim_locked ::
    "lib \<Rightarrow> execution_grant \<Rightarrow> grant_claim_request \<Rightarrow> u64 \<Rightarrow> digest32 \<Rightarrow> memory_grant_state
     \<Rightarrow> (protocol_error + grant_claim) \<times> memory_grant_state" where
  "claim_locked L grant request now_ms supplied_hash st0 =
     (if (case ms_last_trusted_time_ms st0 of None \<Rightarrow> False | Some last_seen \<Rightarrow> now_ms < last_seen)
      then (Inl ClockRollback, st0)
      else
        let st = st0\<lparr>ms_last_trusted_time_ms := Some now_ms\<rparr> in
        keep_on_error st
          (rbind (claim_checks L grant request now_ms supplied_hash st) (\<lambda>stored.
           let claim = \<lparr>gc_grant_id = eg_grant_id grant, gc_grant_hash = sg_hash stored,
                        gc_attempt_id = gr_attempt_id request, gc_claimed_at_ms = now_ms\<rparr> in
           Inr (claim, st\<lparr>ms_grants :=
             (ms_grants st)(eg_grant_id grant \<mapsto> stored\<lparr>sg_claim := Some claim\<rparr>)\<rparr>))))"

definition memory_claim ::
    "lib \<Rightarrow> execution_grant \<Rightarrow> grant_claim_request \<Rightarrow> u64 option
     \<Rightarrow> memory_grant_store \<Rightarrow> (protocol_error + grant_claim) \<times> memory_grant_store" where
  "memory_claim L grant request now s =
     (case rbind (gr_validate request) (\<lambda>_.
           rbind (ok_or now ClockUnavailable) (\<lambda>now_ms.
           rbind (validate_safe_integer ''trusted now_ms'' now_ms) (\<lambda>_.
           rbind (eg_commitment L grant) (\<lambda>supplied_hash.
           Inr (now_ms, supplied_hash))))) of
        Inl e \<Rightarrow> (Inl e, s)
      | Inr (now_ms, supplied_hash) \<Rightarrow>
          with_lock s (claim_locked L grant request now_ms supplied_hash))"

section \<open>Receipts\<close>

definition record_receipt_locked ::
    "lib \<Rightarrow> effect_receipt \<Rightarrow> memory_grant_state
     \<Rightarrow> protocol_error + (digest32 \<times> memory_grant_state)" where
  "record_receipt_locked L receipt st =
     rbind (ok_or (ms_grant_by_hash st (er_grant_hash receipt)) UnknownGrant) (\<lambda>grant_id.
     rbind (ok_or (ms_grants st grant_id) UnknownGrant) (\<lambda>stored.
     rbind (ok_or (sg_claim stored) ReceiptWithoutClaim) (\<lambda>claim.
     rbind (ensure (\<not> (er_attempt_id receipt \<noteq> gc_attempt_id claim
                      \<or> er_claimed_at_ms receipt \<noteq> gc_claimed_at_ms claim))
              ReceiptClaimMismatch) (\<lambda>_.
     rbind (verify_chain L (sg_commitment stored) (sg_proposal stored) (sg_decision stored)
              (sg_grant stored) receipt) (\<lambda>verified.
     case sg_receipt stored of
       Some existing \<Rightarrow>
         rbind (er_commitment L existing) (\<lambda>existing_hash.
         if existing_hash = vc_receipt_hash verified then Inr (vc_receipt_hash verified, st)
         else Inl ReceiptAlreadyRecorded)
     | None \<Rightarrow>
         Inr (vc_receipt_hash verified,
           st\<lparr>ms_grants := (ms_grants st)(grant_id \<mapsto> stored\<lparr>sg_receipt := Some receipt\<rparr>),
              ms_grant_by_receipt :=
                (ms_grant_by_receipt st)(vc_receipt_hash verified \<mapsto> grant_id)\<rparr>))))))"

definition memory_record_receipt ::
    "lib \<Rightarrow> effect_receipt \<Rightarrow> memory_grant_store
     \<Rightarrow> (protocol_error + digest32) \<times> memory_grant_store" where
  "memory_record_receipt L receipt s =
     (case er_validate receipt of
        Inl e \<Rightarrow> (Inl e, s)
      | Inr _ \<Rightarrow> with_lock s (\<lambda>st. keep_on_error st (record_receipt_locked L receipt st)))"

section \<open>Reconciliation\<close>

definition append_reconciliation_locked ::
    "lib \<Rightarrow> reconciliation_record \<Rightarrow> memory_grant_state
     \<Rightarrow> protocol_error + (digest32 \<times> memory_grant_state)" where
  "append_reconciliation_locked L record st =
     rbind (ok_or (ms_grant_by_receipt st (rr_receipt_hash record)) UnknownReceipt) (\<lambda>grant_id.
     rbind (ok_or (ms_grants st grant_id) UnknownGrant) (\<lambda>stored.
     rbind (ok_or (sg_receipt stored) UnknownReceipt) (\<lambda>receipt.
     if rr_sequence record \<le> of_nat (length (sg_reconciliations stored)) then
       (let index = unat (rr_sequence record - 1) in
        rbind (if index < length (sg_reconciliations stored)
               then Inr (sg_reconciliations stored ! index) else Inl InvalidSequence) (\<lambda>existing.
        rbind (rr_commitment L existing) (\<lambda>existing_hash.
        rbind (rr_commitment L record) (\<lambda>record_hash.
        if existing_hash = record_hash then Inr (existing_hash, st)
        else Inl ReconciliationFork))))
     else
       rbind (ensure (\<not> length (sg_reconciliations stored) \<ge> MAX_RECONCILIATION_RECORDS)
                (ResourceLimit ''reconciliation records'')) (\<lambda>_.
       rbind (ensure (\<not> list_ex (\<lambda>existing. rr_reconciliation_id existing = rr_reconciliation_id record)
                          (sg_reconciliations stored))
                (DuplicateIdentifier ''reconciliation_id'')) (\<lambda>_.
       rbind (verify_reconciliation L receipt (last_record (sg_reconciliations stored)) record) (\<lambda>hash.
       Inr (hash,
         st\<lparr>ms_grants := (ms_grants st)(grant_id \<mapsto>
              stored\<lparr>sg_reconciliations := sg_reconciliations stored @ [record]\<rparr>)\<rparr>)))))))"

definition memory_append_reconciliation ::
    "lib \<Rightarrow> reconciliation_record \<Rightarrow> memory_grant_store
     \<Rightarrow> (protocol_error + digest32) \<times> memory_grant_store" where
  "memory_append_reconciliation L record s =
     (case rr_validate record of
        Inl e \<Rightarrow> (Inl e, s)
      | Inr _ \<Rightarrow> with_lock s (\<lambda>st. keep_on_error st (append_reconciliation_locked L record st)))"

section \<open>Operations as one step function\<close>

datatype mem_call =
  CallRegister task_commitment effect_proposal authorization_decision execution_grant
| CallClaim execution_grant grant_claim_request "u64 option"
| CallReceipt effect_receipt
| CallReconcile reconciliation_record

datatype mem_return =
  ReturnDigest "protocol_error + digest32"
| ReturnClaim "protocol_error + grant_claim"

fun mem_step :: "lib \<Rightarrow> mem_call \<Rightarrow> memory_grant_store \<Rightarrow> mem_return \<times> memory_grant_store" where
  "mem_step L (CallRegister c p d g) s =
     (case memory_register L c p d g s of (r, s') \<Rightarrow> (ReturnDigest r, s'))"
| "mem_step L (CallClaim g q now) s =
     (case memory_claim L g q now s of (r, s') \<Rightarrow> (ReturnClaim r, s'))"
| "mem_step L (CallReceipt r) s =
     (case memory_record_receipt L r s of (x, s') \<Rightarrow> (ReturnDigest x, s'))"
| "mem_step L (CallReconcile r) s =
     (case memory_append_reconciliation L r s of (x, s') \<Rightarrow> (ReturnDigest x, s'))"

inductive mem_reachable :: "lib \<Rightarrow> memory_grant_store \<Rightarrow> bool" for L where
  mem_start: "mem_reachable L memory_default"
| mem_next: "mem_reachable L s \<Longrightarrow> mem_reachable L (snd (mem_step L call s))"

end
