(* ===== verification/Memory_Invariant.thy ===== *)
theory Memory_Invariant
  imports Memory_Store
begin

text \<open>
  The invariant of the memory store, its preservation by every operation, and what an
  operation may change. Each operation has a lemma that states the effect of its success;
  the interpretation at the end makes the store an instance of the store contract, so that
  the contract's lemmas hold for every sequence of calls.
\<close>

section \<open>Invariant\<close>

text \<open>A stored grant is authorized; its claim, receipt and history fit each other.\<close>

definition claim_fits :: "stored_grant \<Rightarrow> bool" where
  "claim_fits sg \<longleftrightarrow>
     (\<forall>c. sg_claim sg = Some c \<longrightarrow>
        gc_grant_id c = eg_grant_id (sg_grant sg) \<and> gc_grant_hash c = sg_hash sg
        \<and> eg_not_before_ms (sg_grant sg) \<le> gc_claimed_at_ms c
        \<and> gc_claimed_at_ms c < eg_expires_at_ms (sg_grant sg))"

definition receipt_fits :: "lib \<Rightarrow> stored_grant \<Rightarrow> bool" where
  "receipt_fits L sg \<longleftrightarrow>
     (\<forall>r. sg_receipt sg = Some r \<longrightarrow>
        (\<exists>c. sg_claim sg = Some c \<and> er_attempt_id r = gc_attempt_id c
             \<and> er_claimed_at_ms r = gc_claimed_at_ms c)
        \<and> (\<exists>v. verify_chain L (sg_commitment sg) (sg_proposal sg) (sg_decision sg) (sg_grant sg) r
                = Inr v)
        \<and> history_ok L r (sg_reconciliations sg))
     \<and> (sg_receipt sg = None \<longrightarrow> sg_reconciliations sg = [])
     \<and> length (sg_reconciliations sg) \<le> MAX_RECONCILIATION_RECORDS"

definition stored_ok :: "lib \<Rightarrow> stored_grant \<Rightarrow> bool" where
  "stored_ok L sg \<longleftrightarrow>
     verify_grant L (sg_commitment sg) (sg_proposal sg) (sg_decision sg) (sg_grant sg)
       = Inr (sg_hash sg)
     \<and> claim_fits sg \<and> receipt_fits L sg"

text \<open>The indexes point to stored grants, and every stored grant holds its two index entries.\<close>

definition indexes_ok :: "lib \<Rightarrow> memory_grant_state \<Rightarrow> bool" where
  "indexes_ok L st \<longleftrightarrow>
     (\<forall>h i. ms_grant_by_hash st h = Some i \<longrightarrow>
        (\<exists>sg. ms_grants st i = Some sg \<and> sg_hash sg = h))
     \<and> (\<forall>h i. ms_grant_by_proposal st h = Some i \<longleftrightarrow>
        (\<exists>sg. ms_grants st i = Some sg \<and> eg_proposal_hash (sg_grant sg) = h))
     \<and> (\<forall>h i. ms_grant_by_decision st h = Some i \<longleftrightarrow>
        (\<exists>sg. ms_grants st i = Some sg \<and> eg_decision_hash (sg_grant sg) = h))
     \<and> (\<forall>h i. ms_grant_by_receipt st h = Some i \<longrightarrow>
        (\<exists>sg r. ms_grants st i = Some sg \<and> sg_receipt sg = Some r \<and> er_commitment L r = Inr h))"

text \<open>Keys are grant identifiers, and no claim is later than the last trusted time.\<close>

definition grants_ok :: "lib \<Rightarrow> memory_grant_state \<Rightarrow> bool" where
  "grants_ok L st \<longleftrightarrow>
     (\<forall>i sg. ms_grants st i = Some sg \<longrightarrow>
        eg_grant_id (sg_grant sg) = i \<and> stored_ok L sg
        \<and> (\<forall>c. sg_claim sg = Some c \<longrightarrow>
             (\<exists>t. ms_last_trusted_time_ms st = Some t \<and> gc_claimed_at_ms c \<le> t)))"

definition store_wf :: "lib \<Rightarrow> memory_grant_state \<Rightarrow> bool" where
  "store_wf L st \<longleftrightarrow> grants_ok L st \<and> indexes_ok L st"

definition same_chain :: "stored_grant \<Rightarrow> stored_grant \<Rightarrow> bool" where
  "same_chain a b \<longleftrightarrow>
     sg_hash b = sg_hash a \<and> sg_commitment b = sg_commitment a \<and> sg_proposal b = sg_proposal a
     \<and> sg_decision b = sg_decision a \<and> sg_grant b = sg_grant a"

text \<open>What later states keep: the chain, the claim, the receipt, a prefix of the history.\<close>

definition stored_extends :: "stored_grant \<Rightarrow> stored_grant \<Rightarrow> bool" where
  "stored_extends a b \<longleftrightarrow>
     same_chain a b
     \<and> (\<forall>c. sg_claim a = Some c \<longrightarrow> sg_claim b = Some c)
     \<and> (\<forall>r. sg_receipt a = Some r \<longrightarrow> sg_receipt b = Some r)
     \<and> (\<exists>rs. sg_reconciliations b = sg_reconciliations a @ rs)"

definition clock_extends :: "u64 option \<Rightarrow> u64 option \<Rightarrow> bool" where
  "clock_extends a b \<longleftrightarrow> (\<forall>t. a = Some t \<longrightarrow> (\<exists>t'. b = Some t' \<and> t \<le> t'))"

definition store_extends :: "memory_grant_state \<Rightarrow> memory_grant_state \<Rightarrow> bool" where
  "store_extends st st' \<longleftrightarrow>
     (\<forall>i sg. ms_grants st i = Some sg \<longrightarrow>
        (\<exists>sg'. ms_grants st' i = Some sg' \<and> stored_extends sg sg'))
     \<and> clock_extends (ms_last_trusted_time_ms st) (ms_last_trusted_time_ms st')"

lemma same_chain_refl [simp]: "same_chain a a"
  by (simp add: same_chain_def)

lemma stored_extends_refl [simp]: "stored_extends a a"
  by (simp add: stored_extends_def)

lemma clock_extends_refl [simp]: "clock_extends a a"
  by (simp add: clock_extends_def)

lemma stored_extends_trans: "stored_extends a b \<Longrightarrow> stored_extends b c \<Longrightarrow> stored_extends a c"
  by (auto simp: stored_extends_def same_chain_def)

lemma store_extends_refl [simp]: "store_extends st st"
  by (simp add: store_extends_def)

lemma store_extends_trans: "store_extends s t \<Longrightarrow> store_extends t u \<Longrightarrow> store_extends s u"
  unfolding store_extends_def clock_extends_def by (meson order_trans stored_extends_trans)

lemma store_wf_empty: "store_wf L empty_state"
  by (simp add: store_wf_def grants_ok_def indexes_ok_def empty_state_def)

lemma store_wfD:
  assumes "store_wf L st" and "ms_grants st i = Some sg"
  shows "stored_ok L sg" and "eg_grant_id (sg_grant sg) = i"
    and "sg_claim sg = Some c \<Longrightarrow>
         \<exists>t. ms_last_trusted_time_ms st = Some t \<and> gc_claimed_at_ms c \<le> t"
  using assms by (auto simp: store_wf_def grants_ok_def)

section \<open>Updating one stored grant\<close>

text \<open>An update that keeps the chain and the identity keeps the invariant.\<close>

lemma store_wf_update:
  assumes "store_wf L st" and "ms_grants st i = Some sg"
    and "stored_extends sg sg'" and "stored_ok L sg'"
    and "\<And>c. sg_claim sg' = Some c \<Longrightarrow>
         \<exists>t. ms_last_trusted_time_ms st = Some t \<and> gc_claimed_at_ms c \<le> t"
  shows "store_wf L (st\<lparr>ms_grants := (ms_grants st)(i \<mapsto> sg')\<rparr>)"
proof -
  have chain: "same_chain sg sg'" and rc: "\<And>r. sg_receipt sg = Some r \<Longrightarrow> sg_receipt sg' = Some r"
    using assms(3) by (auto simp: stored_extends_def)
  have "grants_ok L (st\<lparr>ms_grants := (ms_grants st)(i \<mapsto> sg')\<rparr>)"
    using assms(1,2,4,5) chain by (auto simp: store_wf_def grants_ok_def same_chain_def)
  moreover have "indexes_ok L (st\<lparr>ms_grants := (ms_grants st)(i \<mapsto> sg')\<rparr>)"
    using assms(1,2) chain rc
    unfolding store_wf_def indexes_ok_def same_chain_def by (auto 0 4)
  ultimately show ?thesis by (simp add: store_wf_def)
qed

lemma store_extends_update:
  assumes "ms_grants st i = Some sg" and "stored_extends sg sg'"
  shows "store_extends st (st\<lparr>ms_grants := (ms_grants st)(i \<mapsto> sg')\<rparr>)"
  using assms by (auto simp: store_extends_def)

text \<open>The clock only moves forward.\<close>

lemma store_wf_clock:
  assumes "store_wf L st" and "clock_extends (ms_last_trusted_time_ms st) (Some t)"
  shows "store_wf L (st\<lparr>ms_last_trusted_time_ms := Some t\<rparr>)"
  using assms unfolding store_wf_def grants_ok_def indexes_ok_def clock_extends_def
  by (auto 4 4 intro: order_trans)

lemma store_extends_clock:
  "clock_extends (ms_last_trusted_time_ms st) (Some t) \<Longrightarrow>
   store_extends st (st\<lparr>ms_last_trusted_time_ms := Some t\<rparr>)"
  by (simp add: store_extends_def)

section \<open>Registration\<close>

definition fresh_grant ::
    "digest32 \<Rightarrow> task_commitment \<Rightarrow> effect_proposal \<Rightarrow> authorization_decision \<Rightarrow> execution_grant
     \<Rightarrow> stored_grant" where
  "fresh_grant h c p d g =
     \<lparr>sg_hash = h, sg_commitment = c, sg_proposal = p, sg_decision = d, sg_grant = g,
      sg_claim = None, sg_receipt = None, sg_reconciliations = []\<rparr>"

lemma register_locked_ok:
  "register_locked c p d g v st = Inr (h, st') \<longleftrightarrow>
     ms_grants st (eg_grant_id g) = None
     \<and> ms_grant_by_decision st (va_decision_hash v) = None
     \<and> ms_grant_by_proposal st (va_proposal_hash v) = None
     \<and> h = va_grant_hash v
     \<and> st' = st\<lparr>ms_grants := (ms_grants st)(eg_grant_id g \<mapsto> fresh_grant h c p d g),
                ms_grant_by_hash := (ms_grant_by_hash st)(h \<mapsto> eg_grant_id g),
                ms_grant_by_decision := (ms_grant_by_decision st)(va_decision_hash v \<mapsto> eg_grant_id g),
                ms_grant_by_proposal := (ms_grant_by_proposal st)(va_proposal_hash v \<mapsto> eg_grant_id g)\<rparr>"
  by (auto simp: register_locked_def fresh_grant_def ok_iff)

lemma register_wf:
  assumes "store_wf L st" and "verify_authorization L c p d g = Inr v"
    and "register_locked c p d g v st = Inr (h, st')"
  shows "store_wf L st'"
proof -
  have ok: "stored_ok L (fresh_grant (va_grant_hash v) c p d g)"
    using assms(2)
    by (simp add: stored_ok_def fresh_grant_def claim_fits_def receipt_fits_def verify_grant_def
        MAX_RECONCILIATION_RECORDS_def)
  have keys: "eg_proposal_hash g = va_proposal_hash v" "eg_decision_hash g = va_decision_hash v"
    using assms(2) by (simp_all add: verify_authorization_ok)
  have "grants_ok L st'"
    using assms(1,3) ok
    by (auto simp: store_wf_def grants_ok_def register_locked_ok) (simp_all add: fresh_grant_def)
  moreover have "eg_proposal_hash (sg_grant sg) \<noteq> va_proposal_hash v"
      "eg_decision_hash (sg_grant sg) \<noteq> va_decision_hash v" if "ms_grants st i = Some sg" for i sg
    using assms(1,3) that unfolding store_wf_def indexes_ok_def register_locked_ok
    by (metis option.distinct(1))+
  then have "indexes_ok L st'"
    using assms(1,3) keys
    unfolding store_wf_def indexes_ok_def register_locked_ok
    by (auto 0 4 simp: fresh_grant_def)
  ultimately show ?thesis by (simp add: store_wf_def)
qed

lemma register_extends:
  "register_locked c p d g v st = Inr (h, st') \<Longrightarrow> store_extends st st'"
  by (auto simp: register_locked_ok store_extends_def)

section \<open>Claims\<close>

lemma claim_checks_ok:
  "claim_checks L g req now h st = Inr sg \<longleftrightarrow>
     ms_grants st (eg_grant_id g) = Some sg \<and> sg_hash sg = h
     \<and> verify_grant L (sg_commitment sg) (sg_proposal sg) (sg_decision sg) (sg_grant sg)
         = Inr (sg_hash sg)
     \<and> gr_expected_audience req = eg_audience (sg_grant sg)
     \<and> gr_observed_policy_epoch req = tc_policy_epoch (sg_commitment sg)
     \<and> gr_observed_configuration_epoch req = tc_configuration_epoch (sg_commitment sg)
     \<and> gr_observed_pre_state_digest req = ep_pre_state_digest (sg_proposal sg)
     \<and> gr_observed_resource_claim_digest req = ep_resource_claim_digest (sg_proposal sg)
     \<and> \<not> gr_revoked req
     \<and> eg_not_before_ms (sg_grant sg) \<le> now \<and> now < eg_expires_at_ms (sg_grant sg)
     \<and> sg_claim sg = None"
  unfolding claim_checks_def verify_grant_def
  by (auto simp: rbind_ok ensure_ok ok_or_ok checks_Cons_ok not_less not_le)

lemma claim_checks_clock [simp]:
  "claim_checks L g req now h (st\<lparr>ms_last_trusted_time_ms := t\<rparr>) = claim_checks L g req now h st"
  by (simp add: claim_checks_def)

definition claim_of :: "execution_grant \<Rightarrow> grant_claim_request \<Rightarrow> u64 \<Rightarrow> digest32 \<Rightarrow> grant_claim" where
  "claim_of g req now h =
     \<lparr>gc_grant_id = eg_grant_id g, gc_grant_hash = h, gc_attempt_id = gr_attempt_id req,
      gc_claimed_at_ms = now\<rparr>"

text \<open>A claim either leaves the store alone, or only moves the clock, or succeeds.\<close>

lemma claim_locked_cases:
  assumes "claim_locked L g req now h st = (r, st')"
  obtains (rollback) "\<not> clock_extends (ms_last_trusted_time_ms st) (Some now)"
        and "r = Inl ClockRollback" and "st' = st"
    | (failed) e where "r = Inl e" and "clock_extends (ms_last_trusted_time_ms st) (Some now)"
        and "claim_checks L g req now h st = Inl e"
        and "st' = st\<lparr>ms_last_trusted_time_ms := Some now\<rparr>"
    | (claimed) sg where "r = Inr (claim_of g req now h)"
        and "clock_extends (ms_last_trusted_time_ms st) (Some now)"
        and "claim_checks L g req now h st = Inr sg"
        and "st' = st\<lparr>ms_last_trusted_time_ms := Some now,
                      ms_grants := (ms_grants st)(eg_grant_id g \<mapsto>
                        sg\<lparr>sg_claim := Some (claim_of g req now h)\<rparr>)\<rparr>"
proof (cases "clock_extends (ms_last_trusted_time_ms st) (Some now)")
  case False
  then show ?thesis
    using assms rollback by (auto simp: claim_locked_def clock_extends_def not_le)
next
  case clock: True
  let ?st = "st\<lparr>ms_last_trusted_time_ms := Some now\<rparr>"
  from clock have unfolded: "claim_locked L g req now h st =
      keep_on_error ?st (rbind (claim_checks L g req now h ?st) (\<lambda>stored.
        Inr (claim_of g req now (sg_hash stored),
          ?st\<lparr>ms_grants := (ms_grants ?st)(eg_grant_id g \<mapsto>
            stored\<lparr>sg_claim := Some (claim_of g req now (sg_hash stored))\<rparr>)\<rparr>)))"
    by (auto simp: claim_locked_def clock_extends_def claim_of_def Let_def not_less
        split: option.splits)
  show ?thesis
  proof (cases "claim_checks L g req now h st")
    case (Inl e)
    with assms unfolded clock show ?thesis by (intro failed [of e]) (simp_all add: keep_on_error_def)
  next
    case (Inr sg)
    then have "sg_hash sg = h" by (simp add: claim_checks_ok)
    with Inr assms unfolded clock show ?thesis
      by (intro claimed [of sg]) (simp_all add: keep_on_error_def)
  qed
qed

lemma claim_locked_wf:
  assumes wf: "store_wf L st" and step: "claim_locked L g req now h st = (r, st')"
  shows "store_wf L st'"
  using step
proof (cases rule: claim_locked_cases)
  case rollback
  with wf show ?thesis by simp
next
  case failed
  with store_wf_clock [OF wf] show ?thesis by simp
next
  case (claimed sg)
  let ?st = "st\<lparr>ms_last_trusted_time_ms := Some now\<rparr>"
  let ?sg = "sg\<lparr>sg_claim := Some (claim_of g req now h)\<rparr>"
  have sg: "ms_grants ?st (eg_grant_id g) = Some sg"
    using claimed(3) by (simp add: claim_checks_ok)
  note ok = store_wfD [OF store_wf_clock [OF wf claimed(2)] sg]
  have "stored_ok L ?sg"
    using ok(1,2) claimed(3)
    by (auto simp: stored_ok_def claim_fits_def receipt_fits_def claim_of_def claim_checks_ok)
  moreover have "stored_extends sg ?sg"
    using claimed(3) by (auto simp: stored_extends_def same_chain_def claim_checks_ok)
  moreover have "\<exists>t. ms_last_trusted_time_ms ?st = Some t \<and> gc_claimed_at_ms c \<le> t"
    if "sg_claim ?sg = Some c" for c
    using that by (auto simp: claim_of_def)
  ultimately show ?thesis
    using store_wf_update [OF store_wf_clock [OF wf claimed(2)] sg, of ?sg] claimed(4) by simp
qed

lemma claim_locked_extends:
  assumes "claim_locked L g req now h st = (r, st')"
  shows "store_extends st st'"
  using assms
proof (cases rule: claim_locked_cases)
  case (claimed sg)
  then have "ms_grants st (eg_grant_id g) = Some sg" "sg_claim sg = None"
    by (simp_all add: claim_checks_ok)
  with claimed(2,4) show ?thesis
    by (auto simp: store_extends_def stored_extends_def same_chain_def)
qed (auto intro: store_extends_clock)

section \<open>Receipts\<close>

text \<open>A receipt that the store accepts: it belongs to a claimed grant and completes its chain.\<close>

definition receipt_accepted :: "lib \<Rightarrow> effect_receipt \<Rightarrow> digest32 \<Rightarrow> stored_grant \<Rightarrow> bool" where
  "receipt_accepted L r h sg \<longleftrightarrow>
     (\<exists>c. sg_claim sg = Some c \<and> er_attempt_id r = gc_attempt_id c
          \<and> er_claimed_at_ms r = gc_claimed_at_ms c)
     \<and> (\<exists>v. verify_chain L (sg_commitment sg) (sg_proposal sg) (sg_decision sg) (sg_grant sg) r
             = Inr v \<and> vc_receipt_hash v = h)"

lemma record_receipt_locked_ok:
  "record_receipt_locked L r st = Inr (h, st') \<longleftrightarrow>
     (\<exists>i sg. ms_grant_by_hash st (er_grant_hash r) = Some i \<and> ms_grants st i = Some sg
        \<and> receipt_accepted L r h sg
        \<and> (case sg_receipt sg of
             Some x \<Rightarrow> er_commitment L x = Inr h \<and> st' = st
           | None \<Rightarrow>
               st' = st\<lparr>ms_grants := (ms_grants st)(i \<mapsto> sg\<lparr>sg_receipt := Some r\<rparr>),
                        ms_grant_by_receipt := (ms_grant_by_receipt st)(h \<mapsto> i)\<rparr>))"
proof (cases "Option.bind (ms_grant_by_hash st (er_grant_hash r)) (ms_grants st)")
  case None
  then show ?thesis
    by (cases "ms_grant_by_hash st (er_grant_hash r)") (auto simp: record_receipt_locked_def)
next
  case (Some sg)
  then obtain i where "ms_grant_by_hash st (er_grant_hash r) = Some i" "ms_grants st i = Some sg"
    by (auto simp: bind_eq_Some_conv)
  then show ?thesis
    by (cases "sg_receipt sg")
       (auto simp: record_receipt_locked_def receipt_accepted_def rbind_ok ensure_ok ok_or_ok
         simp del: verify_chain_ok)
qed

lemma receipt_accepted_fits:
  assumes "stored_ok L sg" and "sg_receipt sg = None" and "receipt_accepted L r h sg"
  shows "stored_ok L (sg\<lparr>sg_receipt := Some r\<rparr>)"
  using assms by (auto simp: stored_ok_def claim_fits_def receipt_fits_def receipt_accepted_def)

lemma store_wf_receipt_index:
  assumes "store_wf L st" and "ms_grants st i = Some sg" and "sg_receipt sg = Some r"
    and "er_commitment L r = Inr h"
  shows "store_wf L (st\<lparr>ms_grant_by_receipt := (ms_grant_by_receipt st)(h \<mapsto> i)\<rparr>)"
  using assms by (auto simp: store_wf_def grants_ok_def indexes_ok_def)

lemma record_receipt_locked_step:
  assumes wf: "store_wf L st" and step: "record_receipt_locked L r st = Inr (h, st')"
  shows "store_wf L st'" and "store_extends st st'"
proof -
  from step obtain i sg where sg: "ms_grants st i = Some sg" and acc: "receipt_accepted L r h sg"
    and res: "case sg_receipt sg of Some x \<Rightarrow> er_commitment L x = Inr h \<and> st' = st
      | None \<Rightarrow> st' = st\<lparr>ms_grants := (ms_grants st)(i \<mapsto> sg\<lparr>sg_receipt := Some r\<rparr>),
                          ms_grant_by_receipt := (ms_grant_by_receipt st)(h \<mapsto> i)\<rparr>"
    by (auto simp: record_receipt_locked_ok)
  let ?sg = "sg\<lparr>sg_receipt := Some r\<rparr>"
  note ok = store_wfD [OF wf sg]
  have "store_wf L st' \<and> store_extends st st'"
  proof (cases "sg_receipt sg")
    case (Some x)
    with res wf show ?thesis by simp
  next
    case None
    have ext: "stored_extends sg ?sg"
      using None by (simp add: stored_extends_def same_chain_def)
    have "store_wf L (st\<lparr>ms_grants := (ms_grants st)(i \<mapsto> ?sg)\<rparr>)"
      using store_wf_update [OF wf sg ext receipt_accepted_fits [OF ok(1) None acc]] ok(3) by simp
    moreover have "er_commitment L r = Inr h"
      using acc by (auto simp: receipt_accepted_def verify_chain_ok)
    ultimately have "store_wf L st'"
      using res None store_wf_receipt_index [of L "st\<lparr>ms_grants := (ms_grants st)(i \<mapsto> ?sg)\<rparr>" i ?sg r h]
      by simp
    moreover have "store_extends st st'"
      using store_extends_update [OF sg ext] res None by (simp add: store_extends_def)
    ultimately show ?thesis by simp
  qed
  then show "store_wf L st'" and "store_extends st st'" by simp_all
qed

section \<open>Reconciliation\<close>

text \<open>Sequence numbers of accepted records count from one, so a new record has the next one.\<close>

lemma append_reconciliation_locked_ok:
  "append_reconciliation_locked L x st = Inr (h, st') \<longleftrightarrow>
     (\<exists>i sg r. ms_grant_by_receipt st (rr_receipt_hash x) = Some i \<and> ms_grants st i = Some sg
        \<and> sg_receipt sg = Some r
        \<and> (if rr_sequence x \<le> of_nat (length (sg_reconciliations sg))
           then unat (rr_sequence x - 1) < length (sg_reconciliations sg)
                \<and> rr_commitment L (sg_reconciliations sg ! unat (rr_sequence x - 1)) = Inr h
                \<and> rr_commitment L x = Inr h \<and> st' = st
           else length (sg_reconciliations sg) < MAX_RECONCILIATION_RECORDS
                \<and> rr_reconciliation_id x \<notin> rr_reconciliation_id ` set (sg_reconciliations sg)
                \<and> verify_reconciliation L r (last_record (sg_reconciliations sg)) x = Inr h
                \<and> st' = st\<lparr>ms_grants := (ms_grants st)(i \<mapsto>
                            sg\<lparr>sg_reconciliations := sg_reconciliations sg @ [x]\<rparr>)\<rparr>))"
proof (cases "ms_grant_by_receipt st (rr_receipt_hash x)")
  case (Some i)
  show ?thesis
  proof (cases "Option.bind (ms_grants st i) sg_receipt")
    case None
    with Some show ?thesis
      by (cases "ms_grants st i") (auto simp: append_reconciliation_locked_def)
  next
    case r: (Some r)
    then obtain sg where sg: "ms_grants st i = Some sg" "sg_receipt sg = Some r"
      by (auto simp: bind_eq_Some_conv)
    with Some show ?thesis
      by (cases "rr_sequence x \<le> of_nat (length (sg_reconciliations sg))")
         (auto simp: append_reconciliation_locked_def rbind_ok ensure_ok list_ex_iff Let_def not_le
            image_iff)
  qed
qed (simp add: append_reconciliation_locked_def)

lemma append_reconciliation_locked_step:
  assumes wf: "store_wf L st" and step: "append_reconciliation_locked L x st = Inr (h, st')"
  shows "store_wf L st'" and "store_extends st st'"
proof -
  from step obtain i sg r where sg: "ms_grants st i = Some sg" and r: "sg_receipt sg = Some r"
    and res: "st' = st \<or> (length (sg_reconciliations sg) < MAX_RECONCILIATION_RECORDS
          \<and> rr_reconciliation_id x \<notin> rr_reconciliation_id ` set (sg_reconciliations sg)
          \<and> verify_reconciliation L r (last_record (sg_reconciliations sg)) x = Inr h
          \<and> st' = st\<lparr>ms_grants := (ms_grants st)(i \<mapsto>
                      sg\<lparr>sg_reconciliations := sg_reconciliations sg @ [x]\<rparr>)\<rparr>)"
    unfolding append_reconciliation_locked_ok by (metis (no_types, lifting))
  let ?sg = "sg\<lparr>sg_reconciliations := sg_reconciliations sg @ [x]\<rparr>"
  note ok = store_wfD [OF wf sg]
  have ext: "stored_extends sg ?sg"
    by (simp add: stored_extends_def same_chain_def)
  have "store_wf L st' \<and> store_extends st st'"
  proof (cases "st' = st")
    case True
    with wf show ?thesis by simp
  next
    case False
    with ok(1) res r have "stored_ok L ?sg"
      by (auto simp: stored_ok_def claim_fits_def receipt_fits_def history_ok_snoc)
    from store_wf_update [OF wf sg ext this] ok(3) store_extends_update [OF sg ext] res False
    show ?thesis by simp
  qed
  then show "store_wf L st'" and "store_extends st st'" by simp_all
qed

section \<open>Every operation\<close>

definition mem_invar :: "lib \<Rightarrow> memory_grant_store \<Rightarrow> bool" where
  "mem_invar L s \<longleftrightarrow> store_wf L (mg_state s)"

definition mem_extends :: "memory_grant_store \<Rightarrow> memory_grant_store \<Rightarrow> bool" where
  "mem_extends s t \<longleftrightarrow> store_extends (mg_state s) (mg_state t)"

definition keeps :: "lib \<Rightarrow> memory_grant_store \<Rightarrow> memory_grant_state \<Rightarrow> bool" where
  "keeps L s st' \<longleftrightarrow> store_wf L st' \<and> store_extends (mg_state s) st'"

lemma keeps_refl: "mem_invar L s \<Longrightarrow> keeps L s (mg_state s)"
  by (simp add: keeps_def mem_invar_def)

text \<open>The lock reduces an operation to its critical section.\<close>

lemma with_lock_keeps:
  assumes "mem_invar L s"
    and "\<And>x st'. section (mg_state s) = (x, st') \<Longrightarrow> keeps L s st'"
  shows "keeps L s (mg_state (snd (with_lock s section)))"
  using assms keeps_refl by (auto simp: with_lock_def split: prod.split)

lemma guarded_keeps:
  assumes "mem_invar L s"
    and "\<And>x st'. f (mg_state s) = Inr (x, st') \<Longrightarrow> keeps L s st'"
  shows "keeps L s (mg_state (snd (with_lock s (\<lambda>st. keep_on_error st (f st)))))"
proof (rule with_lock_keeps [OF assms(1)])
  show "keeps L s st'" if "keep_on_error (mg_state s) (f (mg_state s)) = (x, st')" for x st'
    using that assms(2) keeps_refl [OF assms(1)] by (auto simp: keep_on_error_def split: sum.splits)
qed

lemma memory_register_keeps:
  assumes "mem_invar L s"
  shows "keeps L s (mg_state (snd (memory_register L c p d g s)))"
proof (cases "verify_authorization L c p d g")
  case (Inl e)
  with assms show ?thesis by (simp add: memory_register_def keeps_refl)
next
  case (Inr v)
  have "keeps L s (mg_state (snd (with_lock s (\<lambda>st. keep_on_error st (register_locked c p d g v st)))))"
    using assms Inr
    by (intro guarded_keeps)
       (auto simp: keeps_def mem_invar_def intro: register_wf register_extends)
  with Inr show ?thesis by (simp add: memory_register_def)
qed

lemma memory_claim_keeps:
  assumes "mem_invar L s"
  shows "keeps L s (mg_state (snd (memory_claim L g req now s)))"
proof -
  have locked: "keeps L s (mg_state (snd (with_lock s (claim_locked L g req t h))))" for t h
    using assms
    by (intro with_lock_keeps)
       (auto simp: keeps_def mem_invar_def intro: claim_locked_wf claim_locked_extends)
  show ?thesis
    using locked keeps_refl [OF assms]
    by (auto simp: memory_claim_def split: sum.split prod.split)
qed

lemma memory_record_receipt_keeps:
  assumes "mem_invar L s"
  shows "keeps L s (mg_state (snd (memory_record_receipt L r s)))"
proof -
  have "keeps L s (mg_state (snd (with_lock s (\<lambda>st. keep_on_error st (record_receipt_locked L r st)))))"
    using assms
    by (intro guarded_keeps)
       (auto simp: keeps_def mem_invar_def intro: record_receipt_locked_step)
  then show ?thesis
    using keeps_refl [OF assms] by (auto simp: memory_record_receipt_def split: sum.split)
qed

lemma memory_append_reconciliation_keeps:
  assumes "mem_invar L s"
  shows "keeps L s (mg_state (snd (memory_append_reconciliation L x s)))"
proof -
  have "keeps L s (mg_state (snd (with_lock s
      (\<lambda>st. keep_on_error st (append_reconciliation_locked L x st)))))"
    using assms
    by (intro guarded_keeps)
       (auto simp: keeps_def mem_invar_def intro: append_reconciliation_locked_step)
  then show ?thesis
    using keeps_refl [OF assms] by (auto simp: memory_append_reconciliation_def split: sum.split)
qed

lemma mem_step_keeps: "mem_invar L s \<Longrightarrow> keeps L s (mg_state (snd (mem_step L call s)))"
  by (cases call)
     (simp_all add: split_def memory_register_keeps memory_claim_keeps
        memory_record_receipt_keeps memory_append_reconciliation_keeps)

text \<open>The claim that a grant identifier holds, and the claim that a call wins.\<close>

definition claim_holder :: "memory_grant_store \<Rightarrow> string \<Rightarrow> grant_claim option" where
  "claim_holder s i = Option.bind (ms_grants (mg_state s) i) sg_claim"

fun mem_won :: "mem_call \<Rightarrow> mem_return \<Rightarrow> (string \<times> grant_claim) option" where
  "mem_won (CallClaim g req now) (ReturnClaim (Inr c)) = Some (eg_grant_id g, c)"
| "mem_won call r = None"

lemma claim_holder_extends:
  "mem_extends s t \<Longrightarrow> claim_holder s i = Some c \<Longrightarrow> claim_holder t i = Some c"
  by (auto simp: mem_extends_def store_extends_def stored_extends_def claim_holder_def
      bind_eq_Some_conv) metis

lemma memory_claim_ok:
  assumes "memory_claim L g req now s = (Inr c, s')"
  obtains t h sg where "now = Some t" and "t \<le> MAX_SAFE_INTEGER" and "gr_validate req = Inr ()"
    and "eg_commitment L g = Inr h" and "\<not> mg_poisoned s" and "c = claim_of g req t h"
    and "clock_extends (ms_last_trusted_time_ms (mg_state s)) (Some t)"
    and "claim_checks L g req t h (mg_state s) = Inr sg"
    and "ms_grants (mg_state s') =
         (ms_grants (mg_state s))(eg_grant_id g \<mapsto> sg\<lparr>sg_claim := Some c\<rparr>)"
proof -
  from assms obtain t h where pre: "now = Some t" "t \<le> MAX_SAFE_INTEGER" "gr_validate req = Inr ()"
      "eg_commitment L g = Inr h"
    and lock: "with_lock s (claim_locked L g req t h) = (Inr c, s')"
    by (auto simp: memory_claim_def validate_safe_integer_ok rbind_ok ok_or_ok split: sum.splits)
  from lock have "\<not> mg_poisoned s" and st: "claim_locked L g req t h (mg_state s) = (Inr c, mg_state s')"
    by (auto simp: with_lock_def split: if_splits prod.splits)
  from st pre \<open>\<not> mg_poisoned s\<close> that show ?thesis
    by (cases rule: claim_locked_cases) (auto simp: claim_checks_ok)
qed

text \<open>A claim call that wins, by its effect on the holder of the grant identifier.\<close>

lemma memory_claim_holder:
  assumes "memory_claim L g req now s = (Inr c, s')"
  shows "claim_holder s (eg_grant_id g) = None" and "claim_holder s' (eg_grant_id g) = Some c"
  using assms by (auto elim!: memory_claim_ok simp: claim_checks_ok claim_holder_def)

lemma memory_claim_last_time:
  assumes "memory_claim L g req (Some t) s = (Inr c, s')"
  shows "ms_last_trusted_time_ms (mg_state s') = Some t"
proof -
  from assms obtain h where "claim_locked L g req t h (mg_state s) = (Inr c, mg_state s')"
    by (auto simp: memory_claim_def rbind_ok ok_or_ok with_lock_def split: sum.splits if_splits prod.splits)
  then show ?thesis by (cases rule: claim_locked_cases) simp_all
qed

lemma mem_won_call:
  "mem_won call (fst (mem_step L call s)) = Some (i, c) \<longleftrightarrow>
     (\<exists>g req now. call = CallClaim g req now \<and> i = eg_grant_id g
        \<and> fst (memory_claim L g req now s) = Inr c)"
  by (cases call)
     (auto simp: split_def elim!: mem_won.elims split: sum.splits)

lemma mem_won_holder:
  assumes "mem_won call (fst (mem_step L call s)) = Some (i, c)"
  shows "claim_holder s i = None" and "claim_holder (snd (mem_step L call s)) i = Some c"
proof -
  from assms obtain g req now where call: "call = CallClaim g req now" "i = eg_grant_id g"
    and "memory_claim L g req now s = (Inr c, snd (memory_claim L g req now s))"
    unfolding mem_won_call by (metis prod.collapse)
  from memory_claim_holder [OF this(3)] call
  show "claim_holder s i = None" and "claim_holder (snd (mem_step L call s)) i = Some c"
    by (simp_all add: split_def)
qed

interpretation mem: append_only "mem_step L" "mem_invar L" mem_extends for L
  using mem_step_keeps
  by unfold_locales
     (auto simp: keeps_def mem_invar_def mem_extends_def intro: store_extends_trans)

interpretation mem_use: single_use "mem_step L" "mem_invar L" mem_extends claim_holder mem_won for L
  by unfold_locales (auto intro: claim_holder_extends mem_won_holder)

text \<open>A claim that appears in the store was reported by the call that put it there.\<close>

abbreviation claims_in :: "memory_grant_state \<Rightarrow> string \<Rightarrow> grant_claim option" where
  "claims_in st i \<equiv> Option.bind (ms_grants st i) sg_claim"

lemma guarded_holder:
  assumes "\<And>x st'. f (mg_state s) = Inr (x, st') \<Longrightarrow> claims_in st' = claims_in (mg_state s)"
  shows "claim_holder (snd (with_lock s (\<lambda>st. keep_on_error st (f st)))) = claim_holder s"
  using assms
  by (auto simp: with_lock_def keep_on_error_def claim_holder_def fun_eq_iff split: sum.split prod.split)

lemma other_calls_holder:
  "claim_holder (snd (memory_register L c p d g s)) = claim_holder s"
  "claim_holder (snd (memory_record_receipt L r s)) = claim_holder s"
  "claim_holder (snd (memory_append_reconciliation L x s)) = claim_holder s"
proof -
  show "claim_holder (snd (memory_register L c p d g s)) = claim_holder s"
    by (auto simp: memory_register_def split: sum.split intro!: guarded_holder)
       (auto simp: register_locked_ok fresh_grant_def fun_eq_iff)
  show "claim_holder (snd (memory_record_receipt L r s)) = claim_holder s"
    by (auto simp: memory_record_receipt_def split: sum.split intro!: guarded_holder)
       (auto simp: record_receipt_locked_ok fun_eq_iff split: option.splits)
  show "claim_holder (snd (memory_append_reconciliation L x s)) = claim_holder s"
    by (auto simp: memory_append_reconciliation_def split: sum.split intro!: guarded_holder)
       (auto simp: append_reconciliation_locked_ok fun_eq_iff split: if_splits)
qed

lemma claim_call_holder:
  assumes "claim_holder (snd (memory_claim L g req now s)) i = Some c"
  shows "claim_holder s i = Some c
    \<or> i = eg_grant_id g \<and> fst (memory_claim L g req now s) = Inr c"
proof -
  have locked: "claim_holder (snd (with_lock s (claim_locked L g req t h))) i = Some c \<Longrightarrow>
      claim_holder s i = Some c
      \<or> i = eg_grant_id g \<and> fst (with_lock s (claim_locked L g req t h)) = Inr c" for t h
  proof (cases "claim_locked L g req t h (mg_state s)")
    case (Pair r st')
    then show "claim_holder (snd (with_lock s (claim_locked L g req t h))) i = Some c \<Longrightarrow> ?thesis"
      by (cases rule: claim_locked_cases)
         (auto simp: with_lock_def claim_holder_def Pair split: if_splits)
  qed
  with assms show ?thesis
    by (auto simp: memory_claim_def split: sum.splits prod.splits)
qed

lemma mem_only_won:
  "claim_holder (snd (mem_step L call s)) i = Some c \<Longrightarrow>
   claim_holder s i = Some c \<or> mem_won call (fst (mem_step L call s)) = Some (i, c)"
  by (cases call) (auto simp: split_def other_calls_holder dest: claim_call_holder)

interpretation mem_exact: exact_use "mem_step L" "mem_invar L" mem_extends claim_holder mem_won for L
  by unfold_locales (rule mem_only_won)

lemma mem_reachable_invar: "mem_reachable L s \<Longrightarrow> mem_invar L s"
  by (induction rule: mem_reachable.induct)
     (simp_all add: mem.invar_step, simp add: mem_invar_def memory_default_def store_wf_empty)

text \<open>The bundle that a stored grant stands for; the store only holds bundles that verify.\<close>

definition stored_bundle :: "stored_grant \<Rightarrow> transaction_bundle" where
  "stored_bundle sg =
     \<lparr>tb_commitment = sg_commitment sg, tb_proposal = sg_proposal sg, tb_decision = sg_decision sg,
      tb_grant = Some (sg_grant sg), tb_receipt = sg_receipt sg,
      tb_reconciliations = sg_reconciliations sg\<rparr>"

lemma stored_ok_lifecycle: "stored_ok L sg \<Longrightarrow> lifecycle_ok L (stored_bundle sg)"
  by (auto simp: stored_ok_def receipt_fits_def lifecycle_ok_def stored_bundle_def verify_grant_ok
      verify_authorization_ok split: option.splits)

text \<open>Two stored grants are for different proposals and different decisions.\<close>

lemma stored_index:
  assumes "store_wf L st" and "ms_grants st i = Some sg"
  shows "ms_grant_by_proposal st (eg_proposal_hash (sg_grant sg)) = Some i"
    and "ms_grant_by_decision st (eg_decision_hash (sg_grant sg)) = Some i"
  using assms by (auto simp: store_wf_def indexes_ok_def)

lemma stored_injective:
  assumes "store_wf L st" and "ms_grants st i = Some a" and "ms_grants st j = Some b"
    and "eg_proposal_hash (sg_grant a) = eg_proposal_hash (sg_grant b)
         \<or> eg_decision_hash (sg_grant a) = eg_decision_hash (sg_grant b)"
  shows "i = j"
  using stored_index [OF assms(1,2)] stored_index [OF assms(1,3)] assms(4) by auto

section \<open>Success conditions of the operations\<close>

lemma memory_register_ok:
  "(\<exists>s'. memory_register L c p d g s = (Inr h, s')) \<longleftrightarrow>
     \<not> mg_poisoned s \<and> verify_grant L c p d g = Inr h
     \<and> ms_grants (mg_state s) (eg_grant_id g) = None
     \<and> ms_grant_by_decision (mg_state s) (eg_decision_hash g) = None
     \<and> ms_grant_by_proposal (mg_state s) (eg_proposal_hash g) = None"
proof (cases "verify_authorization L c p d g")
  case (Inl e)
  then show ?thesis by (simp add: memory_register_def verify_grant_def)
next
  case (Inr v)
  then have "eg_decision_hash g = va_decision_hash v" "eg_proposal_hash g = va_proposal_hash v"
    by (simp_all add: verify_authorization_ok)
  with Inr show ?thesis
    by (auto simp: memory_register_def with_lock_def verify_grant_def keep_on_error_def
        register_locked_def rbind_ok ensure_ok ensure_def)
qed

lemma memory_claim_success_iff:
  "(\<exists>c s'. memory_claim L g req (Some t) s = (Inr c, s')) \<longleftrightarrow>
     gr_validate req = Inr () \<and> t \<le> MAX_SAFE_INTEGER \<and> \<not> mg_poisoned s
     \<and> clock_extends (ms_last_trusted_time_ms (mg_state s)) (Some t)
     \<and> (\<exists>h sg. eg_commitment L g = Inr h \<and> claim_checks L g req t h (mg_state s) = Inr sg)"
  (is "?lhs \<longleftrightarrow> ?rhs")
proof
  show "?lhs \<Longrightarrow> ?rhs" by (auto elim!: memory_claim_ok)
next
  assume ?rhs
  then obtain h sg where pre: "gr_validate req = Inr ()" "t \<le> MAX_SAFE_INTEGER" "\<not> mg_poisoned s"
      "eg_commitment L g = Inr h"
    and clock: "clock_extends (ms_last_trusted_time_ms (mg_state s)) (Some t)"
    and ok: "claim_checks L g req t h (mg_state s) = Inr sg" by blast
  obtain r st' where step: "claim_locked L g req t h (mg_state s) = (r, st')" by fastforce
  from step have "\<exists>c. r = Inr c"
    using clock ok by (cases rule: claim_locked_cases) simp_all
  with step pre show ?lhs
    by (auto simp: memory_claim_def validate_safe_integer_def with_lock_def)
qed

section \<open>Failures\<close>

lemma guarded_failure:
  "isl (fst (with_lock s (\<lambda>st. keep_on_error st (f st)))) \<Longrightarrow>
   snd (with_lock s (\<lambda>st. keep_on_error st (f st))) = s"
  by (auto simp: with_lock_def keep_on_error_def split: if_splits sum.splits prod.splits)

lemma claim_section_failure:
  assumes "isl (fst (with_lock s (claim_locked L g req t h)))"
  shows "snd (with_lock s (claim_locked L g req t h)) = s
    \<or> (clock_extends (ms_last_trusted_time_ms (mg_state s)) (Some t)
       \<and> snd (with_lock s (claim_locked L g req t h))
           = s\<lparr>mg_state := (mg_state s)\<lparr>ms_last_trusted_time_ms := Some t\<rparr>\<rparr>)"
proof (cases "mg_poisoned s")
  case False
  obtain r st' where step: "claim_locked L g req t h (mg_state s) = (r, st')" by fastforce
  with False have result: "with_lock s (claim_locked L g req t h) = (r, s\<lparr>mg_state := st'\<rparr>)"
    by (simp add: with_lock_def)
  from step show ?thesis
    by (cases rule: claim_locked_cases) (use assms in \<open>simp_all add: result\<close>)
qed (simp add: with_lock_def)

lemma memory_claim_failure:
  assumes "isl (fst (memory_claim L g req now s))"
  shows "snd (memory_claim L g req now s) = s
    \<or> (\<exists>t. now = Some t \<and> clock_extends (ms_last_trusted_time_ms (mg_state s)) (Some t)
         \<and> snd (memory_claim L g req now s)
             = s\<lparr>mg_state := (mg_state s)\<lparr>ms_last_trusted_time_ms := Some t\<rparr>\<rparr>)"
proof (cases "\<exists>t h. now = Some t \<and> memory_claim L g req now s = with_lock s (claim_locked L g req t h)")
  case True
  then show ?thesis using assms claim_section_failure by metis
next
  case False
  then show ?thesis by (auto simp: memory_claim_def rbind_ok ok_or_ok split: sum.splits)
qed

section \<open>Repeated calls\<close>

lemma memory_record_receipt_ok:
  "memory_record_receipt L x s = (Inr k, s') \<longleftrightarrow>
     er_validate x = Inr () \<and> \<not> mg_poisoned s
     \<and> (\<exists>st'. record_receipt_locked L x (mg_state s) = Inr (k, st') \<and> s' = s\<lparr>mg_state := st'\<rparr>)"
  by (auto simp: memory_record_receipt_def with_lock_def keep_on_error_def
      split: sum.splits if_splits)

lemma memory_append_reconciliation_ok:
  "memory_append_reconciliation L x s = (Inr k, s') \<longleftrightarrow>
     rr_validate x = Inr () \<and> \<not> mg_poisoned s
     \<and> (\<exists>st'. append_reconciliation_locked L x (mg_state s) = Inr (k, st') \<and> s' = s\<lparr>mg_state := st'\<rparr>)"
  by (auto simp: memory_append_reconciliation_def with_lock_def keep_on_error_def
      split: sum.splits if_splits)

text \<open>After a receipt is accepted, the grant holds a receipt with its hash.\<close>

lemma recorded_receipt:
  assumes "record_receipt_locked L r st = Inr (h, st')"
  obtains i sg y where "ms_grant_by_hash st' (er_grant_hash r) = Some i" and "ms_grants st' i = Some sg"
    and "sg_receipt sg = Some y" and "er_commitment L y = Inr h" and "receipt_accepted L r h sg"
proof -
  from assms obtain i sg where sg: "ms_grant_by_hash st (er_grant_hash r) = Some i"
      "ms_grants st i = Some sg" "receipt_accepted L r h sg"
    and st': "case sg_receipt sg of
             Some x \<Rightarrow> er_commitment L x = Inr h \<and> st' = st
           | None \<Rightarrow>
               st' = st\<lparr>ms_grants := (ms_grants st)(i \<mapsto> sg\<lparr>sg_receipt := Some r\<rparr>),
                        ms_grant_by_receipt := (ms_grant_by_receipt st)(h \<mapsto> i)\<rparr>"
    unfolding record_receipt_locked_ok by blast
  moreover from sg(3) have "er_commitment L r = Inr h"
    by (auto simp: receipt_accepted_def verify_chain_ok)
  ultimately show ?thesis
    using that by (cases "sg_receipt sg") (auto simp: receipt_accepted_def)
qed

text \<open>
  After a record is accepted, the history holds a record with its hash at the position that its
  sequence number names.
\<close>

lemma sequence_position:
  assumes "history_ok L r (xs @ [x])" and "length xs < MAX_RECONCILIATION_RECORDS"
  shows "unat (rr_sequence x - 1) = length xs" and "rr_sequence x \<le> of_nat (length (xs @ [x]))"
proof -
  have x: "rr_sequence x = of_nat (Suc (length xs))"
    using history_sequence [OF assms(1), of "length xs"] by simp
  then have "rr_sequence x - 1 = of_nat (length xs)" by simp
  with assms(2) show "unat (rr_sequence x - 1) = length xs"
    by (simp add: unsigned_of_nat take_bit_nat_eq_self MAX_RECONCILIATION_RECORDS_def)
  from x show "rr_sequence x \<le> of_nat (length (xs @ [x]))" by simp
qed

lemma appended_record:
  assumes "store_wf L st" and "append_reconciliation_locked L x st = Inr (h, st')"
  obtains i sg r where "ms_grant_by_receipt st' (rr_receipt_hash x) = Some i"
    and "ms_grants st' i = Some sg" and "sg_receipt sg = Some r"
    and "rr_sequence x \<le> of_nat (length (sg_reconciliations sg))"
    and "unat (rr_sequence x - 1) < length (sg_reconciliations sg)"
    and "rr_commitment L (sg_reconciliations sg ! unat (rr_sequence x - 1)) = Inr h"
    and "rr_commitment L x = Inr h"
proof -
  from assms(2) obtain i sg r where sg: "ms_grant_by_receipt st (rr_receipt_hash x) = Some i"
      "ms_grants st i = Some sg" "sg_receipt sg = Some r"
    and res: "if rr_sequence x \<le> of_nat (length (sg_reconciliations sg))
           then unat (rr_sequence x - 1) < length (sg_reconciliations sg)
                \<and> rr_commitment L (sg_reconciliations sg ! unat (rr_sequence x - 1)) = Inr h
                \<and> rr_commitment L x = Inr h \<and> st' = st
           else length (sg_reconciliations sg) < MAX_RECONCILIATION_RECORDS
                \<and> rr_reconciliation_id x \<notin> rr_reconciliation_id ` set (sg_reconciliations sg)
                \<and> verify_reconciliation L r (last_record (sg_reconciliations sg)) x = Inr h
                \<and> st' = st\<lparr>ms_grants := (ms_grants st)(i \<mapsto>
                            sg\<lparr>sg_reconciliations := sg_reconciliations sg @ [x]\<rparr>)\<rparr>"
    unfolding append_reconciliation_locked_ok by blast
  show ?thesis
  proof (cases "rr_sequence x \<le> of_nat (length (sg_reconciliations sg))")
    case True
    with res sg show ?thesis by (intro that [of i sg r]) simp_all
  next
    case False
    let ?sg = "sg\<lparr>sg_reconciliations := sg_reconciliations sg @ [x]\<rparr>"
    from False res have new: "length (sg_reconciliations sg) < MAX_RECONCILIATION_RECORDS"
      "rr_reconciliation_id x \<notin> rr_reconciliation_id ` set (sg_reconciliations sg)"
      "verify_reconciliation L r (last_record (sg_reconciliations sg)) x = Inr h"
      "ms_grants st' i = Some ?sg" "ms_grant_by_receipt st' = ms_grant_by_receipt st"
      by simp_all
    have "history_ok L r (sg_reconciliations sg @ [x])"
      using store_wfD(1) [OF assms(1) sg(2)] sg(3) new(2,3)
      by (auto simp: stored_ok_def receipt_fits_def history_ok_snoc)
    from sequence_position [OF this new(1)] sg(1,3) new
    show ?thesis by (intro that [of i ?sg r]) (simp_all add: verify_reconciliation_ok)
  qed
qed

end
