(* ===== verification/Memory_Properties.thy ===== *)
theory Memory_Properties
  imports Memory_Invariant Lifecycle_Spec Fixtures
begin

text \<open>
  The properties of \<open>MemoryGrantStore\<close>. They speak about the stores that calls can reach from
  \<open>MemoryGrantStore::default()\<close>, or about every sequence of calls. The instances use the
  fixture chain with one claim, its receipt and its first reconciliation record.
\<close>

section \<open>Reached stores\<close>

definition fx_request :: grant_claim_request where
  "fx_request = \<lparr>gr_attempt_id = ''attempt-1'', gr_expected_audience = ''executor:local'',
     gr_observed_policy_epoch = 7, gr_observed_configuration_epoch = 3,
     gr_observed_pre_state_digest = fx_digest ''pre-state'',
     gr_observed_resource_claim_digest = fx_digest ''resources'', gr_revoked = False\<rparr>"

definition fx_calls :: "mem_call list" where
  "fx_calls = [CallRegister fx_tc fx_ep fx_ad fx_eg, CallClaim fx_eg fx_request (Some 4000),
     CallReceipt fx_er, CallReconcile fx_rr1]"

definition fx_registered :: memory_grant_store where
  "fx_registered = snd (memory_register ref_lib fx_tc fx_ep fx_ad fx_eg memory_default)"

definition fx_claimed :: memory_grant_store where
  "fx_claimed = snd (memory_claim ref_lib fx_eg fx_request (Some 4000) fx_registered)"

definition fx_received :: memory_grant_store where
  "fx_received = snd (memory_record_receipt ref_lib fx_er fx_claimed)"

lemma fx_reachable: "mem_reachable ref_lib fx_registered" "mem_reachable ref_lib fx_claimed"
  "mem_reachable ref_lib fx_received"
proof -
  show r: "mem_reachable ref_lib fx_registered"
    using mem_next [OF mem_start, of ref_lib "CallRegister fx_tc fx_ep fx_ad fx_eg"]
    by (simp add: fx_registered_def split_def)
  show c: "mem_reachable ref_lib fx_claimed"
    using mem_next [OF r, of "CallClaim fx_eg fx_request (Some 4000)"]
    by (simp add: fx_claimed_def split_def)
  show "mem_reachable ref_lib fx_received"
    using mem_next [OF c, of "CallReceipt fx_er"] by (simp add: fx_received_def split_def)
qed

definition fx_stored :: stored_grant where
  "fx_stored = fresh_grant eg_hash fx_tc fx_ep fx_ad fx_eg"

lemma fx_registered_state:
  "memory_register ref_lib fx_tc fx_ep fx_ad fx_eg memory_default = (Inr eg_hash, fx_registered)"
  "mg_poisoned fx_registered = False"
  "ms_grants (mg_state fx_registered) = [''grant-1'' \<mapsto> fx_stored]"
  "ms_grant_by_hash (mg_state fx_registered) = [eg_hash \<mapsto> ''grant-1'']"
  "ms_last_trusted_time_ms (mg_state fx_registered) = None"
  by (simp_all add: fx_registered_def memory_register_def fx_verify_authorization with_lock_def
      keep_on_error_def register_locked_def fresh_grant_def fx_stored_def memory_default_def
      empty_state_def fx_authorization_def) (simp_all add: fx_eg_def)

definition fx_claim :: grant_claim where
  "fx_claim = \<lparr>gc_grant_id = ''grant-1'', gc_grant_hash = eg_hash, gc_attempt_id = ''attempt-1'',
     gc_claimed_at_ms = 4000\<rparr>"

lemma fx_request_valid: "gr_validate fx_request = Inr ()"
  by (simp add: gr_validate_def fx_request_def text_eval)

lemma fx_grant_id [simp]: "eg_grant_id fx_eg = ''grant-1''"
  by (simp add: fx_eg_def)

lemma fx_claim_checks:
  "claim_checks ref_lib fx_eg fx_request 4000 eg_hash (mg_state fx_registered) = Inr fx_stored"
  by (simp add: claim_checks_ok fx_registered_state fx_stored_def fresh_grant_def fx_verify_grant)
     (simp add: fx_request_def fx_eg_def fx_tc_def fx_ep_def)

lemma fx_claimed_state:
  "memory_claim ref_lib fx_eg fx_request (Some 4000) fx_registered = (Inr fx_claim, fx_claimed)"
  "mg_poisoned fx_claimed = False"
  "ms_grants (mg_state fx_claimed) = [''grant-1'' \<mapsto> fx_stored\<lparr>sg_claim := Some fx_claim\<rparr>]"
  "ms_grant_by_hash (mg_state fx_claimed) = [eg_hash \<mapsto> ''grant-1'']"
  "ms_last_trusted_time_ms (mg_state fx_claimed) = Some 4000"
proof -
  have "memory_claim ref_lib fx_eg fx_request (Some 4000) fx_registered =
      (Inr fx_claim, fx_registered\<lparr>mg_state := (mg_state fx_registered)
         \<lparr>ms_last_trusted_time_ms := Some 4000,
          ms_grants := [''grant-1'' \<mapsto> fx_stored\<lparr>sg_claim := Some fx_claim\<rparr>]\<rparr>\<rparr>)"
    by (simp add: memory_claim_def fx_request_valid validate_safe_integer_def MAX_SAFE_INTEGER_def
        fx_commitments with_lock_def fx_registered_state claim_locked_def fx_claim_checks
        keep_on_error_def Let_def fx_claim_def fx_stored_def fresh_grant_def)
       (simp add: fx_request_def)
  then show "memory_claim ref_lib fx_eg fx_request (Some 4000) fx_registered = (Inr fx_claim, fx_claimed)"
    "mg_poisoned fx_claimed = False"
    "ms_grants (mg_state fx_claimed) = [''grant-1'' \<mapsto> fx_stored\<lparr>sg_claim := Some fx_claim\<rparr>]"
    "ms_grant_by_hash (mg_state fx_claimed) = [eg_hash \<mapsto> ''grant-1'']"
    "ms_last_trusted_time_ms (mg_state fx_claimed) = Some 4000"
    by (simp_all add: fx_claimed_def fx_registered_state)
qed

lemma fx_er_fields [simp]:
  "er_grant_hash fx_er = eg_hash" "er_attempt_id fx_er = ''attempt-1''" "er_claimed_at_ms fx_er = 4000"
  by (simp_all add: fx_er_def)

lemma fx_received_state:
  "memory_record_receipt ref_lib fx_er fx_claimed = (Inr er_hash, fx_received)"
  "mg_poisoned fx_received = False"
  "ms_grants (mg_state fx_received) =
     [''grant-1'' \<mapsto> fx_stored\<lparr>sg_claim := Some fx_claim, sg_receipt := Some fx_er\<rparr>]"
  "ms_grant_by_receipt (mg_state fx_received) er_hash = Some ''grant-1''"
proof -
  have "memory_record_receipt ref_lib fx_er fx_claimed =
      (Inr er_hash, fx_claimed\<lparr>mg_state := (mg_state fx_claimed)
         \<lparr>ms_grants := [''grant-1'' \<mapsto> fx_stored\<lparr>sg_claim := Some fx_claim, sg_receipt := Some fx_er\<rparr>],
          ms_grant_by_receipt := (ms_grant_by_receipt (mg_state fx_claimed))(er_hash \<mapsto> ''grant-1'')\<rparr>\<rparr>)"
    by (simp add: memory_record_receipt_def fx_er_valid with_lock_def fx_claimed_state
        record_receipt_locked_def fx_stored_def fresh_grant_def fx_claim_def fx_verify_chain
        keep_on_error_def) (simp add: fx_chain_def)
  then show "memory_record_receipt ref_lib fx_er fx_claimed = (Inr er_hash, fx_received)"
    "mg_poisoned fx_received = False"
    "ms_grants (mg_state fx_received) =
       [''grant-1'' \<mapsto> fx_stored\<lparr>sg_claim := Some fx_claim, sg_receipt := Some fx_er\<rparr>]"
    "ms_grant_by_receipt (mg_state fx_received) er_hash = Some ''grant-1''"
    by (simp_all add: fx_received_def fx_claimed_state)
qed

section \<open>What the store holds\<close>

text \<open>
  C13: Every grant in a reachable store, together with its receipt and its reconciliation
  records, is a bundle that \<open>verify_transaction\<close> accepts; its claim is by the stored grant,
  inside the grant's window, and the receipt is by the attempt that won the claim.
\<close>

theorem memory_holds_verified_lifecycles:
  assumes "mem_reachable L s" and "ms_grants (mg_state s) i = Some sg"
  shows "(\<exists>v. verify_transaction L (stored_bundle sg) = Inr v)
    \<and> eg_grant_id (sg_grant sg) = i
    \<and> (case sg_claim sg of
         None \<Rightarrow> sg_receipt sg = None
       | Some c \<Rightarrow> gc_grant_hash c = sg_hash sg
           \<and> eg_not_before_ms (sg_grant sg) \<le> gc_claimed_at_ms c
           \<and> gc_claimed_at_ms c < eg_expires_at_ms (sg_grant sg)
           \<and> (case sg_receipt sg of
                None \<Rightarrow> sg_reconciliations sg = []
              | Some r \<Rightarrow> er_attempt_id r = gc_attempt_id c
                  \<and> er_claimed_at_ms r = gc_claimed_at_ms c))"
proof -
  from mem_reachable_invar [OF assms(1)] have wf: "store_wf L (mg_state s)"
    by (simp add: mem_invar_def)
  note ok = store_wfD [OF wf assms(2)]
  from stored_ok_lifecycle [OF ok(1)] verify_transaction_ok_iff
  have "\<exists>v. verify_transaction L (stored_bundle sg) = Inr v" by blast
  with ok(1,2) show ?thesis
    by (auto simp: stored_ok_def claim_fits_def receipt_fits_def split: option.split)
qed

theorem memory_holds_verified_lifecycles_witness:
  "\<exists>v. verify_transaction ref_lib
     (stored_bundle (fx_stored\<lparr>sg_claim := Some fx_claim, sg_receipt := Some fx_er\<rparr>)) = Inr v"
proof -
  have "ms_grants (mg_state fx_received) ''grant-1'' =
      Some (fx_stored\<lparr>sg_claim := Some fx_claim, sg_receipt := Some fx_er\<rparr>)"
    by (simp add: fx_received_state)
  from memory_holds_verified_lifecycles [OF fx_reachable(3) this] show ?thesis by blast
qed

text \<open>
  A proposal and a decision are granted at most once: two grants in a reachable store that
  name the same proposal or the same decision are the same entry.
\<close>

theorem memory_single_grant:
  assumes "mem_reachable L s"
    and "ms_grants (mg_state s) i = Some a" and "ms_grants (mg_state s) j = Some b"
    and "eg_proposal_hash (sg_grant a) = eg_proposal_hash (sg_grant b)
         \<or> eg_decision_hash (sg_grant a) = eg_decision_hash (sg_grant b)"
  shows "i = j \<and> a = b"
  using stored_injective [of L "mg_state s" i a j b] mem_reachable_invar [OF assms(1)] assms(2-4)
  by (auto simp: mem_invar_def)

theorem memory_single_grant_witness:
  "ms_grants (mg_state fx_registered) ''grant-1'' = Some fx_stored"
  using memory_single_grant [OF fx_reachable(1), of "''grant-1''" fx_stored "''grant-1''" fx_stored]
  by (simp add: fx_registered_state)

section \<open>Every sequence of calls\<close>

text \<open>
  C12: At most one claim of a grant identifier ever succeeds. In any sequence of calls on a fresh
  store, in any order and with any failures, the successful claims are for distinct grants, and
  the claims that the final store holds are exactly the successful ones.
\<close>

theorem memory_claims_single_use:
  "distinct (map fst (run_wins (mem_step L) mem_won calls memory_default))
   \<and> set (run_wins (mem_step L) mem_won calls memory_default)
       = {(i, c). claim_holder (final_state (mem_step L) calls memory_default) i = Some c}"
proof -
  have "mem_invar L memory_default" by (rule mem_reachable_invar [OF mem_start])
  moreover have "claim_holder memory_default i = None" for i
    by (simp add: claim_holder_def memory_default_def empty_state_def)
  ultimately show ?thesis using mem_use.wins_distinct mem_exact.wins_exact by blast
qed

text \<open>
  The store is append-only. Whatever calls follow, successful or not, every grant stays with
  its chain, its claim and its receipt, its history only grows at the end, and the trusted time
  does not move back.
\<close>

theorem memory_append_only:
  "mem_extends (final_state (mem_step L) calls memory_default)
     (final_state (mem_step L) later (final_state (mem_step L) calls memory_default))"
  using mem_reachable_invar [OF mem_start] by (blast intro: mem.extends_run mem.invar_run)

section \<open>Outcomes of the operations\<close>

text \<open>
  On a reachable store a claim succeeds exactly when the request is valid, the clock did
  not move back, the presented grant is the registered one, the observed currentness equals what
  the task and the proposal bind, the grant is not revoked, the time is inside its window and
  nobody has claimed it. (The second verification of the stored chain inside the call never
  fails.)
\<close>

theorem memory_claim_succeeds_iff:
  assumes "mem_reachable L s"
  shows "(\<exists>c s'. memory_claim L g req (Some t) s = (Inr c, s')) \<longleftrightarrow>
    gr_validate req = Inr () \<and> t \<le> MAX_SAFE_INTEGER \<and> \<not> mg_poisoned s
    \<and> (case ms_last_trusted_time_ms (mg_state s) of None \<Rightarrow> True | Some seen \<Rightarrow> seen \<le> t)
    \<and> (\<exists>sg. ms_grants (mg_state s) (eg_grant_id g) = Some sg \<and> eg_commitment L g = Inr (sg_hash sg)
         \<and> gr_expected_audience req = eg_audience (sg_grant sg)
         \<and> gr_observed_policy_epoch req = tc_policy_epoch (sg_commitment sg)
         \<and> gr_observed_configuration_epoch req = tc_configuration_epoch (sg_commitment sg)
         \<and> gr_observed_pre_state_digest req = ep_pre_state_digest (sg_proposal sg)
         \<and> gr_observed_resource_claim_digest req = ep_resource_claim_digest (sg_proposal sg)
         \<and> \<not> gr_revoked req
         \<and> eg_not_before_ms (sg_grant sg) \<le> t \<and> t < eg_expires_at_ms (sg_grant sg)
         \<and> sg_claim sg = None)"
proof -
  from mem_reachable_invar [OF assms] have wf: "store_wf L (mg_state s)" by (simp add: mem_invar_def)
  have again: "verify_grant L (sg_commitment sg) (sg_proposal sg) (sg_decision sg) (sg_grant sg)
      = Inr (sg_hash sg)" if "ms_grants (mg_state s) i = Some sg" for i sg
    using store_wfD(1) [OF wf that] by (simp add: stored_ok_def)
  have clock: "clock_extends (ms_last_trusted_time_ms (mg_state s)) (Some t) \<longleftrightarrow>
      (case ms_last_trusted_time_ms (mg_state s) of None \<Rightarrow> True | Some seen \<Rightarrow> seen \<le> t)"
    by (simp add: clock_extends_def split: option.split)
  show ?thesis
    unfolding memory_claim_success_iff claim_checks_ok clock using again by blast
qed

theorem memory_claim_succeeds_iff_witness:
  "(\<exists>c s'. memory_claim ref_lib fx_eg fx_request (Some 4000) fx_registered = (Inr c, s'))
   \<and> \<not> (\<exists>c s'. memory_claim ref_lib fx_eg fx_request (Some 9000) fx_registered = (Inr c, s'))"
  unfolding memory_claim_succeeds_iff [OF fx_reachable(1)]
  by (simp add: fx_request_valid fx_registered_state fx_commitments fx_stored_def fresh_grant_def)
     (simp add: fx_request_def fx_eg_def fx_tc_def fx_ep_def MAX_SAFE_INTEGER_def)

text \<open>
  A call that returns an error changes no grant, claim, receipt, history or index; a failed
  claim may only advance the trusted time, and only to the time it was called at.
\<close>

fun mem_failed :: "mem_return \<Rightarrow> bool" where
  "mem_failed (ReturnDigest r) = isl r"
| "mem_failed (ReturnClaim r) = isl r"

theorem memory_failure_changes_nothing:
  assumes "mem_failed (fst (mem_step L call s))"
  shows "snd (mem_step L call s) = s
    \<or> (\<exists>g req t. call = CallClaim g req (Some t)
         \<and> clock_extends (ms_last_trusted_time_ms (mg_state s)) (Some t)
         \<and> snd (mem_step L call s) = s\<lparr>mg_state := (mg_state s)\<lparr>ms_last_trusted_time_ms := Some t\<rparr>\<rparr>)"
proof -
  show ?thesis
    using assms memory_claim_failure guarded_failure [of s]
    by (cases call)
       (auto simp: split_def memory_register_def memory_record_receipt_def
          memory_append_reconciliation_def split: sum.splits)
qed

theorem memory_failure_changes_nothing_witness:
  "snd (mem_step ref_lib (CallRegister fx_tc fx_ep (fx_ad\<lparr>ad_outcome := Deny\<rparr>) fx_eg) memory_default)
     = memory_default"
proof -
  let ?call = "CallRegister fx_tc fx_ep (fx_ad\<lparr>ad_outcome := Deny\<rparr>) fx_eg"
  have "\<nexists>v. verify_authorization ref_lib fx_tc fx_ep (fx_ad\<lparr>ad_outcome := Deny\<rparr>) fx_eg = Inr v"
    by (simp add: verify_authorization_ok)
  then have "mem_failed (fst (mem_step ref_lib ?call memory_default))"
    by (cases "verify_authorization ref_lib fx_tc fx_ep (fx_ad\<lparr>ad_outcome := Deny\<rparr>) fx_eg")
       (auto simp: memory_register_def)
  from memory_failure_changes_nothing [OF this] show ?thesis by blast
qed

text \<open>
  Recording a receipt is idempotent and exclusive: once a receipt with hash \<open>h\<close> is accepted,
  the same receipt is accepted again without change, and every receipt that the store accepts for
  that grant has the hash \<open>h\<close>.
\<close>

theorem memory_receipt_idempotent:
  assumes "memory_record_receipt L r s = (Inr h, s')"
  shows "memory_record_receipt L r s' = (Inr h, s')
    \<and> (\<forall>x k. er_grant_hash x = er_grant_hash r \<longrightarrow> fst (memory_record_receipt L x s') = Inr k \<longrightarrow> k = h)"
proof -
  from assms obtain st' where valid: "er_validate r = Inr ()" "\<not> mg_poisoned s"
    and s': "s' = s\<lparr>mg_state := st'\<rparr>" and step: "record_receipt_locked L r (mg_state s) = Inr (h, st')"
    by (auto simp: memory_record_receipt_ok)
  from recorded_receipt [OF step] obtain i sg y
    where new: "ms_grant_by_hash st' (er_grant_hash r) = Some i" "ms_grants st' i = Some sg"
      "sg_receipt sg = Some y" "er_commitment L y = Inr h" "receipt_accepted L r h sg" by blast
  have "k = h" if "er_grant_hash x = er_grant_hash r" and "fst (memory_record_receipt L x s') = Inr k" for x k
  proof -
    from that(2) obtain t' where "memory_record_receipt L x s' = (Inr k, t')" by (metis prod.collapse)
    with that(1) new s' show ?thesis unfolding memory_record_receipt_ok record_receipt_locked_ok by auto
  qed
  moreover have "memory_record_receipt L r s' = (Inr h, s')"
    unfolding memory_record_receipt_ok record_receipt_locked_ok using valid new s' by auto
  ultimately show ?thesis by blast
qed

theorem memory_receipt_idempotent_witness:
  "memory_record_receipt ref_lib fx_er fx_received = (Inr er_hash, fx_received)"
  using memory_receipt_idempotent [OF fx_received_state(1)] by blast

text \<open>
  Appending a reconciliation record is idempotent and excludes forks: once a record with hash
  \<open>h\<close> is accepted, the same record is accepted again without change, and every record that the
  store accepts for that receipt and that sequence number has the hash \<open>h\<close>.
\<close>

theorem memory_reconciliation_fork_free:
  assumes "mem_reachable L s" and "memory_append_reconciliation L x s = (Inr h, s')"
  shows "memory_append_reconciliation L x s' = (Inr h, s')
    \<and> (\<forall>y k. rr_receipt_hash y = rr_receipt_hash x \<longrightarrow> rr_sequence y = rr_sequence x
         \<longrightarrow> fst (memory_append_reconciliation L y s') = Inr k \<longrightarrow> k = h)"
proof -
  from mem_reachable_invar [OF assms(1)] have wf: "store_wf L (mg_state s)" by (simp add: mem_invar_def)
  from assms(2) obtain st' where valid: "rr_validate x = Inr ()" "\<not> mg_poisoned s"
    and s': "s' = s\<lparr>mg_state := st'\<rparr>"
    and step: "append_reconciliation_locked L x (mg_state s) = Inr (h, st')"
    by (auto simp: memory_append_reconciliation_ok)
  from appended_record [OF wf step] obtain i sg r
    where new: "ms_grant_by_receipt st' (rr_receipt_hash x) = Some i"
      "ms_grants st' i = Some sg" "sg_receipt sg = Some r"
      "rr_sequence x \<le> of_nat (length (sg_reconciliations sg))"
      "unat (rr_sequence x - 1) < length (sg_reconciliations sg)"
      "rr_commitment L (sg_reconciliations sg ! unat (rr_sequence x - 1)) = Inr h"
      "rr_commitment L x = Inr h" by blast
  have "k = h" if "rr_receipt_hash y = rr_receipt_hash x" and "rr_sequence y = rr_sequence x"
    and "fst (memory_append_reconciliation L y s') = Inr k" for y k
  proof -
    from that(3) obtain t' where "memory_append_reconciliation L y s' = (Inr k, t')"
      by (metis prod.collapse)
    with that(1,2) new s' show ?thesis
      unfolding memory_append_reconciliation_ok append_reconciliation_locked_ok by auto
  qed
  moreover have "memory_append_reconciliation L x s' = (Inr h, s')"
    unfolding memory_append_reconciliation_ok append_reconciliation_locked_ok
    using valid new s' by auto
  ultimately show ?thesis by blast
qed

lemma fx_append:
  "\<exists>s'. memory_append_reconciliation ref_lib fx_rr1 fx_received = (Inr rr1_hash, s')"
proof -
  have "rr_receipt_hash fx_rr1 = er_hash" "rr_sequence fx_rr1 = 1" by (simp_all add: fx_rr1_def)
  then have "\<exists>st'. append_reconciliation_locked ref_lib fx_rr1 (mg_state fx_received) = Inr (rr1_hash, st')"
    unfolding append_reconciliation_locked_ok
    by (simp add: fx_received_state fx_stored_def fresh_grant_def MAX_RECONCILIATION_RECORDS_def
        last_record_def fx_verify_reconciliation)
  then show ?thesis by (simp add: memory_append_reconciliation_ok fx_rr1_valid fx_received_state)
qed

theorem memory_reconciliation_fork_free_witness:
  "\<exists>s'. memory_append_reconciliation ref_lib fx_rr1 s' = (Inr rr1_hash, s')"
  using fx_append memory_reconciliation_fork_free [OF fx_reachable(3)] by blast

text \<open>
  The trusted clock orders the claims: a successful claim is stamped with the reading of the
  clock, no claim in the store is later, and afterwards no claim succeeds at an earlier reading.
\<close>

theorem memory_claim_clock:
  assumes "mem_reachable L s" and "memory_claim L g req (Some t) s = (Inr c, s')"
  shows "gc_claimed_at_ms c = t
    \<and> (\<forall>i c'. claim_holder s' i = Some c' \<longrightarrow> gc_claimed_at_ms c' \<le> t)
    \<and> (\<forall>g' req' t'. t' < t \<longrightarrow> isl (fst (memory_claim L g' req' (Some t') s')))"
proof -
  have call: "snd (mem_step L (CallClaim g req (Some t)) s) = s'" using assms(2) by simp
  have wf: "store_wf L (mg_state s')"
    using mem_reachable_invar [OF mem_next [OF assms(1), of "CallClaim g req (Some t)"]] call
    by (simp add: mem_invar_def)
  from assms(2) have at: "gc_claimed_at_ms c = t" by (auto elim!: memory_claim_ok simp: claim_of_def)
  from memory_claim_holder(2) [OF assms(2)] have holder: "claim_holder s' (eg_grant_id g) = Some c" .
  have last: "ms_last_trusted_time_ms (mg_state s') = Some t"
    using memory_claim_last_time [OF assms(2)] .
  have "gc_claimed_at_ms c' \<le> t" if "claim_holder s' i = Some c'" for i c'
    using store_wfD(3) [OF wf] that last by (auto simp: claim_holder_def bind_eq_Some_conv)
  moreover have "isl (fst (memory_claim L g' req' (Some t') s'))" if "t' < t" for g' req' t'
  proof (rule ccontr)
    assume "\<not> isl (fst (memory_claim L g' req' (Some t') s'))"
    then obtain c'' s'' where "memory_claim L g' req' (Some t') s' = (Inr c'', s'')"
      by (metis prod.collapse sum.collapse(2))
    with that last show False by (auto elim!: memory_claim_ok simp: clock_extends_def)
  qed
  ultimately show ?thesis using at by blast
qed

theorem memory_claim_clock_witness:
  "isl (fst (memory_claim ref_lib fx_eg fx_request (Some 3999) fx_claimed))"
  using memory_claim_clock [OF fx_reachable(1) fx_claimed_state(1)] by simp

end
