(* ===== verification/Authority.thy ===== *)
theory Authority
  imports Parsing
begin

text \<open>
  The authority profile (crates/effect-transaction-authority/src/lib.rs): signed statements
  about record commitments, the host's trust snapshot, signing, and \<open>verify_authority\<close>.

  The COSE encoder and the Ed25519 implementation (crates coset and ed25519-dalek) and the
  derived deserializer of a statement are the fields of \<open>cose_lib\<close>; \<open>'h\<close> is coset's header
  type. Byte strings are strings, 32-byte keys are lists of \<open>u8\<close>. The message that
  \<open>MalformedCose\<close> carries is a text of coset and is left out. A \<open>BTreeSet\<close> of strings is the
  list of its elements in iteration order.
\<close>

section \<open>Limits\<close>

definition AUTHORITY_PROFILE :: string where
  "AUTHORITY_PROFILE = ''effect-transaction/authority/cose-sign1-ed25519/0.1''"
definition AUTHORITY_PROFILE_VERSION :: u64 where "AUTHORITY_PROFILE_VERSION = 1"
definition COSE_CONTENT_TYPE :: string where
  "COSE_CONTENT_TYPE = ''application/etp-authority+cjson;profile=0.1''"
definition SIGNATURE_DOMAIN :: string where
  "SIGNATURE_DOMAIN = ''effect-transaction/authority/cose-sign1-ed25519/0.1/signature''"
definition AUTHORITY_STATEMENT_DOMAIN :: string where
  "AUTHORITY_STATEMENT_DOMAIN = ''effect-transaction/authority/cose-sign1-ed25519/0.1/statement''"
definition MAX_COSE_BYTES :: nat where "MAX_COSE_BYTES = 16384"
definition MAX_PAYLOAD_BYTES :: nat where "MAX_PAYLOAD_BYTES = 8192"
definition MAX_ASSERTION_LIFETIME_MS :: u64 where "MAX_ASSERTION_LIFETIME_MS = 300000"
definition MAX_AUTHORITY_SNAPSHOT_AGE_MS :: u64 where "MAX_AUTHORITY_SNAPSHOT_AGE_MS = 300000"

section \<open>Data\<close>

datatype record_kind =
  KTaskCommitment | KEffectProposal | KAuthorizationDecision | KExecutionGrant | KEffectReceipt
| KReconciliationRecord

record authority_statement =
  au_version :: u64
  au_authority_profile :: string
  au_statement_id :: string
  au_issuer :: string
  au_key_id :: string
  au_role :: string
  au_audience :: string
  au_record_profile :: string
  au_record_version :: u64
  au_record_kind :: record_kind
  au_record_digest :: digest32
  au_issued_at_ms :: u64
  au_not_before_ms :: u64
  au_expires_at_ms :: u64
  au_authority_epoch :: u64
  au_configuration_epoch :: u64

record authority_snapshot =
  sn_issuer :: string
  sn_key_id :: string
  sn_public_key :: "u8 list"
  sn_authorized_roles :: "string list"
  sn_authorized_audiences :: "string list"
  sn_authority_epoch :: u64
  sn_configuration_epoch :: u64
  sn_key_valid_from_ms :: u64
  sn_key_valid_until_ms :: u64
  sn_revoked_at_ms :: "u64 option"
  sn_observed_at_ms :: u64

record verification_context =
  cx_expected_record_profile :: string
  cx_expected_record_version :: u64
  cx_expected_record_kind :: record_kind
  cx_expected_record_digest :: digest32
  cx_expected_role :: string
  cx_expected_audience :: string
  cx_now_ms :: u64
  cx_maximum_snapshot_age_ms :: u64

record verified_authority =
  vy_statement :: authority_statement
  vy_verified_at_ms :: u64
  vy_snapshot_observed_at_ms :: u64
  vy_verifying_key_digest :: digest32

datatype authority_error =
  UnsupportedAuthorityProfile
| InvalidField string
| AuUnsafeInteger string
| InvalidValidityInterval
| InvalidKeyValidityInterval
| EmptyAuthorizationSet
| InvalidPublicKey
| CoseTooLarge
| PayloadTooLarge
| MalformedCose
| NonCanonicalCose
| InvalidProtectedHeaders
| UnprotectedHeaders
| MissingPayload
| NonCanonicalPayload
| InvalidSignature
| IssuerMismatch
| KeyIdMismatch
| RoleMismatch
| RoleNotAuthorized
| AuAudienceMismatch
| AudienceNotAuthorized
| RecordProfileMismatch
| RecordVersionMismatch
| RecordKindMismatch
| RecordDigestMismatch
| SnapshotFromFuture
| SnapshotPredatesStatement
| StaleSnapshot
| SnapshotAgePolicyTooPermissive
| AssertionNotYetValid
| AssertionExpired
| KeyNotYetValid
| KeyExpired
| KeyNotValidAtIssuance
| KeyRevoked
| AuthorityEpochMismatch
| ConfigurationEpochMismatch
| AuProtocol protocol_error

section \<open>The libraries\<close>

record 'h cose_sign1 =
  cs_protected :: 'h
  cs_original_data :: "string option"
  cs_unprotected :: 'h
  cs_payload :: "string option"
  cs_signature :: string

record 'h cose_lib =
  from_tagged_slice :: "string \<Rightarrow> 'h cose_sign1 option"
  to_tagged_vec :: "'h cose_sign1 \<Rightarrow> string option"
  build_header :: "string \<Rightarrow> string \<Rightarrow> 'h"
  empty_header :: 'h
  header_is_empty :: "'h \<Rightarrow> bool"
  header_to_vec :: "'h \<Rightarrow> string option"
  sig_structure :: "'h \<Rightarrow> string option \<Rightarrow> string \<Rightarrow> string \<Rightarrow> string"
  key_valid :: "u8 list \<Rightarrow> bool"
  key_weak :: "u8 list \<Rightarrow> bool"
  key_public :: "u8 list \<Rightarrow> u8 list"
  key_sign :: "u8 list \<Rightarrow> string \<Rightarrow> string"
  signature_valid :: "string \<Rightarrow> bool"
  verify_strict :: "u8 list \<Rightarrow> string \<Rightarrow> string \<Rightarrow> bool"
  from_json_au :: "string \<Rightarrow> authority_statement option"

section \<open>Field validation\<close>

definition au_safe_integer :: "string \<Rightarrow> u64 \<Rightarrow> authority_error + unit" where
  "au_safe_integer fld value =
     (if value > MAX_SAFE_INTEGER then Inl (AuUnsafeInteger fld) else Inr ())"

definition validate_opaque :: "string \<Rightarrow> string \<Rightarrow> nat \<Rightarrow> authority_error + unit" where
  "validate_opaque fld value maximum_bytes =
     (if value = [] \<or> length value > maximum_bytes \<or> \<not> is_trimmed value
         \<or> list_ex is_control (chars value)
      then Inl (InvalidField fld) else Inr ())"

definition au_validate_token :: "string \<Rightarrow> string \<Rightarrow> authority_error + unit" where
  "au_validate_token fld value =
     rbind (validate_opaque fld value 256) (\<lambda>_. ensure (token_shape value) (InvalidField fld))"

definition au_validate :: "authority_statement \<Rightarrow> authority_error + unit" where
  "au_validate s = checks
     [ensure (\<not> (au_version s \<noteq> AUTHORITY_PROFILE_VERSION \<or> au_authority_profile s \<noteq> AUTHORITY_PROFILE))
        UnsupportedAuthorityProfile,
      validate_opaque ''statement_id'' (au_statement_id s) 256,
      validate_opaque ''issuer'' (au_issuer s) 512,
      validate_opaque ''key_id'' (au_key_id s) 256,
      au_validate_token ''role'' (au_role s),
      au_validate_token ''record_profile'' (au_record_profile s),
      validate_opaque ''audience'' (au_audience s) 512,
      ensure (\<not> au_record_version s = 0) (InvalidField ''record_version''),
      au_safe_integer ''version'' (au_version s),
      au_safe_integer ''record_version'' (au_record_version s),
      au_safe_integer ''issued_at_ms'' (au_issued_at_ms s),
      au_safe_integer ''not_before_ms'' (au_not_before_ms s),
      au_safe_integer ''expires_at_ms'' (au_expires_at_ms s),
      au_safe_integer ''authority_epoch'' (au_authority_epoch s),
      au_safe_integer ''configuration_epoch'' (au_configuration_epoch s),
      ensure (\<not> (au_issued_at_ms s > au_not_before_ms s
                \<or> au_not_before_ms s \<ge> au_expires_at_ms s
                \<or> au_expires_at_ms s - au_not_before_ms s > MAX_ASSERTION_LIFETIME_MS))
        InvalidValidityInterval]"

text \<open>\<open>validate\<close> of the trait \<open>ProtocolRecord\<close>, which hides the cause.\<close>

definition au_trait_validate :: "authority_statement \<Rightarrow> protocol_error + unit" where
  "au_trait_validate s = map_err (\<lambda>_. InvalidBinding ''authority_statement'') (au_validate s)"

definition sn_validate :: "'h cose_lib \<Rightarrow> authority_snapshot \<Rightarrow> authority_error + unit" where
  "sn_validate K s = checks
     ([validate_opaque ''issuer'' (sn_issuer s) 512,
       validate_opaque ''key_id'' (sn_key_id s) 256,
       ensure (\<not> (sn_authorized_roles s = [] \<or> sn_authorized_audiences s = [])) EmptyAuthorizationSet]
      @ map (au_validate_token ''authorized_role'') (sn_authorized_roles s)
      @ map (\<lambda>audience. validate_opaque ''authorized_audience'' audience 512)
          (sn_authorized_audiences s)
      @ [au_safe_integer ''authority_epoch'' (sn_authority_epoch s),
         au_safe_integer ''configuration_epoch'' (sn_configuration_epoch s),
         au_safe_integer ''key_valid_from_ms'' (sn_key_valid_from_ms s),
         au_safe_integer ''key_valid_until_ms'' (sn_key_valid_until_ms s),
         au_safe_integer ''observed_at_ms'' (sn_observed_at_ms s),
         (case sn_revoked_at_ms s of
            Some revoked_at_ms \<Rightarrow> au_safe_integer ''revoked_at_ms'' revoked_at_ms
          | None \<Rightarrow> Inr ()),
         ensure (\<not> sn_key_valid_from_ms s \<ge> sn_key_valid_until_ms s) InvalidKeyValidityInterval,
         ensure (key_valid K (sn_public_key s)) InvalidPublicKey,
         ensure (\<not> key_weak K (sn_public_key s)) InvalidPublicKey])"

definition cx_validate :: "verification_context \<Rightarrow> authority_error + unit" where
  "cx_validate c = checks
     [au_validate_token ''expected_record_profile'' (cx_expected_record_profile c),
      au_validate_token ''expected_role'' (cx_expected_role c),
      validate_opaque ''expected_audience'' (cx_expected_audience c) 512,
      au_safe_integer ''expected_record_version'' (cx_expected_record_version c),
      au_safe_integer ''now_ms'' (cx_now_ms c),
      au_safe_integer ''maximum_snapshot_age_ms'' (cx_maximum_snapshot_age_ms c),
      ensure (\<not> cx_expected_record_version c = 0) (InvalidField ''expected_record_version''),
      ensure (\<not> cx_maximum_snapshot_age_ms c > MAX_AUTHORITY_SNAPSHOT_AGE_MS)
        SnapshotAgePolicyTooPermissive]"

section \<open>Serialization\<close>

fun record_kind_name :: "record_kind \<Rightarrow> string" where
  "record_kind_name KTaskCommitment = ''task_commitment''"
| "record_kind_name KEffectProposal = ''effect_proposal''"
| "record_kind_name KAuthorizationDecision = ''authorization_decision''"
| "record_kind_name KExecutionGrant = ''execution_grant''"
| "record_kind_name KEffectReceipt = ''effect_receipt''"
| "record_kind_name KReconciliationRecord = ''reconciliation_record''"

definition au_value :: "authority_statement \<Rightarrow> jvalue" where
  "au_value s = JObject
     [(''version'', jnum (au_version s)),
      (''authority_profile'', JString (au_authority_profile s)),
      (''statement_id'', JString (au_statement_id s)),
      (''issuer'', JString (au_issuer s)),
      (''key_id'', JString (au_key_id s)),
      (''role'', JString (au_role s)),
      (''audience'', JString (au_audience s)),
      (''record_profile'', JString (au_record_profile s)),
      (''record_version'', jnum (au_record_version s)),
      (''record_kind'', JString (record_kind_name (au_record_kind s))),
      (''record_digest'', jdigest (au_record_digest s)),
      (''issued_at_ms'', jnum (au_issued_at_ms s)),
      (''not_before_ms'', jnum (au_not_before_ms s)),
      (''expires_at_ms'', jnum (au_expires_at_ms s)),
      (''authority_epoch'', jnum (au_authority_epoch s)),
      (''configuration_epoch'', jnum (au_configuration_epoch s))]"

definition external_aad_value :: "authority_statement \<Rightarrow> jvalue" where
  "external_aad_value s = JObject
     [(''domain'', JString SIGNATURE_DOMAIN),
      (''authority_profile'', JString (au_authority_profile s)),
      (''authority_profile_version'', jnum (au_version s)),
      (''record_profile'', JString (au_record_profile s)),
      (''record_version'', jnum (au_record_version s)),
      (''record_kind'', JString (record_kind_name (au_record_kind s)))]"

definition authority_external_aad :: "lib \<Rightarrow> authority_statement \<Rightarrow> authority_error + string" where
  "authority_external_aad L s = map_err AuProtocol (canonical_json L (external_aad_value s))"

definition expected_header :: "'h cose_lib \<Rightarrow> string \<Rightarrow> 'h" where
  "expected_header K key_id = build_header K key_id COSE_CONTENT_TYPE"

section \<open>Signing\<close>

record signing_authority =
  sa_issuer :: string
  sa_key_id :: string
  sa_seed :: "u8 list"

definition from_seed ::
    "'h cose_lib \<Rightarrow> string \<Rightarrow> string \<Rightarrow> u8 list \<Rightarrow> authority_error + signing_authority" where
  "from_seed K issuer key_id seed =
     rbind (checks
       [validate_opaque ''issuer'' issuer 512,
        validate_opaque ''key_id'' key_id 256,
        ensure (\<not> key_weak K (key_public K seed)) InvalidPublicKey]) (\<lambda>_.
     Inr \<lparr>sa_issuer = issuer, sa_key_id = key_id, sa_seed = seed\<rparr>)"

definition sign ::
    "lib \<Rightarrow> 'h cose_lib \<Rightarrow> signing_authority \<Rightarrow> authority_statement \<Rightarrow> authority_error + string" where
  "sign L K self statement =
     rbind (au_validate statement) (\<lambda>_.
     rbind (ensure (\<not> au_issuer statement \<noteq> sa_issuer self) IssuerMismatch) (\<lambda>_.
     rbind (ensure (\<not> au_key_id statement \<noteq> sa_key_id self) KeyIdMismatch) (\<lambda>_.
     rbind (map_err AuProtocol (canonical_json L (au_value statement))) (\<lambda>payload.
     rbind (ensure (\<not> length payload > MAX_PAYLOAD_BYTES) PayloadTooLarge) (\<lambda>_.
     rbind (authority_external_aad L statement) (\<lambda>external_aad.
     let protected = expected_header K (sa_key_id self);
         cose = \<lparr>cs_protected = protected, cs_original_data = None,
                 cs_unprotected = empty_header K, cs_payload = Some payload,
                 cs_signature = key_sign K (sa_seed self)
                   (sig_structure K protected None external_aad payload)\<rparr> in
     rbind (ok_or (to_tagged_vec K cose) MalformedCose) (\<lambda>encoded.
     rbind (ensure (\<not> length encoded > MAX_COSE_BYTES) CoseTooLarge) (\<lambda>_.
     Inr encoded))))))))"

section \<open>Verification\<close>

definition verify_bindings ::
    "authority_statement \<Rightarrow> authority_snapshot \<Rightarrow> verification_context \<Rightarrow> authority_error + unit" where
  "verify_bindings s n c = checks
     [ensure (\<not> sn_observed_at_ms n > cx_now_ms c) SnapshotFromFuture,
      ensure (\<not> cx_now_ms c - sn_observed_at_ms n > cx_maximum_snapshot_age_ms c) StaleSnapshot,
      ensure (\<not> sn_observed_at_ms n < au_issued_at_ms s) SnapshotPredatesStatement,
      ensure (\<not> cx_now_ms c < au_not_before_ms s) AssertionNotYetValid,
      ensure (\<not> cx_now_ms c \<ge> au_expires_at_ms s) AssertionExpired,
      ensure (\<not> cx_now_ms c < sn_key_valid_from_ms n) KeyNotYetValid,
      ensure (\<not> cx_now_ms c \<ge> sn_key_valid_until_ms n) KeyExpired,
      ensure (\<not> (au_issued_at_ms s < sn_key_valid_from_ms n
                \<or> au_issued_at_ms s \<ge> sn_key_valid_until_ms n)) KeyNotValidAtIssuance,
      ensure (\<not> (case sn_revoked_at_ms n of
                  None \<Rightarrow> False | Some revoked_at_ms \<Rightarrow> revoked_at_ms \<le> cx_now_ms c)) KeyRevoked,
      ensure (\<not> au_authority_epoch s \<noteq> sn_authority_epoch n) AuthorityEpochMismatch,
      ensure (\<not> au_configuration_epoch s \<noteq> sn_configuration_epoch n) ConfigurationEpochMismatch,
      ensure (\<not> au_role s \<noteq> cx_expected_role c) RoleMismatch,
      ensure (au_role s \<in> set (sn_authorized_roles n)) RoleNotAuthorized,
      ensure (\<not> au_audience s \<noteq> cx_expected_audience c) AuAudienceMismatch,
      ensure (au_audience s \<in> set (sn_authorized_audiences n)) AudienceNotAuthorized,
      ensure (\<not> au_record_profile s \<noteq> cx_expected_record_profile c) RecordProfileMismatch,
      ensure (\<not> au_record_version s \<noteq> cx_expected_record_version c) RecordVersionMismatch,
      ensure (\<not> au_record_kind s \<noteq> cx_expected_record_kind c) RecordKindMismatch,
      ensure (\<not> au_record_digest s \<noteq> cx_expected_record_digest c) RecordDigestMismatch]"

definition bytes_text :: "u8 list \<Rightarrow> string" where
  "bytes_text bytes = map (\<lambda>b. char_of (unat b)) bytes"

text \<open>From the decoded COSE object to the statement in its payload.\<close>

definition decode_statement ::
    "lib \<Rightarrow> 'h cose_lib \<Rightarrow> string \<Rightarrow> authority_error + ('h cose_sign1 \<times> string \<times> authority_statement)" where
  "decode_statement L K encoded =
     rbind (ensure (\<not> length encoded > MAX_COSE_BYTES) CoseTooLarge) (\<lambda>_.
     rbind (ok_or (from_tagged_slice K encoded) MalformedCose) (\<lambda>cose.
     rbind (ok_or (to_tagged_vec K cose) MalformedCose) (\<lambda>canonical_cose.
     rbind (ensure (\<not> canonical_cose \<noteq> encoded) NonCanonicalCose) (\<lambda>_.
     rbind (ensure (header_is_empty K (cs_unprotected cose)) UnprotectedHeaders) (\<lambda>_.
     rbind (ok_or (cs_payload cose) MissingPayload) (\<lambda>payload.
     rbind (ensure (\<not> length payload > MAX_PAYLOAD_BYTES) PayloadTooLarge) (\<lambda>_.
     rbind (map_err AuProtocol
              (parse_record L (from_json_au K) au_trait_validate au_value payload)) (\<lambda>statement.
     rbind (au_validate statement) (\<lambda>_.
     rbind (map_err AuProtocol (canonical_json L (au_value statement))) (\<lambda>canonical_payload.
     rbind (ensure (\<not> canonical_payload \<noteq> payload) NonCanonicalPayload) (\<lambda>_.
     Inr (cose, payload, statement))))))))))))"

text \<open>The header and signature checks on a decoded statement.\<close>

definition check_signature ::
    "lib \<Rightarrow> 'h cose_lib \<Rightarrow> authority_snapshot \<Rightarrow> 'h cose_sign1 \<times> string \<times> authority_statement
     \<Rightarrow> authority_error + unit" where
  "check_signature L K snapshot decoded =
     (case decoded of (cose, payload, statement) \<Rightarrow>
       let protected = expected_header K (au_key_id statement) in
       rbind (ensure (\<not> cs_protected cose \<noteq> protected) InvalidProtectedHeaders) (\<lambda>_.
       rbind (ok_or (header_to_vec K protected) MalformedCose) (\<lambda>protected_bytes.
       rbind (ensure (\<not> cs_original_data cose \<noteq> Some protected_bytes) NonCanonicalCose) (\<lambda>_.
       rbind (ensure (\<not> au_issuer statement \<noteq> sn_issuer snapshot) IssuerMismatch) (\<lambda>_.
       rbind (ensure (\<not> au_key_id statement \<noteq> sn_key_id snapshot) KeyIdMismatch) (\<lambda>_.
       rbind (ensure (key_valid K (sn_public_key snapshot)) InvalidPublicKey) (\<lambda>_.
       rbind (authority_external_aad L statement) (\<lambda>external_aad.
       ensure (signature_valid K (cs_signature cose)
               \<and> verify_strict K (sn_public_key snapshot)
                   (sig_structure K (cs_protected cose) (cs_original_data cose) external_aad payload)
                   (cs_signature cose))
         InvalidSignature))))))))"

definition verify_authority ::
    "lib \<Rightarrow> 'h cose_lib \<Rightarrow> string \<Rightarrow> authority_snapshot \<Rightarrow> verification_context
     \<Rightarrow> authority_error + verified_authority" where
  "verify_authority L K encoded snapshot context =
     rbind (cx_validate context) (\<lambda>_.
     rbind (sn_validate K snapshot) (\<lambda>_.
     rbind (decode_statement L K encoded) (\<lambda>decoded.
     rbind (check_signature L K snapshot decoded) (\<lambda>_.
     let statement = snd (snd decoded) in
     rbind (verify_bindings statement snapshot context) (\<lambda>_.
     Inr \<lparr>vy_statement = statement, vy_verified_at_ms = cx_now_ms context,
          vy_snapshot_observed_at_ms = sn_observed_at_ms snapshot,
          vy_verifying_key_digest = from_payload L (bytes_text (sn_public_key snapshot))\<rparr>)))))"

section \<open>Error codes\<close>

fun authority_error_code :: "authority_error \<Rightarrow> string" where
  "authority_error_code UnsupportedAuthorityProfile = ''unsupported_authority_profile''"
| "authority_error_code (InvalidField f) = ''invalid_field''"
| "authority_error_code (AuUnsafeInteger f) = ''unsafe_integer''"
| "authority_error_code InvalidValidityInterval = ''invalid_validity_interval''"
| "authority_error_code InvalidKeyValidityInterval = ''invalid_key_validity_interval''"
| "authority_error_code EmptyAuthorizationSet = ''empty_authorization_set''"
| "authority_error_code InvalidPublicKey = ''invalid_public_key''"
| "authority_error_code CoseTooLarge = ''cose_too_large''"
| "authority_error_code PayloadTooLarge = ''payload_too_large''"
| "authority_error_code MalformedCose = ''malformed_cose''"
| "authority_error_code NonCanonicalCose = ''noncanonical_cose''"
| "authority_error_code InvalidProtectedHeaders = ''invalid_protected_headers''"
| "authority_error_code UnprotectedHeaders = ''unprotected_headers''"
| "authority_error_code MissingPayload = ''missing_payload''"
| "authority_error_code NonCanonicalPayload = ''noncanonical_payload''"
| "authority_error_code InvalidSignature = ''invalid_signature''"
| "authority_error_code IssuerMismatch = ''issuer_mismatch''"
| "authority_error_code KeyIdMismatch = ''key_id_mismatch''"
| "authority_error_code RoleMismatch = ''role_mismatch''"
| "authority_error_code RoleNotAuthorized = ''role_not_authorized''"
| "authority_error_code AuAudienceMismatch = ''audience_mismatch''"
| "authority_error_code AudienceNotAuthorized = ''audience_not_authorized''"
| "authority_error_code RecordProfileMismatch = ''record_profile_mismatch''"
| "authority_error_code RecordVersionMismatch = ''record_version_mismatch''"
| "authority_error_code RecordKindMismatch = ''record_kind_mismatch''"
| "authority_error_code RecordDigestMismatch = ''record_digest_mismatch''"
| "authority_error_code SnapshotFromFuture = ''snapshot_from_future''"
| "authority_error_code SnapshotPredatesStatement = ''snapshot_predates_statement''"
| "authority_error_code StaleSnapshot = ''stale_snapshot''"
| "authority_error_code SnapshotAgePolicyTooPermissive = ''snapshot_age_policy_too_permissive''"
| "authority_error_code AssertionNotYetValid = ''assertion_not_yet_valid''"
| "authority_error_code AssertionExpired = ''assertion_expired''"
| "authority_error_code KeyNotYetValid = ''key_not_yet_valid''"
| "authority_error_code KeyExpired = ''key_expired''"
| "authority_error_code KeyNotValidAtIssuance = ''key_not_valid_at_issuance''"
| "authority_error_code KeyRevoked = ''key_revoked''"
| "authority_error_code AuthorityEpochMismatch = ''authority_epoch_mismatch''"
| "authority_error_code ConfigurationEpochMismatch = ''configuration_epoch_mismatch''"
| "authority_error_code (AuProtocol e) = ''protocol_error''"

end
