(* ===== verification/Authority_Facts.thy ===== *)
theory Authority_Facts
  imports Authority Lifecycle_Spec
begin

text \<open>
  Facts about the authority profile: what each validator guarantees, the statement as an
  implementation of the trait \<open>ProtocolRecord\<close>, the exact conditions under which
  \<open>verify_authority\<close> accepts, and the assumptions on the COSE and Ed25519 libraries.
\<close>

section \<open>Validators\<close>

lemma au_safe_integer_ok [ok_iff]: "au_safe_integer f v = Inr u \<longleftrightarrow> v \<le> MAX_SAFE_INTEGER"
  by (auto simp: au_safe_integer_def)

lemma validate_opaque_ok:
  "validate_opaque f v n = Inr u \<longleftrightarrow>
     v \<noteq> [] \<and> length v \<le> n \<and> is_trimmed v \<and> \<not> list_ex is_control (chars v)"
  by (auto simp: validate_opaque_def)

lemma au_validate_ok:
  "au_validate s = Inr u \<longleftrightarrow>
     au_version s = 1 \<and> au_authority_profile s = AUTHORITY_PROFILE
     \<and> validate_opaque ''statement_id'' (au_statement_id s) 256 = Inr ()
     \<and> validate_opaque ''issuer'' (au_issuer s) 512 = Inr ()
     \<and> validate_opaque ''key_id'' (au_key_id s) 256 = Inr ()
     \<and> au_validate_token ''role'' (au_role s) = Inr ()
     \<and> au_validate_token ''record_profile'' (au_record_profile s) = Inr ()
     \<and> validate_opaque ''audience'' (au_audience s) 512 = Inr ()
     \<and> au_record_version s \<noteq> 0 \<and> au_record_version s \<le> MAX_SAFE_INTEGER
     \<and> au_authority_epoch s \<le> MAX_SAFE_INTEGER \<and> au_configuration_epoch s \<le> MAX_SAFE_INTEGER
     \<and> au_issued_at_ms s \<le> au_not_before_ms s \<and> au_not_before_ms s < au_expires_at_ms s
     \<and> au_expires_at_ms s \<le> MAX_SAFE_INTEGER
     \<and> au_expires_at_ms s - au_not_before_ms s \<le> MAX_ASSERTION_LIFETIME_MS"
  by (auto simp: au_validate_def ok_iff AUTHORITY_PROFILE_VERSION_def not_less not_le)

lemma au_trait_validate_ok: "au_trait_validate s = Inr u \<longleftrightarrow> au_validate s = Inr ()"
  by (simp add: au_trait_validate_def map_err_ok)

lemma sn_validate_ok:
  "sn_validate K n = Inr u \<longleftrightarrow>
     validate_opaque ''issuer'' (sn_issuer n) 512 = Inr ()
     \<and> validate_opaque ''key_id'' (sn_key_id n) 256 = Inr ()
     \<and> sn_authorized_roles n \<noteq> [] \<and> sn_authorized_audiences n \<noteq> []
     \<and> (\<forall>r \<in> set (sn_authorized_roles n). au_validate_token ''authorized_role'' r = Inr ())
     \<and> (\<forall>a \<in> set (sn_authorized_audiences n).
          validate_opaque ''authorized_audience'' a 512 = Inr ())
     \<and> sn_authority_epoch n \<le> MAX_SAFE_INTEGER \<and> sn_configuration_epoch n \<le> MAX_SAFE_INTEGER
     \<and> sn_key_valid_until_ms n \<le> MAX_SAFE_INTEGER \<and> sn_observed_at_ms n \<le> MAX_SAFE_INTEGER
     \<and> (\<forall>t. sn_revoked_at_ms n = Some t \<longrightarrow> t \<le> MAX_SAFE_INTEGER)
     \<and> sn_key_valid_from_ms n < sn_key_valid_until_ms n
     \<and> key_valid K (sn_public_key n) \<and> \<not> key_weak K (sn_public_key n)"
  unfolding sn_validate_def checks_ok
  by (cases "sn_revoked_at_ms n") (auto simp: au_safe_integer_ok ensure_ok)

lemma cx_validate_ok:
  "cx_validate c = Inr u \<longleftrightarrow>
     au_validate_token ''expected_record_profile'' (cx_expected_record_profile c) = Inr ()
     \<and> au_validate_token ''expected_role'' (cx_expected_role c) = Inr ()
     \<and> validate_opaque ''expected_audience'' (cx_expected_audience c) 512 = Inr ()
     \<and> cx_expected_record_version c \<noteq> 0 \<and> cx_expected_record_version c \<le> MAX_SAFE_INTEGER
     \<and> cx_now_ms c \<le> MAX_SAFE_INTEGER
     \<and> cx_maximum_snapshot_age_ms c \<le> MAX_SAFE_INTEGER
     \<and> cx_maximum_snapshot_age_ms c \<le> MAX_AUTHORITY_SNAPSHOT_AGE_MS"
  by (auto simp: cx_validate_def ok_iff)

lemma verify_bindings_ok:
  "verify_bindings s n c = Inr u \<longleftrightarrow>
     sn_observed_at_ms n \<le> cx_now_ms c
     \<and> cx_now_ms c - sn_observed_at_ms n \<le> cx_maximum_snapshot_age_ms c
     \<and> au_issued_at_ms s \<le> sn_observed_at_ms n
     \<and> au_not_before_ms s \<le> cx_now_ms c \<and> cx_now_ms c < au_expires_at_ms s
     \<and> sn_key_valid_from_ms n \<le> cx_now_ms c \<and> cx_now_ms c < sn_key_valid_until_ms n
     \<and> sn_key_valid_from_ms n \<le> au_issued_at_ms s \<and> au_issued_at_ms s < sn_key_valid_until_ms n
     \<and> (\<forall>t. sn_revoked_at_ms n = Some t \<longrightarrow> cx_now_ms c < t)
     \<and> au_authority_epoch s = sn_authority_epoch n
     \<and> au_configuration_epoch s = sn_configuration_epoch n
     \<and> au_role s = cx_expected_role c \<and> au_role s \<in> set (sn_authorized_roles n)
     \<and> au_audience s = cx_expected_audience c \<and> au_audience s \<in> set (sn_authorized_audiences n)
     \<and> au_record_profile s = cx_expected_record_profile c
     \<and> au_record_version s = cx_expected_record_version c
     \<and> au_record_kind s = cx_expected_record_kind c
     \<and> au_record_digest s = cx_expected_record_digest c"
  by (cases "sn_revoked_at_ms n")
     (auto simp: verify_bindings_def ok_iff not_less not_le)

section \<open>The statement as a protocol record\<close>

lemma record_kind_name_inj [simp]: "record_kind_name a = record_kind_name b \<longleftrightarrow> a = b"
  by (cases a; cases b; simp)

lemma au_value_inj: "norm (au_value a) = norm (au_value b) \<Longrightarrow> a = b"
  unfolding au_value_def by (drule norm_object_entries [rotated 2]) simp_all

interpretation au: protocol_record AUTHORITY_STATEMENT_DOMAIN au_trait_validate au_value
  by unfold_locales
     (auto intro: au_value_inj simp: au_value_def au_trait_validate_ok au_validate_ok jnodes_object
        jdepth_object_le [of _ 63, simplified] MAX_CANONICAL_NESTING_DEPTH_def
        MAX_CANONICAL_NODES_def AUTHORITY_STATEMENT_DOMAIN_def)

lemma aad_encodes:
  assumes "quotes L" and "au_validate s = Inr ()"
  shows "\<exists>t. authority_external_aad L s = Inr t"
  using assms canonical_json_ok_iff [OF assms(1), of "external_aad_value s"]
  by (auto simp: authority_external_aad_def external_aad_value_def au_validate_ok map_err_ok
      jnodes_object jdepth_object_le [of _ 63, simplified] MAX_CANONICAL_NESTING_DEPTH_def
      MAX_CANONICAL_NODES_def)

section \<open>Acceptance\<close>

text \<open>The object decodes canonically to a statement with its canonical payload.\<close>

definition carries ::
    "lib \<Rightarrow> 'h cose_lib \<Rightarrow> string \<Rightarrow> 'h cose_sign1 \<Rightarrow> string \<Rightarrow> authority_statement \<Rightarrow> bool" where
  "carries L K encoded cose payload s \<longleftrightarrow>
     length encoded \<le> MAX_COSE_BYTES \<and> from_tagged_slice K encoded = Some cose
     \<and> to_tagged_vec K cose = Some encoded \<and> header_is_empty K (cs_unprotected cose)
     \<and> cs_payload cose = Some payload \<and> length payload \<le> MAX_PAYLOAD_BYTES
     \<and> from_json_au K payload = Some s \<and> au_validate s = Inr ()
     \<and> canonical_json L (au_value s) = Inr payload"

lemma decode_statement_ok:
  "decode_statement L K encoded = Inr (cose, payload, s) \<longleftrightarrow> carries L K encoded cose payload s"
proof -
  have "length payload \<le> MAX_PAYLOAD_BYTES \<Longrightarrow> length payload \<le> MAX_TRANSPORT_INPUT_BYTES"
    by (simp add: MAX_PAYLOAD_BYTES_def MAX_TRANSPORT_INPUT_BYTES_def)
  then show ?thesis
    unfolding decode_statement_def carries_def
    by (auto simp: rbind_ok ensure_ok ok_or_ok map_err_ok parse_record_ok au_trait_validate_ok)
qed

text \<open>The signature of the decoded object verifies under the key of the snapshot.\<close>

definition signature_accepted ::
    "lib \<Rightarrow> 'h cose_lib \<Rightarrow> authority_snapshot \<Rightarrow> 'h cose_sign1 \<Rightarrow> string \<Rightarrow> authority_statement \<Rightarrow> bool" where
  "signature_accepted L K n cose payload s \<longleftrightarrow>
     cs_protected cose = expected_header K (au_key_id s)
     \<and> (\<exists>b. header_to_vec K (expected_header K (au_key_id s)) = Some b \<and> cs_original_data cose = Some b)
     \<and> au_issuer s = sn_issuer n \<and> au_key_id s = sn_key_id n \<and> key_valid K (sn_public_key n)
     \<and> signature_valid K (cs_signature cose)
     \<and> (\<exists>aad. authority_external_aad L s = Inr aad
          \<and> verify_strict K (sn_public_key n)
              (sig_structure K (cs_protected cose) (cs_original_data cose) aad payload)
              (cs_signature cose))"

lemma check_signature_ok:
  "check_signature L K n (cose, payload, s) = Inr u \<longleftrightarrow> signature_accepted L K n cose payload s"
  unfolding check_signature_def signature_accepted_def Let_def
  by (auto simp: rbind_ok ensure_ok ok_or_ok)

lemma verify_authority_ok:
  "verify_authority L K encoded n c = Inr v \<longleftrightarrow>
     cx_validate c = Inr () \<and> sn_validate K n = Inr ()
     \<and> (\<exists>cose payload. carries L K encoded cose payload (vy_statement v)
          \<and> signature_accepted L K n cose payload (vy_statement v))
     \<and> verify_bindings (vy_statement v) n c = Inr ()
     \<and> vy_verified_at_ms v = cx_now_ms c \<and> vy_snapshot_observed_at_ms v = sn_observed_at_ms n
     \<and> vy_verifying_key_digest v = from_payload L (bytes_text (sn_public_key n))"
  unfolding verify_authority_def Let_def
  by (cases v) (auto simp: rbind_ok split_paired_Ex decode_statement_ok check_signature_ok)

section \<open>Assumptions on the libraries\<close>

text \<open>
  coset: decoding inverts encoding and records the encoded protected header, a built header and
  an empty one encode, and the Sig structure depends on the protected header only through its
  encoding and is an injective encoding of the external data and the payload.
\<close>

definition cose_conforms :: "'h cose_lib \<Rightarrow> bool" where
  "cose_conforms K \<longleftrightarrow>
     header_is_empty K (empty_header K)
     \<and> (\<forall>h p sig e. to_tagged_vec K \<lparr>cs_protected = h, cs_original_data = None,
            cs_unprotected = empty_header K, cs_payload = Some p, cs_signature = sig\<rparr> = Some e \<longrightarrow>
          (\<exists>b. header_to_vec K h = Some b
             \<and> from_tagged_slice K e = Some \<lparr>cs_protected = h, cs_original_data = Some b,
                 cs_unprotected = empty_header K, cs_payload = Some p, cs_signature = sig\<rparr>
             \<and> to_tagged_vec K \<lparr>cs_protected = h, cs_original_data = Some b,
                 cs_unprotected = empty_header K, cs_payload = Some p, cs_signature = sig\<rparr> = Some e))
     \<and> (\<forall>h b a p. header_to_vec K h = Some b \<longrightarrow> sig_structure K h (Some b) a p = sig_structure K h None a p)
     \<and> (\<forall>h a p h' a' p'. sig_structure K h None a p = sig_structure K h' None a' p' \<longrightarrow> a = a' \<and> p = p')"

text \<open>ed25519-dalek: a signature verifies under the public key of the seed that made it.\<close>

definition ed25519_conforms :: "'h cose_lib \<Rightarrow> bool" where
  "ed25519_conforms K \<longleftrightarrow>
     (\<forall>seed m. key_valid K (key_public K seed) \<and> signature_valid K (key_sign K seed m)
        \<and> verify_strict K (key_public K seed) m (key_sign K seed m))"

definition reads_statements :: "lib \<Rightarrow> 'h cose_lib \<Rightarrow> bool" where
  "reads_statements L K \<longleftrightarrow>
     (\<forall>s t. digest_ok (au_record_digest s) \<longrightarrow> canonical_json L (au_value s) = Inr t
        \<longrightarrow> from_json_au K t = Some s)"

lemma sign_ok:
  "sign L K sa s = Inr e \<longleftrightarrow>
     au_validate s = Inr () \<and> au_issuer s = sa_issuer sa \<and> au_key_id s = sa_key_id sa
     \<and> (\<exists>payload aad. canonical_json L (au_value s) = Inr payload
          \<and> length payload \<le> MAX_PAYLOAD_BYTES \<and> authority_external_aad L s = Inr aad
          \<and> to_tagged_vec K \<lparr>cs_protected = expected_header K (sa_key_id sa), cs_original_data = None,
               cs_unprotected = empty_header K, cs_payload = Some payload,
               cs_signature = key_sign K (sa_seed sa)
                 (sig_structure K (expected_header K (sa_key_id sa)) None aad payload)\<rparr> = Some e)
     \<and> length e \<le> MAX_COSE_BYTES"
  unfolding sign_def Let_def by (auto simp: rbind_ok ensure_ok ok_or_ok map_err_ok)

lemma sign_carries:
  assumes "cose_conforms K" and "ed25519_conforms K" and "reads_statements L K"
    and "digest_ok (au_record_digest s)" and "sign L K sa s = Inr e"
    and "sn_public_key n = key_public K (sa_seed sa)"
    and "sn_issuer n = au_issuer s" and "sn_key_id n = au_key_id s"
  shows "\<exists>cose payload. carries L K e cose payload s \<and> signature_accepted L K n cose payload s"
proof -
  let ?h = "expected_header K (au_key_id s)"
  from assms(5) obtain payload aad where s: "au_validate s = Inr ()" "au_key_id s = sa_key_id sa"
    and payload: "canonical_json L (au_value s) = Inr payload" "length payload \<le> MAX_PAYLOAD_BYTES"
    and aad: "authority_external_aad L s = Inr aad" and len: "length e \<le> MAX_COSE_BYTES"
    and e: "to_tagged_vec K \<lparr>cs_protected = ?h, cs_original_data = None,
               cs_unprotected = empty_header K, cs_payload = Some payload,
               cs_signature = key_sign K (sa_seed sa) (sig_structure K ?h None aad payload)\<rparr> = Some e"
    by (auto simp: sign_ok)
  let ?sig = "key_sign K (sa_seed sa) (sig_structure K ?h None aad payload)"
  from assms(1) e obtain b where b: "header_to_vec K ?h = Some b"
    and decoded: "from_tagged_slice K e = Some \<lparr>cs_protected = ?h, cs_original_data = Some b,
                 cs_unprotected = empty_header K, cs_payload = Some payload, cs_signature = ?sig\<rparr>"
      "to_tagged_vec K \<lparr>cs_protected = ?h, cs_original_data = Some b,
                 cs_unprotected = empty_header K, cs_payload = Some payload, cs_signature = ?sig\<rparr> = Some e"
    unfolding cose_conforms_def by blast
  let ?cose = "\<lparr>cs_protected = ?h, cs_original_data = Some b,
                 cs_unprotected = empty_header K, cs_payload = Some payload, cs_signature = ?sig\<rparr>"
  have empty: "header_is_empty K (empty_header K)"
    using assms(1) unfolding cose_conforms_def by (rule conjunct1)
  have read: "from_json_au K payload = Some s"
    using assms(3,4) payload(1) unfolding reads_statements_def by blast
  have "sig_structure K ?h (Some b) aad payload = sig_structure K ?h None aad payload"
    using assms(1) b unfolding cose_conforms_def by blast
  then have "signature_accepted L K n ?cose payload s"
    using assms(2,6-8) b aad by (simp add: signature_accepted_def ed25519_conforms_def)
  moreover have "carries L K e ?cose payload s"
    using s payload len decoded empty read by (simp add: carries_def)
  ultimately show ?thesis by blast
qed

end
