(* ===== verification/Authority_Fixtures.thy ===== *)
theory Authority_Fixtures
  imports Authority_Facts Fixtures
begin

text \<open>
  Concrete inputs for the properties of the authority profile: a strict reader for statements,
  a small tagged, length-prefixed container in the place of COSE, and a keyed checksum in the place of
  Ed25519, which together meet the assumptions of \<open>Authority_Facts\<close>; a statement about the
  decision of the fixture chain, with a snapshot and a context that fit it.
\<close>

section \<open>Reading statements\<close>

definition record_kinds :: "record_kind list" where
  "record_kinds = [KTaskCommitment, KEffectProposal, KAuthorizationDecision, KExecutionGrant,
     KEffectReceipt, KReconciliationRecord]"

definition read_au :: "jvalue \<Rightarrow> authority_statement option" where
  "read_au v = do {
     obj \<leftarrow> strict_object [''version'', ''authority_profile'', ''statement_id'', ''issuer'',
       ''key_id'', ''role'', ''audience'', ''record_profile'', ''record_version'', ''record_kind'',
       ''record_digest'', ''issued_at_ms'', ''not_before_ms'', ''expires_at_ms'',
       ''authority_epoch'', ''configuration_epoch''] v;
     version \<leftarrow> field obj ''version'' read_u64;
     profile \<leftarrow> field obj ''authority_profile'' read_string;
     statement_id \<leftarrow> field obj ''statement_id'' read_string;
     issuer \<leftarrow> field obj ''issuer'' read_string;
     key_id \<leftarrow> field obj ''key_id'' read_string;
     role \<leftarrow> field obj ''role'' read_string;
     audience \<leftarrow> field obj ''audience'' read_string;
     record_profile \<leftarrow> field obj ''record_profile'' read_string;
     record_version \<leftarrow> field obj ''record_version'' read_u64;
     kind \<leftarrow> field obj ''record_kind'' (read_name record_kind_name record_kinds);
     digest \<leftarrow> field obj ''record_digest'' read_digest;
     issued \<leftarrow> field obj ''issued_at_ms'' read_u64;
     not_before \<leftarrow> field obj ''not_before_ms'' read_u64;
     expires \<leftarrow> field obj ''expires_at_ms'' read_u64;
     authority_epoch \<leftarrow> field obj ''authority_epoch'' read_u64;
     configuration_epoch \<leftarrow> field obj ''configuration_epoch'' read_u64;
     Some \<lparr>au_version = version, au_authority_profile = profile, au_statement_id = statement_id,
           au_issuer = issuer, au_key_id = key_id, au_role = role, au_audience = audience,
           au_record_profile = record_profile, au_record_version = record_version,
           au_record_kind = kind, au_record_digest = digest, au_issued_at_ms = issued,
           au_not_before_ms = not_before, au_expires_at_ms = expires,
           au_authority_epoch = authority_epoch, au_configuration_epoch = configuration_epoch\<rparr> }"

lemma read_kind [simp]:
  "read_name record_kind_name record_kinds (JString (record_kind_name k)) = Some k"
  by (cases k) (simp_all add: read_name_def record_kinds_def)

lemma read_au_value: "digest_ok (au_record_digest s) \<Longrightarrow> read_au (norm (au_value s)) = Some s"
  unfolding read_au_def au_value_def by (subst strict_norm) (simp_all add: read_simps)

section \<open>A container and a signature scheme\<close>

definition put :: "string \<Rightarrow> string" where
  "put s = replicate (length s) (CHR ''x'') @ CHR '' '' # s"

definition get :: "string \<Rightarrow> (string \<times> string) option" where
  "get t =
     (let n = length (takeWhile (\<lambda>c. c = CHR ''x'') t) in
      if drop n t = [] \<or> length (drop (Suc n) t) < n then None
      else Some (take n (drop (Suc n) t), drop n (drop (Suc n) t)))"

lemma get_put [simp]: "get (put s @ t) = Some (s, t)"
proof -
  have prefix: "takeWhile (\<lambda>c. c = CHR ''x'') (put s @ t) = replicate (length s) (CHR ''x'')"
    unfolding put_def append_assoc by (subst takeWhile_append2) auto
  have rest: "drop (length s) (put s @ t) = CHR '' '' # s @ t"
    "drop (Suc (length s)) (put s @ t) = s @ t"
    by (simp_all add: put_def)
  show ?thesis unfolding get_def Let_def prefix length_replicate rest by simp
qed

lemma get_put_end [simp]: "get (put s) = Some (s, [])"
  using get_put [of s "[]"] by simp

lemma put_inj: "put s @ t = put s' @ t' \<Longrightarrow> s = s' \<and> t = t'"
  by (metis get_put option.inject prod.inject)

lemma put_eq [simp]: "put s = put s' \<longleftrightarrow> s = s'"
  using put_inj [of s "[]" s' "[]"] by auto

lemma put_length [simp]: "length (put s) = 2 * length s + 1"
  by (simp add: put_def)

definition put_header :: "string \<times> string \<Rightarrow> string" where
  "put_header h = put (fst h) @ put (snd h)"

definition get_header :: "string \<Rightarrow> (string \<times> string) option" where
  "get_header s = do {
     (k, r) \<leftarrow> get s; (c, r') \<leftarrow> get r; if r' = [] then Some (k, c) else None }"

lemma get_put_header [simp]: "get_header (put_header h) = Some h"
  by (simp add: get_header_def put_header_def)

definition protected_bytes :: "string \<times> string \<Rightarrow> string option \<Rightarrow> string" where
  "protected_bytes h b = (case b of None \<Rightarrow> put_header h | Some b \<Rightarrow> b)"

definition ref_sign :: "u8 list \<Rightarrow> string \<Rightarrow> string" where
  "ref_sign seed m = bytes_text (ref_sha (bytes_text seed @ m))"

text \<open>
  The container carries the tag of COSE: the byte 0xD2, or the longer form 0xD8 0x12 that the
  decoder reads and the encoder never writes.
\<close>

definition untag :: "string \<Rightarrow> string option" where
  "untag e =
     (if take 1 e = [CHR 0xD2] then Some (drop 1 e)
      else if take 2 e = [CHR 0xD8, CHR 0x12] then Some (drop 2 e) else None)"

lemma untag_simps [simp]:
  "untag (CHR 0xD2 # r) = Some r" "untag (CHR 0xD8 # CHR 0x12 # r) = Some r" "untag (CHR 0xD1 # r) = None"
  by (simp_all add: untag_def)

definition ref_cose :: "(string \<times> string) cose_lib" where
  "ref_cose = \<lparr>
     from_tagged_slice = (\<lambda>e. do {
       e \<leftarrow> untag e; (b, e) \<leftarrow> get e; h \<leftarrow> get_header b; (u, e) \<leftarrow> get e; n \<leftarrow> get_header u;
       (p, e) \<leftarrow> get e; (s, e) \<leftarrow> get e;
       if e = [] then Some \<lparr>cs_protected = h, cs_original_data = Some b, cs_unprotected = n,
                            cs_payload = Some p, cs_signature = s\<rparr> else None }),
     to_tagged_vec = (\<lambda>c. map_option (\<lambda>p. CHR 0xD2 #
       put (protected_bytes (cs_protected c) (cs_original_data c)) @ put (put_header (cs_unprotected c))
       @ put p @ put (cs_signature c)) (cs_payload c)),
     build_header = Pair, empty_header = ([], []), header_is_empty = (\<lambda>h. h = ([], [])),
     header_to_vec = Some \<circ> put_header,
     sig_structure = (\<lambda>h b a p. put (protected_bytes h b) @ put a @ put p),
     key_valid = (\<lambda>k. True), key_weak = (\<lambda>k. k = replicate 32 0), key_public = id,
     key_sign = ref_sign, signature_valid = (\<lambda>s. length s = 32),
     verify_strict = (\<lambda>k m s. s = ref_sign k m),
     from_json_au = conforming_reader read_au\<rparr>"

lemma ref_cose_fields [simp]:
  "to_tagged_vec ref_cose c = map_option (\<lambda>p. CHR 0xD2 #
     put (protected_bytes (cs_protected c) (cs_original_data c)) @ put (put_header (cs_unprotected c))
     @ put p @ put (cs_signature c)) (cs_payload c)"
  "build_header ref_cose = Pair" "empty_header ref_cose = ([], [])"
  "header_is_empty ref_cose h \<longleftrightarrow> h = ([], [])" "header_to_vec ref_cose h = Some (put_header h)"
  "sig_structure ref_cose h b a p = put (protected_bytes h b) @ put a @ put p"
  "key_valid ref_cose k" "key_weak ref_cose k \<longleftrightarrow> k = replicate 32 0" "key_public ref_cose = id"
  "key_sign ref_cose = ref_sign" "signature_valid ref_cose s \<longleftrightarrow> length s = 32"
  "verify_strict ref_cose k m s \<longleftrightarrow> s = ref_sign k m"
  by (simp_all add: ref_cose_def)

lemma ref_cose_decode:
  "from_tagged_slice ref_cose (CHR 0xD2 # put (put_header h) @ put (put_header n) @ put p @ put s) =
     Some \<lparr>cs_protected = h, cs_original_data = Some (put_header h), cs_unprotected = n,
           cs_payload = Some p, cs_signature = s\<rparr>"
  by (simp add: ref_cose_def)

lemma ref_sign_length [simp]: "length (ref_sign k m) = 32"
  by (simp add: ref_sign_def bytes_text_def ref_sha_def)

lemma ref_cose_conforms: "cose_conforms ref_cose"
  unfolding cose_conforms_def
  by (auto simp: protected_bytes_def ref_cose_decode dest!: put_inj)

lemma ref_ed25519_conforms: "ed25519_conforms ref_cose"
  by (simp add: ed25519_conforms_def)

lemma ref_reads_statements: "reads_statements ref_lib ref_cose"
  unfolding reads_statements_def
  by (simp add: ref_cose_def conforming_reader_canonical [OF ref_lib_quote] read_au_value)

section \<open>A statement about the fixture decision\<close>

definition fx_seed :: "u8 list" where "fx_seed = replicate 32 7"

definition fx_au :: authority_statement where
  "fx_au = \<lparr>au_version = 1, au_authority_profile = AUTHORITY_PROFILE,
     au_statement_id = ''statement-1'', au_issuer = ''issuer:local'', au_key_id = ''key-1'',
     au_role = ''policy-authorizer'', au_audience = ''executor:local'',
     au_record_profile = ''effect-transaction/core'', au_record_version = 1,
     au_record_kind = KAuthorizationDecision, au_record_digest = ad_hash,
     au_issued_at_ms = 3000, au_not_before_ms = 3000, au_expires_at_ms = 10000,
     au_authority_epoch = 7, au_configuration_epoch = 3\<rparr>"

definition fx_sn :: authority_snapshot where
  "fx_sn = \<lparr>sn_issuer = ''issuer:local'', sn_key_id = ''key-1'', sn_public_key = fx_seed,
     sn_authorized_roles = [''policy-authorizer''], sn_authorized_audiences = [''executor:local''],
     sn_authority_epoch = 7, sn_configuration_epoch = 3, sn_key_valid_from_ms = 1000,
     sn_key_valid_until_ms = 100000, sn_revoked_at_ms = None, sn_observed_at_ms = 3500\<rparr>"

definition fx_cx :: verification_context where
  "fx_cx = \<lparr>cx_expected_record_profile = ''effect-transaction/core'',
     cx_expected_record_version = 1, cx_expected_record_kind = KAuthorizationDecision,
     cx_expected_record_digest = ad_hash, cx_expected_role = ''policy-authorizer'',
     cx_expected_audience = ''executor:local'', cx_now_ms = 4000,
     cx_maximum_snapshot_age_ms = 1000\<rparr>"

definition fx_sa :: signing_authority where
  "fx_sa = \<lparr>sa_issuer = ''issuer:local'', sa_key_id = ''key-1'', sa_seed = fx_seed\<rparr>"

lemmas au_eval = validate_opaque_def au_validate_token_def au_safe_integer_def
  MAX_ASSERTION_LIFETIME_MS_def MAX_AUTHORITY_SNAPSHOT_AGE_MS_def text_eval

lemma fx_au_valid: "au_validate fx_au = Inr ()"
  by (simp add: au_validate_def fx_au_def au_eval AUTHORITY_PROFILE_VERSION_def)

lemma fx_seed_strong: "fx_seed \<noteq> replicate 32 0"
  by (simp add: fx_seed_def replicate_eq_replicate)

lemma fx_sn_valid: "sn_validate ref_cose fx_sn = Inr ()"
  using fx_seed_strong by (simp add: sn_validate_def fx_sn_def au_eval)

lemma fx_cx_valid: "cx_validate fx_cx = Inr ()"
  by (simp add: cx_validate_def fx_cx_def au_eval)

lemma fx_bindings: "verify_bindings fx_au fx_sn fx_cx = Inr ()"
  by (simp add: verify_bindings_def fx_au_def fx_sn_def fx_cx_def)

lemma fx_au_digest: "digest_ok (au_record_digest fx_au)"
  using fx_commitments(3) commitment_digest_ok [OF ref_lib_hash] by (auto simp: fx_au_def ad_commitment_def)

lemma ref_signs:
  assumes "au_validate s = Inr ()" and "text_bound (au_value s) \<le> 4000"
    and "au_issuer s = sa_issuer sa" and "au_key_id s = sa_key_id sa"
  shows "\<exists>e. sign ref_lib ref_cose sa s = Inr e"
proof -
  obtain p where p: "canonical_json ref_lib (au_value s) = Inr p"
    using au.valid_canonical [OF ref_lib_quotes] assms(1) by (auto simp: au_trait_validate_ok)
  with assms(2) have len: "length p \<le> 4000"
    using encode_text_bound [OF ref_lib_quote, of "au_value s" p]
    by (auto simp: canonical_json_def rbind_ok)
  obtain a where a: "authority_external_aad ref_lib s = Inr a"
    using aad_encodes [OF ref_lib_quotes assms(1)] by blast
  have "length (sa_key_id sa) \<le> 256"
    using assms(1,4) by (auto simp: au_validate_ok validate_opaque_ok)
  then show ?thesis
    unfolding sign_ok using assms p len a
    by (simp add: expected_header_def protected_bytes_def put_header_def MAX_PAYLOAD_BYTES_def
        MAX_COSE_BYTES_def COSE_CONTENT_TYPE_def)
qed

lemmas fixture_signs = ref_signs [where sa = fx_sa]

lemma fx_sign: "\<exists>e. sign ref_lib ref_cose fx_sa fx_au = Inr e"
  using fx_au_digest
  by (intro fixture_signs fx_au_valid) (simp_all add: fx_sa_def au_value_def fx_au_def AUTHORITY_PROFILE_def)

lemma fixture_accepts:
  assumes "sign ref_lib ref_cose fx_sa s = Inr e" and "digest_ok (au_record_digest s)"
    and "au_issuer s = sa_issuer fx_sa" and "au_key_id s = sa_key_id fx_sa"
    and "cx_validate c = Inr ()" and "verify_bindings s fx_sn c = Inr ()"
  shows "verify_authority ref_lib ref_cose e fx_sn c
    = Inr \<lparr>vy_statement = s, vy_verified_at_ms = cx_now_ms c,
           vy_snapshot_observed_at_ms = sn_observed_at_ms fx_sn,
           vy_verifying_key_digest = from_payload ref_lib (bytes_text (sn_public_key fx_sn))\<rparr>"
proof -
  have "sn_public_key fx_sn = key_public ref_cose (sa_seed fx_sa)"
    "sn_issuer fx_sn = au_issuer s" "sn_key_id fx_sn = au_key_id s"
    using assms(3,4) by (simp_all add: fx_sn_def fx_sa_def)
  from sign_carries [OF ref_cose_conforms ref_ed25519_conforms ref_reads_statements assms(2,1) this]
  show ?thesis using fx_sn_valid assms(5,6) by (auto simp: verify_authority_ok)
qed

end
