(* ===== verification/Authority_Properties.thy ===== *)
theory Authority_Properties
  imports Authority_Fixtures
begin

text \<open>
  The properties of the authority profile: what an accepted assertion guarantees, that an
  honestly signed assertion is accepted, and that an accepted one was signed.
\<close>

section \<open>What acceptance guarantees\<close>

text \<open>
  C30: An accepted assertion is current. At the verification time the assertion is inside its
  validity interval, which is at most five minutes long; the trust snapshot is not from the
  future, not older than the configured age, which is at most five minutes, and not older than
  the statement; the key is valid now and was when the statement was issued, and is not revoked.
  All bounds hold for the unsigned values as mathematical integers, so no difference wrapped.
\<close>

theorem accepted_authority_is_current:
  assumes "verify_authority L K encoded n c = Inr v"
  shows "uint (au_issued_at_ms (vy_statement v)) \<le> uint (au_not_before_ms (vy_statement v))
    \<and> uint (au_not_before_ms (vy_statement v)) \<le> uint (cx_now_ms c)
    \<and> uint (cx_now_ms c) < uint (au_expires_at_ms (vy_statement v))
    \<and> uint (au_expires_at_ms (vy_statement v)) - uint (au_not_before_ms (vy_statement v)) \<le> 300000
    \<and> uint (au_issued_at_ms (vy_statement v)) \<le> uint (sn_observed_at_ms n)
    \<and> uint (sn_observed_at_ms n) \<le> uint (cx_now_ms c)
    \<and> uint (cx_now_ms c) - uint (sn_observed_at_ms n) \<le> uint (cx_maximum_snapshot_age_ms c)
    \<and> uint (cx_maximum_snapshot_age_ms c) \<le> 300000
    \<and> sn_key_valid_from_ms n \<le> au_issued_at_ms (vy_statement v)
    \<and> cx_now_ms c < sn_key_valid_until_ms n
    \<and> (case sn_revoked_at_ms n of None \<Rightarrow> True | Some t \<Rightarrow> cx_now_ms c < t)"
proof -
  from assms have s: "au_validate (vy_statement v) = Inr ()" and c: "cx_validate c = Inr ()"
    and b: "verify_bindings (vy_statement v) n c = Inr ()"
    by (auto simp: verify_authority_ok carries_def)
  have sub: "uint (x - y) = uint x - uint y" if "y \<le> x" for x y :: u64
    using that by (simp add: uint_sub_if' word_le_def)
  have "uint (au_expires_at_ms (vy_statement v)) - uint (au_not_before_ms (vy_statement v)) \<le> 300000"
    using s sub [of "au_not_before_ms (vy_statement v)" "au_expires_at_ms (vy_statement v)"]
    by (simp add: au_validate_ok MAX_ASSERTION_LIFETIME_MS_def word_le_def word_less_def)
  moreover have "uint (cx_now_ms c) - uint (sn_observed_at_ms n) \<le> uint (cx_maximum_snapshot_age_ms c)"
    using b sub [of "sn_observed_at_ms n" "cx_now_ms c"] by (simp add: verify_bindings_ok word_le_def)
  ultimately show ?thesis
    using s b c
    by (auto simp: au_validate_ok verify_bindings_ok cx_validate_ok MAX_AUTHORITY_SNAPSHOT_AGE_MS_def
        word_le_def word_less_def split: option.split)
qed

text \<open>The fixture assertion is accepted.\<close>

lemma fx_authority_accepted:
  assumes "sign ref_lib ref_cose fx_sa fx_au = Inr e"
  shows "\<exists>v. verify_authority ref_lib ref_cose e fx_sn fx_cx = Inr v \<and> vy_statement v = fx_au"
proof -
  have fields: "sn_public_key fx_sn = key_public ref_cose (sa_seed fx_sa)"
    "sn_issuer fx_sn = au_issuer fx_au" "sn_key_id fx_sn = au_key_id fx_au"
    by (simp_all add: fx_sn_def fx_sa_def fx_au_def)
  from sign_carries [OF ref_cose_conforms ref_ed25519_conforms ref_reads_statements fx_au_digest
      assms fields]
  have "verify_authority ref_lib ref_cose e fx_sn fx_cx
      = Inr \<lparr>vy_statement = fx_au, vy_verified_at_ms = cx_now_ms fx_cx,
             vy_snapshot_observed_at_ms = sn_observed_at_ms fx_sn,
             vy_verifying_key_digest = from_payload ref_lib (bytes_text (sn_public_key fx_sn))\<rparr>"
    by (simp add: verify_authority_ok fx_cx_valid fx_sn_valid fx_bindings)
  then show ?thesis by simp
qed

theorem accepted_authority_is_current_witness:
  "uint (cx_now_ms fx_cx) < uint (au_expires_at_ms fx_au)
   \<and> uint (cx_now_ms fx_cx) - uint (sn_observed_at_ms fx_sn) \<le> uint (cx_maximum_snapshot_age_ms fx_cx)"
proof -
  obtain e where "sign ref_lib ref_cose fx_sa fx_au = Inr e" using fx_sign by blast
  from fx_authority_accepted [OF this] obtain v
    where "verify_authority ref_lib ref_cose e fx_sn fx_cx = Inr v" "vy_statement v = fx_au" by blast
  with accepted_authority_is_current [OF this(1)] show ?thesis by simp
qed

text \<open>
  C31: An accepted assertion is about exactly the expected record and comes from an authorized
  signer: kind, version, profile and digest of the record, role and audience are those of the
  context, role and audience are authorized by the snapshot, issuer, key and epochs are those of
  the snapshot, and a signature over the Sig structure of the canonical statement verifies under
  the snapshot's key.
\<close>

theorem accepted_authority_binds_context:
  assumes "verify_authority L K encoded n c = Inr v"
  shows "au_record_digest (vy_statement v) = cx_expected_record_digest c
    \<and> au_record_kind (vy_statement v) = cx_expected_record_kind c
    \<and> au_record_version (vy_statement v) = cx_expected_record_version c
    \<and> au_record_profile (vy_statement v) = cx_expected_record_profile c
    \<and> au_role (vy_statement v) = cx_expected_role c
    \<and> au_role (vy_statement v) \<in> set (sn_authorized_roles n)
    \<and> au_audience (vy_statement v) = cx_expected_audience c
    \<and> au_audience (vy_statement v) \<in> set (sn_authorized_audiences n)
    \<and> au_issuer (vy_statement v) = sn_issuer n \<and> au_key_id (vy_statement v) = sn_key_id n
    \<and> au_authority_epoch (vy_statement v) = sn_authority_epoch n
    \<and> au_configuration_epoch (vy_statement v) = sn_configuration_epoch n
    \<and> \<not> key_weak K (sn_public_key n)
    \<and> (\<exists>b payload aad sig.
         header_to_vec K (expected_header K (au_key_id (vy_statement v))) = Some b
         \<and> canonical_json L (au_value (vy_statement v)) = Inr payload
         \<and> authority_external_aad L (vy_statement v) = Inr aad
         \<and> verify_strict K (sn_public_key n)
             (sig_structure K (expected_header K (au_key_id (vy_statement v))) (Some b) aad payload) sig)"
  using assms
  unfolding verify_authority_ok verify_bindings_ok carries_def signature_accepted_def sn_validate_ok
  by auto

theorem accepted_authority_binds_context_witness:
  "\<exists>e v. verify_authority ref_lib ref_cose e fx_sn fx_cx = Inr v
     \<and> au_record_digest (vy_statement v) = cx_expected_record_digest fx_cx"
proof -
  obtain e where "sign ref_lib ref_cose fx_sa fx_au = Inr e" using fx_sign by blast
  from fx_authority_accepted [OF this] obtain v
    where "verify_authority ref_lib ref_cose e fx_sn fx_cx = Inr v" by blast
  with accepted_authority_binds_context [OF this] show ?thesis by blast
qed

section \<open>Signing and verifying\<close>

text \<open>
  C32: Signing and verification fit together: what \<open>sign\<close> produces for a statement is accepted by
  \<open>verify_authority\<close>, which returns that statement, for every snapshot with the signer's key and
  identity and every context that the statement meets. The libraries are assumed to decode what
  they encode and to verify what they sign.
\<close>

theorem signed_authority_is_accepted:
  assumes "cose_conforms K" and "ed25519_conforms K" and "reads_statements L K"
    and "digest_ok (au_record_digest s)" and "sign L K sa s = Inr e"
    and "sn_public_key n = key_public K (sa_seed sa)"
    and "sn_issuer n = sa_issuer sa" and "sn_key_id n = sa_key_id sa"
    and "sn_validate K n = Inr ()" and "cx_validate c = Inr ()" and "verify_bindings s n c = Inr ()"
  shows "\<exists>v. verify_authority L K e n c = Inr v \<and> vy_statement v = s"
proof -
  from assms(5,7,8) have "sn_issuer n = au_issuer s" "sn_key_id n = au_key_id s"
    by (simp_all add: sign_ok)
  with sign_carries [OF assms(1-6)] obtain cose payload
    where "carries L K e cose payload s" "signature_accepted L K n cose payload s" by blast
  then have "verify_authority L K e n c
      = Inr \<lparr>vy_statement = s, vy_verified_at_ms = cx_now_ms c,
             vy_snapshot_observed_at_ms = sn_observed_at_ms n,
             vy_verifying_key_digest = from_payload L (bytes_text (sn_public_key n))\<rparr>"
    using assms(9-11) by (auto simp: verify_authority_ok)
  then show ?thesis by simp
qed

theorem signed_authority_is_accepted_witness:
  "\<exists>e v. sign ref_lib ref_cose fx_sa fx_au = Inr e
     \<and> verify_authority ref_lib ref_cose e fx_sn fx_cx = Inr v \<and> vy_statement v = fx_au"
proof -
  obtain e where e: "sign ref_lib ref_cose fx_sa fx_au = Inr e" using fx_sign by blast
  have fields: "sn_public_key fx_sn = key_public ref_cose (sa_seed fx_sa)"
    "sn_issuer fx_sn = sa_issuer fx_sa" "sn_key_id fx_sn = sa_key_id fx_sa"
    by (simp_all add: fx_sn_def fx_sa_def)
  from signed_authority_is_accepted [OF ref_cose_conforms ref_ed25519_conforms ref_reads_statements
      fx_au_digest e fields fx_sn_valid fx_cx_valid fx_bindings] e
  show ?thesis by blast
qed

text \<open>
  C8: Authenticity: when the only messages that verify under the snapshot's key are the Sig
  structures of the statements in \<open>S\<close> (those its holder signed), every accepted statement is in
  \<open>S\<close>. An assertion cannot be edited, and a signature cannot be moved to another statement.
\<close>

theorem accepted_authority_was_signed:
  assumes "cose_conforms K" and "quote_conforms L"
    and "\<And>m sig. verify_strict K (sn_public_key n) m sig \<Longrightarrow>
      \<exists>s \<in> S. \<exists>h payload aad. canonical_json L (au_value s) = Inr payload
        \<and> authority_external_aad L s = Inr aad \<and> m = sig_structure K h None aad payload"
    and "verify_authority L K encoded n c = Inr v"
  shows "vy_statement v \<in> S"
proof -
  let ?h = "expected_header K (au_key_id (vy_statement v))"
  from assms(4) obtain cose payload where "carries L K encoded cose payload (vy_statement v)"
    and sig: "signature_accepted L K n cose payload (vy_statement v)"
    unfolding verify_authority_ok by blast
  then have payload: "canonical_json L (au_value (vy_statement v)) = Inr payload"
    by (simp add: carries_def)
  from sig obtain b aad where b: "header_to_vec K ?h = Some b"
    and ok: "verify_strict K (sn_public_key n) (sig_structure K ?h (Some b) aad payload) (cs_signature cose)"
    unfolding signature_accepted_def by metis
  from assms(3) [OF ok] obtain s h payload' aad' where s: "s \<in> S"
    "canonical_json L (au_value s) = Inr payload'"
    "sig_structure K ?h (Some b) aad payload = sig_structure K h None aad' payload'"
    by blast
  moreover have "sig_structure K ?h (Some b) aad payload = sig_structure K ?h None aad payload"
    using assms(1) b unfolding cose_conforms_def by blast
  ultimately have "sig_structure K ?h None aad payload = sig_structure K h None aad' payload'" by simp
  with assms(1) have "payload = payload'" unfolding cose_conforms_def by blast
  with payload s(2) have "vy_statement v = s" by (auto intro: au.canonical_inj [OF assms(2)])
  with s(1) show ?thesis by simp
qed

text \<open>A variant of the fixture library under whose key only the fixture message verifies.\<close>

definition fx_message :: string where
  "fx_message = sig_structure ref_cose (expected_header ref_cose ''key-1'') None
     (case authority_external_aad ref_lib fx_au of Inl e \<Rightarrow> [] | Inr a \<Rightarrow> a)
     (case canonical_json ref_lib (au_value fx_au) of Inl e \<Rightarrow> [] | Inr p \<Rightarrow> p)"

definition strict_cose :: "(string \<times> string) cose_lib" where
  "strict_cose = ref_cose\<lparr>verify_strict := \<lambda>k m s. m = fx_message \<and> s = ref_sign k m\<rparr>"

lemma strict_fields:
  "from_tagged_slice strict_cose = from_tagged_slice ref_cose"
  "to_tagged_vec strict_cose = to_tagged_vec ref_cose"
  "header_is_empty strict_cose = header_is_empty ref_cose"
  "header_to_vec strict_cose = header_to_vec ref_cose"
  "sig_structure strict_cose = sig_structure ref_cose"
  "empty_header strict_cose = empty_header ref_cose"
  "build_header strict_cose = build_header ref_cose"
  "key_valid strict_cose = key_valid ref_cose" "key_weak strict_cose = key_weak ref_cose"
  "signature_valid strict_cose = signature_valid ref_cose"
  "from_json_au strict_cose = from_json_au ref_cose"
  by (simp_all add: strict_cose_def)

lemma fx_message_parts:
  obtains p a where "canonical_json ref_lib (au_value fx_au) = Inr p"
    and "authority_external_aad ref_lib fx_au = Inr a"
    and "fx_message = sig_structure ref_cose (expected_header ref_cose ''key-1'') None a p"
proof -
  obtain p where p: "canonical_json ref_lib (au_value fx_au) = Inr p"
    using au.valid_canonical [OF ref_lib_quotes] fx_au_valid by (auto simp: au_trait_validate_ok)
  obtain a where a: "authority_external_aad ref_lib fx_au = Inr a"
    using aad_encodes [OF ref_lib_quotes fx_au_valid] by blast
  have "fx_message = sig_structure ref_cose (expected_header ref_cose ''key-1'') None a p"
    by (simp only: fx_message_def p a sum.case)
  with p a that show ?thesis by blast
qed

lemma strict_only_fixture:
  assumes "verify_strict strict_cose k m sig"
  shows "\<exists>s \<in> {fx_au}. \<exists>h payload aad. canonical_json ref_lib (au_value s) = Inr payload
    \<and> authority_external_aad ref_lib s = Inr aad \<and> m = sig_structure strict_cose h None aad payload"
proof -
  from assms have "m = fx_message" by (simp add: strict_cose_def)
  with fx_message_parts show ?thesis unfolding strict_fields by (metis singletonI)
qed

lemma strict_accepts:
  "\<exists>e v. verify_authority ref_lib strict_cose e fx_sn fx_cx = Inr v"
proof -
  obtain e where e: "sign ref_lib ref_cose fx_sa fx_au = Inr e" using fx_sign by blast
  have sn: "sn_public_key fx_sn = key_public ref_cose (sa_seed fx_sa)"
    "sn_issuer fx_sn = au_issuer fx_au" "sn_key_id fx_sn = au_key_id fx_au"
    by (simp_all add: fx_sn_def fx_sa_def fx_au_def)
  from sign_carries [OF ref_cose_conforms ref_ed25519_conforms ref_reads_statements fx_au_digest e sn]
  obtain cose payload where c: "carries ref_lib ref_cose e cose payload fx_au"
    and s: "signature_accepted ref_lib ref_cose fx_sn cose payload fx_au" by blast
  from fx_message_parts obtain p a where p: "canonical_json ref_lib (au_value fx_au) = Inr p"
    and a: "authority_external_aad ref_lib fx_au = Inr a"
    and m: "fx_message = sig_structure ref_cose (expected_header ref_cose ''key-1'') None a p" .
  from c p have "payload = p" by (simp add: carries_def)
  then have "signature_accepted ref_lib strict_cose fx_sn cose payload fx_au"
    using s a m unfolding signature_accepted_def expected_header_def strict_fields
    by (auto simp: strict_cose_def fx_au_def protected_bytes_def)
  moreover have "carries ref_lib strict_cose e cose payload fx_au"
    using c unfolding carries_def strict_fields .
  moreover have "sn_validate strict_cose fx_sn = Inr ()"
    using fx_sn_valid unfolding sn_validate_ok strict_fields .
  ultimately have "verify_authority ref_lib strict_cose e fx_sn fx_cx
      = Inr \<lparr>vy_statement = fx_au, vy_verified_at_ms = cx_now_ms fx_cx,
             vy_snapshot_observed_at_ms = sn_observed_at_ms fx_sn,
             vy_verifying_key_digest = from_payload ref_lib (bytes_text (sn_public_key fx_sn))\<rparr>"
    using fx_cx_valid fx_bindings by (auto simp: verify_authority_ok)
  then show ?thesis by blast
qed

theorem accepted_authority_was_signed_witness:
  "\<exists>e v. verify_authority ref_lib strict_cose e fx_sn fx_cx = Inr v \<and> vy_statement v \<in> {fx_au}"
proof -
  have conf: "cose_conforms strict_cose"
    using ref_cose_conforms unfolding cose_conforms_def strict_fields .
  obtain e v where v: "verify_authority ref_lib strict_cose e fx_sn fx_cx = Inr v"
    using strict_accepts by blast
  have "vy_statement v \<in> {fx_au}"
    by (rule accepted_authority_was_signed [OF conf ref_lib_quote _ v]) (erule strict_only_fixture)
  with v show ?thesis by blast
qed

section \<open>Error codes\<close>

text \<open>
  The stable error codes are distinct: two errors have the same code only if they are the
  same error, up to the field name of an invalid field or an unsafe integer and the cause of a
  protocol error.
\<close>

fun error_kind :: "authority_error \<Rightarrow> authority_error" where
  "error_kind (InvalidField f) = InvalidField []"
| "error_kind (AuUnsafeInteger f) = AuUnsafeInteger []"
| "error_kind (AuProtocol e) = AuProtocol Json"
| "error_kind e = e"

theorem authority_codes_distinct:
  "authority_error_code a = authority_error_code b \<longleftrightarrow> error_kind a = error_kind b"
  by (cases a; cases b; simp)

end
