(* ===== verification/Test_Harness.thy ===== *)
theory Test_Harness
  imports Json_Reader
begin

text \<open>
  The vocabulary of the crates' own unit tests (the \<open>mod tests\<close> blocks of the crates). A test
  function fails in two ways: a question mark returns the error of an operation, or an
  assertion panics. A test passes when its value is \<open>Inr ()\<close>. The state that a test mutates
  (a store, an executor with its database) is threaded through the calls.
\<close>

datatype 'e failure = Returned 'e | Panicked

text \<open>\<open>operation?\<close> and \<open>assert!(b)\<close>.\<close>

definition attempt :: "'e + 'a \<Rightarrow> 'e failure + 'a" where
  "attempt r = map_err Returned r"

definition assert_that :: "bool \<Rightarrow> 'e failure + unit" where
  "assert_that b = ensure b Panicked"

text \<open>A call that changes the state, followed by \<open>?\<close>; and one whose result is inspected.\<close>

definition call :: "('s \<Rightarrow> ('e + 'a) \<times> 's) \<Rightarrow> ('a \<Rightarrow> 's \<Rightarrow> 'e failure + 'b) \<Rightarrow> 's \<Rightarrow> 'e failure + 'b" where
  "call operation k s = (case operation s of (r, s') \<Rightarrow> rbind (attempt r) (\<lambda>x. k x s'))"

definition observe :: "('s \<Rightarrow> 'r \<times> 's) \<Rightarrow> ('r \<Rightarrow> 's \<Rightarrow> 'e failure + 'b) \<Rightarrow> 's \<Rightarrow> 'e failure + 'b" where
  "observe operation k s = (case operation s of (r, s') \<Rightarrow> k r s')"

definition and_then :: "('e failure + unit) \<Rightarrow> ('s \<Rightarrow> 'e failure + 'b) \<Rightarrow> 's \<Rightarrow> 'e failure + 'b" where
  "and_then m k s = rbind m (\<lambda>_. k s)"

definition passed :: "'s \<Rightarrow> 'e failure + unit" where
  "passed s = Inr ()"

lemma attempt_simps [simp]:
  "attempt (Inr x) = Inr x"
  "attempt (Inl e) = Inl (Returned e)"
  by (simp_all add: attempt_def)

lemma assert_that_simps [simp]:
  "assert_that True = Inr ()"
  "assert_that b = Inr () \<longleftrightarrow> b"
  by (simp_all add: assert_that_def ensure_ok)

lemma call_ok: "operation s = (Inr x, s') \<Longrightarrow> call operation k s = k x s'"
  by (simp add: call_def)

lemma observe_result: "operation s = (r, s') \<Longrightarrow> observe operation k s = k r s'"
  by (simp add: observe_def)

lemma and_then_ok [simp]: "and_then (Inr ()) k s = k s"
  by (simp add: and_then_def)

lemma passed_ok [simp]: "passed s = Inr ()"
  by (simp add: passed_def)

section \<open>Visible text\<close>

text \<open>The identifiers that the tests make up consist of visible ASCII characters.\<close>

definition visible :: "string \<Rightarrow> bool" where
  "visible s \<longleftrightarrow> list_all (\<lambda>c. 0x21 \<le> (of_char c :: nat) \<and> (of_char c :: nat) < 0x7F) s"

lemma visible_append [simp]: "visible (s @ t) \<longleftrightarrow> visible s \<and> visible t"
  by (simp add: visible_def)

lemma visible_Cons [simp]:
  "visible (c # s) \<longleftrightarrow> 0x21 \<le> (of_char c :: nat) \<and> (of_char c :: nat) < 0x7F \<and> visible s"
  by (simp add: visible_def)

lemma visible_Nil [simp]: "visible []"
  by (simp add: visible_def)

lemma chars_visible: "visible s \<Longrightarrow> chars s = map of_char s"
  by (induction s) (auto simp: visible_def)

lemma visible_trimmed_text:
  assumes "visible s" and "s \<noteq> []" and "length s \<le> n"
  shows "validate_trimmed_text f s n = Inr ()"
proof -
  have c: "0x21 \<le> (of_char c :: nat) \<and> (of_char c :: nat) < 0x7F" if "c \<in> set s" for c
    using assms(1) that by (simp add: visible_def list_all_iff)
  have "\<not> is_whitespace (of_char c)" if "c \<in> set s" for c
    using c [OF that] by (auto simp: is_whitespace_def)
  then have "is_trimmed s"
    using assms(2) by (simp add: is_trimmed_def chars_visible [OF assms(1)] trim_chars_id hd_map last_map)
  moreover have "\<not> is_control (of_char c)" if "c \<in> set s" for c
    using c [OF that] by (auto simp: is_control_def)
  then have "\<not> list_ex is_control (map of_char s)" by (simp add: list_ex_iff)
  ultimately show ?thesis
    using assms by (simp add: validate_trimmed_text_def validate_nonempty_text_def chars_visible)
qed

lemma visible_identifier:
  "visible s \<Longrightarrow> s \<noteq> [] \<Longrightarrow> length s \<le> 256 \<Longrightarrow> validate_identifier f s = Inr ()"
  unfolding validate_identifier_def by (rule visible_trimmed_text)

lemma visible_decimal: "visible (decimal n)"
proof -
  have "list_all is_digit (decimal n)" using decimal_props by blast
  moreover have "0x21 \<le> (of_char c :: nat) \<and> (of_char c :: nat) < 0x7F" if "is_digit c" for c
  proof -
    from that have "of_char CHR ''0'' \<le> (of_char c :: nat)" "(of_char c :: nat) \<le> of_char CHR ''9''"
      by (simp_all add: is_digit_def less_eq_char_def)
    then show ?thesis by simp
  qed
  ultimately show ?thesis by (auto simp: visible_def list_all_iff)
qed

end
