(* ===== verification/Authority_Vector.thy ===== *)
theory Authority_Vector
  imports Authority_Fixtures
begin

text \<open>
  The generator of the published authority vector
  (crates/effect-transaction-authority/examples/generate_authority_vector.rs): its key,
  statement, signing and the JSON document it prints. That the test of the published vector
  passes on this document is shown in \<open>Authority_Vector_Test\<close>.
\<close>

section \<open>The generator\<close>

text \<open>\<open>hex\<close>, on the bytes of a string.\<close>

definition text_bytes :: "string \<Rightarrow> u8 list" where
  "text_bytes s = map (\<lambda>c. of_nat (of_char c)) s"

definition hex :: "u8 list \<Rightarrow> string" where
  "hex bytes =
     concat (map (\<lambda>byte. [HEX ! unat (drop_bit 4 byte), HEX ! unat (and byte 0x0f)]) bytes)"

definition vector_seed :: "u8 list" where "vector_seed = replicate 32 7"

definition vector_statement :: "lib \<Rightarrow> authority_statement" where
  "vector_statement L = \<lparr>au_version = 1, au_authority_profile = AUTHORITY_PROFILE,
     au_statement_id = ''authority-assertion-001'', au_issuer = ''spiffe://example.test/authority'',
     au_key_id = ''root-2026-09'', au_role = ''execution_authorizer'',
     au_audience = ''executor:production-a'', au_record_profile = ''effect-transaction/core/0.1'',
     au_record_version = 1, au_record_kind = KExecutionGrant,
     au_record_digest = from_payload L ''exact canonical ETP execution grant'',
     au_issued_at_ms = 1000000, au_not_before_ms = 1000000, au_expires_at_ms = 1300000,
     au_authority_epoch = 12, au_configuration_epoch = 41\<rparr>"

definition vector_snapshot_json :: "u8 list \<Rightarrow> jvalue" where
  "vector_snapshot_json public_key = JObject
     [(''issuer'', JString ''spiffe://example.test/authority''),
      (''key_id'', JString ''root-2026-09''),
      (''public_key_hex'', JString (hex public_key)),
      (''authorized_roles'', JArray [JString ''execution_authorizer'']),
      (''authorized_audiences'', JArray [JString ''executor:production-a'']),
      (''authority_epoch'', JNumber (JInt 12)),
      (''configuration_epoch'', JNumber (JInt 41)),
      (''key_valid_from_ms'', JNumber (JInt 900000)),
      (''key_valid_until_ms'', JNumber (JInt 2000000)),
      (''revoked_at_ms'', JNull),
      (''observed_at_ms'', JNumber (JInt 1000100))]"

definition vector_context_json :: "digest32 \<Rightarrow> jvalue" where
  "vector_context_json record_digest = JObject
     [(''expected_record_profile'', JString ''effect-transaction/core/0.1''),
      (''expected_record_version'', JNumber (JInt 1)),
      (''expected_record_kind'', JString ''execution_grant''),
      (''expected_record_digest'', jdigest record_digest),
      (''expected_role'', JString ''execution_authorizer''),
      (''expected_audience'', JString ''executor:production-a''),
      (''now_ms'', JNumber (JInt 1000100)),
      (''maximum_snapshot_age_ms'', JNumber (JInt 1000))]"

definition vector_mutations_json :: jvalue where
  "vector_mutations_json = JArray
     [JObject [(''id'', JString ''signature_bit_flip''), (''operation'', JString ''xor_byte_from_end''),
        (''offset'', JNumber (JInt 1)), (''mask'', JNumber (JInt 1)),
        (''expected_error'', JString ''invalid_signature'')],
      JObject [(''id'', JString ''missing_tag_18''), (''operation'', JString ''remove_prefix_bytes''),
        (''count'', JNumber (JInt 1)), (''expected_error'', JString ''malformed_cose'')],
      JObject [(''id'', JString ''wrong_cbor_tag''), (''operation'', JString ''replace_prefix_hex''),
        (''from_hex'', JString ''d2''), (''to_hex'', JString ''d1''),
        (''expected_error'', JString ''malformed_cose'')],
      JObject [(''id'', JString ''noncanonical_tag_18''), (''operation'', JString ''replace_prefix_hex''),
        (''from_hex'', JString ''d2''), (''to_hex'', JString ''d812''),
        (''expected_error'', JString ''noncanonical_cose'')],
      JObject [(''id'', JString ''trailing_cbor_item''), (''operation'', JString ''append_hex''),
        (''hex'', JString ''00''), (''expected_error'', JString ''malformed_cose'')],
      JObject [(''id'', JString ''wrong_expected_audience''),
        (''operation'', JString ''verification_context_override''),
        (''field'', JString ''expected_audience''), (''value'', JString ''executor:other''),
        (''expected_error'', JString ''audience_mismatch'')],
      JObject [(''id'', JString ''issuer_utf8_byte_overflow''), (''operation'', JString ''statement_repeat''),
        (''field'', JString ''issuer''), (''value'', JString [CHR 0xC3, CHR 0xA9]),
        (''count'', JNumber (JInt 257)), (''expected_error'', JString ''invalid_field'')]]"

text \<open>\<open>Box<dyn Error>\<close>: an error of the authority crate, of coset, or a text.\<close>

datatype vector_error = VE_Authority authority_error | VE_Coset | VE_Text string

text \<open>The document, and the value that \<open>main\<close> prints.\<close>

definition vector_document ::
    "lib \<Rightarrow> 'h cose_lib \<Rightarrow> string \<Rightarrow> 'h cose_sign1 \<Rightarrow> string \<Rightarrow> string \<Rightarrow> string \<Rightarrow> jvalue" where
  "vector_document L K encoded cose payload protected external_aad =
     (let sig_text = sig_structure K (cs_protected cose) (cs_original_data cose) external_aad payload;
          public_key = key_public K vector_seed;
          statement = vector_statement L in
      JObject
       [(''profile'', JString AUTHORITY_PROFILE),
        (''description'', JString ''Deterministic tag-18 COSE Sign1 / Ed25519 authority vector. The seed is test material only.''),
        (''seed_hex'', JString (hex vector_seed)),
        (''public_key_hex'', JString (hex public_key)),
        (''statement'', au_value statement),
        (''protected_header_hex'', JString (hex (text_bytes protected))),
        (''payload_hex'', JString (hex (text_bytes payload))),
        (''external_aad_hex'', JString (hex (text_bytes external_aad))),
        (''sig_structure_hex'', JString (hex (text_bytes sig_text))),
        (''signature_hex'', JString (hex (text_bytes (cs_signature cose)))),
        (''cose_sign1_tagged_hex'', JString (hex (text_bytes encoded))),
        (''authority_snapshot'', vector_snapshot_json public_key),
        (''verification_context'', vector_context_json (au_record_digest statement)),
        (''mutations'', vector_mutations_json)])"

definition generate_vector :: "lib \<Rightarrow> 'h cose_lib \<Rightarrow> vector_error + jvalue" where
  "generate_vector L K =
     rbind (map_err VE_Authority
              (from_seed K ''spiffe://example.test/authority'' ''root-2026-09'' vector_seed)) (\<lambda>signer.
     let statement = vector_statement L in
     rbind (map_err VE_Authority (sign L K signer statement)) (\<lambda>encoded.
     rbind (ok_or (from_tagged_slice K encoded) VE_Coset) (\<lambda>cose.
     rbind (ok_or (cs_payload cose) (VE_Text ''generated COSE has no payload'')) (\<lambda>payload.
     rbind (ok_or (cs_original_data cose) (VE_Text ''generated COSE has no protected bytes''))
       (\<lambda>protected.
     rbind (map_err VE_Authority (authority_external_aad L statement)) (\<lambda>external_aad.
     Inr (vector_document L K encoded cose payload protected external_aad)))))))"

section \<open>What it prints\<close>

definition vector_signer :: signing_authority where
  "vector_signer = \<lparr>sa_issuer = ''spiffe://example.test/authority'', sa_key_id = ''root-2026-09'',
     sa_seed = vector_seed\<rparr>"

lemma bytes_text_bytes [simp]: "bytes_text (text_bytes s) = s"
proof -
  have "char_of (unat (of_nat (of_char c) :: u8)) = c" for c :: char
    by (simp add: unat_of_nat)
  then show ?thesis by (simp add: bytes_text_def text_bytes_def comp_def)
qed

lemma vector_statement_valid: "au_validate (vector_statement L) = Inr ()"
  by (simp add: au_validate_def vector_statement_def au_eval AUTHORITY_PROFILE_VERSION_def)

lemma generated:
  "generate_vector L K = Inr v \<longleftrightarrow>
     \<not> key_weak K (key_public K vector_seed)
     \<and> (\<exists>encoded cose payload protected external_aad.
          sign L K vector_signer (vector_statement L) = Inr encoded
          \<and> from_tagged_slice K encoded = Some cose \<and> cs_payload cose = Some payload
          \<and> cs_original_data cose = Some protected
          \<and> authority_external_aad L (vector_statement L) = Inr external_aad
          \<and> v = vector_document L K encoded cose payload protected external_aad)"
proof -
  have "from_seed K ''spiffe://example.test/authority'' ''root-2026-09'' vector_seed = Inr sa \<longleftrightarrow>
      \<not> key_weak K (key_public K vector_seed) \<and> sa = vector_signer" for sa
    by (auto simp: from_seed_def vector_signer_def au_eval ensure_def)
  then show ?thesis
    by (auto simp: generate_vector_def ok_iff Let_def)
qed

lemma long_issuer:
  "sign L K sa (vector_statement L\<lparr>au_issuer := concat (replicate 257 [CHR 0xC3, CHR 0xA9])\<rparr>)
     = Inl (InvalidField ''issuer'')"
proof -
  have "length (concat (replicate 257 [CHR 0xC3, CHR 0xA9])) = 514"
    by (simp add: length_concat sum_list_replicate)
  then have issuer: "validate_opaque ''issuer'' (concat (replicate 257 [CHR 0xC3, CHR 0xA9])) 512
      = Inl (InvalidField ''issuer'')"
    unfolding validate_opaque_def by (simp del: concat.simps)
  have id: "validate_opaque ''statement_id'' ''authority-assertion-001'' 256 = Inr ()"
    by (simp add: au_eval)
  show ?thesis
    by (simp add: sign_def au_validate_def vector_statement_def AUTHORITY_PROFILE_VERSION_def id issuer)
qed

lemma fx_generated: "\<exists>v. generate_vector ref_lib ref_cose = Inr v"
proof -
  let ?s = "vector_statement ref_lib"
  have d: "digest_ok (au_record_digest ?s)"
    using payload_digest_ok [OF ref_lib_hash] by (simp add: vector_statement_def)
  then have "text_bound (au_value ?s) \<le> 4000"
    by (simp add: au_value_def vector_statement_def AUTHORITY_PROFILE_def)
  then obtain e where e: "sign ref_lib ref_cose vector_signer ?s = Inr e"
    using ref_signs [OF vector_statement_valid, of ref_lib vector_signer]
    by (auto simp: vector_signer_def vector_statement_def)
  obtain aad where "authority_external_aad ref_lib ?s = Inr aad"
    using aad_encodes [OF ref_lib_quotes vector_statement_valid] by blast
  moreover have "vector_seed \<noteq> replicate 32 0"
    by (simp add: vector_seed_def replicate_eq_replicate)
  moreover obtain cose payload b where "from_tagged_slice ref_cose e = Some cose"
    "cs_payload cose = Some payload" "cs_original_data cose = Some b"
    using sign_carries [OF ref_cose_conforms ref_ed25519_conforms ref_reads_statements d e,
        of "fx_sn\<lparr>sn_public_key := key_public ref_cose vector_seed, sn_issuer := au_issuer ?s,
          sn_key_id := au_key_id ?s\<rparr>"]
    by (auto simp: carries_def signature_accepted_def vector_signer_def)
  ultimately show ?thesis using e by (auto simp: generated)
qed

end
