(* ===== verification/Authority_Tests.thy ===== *)
theory Authority_Tests
  imports Test_Harness Authority_Vector
begin

text \<open>
  The unit tests of crates/effect-transaction-authority/src/lib.rs, as executable definitions over
  the model: \<open>L\<close> is the library of the core, \<open>K\<close> the COSE and Ed25519 library. Byte strings are
  strings. That the tests pass is shown in \<open>Authority_Tests_Pass\<close>.
\<close>

section \<open>Accessors\<close>

text \<open>The four accessors of \<open>VerifiedAuthority\<close>, and those of \<open>SigningAuthority\<close>.\<close>

definition verified_accessors ::
    "verified_authority \<Rightarrow> authority_statement \<times> u64 \<times> u64 \<times> digest32" where
  "verified_accessors v =
     (vy_statement v, vy_verified_at_ms v, vy_snapshot_observed_at_ms v, vy_verifying_key_digest v)"

definition public_key_of :: "'h cose_lib \<Rightarrow> signing_authority \<Rightarrow> u8 list" where
  "public_key_of K self = key_public K (sa_seed self)"

section \<open>Fixture\<close>

definition TEST_NOW :: u64 where "TEST_NOW = 1000100"

definition auth_digest :: "lib \<Rightarrow> digest32" where
  "auth_digest L = from_payload L ''exact canonical ETP execution grant''"

definition auth_signer :: "'h cose_lib \<Rightarrow> authority_error + signing_authority" where
  "auth_signer K = from_seed K ''spiffe://example.test/authority'' ''root-2026-09'' (replicate 32 7)"

definition auth_statement :: "lib \<Rightarrow> authority_statement" where
  "auth_statement L = \<lparr>au_version = 1, au_authority_profile = AUTHORITY_PROFILE,
     au_statement_id = ''authority-assertion-001'', au_issuer = ''spiffe://example.test/authority'',
     au_key_id = ''root-2026-09'', au_role = ''execution_authorizer'',
     au_audience = ''executor:production-a'', au_record_profile = ''effect-transaction/core/0.1'',
     au_record_version = 1, au_record_kind = KExecutionGrant, au_record_digest = auth_digest L,
     au_issued_at_ms = 1000000, au_not_before_ms = 1000000, au_expires_at_ms = 1300000,
     au_authority_epoch = 12, au_configuration_epoch = 41\<rparr>"

definition auth_snapshot :: "u8 list \<Rightarrow> authority_snapshot" where
  "auth_snapshot public_key = \<lparr>sn_issuer = ''spiffe://example.test/authority'',
     sn_key_id = ''root-2026-09'', sn_public_key = public_key,
     sn_authorized_roles = [''execution_authorizer''],
     sn_authorized_audiences = [''executor:production-a''], sn_authority_epoch = 12,
     sn_configuration_epoch = 41, sn_key_valid_from_ms = 900000, sn_key_valid_until_ms = 2000000,
     sn_revoked_at_ms = None, sn_observed_at_ms = TEST_NOW\<rparr>"

definition auth_context :: "digest32 \<Rightarrow> verification_context" where
  "auth_context record_digest = \<lparr>cx_expected_record_profile = ''effect-transaction/core/0.1'',
     cx_expected_record_version = 1, cx_expected_record_kind = KExecutionGrant,
     cx_expected_record_digest = record_digest, cx_expected_role = ''execution_authorizer'',
     cx_expected_audience = ''executor:production-a'', cx_now_ms = TEST_NOW,
     cx_maximum_snapshot_age_ms = 1000\<rparr>"

definition encoded_fixture ::
    "lib \<Rightarrow> 'h cose_lib \<Rightarrow> authority_error + string \<times> authority_snapshot \<times> digest32" where
  "encoded_fixture L K =
     rbind (auth_signer K) (\<lambda>signer.
     let statement = auth_statement L in
     rbind (sign L K signer statement) (\<lambda>encoded.
     Inr (encoded, auth_snapshot (public_key_of K signer), auth_digest L)))"

text \<open>The test body after \<open>encoded_fixture()?\<close>, and \<open>assert!(matches!(result, Err(e)))\<close>.\<close>

definition with_encoded ::
    "lib \<Rightarrow> 'h cose_lib \<Rightarrow> (string \<Rightarrow> authority_snapshot \<Rightarrow> digest32 \<Rightarrow> authority_error failure + unit)
     \<Rightarrow> authority_error failure + unit" where
  "with_encoded L K body = rbind (attempt (encoded_fixture L K)) (\<lambda>(encoded, snapshot, digest).
     body encoded snapshot digest)"

definition refused_with :: "authority_error \<Rightarrow> authority_error + 'a \<Rightarrow> authority_error failure + unit" where
  "refused_with e result = assert_that (case result of Inl x \<Rightarrow> x = e | Inr _ \<Rightarrow> False)"

section \<open>Tests\<close>

definition verifies_exact_live_authority_binding ::
    "lib \<Rightarrow> 'h cose_lib \<Rightarrow> authority_error failure + unit" where
  "verifies_exact_live_authority_binding L K =
     with_encoded L K (\<lambda>encoded snapshot digest.
       rbind (attempt (verify_authority L K encoded snapshot (auth_context digest))) (\<lambda>verified.
       rbind (assert_that (vy_statement verified = auth_statement L)) (\<lambda>_.
       rbind (assert_that (vy_verified_at_ms verified = TEST_NOW)) (\<lambda>_.
       rbind (assert_that (vy_snapshot_observed_at_ms verified = TEST_NOW)) (\<lambda>_.
       rbind (assert_that (vy_verifying_key_digest verified
                = from_payload L (bytes_text (sn_public_key snapshot)))) (\<lambda>_.
       Inr ()))))))"

text \<open>\<open>byte ^= mask\<close>.\<close>

definition xor_byte :: "u8 \<Rightarrow> char \<Rightarrow> char" where
  "xor_byte bits c = char_of (unat (xor (of_nat (of_char c)) bits))"

definition signature_mutation_is_rejected ::
    "lib \<Rightarrow> 'h cose_lib \<Rightarrow> authority_error failure + unit" where
  "signature_mutation_is_rejected L K =
     with_encoded L K (\<lambda>encoded snapshot digest.
       let last = length encoded - 1;
           encoded = encoded[last := xor_byte 1 (encoded ! last)] in
       refused_with InvalidSignature (verify_authority L K encoded snapshot (auth_context digest)))"

text \<open>\<open>CoseSign1Builder\<close> with a protected header and external data, signed by the fixture's key.\<close>

definition build_cose ::
    "'h cose_lib \<Rightarrow> signing_authority \<Rightarrow> 'h \<Rightarrow> string \<Rightarrow> string \<Rightarrow> authority_error + string" where
  "build_cose K signer protected payload aad =
     ok_or (to_tagged_vec K
       \<lparr>cs_protected = protected, cs_original_data = None, cs_unprotected = empty_header K,
        cs_payload = Some payload,
        cs_signature = key_sign K (sa_seed signer) (sig_structure K protected None aad payload)\<rparr>) MalformedCose"

definition external_aad_domain_is_mandatory ::
    "lib \<Rightarrow> 'h cose_lib \<Rightarrow> authority_error failure + unit" where
  "external_aad_domain_is_mandatory L K =
     rbind (attempt (auth_signer K)) (\<lambda>signer.
     let statement = auth_statement L in
     rbind (attempt (map_err AuProtocol (canonical_json L (au_value statement)))) (\<lambda>payload.
     rbind (attempt (build_cose K signer (expected_header K (sa_key_id signer)) payload
              ''different-protocol/signature'')) (\<lambda>cose.
     let snapshot = auth_snapshot (public_key_of K signer);
         expected_digest = auth_digest L in
     refused_with InvalidSignature (verify_authority L K cose snapshot (auth_context expected_digest)))))"

text \<open>
  The header of the next test names the algorithm and the key only; it is built by coset, and is
  the argument \<open>incomplete_header\<close>.
\<close>

definition protected_content_type_is_mandatory ::
    "lib \<Rightarrow> 'h cose_lib \<Rightarrow> (string \<Rightarrow> 'h) \<Rightarrow> authority_error failure + unit" where
  "protected_content_type_is_mandatory L K incomplete_header =
     rbind (attempt (auth_signer K)) (\<lambda>signer.
     let statement = auth_statement L in
     rbind (attempt (map_err AuProtocol (canonical_json L (au_value statement)))) (\<lambda>payload.
     rbind (attempt (authority_external_aad L statement)) (\<lambda>aad.
     rbind (attempt (build_cose K signer (incomplete_header (sa_key_id signer)) payload aad)) (\<lambda>cose.
     let snapshot = auth_snapshot (public_key_of K signer);
         expected_digest = auth_digest L in
     refused_with InvalidProtectedHeaders
       (verify_authority L K cose snapshot (auth_context expected_digest))))))"

definition wrong_key_is_rejected :: "lib \<Rightarrow> 'h cose_lib \<Rightarrow> authority_error failure + unit" where
  "wrong_key_is_rejected L K =
     with_encoded L K (\<lambda>encoded snapshot digest.
       rbind (attempt (from_seed K ''spiffe://example.test/authority'' ''root-2026-09'' (replicate 32 8)))
         (\<lambda>other.
       let snapshot = snapshot\<lparr>sn_public_key := public_key_of K other\<rparr> in
       refused_with InvalidSignature (verify_authority L K encoded snapshot (auth_context digest))))"

definition cross_record_and_profile_confusion_are_rejected ::
    "lib \<Rightarrow> 'h cose_lib \<Rightarrow> authority_error failure + unit" where
  "cross_record_and_profile_confusion_are_rejected L K =
     with_encoded L K (\<lambda>encoded snapshot digest.
       let wrong_kind = (auth_context digest)\<lparr>cx_expected_record_kind := KEffectProposal\<rparr> in
       rbind (refused_with RecordKindMismatch (verify_authority L K encoded snapshot wrong_kind)) (\<lambda>_.
       let wrong_profile = (auth_context digest)\<lparr>cx_expected_record_profile := ''vendor.example/effect/1''\<rparr> in
       refused_with RecordProfileMismatch (verify_authority L K encoded snapshot wrong_profile)))"

definition substituted_record_digest_is_rejected ::
    "lib \<Rightarrow> 'h cose_lib \<Rightarrow> authority_error failure + unit" where
  "substituted_record_digest_is_rejected L K =
     with_encoded L K (\<lambda>encoded snapshot _.
       let replacement = from_payload L ''different grant'' in
       refused_with RecordDigestMismatch (verify_authority L K encoded snapshot (auth_context replacement)))"

definition role_and_audience_are_both_required_and_authorized ::
    "lib \<Rightarrow> 'h cose_lib \<Rightarrow> authority_error failure + unit" where
  "role_and_audience_are_both_required_and_authorized L K =
     with_encoded L K (\<lambda>encoded snapshot digest.
       let wrong_role = (auth_context digest)\<lparr>cx_expected_role := ''policy_evaluator''\<rparr> in
       rbind (refused_with RoleMismatch (verify_authority L K encoded snapshot wrong_role)) (\<lambda>_.
       let wrong_audience = (auth_context digest)\<lparr>cx_expected_audience := ''executor:staging''\<rparr> in
       rbind (refused_with AuAudienceMismatch (verify_authority L K encoded snapshot wrong_audience)) (\<lambda>_.
       let snapshot = snapshot\<lparr>sn_authorized_roles := [''policy_evaluator'']\<rparr> in
       rbind (refused_with RoleNotAuthorized
                (verify_authority L K encoded snapshot (auth_context digest))) (\<lambda>_.
       let snapshot = snapshot\<lparr>sn_authorized_roles := [''execution_authorizer''],
                               sn_authorized_audiences := [''executor:staging'']\<rparr> in
       refused_with AudienceNotAuthorized
         (verify_authority L K encoded snapshot (auth_context digest))))))"

definition revocation_and_epoch_changes_invalidate_historical_signatures ::
    "lib \<Rightarrow> 'h cose_lib \<Rightarrow> authority_error failure + unit" where
  "revocation_and_epoch_changes_invalidate_historical_signatures L K =
     with_encoded L K (\<lambda>encoded snapshot digest.
       let verify = (\<lambda>snapshot. verify_authority L K encoded snapshot (auth_context digest));
           snapshot = snapshot\<lparr>sn_revoked_at_ms := Some TEST_NOW\<rparr> in
       rbind (refused_with KeyRevoked (verify snapshot)) (\<lambda>_.
       let snapshot = snapshot\<lparr>sn_revoked_at_ms := None,
                               sn_authority_epoch := sn_authority_epoch snapshot + 1\<rparr> in
       rbind (refused_with AuthorityEpochMismatch (verify snapshot)) (\<lambda>_.
       let snapshot = snapshot\<lparr>sn_authority_epoch := sn_authority_epoch snapshot - 1,
                               sn_configuration_epoch := sn_configuration_epoch snapshot + 1\<rparr> in
       refused_with ConfigurationEpochMismatch (verify snapshot))))"

definition stale_future_and_predating_snapshots_are_rejected ::
    "lib \<Rightarrow> 'h cose_lib \<Rightarrow> authority_error failure + unit" where
  "stale_future_and_predating_snapshots_are_rejected L K =
     with_encoded L K (\<lambda>encoded snapshot digest.
       let snapshot = snapshot\<lparr>sn_observed_at_ms := TEST_NOW - 1001\<rparr> in
       rbind (refused_with StaleSnapshot
                (verify_authority L K encoded snapshot (auth_context digest))) (\<lambda>_.
       let snapshot = snapshot\<lparr>sn_observed_at_ms := TEST_NOW + 1\<rparr> in
       rbind (refused_with SnapshotFromFuture
                (verify_authority L K encoded snapshot (auth_context digest))) (\<lambda>_.
       let snapshot = snapshot\<lparr>sn_observed_at_ms := 999999\<rparr>;
           broad = (auth_context digest)\<lparr>cx_maximum_snapshot_age_ms := 10000\<rparr> in
       refused_with SnapshotPredatesStatement (verify_authority L K encoded snapshot broad))))"

definition assertion_and_key_time_windows_are_fail_closed ::
    "lib \<Rightarrow> 'h cose_lib \<Rightarrow> authority_error failure + unit" where
  "assertion_and_key_time_windows_are_fail_closed L K =
     rbind (attempt (auth_signer K)) (\<lambda>signer.
     let future_statement = (auth_statement L)\<lparr>au_not_before_ms := TEST_NOW + 1,
                               au_expires_at_ms := TEST_NOW + 1001\<rparr> in
     rbind (attempt (sign L K signer future_statement)) (\<lambda>encoded.
     let snapshot = auth_snapshot (public_key_of K signer); expected_digest = auth_digest L in
     rbind (refused_with AssertionNotYetValid
              (verify_authority L K encoded snapshot (auth_context expected_digest))) (\<lambda>_.
     let expired_statement = (auth_statement L)\<lparr>au_expires_at_ms := TEST_NOW\<rparr> in
     rbind (attempt (sign L K signer expired_statement)) (\<lambda>encoded.
     rbind (refused_with AssertionExpired
              (verify_authority L K encoded snapshot (auth_context expected_digest))) (\<lambda>_.
     with_encoded L K (\<lambda>encoded snapshot digest.
       let snapshot = snapshot\<lparr>sn_key_valid_until_ms := TEST_NOW\<rparr> in
       refused_with KeyExpired (verify_authority L K encoded snapshot (auth_context digest))))))))"

definition assertion_cannot_be_backdated_before_key_validity ::
    "lib \<Rightarrow> 'h cose_lib \<Rightarrow> authority_error failure + unit" where
  "assertion_cannot_be_backdated_before_key_validity L K =
     rbind (attempt (auth_signer K)) (\<lambda>signing_authority.
     let backdated = (auth_statement L)\<lparr>au_issued_at_ms := 899999, au_not_before_ms := 1000000\<rparr> in
     rbind (attempt (sign L K signing_authority backdated)) (\<lambda>encoded.
     let authority_snapshot = auth_snapshot (public_key_of K signing_authority);
         expected_digest = auth_digest L in
     refused_with KeyNotValidAtIssuance
       (verify_authority L K encoded authority_snapshot (auth_context expected_digest))))"

definition signing_refuses_identity_mismatch_and_oversized_lifetime ::
    "lib \<Rightarrow> 'h cose_lib \<Rightarrow> authority_error failure + unit" where
  "signing_refuses_identity_mismatch_and_oversized_lifetime L K =
     rbind (attempt (auth_signer K)) (\<lambda>signer.
     let wrong_issuer = (auth_statement L)\<lparr>au_issuer := ''spiffe://attacker.invalid/authority''\<rparr> in
     rbind (refused_with IssuerMismatch (sign L K signer wrong_issuer)) (\<lambda>_.
     let long_lived = (auth_statement L)\<lparr>au_expires_at_ms := au_expires_at_ms (auth_statement L) + 1\<rparr> in
     refused_with InvalidValidityInterval (sign L K signer long_lived)))"

definition overly_permissive_snapshot_age_policy_is_rejected ::
    "lib \<Rightarrow> 'h cose_lib \<Rightarrow> authority_error failure + unit" where
  "overly_permissive_snapshot_age_policy_is_rejected L K =
     with_encoded L K (\<lambda>encoded snapshot digest.
       let context = (auth_context digest)
             \<lparr>cx_maximum_snapshot_age_ms := MAX_AUTHORITY_SNAPSHOT_AGE_MS + 1\<rparr> in
       refused_with SnapshotAgePolicyTooPermissive
         (verify_authority L K encoded snapshot context))"

section \<open>The published vector\<close>

record published_snapshot =
  ps_issuer :: string
  ps_key_id :: string
  ps_public_key_hex :: string
  ps_authorized_roles :: "string list"
  ps_authorized_audiences :: "string list"
  ps_authority_epoch :: u64
  ps_configuration_epoch :: u64
  ps_key_valid_from_ms :: u64
  ps_key_valid_until_ms :: u64
  ps_revoked_at_ms :: "u64 option"
  ps_observed_at_ms :: u64

record published_context =
  pc_expected_record_profile :: string
  pc_expected_record_version :: u64
  pc_expected_record_kind :: record_kind
  pc_expected_record_digest :: digest32
  pc_expected_role :: string
  pc_expected_audience :: string
  pc_now_ms :: u64
  pc_maximum_snapshot_age_ms :: u64

record published_mutation =
  pm_id :: string
  pm_operation :: string
  pm_expected_error :: string
  pm_offset :: "nat option"
  pm_mask :: "u8 option"
  pm_count :: "nat option"
  pm_from_hex :: "string option"
  pm_to_hex :: "string option"
  pm_hex :: "string option"
  pm_field :: "string option"
  pm_value :: "string option"

record published_vector =
  pv_profile :: string
  pv_description :: string
  pv_seed_hex :: string
  pv_public_key_hex :: string
  pv_statement :: authority_statement
  pv_protected_header_hex :: string
  pv_payload_hex :: string
  pv_external_aad_hex :: string
  pv_sig_structure_hex :: string
  pv_signature_hex :: string
  pv_cose_sign1_tagged_hex :: string
  pv_authority_snapshot :: published_snapshot
  pv_verification_context :: published_context
  pv_mutations :: "published_mutation list"

text \<open>
  What serde derives for these structs, on the values of JSON: from an object, in which unknown
  entries are skipped and known ones may not come twice, or from an array of all fields in order;
  an optional field may be null, or absent from an object. A set of strings is its sorted list.
  The statement has its own derived reader, the argument \<open>read_statement\<close>.
\<close>

definition struct_entries :: "string list \<Rightarrow> jvalue \<Rightarrow> (string \<times> jvalue) list option" where
  "struct_entries names v =
     (case v of
        JObject kvs \<Rightarrow>
          (let known = filter (\<lambda>kv. fst kv \<in> set names) kvs in
           if distinct (map fst known) then Some known else None)
      | JArray vs \<Rightarrow> if length vs = length names then Some (zip names vs) else None
      | _ \<Rightarrow> None)"

definition read_usize :: "jvalue \<Rightarrow> nat option" where
  "read_usize v =
     (case v of JNumber (JInt i) \<Rightarrow> if 0 \<le> i \<and> i < 2 ^ 64 then Some (nat i) else None | _ \<Rightarrow> None)"

definition read_u8 :: "jvalue \<Rightarrow> u8 option" where
  "read_u8 v =
     (case v of JNumber (JInt i) \<Rightarrow> if 0 \<le> i \<and> i < 2 ^ 8 then Some (word_of_int i) else None | _ \<Rightarrow> None)"

definition read_set :: "jvalue \<Rightarrow> string list option" where
  "read_set v = map_option (\<lambda>xs. sort (remdups xs)) (read_list read_string v)"

definition read_published_snapshot :: "jvalue \<Rightarrow> published_snapshot option" where
  "read_published_snapshot v = do {
     obj \<leftarrow> struct_entries [''issuer'', ''key_id'', ''public_key_hex'', ''authorized_roles'',
       ''authorized_audiences'', ''authority_epoch'', ''configuration_epoch'', ''key_valid_from_ms'',
       ''key_valid_until_ms'', ''revoked_at_ms'', ''observed_at_ms''] v;
     issuer \<leftarrow> field obj ''issuer'' read_string;
     key_id \<leftarrow> field obj ''key_id'' read_string;
     public_key \<leftarrow> field obj ''public_key_hex'' read_string;
     roles \<leftarrow> field obj ''authorized_roles'' read_set;
     audiences \<leftarrow> field obj ''authorized_audiences'' read_set;
     authority_epoch \<leftarrow> field obj ''authority_epoch'' read_u64;
     configuration_epoch \<leftarrow> field obj ''configuration_epoch'' read_u64;
     valid_from \<leftarrow> field obj ''key_valid_from_ms'' read_u64;
     valid_until \<leftarrow> field obj ''key_valid_until_ms'' read_u64;
     revoked \<leftarrow> optional obj ''revoked_at_ms'' read_u64;
     observed \<leftarrow> field obj ''observed_at_ms'' read_u64;
     Some \<lparr>ps_issuer = issuer, ps_key_id = key_id, ps_public_key_hex = public_key,
           ps_authorized_roles = roles, ps_authorized_audiences = audiences,
           ps_authority_epoch = authority_epoch, ps_configuration_epoch = configuration_epoch,
           ps_key_valid_from_ms = valid_from, ps_key_valid_until_ms = valid_until,
           ps_revoked_at_ms = revoked, ps_observed_at_ms = observed\<rparr> }"

definition read_published_context :: "jvalue \<Rightarrow> published_context option" where
  "read_published_context v = do {
     obj \<leftarrow> struct_entries [''expected_record_profile'', ''expected_record_version'',
       ''expected_record_kind'', ''expected_record_digest'', ''expected_role'', ''expected_audience'',
       ''now_ms'', ''maximum_snapshot_age_ms''] v;
     profile \<leftarrow> field obj ''expected_record_profile'' read_string;
     version \<leftarrow> field obj ''expected_record_version'' read_u64;
     kind \<leftarrow> field obj ''expected_record_kind'' (read_name record_kind_name record_kinds);
     digest \<leftarrow> field obj ''expected_record_digest'' read_digest;
     role \<leftarrow> field obj ''expected_role'' read_string;
     audience \<leftarrow> field obj ''expected_audience'' read_string;
     now \<leftarrow> field obj ''now_ms'' read_u64;
     age \<leftarrow> field obj ''maximum_snapshot_age_ms'' read_u64;
     Some \<lparr>pc_expected_record_profile = profile, pc_expected_record_version = version,
           pc_expected_record_kind = kind, pc_expected_record_digest = digest,
           pc_expected_role = role, pc_expected_audience = audience, pc_now_ms = now,
           pc_maximum_snapshot_age_ms = age\<rparr> }"

definition read_published_mutation :: "jvalue \<Rightarrow> published_mutation option" where
  "read_published_mutation v = do {
     obj \<leftarrow> struct_entries [''id'', ''operation'', ''expected_error'', ''offset'', ''mask'', ''count'',
       ''from_hex'', ''to_hex'', ''hex'', ''field'', ''value''] v;
     identifier \<leftarrow> field obj ''id'' read_string;
     operation \<leftarrow> field obj ''operation'' read_string;
     expected \<leftarrow> field obj ''expected_error'' read_string;
     offset \<leftarrow> optional obj ''offset'' read_usize;
     bits \<leftarrow> optional obj ''mask'' read_u8;
     count \<leftarrow> optional obj ''count'' read_usize;
     from_hex \<leftarrow> optional obj ''from_hex'' read_string;
     to_hex \<leftarrow> optional obj ''to_hex'' read_string;
     hex_text \<leftarrow> optional obj ''hex'' read_string;
     field_name \<leftarrow> optional obj ''field'' read_string;
     val \<leftarrow> optional obj ''value'' read_string;
     Some \<lparr>pm_id = identifier, pm_operation = operation, pm_expected_error = expected,
           pm_offset = offset, pm_mask = bits, pm_count = count, pm_from_hex = from_hex,
           pm_to_hex = to_hex, pm_hex = hex_text, pm_field = field_name, pm_value = val\<rparr> }"

definition read_published ::
    "(jvalue \<Rightarrow> authority_statement option) \<Rightarrow> jvalue \<Rightarrow> published_vector option" where
  "read_published read_statement v = do {
     obj \<leftarrow> struct_entries [''profile'', ''description'', ''seed_hex'', ''public_key_hex'', ''statement'',
       ''protected_header_hex'', ''payload_hex'', ''external_aad_hex'', ''sig_structure_hex'',
       ''signature_hex'', ''cose_sign1_tagged_hex'', ''authority_snapshot'', ''verification_context'',
       ''mutations''] v;
     profile \<leftarrow> field obj ''profile'' read_string;
     description \<leftarrow> field obj ''description'' read_string;
     seed \<leftarrow> field obj ''seed_hex'' read_string;
     public_key \<leftarrow> field obj ''public_key_hex'' read_string;
     statement \<leftarrow> field obj ''statement'' read_statement;
     protected \<leftarrow> field obj ''protected_header_hex'' read_string;
     payload \<leftarrow> field obj ''payload_hex'' read_string;
     external_aad \<leftarrow> field obj ''external_aad_hex'' read_string;
     sig_text \<leftarrow> field obj ''sig_structure_hex'' read_string;
     signature \<leftarrow> field obj ''signature_hex'' read_string;
     encoded \<leftarrow> field obj ''cose_sign1_tagged_hex'' read_string;
     snapshot \<leftarrow> field obj ''authority_snapshot'' read_published_snapshot;
     exact_context \<leftarrow> field obj ''verification_context'' read_published_context;
     mutations \<leftarrow> field obj ''mutations'' (read_list read_published_mutation);
     Some \<lparr>pv_profile = profile, pv_description = description, pv_seed_hex = seed,
           pv_public_key_hex = public_key, pv_statement = statement,
           pv_protected_header_hex = protected, pv_payload_hex = payload,
           pv_external_aad_hex = external_aad, pv_sig_structure_hex = sig_text,
           pv_signature_hex = signature, pv_cose_sign1_tagged_hex = encoded,
           pv_authority_snapshot = snapshot, pv_verification_context = exact_context,
           pv_mutations = mutations\<rparr> }"

definition decode_hex_nibble :: "char \<Rightarrow> authority_error + u8" where
  "decode_hex_nibble value =
     (let v = of_char value :: nat in
      if 0x30 \<le> v \<and> v \<le> 0x39 then Inr (of_nat (v - 0x30))
      else if 0x61 \<le> v \<and> v \<le> 0x66 then Inr (of_nat (v - 0x61 + 10))
      else if 0x41 \<le> v \<and> v \<le> 0x46 then Inr (of_nat (v - 0x41 + 10))
      else Inl (InvalidField ''vector_hex''))"

fun decode_pairs :: "string \<Rightarrow> authority_error + string" where
  "decode_pairs (a # b # rest) =
     rbind (decode_hex_nibble a) (\<lambda>high.
     rbind (decode_hex_nibble b) (\<lambda>low.
     rbind (decode_pairs rest) (\<lambda>bytes.
     Inr (char_of (unat (or (push_bit 4 high) low)) # bytes))))"
| "decode_pairs _ = Inr []"

definition decode_hex :: "string \<Rightarrow> authority_error + string" where
  "decode_hex input =
     (if length input mod 2 \<noteq> 0 then Inl (InvalidField ''vector_hex'') else decode_pairs input)"

text \<open>\<open>decode_hex(..)?.try_into()\<close> to 32 bytes.\<close>

definition decode_key :: "string \<Rightarrow> string \<Rightarrow> authority_error + u8 list" where
  "decode_key name input =
     rbind (decode_hex input) (\<lambda>bytes.
     if length bytes = 32 then Inr (text_bytes bytes) else Inl (InvalidField name))"

definition rejected_verification ::
    "authority_error + verified_authority \<Rightarrow> authority_error + authority_error" where
  "rejected_verification result =
     (case result of
        Inr _ \<Rightarrow> Inl (InvalidField ''mutation_expected_rejection'')
      | Inl error \<Rightarrow> Inr error)"

definition rejected_signing :: "authority_error + string \<Rightarrow> authority_error + authority_error" where
  "rejected_signing result =
     (case result of
        Inr _ \<Rightarrow> Inl (InvalidField ''mutation_expected_rejection'')
      | Inl error \<Rightarrow> Inr error)"

definition snapshot_of :: "published_snapshot \<Rightarrow> u8 list \<Rightarrow> authority_snapshot" where
  "snapshot_of p public_key =
     \<lparr>sn_issuer = ps_issuer p, sn_key_id = ps_key_id p, sn_public_key = public_key,
      sn_authorized_roles = ps_authorized_roles p,
      sn_authorized_audiences = ps_authorized_audiences p,
      sn_authority_epoch = ps_authority_epoch p, sn_configuration_epoch = ps_configuration_epoch p,
      sn_key_valid_from_ms = ps_key_valid_from_ms p, sn_key_valid_until_ms = ps_key_valid_until_ms p,
      sn_revoked_at_ms = ps_revoked_at_ms p, sn_observed_at_ms = ps_observed_at_ms p\<rparr>"

definition context_of :: "published_context \<Rightarrow> verification_context" where
  "context_of p =
     \<lparr>cx_expected_record_profile = pc_expected_record_profile p,
      cx_expected_record_version = pc_expected_record_version p,
      cx_expected_record_kind = pc_expected_record_kind p,
      cx_expected_record_digest = pc_expected_record_digest p,
      cx_expected_role = pc_expected_role p, cx_expected_audience = pc_expected_audience p,
      cx_now_ms = pc_now_ms p, cx_maximum_snapshot_age_ms = pc_maximum_snapshot_age_ms p\<rparr>"

text \<open>One round of the loop over the mutations: the error that the mutated input causes.\<close>

definition mutation_error ::
    "lib \<Rightarrow> 'h cose_lib \<Rightarrow> signing_authority \<Rightarrow> authority_statement \<Rightarrow> string \<Rightarrow> authority_snapshot
     \<Rightarrow> verification_context \<Rightarrow> published_mutation \<Rightarrow> authority_error + authority_error" where
  "mutation_error L K signer statement encoded snapshot exact_context mutation =
     (let verify = (\<lambda>mutated. rejected_verification (verify_authority L K mutated snapshot exact_context)) in
      if pm_operation mutation = ''xor_byte_from_end'' then
        rbind (ok_or (pm_offset mutation) (InvalidField ''mutation_offset'')) (\<lambda>offset.
        rbind (ok_or (pm_mask mutation) (InvalidField ''mutation_mask'')) (\<lambda>bits.
        rbind (ensure (\<not> (offset = 0 \<or> offset > length encoded)) (InvalidField ''mutation_offset'')) (\<lambda>_.
        let index = length encoded - offset in
        verify (encoded[index := xor_byte bits (encoded ! index)]))))
      else if pm_operation mutation = ''remove_prefix_bytes'' then
        rbind (ok_or (pm_count mutation) (InvalidField ''mutation_count'')) (\<lambda>count.
        rbind (ensure (\<not> count > length encoded) (InvalidField ''mutation_count'')) (\<lambda>_.
        verify (drop count encoded)))
      else if pm_operation mutation = ''replace_prefix_hex'' then
        rbind (rbind (ok_or (pm_from_hex mutation) (InvalidField ''mutation_from_hex'')) decode_hex) (\<lambda>old.
        rbind (rbind (ok_or (pm_to_hex mutation) (InvalidField ''mutation_to_hex'')) decode_hex) (\<lambda>new.
        rbind (ensure (take (length old) encoded = old) (InvalidField ''mutation_from_hex'')) (\<lambda>_.
        verify (new @ drop (length old) encoded))))
      else if pm_operation mutation = ''append_hex'' then
        rbind (rbind (ok_or (pm_hex mutation) (InvalidField ''mutation_hex'')) decode_hex) (\<lambda>suffix.
        verify (encoded @ suffix))
      else if pm_operation mutation = ''verification_context_override'' then
        rbind (ensure (\<not> pm_field mutation \<noteq> Some ''expected_audience'') (InvalidField ''mutation_field'')) (\<lambda>_.
        rbind (ok_or (pm_value mutation) (InvalidField ''mutation_value'')) (\<lambda>expected_audience.
        rejected_verification (verify_authority L K encoded snapshot
          (exact_context\<lparr>cx_expected_audience := expected_audience\<rparr>))))
      else if pm_operation mutation = ''statement_repeat'' then
        rbind (ensure (\<not> pm_field mutation \<noteq> Some ''issuer'') (InvalidField ''mutation_field'')) (\<lambda>_.
        rbind (ok_or (pm_value mutation) (InvalidField ''mutation_value'')) (\<lambda>value.
        rbind (ok_or (pm_count mutation) (InvalidField ''mutation_count'')) (\<lambda>count.
        rejected_signing (sign L K signer
          (statement\<lparr>au_issuer := concat (replicate count value)\<rparr>)))))
      else Inl (InvalidField ''mutation_operation''))"

text \<open>
  The test; \<open>parsed\<close> is what serde reads from the file of the vector. \<open>question\<close> is the question
  mark on a result of the authority crate, and \<open>same\<close> compares bytes with a hexadecimal text.
\<close>

abbreviation question :: "authority_error + 'a \<Rightarrow> ('a \<Rightarrow> vector_error failure + 'b) \<Rightarrow> vector_error failure + 'b" where
  "question r k \<equiv> rbind (attempt (map_err VE_Authority r)) k"

definition same :: "string \<Rightarrow> string \<Rightarrow> vector_error failure + unit" where
  "same bytes text_hex = question (decode_hex text_hex) (\<lambda>expected. assert_that (bytes = expected))"

definition published_authority_vector_is_exact_and_adversarial ::
    "lib \<Rightarrow> 'h cose_lib \<Rightarrow> vector_error + published_vector \<Rightarrow> vector_error failure + unit" where
  "published_authority_vector_is_exact_and_adversarial L K parsed =
     rbind (attempt parsed) (\<lambda>vector.
     rbind (assert_that (pv_profile vector = AUTHORITY_PROFILE)) (\<lambda>_.
     rbind (assert_that (\<not> pv_description vector = [])) (\<lambda>_.
     question (decode_key ''seed_hex'' (pv_seed_hex vector)) (\<lambda>seed.
     question (from_seed K (au_issuer (pv_statement vector)) (au_key_id (pv_statement vector)) seed)
       (\<lambda>signing_authority.
     question (decode_hex (pv_public_key_hex vector)) (\<lambda>expected_public_key.
     rbind (assert_that (bytes_text (public_key_of K signing_authority) = expected_public_key)) (\<lambda>_.
     question (sign L K signing_authority (pv_statement vector)) (\<lambda>encoded.
     rbind (same encoded (pv_cose_sign1_tagged_hex vector)) (\<lambda>_.
     rbind (assert_that (take 1 encoded = [CHR 0xd2])) (\<lambda>_.
     rbind (attempt (ok_or (from_tagged_slice K encoded) VE_Coset)) (\<lambda>cose.
     question (ok_or (cs_original_data cose) MalformedCose) (\<lambda>protected.
     question (ok_or (cs_payload cose) MissingPayload) (\<lambda>payload.
     question (authority_external_aad L (pv_statement vector)) (\<lambda>external_aad.
     rbind (same protected (pv_protected_header_hex vector)) (\<lambda>_.
     rbind (same payload (pv_payload_hex vector)) (\<lambda>_.
     rbind (same external_aad (pv_external_aad_hex vector)) (\<lambda>_.
     rbind (same (sig_structure K (cs_protected cose) (cs_original_data cose) external_aad payload)
              (pv_sig_structure_hex vector)) (\<lambda>_.
     rbind (same (cs_signature cose) (pv_signature_hex vector)) (\<lambda>_.
     question (decode_key ''snapshot_public_key_hex'' (ps_public_key_hex (pv_authority_snapshot vector)))
       (\<lambda>snapshot_public_key.
     rbind (assert_that (bytes_text snapshot_public_key = expected_public_key)) (\<lambda>_.
     let snapshot = snapshot_of (pv_authority_snapshot vector) snapshot_public_key;
         exact_context = context_of (pv_verification_context vector) in
     question (verify_authority L K encoded snapshot exact_context) (\<lambda>_.
     rbind (checks (map (\<lambda>mutation.
              question (mutation_error L K signing_authority (pv_statement vector) encoded snapshot
                exact_context mutation) (\<lambda>error.
              assert_that (authority_error_code error = pm_expected_error mutation)))
            (pv_mutations vector))) (\<lambda>_.
     rbind (assert_that (length (pv_mutations vector) = 7)) (\<lambda>_.
     Inr ()))))))))))))))))))))))))"

section \<open>Property test\<close>

text \<open>What the property test asserts for one byte position and one nonzero mask.\<close>

definition single_byte_cose_mutation_is_rejected_unless_it_reencodes_the_exact_input ::
    "lib \<Rightarrow> 'h cose_lib \<Rightarrow> nat \<Rightarrow> u8 \<Rightarrow> bool" where
  "single_byte_cose_mutation_is_rejected_unless_it_reencodes_the_exact_input L K raw_index bits =
     (case encoded_fixture L K of
        Inl _ \<Rightarrow> False
      | Inr (encoded, snapshot, digest) \<Rightarrow>
          (let index = raw_index mod length encoded;
               mutated = encoded[index := xor_byte bits (encoded ! index)] in
           mutated \<noteq> encoded
           \<and> (case verify_authority L K mutated snapshot (auth_context digest) of
                Inl _ \<Rightarrow> True
              | Inr _ \<Rightarrow>
                  (case from_tagged_slice K mutated of
                     None \<Rightarrow> False
                   | Some parsed \<Rightarrow>
                       (case to_tagged_vec K parsed of
                          None \<Rightarrow> False
                        | Some reencoded \<Rightarrow> reencoded = encoded)))))"

end
