(* ===== verification/Authority_Tests_Pass.thy ===== *)
theory Authority_Tests_Pass
  imports Authority_Tests
begin

text \<open>
  The unit tests of the authority crate pass on the model, for every library that conforms: COSE
  decoding inverts encoding, honest signatures verify, statements of moderate length fit the size
  limits, and the test key is not weak. Where a test changes signed bytes or keys it needs what
  coset or ed25519-dalek answer for them, which is then an assumption of its lemma.
\<close>

section \<open>The texts of the tests\<close>

lemma test_texts:
  "validate_opaque f ''spiffe://example.test/authority'' 512 = Inr ()"
  "validate_opaque f ''spiffe://attacker.invalid/authority'' 512 = Inr ()"
  "validate_opaque f ''root-2026-09'' 256 = Inr ()"
  "validate_opaque f ''authority-assertion-001'' 256 = Inr ()"
  "validate_opaque f ''executor:production-a'' 512 = Inr ()"
  "validate_opaque f ''executor:staging'' 512 = Inr ()"
  by (simp_all add: au_eval)

lemma test_tokens:
  "au_validate_token f ''execution_authorizer'' = Inr ()"
  "au_validate_token f ''policy_evaluator'' = Inr ()"
  "au_validate_token f ''effect-transaction/core/0.1'' = Inr ()"
  "au_validate_token f ''vendor.example/effect/1'' = Inr ()"
  by (simp_all add: au_eval)

lemmas test_fields = test_texts test_tokens au_safe_integer_def MAX_SAFE_INTEGER_def TEST_NOW_def
  MAX_ASSERTION_LIFETIME_MS_def MAX_AUTHORITY_SNAPSHOT_AGE_MS_def

section \<open>Assumptions\<close>

definition signs_small :: "lib \<Rightarrow> 'h cose_lib \<Rightarrow> bool" where
  "signs_small L K \<longleftrightarrow>
     (\<forall>sa s. au_validate s = Inr () \<and> text_bound (au_value s) \<le> 4000
        \<and> au_issuer s = sa_issuer sa \<and> au_key_id s = sa_key_id sa \<longrightarrow> (\<exists>e. sign L K sa s = Inr e))"

definition test_seed :: "u8 list" where "test_seed = replicate 32 7"

abbreviation the_key :: "'h cose_lib \<Rightarrow> u8 list" where "the_key K \<equiv> key_public K test_seed"

definition authority_ready :: "lib \<Rightarrow> 'h cose_lib \<Rightarrow> bool" where
  "authority_ready L K \<longleftrightarrow> cose_conforms K \<and> ed25519_conforms K \<and> reads_statements L K \<and> nonzero_hash L
     \<and> \<not> key_weak K (key_public K test_seed) \<and> signs_small L K"

lemma reference_ready: "authority_ready ref_lib ref_cose"
  using ref_cose_conforms ref_ed25519_conforms ref_reads_statements ref_lib_hash ref_signs
  by (simp add: authority_ready_def signs_small_def test_seed_def replicate_eq_replicate)

section \<open>What a verifier says about a signed statement\<close>

definition verified_of :: "lib \<Rightarrow> authority_statement \<Rightarrow> authority_snapshot \<Rightarrow> verification_context \<Rightarrow> verified_authority" where
  "verified_of L s n c = \<lparr>vy_statement = s, vy_verified_at_ms = cx_now_ms c,
     vy_snapshot_observed_at_ms = sn_observed_at_ms n,
     vy_verifying_key_digest = from_payload L (bytes_text (sn_public_key n))\<rparr>"

lemma signed_verdict:
  assumes "authority_ready L K" and "sign L K sa s = Inr e" and "digest_ok (au_record_digest s)"
    and "sn_public_key n = key_public K (sa_seed sa)" and "sn_issuer n = au_issuer s"
    and "sn_key_id n = au_key_id s"
  shows "verify_authority L K e n c = rbind (cx_validate c) (\<lambda>_. rbind (sn_validate K n) (\<lambda>_.
    rbind (verify_bindings s n c) (\<lambda>_. Inr (verified_of L s n c))))"
proof -
  have conforms: "cose_conforms K" "ed25519_conforms K" "reads_statements L K"
    using assms(1) by (simp_all add: authority_ready_def)
  obtain cose payload where "carries L K e cose payload s" "signature_accepted L K n cose payload s"
    using sign_carries [OF conforms assms(3,2,4-6)] by blast
  then have "decode_statement L K e = Inr (cose, payload, s)" "check_signature L K n (cose, payload, s) = Inr ()"
    by (simp_all add: decode_statement_ok check_signature_ok)
  then show ?thesis by (simp add: verify_authority_def verified_of_def)
qed

abbreviation the_signer :: signing_authority where
  "the_signer \<equiv> \<lparr>sa_issuer = ''spiffe://example.test/authority'', sa_key_id = ''root-2026-09'', sa_seed = test_seed\<rparr>"

lemma auth_signer_ok:
  assumes "authority_ready L K"
  shows "auth_signer K = Inr the_signer"
  using assms by (simp add: auth_signer_def from_seed_def test_texts authority_ready_def ensure_def test_seed_def [symmetric])

text \<open>Statements like the one of the fixture are signed and get this verdict.\<close>

definition like_fixture :: "lib \<Rightarrow> authority_statement \<Rightarrow> bool" where
  "like_fixture L s \<longleftrightarrow> au_validate s = Inr () \<and> text_bound (au_value s) \<le> 4000
     \<and> digest_ok (au_record_digest s) \<and> au_issuer s = ''spiffe://example.test/authority''
     \<and> au_key_id s = ''root-2026-09''"

lemma like_fixture_signed:
  assumes ready: "authority_ready L K" and s: "like_fixture L s"
  obtains e where "sign L K the_signer s = Inr e"
    and "\<And>n c. sn_public_key n = key_public K test_seed \<Longrightarrow> sn_issuer n = ''spiffe://example.test/authority'' \<Longrightarrow>
      sn_key_id n = ''root-2026-09'' \<Longrightarrow>
      verify_authority L K e n c = rbind (cx_validate c) (\<lambda>_. rbind (sn_validate K n) (\<lambda>_.
        rbind (verify_bindings s n c) (\<lambda>_. Inr (verified_of L s n c))))"
proof -
  obtain e where e: "sign L K the_signer s = Inr e"
    using ready s unfolding authority_ready_def signs_small_def like_fixture_def by fastforce
  with s show thesis
    by (intro that [OF e] signed_verdict [OF ready e]) (simp_all add: like_fixture_def)
qed

lemma auth_digest_ok: "authority_ready L K \<Longrightarrow> digest_ok (from_payload L x)"
  by (simp add: authority_ready_def payload_digest_ok)

lemma auth_statement_like:
  assumes "authority_ready L K"
  shows "like_fixture L (auth_statement L)"
    and "like_fixture L (auth_statement L\<lparr>au_not_before_ms := TEST_NOW + 1, au_expires_at_ms := TEST_NOW + 1001\<rparr>)"
    and "like_fixture L (auth_statement L\<lparr>au_expires_at_ms := TEST_NOW\<rparr>)"
    and "like_fixture L (auth_statement L\<lparr>au_issued_at_ms := 899999, au_not_before_ms := 1000000\<rparr>)"
  using auth_digest_ok [OF assms]
  by (simp_all add: like_fixture_def au_validate_def auth_statement_def auth_digest_def test_fields
      AUTHORITY_PROFILE_VERSION_def au_value_def AUTHORITY_PROFILE_def)

lemma encoded_fixture_ok:
  assumes ready: "authority_ready L K"
  obtains e where "encoded_fixture L K = Inr (e, auth_snapshot (key_public K test_seed), auth_digest L)"
    and "sign L K the_signer (auth_statement L) = Inr e"
    and "\<And>n c. sn_public_key n = key_public K test_seed \<Longrightarrow> sn_issuer n = ''spiffe://example.test/authority'' \<Longrightarrow>
      sn_key_id n = ''root-2026-09'' \<Longrightarrow>
      verify_authority L K e n c = rbind (cx_validate c) (\<lambda>_. rbind (sn_validate K n) (\<lambda>_.
        rbind (verify_bindings (auth_statement L) n c) (\<lambda>_. Inr (verified_of L (auth_statement L) n c))))"
  using like_fixture_signed [OF ready auth_statement_like(1) [OF ready]]
  by (auto simp: encoded_fixture_def auth_signer_ok [OF ready] public_key_of_def)

lemma key_ready:
  assumes "authority_ready L K"
  shows "key_valid K (key_public K test_seed)" "\<not> key_weak K (key_public K test_seed)"
  using assms by (simp_all add: authority_ready_def ed25519_conforms_def)

lemma auth_snapshot_fields [simp]:
  "sn_public_key (auth_snapshot k) = k" "sn_issuer (auth_snapshot k) = ''spiffe://example.test/authority''"
  "sn_key_id (auth_snapshot k) = ''root-2026-09''"
  by (simp_all add: auth_snapshot_def)

text \<open>The validators on the inputs of the tests.\<close>

lemma auth_context_valid:
  "cx_validate (auth_context d) = Inr ()"
  "cx_validate (auth_context d\<lparr>cx_expected_record_kind := k\<rparr>) = Inr ()"
  "cx_validate (auth_context d\<lparr>cx_expected_record_profile := ''vendor.example/effect/1''\<rparr>) = Inr ()"
  "cx_validate (auth_context d\<lparr>cx_expected_role := ''policy_evaluator''\<rparr>) = Inr ()"
  "cx_validate (auth_context d\<lparr>cx_expected_audience := ''executor:staging''\<rparr>) = Inr ()"
  "cx_validate (auth_context d\<lparr>cx_maximum_snapshot_age_ms := 10000\<rparr>) = Inr ()"
  "cx_validate (auth_context d\<lparr>cx_maximum_snapshot_age_ms := MAX_AUTHORITY_SNAPSHOT_AGE_MS + 1\<rparr>)
     = Inl SnapshotAgePolicyTooPermissive"
  by (simp_all add: cx_validate_def auth_context_def test_fields)

lemma auth_snapshot_valid:
  assumes "sn_issuer n = ''spiffe://example.test/authority''" "sn_key_id n = ''root-2026-09''"
    and "key_valid K (sn_public_key n)" "\<not> key_weak K (sn_public_key n)"
    and "sn_authorized_roles n \<in> {[''execution_authorizer''], [''policy_evaluator'']}"
    and "sn_authorized_audiences n \<in> {[''executor:production-a''], [''executor:staging'']}"
    and "sn_authority_epoch n \<le> 100" "sn_configuration_epoch n \<le> 100" "sn_key_valid_from_ms n = 900000"
    and "sn_key_valid_until_ms n \<in> {2000000, TEST_NOW}" "sn_observed_at_ms n \<le> 2000000"
    and "sn_revoked_at_ms n \<in> {None, Some TEST_NOW}"
  shows "sn_validate K n = Inr ()"
proof -
  have bounds: "sn_authority_epoch n \<le> MAX_SAFE_INTEGER" "sn_configuration_epoch n \<le> MAX_SAFE_INTEGER"
    "sn_observed_at_ms n \<le> MAX_SAFE_INTEGER"
    using assms(7,8,11) by (auto simp: MAX_SAFE_INTEGER_def intro: order_trans)
  have roles: "\<forall>r \<in> set (sn_authorized_roles n). au_validate_token ''authorized_role'' r = Inr ()"
    using assms(5) by (auto simp: test_tokens)
  have audiences: "\<forall>a \<in> set (sn_authorized_audiences n). validate_opaque ''authorized_audience'' a 512 = Inr ()"
    using assms(6) by (auto simp: test_texts)
  have names: "validate_opaque ''issuer'' (sn_issuer n) 512 = Inr ()" "validate_opaque ''key_id'' (sn_key_id n) 256 = Inr ()"
    using assms(1,2) by (simp_all add: test_texts)
  have some: "sn_authorized_roles n \<noteq> []" "sn_authorized_audiences n \<noteq> []"
    using assms(5,6) by auto
  have times: "sn_key_valid_until_ms n \<le> MAX_SAFE_INTEGER" "sn_key_valid_from_ms n < sn_key_valid_until_ms n"
    "\<forall>t. sn_revoked_at_ms n = Some t \<longrightarrow> t \<le> MAX_SAFE_INTEGER"
    using assms(9,10,12) by (auto simp: MAX_SAFE_INTEGER_def TEST_NOW_def)
  show ?thesis
    unfolding sn_validate_ok using bounds roles audiences names some times assms(3,4) by simp
qed

text \<open>
  A verdict on a signed statement whose context and snapshot are valid is the one of
  \<open>verify_bindings\<close>.
\<close>

lemma bindings_verdict:
  assumes "authority_ready L K" and "like_fixture L s" and "sign L K the_signer s = Inr e"
    and "sn_public_key n = the_key K" and "sn_validate K n = Inr ()" and "cx_validate c = Inr ()"
    and "sn_issuer n = ''spiffe://example.test/authority''" "sn_key_id n = ''root-2026-09''"
  shows "verify_authority L K e n c = rbind (verify_bindings s n c) (\<lambda>_. Inr (verified_of L s n c))"
  using assms signed_verdict [OF assms(1,3), of n c] by (simp add: like_fixture_def)

lemmas bindings = verify_bindings_def auth_statement_def auth_snapshot_def auth_context_def TEST_NOW_def

lemma auth_snapshots:
  assumes "authority_ready L K"
  shows "sn_validate K (auth_snapshot (the_key K)) = Inr ()"
    and "sn_validate K (auth_snapshot (the_key K)\<lparr>sn_authorized_roles := [''policy_evaluator'']\<rparr>) = Inr ()"
    and "sn_validate K (auth_snapshot (the_key K)\<lparr>sn_authorized_roles := [''execution_authorizer''],
           sn_authorized_audiences := [''executor:staging'']\<rparr>) = Inr ()"
    and "sn_validate K (auth_snapshot (the_key K)\<lparr>sn_revoked_at_ms := Some TEST_NOW\<rparr>) = Inr ()"
    and "sn_validate K (auth_snapshot (the_key K)\<lparr>sn_revoked_at_ms := None, sn_authority_epoch := 13\<rparr>) = Inr ()"
    and "sn_validate K (auth_snapshot (the_key K)\<lparr>sn_revoked_at_ms := None, sn_configuration_epoch := 42\<rparr>) = Inr ()"
    and "t \<le> 2000000 \<Longrightarrow> sn_validate K (auth_snapshot (the_key K)\<lparr>sn_observed_at_ms := t\<rparr>) = Inr ()"
    and "sn_validate K (auth_snapshot (the_key K)\<lparr>sn_key_valid_until_ms := TEST_NOW\<rparr>) = Inr ()"
  by (simp_all add: auth_snapshot_valid auth_snapshot_def TEST_NOW_def key_ready [OF assms])

text \<open>The verdict on the encoded fixture, for each snapshot and context of the tests.\<close>

lemma fixture_verdict:
  assumes ready: "authority_ready L K" and "sign L K the_signer (auth_statement L) = Inr e"
    and "sn_public_key n = the_key K" "sn_issuer n = ''spiffe://example.test/authority''"
      "sn_key_id n = ''root-2026-09''" "sn_validate K n = Inr ()" and "cx_validate c = Inr ()"
  shows "verify_authority L K e n c
    = rbind (verify_bindings (auth_statement L) n c) (\<lambda>_. Inr (verified_of L (auth_statement L) n c))"
  by (rule bindings_verdict [OF ready auth_statement_like(1) [OF ready] assms(2,3,6,7,4,5)])

text \<open>A test on the encoded fixture passes when its body does.\<close>

lemma with_encoded_passes:
  assumes ready: "authority_ready L K"
    and "\<And>e. sign L K the_signer (auth_statement L) = Inr e \<Longrightarrow>
      body e (auth_snapshot (the_key K)) (auth_digest L) = Inr ()"
  shows "with_encoded L K body = Inr ()"
proof -
  obtain e where "encoded_fixture L K = Inr (e, auth_snapshot (the_key K), auth_digest L)"
    and "sign L K the_signer (auth_statement L) = Inr e"
    by (rule encoded_fixture_ok [OF ready])
  with assms(2) show ?thesis by (simp add: with_encoded_def)
qed

section \<open>Tests that only change what is expected\<close>

lemma verifies_exact_live_authority_binding_passes:
  assumes ready: "authority_ready L K"
  shows "verifies_exact_live_authority_binding L K = Inr ()"
  unfolding verifies_exact_live_authority_binding_def
proof (rule with_encoded_passes [OF ready], goal_cases)
  case (1 e)
  have "verify_bindings (auth_statement L) (auth_snapshot (the_key K)) (auth_context (auth_digest L)) = Inr ()"
    by (simp add: bindings)
  then show ?case
    by (simp add: fixture_verdict [OF ready 1] auth_snapshots [OF ready] auth_context_valid)
       (simp add: verified_of_def auth_context_def auth_snapshot_def)
qed

lemma cross_record_and_profile_confusion_are_rejected_passes:
  assumes ready: "authority_ready L K"
  shows "cross_record_and_profile_confusion_are_rejected L K = Inr ()"
  unfolding cross_record_and_profile_confusion_are_rejected_def
proof (rule with_encoded_passes [OF ready], goal_cases)
  case (1 e)
  have "verify_bindings (auth_statement L) (auth_snapshot (the_key K))
      (auth_context (auth_digest L)\<lparr>cx_expected_record_kind := KEffectProposal\<rparr>) = Inl RecordKindMismatch"
    "verify_bindings (auth_statement L) (auth_snapshot (the_key K))
      (auth_context (auth_digest L)\<lparr>cx_expected_record_profile := ''vendor.example/effect/1''\<rparr>)
      = Inl RecordProfileMismatch"
    by (simp_all add: bindings)
  then show ?case
    by (simp add: Let_def refused_with_def fixture_verdict [OF ready 1] auth_snapshots [OF ready] auth_context_valid)
qed

lemma substituted_record_digest_is_rejected_passes:
  assumes ready: "authority_ready L K" and "from_payload L ''different grant'' \<noteq> auth_digest L"
  shows "substituted_record_digest_is_rejected L K = Inr ()"
  unfolding substituted_record_digest_is_rejected_def
proof (rule with_encoded_passes [OF ready], goal_cases)
  case (1 e)
  have "verify_bindings (auth_statement L) (auth_snapshot (the_key K))
      (auth_context (from_payload L ''different grant'')) = Inl RecordDigestMismatch"
    using assms(2) by (simp add: bindings auth_digest_def eq_commute)
  then show ?case
    by (simp add: Let_def refused_with_def fixture_verdict [OF ready 1] auth_snapshots [OF ready] auth_context_valid)
qed

lemma role_and_audience_are_both_required_and_authorized_passes:
  assumes ready: "authority_ready L K"
  shows "role_and_audience_are_both_required_and_authorized L K = Inr ()"
  unfolding role_and_audience_are_both_required_and_authorized_def
proof (rule with_encoded_passes [OF ready], goal_cases)
  case (1 e)
  let ?n = "auth_snapshot (the_key K)" and ?c = "auth_context (auth_digest L)"
  have "verify_bindings (auth_statement L) ?n (?c\<lparr>cx_expected_role := ''policy_evaluator''\<rparr>) = Inl RoleMismatch"
    "verify_bindings (auth_statement L) ?n (?c\<lparr>cx_expected_audience := ''executor:staging''\<rparr>) = Inl AuAudienceMismatch"
    "verify_bindings (auth_statement L) (?n\<lparr>sn_authorized_roles := [''policy_evaluator'']\<rparr>) ?c = Inl RoleNotAuthorized"
    "verify_bindings (auth_statement L) (?n\<lparr>sn_authorized_roles := [''execution_authorizer''],
       sn_authorized_audiences := [''executor:staging'']\<rparr>) ?c = Inl AudienceNotAuthorized"
    by (simp_all add: bindings)
  then show ?case
    by (simp add: Let_def refused_with_def fixture_verdict [OF ready 1] auth_snapshots [OF ready] auth_context_valid)
qed

lemma revocation_and_epoch_changes_invalidate_historical_signatures_passes:
  assumes ready: "authority_ready L K"
  shows "revocation_and_epoch_changes_invalidate_historical_signatures L K = Inr ()"
  unfolding revocation_and_epoch_changes_invalidate_historical_signatures_def
proof (rule with_encoded_passes [OF ready], goal_cases)
  case (1 e)
  let ?n = "auth_snapshot (the_key K)" and ?c = "auth_context (auth_digest L)"
  have epochs: "sn_authority_epoch ?n = 12" "sn_configuration_epoch ?n = 41" by (simp_all add: auth_snapshot_def)
  have "verify_bindings (auth_statement L) (?n\<lparr>sn_revoked_at_ms := Some TEST_NOW\<rparr>) ?c = Inl KeyRevoked"
    "verify_bindings (auth_statement L) (?n\<lparr>sn_revoked_at_ms := None, sn_authority_epoch := 13\<rparr>) ?c
      = Inl AuthorityEpochMismatch"
    "verify_bindings (auth_statement L) (?n\<lparr>sn_revoked_at_ms := None, sn_configuration_epoch := 42\<rparr>) ?c = Inl ConfigurationEpochMismatch"
    by (simp_all add: bindings)
  then show ?case
    by (simp add: Let_def refused_with_def fixture_verdict [OF ready 1] auth_snapshots [OF ready]
        auth_context_valid epochs)
qed

lemma stale_future_and_predating_snapshots_are_rejected_passes:
  assumes ready: "authority_ready L K"
  shows "stale_future_and_predating_snapshots_are_rejected L K = Inr ()"
  unfolding stale_future_and_predating_snapshots_are_rejected_def
proof (rule with_encoded_passes [OF ready], goal_cases)
  case (1 e)
  let ?n = "auth_snapshot (the_key K)" and ?c = "auth_context (auth_digest L)"
  have "verify_bindings (auth_statement L) (?n\<lparr>sn_observed_at_ms := TEST_NOW - 1001\<rparr>) ?c = Inl StaleSnapshot"
    "verify_bindings (auth_statement L) (?n\<lparr>sn_observed_at_ms := TEST_NOW + 1\<rparr>) ?c = Inl SnapshotFromFuture"
    "verify_bindings (auth_statement L) (?n\<lparr>sn_observed_at_ms := 999999\<rparr>)
       (?c\<lparr>cx_maximum_snapshot_age_ms := 10000\<rparr>) = Inl SnapshotPredatesStatement"
    by (simp_all add: bindings)
  moreover have early: "TEST_NOW - 1001 \<le> 2000000" "TEST_NOW + 1 \<le> 2000000" by (simp_all add: TEST_NOW_def)
  ultimately show ?case
    by (simp add: Let_def early refused_with_def fixture_verdict [OF ready 1] auth_snapshots [OF ready] auth_context_valid)
qed

lemma overly_permissive_snapshot_age_policy_is_rejected_passes:
  assumes ready: "authority_ready L K"
  shows "overly_permissive_snapshot_age_policy_is_rejected L K = Inr ()"
  unfolding overly_permissive_snapshot_age_policy_is_rejected_def
  by (rule with_encoded_passes [OF ready]) (simp add: refused_with_def verify_authority_def auth_context_valid)

section \<open>Other statements\<close>

lemma assertion_and_key_time_windows_are_fail_closed_passes:
  assumes ready: "authority_ready L K"
  shows "assertion_and_key_time_windows_are_fail_closed L K = Inr ()"
proof -
  let ?n = "auth_snapshot (the_key K)" and ?c = "auth_context (auth_digest L)"
  let ?future = "auth_statement L\<lparr>au_not_before_ms := TEST_NOW + 1, au_expires_at_ms := TEST_NOW + 1001\<rparr>"
    and ?expired = "auth_statement L\<lparr>au_expires_at_ms := TEST_NOW\<rparr>"
  note like = auth_statement_like [OF ready] and valid = auth_snapshots [OF ready] auth_context_valid
  obtain e1 where e1: "sign L K the_signer ?future = Inr e1" by (rule like_fixture_signed [OF ready like(2)])
  obtain e2 where e2: "sign L K the_signer ?expired = Inr e2" by (rule like_fixture_signed [OF ready like(3)])
  have b: "verify_bindings ?future ?n ?c = Inl AssertionNotYetValid" "verify_bindings ?expired ?n ?c = Inl AssertionExpired"
    "verify_bindings (auth_statement L) (?n\<lparr>sn_key_valid_until_ms := TEST_NOW\<rparr>) ?c = Inl KeyExpired"
    by (simp_all add: bindings)
  have last: "with_encoded L K (\<lambda>encoded snapshot digest.
       refused_with KeyExpired (verify_authority L K encoded (snapshot\<lparr>sn_key_valid_until_ms := TEST_NOW\<rparr>)
         (auth_context digest))) = Inr ()"
    by (rule with_encoded_passes [OF ready])
       (simp add: refused_with_def fixture_verdict [OF ready] valid b)
  have "verify_authority L K e1 ?n ?c = Inl AssertionNotYetValid" "verify_authority L K e2 ?n ?c = Inl AssertionExpired"
    using bindings_verdict [OF ready like(2) e1, of ?n ?c] bindings_verdict [OF ready like(3) e2, of ?n ?c]
    by (simp_all add: valid b)
  then show ?thesis
    using last
    by (simp add: assertion_and_key_time_windows_are_fail_closed_def auth_signer_ok [OF ready] e1 e2
        public_key_of_def Let_def refused_with_def)
qed

lemma assertion_cannot_be_backdated_before_key_validity_passes:
  assumes ready: "authority_ready L K"
  shows "assertion_cannot_be_backdated_before_key_validity L K = Inr ()"
proof -
  let ?n = "auth_snapshot (the_key K)" and ?c = "auth_context (auth_digest L)"
    and ?s = "auth_statement L\<lparr>au_issued_at_ms := 899999, au_not_before_ms := 1000000\<rparr>"
  note like = auth_statement_like(4) [OF ready]
  obtain e where e: "sign L K the_signer ?s = Inr e" by (rule like_fixture_signed [OF ready like])
  have "verify_bindings ?s ?n ?c = Inl KeyNotValidAtIssuance" by (simp add: bindings)
  with bindings_verdict [OF ready like e, of ?n ?c] have "verify_authority L K e ?n ?c = Inl KeyNotValidAtIssuance"
    by (simp add: auth_snapshots [OF ready] auth_context_valid)
  then show ?thesis
    by (simp add: assertion_cannot_be_backdated_before_key_validity_def auth_signer_ok [OF ready] e
        public_key_of_def Let_def refused_with_def)
qed

lemma signing_refuses_identity_mismatch_and_oversized_lifetime_passes:
  assumes ready: "authority_ready L K"
  shows "signing_refuses_identity_mismatch_and_oversized_lifetime L K = Inr ()"
proof -
  have "au_validate (auth_statement L\<lparr>au_issuer := ''spiffe://attacker.invalid/authority''\<rparr>) = Inr ()"
    "au_validate (auth_statement L\<lparr>au_expires_at_ms := 1300001\<rparr>) = Inl InvalidValidityInterval"
    by (simp_all add: au_validate_def auth_statement_def test_fields AUTHORITY_PROFILE_VERSION_def)
  moreover have "au_expires_at_ms (auth_statement L) + 1 = 1300001" by (simp add: auth_statement_def)
  ultimately show ?thesis
    by (simp add: signing_refuses_identity_mismatch_and_oversized_lifetime_def auth_signer_ok [OF ready]
        sign_def refused_with_def Let_def)
qed

section \<open>Other signatures and headers\<close>

text \<open>The encoder accepts small objects with a given header.\<close>

definition encodes_small :: "'h cose_lib \<Rightarrow> 'h \<Rightarrow> bool" where
  "encodes_small K h \<longleftrightarrow> (\<forall>p a. length p \<le> MAX_PAYLOAD_BYTES \<longrightarrow>
     (\<exists>e. build_cose K the_signer h p a = Inr e \<and> length e \<le> MAX_COSE_BYTES))"

lemma built_decodes:
  assumes ready: "authority_ready L K" and s: "like_fixture L s"
    and payload: "canonical_json L (au_value s) = Inr payload" "length payload \<le> MAX_PAYLOAD_BYTES"
    and e: "to_tagged_vec K \<lparr>cs_protected = h, cs_original_data = None, cs_unprotected = empty_header K,
      cs_payload = Some payload, cs_signature = sig\<rparr> = Some e" "length e \<le> MAX_COSE_BYTES"
  obtains b where "header_to_vec K h = Some b" and "sig_structure K h (Some b) a payload = sig_structure K h None a payload"
    and "decode_statement L K e = Inr (\<lparr>cs_protected = h, cs_original_data = Some b,
      cs_unprotected = empty_header K, cs_payload = Some payload, cs_signature = sig\<rparr>, payload, s)"
proof -
  have conforms: "cose_conforms K" "reads_statements L K" using ready by (simp_all add: authority_ready_def)
  from conforms(1) e(1) obtain b where b: "header_to_vec K h = Some b"
    "from_tagged_slice K e = Some \<lparr>cs_protected = h, cs_original_data = Some b,
       cs_unprotected = empty_header K, cs_payload = Some payload, cs_signature = sig\<rparr>"
    "to_tagged_vec K \<lparr>cs_protected = h, cs_original_data = Some b,
       cs_unprotected = empty_header K, cs_payload = Some payload, cs_signature = sig\<rparr> = Some e"
    unfolding cose_conforms_def by blast
  have "header_is_empty K (empty_header K)" using conforms(1) unfolding cose_conforms_def by blast
  moreover have "sig_structure K h (Some b) a payload = sig_structure K h None a payload"
    using conforms(1) b(1) unfolding cose_conforms_def by blast
  moreover have "from_json_au K payload = Some s"
    using conforms(2) s payload(1) by (simp add: reads_statements_def like_fixture_def)
  ultimately show thesis
    using b payload e(2) s by (intro that) (simp_all add: decode_statement_ok carries_def like_fixture_def)
qed

lemma fixture_payload:
  assumes "authority_ready L K"
  obtains payload aad where "canonical_json L (au_value (auth_statement L)) = Inr payload"
    "length payload \<le> MAX_PAYLOAD_BYTES" "authority_external_aad L (auth_statement L) = Inr aad"
    "hd aad = CHR ''{''"
proof -
  obtain e where "sign L K the_signer (auth_statement L) = Inr e"
    by (rule like_fixture_signed [OF assms auth_statement_like(1) [OF assms]])
  then obtain payload aad where "canonical_json L (au_value (auth_statement L)) = Inr payload"
    "length payload \<le> MAX_PAYLOAD_BYTES" "authority_external_aad L (auth_statement L) = Inr aad"
    by (auto simp: sign_ok)
  moreover from this(3) have "hd aad = CHR ''{''"
    by (auto simp: authority_external_aad_def external_aad_value_def map_err_ok canonical_json_def rbind_ok
        encode_canonical_value.simps)
  ultimately show thesis by (rule that)
qed

lemma verdict_of_decoded:
  assumes "decode_statement L K e = Inr (cose, payload, s)" and "sn_validate K n = Inr ()" and "cx_validate c = Inr ()"
    and "check_signature L K n (cose, payload, s) = Inl x"
  shows "verify_authority L K e n c = Inl x"
  using assms by (simp add: verify_authority_def)

text \<open>The text that is signed for the statement of the fixture, with given external data.\<close>

definition fixture_text :: "lib \<Rightarrow> 'h cose_lib \<Rightarrow> string \<Rightarrow> string \<Rightarrow> bool" where
  "fixture_text L K a m \<longleftrightarrow> (\<exists>payload. canonical_json L (au_value (auth_statement L)) = Inr payload
     \<and> m = sig_structure K (expected_header K ''root-2026-09'') None a payload)"

text \<open>The signature of the text with the other external data is not one of the right text.\<close>

definition separates :: "lib \<Rightarrow> 'h cose_lib \<Rightarrow> bool" where
  "separates L K \<longleftrightarrow> (\<forall>aad m m'. authority_external_aad L (auth_statement L) = Inr aad \<longrightarrow>
     fixture_text L K aad m \<longrightarrow> fixture_text L K ''different-protocol/signature'' m' \<longrightarrow> m' \<noteq> m \<longrightarrow>
     \<not> verify_strict K (the_key K) m (key_sign K test_seed m'))"

text \<open>The verdict on an object that the test builds from the fixture statement.\<close>

abbreviation built_object :: "'h cose_lib \<Rightarrow> 'h \<Rightarrow> string option \<Rightarrow> string \<Rightarrow> string \<Rightarrow> 'h cose_sign1" where
  "built_object K h b payload a \<equiv> \<lparr>cs_protected = h, cs_original_data = b, cs_unprotected = empty_header K,
     cs_payload = Some payload, cs_signature = key_sign K test_seed (sig_structure K h None a payload)\<rparr>"

lemma built_verdict:
  assumes ready: "authority_ready L K" and small: "encodes_small K h"
    and p: "canonical_json L (au_value (auth_statement L)) = Inr payload" "length payload \<le> MAX_PAYLOAD_BYTES"
  obtains e b where "build_cose K the_signer h payload a = Inr e" and "header_to_vec K h = Some b"
    and "\<forall>a'. sig_structure K h (Some b) a' payload = sig_structure K h None a' payload"
    and "\<forall>x. check_signature L K (auth_snapshot (the_key K)) (built_object K h (Some b) payload a, payload,
      auth_statement L) = Inl x \<longrightarrow>
      verify_authority L K e (auth_snapshot (the_key K)) (auth_context (auth_digest L)) = Inl x"
proof -
  obtain e where e: "build_cose K the_signer h payload a = Inr e" "length e \<le> MAX_COSE_BYTES"
    using small p(2) unfolding encodes_small_def by blast
  have "to_tagged_vec K (built_object K h None payload a) = Some e"
    using e(1) by (simp add: build_cose_def ok_or_ok)
  note built = built_decodes [OF ready auth_statement_like(1) [OF ready] p this e(2)]
  obtain b where b: "header_to_vec K h = Some b"
    and d: "decode_statement L K e = Inr (built_object K h (Some b) payload a, payload, auth_statement L)"
    using built by blast
  have "sig_structure K h (Some b) a' payload = sig_structure K h None a' payload" for a'
    using ready b unfolding authority_ready_def cose_conforms_def by blast
  with e(1) b verdict_of_decoded [OF d auth_snapshots(1) [OF ready] auth_context_valid(1)] show thesis
    by (intro that) blast+
qed

lemma external_aad_domain_is_mandatory_passes:
  assumes ready: "authority_ready L K" and small: "encodes_small K (expected_header K ''root-2026-09'')"
    and "separates L K"
  shows "external_aad_domain_is_mandatory L K = Inr ()"
proof -
  let ?h = "expected_header K ''root-2026-09''" and ?other = "''different-protocol/signature''"
  obtain payload aad where p: "canonical_json L (au_value (auth_statement L)) = Inr payload"
    "length payload \<le> MAX_PAYLOAD_BYTES" "authority_external_aad L (auth_statement L) = Inr aad"
    "hd aad = CHR ''{''" by (rule fixture_payload [OF ready])
  obtain e b where e: "build_cose K the_signer ?h payload ?other = Inr e" and b: "header_to_vec K ?h = Some b"
    "\<forall>a'. sig_structure K ?h (Some b) a' payload = sig_structure K ?h None a' payload"
    and v: "\<forall>x. check_signature L K (auth_snapshot (the_key K)) (built_object K ?h (Some b) payload ?other, payload,
      auth_statement L) = Inl x \<longrightarrow>
      verify_authority L K e (auth_snapshot (the_key K)) (auth_context (auth_digest L)) = Inl x"
    by (rule built_verdict [OF ready small p(1,2), where a = "''different-protocol/signature''"])
  have "aad \<noteq> ?other" using p(4) by auto
  moreover have "sig_structure K ?h None aad payload = sig_structure K ?h None ?other payload \<longrightarrow> aad = ?other"
    using ready unfolding authority_ready_def cose_conforms_def by blast
  ultimately have "\<not> verify_strict K (the_key K) (sig_structure K ?h None aad payload)
      (key_sign K test_seed (sig_structure K ?h None ?other payload))"
    using assms(3) p(1,3) unfolding separates_def fixture_text_def by metis
  then have "check_signature L K (auth_snapshot (the_key K)) (built_object K ?h (Some b) payload ?other, payload,
      auth_statement L) = Inl InvalidSignature"
    using b p(3) key_ready(1) [OF ready]
    by (simp add: check_signature_def Let_def) (simp add: auth_statement_def ensure_def)
  with v p(1) e show ?thesis
    by (simp add: external_aad_domain_is_mandatory_def auth_signer_ok [OF ready] public_key_of_def Let_def
        refused_with_def)
qed

lemma protected_content_type_is_mandatory_passes:
  assumes ready: "authority_ready L K" and small: "encodes_small K (incomplete_header ''root-2026-09'')"
    and other: "incomplete_header ''root-2026-09'' \<noteq> expected_header K ''root-2026-09''"
  shows "protected_content_type_is_mandatory L K incomplete_header = Inr ()"
proof -
  let ?h = "incomplete_header ''root-2026-09''"
  obtain payload aad where p: "canonical_json L (au_value (auth_statement L)) = Inr payload"
    "length payload \<le> MAX_PAYLOAD_BYTES" "authority_external_aad L (auth_statement L) = Inr aad"
    by (rule fixture_payload [OF ready])
  obtain e b where e: "build_cose K the_signer ?h payload aad = Inr e"
    and v: "\<forall>x. check_signature L K (auth_snapshot (the_key K)) (built_object K ?h (Some b) payload aad, payload,
      auth_statement L) = Inl x \<longrightarrow>
      verify_authority L K e (auth_snapshot (the_key K)) (auth_context (auth_digest L)) = Inl x"
    by (rule built_verdict [OF ready small p(1,2), where a = aad])
  have "au_key_id (auth_statement L) = ''root-2026-09''" by (simp add: auth_statement_def)
  with other have "check_signature L K (auth_snapshot (the_key K)) (built_object K ?h (Some b) payload aad, payload,
      auth_statement L) = Inl InvalidProtectedHeaders"
    by (simp add: check_signature_def Let_def ensure_def)
  with v p e show ?thesis
    by (simp add: protected_content_type_is_mandatory_def auth_signer_ok [OF ready] public_key_of_def Let_def
        refused_with_def)
qed

lemma wrong_key_is_rejected_passes:
  assumes ready: "authority_ready L K"
    and other: "\<not> key_weak K (key_public K (replicate 32 8))"
      "\<And>aad m. authority_external_aad L (auth_statement L) = Inr aad \<Longrightarrow> fixture_text L K aad m \<Longrightarrow>
         \<not> verify_strict K (key_public K (replicate 32 8)) m (key_sign K test_seed m)"
  shows "wrong_key_is_rejected L K = Inr ()"
  unfolding wrong_key_is_rejected_def
proof (rule with_encoded_passes [OF ready], goal_cases)
  case (1 e)
  define k where "k = key_public K (replicate 32 8)"
  let ?n = "auth_snapshot (the_key K)\<lparr>sn_public_key := k\<rparr>"
  from ready have conforms: "cose_conforms K" "ed25519_conforms K" "reads_statements L K"
    by (simp_all add: authority_ready_def)
  have key: "key_valid K k" "\<not> key_weak K k"
    using conforms(2) other(1) by (simp_all add: ed25519_conforms_def k_def)
  obtain payload aad where p: "canonical_json L (au_value (auth_statement L)) = Inr payload"
    "length payload \<le> MAX_PAYLOAD_BYTES" "authority_external_aad L (auth_statement L) = Inr aad"
    by (rule fixture_payload [OF ready])
  have fields: "au_key_id (auth_statement L) = ''root-2026-09''"
    "au_issuer (auth_statement L) = ''spiffe://example.test/authority''"
    by (simp_all add: auth_statement_def)
  let ?h = "expected_header K ''root-2026-09''"
  from 1 p have e: "to_tagged_vec K (built_object K ?h None payload aad) = Some e" "length e \<le> MAX_COSE_BYTES"
    by (auto simp: sign_ok)
  obtain b where b: "header_to_vec K ?h = Some b" "sig_structure K ?h (Some b) aad payload = sig_structure K ?h None aad payload"
    and d: "decode_statement L K e = Inr (built_object K ?h (Some b) payload aad, payload, auth_statement L)"
    by (rule built_decodes [OF ready auth_statement_like(1) [OF ready] p(1,2) e, of aad])
  have "check_signature L K ?n (built_object K ?h (Some b) payload aad, payload, auth_statement L) = Inl InvalidSignature"
    using b p(3) key fields other(2) [OF p(3), of "sig_structure K ?h None aad payload"] p(1)
    by (simp add: check_signature_def Let_def ensure_def fixture_text_def k_def)
  moreover have "sn_validate K ?n = Inr ()"
    using key by (simp add: auth_snapshot_valid auth_snapshot_def TEST_NOW_def)
  ultimately have "verify_authority L K e ?n (auth_context (auth_digest L)) = Inl InvalidSignature"
    by (intro verdict_of_decoded [OF d]) (simp_all add: auth_context_valid)
  moreover have "from_seed K ''spiffe://example.test/authority'' ''root-2026-09'' (replicate 32 8)
      = Inr \<lparr>sa_issuer = ''spiffe://example.test/authority'', sa_key_id = ''root-2026-09'', sa_seed = replicate 32 8\<rparr>"
    using key(2) by (simp add: from_seed_def test_texts ensure_def k_def)
  ultimately show ?case by (simp add: Let_def refused_with_def public_key_of_def k_def)
qed

section \<open>Changed bytes\<close>

text \<open>
  Changing the last byte of an encoded object changes the last byte of its signature, and
  ed25519-dalek refuses the changed signature for the text that was signed.
\<close>

definition flip_last :: "string \<Rightarrow> string" where
  "flip_last s = s[length s - 1 := xor_byte 1 (s ! (length s - 1))]"

definition signature_last :: "'h cose_lib \<Rightarrow> bool" where
  "signature_last K \<longleftrightarrow> (\<forall>c e. cs_signature c \<noteq> [] \<longrightarrow> to_tagged_vec K c = Some e \<longrightarrow>
     to_tagged_vec K (c\<lparr>cs_signature := flip_last (cs_signature c)\<rparr>) = Some (flip_last e))"

definition refuses_flipped :: "'h cose_lib \<Rightarrow> bool" where
  "refuses_flipped K \<longleftrightarrow> (\<forall>m. key_sign K test_seed m \<noteq> []
     \<and> \<not> verify_strict K (the_key K) m (flip_last (key_sign K test_seed m)))"

lemma flip_last_length [simp]: "length (flip_last s) = length s"
  by (simp add: flip_last_def)

lemma flipped_refused:
  assumes ready: "authority_ready L K" and flips: "signature_last K" "refuses_flipped K"
    and e: "sign L K the_signer (auth_statement L) = Inr e"
  shows "verify_authority L K (flip_last e) (auth_snapshot (the_key K)) (auth_context (auth_digest L))
    = Inl InvalidSignature"
proof -
  let ?h = "expected_header K ''root-2026-09''" and ?n = "auth_snapshot (the_key K)"
  obtain payload aad where p: "canonical_json L (au_value (auth_statement L)) = Inr payload"
    "length payload \<le> MAX_PAYLOAD_BYTES" "authority_external_aad L (auth_statement L) = Inr aad"
    by (rule fixture_payload [OF ready])
  let ?sig = "flip_last (key_sign K test_seed (sig_structure K ?h None aad payload))"
  let ?o = "\<lambda>b. \<lparr>cs_protected = ?h, cs_original_data = b, cs_unprotected = empty_header K,
    cs_payload = Some payload, cs_signature = ?sig\<rparr>"
  from e p have o: "to_tagged_vec K (built_object K ?h None payload aad) = Some e" and len: "length e \<le> MAX_COSE_BYTES"
    by (auto simp: sign_ok)
  have "cs_signature (built_object K ?h None payload aad) \<noteq> []"
    using flips(2) by (simp add: refuses_flipped_def)
  with flips(1) o have "to_tagged_vec K (built_object K ?h None payload aad
      \<lparr>cs_signature := flip_last (cs_signature (built_object K ?h None payload aad))\<rparr>) = Some (flip_last e)"
    unfolding signature_last_def by blast
  then have "to_tagged_vec K (?o None) = Some (flip_last e)" by simp
  moreover have "length (flip_last e) \<le> MAX_COSE_BYTES" using len by simp
  ultimately obtain b where b: "header_to_vec K ?h = Some b"
      "sig_structure K ?h (Some b) aad payload = sig_structure K ?h None aad payload"
    and d: "decode_statement L K (flip_last e) = Inr (?o (Some b), payload, auth_statement L)"
    by (rule built_decodes [OF ready auth_statement_like(1) [OF ready] p(1,2), where a = aad])
  have "check_signature L K ?n (?o (Some b), payload, auth_statement L) = Inl InvalidSignature"
    using b p(3) key_ready(1) [OF ready] flips(2)
    by (simp add: check_signature_def Let_def refuses_flipped_def) (simp add: auth_statement_def ensure_def)
  then show ?thesis
    by (rule verdict_of_decoded [OF d auth_snapshots(1) [OF ready] auth_context_valid(1)])
qed

lemma signature_mutation_is_rejected_passes:
  assumes "authority_ready L K" and "signature_last K" and "refuses_flipped K"
  shows "signature_mutation_is_rejected L K = Inr ()"
  unfolding signature_mutation_is_rejected_def
  by (rule with_encoded_passes [OF assms(1)])
     (simp add: Let_def flip_last_def [symmetric, unfolded One_nat_def] flipped_refused [OF assms] refused_with_def)

text \<open>
  The property test. \<open>verify_authority\<close> refuses every object whose encoding is not the canonical
  one, so the alternative that the test leaves open for an accepted mutation never holds: the
  test passes exactly when the mutation is refused.
\<close>

lemma xor_byte_changes:
  assumes "bits \<noteq> 0"
  shows "xor_byte bits c \<noteq> c"
proof
  let ?w = "of_nat (of_char c) :: u8"
  assume "xor_byte bits c = c"
  then have "of_char (xor_byte bits c) = (of_char c :: nat)" by simp
  moreover have "unat (xor ?w bits) < 256" using unsigned_less [of "xor ?w bits", where 'a = nat] by simp
  ultimately have "unat (xor ?w bits) = (of_char c :: nat)" by (simp add: xor_byte_def)
  then have "of_nat (unat (xor ?w bits)) = ?w" by simp
  then have "xor ?w bits = ?w" by simp
  then have "xor ?w (xor ?w bits) = 0" by simp
  with assms show False by (simp add: xor.assoc [symmetric])
qed

abbreviation single_byte_test :: "lib \<Rightarrow> 'h cose_lib \<Rightarrow> nat \<Rightarrow> u8 \<Rightarrow> bool" where
  "single_byte_test \<equiv> single_byte_cose_mutation_is_rejected_unless_it_reencodes_the_exact_input"

definition mutated_at :: "nat \<Rightarrow> u8 \<Rightarrow> string \<Rightarrow> string" where
  "mutated_at i bits e = e[i mod length e := xor_byte bits (e ! (i mod length e))]"

lemma mutated_differs:
  assumes "bits \<noteq> 0" and "e \<noteq> []"
  shows "mutated_at i bits e \<noteq> e"
proof
  assume "mutated_at i bits e = e"
  then have "mutated_at i bits e ! (i mod length e) = e ! (i mod length e)" by simp
  with assms xor_byte_changes [OF assms(1)] show False by (simp add: mutated_at_def)
qed

lemma single_byte_test_iff:
  assumes ready: "authority_ready L K" and "bits \<noteq> 0"
    and e: "sign L K the_signer (auth_statement L) = Inr e" "e \<noteq> []"
  shows "single_byte_test L K i bits \<longleftrightarrow>
    isl (verify_authority L K (mutated_at i bits e) (auth_snapshot (the_key K)) (auth_context (auth_digest L)))"
proof -
  let ?m = "mutated_at i bits e"
  have fixture: "encoded_fixture L K = Inr (e, auth_snapshot (the_key K), auth_digest L)"
    by (simp add: encoded_fixture_def auth_signer_ok [OF ready] e public_key_of_def)
  have differs: "?m \<noteq> e" by (rule mutated_differs [OF assms(2) e(2)])
  show ?thesis
  proof (cases "verify_authority L K ?m (auth_snapshot (the_key K)) (auth_context (auth_digest L))")
    case (Inr v)
    then obtain cose payload where "carries L K ?m cose payload (vy_statement v)"
      by (auto simp: verify_authority_ok)
    then have "from_tagged_slice K ?m = Some cose" "to_tagged_vec K cose = Some ?m"
      by (simp_all add: carries_def)
    with Inr fixture differs show ?thesis
      by (simp add: single_byte_cose_mutation_is_rejected_unless_it_reencodes_the_exact_input_def mutated_at_def Let_def)
  next
    case (Inl x)
    with fixture differs show ?thesis
      by (simp add: single_byte_cose_mutation_is_rejected_unless_it_reencodes_the_exact_input_def mutated_at_def Let_def)
  qed
qed

text \<open>It passes when nobody else can sign: only the signed text with its signature verifies.\<close>

definition only_signed :: "'h cose_lib \<Rightarrow> string \<Rightarrow> bool" where
  "only_signed K m \<longleftrightarrow> (\<forall>m' sig. verify_strict K (the_key K) m' sig \<longrightarrow> m' = m \<and> sig = key_sign K test_seed m)"

lemma single_byte_cose_mutation_passes:
  assumes ready: "authority_ready L K" and "bits \<noteq> 0"
    and e: "sign L K the_signer (auth_statement L) = Inr e" "e \<noteq> []"
    and empty: "\<And>h. header_is_empty K h \<Longrightarrow> h = empty_header K"
    and p: "canonical_json L (au_value (auth_statement L)) = Inr payload"
      "authority_external_aad L (auth_statement L) = Inr aad"
    and signed: "only_signed K (sig_structure K (expected_header K ''root-2026-09'') None aad payload)"
  shows "single_byte_test L K i bits"
proof -
  let ?h = "expected_header K ''root-2026-09''" and ?n = "auth_snapshot (the_key K)" and ?m = "mutated_at i bits e"
  from ready have conforms: "cose_conforms K" by (simp add: authority_ready_def)
  have o: "to_tagged_vec K (built_object K ?h None payload aad) = Some e"
    using e p by (auto simp: sign_ok)
  have "\<not> (verify_authority L K ?m ?n (auth_context (auth_digest L)) = Inr v)" for v
  proof
    assume "verify_authority L K ?m ?n (auth_context (auth_digest L)) = Inr v"
    then obtain cose payload' where c: "carries L K ?m cose payload' (vy_statement v)"
      and a: "signature_accepted L K ?n cose payload' (vy_statement v)" by (auto simp: verify_authority_ok)
    from a obtain b aad' where a: "cs_protected cose = ?h" "cs_original_data cose = Some b" "header_to_vec K ?h = Some b"
      "verify_strict K (the_key K) (sig_structure K ?h (Some b) aad' payload') (cs_signature cose)"
      by (auto simp: signature_accepted_def)
    have "sig_structure K ?h (Some b) aad' payload' = sig_structure K ?h None aad' payload'"
      using conforms a(3) unfolding cose_conforms_def by blast
    with a(4) have "verify_strict K (the_key K) (sig_structure K ?h None aad' payload') (cs_signature cose)"
      by simp
    with signed have same: "sig_structure K ?h None aad' payload' = sig_structure K ?h None aad payload"
      and sig: "cs_signature cose = key_sign K test_seed (sig_structure K ?h None aad payload)"
      unfolding only_signed_def by blast+
    have "payload' = payload" using conforms same unfolding cose_conforms_def by blast
    moreover have "cs_unprotected cose = empty_header K" "cs_payload cose = Some payload'"
      using c empty by (simp_all add: carries_def)
    ultimately have "cose = built_object K ?h (Some b) payload aad"
      using a(1,2) sig by simp
    moreover obtain b' where "header_to_vec K ?h = Some b'" "to_tagged_vec K (built_object K ?h (Some b') payload aad) = Some e"
      using conforms o unfolding cose_conforms_def by blast
    ultimately have "?m = e" using c a(3) by (simp add: carries_def)
    with mutated_differs [OF assms(2) e(2)] show False by blast
  qed
  then show ?thesis
    unfolding single_byte_test_iff [OF ready assms(2) e]
    by (cases "verify_authority L K ?m ?n (auth_context (auth_digest L))") auto
qed

end
