(* ===== verification/Authority_Vector_Test.thy ===== *)
theory Authority_Vector_Test
  imports Authority_Tests_Pass
begin

text \<open>
  The test of the published vector passes on the vector that the generator of \<open>Authority_Vector\<close>
  prints: the test and the generator agree on every byte, and every mutation causes the error that
  the vector names.
\<close>

section \<open>Hexadecimal text\<close>

lemma nibbles: "or (push_bit 4 (drop_bit 4 b)) (and b 0x0f) = (b::u8)"
proof (rule bit_word_eqI)
  fix n assume "n < LENGTH(8)"
  have "and b 0x0f = take_bit 4 b" by (simp add: take_bit_eq_mask mask_eq_exp_minus_1)
  then show "bit (or (push_bit 4 (drop_bit 4 b)) (and b 0x0f)) n = bit b n"
    using \<open>n < LENGTH(8)\<close> by (cases "4 \<le> n") (auto simp: bit_simps)
qed
lemma decode_HEX:
  assumes "n < 16"
  shows "decode_hex_nibble (HEX ! n) = Inr (of_nat n)"
proof -
  have "list_all (\<lambda>n. decode_hex_nibble (HEX ! n) = Inr (of_nat n)) [0, 1, 2, 3, 4, 5, 6, 7, 8, 9, 10, 11, 12, 13, 14, 15]"
    by (simp add: HEX_def decode_hex_nibble_def)
  moreover have "n \<in> set [0, 1, 2, 3, 4, 5, 6, 7, 8, 9, 10, 11, 12, 13, 14, 15]"
    using assms by simp presburger
  ultimately show ?thesis by (simp only: list_all_iff)
qed

lemma decode_hex_hex: "decode_hex (hex bs) = Inr (bytes_text bs)"
proof -
  have "decode_pairs (concat (map (\<lambda>byte. [HEX ! unat (drop_bit 4 byte), HEX ! unat (and byte 0x0f)]) bs))
      = Inr (bytes_text bs)"
  proof (induction bs)
    case (Cons b bs)
    have "unat (drop_bit 4 b) < 16" "unat (and b 0x0f) < 16"
      using nibble_bounds [of b] by (simp_all add: high_nibble low_nibble)
    then have "decode_hex_nibble (HEX ! unat (drop_bit 4 b)) = Inr (drop_bit 4 b)"
      "decode_hex_nibble (HEX ! unat (and b 0x0f)) = Inr (and b 0x0f)"
      by (simp_all add: decode_HEX)
    with Cons show ?case by (simp add: nibbles) (simp add: bytes_text_def)
  qed (simp add: bytes_text_def)
  moreover have "length (hex bs) mod 2 = 0" by (induction bs) (simp_all add: hex_def)
  ultimately show ?thesis by (simp add: decode_hex_def hex_def)
qed

section \<open>The document as the test reads it\<close>

definition published_mutations :: "published_mutation list" where
  "published_mutations =
     (let none = \<lparr>pm_id = [], pm_operation = [], pm_expected_error = [], pm_offset = None, pm_mask = None,
            pm_count = None, pm_from_hex = None, pm_to_hex = None, pm_hex = None, pm_field = None, pm_value = None\<rparr> in
      [none\<lparr>pm_id := ''signature_bit_flip'', pm_operation := ''xor_byte_from_end'', pm_offset := Some 1,
         pm_mask := Some 1, pm_expected_error := ''invalid_signature''\<rparr>,
       none\<lparr>pm_id := ''missing_tag_18'', pm_operation := ''remove_prefix_bytes'', pm_count := Some 1,
         pm_expected_error := ''malformed_cose''\<rparr>,
       none\<lparr>pm_id := ''wrong_cbor_tag'', pm_operation := ''replace_prefix_hex'', pm_from_hex := Some ''d2'',
         pm_to_hex := Some ''d1'', pm_expected_error := ''malformed_cose''\<rparr>,
       none\<lparr>pm_id := ''noncanonical_tag_18'', pm_operation := ''replace_prefix_hex'', pm_from_hex := Some ''d2'',
         pm_to_hex := Some ''d812'', pm_expected_error := ''noncanonical_cose''\<rparr>,
       none\<lparr>pm_id := ''trailing_cbor_item'', pm_operation := ''append_hex'', pm_hex := Some ''00'',
         pm_expected_error := ''malformed_cose''\<rparr>,
       none\<lparr>pm_id := ''wrong_expected_audience'', pm_operation := ''verification_context_override'',
         pm_field := Some ''expected_audience'', pm_value := Some ''executor:other'',
         pm_expected_error := ''audience_mismatch''\<rparr>,
       none\<lparr>pm_id := ''issuer_utf8_byte_overflow'', pm_operation := ''statement_repeat'', pm_field := Some ''issuer'',
         pm_value := Some [CHR 0xC3, CHR 0xA9], pm_count := Some 257, pm_expected_error := ''invalid_field''\<rparr>])"

definition published_of ::
    "lib \<Rightarrow> 'h cose_lib \<Rightarrow> string \<Rightarrow> 'h cose_sign1 \<Rightarrow> string \<Rightarrow> string \<Rightarrow> string \<Rightarrow> published_vector" where
  "published_of L K encoded cose payload protected external_aad =
     \<lparr>pv_profile = AUTHORITY_PROFILE,
      pv_description = ''Deterministic tag-18 COSE Sign1 / Ed25519 authority vector. The seed is test material only.'',
      pv_seed_hex = hex vector_seed, pv_public_key_hex = hex (key_public K vector_seed),
      pv_statement = vector_statement L, pv_protected_header_hex = hex (text_bytes protected),
      pv_payload_hex = hex (text_bytes payload), pv_external_aad_hex = hex (text_bytes external_aad),
      pv_sig_structure_hex = hex (text_bytes (sig_structure K (cs_protected cose) (cs_original_data cose)
        external_aad payload)),
      pv_signature_hex = hex (text_bytes (cs_signature cose)),
      pv_cose_sign1_tagged_hex = hex (text_bytes encoded),
      pv_authority_snapshot = \<lparr>ps_issuer = ''spiffe://example.test/authority'', ps_key_id = ''root-2026-09'',
        ps_public_key_hex = hex (key_public K vector_seed), ps_authorized_roles = [''execution_authorizer''],
        ps_authorized_audiences = [''executor:production-a''], ps_authority_epoch = 12,
        ps_configuration_epoch = 41, ps_key_valid_from_ms = 900000, ps_key_valid_until_ms = 2000000,
        ps_revoked_at_ms = None, ps_observed_at_ms = 1000100\<rparr>,
      pv_verification_context = \<lparr>pc_expected_record_profile = ''effect-transaction/core/0.1'',
        pc_expected_record_version = 1, pc_expected_record_kind = KExecutionGrant,
        pc_expected_record_digest = au_record_digest (vector_statement L),
        pc_expected_role = ''execution_authorizer'', pc_expected_audience = ''executor:production-a'',
        pc_now_ms = 1000100, pc_maximum_snapshot_age_ms = 1000\<rparr>,
      pv_mutations = published_mutations\<rparr>"

text \<open>The derived reader reads every part of it from the document.\<close>

definition reads_back_statement :: "(jvalue \<Rightarrow> authority_statement option) \<Rightarrow> bool" where
  "reads_back_statement read_statement \<longleftrightarrow>
     (\<forall>s. digest_ok (au_record_digest s) \<longrightarrow> read_statement (au_value s) = Some s)"

lemma reads_back_read_au: "reads_back_statement read_au"
  unfolding reads_back_statement_def read_au_def au_value_def strict_object_def
  by (simp add: field_def)

lemmas entry_simps = struct_entries_def field_def optional_def read_usize_def read_u8_def

lemma read_snapshot_json:
  "read_published_snapshot (vector_snapshot_json k) =
     Some \<lparr>ps_issuer = ''spiffe://example.test/authority'', ps_key_id = ''root-2026-09'',
       ps_public_key_hex = hex k, ps_authorized_roles = [''execution_authorizer''],
       ps_authorized_audiences = [''executor:production-a''], ps_authority_epoch = 12,
       ps_configuration_epoch = 41, ps_key_valid_from_ms = 900000, ps_key_valid_until_ms = 2000000,
       ps_revoked_at_ms = None, ps_observed_at_ms = 1000100\<rparr>"
  by (simp add: read_published_snapshot_def vector_snapshot_json_def entry_simps read_set_def read_list_def
      read_u64_def)

lemma read_context_json:
  assumes "digest_ok d"
  shows "read_published_context (vector_context_json d) =
     Some \<lparr>pc_expected_record_profile = ''effect-transaction/core/0.1'',
        pc_expected_record_version = 1, pc_expected_record_kind = KExecutionGrant,
        pc_expected_record_digest = d, pc_expected_role = ''execution_authorizer'',
        pc_expected_audience = ''executor:production-a'', pc_now_ms = 1000100,
        pc_maximum_snapshot_age_ms = 1000\<rparr>"
  using assms read_kind [of KExecutionGrant]
  by (simp add: read_published_context_def vector_context_json_def entry_simps read_u64_def)

lemma read_mutations_json: "read_list read_published_mutation vector_mutations_json = Some published_mutations"
  by (simp add: vector_mutations_json_def read_list_def published_mutations_def Let_def
      read_published_mutation_def entry_simps)

lemma read_document:
  assumes "reads_back_statement read_statement" and "digest_ok (au_record_digest (vector_statement L))"
  shows "read_published read_statement (vector_document L K encoded cose payload protected external_aad)
    = Some (published_of L K encoded cose payload protected external_aad)"
  using assms
  by (simp add: read_published_def vector_document_def Let_def struct_entries_def field_def
      read_snapshot_json read_context_json read_mutations_json reads_back_statement_def published_of_def)

section \<open>The mutations\<close>

text \<open>
  What coset answers for the changed tags of an encoding that it wrote and reads: the encoding
  begins with the one-byte head of tag 18, and decoding demands that tag, reads its longer form
  as the same object, and refuses trailing bytes.
\<close>

definition tag_18 :: "'h cose_lib \<Rightarrow> bool" where
  "tag_18 K \<longleftrightarrow> (\<forall>c e. from_tagged_slice K e = Some c \<longrightarrow> to_tagged_vec K c = Some e \<longrightarrow>
     (\<exists>t. e = CHR 0xD2 # t \<and> from_tagged_slice K t = None \<and> from_tagged_slice K (CHR 0xD1 # t) = None
        \<and> from_tagged_slice K (CHR 0xD8 # CHR 0x12 # t) = Some c
        \<and> from_tagged_slice K (e @ [CHR 0x00]) = None))"

lemma fixture_reencodes:
  assumes "authority_ready L K" and "sign L K the_signer (auth_statement L) = Inr e"
  obtains c where "from_tagged_slice K e = Some c" "to_tagged_vec K c = Some e"
proof -
  from assms(2) obtain h p sig where "to_tagged_vec K \<lparr>cs_protected = h, cs_original_data = None,
      cs_unprotected = empty_header K, cs_payload = Some p, cs_signature = sig\<rparr> = Some e"
    by (auto simp: sign_ok)
  with assms(1) that show thesis
    unfolding authority_ready_def cose_conforms_def by blast
qed

lemma vector_is_fixture:
  "vector_statement L = auth_statement L" "vector_seed = test_seed"
  "snapshot_of (pv_authority_snapshot (published_of L K encoded cose payload protected aad)) k = auth_snapshot k"
  "context_of (pv_verification_context (published_of L K encoded cose payload protected aad))
     = auth_context (auth_digest L)"
  by (simp_all add: vector_statement_def auth_statement_def auth_digest_def vector_seed_def test_seed_def
      snapshot_of_def auth_snapshot_def context_of_def auth_context_def published_of_def TEST_NOW_def)

lemma undecodable:
  assumes "authority_ready L K" and "from_tagged_slice K e = None" and "length e \<le> MAX_COSE_BYTES"
  shows "verify_authority L K e (auth_snapshot (the_key K)) (auth_context d) = Inl MalformedCose"
  using assms auth_snapshots(1) [OF assms(1)] auth_context_valid(1)
  by (simp add: verify_authority_def decode_statement_def ensure_def)

lemma noncanonical:
  assumes "authority_ready L K" and "from_tagged_slice K e = Some c" and "to_tagged_vec K c = Some e'"
    and "e' \<noteq> e" and "length e \<le> MAX_COSE_BYTES"
  shows "verify_authority L K e (auth_snapshot (the_key K)) (auth_context d) = Inl NonCanonicalCose"
  using assms auth_snapshots(1) [OF assms(1)] auth_context_valid(1)
  by (simp add: verify_authority_def decode_statement_def ensure_def)

lemma decoded_texts:
  "decode_hex ''d2'' = Inr [CHR 0xD2]" "decode_hex ''d1'' = Inr [CHR 0xD1]"
  "decode_hex ''d812'' = Inr [CHR 0xD8, CHR 0x12]" "decode_hex ''00'' = Inr [CHR 0x00]"
  by (simp_all add: decode_hex_def decode_hex_nibble_def char_of_eq_iff)

definition mutation_ok ::
    "lib \<Rightarrow> 'h cose_lib \<Rightarrow> string \<Rightarrow> published_mutation \<Rightarrow> bool" where
  "mutation_ok L K e m \<longleftrightarrow>
     (case mutation_error L K the_signer (auth_statement L) e (auth_snapshot (the_key K))
             (auth_context (auth_digest L)) m of
        Inr x \<Rightarrow> authority_error_code x = pm_expected_error m
      | Inl _ \<Rightarrow> False)"

lemma mutation_okD:
  "mutation_ok L K e m \<Longrightarrow> \<exists>x. mutation_error L K the_signer (auth_statement L) e (auth_snapshot (the_key K))
     (auth_context (auth_digest L)) m = Inr x \<and> authority_error_code x = pm_expected_error m"
  by (auto simp: mutation_ok_def split: sum.splits)

lemma mutations_ok:
  assumes ready: "authority_ready L K" and flips: "signature_last K" "refuses_flipped K" and tag: "tag_18 K"
    and e: "sign L K the_signer (auth_statement L) = Inr e" "length e < MAX_COSE_BYTES"
  shows "\<forall>m \<in> set published_mutations. mutation_ok L K e m"
proof -
  obtain c' where c': "from_tagged_slice K e = Some c'" "to_tagged_vec K c' = Some e"
    by (rule fixture_reencodes [OF ready e(1)])
  with tag obtain t where t: "e = CHR 0xD2 # t" "from_tagged_slice K t = None" "from_tagged_slice K (CHR 0xD1 # t) = None"
    "from_tagged_slice K (CHR 0xD8 # CHR 0x12 # t) = Some c'"
    "from_tagged_slice K (e @ [CHR 0x00]) = None"
    unfolding tag_18_def by blast
  have lens: "length t \<le> MAX_COSE_BYTES" "length (CHR 0xD1 # t) \<le> MAX_COSE_BYTES"
    "length (CHR 0xD8 # CHR 0x12 # t) \<le> MAX_COSE_BYTES" "length (e @ [CHR 0x00]) \<le> MAX_COSE_BYTES"
    using e(2) t(1) by simp_all
  have v: "verify_authority L K t (auth_snapshot (the_key K)) (auth_context (auth_digest L)) = Inl MalformedCose"
    "verify_authority L K (CHR 0xD1 # t) (auth_snapshot (the_key K)) (auth_context (auth_digest L)) = Inl MalformedCose"
    "verify_authority L K (e @ [CHR 0x00]) (auth_snapshot (the_key K)) (auth_context (auth_digest L)) = Inl MalformedCose"
    "verify_authority L K (CHR 0xD8 # CHR 0x12 # t) (auth_snapshot (the_key K)) (auth_context (auth_digest L))
      = Inl NonCanonicalCose"
    using undecodable [OF ready t(2) lens(1)] undecodable [OF ready t(3) lens(2)] undecodable [OF ready t(5) lens(4)]
      noncanonical [OF ready t(4) c'(2) _ lens(3)] t(1) by simp_all
  have flipped: "verify_authority L K (e[length e - 1 := xor_byte 1 (e ! (length e - 1))])
      (auth_snapshot (the_key K)) (auth_context (auth_digest L)) = Inl InvalidSignature"
    using flipped_refused [OF ready flips e(1)] by (simp only: flip_last_def)
  have "cx_validate (auth_context (auth_digest L)\<lparr>cx_expected_audience := ''executor:other''\<rparr>) = Inr ()"
    by (simp add: cx_validate_def auth_context_def au_eval TEST_NOW_def)
  moreover have "verify_bindings (auth_statement L) (auth_snapshot (the_key K))
      (auth_context (auth_digest L)\<lparr>cx_expected_audience := ''executor:other''\<rparr>) = Inl AuAudienceMismatch"
    by (simp add: bindings)
  ultimately have other: "verify_authority L K e (auth_snapshot (the_key K))
      (auth_context (auth_digest L)\<lparr>cx_expected_audience := ''executor:other''\<rparr>) = Inl AuAudienceMismatch"
    by (simp add: fixture_verdict [OF ready e(1)] auth_snapshots [OF ready])
  have long: "sign L K the_signer (auth_statement L\<lparr>au_issuer := concat (replicate 257 [CHR 0xC3, CHR 0xA9])\<rparr>)
      = Inl (InvalidField ''issuer'')"
    using long_issuer [of L K the_signer] by (simp add: vector_is_fixture)
  note ops = mutation_ok_def mutation_error_def Let_def rejected_verification_def rejected_signing_def
  have ne: "\<not> length e < 1" "e \<noteq> []" "take (length [CHR 0xD2]) e = [CHR 0xD2]" "drop (length [CHR 0xD2]) e = t" "drop 1 e = t"
    using t(1) by simp_all
  show ?thesis
    using v flipped other long ne
    unfolding published_mutations_def Let_def
    by (simp add: ops decoded_texts del: concat.simps replicate.simps)
qed

section \<open>The test\<close>

lemma same_hex [simp]: "same x (hex (text_bytes y)) = assert_that (x = y)"
  by (simp add: same_def decode_hex_hex)

lemma decode_key_hex: "length k = 32 \<Longrightarrow> decode_key name (hex k) = Inr (text_bytes (bytes_text k))"
  by (simp add: decode_key_def decode_hex_hex) (simp add: bytes_text_def)

lemma text_bytes_text [simp]: "text_bytes (bytes_text bs) = bs"
proof -
  have "of_nat (of_char (char_of (unat b) :: char)) = b" for b :: u8
    using unsigned_less [of b, where 'a = nat] by simp
  then show ?thesis by (simp add: bytes_text_def text_bytes_def comp_def)
qed

lemma published_accepted:
  assumes ready: "authority_ready L K" and e: "sign L K the_signer (auth_statement L) = Inr e"
  shows "verify_authority L K e (auth_snapshot (the_key K)) (auth_context (auth_digest L))
    = Inr (verified_of L (auth_statement L) (auth_snapshot (the_key K)) (auth_context (auth_digest L)))"
proof -
  have "verify_bindings (auth_statement L) (auth_snapshot (the_key K)) (auth_context (auth_digest L)) = Inr ()"
    by (simp add: bindings)
  then show ?thesis
    by (simp add: fixture_verdict [OF ready e] auth_snapshots [OF ready] auth_context_valid)
qed

lemma published_authority_vector_passes:
  assumes ready: "authority_ready L K" and flips: "signature_last K" "refuses_flipped K" and tag: "tag_18 K"
    and key: "length (the_key K) = 32"
    and e: "sign L K the_signer (auth_statement L) = Inr e" "length e < MAX_COSE_BYTES"
    and parts: "from_tagged_slice K e = Some cose" "cs_payload cose = Some payload"
      "cs_original_data cose = Some b" "authority_external_aad L (auth_statement L) = Inr aad"
  shows "published_authority_vector_is_exact_and_adversarial L K
      (Inr (published_of L K e cose payload b aad)) = Inr ()"
proof -
  let ?p = "published_of L K e cose payload b aad" and ?n = "auth_snapshot (the_key K)"
    and ?c = "auth_context (auth_digest L)"
  have p: "pv_profile ?p = AUTHORITY_PROFILE" "\<not> pv_description ?p = []" "pv_seed_hex ?p = hex test_seed"
    "pv_public_key_hex ?p = hex (the_key K)" "pv_statement ?p = auth_statement L"
    "pv_protected_header_hex ?p = hex (text_bytes b)" "pv_payload_hex ?p = hex (text_bytes payload)"
    "pv_external_aad_hex ?p = hex (text_bytes aad)" "pv_signature_hex ?p = hex (text_bytes (cs_signature cose))"
    "pv_sig_structure_hex ?p = hex (text_bytes (sig_structure K (cs_protected cose) (Some b) aad payload))"
    "pv_cose_sign1_tagged_hex ?p = hex (text_bytes e)" "pv_mutations ?p = published_mutations"
    "ps_public_key_hex (pv_authority_snapshot ?p) = hex (the_key K)"
    by (simp_all add: published_of_def vector_is_fixture parts)
  have seed: "length test_seed = 32" by (simp add: test_seed_def)
  have signer_ok: "from_seed K (au_issuer (auth_statement L)) (au_key_id (auth_statement L)) test_seed = Inr the_signer"
    using auth_signer_ok [OF ready] by (simp add: auth_signer_def auth_statement_def test_seed_def)
  obtain t where "e = CHR 0xD2 # t"
    using fixture_reencodes [OF ready e(1)] tag unfolding tag_18_def by metis
  then have first: "take 1 e = [CHR 0xD2]" by simp
  have "\<forall>m \<in> set published_mutations. \<exists>x. mutation_error L K the_signer (auth_statement L) e ?n ?c m = Inr x
      \<and> authority_error_code x = pm_expected_error m"
    using mutations_ok [OF ready flips tag e] mutation_okD by blast
  then have rounds: "checks (map (\<lambda>m. question (mutation_error L K the_signer (auth_statement L) e ?n ?c m)
      (\<lambda>error. assert_that (authority_error_code error = pm_expected_error m))) published_mutations) = Inr ()"
    by (auto simp: checks_ok)
  have "length published_mutations = 7" by (simp add: published_mutations_def Let_def)
  then show ?thesis
    using p seed key signer_ok e first parts published_accepted [OF ready e(1)] rounds
    by (simp add: published_authority_vector_is_exact_and_adversarial_def decode_key_hex decode_hex_hex
        public_key_of_def vector_is_fixture Let_def)
qed

text \<open>
  C37: A verifier that replays the generated vector gets what the document says. The document, as
  the derived reader of the test reads it, carries an encoded assertion that is accepted under its
  snapshot and its context, and is about its statement; each of its seven mutations, applied to
  this assertion, statement and context, is refused with the error code that the document names;
  and the whole test of the published vector passes on it.
\<close>

theorem authority_vector_replays:
  assumes "authority_ready L K" and "signature_last K" and "refuses_flipped K" and "tag_18 K"
    and "reads_back_statement read_statement" and "length (key_public K vector_seed) = 32"
    and "\<And>e. sign L K vector_signer (vector_statement L) = Inr e \<Longrightarrow> length e < MAX_COSE_BYTES"
    and "generate_vector L K = Inr v"
  shows "\<exists>p encoded key y. read_published read_statement v = Some p
    \<and> decode_hex (pv_cose_sign1_tagged_hex p) = Inr encoded
    \<and> decode_key ''public_key_hex'' (ps_public_key_hex (pv_authority_snapshot p)) = Inr key
    \<and> verify_authority L K encoded (snapshot_of (pv_authority_snapshot p) key)
        (context_of (pv_verification_context p)) = Inr y
    \<and> vy_statement y = pv_statement p
    \<and> list_all (\<lambda>m. \<exists>x. mutation_error L K vector_signer (pv_statement p) encoded
          (snapshot_of (pv_authority_snapshot p) key) (context_of (pv_verification_context p)) m = Inr x
        \<and> authority_error_code x = pm_expected_error m) (pv_mutations p)
    \<and> length (pv_mutations p) = 7
    \<and> published_authority_vector_is_exact_and_adversarial L K (Inr p) = Inr ()"
proof -
  note ready = assms(1)
  have signer: "vector_signer = the_signer" by (simp add: vector_signer_def vector_is_fixture)
  from assms(8) obtain e cose payload b aad where e: "sign L K the_signer (auth_statement L) = Inr e"
    and parts: "from_tagged_slice K e = Some cose" "cs_payload cose = Some payload" "cs_original_data cose = Some b"
      "authority_external_aad L (auth_statement L) = Inr aad"
    and v: "v = vector_document L K e cose payload b aad"
    unfolding generated signer vector_is_fixture by blast
  have key: "length (the_key K) = 32" and small: "length e < MAX_COSE_BYTES"
    using assms(6,7) e by (simp_all add: signer vector_is_fixture)
  let ?p = "published_of L K e cose payload b aad"
  have "digest_ok (au_record_digest (vector_statement L))"
    using ready by (simp add: authority_ready_def vector_statement_def payload_digest_ok)
  then have "read_published read_statement v = Some ?p" unfolding v by (rule read_document [OF assms(5)])
  moreover have "published_authority_vector_is_exact_and_adversarial L K (Inr ?p) = Inr ()"
    by (rule published_authority_vector_passes [OF ready assms(2-4) key e small parts])
  moreover have "decode_hex (pv_cose_sign1_tagged_hex ?p) = Inr e" "pv_statement ?p = auth_statement L"
    "decode_key ''public_key_hex'' (ps_public_key_hex (pv_authority_snapshot ?p)) = Inr (the_key K)"
    "pv_mutations ?p = published_mutations" "length published_mutations = 7"
    using key by (simp_all add: published_of_def decode_hex_hex decode_key_hex vector_is_fixture
        published_mutations_def Let_def)
  moreover have "list_all (\<lambda>m. \<exists>x. mutation_error L K the_signer (auth_statement L) e (auth_snapshot (the_key K))
      (auth_context (auth_digest L)) m = Inr x \<and> authority_error_code x = pm_expected_error m) published_mutations"
    unfolding list_all_iff using mutations_ok [OF ready assms(2-4) e small] mutation_okD by blast
  ultimately show ?thesis
    using published_accepted [OF ready e]
    by (intro exI [of _ ?p] exI [of _ e] exI [of _ "the_key K"]
          exI [of _ "verified_of L (auth_statement L) (auth_snapshot (the_key K)) (auth_context (auth_digest L))"])
       (simp add: vector_is_fixture signer verified_of_def)
qed

section \<open>The assumptions can be met\<close>

lemma flip_last_snoc: "flip_last (p @ [x]) = p @ [xor_byte 1 x]"
  by (simp add: flip_last_def)

lemma flip_last_append: "s \<noteq> [] \<Longrightarrow> flip_last (p @ s) = p @ flip_last s"
  using flip_last_snoc [of "p @ butlast s" "last s"] flip_last_snoc [of "butlast s" "last s"] by simp

lemma ref_signature_last: "signature_last ref_cose"
proof -
  have put: "put (flip_last s) = flip_last (put s)" if "s \<noteq> []" for s
    using that flip_last_append [of s "replicate (length s) (CHR ''x'') @ [CHR '' '']"]
    by (simp add: put_def)
  have "put s \<noteq> []" for s by (simp add: put_def)
  then have "flip_last (CHR 0xD2 # a @ b @ c @ put s) = CHR 0xD2 # a @ b @ c @ put (flip_last s)" if "s \<noteq> []" for a b c s
    using flip_last_append [of "put s" "CHR 0xD2 # a @ b @ c"] put [OF that] by simp
  then show ?thesis by (auto simp: signature_last_def)
qed

lemma ref_refuses_flipped: "refuses_flipped ref_cose"
proof -
  have "flip_last (ref_sign k m) \<noteq> ref_sign k m" and "ref_sign k m \<noteq> []" for k m
  proof -
    show ne: "ref_sign k m \<noteq> []" by (metis ref_sign_length list.size(3) zero_neq_numeral)
    have "xor_byte 1 c \<noteq> c" for c by (rule xor_byte_changes) simp
    with ne show "flip_last (ref_sign k m) \<noteq> ref_sign k m"
      unfolding flip_last_def
      by (metis diff_less length_greater_0_conv less_one nth_list_update_eq)
  qed
  then show ?thesis by (auto simp: refuses_flipped_def)
qed

lemma ref_tag_18: "tag_18 ref_cose"
  unfolding tag_18_def
proof (intro allI impI)
  fix c e
  assume d: "from_tagged_slice ref_cose e = Some c" and "to_tagged_vec ref_cose c = Some e"
  then obtain b p where e: "e = CHR 0xD2 # put b @ put (put_header (cs_unprotected c)) @ put p @ put (cs_signature c)"
    by auto
  moreover have "untag (put b @ t) = None" for t
    by (cases b) (simp_all add: put_def untag_def)
  moreover have "from_tagged_slice ref_cose (CHR 0xD8 # CHR 0x12 # t) = from_tagged_slice ref_cose (CHR 0xD2 # t)" for t
    by (simp add: ref_cose_def)
  moreover have "from_tagged_slice ref_cose (e @ [CHR 0x00]) = None"
    unfolding e by (auto simp: ref_cose_def bind_eq_None_conv)
  ultimately show "\<exists>t. e = CHR 0xD2 # t \<and> from_tagged_slice ref_cose t = None
      \<and> from_tagged_slice ref_cose (CHR 0xD1 # t) = None
      \<and> from_tagged_slice ref_cose (CHR 0xD8 # CHR 0x12 # t) = Some c
      \<and> from_tagged_slice ref_cose (e @ [CHR 0x00]) = None"
    using d by (simp add: ref_cose_def)
qed

text \<open>The encoded vector is far below the limit.\<close>

lemma ref_vector_small:
  assumes "sign ref_lib ref_cose vector_signer (vector_statement ref_lib) = Inr e"
  shows "length e < MAX_COSE_BYTES"
proof -
  let ?s = "vector_statement ref_lib"
  have "digest_ok (au_record_digest ?s)"
    using payload_digest_ok [OF ref_lib_hash] by (simp add: vector_statement_def)
  then have bound: "text_bound (au_value ?s) \<le> 4000"
    by (simp add: au_value_def vector_statement_def AUTHORITY_PROFILE_def)
  from assms obtain p aad where p: "canonical_json ref_lib (au_value ?s) = Inr p"
    and e: "e = CHR 0xD2 # put (put_header (expected_header ref_cose ''root-2026-09'')) @ put (put_header ([], []))
      @ put p @ put (ref_sign vector_seed (sig_structure ref_cose (expected_header ref_cose ''root-2026-09'') None aad p))"
    by (auto simp: sign_ok protected_bytes_def vector_signer_def)
  from p bound have "length p \<le> 4000"
    using encode_text_bound [OF ref_lib_quote, of "au_value ?s" p]
    by (auto simp: canonical_json_def rbind_ok)
  then show ?thesis
    by (simp add: e put_header_def expected_header_def MAX_COSE_BYTES_def COSE_CONTENT_TYPE_def)
qed

theorem authority_vector_replays_witness:
  "\<exists>v p encoded key y. generate_vector ref_lib ref_cose = Inr v \<and> read_published read_au v = Some p
    \<and> decode_hex (pv_cose_sign1_tagged_hex p) = Inr encoded
    \<and> verify_authority ref_lib ref_cose encoded (snapshot_of (pv_authority_snapshot p) key)
        (context_of (pv_verification_context p)) = Inr y
    \<and> vy_statement y = pv_statement p \<and> length (pv_mutations p) = 7
    \<and> published_authority_vector_is_exact_and_adversarial ref_lib ref_cose (Inr p) = Inr ()"
proof -
  obtain v where v: "generate_vector ref_lib ref_cose = Inr v" using fx_generated by blast
  have key: "length (key_public ref_cose vector_seed) = 32" by (simp add: vector_seed_def)
  show ?thesis
    using authority_vector_replays [OF reference_ready ref_signature_last ref_refuses_flipped ref_tag_18
        reads_back_read_au key ref_vector_small v] v
    by blast
qed

end
