(* ===== verification/Sqlite_Store.thy ===== *)
theory Sqlite_Store
  imports Parsing Store_Interface
begin

text \<open>
  The durable lifecycle store, crates/effect-transaction-sqlite/src/lib.rs: the data it
  exchanges with its callers, the database that its schema declares, and one definition per
  query, helper and operation.

  A database is a \<open>database\<close> record with one list of rows per table, in insertion order;
  an INTEGER column is an \<open>int\<close>, TEXT and BLOB columns are strings. A statement has the
  effect that SQLite documents for it, constraints of the schema included. Everything that may
  go wrong in the engine (I/O, locking, a stored value of the wrong type) is the argument
  \<open>eng\<close>, which gives the error of a statement or \<open>None\<close>; no operation runs the same statement
  twice, so this is general. \<open>BEGIN IMMEDIATE\<close> serializes the operations of all connections,
  and an operation that does not reach its commit is rolled back (\<open>transact\<close>).
\<close>

section \<open>Data\<close>

definition MAX_CURRENTNESS_AGE_MS :: u64 where "MAX_CURRENTNESS_AGE_MS = 300000"

record currentness_snapshot =
  cu_key :: string
  cu_version :: u64
  cu_policy_epoch :: u64
  cu_configuration_epoch :: u64
  cu_pre_state_digest :: digest32
  cu_resource_claim_digest :: digest32
  cu_revoked :: bool
  cu_observed_at_ms :: u64

record claim_request =
  cq_attempt_id :: string
  cq_expected_audience :: string
  cq_currentness_key :: string
  cq_expected_snapshot_version :: u64
  cq_maximum_snapshot_age_ms :: u64

record durable_claim =
  dc_grant_hash :: digest32
  dc_attempt_id :: string
  dc_currentness_key :: string
  dc_snapshot_version :: u64
  dc_maximum_snapshot_age_ms :: u64
  dc_claimed_at_ms :: u64
  dc_dispatch_started_at_ms :: "u64 option"

record dispatch_marker =
  dm_grant_hash :: digest32
  dm_attempt_id :: string
  dm_dispatched_at_ms :: u64

record lifecycle =
  lc_grant_hash :: digest32
  lc_claim :: "durable_claim option"
  lc_receipt :: "effect_receipt option"
  lc_reconciliations :: "reconciliation_record list"

datatype store_error =
  SE_Protocol protocol_error
| SE_Unavailable
| SE_Corrupt
| SE_IncompatibleSchema
| SE_ForeignDatabase
| SE_InvalidInput string
| SE_GrantConflict
| SE_ProposalAlreadyGranted
| SE_DecisionAlreadyGranted
| SE_UnknownGrant
| SE_UnknownCurrentness
| SE_CurrentnessVersionConflict
| SE_AuthorityEpochRollback
| SE_ObservationRollback
| SE_RevocationRollback
| SE_ClockRollback
| SE_StaleSnapshot
| SE_SnapshotFromFuture
| SE_StaleCurrentness
| SE_AudienceMismatch
| SE_StaleAuthority
| SE_StalePreState
| SE_StaleResourceClaim
| SE_GrantRevoked
| SE_GrantNotYetValid
| SE_GrantExpired
| SE_GrantAlreadyClaimed
| SE_AttemptAlreadyUsed
| SE_ClaimMismatch
| SE_DispatchAlreadyStarted
| SE_DispatchEvidenceMismatch
| SE_ReceiptConflict
| SE_UnknownReceipt
| SE_ReconciliationFork
| SE_ReconciliationIdentifierConflict

text \<open>Protocol errors are converted by the question-mark operator.\<close>

abbreviation protocol :: "protocol_error + 'a \<Rightarrow> store_error + 'a" where
  "protocol \<equiv> map_err SE_Protocol"

section \<open>The errors of the database library\<close>

datatype error_code = ConstraintViolation | OtherCode

datatype rusqlite_error =
  SqliteFailure error_code
| FromSqlConversionFailure
| IntegralValueOutOfRange
| InvalidColumnType
| QueryReturnedMoreThanOneRow
| QueryReturnedNoRows
| OtherError

definition is_constraint :: "rusqlite_error \<Rightarrow> bool" where
  "is_constraint error \<longleftrightarrow> error = SqliteFailure ConstraintViolation"

definition map_sqlite :: "rusqlite_error \<Rightarrow> store_error" where
  "map_sqlite error =
     (if error \<in> {FromSqlConversionFailure, IntegralValueOutOfRange, InvalidColumnType,
                  QueryReturnedMoreThanOneRow}
      then SE_Corrupt else SE_Unavailable)"

text \<open>\<open>OptionalExtension::optional\<close>: a query without a row is \<open>None\<close>.\<close>

definition optional :: "rusqlite_error + 'a \<Rightarrow> rusqlite_error + 'a option" where
  "optional r =
     (case r of Inr x \<Rightarrow> Inr (Some x)
      | Inl e \<Rightarrow> if e = QueryReturnedNoRows then Inr None else Inl e)"

datatype sql_stmt =
  BeginImmediate | Commit
| SelectChainById | SelectChainByHash | SelectProposal | SelectDecision | InsertChain
| SelectCurrentness | InsertCurrentness | UpdateCurrentness
| SelectLastTime | UpdateLastTime
| SelectClaim | SelectClaimExists | InsertClaim | UpdateDispatch
| SelectReceiptByGrant | SelectReceiptByHash | InsertReceipt
| SelectReconciliationAt | SelectLatestReconciliation | CountReconciliations
| SelectReconciliationId | InsertReconciliation | SelectReconciliations | ReconciliationRow nat

type_synonym engine = "sql_stmt \<Rightarrow> rusqlite_error option"

definition sql :: "engine \<Rightarrow> sql_stmt \<Rightarrow> rusqlite_error + 'a \<Rightarrow> rusqlite_error + 'a" where
  "sql eng st r = (case eng st of Some e \<Rightarrow> Inl e | None \<Rightarrow> r)"

text \<open>\<open>query_row\<close>: the first of the selected rows.\<close>

definition query_row :: "engine \<Rightarrow> sql_stmt \<Rightarrow> 'row list \<Rightarrow> rusqlite_error + 'row" where
  "query_row eng st rows =
     sql eng st (case rows of [] \<Rightarrow> Inl QueryReturnedNoRows | row # _ \<Rightarrow> Inr row)"

definition query_optional :: "engine \<Rightarrow> sql_stmt \<Rightarrow> 'row list \<Rightarrow> store_error + 'row option" where
  "query_optional eng st rows = map_err map_sqlite (optional (query_row eng st rows))"

section \<open>The tables\<close>

record currentness_row =
  kr_key :: string
  kr_version :: int
  kr_policy_epoch :: int
  kr_configuration_epoch :: int
  kr_pre_state_digest :: string
  kr_resource_claim_digest :: string
  kr_revoked :: int
  kr_observed_at_ms :: int

record raw_chain =
  rc_grant_hash :: string
  rc_proposal_hash :: string
  rc_decision_hash :: string
  rc_commitment_json :: string
  rc_proposal_json :: string
  rc_decision_json :: string
  rc_grant_json :: string

record claim_row =
  cl_grant_hash :: string
  cl_attempt_id :: string
  cl_currentness_key :: string
  cl_snapshot_version :: int
  cl_maximum_snapshot_age_ms :: int
  cl_claimed_at_ms :: int
  cl_dispatch_started_at_ms :: "int option"

record receipt_row =
  re_grant_hash :: string
  re_receipt_id :: string
  re_receipt_hash :: string
  re_receipt_json :: string

record reconciliation_row =
  rn_receipt_hash :: string
  rn_sequence :: int
  rn_reconciliation_id :: string
  rn_reconciliation_hash :: string
  rn_parent_hash :: "string option"
  rn_record_json :: string

text \<open>
  \<open>db_last_time\<close> is the singleton row of \<open>store_meta\<close>, and a row of \<open>authorization_chains\<close> is
  the pair of its primary key \<open>grant_id\<close> and its other columns.
\<close>

record database =
  db_last_time :: "int option option"
  db_currentness :: "currentness_row list"
  db_chains :: "(string \<times> raw_chain) list"
  db_claims :: "claim_row list"
  db_receipts :: "receipt_row list"
  db_reconciliations :: "reconciliation_row list"

text \<open>The database that the schema script creates.\<close>

definition empty_database :: database where
  "empty_database = \<lparr>db_last_time = Some None, db_currentness = [], db_chains = [],
     db_claims = [], db_receipts = [], db_reconciliations = []\<rparr>"

text \<open>
  Writes, with the constraints of the schema: primary keys, UNIQUE, CHECK, REFERENCES and the
  update trigger of \<open>claims\<close>. In a UNIQUE column NULLs do not conflict.
\<close>

definition constrained :: "bool \<Rightarrow> database \<Rightarrow> rusqlite_error + database" where
  "constrained met db = (if met then Inr db else Inl (SqliteFailure ConstraintViolation))"

definition currentness_check :: "currentness_row \<Rightarrow> bool" where
  "currentness_check r \<longleftrightarrow>
     kr_version r > 0 \<and> kr_policy_epoch r \<ge> 0 \<and> kr_configuration_epoch r \<ge> 0
     \<and> kr_revoked r \<in> {0, 1} \<and> kr_observed_at_ms r \<ge> 0"

definition insert_currentness :: "currentness_row \<Rightarrow> database \<Rightarrow> rusqlite_error + database" where
  "insert_currentness row db =
     constrained (currentness_check row \<and> kr_key row \<notin> kr_key ` set (db_currentness db))
       (db\<lparr>db_currentness := db_currentness db @ [row]\<rparr>)"

definition update_currentness :: "currentness_row \<Rightarrow> database \<Rightarrow> rusqlite_error + database" where
  "update_currentness row db =
     constrained (currentness_check row \<or> kr_key row \<notin> kr_key ` set (db_currentness db))
       (db\<lparr>db_currentness :=
          map (\<lambda>r. if kr_key r = kr_key row then row else r) (db_currentness db)\<rparr>)"

definition update_last_time :: "int \<Rightarrow> database \<Rightarrow> rusqlite_error + database" where
  "update_last_time now db = Inr (db\<lparr>db_last_time := map_option (\<lambda>_. Some now) (db_last_time db)\<rparr>)"

definition insert_chain :: "string \<Rightarrow> raw_chain \<Rightarrow> database \<Rightarrow> rusqlite_error + database" where
  "insert_chain grant_id row db =
     constrained
       (\<not> list_ex (\<lambda>(i, r). i = grant_id \<or> rc_grant_hash r = rc_grant_hash row
                        \<or> rc_proposal_hash r = rc_proposal_hash row
                        \<or> rc_decision_hash r = rc_decision_hash row) (db_chains db))
       (db\<lparr>db_chains := db_chains db @ [(grant_id, row)]\<rparr>)"

definition claim_check :: "claim_row \<Rightarrow> bool" where
  "claim_check r \<longleftrightarrow>
     cl_maximum_snapshot_age_ms r > 0
     \<and> (case cl_dispatch_started_at_ms r of None \<Rightarrow> True | Some t \<Rightarrow> t \<ge> cl_claimed_at_ms r)"

definition insert_claim :: "claim_row \<Rightarrow> database \<Rightarrow> rusqlite_error + database" where
  "insert_claim row db =
     constrained
       (claim_check row
        \<and> \<not> list_ex (\<lambda>r. cl_grant_hash r = cl_grant_hash row \<or> cl_attempt_id r = cl_attempt_id row)
              (db_claims db)
        \<and> list_ex (\<lambda>(i, r). rc_grant_hash r = cl_grant_hash row) (db_chains db)
        \<and> list_ex (\<lambda>r. kr_key r = cl_currentness_key row) (db_currentness db))
       (db\<lparr>db_claims := db_claims db @ [row]\<rparr>)"

text \<open>The trigger \<open>claims_update_guard\<close> aborts an update from \<open>old\<close> to \<open>new\<close>.\<close>

definition claims_update_guard :: "claim_row \<Rightarrow> claim_row \<Rightarrow> bool" where
  "claims_update_guard old new \<longleftrightarrow>
     cl_grant_hash new \<noteq> cl_grant_hash old \<or> cl_attempt_id new \<noteq> cl_attempt_id old
     \<or> cl_currentness_key new \<noteq> cl_currentness_key old
     \<or> cl_snapshot_version new \<noteq> cl_snapshot_version old
     \<or> cl_maximum_snapshot_age_ms new \<noteq> cl_maximum_snapshot_age_ms old
     \<or> cl_claimed_at_ms new \<noteq> cl_claimed_at_ms old
     \<or> cl_dispatch_started_at_ms old \<noteq> None \<or> cl_dispatch_started_at_ms new = None"

definition update_claims ::
    "(claim_row \<Rightarrow> bool) \<Rightarrow> (claim_row \<Rightarrow> claim_row) \<Rightarrow> database \<Rightarrow> rusqlite_error + database" where
  "update_claims selected change db =
     constrained
       (list_all (\<lambda>r. selected r \<longrightarrow> \<not> claims_update_guard r (change r) \<and> claim_check (change r))
          (db_claims db))
       (db\<lparr>db_claims := map (\<lambda>r. if selected r then change r else r) (db_claims db)\<rparr>)"

definition insert_receipt :: "receipt_row \<Rightarrow> database \<Rightarrow> rusqlite_error + database" where
  "insert_receipt row db =
     constrained
       (\<not> list_ex (\<lambda>r. re_grant_hash r = re_grant_hash row \<or> re_receipt_id r = re_receipt_id row
                     \<or> re_receipt_hash r = re_receipt_hash row) (db_receipts db)
        \<and> list_ex (\<lambda>r. cl_grant_hash r = re_grant_hash row) (db_claims db))
       (db\<lparr>db_receipts := db_receipts db @ [row]\<rparr>)"

definition insert_reconciliation ::
    "reconciliation_row \<Rightarrow> database \<Rightarrow> rusqlite_error + database" where
  "insert_reconciliation row db =
     constrained
       (rn_sequence row > 0
        \<and> \<not> list_ex (\<lambda>r. (rn_receipt_hash r = rn_receipt_hash row \<and> rn_sequence r = rn_sequence row)
                     \<or> rn_reconciliation_id r = rn_reconciliation_id row
                     \<or> rn_reconciliation_hash r = rn_reconciliation_hash row
                     \<or> (rn_parent_hash row \<noteq> None \<and> rn_parent_hash r = rn_parent_hash row))
              (db_reconciliations db)
        \<and> list_ex (\<lambda>r. re_receipt_hash r = rn_receipt_hash row) (db_receipts db))
       (db\<lparr>db_reconciliations := db_reconciliations db @ [row]\<rparr>)"

section \<open>Input validation and conversions\<close>

definition store_validate_text :: "string \<Rightarrow> string \<Rightarrow> nat \<Rightarrow> store_error + unit" where
  "store_validate_text name value maximum =
     (if value = [] \<or> length value > maximum \<or> \<not> is_trimmed value \<or> list_ex is_control (chars value)
      then Inl (SE_InvalidInput name) else Inr ())"

text \<open>After the test the conversion to \<open>i64\<close> cannot fail.\<close>

definition safe_i64 :: "u64 \<Rightarrow> string \<Rightarrow> store_error + int" where
  "safe_i64 value name =
     (if value > MAX_SAFE_INTEGER then Inl (SE_InvalidInput name)
      else if uint value < 2 ^ 63 then Inr (uint value) else Inl (SE_InvalidInput name))"

definition decode_u64 :: "int \<Rightarrow> store_error + u64" where
  "decode_u64 value =
     (if value < 0 \<or> value \<ge> 2 ^ 64 then Inl SE_Corrupt
      else if of_int value > MAX_SAFE_INTEGER then Inl SE_Corrupt else Inr (of_int value))"

definition discard :: "'e + 'a \<Rightarrow> 'e + unit" where
  "discard r = rbind r (\<lambda>_. Inr ())"

definition validate_snapshot :: "currentness_snapshot \<Rightarrow> store_error + unit" where
  "validate_snapshot s = checks
     [store_validate_text ''currentness key'' (cu_key s) 1024,
      ensure (cu_version s \<noteq> 0) (SE_InvalidInput ''snapshot version''),
      discard (safe_i64 (cu_version s) ''snapshot version''),
      discard (safe_i64 (cu_policy_epoch s) ''policy epoch''),
      discard (safe_i64 (cu_configuration_epoch s) ''configuration epoch''),
      discard (safe_i64 (cu_observed_at_ms s) ''observed_at_ms'')]"

definition validate_claim_request :: "claim_request \<Rightarrow> store_error + unit" where
  "validate_claim_request q = checks
     [store_validate_text ''attempt_id'' (cq_attempt_id q) 256,
      store_validate_text ''expected_audience'' (cq_expected_audience q) 512,
      store_validate_text ''currentness_key'' (cq_currentness_key q) 1024,
      ensure (cq_expected_snapshot_version q \<noteq> 0) (SE_InvalidInput ''snapshot version''),
      discard (safe_i64 (cq_expected_snapshot_version q) ''snapshot version''),
      ensure (\<not> (cq_maximum_snapshot_age_ms q = 0
                \<or> cq_maximum_snapshot_age_ms q > MAX_CURRENTNESS_AGE_MS))
        (SE_InvalidInput ''maximum snapshot age''),
      discard (safe_i64 (cq_maximum_snapshot_age_ms q) ''maximum snapshot age'')]"

definition validate_currentness_age ::
    "currentness_snapshot \<Rightarrow> u64 \<Rightarrow> u64 \<Rightarrow> store_error + unit" where
  "validate_currentness_age s trusted_now_ms maximum_snapshot_age_ms = checks
     [ensure (\<not> cu_observed_at_ms s > trusted_now_ms) SE_SnapshotFromFuture,
      ensure (\<not> trusted_now_ms - cu_observed_at_ms s > maximum_snapshot_age_ms) SE_StaleCurrentness]"

definition snapshot_params :: "currentness_snapshot \<Rightarrow> store_error + currentness_row" where
  "snapshot_params s =
     rbind (safe_i64 (cu_version s) ''snapshot version'') (\<lambda>version.
     rbind (safe_i64 (cu_policy_epoch s) ''policy epoch'') (\<lambda>policy_epoch.
     rbind (safe_i64 (cu_configuration_epoch s) ''configuration epoch'') (\<lambda>configuration_epoch.
     rbind (safe_i64 (cu_observed_at_ms s) ''observed_at_ms'') (\<lambda>observed_at_ms.
     Inr \<lparr>kr_key = cu_key s, kr_version = version, kr_policy_epoch = policy_epoch,
          kr_configuration_epoch = configuration_epoch,
          kr_pre_state_digest = as_str (cu_pre_state_digest s),
          kr_resource_claim_digest = as_str (cu_resource_claim_digest s),
          kr_revoked = (if cu_revoked s then 1 else 0), kr_observed_at_ms = observed_at_ms\<rparr>))))"

definition validate_dispatch_evidence :: "effect_receipt \<Rightarrow> u64 option \<Rightarrow> store_error + unit" where
  "validate_dispatch_evidence receipt dispatch_marker =
     (case (dispatch_marker, er_dispatched_at_ms receipt) of
        (None, None) \<Rightarrow>
          ensure (er_outcome receipt \<in> {NotDispatched, Unknown}) SE_DispatchEvidenceMismatch
      | (Some marker_time, Some reported) \<Rightarrow>
          ensure (er_outcome receipt \<in> {Succeeded, Failed, Unknown} \<and> marker_time = reported)
            SE_DispatchEvidenceMismatch
      | _ \<Rightarrow> Inl SE_DispatchEvidenceMismatch)"

section \<open>Queries\<close>

definition decode_currentness :: "string \<Rightarrow> currentness_row \<Rightarrow> store_error + currentness_snapshot" where
  "decode_currentness key row =
     rbind (decode_u64 (kr_version row)) (\<lambda>version.
     rbind (decode_u64 (kr_policy_epoch row)) (\<lambda>policy_epoch.
     rbind (decode_u64 (kr_configuration_epoch row)) (\<lambda>configuration_epoch.
     rbind (protocol (parse_digest (kr_pre_state_digest row))) (\<lambda>pre_state_digest.
     rbind (protocol (parse_digest (kr_resource_claim_digest row))) (\<lambda>resource_claim_digest.
     rbind (if kr_revoked row = 0 then Inr False else if kr_revoked row = 1 then Inr True
            else Inl SE_Corrupt) (\<lambda>revoked.
     rbind (decode_u64 (kr_observed_at_ms row)) (\<lambda>observed_at_ms.
     Inr \<lparr>cu_key = key, cu_version = version, cu_policy_epoch = policy_epoch,
          cu_configuration_epoch = configuration_epoch, cu_pre_state_digest = pre_state_digest,
          cu_resource_claim_digest = resource_claim_digest, cu_revoked = revoked,
          cu_observed_at_ms = observed_at_ms\<rparr>)))))))"

text \<open>\<open>.map(f).transpose()\<close> on an optional row.\<close>

definition map_transpose :: "('a \<Rightarrow> 'e + 'b) \<Rightarrow> 'a option \<Rightarrow> 'e + 'b option" where
  "map_transpose f v = (case v of None \<Rightarrow> Inr None | Some x \<Rightarrow> rbind (f x) (\<lambda>y. Inr (Some y)))"

definition load_currentness ::
    "engine \<Rightarrow> string \<Rightarrow> database \<Rightarrow> store_error + currentness_snapshot option" where
  "load_currentness eng key db =
     rbind (query_optional eng SelectCurrentness
              (filter (\<lambda>r. kr_key r = key) (db_currentness db))) (\<lambda>row.
     map_transpose (decode_currentness key) row)"

record stored_chain =
  sc_grant_hash :: digest32
  sc_commitment :: task_commitment
  sc_proposal :: effect_proposal
  sc_decision :: authorization_decision
  sc_grant :: execution_grant

definition decode_chain :: "lib \<Rightarrow> raw_chain \<Rightarrow> store_error + stored_chain" where
  "decode_chain L raw =
     rbind (protocol (parse_tc L (rc_commitment_json raw))) (\<lambda>commitment.
     rbind (protocol (parse_ep L (rc_proposal_json raw))) (\<lambda>proposal.
     rbind (protocol (parse_ad L (rc_decision_json raw))) (\<lambda>decision.
     rbind (protocol (parse_eg L (rc_grant_json raw))) (\<lambda>grant.
     rbind (protocol (parse_digest (rc_grant_hash raw))) (\<lambda>grant_hash.
     rbind (protocol (verify_grant L commitment proposal decision grant)) (\<lambda>verified.
     rbind (ensure (\<not> verified \<noteq> grant_hash) SE_Corrupt) (\<lambda>_.
     rbind (protocol (ep_commitment L proposal)) (\<lambda>proposal_hash.
     rbind (ensure (\<not> as_str proposal_hash \<noteq> rc_proposal_hash raw) SE_Corrupt) (\<lambda>_.
     rbind (protocol (ad_commitment L decision)) (\<lambda>decision_hash.
     rbind (ensure (\<not> as_str decision_hash \<noteq> rc_decision_hash raw) SE_Corrupt) (\<lambda>_.
     Inr \<lparr>sc_grant_hash = grant_hash, sc_commitment = commitment, sc_proposal = proposal,
          sc_decision = decision, sc_grant = grant\<rparr>)))))))))))"

definition load_raw_chain_by_id ::
    "engine \<Rightarrow> string \<Rightarrow> database \<Rightarrow> store_error + raw_chain option" where
  "load_raw_chain_by_id eng grant_id db =
     query_optional eng SelectChainById
       (map snd (filter (\<lambda>(i, r). i = grant_id) (db_chains db)))"

definition load_chain_by_grant_id ::
    "lib \<Rightarrow> engine \<Rightarrow> string \<Rightarrow> database \<Rightarrow> store_error + stored_chain option" where
  "load_chain_by_grant_id L eng grant_id db =
     rbind (load_raw_chain_by_id eng grant_id db) (map_transpose (decode_chain L))"

definition load_chain_by_grant_hash ::
    "lib \<Rightarrow> engine \<Rightarrow> string \<Rightarrow> database \<Rightarrow> store_error + stored_chain option" where
  "load_chain_by_grant_hash L eng hash db =
     rbind (query_optional eng SelectChainByHash
              (filter (\<lambda>r. rc_grant_hash r = hash) (map snd (db_chains db))))
       (map_transpose (decode_chain L))"

definition store_exists :: "engine \<Rightarrow> string \<Rightarrow> string \<Rightarrow> database \<Rightarrow> store_error + bool" where
  "store_exists eng column value db =
     (if column = ''proposal_hash'' then
        rbind (query_optional eng SelectProposal
                 (filter (\<lambda>r. rc_proposal_hash r = value) (map snd (db_chains db)))) (\<lambda>row.
        Inr (row \<noteq> None))
      else if column = ''decision_hash'' then
        rbind (query_optional eng SelectDecision
                 (filter (\<lambda>r. rc_decision_hash r = value) (map snd (db_chains db)))) (\<lambda>row.
        Inr (row \<noteq> None))
      else Inl (SE_InvalidInput ''lookup column''))"

definition load_last_time :: "engine \<Rightarrow> database \<Rightarrow> store_error + int option" where
  "load_last_time eng db =
     map_err map_sqlite (query_row eng SelectLastTime
       (case db_last_time db of None \<Rightarrow> [] | Some t \<Rightarrow> [t]))"

definition claim_exists :: "engine \<Rightarrow> string \<Rightarrow> database \<Rightarrow> store_error + bool" where
  "claim_exists eng hash db =
     rbind (query_optional eng SelectClaimExists
              (filter (\<lambda>r. cl_grant_hash r = hash) (db_claims db))) (\<lambda>row.
     Inr (row \<noteq> None))"

definition decode_claim :: "string \<Rightarrow> claim_row \<Rightarrow> store_error + durable_claim" where
  "decode_claim hash row =
     rbind (protocol (parse_digest hash)) (\<lambda>grant_hash.
     rbind (decode_u64 (cl_snapshot_version row)) (\<lambda>snapshot_version.
     rbind (decode_u64 (cl_maximum_snapshot_age_ms row)) (\<lambda>maximum_snapshot_age_ms.
     rbind (decode_u64 (cl_claimed_at_ms row)) (\<lambda>claimed_at_ms.
     rbind (map_transpose decode_u64 (cl_dispatch_started_at_ms row)) (\<lambda>dispatch_started_at_ms.
     Inr \<lparr>dc_grant_hash = grant_hash, dc_attempt_id = cl_attempt_id row,
          dc_currentness_key = cl_currentness_key row, dc_snapshot_version = snapshot_version,
          dc_maximum_snapshot_age_ms = maximum_snapshot_age_ms, dc_claimed_at_ms = claimed_at_ms,
          dc_dispatch_started_at_ms = dispatch_started_at_ms\<rparr>)))))"

definition load_claim :: "engine \<Rightarrow> string \<Rightarrow> database \<Rightarrow> store_error + durable_claim option" where
  "load_claim eng hash db =
     rbind (query_optional eng SelectClaim (filter (\<lambda>r. cl_grant_hash r = hash) (db_claims db)))
       (map_transpose (decode_claim hash))"

definition decode_receipt :: "lib \<Rightarrow> receipt_row \<Rightarrow> store_error + effect_receipt" where
  "decode_receipt L row =
     rbind (protocol (parse_er L (re_receipt_json row))) (\<lambda>receipt.
     rbind (protocol (er_commitment L receipt)) (\<lambda>hash.
     rbind (ensure (\<not> as_str hash \<noteq> re_receipt_hash row) SE_Corrupt) (\<lambda>_.
     Inr receipt)))"

definition load_receipt_by_grant ::
    "lib \<Rightarrow> engine \<Rightarrow> string \<Rightarrow> database \<Rightarrow> store_error + effect_receipt option" where
  "load_receipt_by_grant L eng hash db =
     rbind (query_optional eng SelectReceiptByGrant
              (filter (\<lambda>r. re_grant_hash r = hash) (db_receipts db)))
       (map_transpose (decode_receipt L))"

definition load_receipt_by_hash ::
    "lib \<Rightarrow> engine \<Rightarrow> string \<Rightarrow> database \<Rightarrow> store_error + effect_receipt option" where
  "load_receipt_by_hash L eng hash db =
     rbind (query_optional eng SelectReceiptByHash
              (filter (\<lambda>r. re_receipt_hash r = hash) (db_receipts db)))
       (map_transpose (decode_receipt L))"

text \<open>The rows of one receipt in the order of their sequence numbers.\<close>

definition reconciliations_of :: "string \<Rightarrow> database \<Rightarrow> reconciliation_row list" where
  "reconciliations_of hash db =
     sort_key rn_sequence (filter (\<lambda>r. rn_receipt_hash r = hash) (db_reconciliations db))"

definition decode_reconciliation ::
    "lib \<Rightarrow> reconciliation_row \<Rightarrow> store_error + reconciliation_record" where
  "decode_reconciliation L row = protocol (parse_rr L (rn_record_json row))"

definition load_reconciliation_at ::
    "lib \<Rightarrow> engine \<Rightarrow> string \<Rightarrow> u64 \<Rightarrow> database \<Rightarrow> store_error + reconciliation_record option" where
  "load_reconciliation_at L eng hash sequence db =
     rbind (safe_i64 sequence ''reconciliation sequence'') (\<lambda>n.
     rbind (query_optional eng SelectReconciliationAt
              (filter (\<lambda>r. rn_receipt_hash r = hash \<and> rn_sequence r = n) (db_reconciliations db)))
       (map_transpose (decode_reconciliation L)))"

definition load_latest_reconciliation ::
    "lib \<Rightarrow> engine \<Rightarrow> string \<Rightarrow> database \<Rightarrow> store_error + reconciliation_record option" where
  "load_latest_reconciliation L eng hash db =
     rbind (query_optional eng SelectLatestReconciliation (rev (reconciliations_of hash db)))
       (map_transpose (decode_reconciliation L))"

definition reconciliation_count :: "engine \<Rightarrow> string \<Rightarrow> database \<Rightarrow> store_error + nat" where
  "reconciliation_count eng hash db =
     map_err map_sqlite (query_row eng CountReconciliations [length (reconciliations_of hash db)])"

definition reconciliation_id_exists :: "engine \<Rightarrow> string \<Rightarrow> database \<Rightarrow> store_error + bool" where
  "reconciliation_id_exists eng identifier db =
     rbind (query_optional eng SelectReconciliationId
              (filter (\<lambda>r. rn_reconciliation_id r = identifier) (db_reconciliations db))) (\<lambda>row.
     Inr (row \<noteq> None))"

text \<open>The loop over the rows: \<open>n\<close> is the number of rows read before.\<close>

fun read_rows ::
    "lib \<Rightarrow> engine \<Rightarrow> nat \<Rightarrow> reconciliation_row list
     \<Rightarrow> store_error + reconciliation_record list" where
  "read_rows L eng n [] = Inr []"
| "read_rows L eng n (row # rows) =
     rbind (map_err map_sqlite (sql eng (ReconciliationRow n) (Inr row))) (\<lambda>r.
     rbind (decode_reconciliation L r) (\<lambda>record.
     rbind (read_rows L eng (Suc n) rows) (\<lambda>records.
     Inr (record # records))))"

definition load_all_reconciliations ::
    "lib \<Rightarrow> engine \<Rightarrow> string \<Rightarrow> database \<Rightarrow> store_error + reconciliation_record list" where
  "load_all_reconciliations L eng hash db =
     rbind (map_err map_sqlite (sql eng SelectReconciliations (Inr ()))) (\<lambda>_.
     read_rows L eng 0 (reconciliations_of hash db))"

end
