(* ===== verification/Sqlite_Operations.thy ===== *)
theory Sqlite_Operations
  imports Sqlite_Store
begin

text \<open>
  The operations of \<open>SqliteEffectStore\<close> in crates/effect-transaction-sqlite/src/lib.rs. An
  operation validates its arguments, then runs one transaction; its body maps the database
  to the result and the new database, and \<open>transact\<close> commits it or rolls it back.
  \<open>read_lifecycle\<close> does not open a transaction, so each of its queries sees the database as it
  is then: the arguments \<open>db1\<close> to \<open>db4\<close>.
\<close>

section \<open>Transactions\<close>

definition immediate :: "engine \<Rightarrow> store_error + unit" where
  "immediate eng = map_err map_sqlite (sql eng BeginImmediate (Inr ()))"

definition commit :: "engine \<Rightarrow> store_error + unit" where
  "commit eng = map_err map_sqlite (sql eng Commit (Inr ()))"

definition transact ::
    "engine \<Rightarrow> (database \<Rightarrow> store_error + ('a \<times> database)) \<Rightarrow> database
     \<Rightarrow> (store_error + 'a) \<times> database" where
  "transact eng body db =
     (case rbind (immediate eng) (\<lambda>_. rbind (body db) (\<lambda>out. rbind (commit eng) (\<lambda>_. Inr out))) of
        Inl e \<Rightarrow> (Inl e, db)
      | Inr (x, db') \<Rightarrow> (Inr x, db'))"

text \<open>Checks before the transaction is opened.\<close>

definition before ::
    "store_error + 'a \<Rightarrow> ('a \<Rightarrow> database \<Rightarrow> (store_error + 'b) \<times> database) \<Rightarrow> database
     \<Rightarrow> (store_error + 'b) \<times> database" where
  "before r rest db = (case r of Inl e \<Rightarrow> (Inl e, db) | Inr x \<Rightarrow> rest x db)"

text \<open>\<open>transaction.execute(..).map_err(map_sqlite)?\<close>.\<close>

definition execute :: "engine \<Rightarrow> sql_stmt \<Rightarrow> rusqlite_error + database \<Rightarrow> store_error + database" where
  "execute eng st w = map_err map_sqlite (sql eng st w)"

section \<open>Registration\<close>

definition register_body ::
    "engine \<Rightarrow> string \<Rightarrow> digest32 \<Rightarrow> raw_chain \<Rightarrow> database \<Rightarrow> store_error + (digest32 \<times> database)" where
  "register_body eng grant_id grant_hash row db =
     rbind (load_raw_chain_by_id eng grant_id db) (\<lambda>existing.
     case existing of
       Some stored \<Rightarrow>
         if rc_grant_hash stored = rc_grant_hash row \<and> rc_proposal_hash stored = rc_proposal_hash row
            \<and> rc_decision_hash stored = rc_decision_hash row
            \<and> rc_commitment_json stored = rc_commitment_json row
            \<and> rc_proposal_json stored = rc_proposal_json row
            \<and> rc_decision_json stored = rc_decision_json row
            \<and> rc_grant_json stored = rc_grant_json row
         then Inr (grant_hash, db) else Inl SE_GrantConflict
     | None \<Rightarrow>
         rbind (store_exists eng ''proposal_hash'' (rc_proposal_hash row) db) (\<lambda>b.
         rbind (ensure (\<not> b) SE_ProposalAlreadyGranted) (\<lambda>_.
         rbind (store_exists eng ''decision_hash'' (rc_decision_hash row) db) (\<lambda>b.
         rbind (ensure (\<not> b) SE_DecisionAlreadyGranted) (\<lambda>_.
         rbind (execute eng InsertChain (insert_chain grant_id row db)) (\<lambda>db'.
         Inr (grant_hash, db')))))))"

definition register_row ::
    "lib \<Rightarrow> task_commitment \<Rightarrow> effect_proposal \<Rightarrow> authorization_decision \<Rightarrow> execution_grant
     \<Rightarrow> store_error + (digest32 \<times> raw_chain)" where
  "register_row L commitment proposal decision grant =
     protocol
       (rbind (verify_grant L commitment proposal decision grant) (\<lambda>grant_hash.
        rbind (ep_commitment L proposal) (\<lambda>proposal_hash.
        rbind (ad_commitment L decision) (\<lambda>decision_hash.
        rbind (canonical_json L (tc_value commitment)) (\<lambda>commitment_json.
        rbind (canonical_json L (ep_value proposal)) (\<lambda>proposal_json.
        rbind (canonical_json L (ad_value decision)) (\<lambda>decision_json.
        rbind (canonical_json L (eg_value grant)) (\<lambda>grant_json.
        Inr (grant_hash,
          \<lparr>rc_grant_hash = as_str grant_hash, rc_proposal_hash = as_str proposal_hash,
           rc_decision_hash = as_str decision_hash, rc_commitment_json = commitment_json,
           rc_proposal_json = proposal_json, rc_decision_json = decision_json,
           rc_grant_json = grant_json\<rparr>)))))))))"

definition register_chain ::
    "lib \<Rightarrow> engine \<Rightarrow> task_commitment \<Rightarrow> effect_proposal \<Rightarrow> authorization_decision \<Rightarrow> execution_grant
     \<Rightarrow> database \<Rightarrow> (store_error + digest32) \<times> database" where
  "register_chain L eng commitment proposal decision grant =
     before (register_row L commitment proposal decision grant) (\<lambda>(grant_hash, row).
       transact eng (register_body eng (eg_grant_id grant) grant_hash row))"

section \<open>Currentness\<close>

definition put_checks :: "currentness_snapshot \<Rightarrow> currentness_snapshot \<Rightarrow> store_error + unit" where
  "put_checks snapshot previous = checks
     [ensure (\<not> cu_version snapshot \<le> cu_version previous) SE_CurrentnessVersionConflict,
      ensure (\<not> (cu_policy_epoch snapshot < cu_policy_epoch previous
                \<or> cu_configuration_epoch snapshot < cu_configuration_epoch previous))
        SE_AuthorityEpochRollback,
      ensure (\<not> cu_observed_at_ms snapshot < cu_observed_at_ms previous) SE_ObservationRollback,
      ensure (\<not> (cu_revoked previous \<and> \<not> cu_revoked snapshot
                \<and> cu_policy_epoch snapshot = cu_policy_epoch previous
                \<and> cu_configuration_epoch snapshot = cu_configuration_epoch previous))
        SE_RevocationRollback]"

definition put_body ::
    "engine \<Rightarrow> currentness_snapshot \<Rightarrow> database \<Rightarrow> store_error + (unit \<times> database)" where
  "put_body eng snapshot db =
     rbind (load_currentness eng (cu_key snapshot) db) (\<lambda>existing.
     case existing of
       Some previous \<Rightarrow>
         if previous = snapshot then Inr ((), db)
         else
           rbind (put_checks snapshot previous) (\<lambda>_.
           rbind (snapshot_params snapshot) (\<lambda>row.
           rbind (execute eng UpdateCurrentness (update_currentness row db)) (\<lambda>db'.
           Inr ((), db'))))
     | None \<Rightarrow>
         rbind (snapshot_params snapshot) (\<lambda>row.
         rbind (execute eng InsertCurrentness (insert_currentness row db)) (\<lambda>db'.
         Inr ((), db'))))"

definition put_currentness ::
    "engine \<Rightarrow> currentness_snapshot \<Rightarrow> database \<Rightarrow> (store_error + unit) \<times> database" where
  "put_currentness eng snapshot =
     before (validate_snapshot snapshot) (\<lambda>_. transact eng (put_body eng snapshot))"

section \<open>Claim\<close>

definition check_clock :: "engine \<Rightarrow> int \<Rightarrow> database \<Rightarrow> store_error + unit" where
  "check_clock eng now db =
     rbind (load_last_time eng db) (\<lambda>last_time.
     ensure (\<not> (case last_time of None \<Rightarrow> False | Some t \<Rightarrow> now < t)) SE_ClockRollback)"

definition claim_currentness ::
    "stored_chain \<Rightarrow> currentness_snapshot \<Rightarrow> claim_request \<Rightarrow> u64 \<Rightarrow> store_error + unit" where
  "claim_currentness chain snapshot request now_ms = checks
     [validate_currentness_age snapshot now_ms (cq_maximum_snapshot_age_ms request),
      ensure (\<not> cu_version snapshot \<noteq> cq_expected_snapshot_version request) SE_StaleSnapshot,
      ensure (\<not> cq_expected_audience request \<noteq> eg_audience (sc_grant chain)) SE_AudienceMismatch,
      ensure (\<not> (cu_policy_epoch snapshot \<noteq> tc_policy_epoch (sc_commitment chain)
                \<or> cu_configuration_epoch snapshot \<noteq> tc_configuration_epoch (sc_commitment chain)))
        SE_StaleAuthority,
      ensure (\<not> cu_pre_state_digest snapshot \<noteq> ep_pre_state_digest (sc_proposal chain)) SE_StalePreState,
      ensure (\<not> cu_resource_claim_digest snapshot \<noteq> ep_resource_claim_digest (sc_proposal chain))
        SE_StaleResourceClaim,
      ensure (\<not> cu_revoked snapshot) SE_GrantRevoked,
      ensure (\<not> now_ms < eg_not_before_ms (sc_grant chain)) SE_GrantNotYetValid,
      ensure (\<not> now_ms \<ge> eg_expires_at_ms (sc_grant chain)) SE_GrantExpired]"

text \<open>The final match on the result of the insertion.\<close>

definition execute_claim :: "engine \<Rightarrow> claim_row \<Rightarrow> database \<Rightarrow> store_error + database" where
  "execute_claim eng row db =
     (case sql eng InsertClaim (insert_claim row db) of
        Inr db' \<Rightarrow> Inr db'
      | Inl error \<Rightarrow>
          if is_constraint error then
            rbind (claim_exists eng (cl_grant_hash row) db) (\<lambda>b.
            Inl (if b then SE_GrantAlreadyClaimed else SE_AttemptAlreadyUsed))
          else Inl (map_sqlite error))"

definition claim_body ::
    "lib \<Rightarrow> engine \<Rightarrow> execution_grant \<Rightarrow> claim_request \<Rightarrow> u64 \<Rightarrow> digest32 \<Rightarrow> database
     \<Rightarrow> store_error + (durable_claim \<times> database)" where
  "claim_body L eng grant request now_ms supplied_hash db =
     rbind (load_chain_by_grant_id L eng (eg_grant_id grant) db) (\<lambda>found.
     rbind (ok_or found SE_UnknownGrant) (\<lambda>chain.
     rbind (ensure (\<not> (sc_grant_hash chain \<noteq> supplied_hash \<or> sc_grant chain \<noteq> grant))
              SE_GrantConflict) (\<lambda>_.
     rbind (protocol (verify_grant L (sc_commitment chain) (sc_proposal chain) (sc_decision chain)
                       (sc_grant chain))) (\<lambda>_.
     rbind (safe_i64 now_ms ''trusted_now_ms'') (\<lambda>now.
     rbind (check_clock eng now db) (\<lambda>_.
     rbind (load_currentness eng (cq_currentness_key request) db) (\<lambda>current.
     rbind (ok_or current SE_UnknownCurrentness) (\<lambda>snapshot.
     rbind (claim_currentness chain snapshot request now_ms) (\<lambda>_.
     rbind (execute eng UpdateLastTime (update_last_time now db)) (\<lambda>db1.
     rbind (safe_i64 (cq_expected_snapshot_version request) ''snapshot version'') (\<lambda>version.
     rbind (safe_i64 (cq_maximum_snapshot_age_ms request) ''maximum snapshot age'') (\<lambda>age.
     rbind (execute_claim eng
              \<lparr>cl_grant_hash = as_str supplied_hash, cl_attempt_id = cq_attempt_id request,
               cl_currentness_key = cq_currentness_key request, cl_snapshot_version = version,
               cl_maximum_snapshot_age_ms = age, cl_claimed_at_ms = now,
               cl_dispatch_started_at_ms = None\<rparr> db1) (\<lambda>db2.
     Inr (\<lparr>dc_grant_hash = supplied_hash, dc_attempt_id = cq_attempt_id request,
           dc_currentness_key = cq_currentness_key request,
           dc_snapshot_version = cq_expected_snapshot_version request,
           dc_maximum_snapshot_age_ms = cq_maximum_snapshot_age_ms request,
           dc_claimed_at_ms = now_ms, dc_dispatch_started_at_ms = None\<rparr>, db2))))))))))))))"

definition claim_inputs ::
    "lib \<Rightarrow> execution_grant \<Rightarrow> claim_request \<Rightarrow> u64 \<Rightarrow> store_error + digest32" where
  "claim_inputs L grant request now_ms =
     rbind (validate_claim_request request) (\<lambda>_.
     rbind (safe_i64 now_ms ''trusted_now_ms'') (\<lambda>_.
     protocol (eg_commitment L grant)))"

definition sql_claim ::
    "lib \<Rightarrow> engine \<Rightarrow> execution_grant \<Rightarrow> claim_request \<Rightarrow> u64 \<Rightarrow> database
     \<Rightarrow> (store_error + durable_claim) \<times> database" where
  "sql_claim L eng grant request now_ms =
     before (claim_inputs L grant request now_ms) (\<lambda>supplied_hash.
       transact eng (claim_body L eng grant request now_ms supplied_hash))"

section \<open>The dispatch marker\<close>

definition dispatch_currentness ::
    "stored_chain \<Rightarrow> currentness_snapshot \<Rightarrow> durable_claim \<Rightarrow> u64 \<Rightarrow> store_error + unit" where
  "dispatch_currentness chain snapshot claim now_ms = checks
     [validate_currentness_age snapshot now_ms (dc_maximum_snapshot_age_ms claim),
      ensure (\<not> cu_version snapshot \<noteq> dc_snapshot_version claim) SE_StaleSnapshot,
      ensure (\<not> (cu_policy_epoch snapshot \<noteq> tc_policy_epoch (sc_commitment chain)
                \<or> cu_configuration_epoch snapshot \<noteq> tc_configuration_epoch (sc_commitment chain)))
        SE_StaleAuthority,
      ensure (\<not> cu_pre_state_digest snapshot \<noteq> ep_pre_state_digest (sc_proposal chain)) SE_StalePreState,
      ensure (\<not> cu_resource_claim_digest snapshot \<noteq> ep_resource_claim_digest (sc_proposal chain))
        SE_StaleResourceClaim,
      ensure (\<not> cu_revoked snapshot) SE_GrantRevoked]"

definition mark_body ::
    "lib \<Rightarrow> engine \<Rightarrow> digest32 \<Rightarrow> string \<Rightarrow> u64 \<Rightarrow> int \<Rightarrow> database
     \<Rightarrow> store_error + (dispatch_marker \<times> database)" where
  "mark_body L eng grant_hash attempt_id dispatched_at_ms dispatched db =
     (let marker = \<lparr>dm_grant_hash = grant_hash, dm_attempt_id = attempt_id,
                    dm_dispatched_at_ms = dispatched_at_ms\<rparr> in
      rbind (load_claim eng (as_str grant_hash) db) (\<lambda>found.
      rbind (ok_or found SE_UnknownGrant) (\<lambda>claim.
      rbind (ensure (\<not> dc_attempt_id claim \<noteq> attempt_id) SE_ClaimMismatch) (\<lambda>_.
      rbind (ensure (\<not> dispatched_at_ms < dc_claimed_at_ms claim)
               (SE_InvalidInput ''dispatch predates claim'')) (\<lambda>_.
      case dc_dispatch_started_at_ms claim of
        Some existing \<Rightarrow>
          if existing = dispatched_at_ms then Inr (marker, db) else Inl SE_DispatchAlreadyStarted
      | None \<Rightarrow>
          rbind (check_clock eng dispatched db) (\<lambda>_.
          rbind (load_chain_by_grant_hash L eng (as_str grant_hash) db) (\<lambda>found.
          rbind (ok_or found SE_UnknownGrant) (\<lambda>chain.
          rbind (ensure (\<not> dispatched_at_ms \<ge> eg_expires_at_ms (sc_grant chain)) SE_GrantExpired) (\<lambda>_.
          rbind (load_currentness eng (dc_currentness_key claim) db) (\<lambda>current.
          rbind (ok_or current SE_UnknownCurrentness) (\<lambda>snapshot.
          rbind (dispatch_currentness chain snapshot claim dispatched_at_ms) (\<lambda>_.
          rbind (execute eng UpdateLastTime (update_last_time dispatched db)) (\<lambda>db1.
          rbind (execute eng UpdateDispatch
                   (update_claims
                      (\<lambda>r. cl_grant_hash r = as_str grant_hash \<and> cl_attempt_id r = attempt_id
                           \<and> cl_dispatch_started_at_ms r = None)
                      (\<lambda>r. r\<lparr>cl_dispatch_started_at_ms := Some dispatched\<rparr>) db1)) (\<lambda>db2.
          Inr (marker, db2)))))))))))))))"

definition mark_inputs :: "string \<Rightarrow> u64 \<Rightarrow> store_error + int" where
  "mark_inputs attempt_id dispatched_at_ms =
     rbind (store_validate_text ''attempt_id'' attempt_id 256) (\<lambda>_.
     safe_i64 dispatched_at_ms ''dispatched_at_ms'')"

definition mark_dispatch_started ::
    "lib \<Rightarrow> engine \<Rightarrow> digest32 \<Rightarrow> string \<Rightarrow> u64 \<Rightarrow> database
     \<Rightarrow> (store_error + dispatch_marker) \<times> database" where
  "mark_dispatch_started L eng grant_hash attempt_id dispatched_at_ms =
     before (mark_inputs attempt_id dispatched_at_ms) (\<lambda>dispatched.
       transact eng (mark_body L eng grant_hash attempt_id dispatched_at_ms dispatched))"

section \<open>The receipt\<close>

definition receipt_body ::
    "lib \<Rightarrow> engine \<Rightarrow> effect_receipt \<Rightarrow> digest32 \<Rightarrow> database \<Rightarrow> store_error + (digest32 \<times> database)" where
  "receipt_body L eng receipt receipt_hash db =
     (let grant_hash = as_str (er_grant_hash receipt) in
      rbind (load_chain_by_grant_hash L eng grant_hash db) (\<lambda>found.
      rbind (ok_or found SE_UnknownGrant) (\<lambda>chain.
      rbind (protocol (verify_chain L (sc_commitment chain) (sc_proposal chain) (sc_decision chain)
                        (sc_grant chain) receipt)) (\<lambda>verified.
      rbind (load_claim eng grant_hash db) (\<lambda>claimed.
      rbind (ok_or claimed SE_ClaimMismatch) (\<lambda>claim.
      rbind (ensure (\<not> (dc_attempt_id claim \<noteq> er_attempt_id receipt
                       \<or> dc_claimed_at_ms claim \<noteq> er_claimed_at_ms receipt)) SE_ClaimMismatch) (\<lambda>_.
      rbind (validate_dispatch_evidence receipt (dc_dispatch_started_at_ms claim)) (\<lambda>_.
      rbind (load_receipt_by_grant L eng grant_hash db) (\<lambda>existing.
      case existing of
        Some stored \<Rightarrow>
          rbind (protocol (er_commitment L stored)) (\<lambda>stored_hash.
          if stored_hash = receipt_hash then Inr (receipt_hash, db) else Inl SE_ReceiptConflict)
      | None \<Rightarrow>
          rbind (protocol (canonical_json L (er_value receipt))) (\<lambda>receipt_json.
          rbind (map_err (\<lambda>error. if is_constraint error then SE_ReceiptConflict else map_sqlite error)
                   (sql eng InsertReceipt
                     (insert_receipt
                       \<lparr>re_grant_hash = as_str (vc_grant_hash verified),
                        re_receipt_id = er_receipt_id receipt,
                        re_receipt_hash = as_str receipt_hash, re_receipt_json = receipt_json\<rparr> db))) (\<lambda>db'.
          Inr (receipt_hash, db'))))))))))))"

definition receipt_inputs :: "lib \<Rightarrow> effect_receipt \<Rightarrow> store_error + digest32" where
  "receipt_inputs L receipt =
     rbind (protocol (er_validate receipt)) (\<lambda>_. protocol (er_commitment L receipt))"

definition record_receipt ::
    "lib \<Rightarrow> engine \<Rightarrow> effect_receipt \<Rightarrow> database \<Rightarrow> (store_error + digest32) \<times> database" where
  "record_receipt L eng receipt =
     before (receipt_inputs L receipt) (\<lambda>receipt_hash. transact eng (receipt_body L eng receipt receipt_hash))"

section \<open>Reconciliation\<close>

definition execute_reconciliation ::
    "engine \<Rightarrow> reconciliation_row \<Rightarrow> database \<Rightarrow> store_error + database" where
  "execute_reconciliation eng row db =
     (case sql eng InsertReconciliation (insert_reconciliation row db) of
        Inr db' \<Rightarrow> Inr db'
      | Inl error \<Rightarrow>
          if is_constraint error then
            rbind (reconciliation_id_exists eng (rn_reconciliation_id row) db) (\<lambda>b.
            Inl (if b then SE_ReconciliationIdentifierConflict else SE_ReconciliationFork))
          else Inl (map_sqlite error))"

definition reconcile_body ::
    "lib \<Rightarrow> engine \<Rightarrow> reconciliation_record \<Rightarrow> digest32 \<Rightarrow> database
     \<Rightarrow> store_error + (digest32 \<times> database)" where
  "reconcile_body L eng record record_hash db =
     (let receipt_hash = as_str (rr_receipt_hash record) in
      rbind (load_receipt_by_hash L eng receipt_hash db) (\<lambda>found.
      rbind (ok_or found SE_UnknownReceipt) (\<lambda>receipt.
      rbind (load_reconciliation_at L eng receipt_hash (rr_sequence record) db) (\<lambda>existing.
      case existing of
        Some stored \<Rightarrow>
          rbind (protocol (rr_commitment L stored)) (\<lambda>stored_hash.
          if stored_hash = record_hash then Inr (record_hash, db) else Inl SE_ReconciliationFork)
      | None \<Rightarrow>
          rbind (reconciliation_count eng receipt_hash db) (\<lambda>count.
          rbind (ensure (\<not> count \<ge> MAX_RECONCILIATION_RECORDS)
                   (SE_Protocol (ResourceLimit ''reconciliation records''))) (\<lambda>_.
          rbind (load_latest_reconciliation L eng receipt_hash db) (\<lambda>previous.
          rbind (protocol (verify_reconciliation L receipt previous record)) (\<lambda>verified_hash.
          rbind (protocol (canonical_json L (rr_value record))) (\<lambda>record_json.
          rbind (safe_i64 (rr_sequence record) ''reconciliation sequence'') (\<lambda>sequence.
          rbind (execute_reconciliation eng
                   \<lparr>rn_receipt_hash = receipt_hash, rn_sequence = sequence,
                    rn_reconciliation_id = rr_reconciliation_id record,
                    rn_reconciliation_hash = as_str verified_hash,
                    rn_parent_hash = map_option as_str (rr_parent_reconciliation_hash record),
                    rn_record_json = record_json\<rparr> db) (\<lambda>db'.
          Inr (record_hash, db'))))))))))))"

definition reconcile_inputs :: "lib \<Rightarrow> reconciliation_record \<Rightarrow> store_error + digest32" where
  "reconcile_inputs L record =
     rbind (protocol (rr_validate record)) (\<lambda>_. protocol (rr_commitment L record))"

definition append_reconciliation ::
    "lib \<Rightarrow> engine \<Rightarrow> reconciliation_record \<Rightarrow> database \<Rightarrow> (store_error + digest32) \<times> database" where
  "append_reconciliation L eng record =
     before (reconcile_inputs L record) (\<lambda>record_hash.
       transact eng (reconcile_body L eng record record_hash))"

section \<open>Reading a lifecycle\<close>

text \<open>The loop that verifies the records read: \<open>previous\<close> is the record before.\<close>

fun verify_rows ::
    "lib \<Rightarrow> effect_receipt \<Rightarrow> reconciliation_record option \<Rightarrow> reconciliation_record list
     \<Rightarrow> store_error + unit" where
  "verify_rows L receipt previous [] = Inr ()"
| "verify_rows L receipt previous (record # records) =
     rbind (protocol (verify_reconciliation L receipt previous record)) (\<lambda>_.
     verify_rows L receipt (Some record) records)"

definition read_lifecycle ::
    "lib \<Rightarrow> engine \<Rightarrow> digest32 \<Rightarrow> database \<Rightarrow> database \<Rightarrow> database \<Rightarrow> database
     \<Rightarrow> store_error + lifecycle" where
  "read_lifecycle L eng grant_hash db1 db2 db3 db4 =
     rbind (load_chain_by_grant_hash L eng (as_str grant_hash) db1) (\<lambda>found.
     rbind (ok_or found SE_UnknownGrant) (\<lambda>chain.
     rbind (load_claim eng (as_str grant_hash) db2) (\<lambda>claim.
     rbind (load_receipt_by_grant L eng (as_str grant_hash) db3) (\<lambda>receipt.
     rbind (case receipt of
              None \<Rightarrow> Inr []
            | Some value \<Rightarrow>
                rbind (protocol (verify_chain L (sc_commitment chain) (sc_proposal chain)
                                  (sc_decision chain) (sc_grant chain) value)) (\<lambda>_.
                rbind (ok_or claim SE_Corrupt) (\<lambda>winning_claim.
                rbind (ensure (\<not> (dc_attempt_id winning_claim \<noteq> er_attempt_id value
                                 \<or> dc_claimed_at_ms winning_claim \<noteq> er_claimed_at_ms value))
                         SE_Corrupt) (\<lambda>_.
                rbind (validate_dispatch_evidence value (dc_dispatch_started_at_ms winning_claim)) (\<lambda>_.
                rbind (protocol (er_commitment L value)) (\<lambda>receipt_hash.
                rbind (load_all_reconciliations L eng (as_str receipt_hash) db4) (\<lambda>records.
                rbind (verify_rows L value None records) (\<lambda>_.
                Inr records)))))))) (\<lambda>reconciliations.
     Inr \<lparr>lc_grant_hash = grant_hash, lc_claim = claim, lc_receipt = receipt,
          lc_reconciliations = reconciliations\<rparr>)))))"

text \<open>All the queries on one database: no other connection writes meanwhile.\<close>

abbreviation lifecycle_of :: "lib \<Rightarrow> engine \<Rightarrow> digest32 \<Rightarrow> database \<Rightarrow> store_error + lifecycle" where
  "lifecycle_of L eng grant_hash db \<equiv> read_lifecycle L eng grant_hash db db db db"

section \<open>Operations as one step function\<close>

datatype sql_call =
  SqlRegister task_commitment effect_proposal authorization_decision execution_grant
| SqlPut currentness_snapshot
| SqlClaim execution_grant claim_request u64
| SqlMark digest32 string u64
| SqlReceipt effect_receipt
| SqlReconcile reconciliation_record

datatype sql_return =
  SqlDigest "store_error + digest32"
| SqlUnit "store_error + unit"
| SqlClaimed "store_error + durable_claim"
| SqlMarked "store_error + dispatch_marker"

text \<open>A step is a call together with the behaviour of the engine during it.\<close>

fun sql_step :: "lib \<Rightarrow> engine \<times> sql_call \<Rightarrow> database \<Rightarrow> sql_return \<times> database" where
  "sql_step L (eng, SqlRegister c p d g) db =
     (case register_chain L eng c p d g db of (r, db') \<Rightarrow> (SqlDigest r, db'))"
| "sql_step L (eng, SqlPut s) db =
     (case put_currentness eng s db of (r, db') \<Rightarrow> (SqlUnit r, db'))"
| "sql_step L (eng, SqlClaim g q now) db =
     (case sql_claim L eng g q now db of (r, db') \<Rightarrow> (SqlClaimed r, db'))"
| "sql_step L (eng, SqlMark h a t) db =
     (case mark_dispatch_started L eng h a t db of (r, db') \<Rightarrow> (SqlMarked r, db'))"
| "sql_step L (eng, SqlReceipt r) db =
     (case record_receipt L eng r db of (x, db') \<Rightarrow> (SqlDigest x, db'))"
| "sql_step L (eng, SqlReconcile r) db =
     (case append_reconciliation L eng r db of (x, db') \<Rightarrow> (SqlDigest x, db'))"

text \<open>
  The digests in the arguments of a call are values of type \<open>Digest32\<close>, whose text has passed
  \<open>validate_digest_text\<close>. The states that such calls reach from a new database.
\<close>

fun call_digests :: "sql_call \<Rightarrow> bool" where
  "call_digests (SqlRegister c p d g) = (tc_digests c \<and> ep_digests p \<and> ad_digests d \<and> eg_digests g)"
| "call_digests (SqlPut s) = (digest_ok (cu_pre_state_digest s) \<and> digest_ok (cu_resource_claim_digest s))"
| "call_digests (SqlClaim g q now) = eg_digests g"
| "call_digests (SqlMark h a t) = digest_ok h"
| "call_digests (SqlReceipt r) = er_digests r"
| "call_digests (SqlReconcile x) = rr_digests x"

inductive sql_reachable :: "lib \<Rightarrow> database \<Rightarrow> bool" for L where
  sql_start: "sql_reachable L empty_database"
| sql_next: "sql_reachable L db \<Longrightarrow> call_digests op \<Longrightarrow> sql_reachable L (snd (sql_step L (eng, op) db))"

end
