(* ===== verification/Sqlite_Facts.thy ===== *)
theory Sqlite_Facts
  imports Sqlite_Operations
begin

text \<open>
  What the success of a query, a write or an operation of the SQLite store means. An operation
  that fails leaves the database as it was (\<open>sql_step_error\<close> and the lemmas it uses), and one
  that succeeds has the effect that its \<open>*_okD\<close> lemma states; the invariants of the following
  theories rest on these lemmas only.
\<close>

section \<open>Queries and conversions\<close>

lemma optional_ok:
  "optional r = Inr v \<longleftrightarrow> (\<exists>x. r = Inr x \<and> v = Some x) \<or> (r = Inl QueryReturnedNoRows \<and> v = None)"
  by (auto simp: optional_def split: sum.splits)

lemma sql_ok: "sql eng st r = Inr x \<longleftrightarrow> eng st = None \<and> r = Inr x"
  by (simp add: sql_def split: option.split)

lemma sql_clean [simp]: "eng st = None \<Longrightarrow> sql eng st r = r"
  by (simp add: sql_def)

lemma query_row_ok: "query_row eng st rows = Inr r \<longleftrightarrow> eng st = None \<and> (\<exists>rs. rows = r # rs)"
  by (cases rows) (simp_all add: query_row_def sql_ok)

lemma query_optional_Some:
  "query_optional eng st rows = Inr (Some r) \<longleftrightarrow> eng st = None \<and> (\<exists>rs. rows = r # rs)"
  by (auto simp: query_optional_def map_err_ok optional_ok query_row_ok)

lemma query_optional_clean:
  "eng st = None \<Longrightarrow>
   query_optional eng st rows = Inr (case rows of [] \<Rightarrow> None | r # _ \<Rightarrow> Some r)"
  by (cases rows) (simp_all add: query_optional_def query_row_def optional_def)

lemma map_transpose_Some:
  "map_transpose f v = Inr (Some y) \<longleftrightarrow> (\<exists>x. v = Some x \<and> f x = Inr y)"
  by (cases v) (auto simp: map_transpose_def rbind_ok)

lemma bind_transpose_Some:
  "rbind q (map_transpose f) = Inr (Some y) \<longleftrightarrow> (\<exists>x. q = Inr (Some x) \<and> f x = Inr y)"
  by (auto simp: rbind_ok map_transpose_Some)

lemma map_transpose_None [simp]: "map_transpose f v = Inr None \<longleftrightarrow> v = None"
  by (cases v) (auto simp: map_transpose_def rbind_ok)

lemma map_transpose_simps [simp]:
  "map_transpose f None = Inr None"
  "map_transpose f (Some x) = rbind (f x) (\<lambda>y. Inr (Some y))"
  by (simp_all add: map_transpose_def)

lemma filter_head: "(\<exists>rs. filter P xs = r # rs) \<longleftrightarrow> find P xs = Some r"
  by (induction xs) auto

lemma find_in: "find P xs = Some r \<Longrightarrow> r \<in> set xs \<and> P r"
  by (auto simp: find_Some_iff)

text \<open>A query that finds a row, by a lookup in the list of rows.\<close>

lemma query_find:
  "query_optional eng st (filter P rows) = Inr (Some r) \<longleftrightarrow> eng st = None \<and> find P rows = Some r"
  by (simp add: query_optional_Some filter_head)

lemma max_safe_int [simp]: "uint MAX_SAFE_INTEGER = 9007199254740991"
  by (simp add: MAX_SAFE_INTEGER_def)

lemma safe_i64_ok: "safe_i64 v n = Inr i \<longleftrightarrow> v \<le> MAX_SAFE_INTEGER \<and> i = uint v"
proof -
  have "v \<le> MAX_SAFE_INTEGER \<Longrightarrow> uint v < 2 ^ 63"
    by (simp add: word_le_def)
  then show ?thesis by (auto simp: safe_i64_def not_le not_less)
qed

lemma decode_u64_ok: "decode_u64 i = Inr v \<longleftrightarrow> i = uint v \<and> v \<le> MAX_SAFE_INTEGER"
  using uint_lt2p [of v]
  by (auto simp: decode_u64_def not_less not_le unsigned_of_int take_bit_int_eq_self)

lemma discard_safe: "discard (safe_i64 v n) = Inr u \<longleftrightarrow> v \<le> MAX_SAFE_INTEGER"
  by (simp add: discard_def rbind_ok safe_i64_ok)

section \<open>Lookups\<close>

text \<open>The first row with a given key: the row that a query reads.\<close>

definition chain_by_id :: "database \<Rightarrow> string \<Rightarrow> raw_chain option" where
  "chain_by_id db i = map_option snd (find (\<lambda>(j, r). j = i) (db_chains db))"

definition chain_by_hash :: "database \<Rightarrow> string \<Rightarrow> raw_chain option" where
  "chain_by_hash db h = find (\<lambda>r. rc_grant_hash r = h) (map snd (db_chains db))"

definition currentness_of :: "database \<Rightarrow> string \<Rightarrow> currentness_row option" where
  "currentness_of db k = find (\<lambda>r. kr_key r = k) (db_currentness db)"

definition claim_of :: "database \<Rightarrow> string \<Rightarrow> claim_row option" where
  "claim_of db h = find (\<lambda>r. cl_grant_hash r = h) (db_claims db)"

definition receipt_of :: "database \<Rightarrow> string \<Rightarrow> receipt_row option" where
  "receipt_of db h = find (\<lambda>r. re_grant_hash r = h) (db_receipts db)"

definition receipt_hashed :: "database \<Rightarrow> string \<Rightarrow> receipt_row option" where
  "receipt_hashed db h = find (\<lambda>r. re_receipt_hash r = h) (db_receipts db)"

lemmas lookup_defs =
  chain_by_id_def chain_by_hash_def currentness_of_def claim_of_def receipt_of_def receipt_hashed_def

lemma load_raw_chain_by_id_Some:
  "load_raw_chain_by_id eng i db = Inr (Some r) \<longleftrightarrow>
     eng SelectChainById = None \<and> chain_by_id db i = Some r"
proof -
  have "(\<exists>rs. map snd (filter (\<lambda>(j, r). j = i) xs) = r # rs) \<longleftrightarrow>
      map_option snd (find (\<lambda>(j, r). j = i) xs) = Some r" for xs :: "(string \<times> raw_chain) list"
    by (induction xs) auto
  then show ?thesis by (simp add: load_raw_chain_by_id_def query_optional_Some chain_by_id_def)
qed

lemma load_Some:
  "load_chain_by_grant_id L eng i db = Inr (Some c) \<longleftrightarrow>
     eng SelectChainById = None \<and> (\<exists>r. chain_by_id db i = Some r \<and> decode_chain L r = Inr c)"
  "load_chain_by_grant_hash L eng h db = Inr (Some c) \<longleftrightarrow>
     eng SelectChainByHash = None \<and> (\<exists>r. chain_by_hash db h = Some r \<and> decode_chain L r = Inr c)"
  "load_currentness eng k db = Inr (Some s) \<longleftrightarrow>
     eng SelectCurrentness = None
     \<and> (\<exists>r. currentness_of db k = Some r \<and> decode_currentness k r = Inr s)"
  "load_claim eng h db = Inr (Some d) \<longleftrightarrow>
     eng SelectClaim = None \<and> (\<exists>r. claim_of db h = Some r \<and> decode_claim h r = Inr d)"
  "load_receipt_by_grant L eng h db = Inr (Some x) \<longleftrightarrow>
     eng SelectReceiptByGrant = None \<and> (\<exists>r. receipt_of db h = Some r \<and> decode_receipt L r = Inr x)"
  "load_receipt_by_hash L eng h db = Inr (Some x) \<longleftrightarrow>
     eng SelectReceiptByHash = None \<and> (\<exists>r. receipt_hashed db h = Some r \<and> decode_receipt L r = Inr x)"
  by (auto simp: load_chain_by_grant_id_def load_chain_by_grant_hash_def load_currentness_def
      load_claim_def load_receipt_by_grant_def load_receipt_by_hash_def bind_transpose_Some
      load_raw_chain_by_id_Some query_find lookup_defs)

lemma lookup_key:
  "chain_by_hash db h = Some r \<Longrightarrow> rc_grant_hash r = h \<and> (\<exists>i. (i, r) \<in> set (db_chains db))"
  "chain_by_id db i = Some r \<Longrightarrow> (i, r) \<in> set (db_chains db)"
  "currentness_of db k = Some s \<Longrightarrow> kr_key s = k \<and> s \<in> set (db_currentness db)"
  "claim_of db h = Some c \<Longrightarrow> cl_grant_hash c = h \<and> c \<in> set (db_claims db)"
  "receipt_of db h = Some x \<Longrightarrow> re_grant_hash x = h \<and> x \<in> set (db_receipts db)"
  "receipt_hashed db h = Some x \<Longrightarrow> re_receipt_hash x = h \<and> x \<in> set (db_receipts db)"
  by (auto simp: lookup_defs dest!: find_in) blast

lemma check_clock_ok:
  "check_clock eng now db = Inr u \<longleftrightarrow>
     eng SelectLastTime = None \<and> (\<exists>v. db_last_time db = Some v \<and> (\<forall>t. v = Some t \<longrightarrow> t \<le> now))"
  by (auto simp: check_clock_def load_last_time_def rbind_ok ensure_ok map_err_ok query_row_ok
      split: option.splits)

lemma execute_ok: "execute eng st w = Inr db' \<longleftrightarrow> eng st = None \<and> w = Inr db'"
  by (simp add: execute_def map_err_ok sql_ok)

lemma constrained_ok: "constrained c db = Inr db' \<longleftrightarrow> c \<and> db' = db"
  by (auto simp: constrained_def)

section \<open>Transactions\<close>

lemma transact_ok:
  "transact eng body db = (Inr x, db') \<longleftrightarrow>
     immediate eng = Inr () \<and> commit eng = Inr () \<and> body db = Inr (x, db')"
  by (cases "immediate eng"; cases "body db"; cases "commit eng")
     (auto simp: transact_def rbind_ok split: sum.splits prod.splits)

lemma transact_error: "transact eng body db = (Inl e, db') \<Longrightarrow> db' = db"
  by (auto simp: transact_def split: sum.splits prod.splits)

lemma before_ok:
  "before r rest db = (Inr y, db') \<longleftrightarrow> (\<exists>x. r = Inr x \<and> rest x db = (Inr y, db'))"
  by (cases r) (auto simp: before_def)

lemma before_transact_error:
  "before r (\<lambda>x. transact eng (body x)) db = (Inl e, db') \<Longrightarrow> db' = db"
  by (cases r) (auto simp: before_def dest: transact_error)

lemma sql_step_error:
  "register_chain L eng c p d g db = (Inl e, db') \<Longrightarrow> db' = db"
  "put_currentness eng s db = (Inl e, db') \<Longrightarrow> db' = db"
  "sql_claim L eng g q now db = (Inl e, db') \<Longrightarrow> db' = db"
  "mark_dispatch_started L eng h a t db = (Inl e, db') \<Longrightarrow> db' = db"
  "record_receipt L eng r db = (Inl e, db') \<Longrightarrow> db' = db"
  "append_reconciliation L eng x db = (Inl e, db') \<Longrightarrow> db' = db"
  unfolding register_chain_def put_currentness_def sql_claim_def mark_dispatch_started_def
    record_receipt_def append_reconciliation_def
  by (auto simp: split_def dest: before_transact_error)

lemma transact_clean:
  assumes "\<And>st. eng st = None"
  shows "immediate eng = Inr ()" and "commit eng = Inr ()"
  by (simp_all add: immediate_def commit_def assms)

section \<open>The effect of a success\<close>

lemma register_okD:
  assumes "register_chain L eng c p d g db = (Inr h, db')"
  shows "\<exists>row. register_row L c p d g = Inr (h, row)
    \<and> (chain_by_id db (eg_grant_id g) = Some row \<and> db' = db
       \<or> insert_chain (eg_grant_id g) row db = Inr db')"
  using assms
  by (auto simp: register_chain_def before_ok transact_ok register_body_def rbind_ok ensure_ok
      execute_ok load_raw_chain_by_id_Some split: option.splits if_splits)

lemma put_okD:
  assumes "put_currentness eng s db = (Inr u, db')"
  shows "validate_snapshot s = Inr ()
    \<and> ((\<exists>r. currentness_of db (cu_key s) = Some r \<and> decode_currentness (cu_key s) r = Inr s) \<and> db' = db
       \<or> (\<exists>r prev row. currentness_of db (cu_key s) = Some r
            \<and> decode_currentness (cu_key s) r = Inr prev \<and> put_checks s prev = Inr ()
            \<and> snapshot_params s = Inr row \<and> update_currentness row db = Inr db')
       \<or> (\<exists>row. snapshot_params s = Inr row \<and> insert_currentness row db = Inr db'))"
  using assms
  by (auto simp: put_currentness_def before_ok transact_ok put_body_def rbind_ok execute_ok load_Some
      split: option.splits if_splits)

definition row_of_claim :: "durable_claim \<Rightarrow> claim_row" where
  "row_of_claim c = \<lparr>cl_grant_hash = as_str (dc_grant_hash c), cl_attempt_id = dc_attempt_id c,
     cl_currentness_key = dc_currentness_key c, cl_snapshot_version = uint (dc_snapshot_version c),
     cl_maximum_snapshot_age_ms = uint (dc_maximum_snapshot_age_ms c),
     cl_claimed_at_ms = uint (dc_claimed_at_ms c),
     cl_dispatch_started_at_ms = map_option uint (dc_dispatch_started_at_ms c)\<rparr>"

definition claim_result :: "digest32 \<Rightarrow> claim_request \<Rightarrow> u64 \<Rightarrow> durable_claim" where
  "claim_result h q now_ms = \<lparr>dc_grant_hash = h, dc_attempt_id = cq_attempt_id q,
     dc_currentness_key = cq_currentness_key q, dc_snapshot_version = cq_expected_snapshot_version q,
     dc_maximum_snapshot_age_ms = cq_maximum_snapshot_age_ms q, dc_claimed_at_ms = now_ms,
     dc_dispatch_started_at_ms = None\<rparr>"

lemma execute_claim_ok:
  "execute_claim eng row db = Inr db' \<longleftrightarrow> eng InsertClaim = None \<and> insert_claim row db = Inr db'"
  by (auto simp: execute_claim_def rbind_ok sql_ok split: sum.splits if_splits)

text \<open>The trusted time is at most \<open>now\<close>, and is set to \<open>now\<close>.\<close>

definition clock_allows :: "database \<Rightarrow> u64 \<Rightarrow> bool" where
  "clock_allows db now \<longleftrightarrow>
     (\<exists>v. db_last_time db = Some v \<and> (\<forall>t. v = Some t \<longrightarrow> t \<le> uint now))"

abbreviation at_time :: "u64 \<Rightarrow> database \<Rightarrow> database" where
  "at_time now db \<equiv> db\<lparr>db_last_time := map_option (\<lambda>_. Some (uint now)) (db_last_time db)\<rparr>"

lemma claim_okD:
  assumes "sql_claim L eng g q now db = (Inr c, db')"
  shows "\<exists>h raw chain row snapshot.
    c = claim_result h q now \<and> eg_commitment L g = Inr h
    \<and> validate_claim_request q = Inr () \<and> now \<le> MAX_SAFE_INTEGER \<and> clock_allows db now
    \<and> chain_by_id db (eg_grant_id g) = Some raw \<and> decode_chain L raw = Inr chain
    \<and> sc_grant_hash chain = h \<and> sc_grant chain = g
    \<and> currentness_of db (cq_currentness_key q) = Some row
    \<and> decode_currentness (cq_currentness_key q) row = Inr snapshot
    \<and> claim_currentness chain snapshot q now = Inr ()
    \<and> insert_claim (row_of_claim c) (at_time now db) = Inr db'"
  using assms
  by (auto simp: sql_claim_def before_ok transact_ok claim_body_def claim_inputs_def rbind_ok ok_or_ok
      ensure_ok map_err_ok execute_ok execute_claim_ok load_Some check_clock_ok safe_i64_ok
      update_last_time_def row_of_claim_def claim_result_def clock_allows_def)

definition mark_row :: "digest32 \<Rightarrow> string \<Rightarrow> u64 \<Rightarrow> database \<Rightarrow> rusqlite_error + database" where
  "mark_row h a t =
     update_claims
       (\<lambda>r. cl_grant_hash r = as_str h \<and> cl_attempt_id r = a \<and> cl_dispatch_started_at_ms r = None)
       (\<lambda>r. r\<lparr>cl_dispatch_started_at_ms := Some (uint t)\<rparr>)"

lemma mark_okD:
  assumes "mark_dispatch_started L eng h a t db = (Inr m, db')"
  shows "m = \<lparr>dm_grant_hash = h, dm_attempt_id = a, dm_dispatched_at_ms = t\<rparr> \<and> t \<le> MAX_SAFE_INTEGER
    \<and> (\<exists>row claim. claim_of db (as_str h) = Some row \<and> decode_claim (as_str h) row = Inr claim
         \<and> dc_attempt_id claim = a \<and> dc_claimed_at_ms claim \<le> t
         \<and> (dc_dispatch_started_at_ms claim = Some t \<and> db' = db
            \<or> dc_dispatch_started_at_ms claim = None \<and> clock_allows db t
              \<and> (\<exists>raw chain crow snapshot.
                   chain_by_hash db (as_str h) = Some raw \<and> decode_chain L raw = Inr chain
                   \<and> t < eg_expires_at_ms (sc_grant chain)
                   \<and> currentness_of db (dc_currentness_key claim) = Some crow
                   \<and> decode_currentness (dc_currentness_key claim) crow = Inr snapshot
                   \<and> dispatch_currentness chain snapshot claim t = Inr ())
              \<and> mark_row h a t (at_time t db) = Inr db'))"
proof -
  note ok = rbind_ok ok_or_ok ensure_ok map_err_ok execute_ok load_Some check_clock_ok safe_i64_ok
    not_less not_le
  from assms obtain i where i: "mark_inputs a t = Inr i"
    and body: "mark_body L eng h a t i db = Inr (m, db')"
    by (auto simp: mark_dispatch_started_def before_ok transact_ok)
  from i have t: "t \<le> MAX_SAFE_INTEGER" "i = uint t" by (auto simp: mark_inputs_def ok)
  from body obtain claim where claim: "load_claim eng (as_str h) db = Inr (Some claim)"
    by (auto simp: mark_body_def Let_def rbind_ok ok_or_ok)
  show ?thesis
  proof (cases "dc_dispatch_started_at_ms claim")
    case None
    with body claim t show ?thesis
      by (auto simp: mark_body_def Let_def ok update_last_time_def mark_row_def clock_allows_def)
  next
    case (Some t0)
    with body claim t show ?thesis
      by (auto simp: mark_body_def Let_def ok split: if_splits)
  qed
qed

lemma verify_chain_grant: "verify_chain L c p d g r = Inr v \<Longrightarrow> vc_grant_hash v = er_grant_hash r"
  by (simp add: verify_chain_ok)

lemma receipt_okD:
  assumes "record_receipt L eng r db = (Inr h, db')"
  shows "\<exists>raw chain row claim verified.
    er_commitment L r = Inr h
    \<and> chain_by_hash db (as_str (er_grant_hash r)) = Some raw \<and> decode_chain L raw = Inr chain
    \<and> verify_chain L (sc_commitment chain) (sc_proposal chain) (sc_decision chain) (sc_grant chain) r
        = Inr verified
    \<and> claim_of db (as_str (er_grant_hash r)) = Some row
    \<and> decode_claim (as_str (er_grant_hash r)) row = Inr claim
    \<and> dc_attempt_id claim = er_attempt_id r \<and> dc_claimed_at_ms claim = er_claimed_at_ms r
    \<and> validate_dispatch_evidence r (dc_dispatch_started_at_ms claim) = Inr ()
    \<and> ((\<exists>x old. receipt_of db (as_str (er_grant_hash r)) = Some x \<and> decode_receipt L x = Inr old
          \<and> er_commitment L old = Inr h \<and> db' = db)
       \<or> (\<exists>j. canonical_json L (er_value r) = Inr j
          \<and> insert_receipt \<lparr>re_grant_hash = as_str (er_grant_hash r), re_receipt_id = er_receipt_id r,
                           re_receipt_hash = as_str h, re_receipt_json = j\<rparr> db = Inr db'))"
  using assms
  by (auto simp: record_receipt_def before_ok transact_ok receipt_body_def receipt_inputs_def Let_def
      rbind_ok ok_or_ok ensure_ok map_err_ok sql_ok load_Some verify_chain_grant
      split: option.splits if_splits)

lemma execute_reconciliation_ok:
  "execute_reconciliation eng row db = Inr db' \<longleftrightarrow>
     eng InsertReconciliation = None \<and> insert_reconciliation row db = Inr db'"
  by (auto simp: execute_reconciliation_def rbind_ok sql_ok split: sum.splits if_splits)

definition row_of_record :: "reconciliation_record \<Rightarrow> digest32 \<Rightarrow> string \<Rightarrow> reconciliation_row" where
  "row_of_record x h j = \<lparr>rn_receipt_hash = as_str (rr_receipt_hash x),
     rn_sequence = uint (rr_sequence x), rn_reconciliation_id = rr_reconciliation_id x,
     rn_reconciliation_hash = as_str h,
     rn_parent_hash = map_option as_str (rr_parent_reconciliation_hash x), rn_record_json = j\<rparr>"

lemma reconcile_okD:
  assumes "append_reconciliation L eng x db = (Inr h, db')"
  shows "rr_commitment L x = Inr h
    \<and> (\<exists>row receipt. receipt_hashed db (as_str (rr_receipt_hash x)) = Some row
         \<and> decode_receipt L row = Inr receipt
         \<and> ((\<exists>old. load_reconciliation_at L eng (as_str (rr_receipt_hash x)) (rr_sequence x) db
                     = Inr (Some old) \<and> rr_commitment L old = Inr h \<and> db' = db)
            \<or> (\<exists>previous j.
                 load_latest_reconciliation L eng (as_str (rr_receipt_hash x)) db = Inr previous
                 \<and> length (reconciliations_of (as_str (rr_receipt_hash x)) db)
                     < MAX_RECONCILIATION_RECORDS
                 \<and> verify_reconciliation L receipt previous x = Inr h
                 \<and> canonical_json L (rr_value x) = Inr j
                 \<and> insert_reconciliation (row_of_record x h j) db = Inr db')))"
proof -
  note ok = rbind_ok ok_or_ok ensure_ok map_err_ok execute_reconciliation_ok load_Some safe_i64_ok not_less not_le
  from assms obtain k where k: "rr_commitment L x = Inr k"
    and body: "reconcile_body L eng x k db = Inr (h, db')"
    by (auto simp: append_reconciliation_def before_ok transact_ok reconcile_inputs_def rbind_ok map_err_ok)
  from body obtain receipt existing where
      "load_receipt_by_hash L eng (as_str (rr_receipt_hash x)) db = Inr (Some receipt)"
    and "load_reconciliation_at L eng (as_str (rr_receipt_hash x)) (rr_sequence x) db = Inr existing"
    by (auto simp: reconcile_body_def Let_def rbind_ok ok_or_ok)
  with body k show ?thesis
    by (cases existing)
       (auto simp: reconcile_body_def Let_def ok reconciliation_count_def query_row_ok row_of_record_def
          verify_reconciliation_ok split: if_splits)
qed

end
