(* ===== verification/Sqlite_Invariant.thy ===== *)
theory Sqlite_Invariant
  imports Sqlite_Facts
begin

text \<open>
  The constraints of the schema as an invariant of the database (\<open>schema_ok\<close>), what every
  later database keeps of an earlier one (\<open>db_extends\<close>), and the interpretations that make the
  SQLite store an instance of the store contract: once with the grant hash as the key that a
  claim takes, once with the attempt identifier. None of it assumes anything about the
  engine's faults, the stored bytes or the hash function.
\<close>

section \<open>The constraints of the schema\<close>

definition keys_ok :: "database \<Rightarrow> bool" where
  "keys_ok db \<longleftrightarrow>
     db_last_time db \<noteq> None \<and> distinct (map kr_key (db_currentness db))
     \<and> distinct (map fst (db_chains db)) \<and> distinct (map (rc_grant_hash \<circ> snd) (db_chains db))
     \<and> distinct (map (rc_proposal_hash \<circ> snd) (db_chains db))
     \<and> distinct (map (rc_decision_hash \<circ> snd) (db_chains db))
     \<and> distinct (map cl_grant_hash (db_claims db)) \<and> distinct (map cl_attempt_id (db_claims db))
     \<and> distinct (map re_grant_hash (db_receipts db)) \<and> distinct (map re_receipt_id (db_receipts db))
     \<and> distinct (map re_receipt_hash (db_receipts db))
     \<and> distinct (map (\<lambda>r. (rn_receipt_hash r, rn_sequence r)) (db_reconciliations db))
     \<and> distinct (map rn_reconciliation_id (db_reconciliations db))
     \<and> distinct (map rn_reconciliation_hash (db_reconciliations db))"

definition references_ok :: "database \<Rightarrow> bool" where
  "references_ok db \<longleftrightarrow>
     cl_grant_hash ` set (db_claims db) \<subseteq> (rc_grant_hash \<circ> snd) ` set (db_chains db)
     \<and> cl_currentness_key ` set (db_claims db) \<subseteq> kr_key ` set (db_currentness db)
     \<and> re_grant_hash ` set (db_receipts db) \<subseteq> cl_grant_hash ` set (db_claims db)
     \<and> rn_receipt_hash ` set (db_reconciliations db) \<subseteq> re_receipt_hash ` set (db_receipts db)"

definition row_checks_ok :: "database \<Rightarrow> bool" where
  "row_checks_ok db \<longleftrightarrow>
     list_all currentness_check (db_currentness db) \<and> list_all claim_check (db_claims db)
     \<and> list_all (\<lambda>r. rn_sequence r > 0) (db_reconciliations db)"

definition schema_ok :: "database \<Rightarrow> bool" where
  "schema_ok db \<longleftrightarrow> keys_ok db \<and> references_ok db \<and> row_checks_ok db"

lemmas schema_defs = schema_ok_def keys_ok_def references_ok_def row_checks_ok_def

lemma schema_ok_empty: "schema_ok empty_database"
  by (simp add: schema_defs empty_database_def)

lemma distinct_find:
  "distinct (map k xs) \<Longrightarrow> x \<in> set xs \<Longrightarrow> k x = v \<Longrightarrow> find (\<lambda>r. k r = v) xs = Some x"
  by (induction xs) auto

lemma insert_chain_schema: "schema_ok db \<Longrightarrow> insert_chain i row db = Inr db' \<Longrightarrow> schema_ok db'"
  by (auto simp: insert_chain_def constrained_ok schema_defs list_ex_iff split_def
      intro: rev_image_eqI)

lemma insert_currentness_schema:
  "schema_ok db \<Longrightarrow> insert_currentness row db = Inr db' \<Longrightarrow> schema_ok db'"
  by (auto simp: insert_currentness_def constrained_ok schema_defs)

lemma insert_claim_schema: "schema_ok db \<Longrightarrow> insert_claim row db = Inr db' \<Longrightarrow> schema_ok db'"
  by (auto simp: insert_claim_def constrained_ok schema_defs list_ex_iff split_def
      intro: rev_image_eqI)

lemma insert_receipt_schema: "schema_ok db \<Longrightarrow> insert_receipt row db = Inr db' \<Longrightarrow> schema_ok db'"
  by (auto simp: insert_receipt_def constrained_ok schema_defs list_ex_iff intro: rev_image_eqI)

lemma insert_reconciliation_schema:
  "schema_ok db \<Longrightarrow> insert_reconciliation row db = Inr db' \<Longrightarrow> schema_ok db'"
  by (auto simp: insert_reconciliation_def constrained_ok schema_defs list_ex_iff intro: rev_image_eqI)

lemma at_time_schema: "schema_ok db \<Longrightarrow> schema_ok (at_time now db)"
  by (auto simp: schema_defs)

lemma map_map_if:
  "(\<And>r. P r \<Longrightarrow> k (f r) = k r) \<Longrightarrow> map k (map (\<lambda>r. if P r then f r else r) xs) = map k xs"
  by simp

lemma update_currentness_schema:
  assumes "schema_ok db" and "update_currentness row db = Inr db'"
  shows "schema_ok db'"
proof -
  let ?f = "\<lambda>r. if kr_key r = kr_key row then row else r"
  have db': "db' = db\<lparr>db_currentness := map ?f (db_currentness db)\<rparr>"
    and c: "currentness_check row \<or> kr_key row \<notin> kr_key ` set (db_currentness db)"
    using assms(2) by (auto simp: update_currentness_def constrained_ok)
  have k: "map kr_key (map ?f (db_currentness db)) = map kr_key (db_currentness db)" by simp
  then have s: "kr_key ` set (map ?f (db_currentness db)) = kr_key ` set (db_currentness db)"
    by (metis list.set_map)
  have "list_all currentness_check (map ?f (db_currentness db))"
    using assms(1) c by (auto simp: schema_defs list_all_iff image_iff)
  with assms(1) k s show ?thesis by (simp add: db' schema_defs del: map_map)
qed

lemma update_claims_schema:
  assumes "schema_ok db" and "update_claims P f db = Inr db'"
  shows "schema_ok db'"
proof -
  let ?f = "\<lambda>r. if P r then f r else r"
  from assms(2) have db': "db' = db\<lparr>db_claims := map ?f (db_claims db)\<rparr>"
    and g: "\<And>r. r \<in> set (db_claims db) \<Longrightarrow> P r \<Longrightarrow> \<not> claims_update_guard r (f r) \<and> claim_check (f r)"
    by (auto simp: update_claims_def constrained_ok list_all_iff)
  from g have h: "map cl_grant_hash (map ?f (db_claims db)) = map cl_grant_hash (db_claims db)"
    and a: "map cl_attempt_id (map ?f (db_claims db)) = map cl_attempt_id (db_claims db)"
    and k: "map cl_currentness_key (map ?f (db_claims db)) = map cl_currentness_key (db_claims db)"
    by (auto simp: claims_update_guard_def)
  have "list_all claim_check (map ?f (db_claims db))"
    using assms(1) g by (auto simp: schema_defs list_all_iff)
  moreover have "k ` set (map ?f (db_claims db)) = k ` set (db_claims db)"
    if "map k (map ?f (db_claims db)) = map k (db_claims db)" for k :: "claim_row \<Rightarrow> string"
    using that by (metis list.set_map)
  ultimately show ?thesis using assms(1) h a k
    by (simp add: db' schema_defs del: map_map)
qed

lemmas write_schema =
  insert_chain_schema insert_currentness_schema insert_claim_schema insert_receipt_schema
  insert_reconciliation_schema update_currentness_schema update_claims_schema

section \<open>What later databases keep\<close>

text \<open>Rows are only appended, and a row that is replaced is related to the new one by \<open>R\<close>.\<close>

definition grown :: "('r \<Rightarrow> 'r \<Rightarrow> bool) \<Rightarrow> 'r list \<Rightarrow> 'r list \<Rightarrow> bool" where
  "grown R xs ys \<longleftrightarrow> (\<exists>us vs. ys = us @ vs \<and> list_all2 R xs us)"

lemma grown_refl: "(\<And>x. R x x) \<Longrightarrow> grown R xs xs"
  unfolding grown_def by (metis append_Nil2 list.rel_refl)

lemma grown_snoc: "(\<And>x. R x x) \<Longrightarrow> grown R xs (xs @ [y])"
  unfolding grown_def by (metis list.rel_refl)

lemma grown_map: "(\<And>x. x \<in> set xs \<Longrightarrow> R x (f x)) \<Longrightarrow> grown R xs (map f xs)"
  unfolding grown_def by (rule exI [of _ "map f xs"], rule exI [of _ "[]"])
    (simp add: list_all2_map2 list.rel_refl_strong)

lemma grown_trans:
  assumes "\<And>x y z. R x y \<Longrightarrow> R y z \<Longrightarrow> R x z" and "grown R xs ys" and "grown R ys zs"
  shows "grown R xs zs"
proof -
  from assms(2) obtain us vs where ys: "ys = us @ vs" and u: "list_all2 R xs us"
    by (auto simp: grown_def)
  from assms(3) obtain ws ts where zs: "zs = ws @ ts" and w: "list_all2 R (us @ vs) ws"
    by (auto simp: grown_def ys)
  from w obtain w1 w2 where ws: "ws = w1 @ w2" and w1: "list_all2 R us w1"
    by (auto simp: list_all2_append1)
  have "list_all2 R xs w1" by (rule list_all2_trans [OF _ u w1]) (rule assms(1))
  then show ?thesis unfolding grown_def zs ws
    by (intro exI [of _ w1] exI [of _ "w2 @ ts"]) simp
qed

lemma grown_find:
  assumes "grown R xs ys" and "\<And>x y. R x y \<Longrightarrow> P y \<longleftrightarrow> P x" and "find P xs = Some x"
  shows "\<exists>y. find P ys = Some y \<and> R x y"
proof -
  have "list_all2 R xs us \<Longrightarrow> find P xs = Some x \<Longrightarrow> \<exists>y. find P (us @ vs) = Some y \<and> R x y" for us vs
    by (induction rule: list_all2_induct) (auto simp: assms(2) split: if_splits)
  with assms(1,3) show ?thesis by (auto simp: grown_def)
qed

text \<open>A claim keeps everything but may receive its dispatch marker, once.\<close>

definition claim_kept :: "claim_row \<Rightarrow> claim_row \<Rightarrow> bool" where
  "claim_kept a b \<longleftrightarrow>
     b = a \<or> (cl_dispatch_started_at_ms a = None
              \<and> (\<exists>t. b = a\<lparr>cl_dispatch_started_at_ms := Some t\<rparr>))"

text \<open>Currentness advances: a new version, no smaller epoch or time, no revocation undone.\<close>

definition currentness_kept :: "currentness_row \<Rightarrow> currentness_row \<Rightarrow> bool" where
  "currentness_kept a b \<longleftrightarrow>
     b = a
     \<or> (kr_key b = kr_key a \<and> kr_version a < kr_version b
        \<and> kr_policy_epoch a \<le> kr_policy_epoch b \<and> kr_configuration_epoch a \<le> kr_configuration_epoch b
        \<and> kr_observed_at_ms a \<le> kr_observed_at_ms b
        \<and> (kr_revoked a = 1 \<and> kr_revoked b \<noteq> 1 \<longrightarrow>
             kr_policy_epoch a < kr_policy_epoch b \<or> kr_configuration_epoch a < kr_configuration_epoch b))"

definition time_kept :: "int option option \<Rightarrow> int option option \<Rightarrow> bool" where
  "time_kept a b \<longleftrightarrow> (\<forall>t. a = Some (Some t) \<longrightarrow> (\<exists>t'. b = Some (Some t') \<and> t \<le> t'))"

definition db_extends :: "database \<Rightarrow> database \<Rightarrow> bool" where
  "db_extends db db' \<longleftrightarrow>
     grown (=) (db_chains db) (db_chains db') \<and> grown (=) (db_receipts db) (db_receipts db')
     \<and> grown (=) (db_reconciliations db) (db_reconciliations db')
     \<and> grown claim_kept (db_claims db) (db_claims db')
     \<and> grown currentness_kept (db_currentness db) (db_currentness db')
     \<and> time_kept (db_last_time db) (db_last_time db')"

lemma kept_refl [simp]: "claim_kept a a" "currentness_kept r r" "time_kept t t"
  by (simp_all add: claim_kept_def currentness_kept_def time_kept_def)

lemma kept_trans:
  "claim_kept a b \<Longrightarrow> claim_kept b c \<Longrightarrow> claim_kept a c"
  "currentness_kept x y \<Longrightarrow> currentness_kept y z \<Longrightarrow> currentness_kept x z"
  "time_kept r s \<Longrightarrow> time_kept s t \<Longrightarrow> time_kept r t"
  by (auto simp: claim_kept_def currentness_kept_def time_kept_def; force)+

lemma grown_kept_trans:
  "grown (=) (xs :: 'r list) ys \<Longrightarrow> grown (=) ys zs \<Longrightarrow> grown (=) xs zs"
  "grown claim_kept cs ds \<Longrightarrow> grown claim_kept ds es \<Longrightarrow> grown claim_kept cs es"
  "grown currentness_kept rs ss \<Longrightarrow> grown currentness_kept ss ts \<Longrightarrow> grown currentness_kept rs ts"
  by (rule grown_trans [of "(=)"], simp_all) (erule (1) grown_trans [rotated], erule (1) kept_trans)+

lemma grown_same [simp]:
  "grown (=) xs xs" "grown claim_kept cs cs" "grown currentness_kept rs rs"
  "grown (=) xs (xs @ [x])" "grown claim_kept cs (cs @ [c])" "grown currentness_kept rs (rs @ [r])"
  by (simp_all add: grown_refl grown_snoc)

lemma db_extends_refl [simp]: "db_extends db db"
  by (simp add: db_extends_def)

lemma db_extends_trans: "db_extends a b \<Longrightarrow> db_extends b c \<Longrightarrow> db_extends a c"
  unfolding db_extends_def
  by (elim conjE, intro conjI) (erule (1) grown_kept_trans kept_trans(3))+

lemma insert_extends:
  "insert_chain i row db = Inr db' \<Longrightarrow> db_extends db db'"
  "insert_currentness krow db = Inr db' \<Longrightarrow> db_extends db db'"
  "insert_claim crow db = Inr db' \<Longrightarrow> db_extends db db'"
  "insert_receipt rrow db = Inr db' \<Longrightarrow> db_extends db db'"
  "insert_reconciliation nrow db = Inr db' \<Longrightarrow> db_extends db db'"
  by (auto simp: db_extends_def constrained_ok insert_chain_def insert_currentness_def
      insert_claim_def insert_receipt_def insert_reconciliation_def)

lemma at_time_extends: "clock_allows db now \<Longrightarrow> db_extends db (at_time now db)"
  by (auto simp: db_extends_def clock_allows_def time_kept_def)

lemma mark_extends: "mark_row h a t db = Inr db' \<Longrightarrow> db_extends db db'"
  by (auto simp: db_extends_def mark_row_def update_claims_def constrained_ok claim_kept_def
      intro!: grown_map)

lemma decode_currentness_ok:
  "decode_currentness k r = Inr s \<longleftrightarrow>
     cu_key s = k \<and> kr_version r = uint (cu_version s) \<and> cu_version s \<le> MAX_SAFE_INTEGER
     \<and> kr_policy_epoch r = uint (cu_policy_epoch s) \<and> cu_policy_epoch s \<le> MAX_SAFE_INTEGER
     \<and> kr_configuration_epoch r = uint (cu_configuration_epoch s)
     \<and> cu_configuration_epoch s \<le> MAX_SAFE_INTEGER
     \<and> parse_digest (kr_pre_state_digest r) = Inr (cu_pre_state_digest s)
     \<and> parse_digest (kr_resource_claim_digest r) = Inr (cu_resource_claim_digest s)
     \<and> kr_revoked r = (if cu_revoked s then 1 else 0)
     \<and> kr_observed_at_ms r = uint (cu_observed_at_ms s) \<and> cu_observed_at_ms s \<le> MAX_SAFE_INTEGER"
  by (cases s) (auto simp: decode_currentness_def rbind_ok map_err_ok decode_u64_ok split: if_splits)

lemma snapshot_params_ok:
  "snapshot_params s = Inr row \<longleftrightarrow>
     cu_version s \<le> MAX_SAFE_INTEGER \<and> cu_policy_epoch s \<le> MAX_SAFE_INTEGER
     \<and> cu_configuration_epoch s \<le> MAX_SAFE_INTEGER \<and> cu_observed_at_ms s \<le> MAX_SAFE_INTEGER
     \<and> row = \<lparr>kr_key = cu_key s, kr_version = uint (cu_version s),
              kr_policy_epoch = uint (cu_policy_epoch s),
              kr_configuration_epoch = uint (cu_configuration_epoch s),
              kr_pre_state_digest = as_str (cu_pre_state_digest s),
              kr_resource_claim_digest = as_str (cu_resource_claim_digest s),
              kr_revoked = (if cu_revoked s then 1 else 0),
              kr_observed_at_ms = uint (cu_observed_at_ms s)\<rparr>"
  by (auto simp: snapshot_params_def rbind_ok safe_i64_ok)

lemma put_checks_ok:
  "put_checks s p = Inr u \<longleftrightarrow>
     cu_version p < cu_version s \<and> cu_policy_epoch p \<le> cu_policy_epoch s
     \<and> cu_configuration_epoch p \<le> cu_configuration_epoch s \<and> cu_observed_at_ms p \<le> cu_observed_at_ms s
     \<and> (cu_revoked p \<and> \<not> cu_revoked s \<longrightarrow>
          cu_policy_epoch p \<noteq> cu_policy_epoch s \<or> cu_configuration_epoch p \<noteq> cu_configuration_epoch s)"
  by (auto simp: put_checks_def ok_iff not_le not_less)

lemma update_currentness_extends:
  assumes "schema_ok db" and "currentness_of db (cu_key s) = Some r"
    and "decode_currentness (cu_key s) r = Inr p" and "put_checks s p = Inr ()"
    and "snapshot_params s = Inr row" and "update_currentness row db = Inr db'"
  shows "db_extends db db'"
proof -
  from assms(5) have k: "kr_key row = cu_key s" by (auto simp: snapshot_params_ok)
  have only: "x = r" if "x \<in> set (db_currentness db)" "kr_key x = cu_key s" for x
    using distinct_find [where k = kr_key, OF _ that] assms(1,2) by (simp add: schema_defs currentness_of_def)
  have "currentness_kept r row"
    using assms(2-5) unfolding decode_currentness_ok snapshot_params_ok put_checks_ok
    by (auto simp: currentness_kept_def word_le_def word_less_def less_le word_uint_eq_iff
        dest: lookup_key(3))
  then have "grown currentness_kept (db_currentness db)
      (map (\<lambda>x. if kr_key x = kr_key row then row else x) (db_currentness db))"
    using only by (intro grown_map) (auto simp: k)
  with assms(6) show ?thesis by (auto simp: db_extends_def update_currentness_def constrained_ok)
qed

section \<open>Every operation keeps the invariant and extends the database\<close>

definition evolves :: "database \<Rightarrow> database \<Rightarrow> bool" where
  "evolves db db' \<longleftrightarrow> schema_ok db' \<and> db_extends db db'"

lemma evolves_same [simp]: "schema_ok db \<Longrightarrow> evolves db db"
  by (simp add: evolves_def)

lemma at_time_evolves:
  "schema_ok db \<Longrightarrow> clock_allows db now \<Longrightarrow> evolves (at_time now db) db' \<Longrightarrow> evolves db db'"
  unfolding evolves_def using at_time_extends db_extends_trans by blast

lemma insert_evolves:
  "schema_ok db \<Longrightarrow> insert_chain i row db = Inr db' \<Longrightarrow> evolves db db'"
  "schema_ok db \<Longrightarrow> insert_currentness krow db = Inr db' \<Longrightarrow> evolves db db'"
  "schema_ok db \<Longrightarrow> insert_claim crow db = Inr db' \<Longrightarrow> evolves db db'"
  "schema_ok db \<Longrightarrow> insert_receipt rrow db = Inr db' \<Longrightarrow> evolves db db'"
  "schema_ok db \<Longrightarrow> insert_reconciliation nrow db = Inr db' \<Longrightarrow> evolves db db'"
  unfolding evolves_def by (blast intro: write_schema(1-5) insert_extends)+

lemma mark_evolves: "schema_ok db \<Longrightarrow> mark_row h a t db = Inr db' \<Longrightarrow> evolves db db'"
  using mark_extends update_claims_schema by (auto simp: evolves_def mark_row_def)

lemma update_evolves:
  "schema_ok db \<Longrightarrow> currentness_of db (cu_key s) = Some r \<Longrightarrow>
   decode_currentness (cu_key s) r = Inr p \<Longrightarrow> put_checks s p = Inr () \<Longrightarrow>
   snapshot_params s = Inr row \<Longrightarrow> update_currentness row db = Inr db' \<Longrightarrow> evolves db db'"
  unfolding evolves_def using update_currentness_schema update_currentness_extends by blast

lemma sql_ops_evolve:
  assumes "schema_ok db"
  shows "register_chain L eng c p d g db = (Inr h, db') \<Longrightarrow> evolves db db'"
    and "put_currentness eng s db = (Inr u, db') \<Longrightarrow> evolves db db'"
    and "sql_claim L eng g q now db = (Inr dc, db') \<Longrightarrow> evolves db db'"
    and "mark_dispatch_started L eng k a t db = (Inr m, db') \<Longrightarrow> evolves db db'"
    and "record_receipt L eng r db = (Inr h, db') \<Longrightarrow> evolves db db'"
    and "append_reconciliation L eng x db = (Inr h, db') \<Longrightarrow> evolves db db'"
proof -
  note ins = insert_evolves [OF assms]
  show "register_chain L eng c p d g db = (Inr h, db') \<Longrightarrow> evolves db db'"
    by (drule register_okD) (use assms in \<open>auto intro: ins\<close>)
  show "put_currentness eng s db = (Inr u, db') \<Longrightarrow> evolves db db'"
    by (drule put_okD) (use assms in \<open>blast intro: ins evolves_same update_evolves\<close>)
  show "sql_claim L eng g q now db = (Inr dc, db') \<Longrightarrow> evolves db db'"
    by (drule claim_okD)
      (use assms in \<open>blast intro: at_time_evolves insert_evolves(3) at_time_schema\<close>)
  show "mark_dispatch_started L eng k a t db = (Inr m, db') \<Longrightarrow> evolves db db'"
    by (drule mark_okD)
      (use assms in \<open>blast intro: at_time_evolves mark_evolves at_time_schema evolves_same\<close>)
  show "record_receipt L eng r db = (Inr h, db') \<Longrightarrow> evolves db db'"
    by (drule receipt_okD) (use assms in \<open>blast intro: ins evolves_same\<close>)
  show "append_reconciliation L eng x db = (Inr h, db') \<Longrightarrow> evolves db db'"
    by (drule reconcile_okD) (use assms in \<open>blast intro: ins evolves_same\<close>)
qed

lemma outcome_evolves:
  assumes "schema_ok db" and "\<And>e db'. out = (Inl e, db') \<Longrightarrow> db' = db"
    and "\<And>x db'. out = (Inr x, db') \<Longrightarrow> evolves db db'"
  shows "evolves db (snd out)"
  using assms by (cases out; cases "fst out") auto

lemma sql_step_evolves: "schema_ok db \<Longrightarrow> evolves db (snd (sql_step L call db))"
proof -
  assume s: "schema_ok db"
  obtain eng op where call: "call = (eng, op)" by (cases call) auto
  note out = outcome_evolves [OF s sql_step_error(1) sql_ops_evolve(1) [OF s]]
    outcome_evolves [OF s sql_step_error(3) sql_ops_evolve(3) [OF s]]
    outcome_evolves [OF s sql_step_error(4) sql_ops_evolve(4) [OF s]]
    outcome_evolves [OF s sql_step_error(5) sql_ops_evolve(5) [OF s]]
    outcome_evolves [OF s sql_step_error(6) sql_ops_evolve(6) [OF s]]
  have put: "evolves db (snd (put_currentness eng x db))" for x
    by (rule outcome_evolves [OF s]) (blast dest: sql_step_error(2) sql_ops_evolve(2) [OF s])+
  show ?thesis unfolding call by (cases op) (simp_all add: split_def out put)
qed

lemma sql_reachable_schema: "sql_reachable L db \<Longrightarrow> schema_ok db"
  by (induction rule: sql_reachable.induct)
     (use schema_ok_empty sql_step_evolves in \<open>auto simp: evolves_def\<close>)

section \<open>The store contract\<close>

interpretation sq: append_only "sql_step L" schema_ok db_extends for L
  by unfold_locales (use sql_step_evolves in \<open>auto simp: evolves_def intro: db_extends_trans\<close>)

text \<open>The claim under a key, without its dispatch marker, which comes later.\<close>

definition claim_core :: "claim_row \<Rightarrow> claim_row" where
  "claim_core r = r\<lparr>cl_dispatch_started_at_ms := None\<rparr>"

definition row_holder :: "(claim_row \<Rightarrow> string) \<Rightarrow> database \<Rightarrow> string \<Rightarrow> claim_row option" where
  "row_holder key db k = map_option claim_core (find (\<lambda>r. key r = k) (db_claims db))"

fun row_won ::
    "(claim_row \<Rightarrow> string) \<Rightarrow> engine \<times> sql_call \<Rightarrow> sql_return \<Rightarrow> (string \<times> claim_row) option" where
  "row_won key op (SqlClaimed (Inr c)) = Some (key (row_of_claim c), row_of_claim c)"
| "row_won key op r = None"

definition claim_key :: "(claim_row \<Rightarrow> string) \<Rightarrow> bool" where
  "claim_key key \<longleftrightarrow> key = cl_grant_hash \<or> key = cl_attempt_id"

lemma row_holder_extends:
  assumes "claim_key key" and "db_extends s t" and "row_holder key s k = Some c"
  shows "row_holder key t k = Some c"
proof -
  from assms(3) obtain x where x: "find (\<lambda>r. key r = k) (db_claims s) = Some x" "c = claim_core x"
    by (auto simp: row_holder_def)
  from assms(2) have "grown claim_kept (db_claims s) (db_claims t)" by (simp add: db_extends_def)
  moreover have "key b = k \<longleftrightarrow> key a = k" if "claim_kept a b" for a b
    using that assms(1) by (auto simp: claim_kept_def claim_key_def)
  ultimately obtain y where "find (\<lambda>r. key r = k) (db_claims t) = Some y" "claim_kept x y"
    using grown_find [OF _ _ x(1), of claim_kept "db_claims t"] by blast
  with x(2) show ?thesis by (auto simp: row_holder_def claim_kept_def claim_core_def)
qed

lemma row_won_insert:
  assumes "row_won key op (fst (sql_step L op db)) = Some (k, c)"
  shows "\<exists>db0. db_claims db0 = db_claims db \<and> insert_claim c db0 = Inr (snd (sql_step L op db))
    \<and> k = key c \<and> claim_core c = c"
proof -
  obtain eng call where op: "op = (eng, call)" by (cases op)
  from assms obtain g q now where call: "call = SqlClaim g q now"
    by (cases call) (auto simp: op split_def)
  obtain r db' where r: "sql_claim L eng g q now db = (r, db')" by (cases "sql_claim L eng g q now db")
  have "row_won key op (SqlClaimed r) = Some (k, c)" using assms by (simp add: op call r)
  then have "r \<noteq> Inl e" for e by auto
  then obtain d where d: "r = Inr d" by (cases r) blast+
  with \<open>row_won key op (SqlClaimed r) = Some (k, c)\<close>
  have c: "k = key (row_of_claim d)" "c = row_of_claim d" by auto
  from claim_okD [OF r [unfolded d]] obtain h where
      ins: "insert_claim c (at_time now db) = Inr db'" and h: "d = claim_result h q now"
    unfolding c(2) by blast
  from h have "claim_core c = c" by (simp add: c(2) claim_core_def row_of_claim_def claim_result_def)
  moreover have "snd (sql_step L op db) = db'" by (simp add: op call r)
  ultimately show ?thesis using ins c by (intro exI [of _ "at_time now db"]) simp
qed

lemma find_append_None: "find P xs = None \<Longrightarrow> find P (xs @ ys) = find P ys"
  by (induction xs) (auto split: if_splits)

lemma insert_claim_key:
  assumes "claim_key key" and "insert_claim c db0 = Inr db'" and "claim_core c = c"
  shows "row_holder key db0 (key c) = None" and "row_holder key db' (key c) = Some c"
proof -
  from assms(1,2) have f: "find (\<lambda>r. key r = key c) (db_claims db0) = None"
    and db': "db_claims db' = db_claims db0 @ [c]"
    by (auto simp: insert_claim_def constrained_ok find_None_iff list_ex_iff claim_key_def)
  from f show "row_holder key db0 (key c) = None" by (simp add: row_holder_def)
  from f assms(3) show "row_holder key db' (key c) = Some c"
    by (simp add: row_holder_def db' find_append_None)
qed

lemma row_won_key:
  assumes "claim_key key" and "row_won key op (fst (sql_step L op db)) = Some (k, c)"
  shows "row_holder key db k = None" and "row_holder key (snd (sql_step L op db)) k = Some c"
proof -
  from row_won_insert [OF assms(2)] obtain db0 where db0: "db_claims db0 = db_claims db"
    and ins: "insert_claim c db0 = Inr (snd (sql_step L op db))" and c: "k = key c" "claim_core c = c"
    by blast
  from db0 have "row_holder key db k = row_holder key db0 k" by (simp add: row_holder_def)
  with insert_claim_key [OF assms(1) ins c(2)] show "row_holder key db k = None"
    and "row_holder key (snd (sql_step L op db)) k = Some c" by (simp_all add: c(1))
qed

lemma claim_keys [simp]: "claim_key cl_grant_hash" "claim_key cl_attempt_id"
  by (simp_all add: claim_key_def)

interpretation hash_use: single_use "sql_step L" schema_ok db_extends
  "row_holder cl_grant_hash" "row_won cl_grant_hash" for L
  by unfold_locales
    (auto intro: row_holder_extends [OF claim_keys(1)] row_won_key [OF claim_keys(1)])

interpretation attempt_use: single_use "sql_step L" schema_ok db_extends
  "row_holder cl_attempt_id" "row_won cl_attempt_id" for L
  by unfold_locales
    (auto intro: row_holder_extends [OF claim_keys(2)] row_won_key [OF claim_keys(2)])

end
