(* ===== verification/Sqlite_Stored.thy ===== *)
theory Sqlite_Stored
  imports Sqlite_Invariant Fixtures
begin

text \<open>
  What the rows of a reachable database hold (\<open>stored_ok\<close>): every chain row decodes to the
  verified chain that was registered, every claim row is a claim of such a chain inside its
  window, every receipt row decodes to a receipt of the winning attempt, and the
  reconciliation rows of a receipt decode, in the order of their sequence numbers, to one
  verified history. This needs the library to read canonical text back (\<open>conforming\<close>).
\<close>

section \<open>Decoding inverts encoding\<close>

definition conforming :: "lib \<Rightarrow> bool" where
  "conforming L \<longleftrightarrow> quote_conforms L \<and> reads_records L \<and> nonzero_hash L"

lemma conforming_ref_lib: "conforming ref_lib"
  by (simp add: conforming_def ref_lib_quote ref_lib_reads ref_lib_hash)

lemma parse_digest_ok: "parse_digest s = Inr d \<longleftrightarrow> d = Digest32 s \<and> digest_ok d"
  by (cases d) (auto simp: parse_digest_def digest_ok_def rbind_ok)

lemma parse_digest_as_str: "parse_digest (as_str d) = Inr e \<longleftrightarrow> e = d \<and> digest_ok d"
  by (cases d) (auto simp: parse_digest_ok)

lemma commitment_okD:
  assumes "conforming L"
  shows "tc_commitment L c = Inr h \<Longrightarrow> tc_validate c = Inr () \<and> digest_ok h"
    and "ep_commitment L p = Inr h \<Longrightarrow> ep_validate p = Inr () \<and> digest_ok h"
    and "ad_commitment L d = Inr h \<Longrightarrow> ad_validate d = Inr () \<and> digest_ok h"
    and "eg_commitment L g = Inr h \<Longrightarrow> eg_validate g = Inr () \<and> digest_ok h"
    and "er_commitment L r = Inr h \<Longrightarrow> er_validate r = Inr () \<and> digest_ok h"
    and "rr_commitment L x = Inr h \<Longrightarrow> rr_validate x = Inr () \<and> digest_ok h"
  using assms unfolding conforming_def commitment_defs
  by (auto simp: trait_commitment_def rbind_ok
      intro: commitment_digest_ok [unfolded trait_commitment_def rbind_ok])

lemma decode_registered:
  assumes L: "conforming L" and row: "register_row L c p d g = Inr (h, row)"
    and dg: "tc_digests c" "ep_digests p" "ad_digests d" "eg_digests g"
  shows "decode_chain L row = Inr \<lparr>sc_grant_hash = h, sc_commitment = c, sc_proposal = p,
    sc_decision = d, sc_grant = g\<rparr>"
proof -
  from row obtain v where v: "verify_authorization L c p d g = Inr v" "va_grant_hash v = h"
    and grant: "verify_grant L c p d g = Inr h"
    by (auto simp: register_row_def map_err_ok rbind_ok verify_grant_def)
  from v have com: "tc_commitment L c = Inr (va_commitment_hash v)" "eg_commitment L g = Inr h"
    "ep_commitment L p = Inr (va_proposal_hash v)" "ad_commitment L d = Inr (va_decision_hash v)"
    by (simp_all add: verify_authorization_ok verify_decision_ok)
  show ?thesis
    using row com dg grant parse_canonical [of L] L
      commitment_okD(1) [OF L com(1)] commitment_okD(4) [OF L com(2)]
      commitment_okD(2) [OF L com(3)] commitment_okD(3) [OF L com(4)]
    by (auto simp: register_row_def decode_chain_def map_err_ok rbind_ok ensure_ok
        parse_digest_as_str conforming_def)
qed

lemma decode_recorded:
  assumes "conforming L" and "er_commitment L r = Inr h" and "canonical_json L (er_value r) = Inr j"
    and "er_digests r" and "re_receipt_hash x = as_str h" and "re_receipt_json x = j"
  shows "decode_receipt L x = Inr r"
  using assms commitment_okD(5) [OF assms(1,2)] parse_canonical(5) [of L r j]
  by (auto simp: decode_receipt_def map_err_ok rbind_ok ensure_ok conforming_def)

lemma decode_appended:
  assumes "conforming L" and "rr_commitment L x = Inr h" and "canonical_json L (rr_value x) = Inr j"
    and "rr_digests x"
  shows "decode_reconciliation L (row_of_record x h j) = Inr x"
  using assms commitment_okD(6) [OF assms(1,2)] parse_canonical(6) [of L x j]
  by (auto simp: decode_reconciliation_def map_err_ok row_of_record_def conforming_def)

lemma decode_receipt_ok:
  "decode_receipt L x = Inr r \<longleftrightarrow>
     parse_er L (re_receipt_json x) = Inr r
     \<and> (\<exists>h. er_commitment L r = Inr h \<and> as_str h = re_receipt_hash x)"
  by (auto simp: decode_receipt_def map_err_ok rbind_ok ensure_ok)

lemma decode_claim_ok:
  "decode_claim h r = Inr c \<longleftrightarrow>
     as_str (dc_grant_hash c) = h \<and> digest_ok (dc_grant_hash c)
     \<and> cl_attempt_id r = dc_attempt_id c \<and> cl_currentness_key r = dc_currentness_key c
     \<and> cl_snapshot_version r = uint (dc_snapshot_version c)
     \<and> cl_maximum_snapshot_age_ms r = uint (dc_maximum_snapshot_age_ms c)
     \<and> cl_claimed_at_ms r = uint (dc_claimed_at_ms c)
     \<and> cl_dispatch_started_at_ms r = map_option uint (dc_dispatch_started_at_ms c)
     \<and> dc_snapshot_version c \<le> MAX_SAFE_INTEGER \<and> dc_maximum_snapshot_age_ms c \<le> MAX_SAFE_INTEGER
     \<and> dc_claimed_at_ms c \<le> MAX_SAFE_INTEGER
     \<and> (\<forall>t. dc_dispatch_started_at_ms c = Some t \<longrightarrow> t \<le> MAX_SAFE_INTEGER)"
proof -
  have opt: "map_transpose decode_u64 v = Inr w \<longleftrightarrow>
      v = map_option uint w \<and> (\<forall>t. w = Some t \<longrightarrow> t \<le> MAX_SAFE_INTEGER)" for v w
    by (cases v; cases w) (auto simp: rbind_ok decode_u64_ok)
  show ?thesis
    by (cases c) (auto simp: decode_claim_def rbind_ok map_err_ok decode_u64_ok opt parse_digest_ok)
qed

lemma decode_chain_ok:
  "decode_chain L raw = Inr chain \<Longrightarrow>
   verify_grant L (sc_commitment chain) (sc_proposal chain) (sc_decision chain) (sc_grant chain)
     = Inr (sc_grant_hash chain)
   \<and> eg_commitment L (sc_grant chain) = Inr (sc_grant_hash chain)
   \<and> rc_grant_hash raw = as_str (sc_grant_hash chain) \<and> digest_ok (sc_grant_hash chain)"
  by (auto simp: decode_chain_def rbind_ok map_err_ok ensure_ok parse_digest_ok verify_grant_ok
      verify_authorization_ok)

section \<open>The invariant\<close>

definition chain_row_ok :: "lib \<Rightarrow> string \<times> raw_chain \<Rightarrow> bool" where
  "chain_row_ok L ir \<longleftrightarrow>
     (\<exists>chain. decode_chain L (snd ir) = Inr chain \<and> eg_grant_id (sc_grant chain) = fst ir)"

definition claim_row_ok :: "lib \<Rightarrow> database \<Rightarrow> claim_row \<Rightarrow> bool" where
  "claim_row_ok L db r \<longleftrightarrow>
     (\<exists>c ir chain. decode_claim (cl_grant_hash r) r = Inr c
        \<and> ir \<in> set (db_chains db) \<and> decode_chain L (snd ir) = Inr chain
        \<and> sc_grant_hash chain = dc_grant_hash c
        \<and> eg_not_before_ms (sc_grant chain) \<le> dc_claimed_at_ms c
        \<and> dc_claimed_at_ms c < eg_expires_at_ms (sc_grant chain)
        \<and> (\<forall>t. dc_dispatch_started_at_ms c = Some t \<longrightarrow>
             dc_claimed_at_ms c \<le> t \<and> t < eg_expires_at_ms (sc_grant chain)))"

text \<open>The claim of the attempt that a receipt reports, with the marker it reports, if any.\<close>

definition reports_claim :: "effect_receipt \<Rightarrow> claim_row \<Rightarrow> bool" where
  "reports_claim r cl \<longleftrightarrow>
     cl_grant_hash cl = as_str (er_grant_hash r) \<and> cl_attempt_id cl = er_attempt_id r
     \<and> cl_claimed_at_ms cl = uint (er_claimed_at_ms r)
     \<and> (\<forall>t. er_dispatched_at_ms r = Some t \<longrightarrow> cl_dispatch_started_at_ms cl = Some (uint t))"

definition receipt_row_ok :: "lib \<Rightarrow> database \<Rightarrow> receipt_row \<Rightarrow> bool" where
  "receipt_row_ok L db x \<longleftrightarrow>
     (\<exists>r cl ir chain v. decode_receipt L x = Inr r \<and> re_grant_hash x = as_str (er_grant_hash r)
        \<and> cl \<in> set (db_claims db) \<and> reports_claim r cl
        \<and> ir \<in> set (db_chains db) \<and> decode_chain L (snd ir) = Inr chain
        \<and> verify_chain L (sc_commitment chain) (sc_proposal chain) (sc_decision chain)
            (sc_grant chain) r = Inr v)"

definition stores_record :: "lib \<Rightarrow> reconciliation_row \<Rightarrow> reconciliation_record \<Rightarrow> bool" where
  "stores_record L row x \<longleftrightarrow>
     decode_reconciliation L row = Inr x \<and> rn_sequence row = uint (rr_sequence x)
     \<and> rn_reconciliation_id row = rr_reconciliation_id x"

definition history_row_ok :: "lib \<Rightarrow> database \<Rightarrow> receipt_row \<Rightarrow> bool" where
  "history_row_ok L db x \<longleftrightarrow>
     (\<exists>r xs. decode_receipt L x = Inr r \<and> history_ok L r xs \<and> length xs \<le> MAX_RECONCILIATION_RECORDS
        \<and> list_all2 (stores_record L) (reconciliations_of (re_receipt_hash x) db) xs)"

definition stored_ok :: "lib \<Rightarrow> database \<Rightarrow> bool" where
  "stored_ok L db \<longleftrightarrow>
     list_all (chain_row_ok L) (db_chains db) \<and> list_all (claim_row_ok L db) (db_claims db)
     \<and> list_all (receipt_row_ok L db) (db_receipts db)
     \<and> list_all (history_row_ok L db) (db_receipts db)"

lemma stored_ok_empty: "stored_ok L empty_database"
  by (simp add: stored_ok_def empty_database_def)

text \<open>What an extension of the database keeps.\<close>

lemma grown_eq_subset: "grown (=) xs ys \<Longrightarrow> set xs \<subseteq> set ys"
  by (auto simp: grown_def list.rel_eq)

lemma grown_member: "grown R xs ys \<Longrightarrow> x \<in> set xs \<Longrightarrow> \<exists>y \<in> set ys. R x y"
proof -
  have "list_all2 R xs us \<Longrightarrow> x \<in> set xs \<Longrightarrow> \<exists>y \<in> set us. R x y" for us
    by (induction rule: list_all2_induct) auto
  then show "grown R xs ys \<Longrightarrow> x \<in> set xs \<Longrightarrow> \<exists>y \<in> set ys. R x y"
    unfolding grown_def by fastforce
qed

lemma receipt_row_ok_extends:
  assumes "db_extends db db'" and "receipt_row_ok L db x"
  shows "receipt_row_ok L db' x"
proof -
  from assms(2) obtain r cl ir chain v where r: "decode_receipt L x = Inr r"
      "re_grant_hash x = as_str (er_grant_hash r)"
    and cl: "cl \<in> set (db_claims db)" "reports_claim r cl"
    and ir: "ir \<in> set (db_chains db)" "decode_chain L (snd ir) = Inr chain"
      "verify_chain L (sc_commitment chain) (sc_proposal chain) (sc_decision chain) (sc_grant chain) r
         = Inr v"
    unfolding receipt_row_ok_def by blast
  from assms(1) have g: "grown claim_kept (db_claims db) (db_claims db')"
    "grown (=) (db_chains db) (db_chains db')" by (simp_all add: db_extends_def)
  obtain cl' where cl': "cl' \<in> set (db_claims db')" "claim_kept cl cl'"
    using grown_member [OF g(1) cl(1)] by blast
  from cl'(2) cl(2) have "reports_claim r cl'"
    by (auto simp: claim_kept_def reports_claim_def)
  moreover have "ir \<in> set (db_chains db')"
    using grown_eq_subset [OF g(2)] ir(1) by blast
  ultimately show ?thesis using r cl'(1) ir(2,3) unfolding receipt_row_ok_def by blast
qed

lemma claim_row_ok_extends:
  "set (db_chains db) \<subseteq> set (db_chains db') \<Longrightarrow> claim_row_ok L db r \<Longrightarrow> claim_row_ok L db' r"
  unfolding claim_row_ok_def by blast

lemma history_row_ok_extends:
  "db_reconciliations db' = db_reconciliations db \<Longrightarrow> history_row_ok L db x \<Longrightarrow> history_row_ok L db' x"
  by (simp add: history_row_ok_def reconciliations_of_def)

section \<open>Every operation keeps the invariant\<close>

lemma stored_ok_extend:
  assumes "stored_ok L db" and ext: "db_extends db db'"
    and "\<And>ir. ir \<in> set (db_chains db') \<Longrightarrow> ir \<notin> set (db_chains db) \<Longrightarrow> chain_row_ok L ir"
    and "\<And>r. r \<in> set (db_claims db') \<Longrightarrow> r \<notin> set (db_claims db) \<Longrightarrow> claim_row_ok L db' r"
    and "\<And>x. x \<in> set (db_receipts db') \<Longrightarrow> x \<notin> set (db_receipts db) \<Longrightarrow>
      receipt_row_ok L db' x \<and> history_row_ok L db' x"
    and "\<And>x. x \<in> set (db_receipts db) \<Longrightarrow> history_row_ok L db x \<Longrightarrow> history_row_ok L db' x"
  shows "stored_ok L db'"
proof -
  have sub: "set (db_chains db) \<subseteq> set (db_chains db')"
    using ext grown_eq_subset by (auto simp: db_extends_def)
  from assms(1) have old: "\<forall>ir \<in> set (db_chains db). chain_row_ok L ir"
    "\<forall>r \<in> set (db_claims db). claim_row_ok L db r"
    "\<forall>x \<in> set (db_receipts db). receipt_row_ok L db x \<and> history_row_ok L db x"
    by (auto simp: stored_ok_def list_all_iff)
  show ?thesis
    unfolding stored_ok_def list_all_iff
    using old assms(3-6) claim_row_ok_extends [OF sub] receipt_row_ok_extends [OF ext] by blast
qed

lemma stored_ok_same:
  assumes "stored_ok L db" and "db_extends db db'"
    and "db_chains db' = db_chains db" "db_claims db' = db_claims db"
    and "db_receipts db' = db_receipts db" "db_reconciliations db' = db_reconciliations db"
  shows "stored_ok L db'"
  by (rule stored_ok_extend [OF assms(1,2)]) (use assms(3-6) history_row_ok_extends in auto)

lemma register_stored:
  assumes "conforming L" and s: "schema_ok db" "stored_ok L db"
    and "register_chain L eng c p d g db = (Inr h, db')"
    and "tc_digests c" "ep_digests p" "ad_digests d" "eg_digests g"
  shows "stored_ok L db'"
proof -
  from register_okD [OF assms(4)] obtain row where row: "register_row L c p d g = Inr (h, row)"
    and "db' = db \<or> insert_chain (eg_grant_id g) row db = Inr db'" by blast
  from this(2) show ?thesis
  proof
    assume ins: "insert_chain (eg_grant_id g) row db = Inr db'"
    then have db': "db' = db\<lparr>db_chains := db_chains db @ [(eg_grant_id g, row)]\<rparr>"
      by (simp add: insert_chain_def constrained_ok)
    have "chain_row_ok L (eg_grant_id g, row)"
      using decode_registered [OF assms(1) row assms(5-8)] by (simp add: chain_row_ok_def)
    then show ?thesis
      by (intro stored_ok_extend [OF s(2) insert_extends(1) [OF ins]])
         (auto simp: db' history_row_ok_extends)
  qed (use s in simp)
qed

lemma put_stored:
  assumes s: "schema_ok db" "stored_ok L db" and put: "put_currentness eng x db = (Inr u, db')"
  shows "stored_ok L db'"
proof -
  from sql_ops_evolve(2) [OF s(1) put] have "db_extends db db'" by (simp add: evolves_def)
  moreover from put_okD [OF put] have "\<exists>rows. db' = db\<lparr>db_currentness := rows\<rparr>"
    by (auto simp: update_currentness_def insert_currentness_def constrained_ok)
      (metis database.surjective database.update_convs(2))
  ultimately show ?thesis using stored_ok_same [OF s(2)] by auto
qed

lemma claim_currentness_ok:
  "claim_currentness chain s q now = Inr u \<longleftrightarrow>
     cu_observed_at_ms s \<le> now \<and> now - cu_observed_at_ms s \<le> cq_maximum_snapshot_age_ms q
     \<and> cu_version s = cq_expected_snapshot_version q
     \<and> cq_expected_audience q = eg_audience (sc_grant chain)
     \<and> cu_policy_epoch s = tc_policy_epoch (sc_commitment chain)
     \<and> cu_configuration_epoch s = tc_configuration_epoch (sc_commitment chain)
     \<and> cu_pre_state_digest s = ep_pre_state_digest (sc_proposal chain)
     \<and> cu_resource_claim_digest s = ep_resource_claim_digest (sc_proposal chain)
     \<and> \<not> cu_revoked s
     \<and> eg_not_before_ms (sc_grant chain) \<le> now \<and> now < eg_expires_at_ms (sc_grant chain)"
  unfolding claim_currentness_def checks_ok validate_currentness_age_def
  by (simp add: ok_iff not_less not_le)

lemma validate_claim_request_ok:
  "validate_claim_request q = Inr u \<longleftrightarrow>
     store_validate_text ''attempt_id'' (cq_attempt_id q) 256 = Inr ()
     \<and> store_validate_text ''expected_audience'' (cq_expected_audience q) 512 = Inr ()
     \<and> store_validate_text ''currentness_key'' (cq_currentness_key q) 1024 = Inr ()
     \<and> 0 < cq_expected_snapshot_version q \<and> cq_expected_snapshot_version q \<le> MAX_SAFE_INTEGER
     \<and> 0 < cq_maximum_snapshot_age_ms q \<and> cq_maximum_snapshot_age_ms q \<le> 300000"
proof -
  have "n \<le> 300000 \<Longrightarrow> n \<le> MAX_SAFE_INTEGER" for n :: u64
    by (erule order_trans) (simp add: MAX_SAFE_INTEGER_def)
  then show ?thesis
    unfolding validate_claim_request_def checks_ok
    by (auto simp: ok_iff discard_safe MAX_CURRENTNESS_AGE_MS_def not_less not_le word_neq_0_conv)
qed

lemma claim_stored:
  assumes L: "conforming L" and s: "schema_ok db" "stored_ok L db"
    and claim: "sql_claim L eng g q now db = (Inr c, db')"
  shows "stored_ok L db'"
proof -
  from claim_okD [OF claim] obtain h raw chain row snapshot where
      c: "c = claim_result h q now" and h: "eg_commitment L g = Inr h"
    and q: "validate_claim_request q = Inr ()" and now: "now \<le> MAX_SAFE_INTEGER"
    and raw: "chain_by_id db (eg_grant_id g) = Some raw" "decode_chain L raw = Inr chain"
    and hash: "sc_grant_hash chain = h"
    and cur: "claim_currentness chain snapshot q now = Inr ()"
    and ins: "insert_claim (row_of_claim c) (at_time now db) = Inr db'" by blast
  from ins have db': "db_claims db' = db_claims db @ [row_of_claim c]" "db_chains db' = db_chains db"
    "db_receipts db' = db_receipts db" "db_reconciliations db' = db_reconciliations db"
    by (auto simp: insert_claim_def constrained_ok)
  have "n \<le> 300000 \<Longrightarrow> n \<le> MAX_SAFE_INTEGER" for n :: u64
    by (erule order_trans) (simp add: MAX_SAFE_INTEGER_def)
  then have "decode_claim (as_str h) (row_of_claim c) = Inr c"
    using commitment_okD(4) [OF L h] q now
    by (auto simp: decode_claim_ok c claim_result_def row_of_claim_def validate_claim_request_ok)
  then have "claim_row_ok L db' (row_of_claim c)"
    using lookup_key(2) [OF raw(1)] raw(2) hash cur unfolding claim_currentness_ok claim_row_ok_def
    by (intro exI [of _ c] exI [of _ "(eg_grant_id g, raw)"] exI [of _ chain])
       (simp add: row_of_claim_def c claim_result_def db')
  moreover from sql_ops_evolve(3) [OF s(1) claim] have "db_extends db db'" by (simp add: evolves_def)
  ultimately show ?thesis
    by (intro stored_ok_extend [OF s(2)]) (auto simp: db' history_row_ok_extends)
qed

text \<open>By the keys of the schema, a lookup finds the row that has the key.\<close>

lemma chain_by_hash_unique:
  assumes "schema_ok db" and "ir \<in> set (db_chains db)"
  shows "chain_by_hash db (rc_grant_hash (snd ir)) = Some (snd ir)"
proof -
  have "distinct (map rc_grant_hash (map snd (db_chains db)))"
    using assms(1) by (simp add: schema_defs comp_def)
  from distinct_find [where k = rc_grant_hash, OF this] assms(2) show ?thesis
    by (simp add: chain_by_hash_def)
qed

lemma claim_of_unique:
  "schema_ok db \<Longrightarrow> r \<in> set (db_claims db) \<Longrightarrow> claim_of db (cl_grant_hash r) = Some r"
  unfolding claim_of_def by (rule distinct_find) (simp_all add: schema_defs)

lemma receipt_hashed_unique:
  "schema_ok db \<Longrightarrow> x \<in> set (db_receipts db) \<Longrightarrow> receipt_hashed db (re_receipt_hash x) = Some x"
  unfolding receipt_hashed_def by (rule distinct_find) (simp_all add: schema_defs)

lemma receipt_of_unique:
  "schema_ok db \<Longrightarrow> x \<in> set (db_receipts db) \<Longrightarrow> receipt_of db (re_grant_hash x) = Some x"
  unfolding receipt_of_def by (rule distinct_find) (simp_all add: schema_defs)

lemma mark_row_ok:
  "mark_row h a t db = Inr db' \<Longrightarrow>
     db' = db\<lparr>db_claims := map (\<lambda>r. if cl_grant_hash r = as_str h \<and> cl_attempt_id r = a
                                        \<and> cl_dispatch_started_at_ms r = None
                                     then r\<lparr>cl_dispatch_started_at_ms := Some (uint t)\<rparr> else r)
                           (db_claims db)\<rparr>"
  by (simp add: mark_row_def update_claims_def constrained_ok)

lemma mark_stored:
  assumes s: "schema_ok db" "stored_ok L db"
    and mark: "mark_dispatch_started L eng h a t db = (Inr m, db')"
  shows "stored_ok L db'"
proof -
  from sql_ops_evolve(4) [OF s(1) mark] have ext: "db_extends db db'" by (simp add: evolves_def)
  from mark_okD [OF mark] obtain row claim where t: "t \<le> MAX_SAFE_INTEGER"
    and row: "claim_of db (as_str h) = Some row" "decode_claim (as_str h) row = Inr claim"
    and time: "dc_claimed_at_ms claim \<le> t"
    and cases: "db' = db \<or> dc_dispatch_started_at_ms claim = None \<and>
        (\<exists>raw chain. chain_by_hash db (as_str h) = Some raw \<and> decode_chain L raw = Inr chain
           \<and> t < eg_expires_at_ms (sc_grant chain)) \<and> mark_row h a t (at_time t db) = Inr db'"
    by blast
  show ?thesis
  proof (cases "db' = db")
    case False
    with cases obtain raw chain where none: "dc_dispatch_started_at_ms claim = None"
      and raw: "chain_by_hash db (as_str h) = Some raw" "decode_chain L raw = Inr chain"
      and exp: "t < eg_expires_at_ms (sc_grant chain)"
      and upd: "mark_row h a t (at_time t db) = Inr db'" by blast
    note db' = mark_row_ok [OF upd]
    have new: "claim_row_ok L db' r'" if r': "r' \<in> set (db_claims db')" "r' \<notin> set (db_claims db)" for r'
    proof -
      from r' obtain r where r: "r \<in> set (db_claims db)" "cl_grant_hash r = as_str h"
        and r'_def: "r' = r\<lparr>cl_dispatch_started_at_ms := Some (uint t)\<rparr>"
        by (auto simp: db' split: if_splits)
      from claim_of_unique [OF s(1) r(1)] r(2) row(1) have "r = row" by simp
      from s(2) r(1) have "claim_row_ok L db r" by (simp add: stored_ok_def list_all_iff)
      then obtain ir ch where ir: "ir \<in> set (db_chains db)" "decode_chain L (snd ir) = Inr ch"
          "sc_grant_hash ch = dc_grant_hash claim"
        and window: "eg_not_before_ms (sc_grant ch) \<le> dc_claimed_at_ms claim"
          "dc_claimed_at_ms claim < eg_expires_at_ms (sc_grant ch)"
        unfolding claim_row_ok_def using row(2) r(2) \<open>r = row\<close> by auto
      from row(2) have "dc_grant_hash claim = h"
        by (simp add: decode_claim_ok digest32.expand)
      with ir decode_chain_ok [OF ir(2)] chain_by_hash_unique [OF s(1) ir(1)] raw
      have "ch = chain" by simp
      have "decode_claim (as_str h) r' = Inr (claim\<lparr>dc_dispatch_started_at_ms := Some t\<rparr>)"
        using row(2) t none \<open>r = row\<close> by (simp add: decode_claim_ok r'_def)
      then show ?thesis
        unfolding claim_row_ok_def
        by (intro exI [of _ "claim\<lparr>dc_dispatch_started_at_ms := Some t\<rparr>"] exI [of _ ir] exI [of _ ch])
           (use r(2) ir window exp time \<open>ch = chain\<close> in \<open>simp add: r'_def db'\<close>)
    qed
    show ?thesis
      by (rule stored_ok_extend [OF s(2) ext])
         (use new in \<open>auto simp: db' history_row_ok_extends\<close>)
  qed (use s in simp)
qed

lemma dispatch_evidence_ok:
  "validate_dispatch_evidence r m = Inr u \<longleftrightarrow>
     m = er_dispatched_at_ms r
     \<and> er_outcome r \<in> (if m = None then {NotDispatched, Unknown} else {Succeeded, Failed, Unknown})"
  by (auto simp: validate_dispatch_evidence_def ensure_ok split: option.splits)

text \<open>A receipt that is not stored yet has no reconciliation rows.\<close>

lemma fresh_receipt_rows:
  assumes "schema_ok db" and "insert_receipt x db = Inr db'"
  shows "reconciliations_of (re_receipt_hash x) db' = []"
proof -
  have fresh: "re_receipt_hash x \<notin> re_receipt_hash ` set (db_receipts db)"
    and db': "db_reconciliations db' = db_reconciliations db"
    using assms(2) by (auto simp: insert_receipt_def constrained_ok list_ex_iff)
  have "rn_receipt_hash y \<noteq> re_receipt_hash x" if "y \<in> set (db_reconciliations db)" for y
    using that assms(1) fresh unfolding schema_ok_def references_ok_def by (metis image_subset_iff)
  then show ?thesis by (simp add: reconciliations_of_def db' filter_empty_conv)
qed

lemma receipt_stored:
  assumes L: "conforming L" and s: "schema_ok db" "stored_ok L db"
    and rec: "record_receipt L eng r db = (Inr h, db')" and d: "er_digests r"
  shows "stored_ok L db'"
proof -
  from sql_ops_evolve(5) [OF s(1) rec] have ext: "db_extends db db'" and s': "schema_ok db'"
    by (simp_all add: evolves_def)
  from receipt_okD [OF rec] obtain raw chain row claim v where h: "er_commitment L r = Inr h"
    and raw: "chain_by_hash db (as_str (er_grant_hash r)) = Some raw" "decode_chain L raw = Inr chain"
    and v: "verify_chain L (sc_commitment chain) (sc_proposal chain) (sc_decision chain)
              (sc_grant chain) r = Inr v"
    and row: "claim_of db (as_str (er_grant_hash r)) = Some row"
      "decode_claim (as_str (er_grant_hash r)) row = Inr claim"
    and claim: "dc_attempt_id claim = er_attempt_id r" "dc_claimed_at_ms claim = er_claimed_at_ms r"
      "validate_dispatch_evidence r (dc_dispatch_started_at_ms claim) = Inr ()"
    and cases: "db' = db \<or> (\<exists>j. canonical_json L (er_value r) = Inr j
          \<and> insert_receipt \<lparr>re_grant_hash = as_str (er_grant_hash r), re_receipt_id = er_receipt_id r,
               re_receipt_hash = as_str h, re_receipt_json = j\<rparr> db = Inr db')"
    by blast
  show ?thesis
  proof (cases "db' = db")
    case False
    with cases obtain j x where j: "canonical_json L (er_value r) = Inr j"
      and x: "x = \<lparr>re_grant_hash = as_str (er_grant_hash r), re_receipt_id = er_receipt_id r,
               re_receipt_hash = as_str h, re_receipt_json = j\<rparr>"
      and ins: "insert_receipt x db = Inr db'" by blast
    then have db': "db' = db\<lparr>db_receipts := db_receipts db @ [x]\<rparr>"
      by (simp add: insert_receipt_def constrained_ok)
    have dec: "decode_receipt L x = Inr r" by (rule decode_recorded [OF L h j d]) (simp_all add: x)
    obtain i where i: "(i, raw) \<in> set (db_chains db)" using lookup_key(1) [OF raw(1)] by blast
    have "reports_claim r row"
      using row claim lookup_key(4) [OF row(1)]
      by (auto simp: reports_claim_def dispatch_evidence_ok decode_claim_ok)
    then have "receipt_row_ok L db' x"
      using dec i raw(2) v lookup_key(4) [OF row(1)] unfolding receipt_row_ok_def
      by (intro exI [of _ r] exI [of _ row] exI [of _ "(i, raw)"] exI [of _ chain] exI [of _ v])
         (simp add: x db')
    moreover have "reconciliations_of (re_receipt_hash x) db' = []"
      by (rule fresh_receipt_rows [OF s(1) ins])
    then have "history_row_ok L db' x" using dec by (auto simp: history_row_ok_def)
    ultimately show ?thesis
      by (intro stored_ok_extend [OF s(2) ext]) (auto simp: db' history_row_ok_extends)
  qed (use s in simp)
qed

section \<open>Reconciliation rows\<close>

lemma sort_key_snoc:
  assumes "\<forall>y \<in> set xs. f y \<le> f x"
  shows "sort_key f (xs @ [x]) = sort_key f xs @ [x]"
proof -
  have ins: "f y \<le> f x \<Longrightarrow> insort_key f y (ys @ [x]) = insort_key f y ys @ [x]" for y ys
    by (induction ys) auto
  show ?thesis using assms by (induction xs) (simp_all add: ins)
qed

lemma reconciliations_of_insert:
  assumes "insert_reconciliation row db = Inr db'"
    and "\<And>r. r \<in> set (reconciliations_of (rn_receipt_hash row) db) \<Longrightarrow> rn_sequence r \<le> rn_sequence row"
  shows "reconciliations_of h db' =
    reconciliations_of h db @ (if h = rn_receipt_hash row then [row] else [])"
proof -
  have "db_reconciliations db' = db_reconciliations db @ [row]"
    using assms(1) by (auto simp: insert_reconciliation_def constrained_ok)
  with assms(2) show ?thesis
    by (simp add: reconciliations_of_def sort_key_snoc)
qed

lemma insert_reconciliation_fresh:
  assumes "insert_reconciliation row db = Inr db'" and "r \<in> set (db_reconciliations db)"
  shows "rn_reconciliation_id r \<noteq> rn_reconciliation_id row"
    and "rn_receipt_hash r = rn_receipt_hash row \<Longrightarrow> rn_sequence r \<noteq> rn_sequence row"
  using assms by (auto simp: insert_reconciliation_def constrained_ok list_ex_iff)

lemma in_reconciliations_of:
  "r \<in> set (reconciliations_of h db) \<longleftrightarrow> r \<in> set (db_reconciliations db) \<and> rn_receipt_hash r = h"
  by (auto simp: reconciliations_of_def)

text \<open>The sequence numbers of the stored records of a history are 1, 2 and so on.\<close>

lemma stored_sequence:
  assumes "list_all2 (stores_record L) rows xs" and "history_ok L r xs"
    and "length xs \<le> MAX_RECONCILIATION_RECORDS" and "i < length xs"
  shows "rn_sequence (rows ! i) = int (Suc i)"
proof -
  have "Suc i < 2 ^ 64" using assms(3,4) by (simp add: MAX_RECONCILIATION_RECORDS_def)
  then have "uint (of_nat (Suc i) :: u64) = int (Suc i)"
    by (simp add: unsigned_of_nat take_bit_nat_eq_self del: of_nat_Suc)
  moreover have "rn_sequence (rows ! i) = uint (rr_sequence (xs ! i))"
    using assms(1,4) by (simp add: list_all2_conv_all_nth stores_record_def)
  ultimately show ?thesis using history_sequence [OF assms(2,4)] by simp
qed

text \<open>The record before, as the transaction reads it.\<close>

lemma latest_is_last:
  assumes "load_latest_reconciliation L eng h db = Inr previous"
    and "list_all2 (stores_record L) (reconciliations_of h db) xs"
  shows "previous = last_record xs \<or> (previous = None \<and> xs \<noteq> [])"
proof (cases "xs = [] \<or> previous = None")
  case True
  with assms show ?thesis
    by (cases previous)
       (auto simp: load_latest_reconciliation_def bind_transpose_Some query_optional_Some last_record_def)
next
  case False
  then obtain p where p: "previous = Some p" by auto
  with assms(1) obtain row rs where row: "rev (reconciliations_of h db) = row # rs"
    "decode_reconciliation L row = Inr p"
    by (auto simp: load_latest_reconciliation_def bind_transpose_Some query_optional_Some)
  then have "reconciliations_of h db = rev rs @ [row]" by (metis rev.simps(2) rev_rev_ident)
  with assms(2) obtain ys y where "xs = ys @ [y]" "stores_record L row y"
    by (auto simp: list_all2_append1 list_all2_Cons1)
  with row(2) p show ?thesis by (simp add: stores_record_def last_record_def)
qed

lemma history_append:
  assumes x: "list_all2 (stores_record L) (reconciliations_of (as_str (rr_receipt_hash x)) db) xs"
    and hist: "history_ok L r xs" and len: "length xs < MAX_RECONCILIATION_RECORDS"
    and prev: "load_latest_reconciliation L eng (as_str (rr_receipt_hash x)) db = Inr previous"
    and ver: "verify_reconciliation L r previous x = Inr h"
    and ins: "insert_reconciliation (row_of_record x h j) db = Inr db'"
  shows "history_ok L r (xs @ [x])"
proof -
  let ?rows = "reconciliations_of (as_str (rr_receipt_hash x)) db"
  have l: "length ?rows = length xs" using x by (rule list_all2_lengthD)
  have row: "?rows ! i \<in> set (db_reconciliations db)"
      "rn_receipt_hash (?rows ! i) = as_str (rr_receipt_hash x)" if "i < length xs" for i
    using that l nth_mem [of i ?rows] by (auto simp: in_reconciliations_of)
  have ids: "rr_reconciliation_id x \<notin> rr_reconciliation_id ` set xs"
  proof
    assume "rr_reconciliation_id x \<in> rr_reconciliation_id ` set xs"
    then obtain i where i: "i < length xs" "rr_reconciliation_id (xs ! i) = rr_reconciliation_id x"
      by (metis imageE in_set_conv_nth)
    then have "rn_reconciliation_id (?rows ! i) = rr_reconciliation_id x"
      using x by (simp add: list_all2_conv_all_nth stores_record_def)
    with insert_reconciliation_fresh(1) [OF ins row(1) [OF i(1)]] show False
      by (simp add: row_of_record_def)
  qed
  have "previous = last_record xs"
  proof (rule ccontr)
    assume "previous \<noteq> last_record xs"
    with latest_is_last [OF prev x] have n: "previous = None" "0 < length xs" by auto
    with ver have "rr_sequence x = 1" by (simp add: verify_reconciliation_ok follows_def)
    moreover have "rn_sequence (?rows ! 0) = 1"
      using stored_sequence [OF x hist _ n(2)] len by simp
    ultimately show False
      using insert_reconciliation_fresh(2) [OF ins row(1) [OF n(2)]] row(2) [OF n(2)]
      by (simp add: row_of_record_def)
  qed
  with hist ids ver show ?thesis by (auto simp: history_ok_snoc)
qed

text \<open>What an append that writes does: the history of one stored receipt grows by one record.\<close>

lemma reconcile_appends:
  assumes L: "conforming L" and s: "schema_ok db" "stored_ok L db"
    and app: "append_reconciliation L eng x db = (Inr h, db')" and d: "rr_digests x"
    and writes: "db' \<noteq> db"
  shows "\<exists>row r xs j. receipt_hashed db (as_str (rr_receipt_hash x)) = Some row
    \<and> decode_receipt L row = Inr r \<and> length xs < MAX_RECONCILIATION_RECORDS
    \<and> list_all2 (stores_record L) (reconciliations_of (as_str (rr_receipt_hash x)) db) xs
    \<and> history_ok L r (xs @ [x]) \<and> stores_record L (row_of_record x h j) x
    \<and> db' = db\<lparr>db_reconciliations := db_reconciliations db @ [row_of_record x h j]\<rparr>
    \<and> (\<forall>k. reconciliations_of k db' = reconciliations_of k db
          @ (if k = as_str (rr_receipt_hash x) then [row_of_record x h j] else []))"
proof -
  let ?hash = "as_str (rr_receipt_hash x)"
  from reconcile_okD [OF app] writes obtain row r previous j where
      row: "receipt_hashed db ?hash = Some row" "decode_receipt L row = Inr r"
    and prev: "load_latest_reconciliation L eng ?hash db = Inr previous"
    and len: "length (reconciliations_of ?hash db) < MAX_RECONCILIATION_RECORDS"
    and ver: "verify_reconciliation L r previous x = Inr h"
    and h: "rr_commitment L x = Inr h" and j: "canonical_json L (rr_value x) = Inr j"
    and ins: "insert_reconciliation (row_of_record x h j) db = Inr db'" by blast
  have "history_row_ok L db row"
    using s(2) lookup_key(6) [OF row(1)] by (simp add: stored_ok_def list_all_iff)
  then obtain xs where xs: "history_ok L r xs"
      "list_all2 (stores_record L) (reconciliations_of ?hash db) xs"
    using row(2) lookup_key(6) [OF row(1)] by (auto simp: history_row_ok_def)
  have lx: "length xs < MAX_RECONCILIATION_RECORDS" using xs(2) len by (simp add: list_all2_lengthD)
  note hist = history_append [OF xs(2,1) lx prev ver ins]
  have seq: "rn_sequence (row_of_record x h j) = int (Suc (length xs))"
    using history_sequence [OF hist, of "length xs"] lx
    by (simp add: row_of_record_def MAX_RECONCILIATION_RECORDS_def unsigned_of_nat take_bit_nat_eq_self
        del: of_nat_Suc)
  have le: "rn_sequence y \<le> rn_sequence (row_of_record x h j)"
    if "y \<in> set (reconciliations_of ?hash db)" for y
  proof -
    from that list_all2_lengthD [OF xs(2)] obtain i where "i < length xs" "y = reconciliations_of ?hash db ! i"
      by (metis in_set_conv_nth)
    with stored_sequence [OF xs(2,1) less_imp_le [OF lx]] seq show ?thesis by simp
  qed
  have "reconciliations_of k db' =
      reconciliations_of k db @ (if k = ?hash then [row_of_record x h j] else [])" for k
    using reconciliations_of_insert [OF ins] le by (simp add: row_of_record_def)
  moreover have "db' = db\<lparr>db_reconciliations := db_reconciliations db @ [row_of_record x h j]\<rparr>"
    using ins by (simp add: insert_reconciliation_def constrained_ok)
  moreover have "stores_record L (row_of_record x h j) x"
    using decode_appended [OF L h j d] by (simp add: stores_record_def row_of_record_def)
  ultimately show ?thesis using row lx xs(2) hist by blast
qed

lemma reconcile_stored:
  assumes L: "conforming L" and s: "schema_ok db" "stored_ok L db"
    and app: "append_reconciliation L eng x db = (Inr h, db')" and d: "rr_digests x"
  shows "stored_ok L db'"
proof (cases "db' = db")
  case False
  let ?hash = "as_str (rr_receipt_hash x)"
  from sql_ops_evolve(6) [OF s(1) app] have ext: "db_extends db db'" by (simp add: evolves_def)
  from reconcile_appends [OF L s app d False] obtain row r xs j where
      row: "receipt_hashed db ?hash = Some row" "decode_receipt L row = Inr r"
    and xs: "length xs < MAX_RECONCILIATION_RECORDS"
      "list_all2 (stores_record L) (reconciliations_of ?hash db) xs" "history_ok L r (xs @ [x])"
    and new_row: "stores_record L (row_of_record x h j) x"
    and db': "db' = db\<lparr>db_reconciliations := db_reconciliations db @ [row_of_record x h j]\<rparr>"
    and rows: "\<forall>k. reconciliations_of k db' = reconciliations_of k db
          @ (if k = ?hash then [row_of_record x h j] else [])" by metis
  have new: "history_row_ok L db' y" if y: "y \<in> set (db_receipts db)" "history_row_ok L db y" for y
  proof (cases "re_receipt_hash y = ?hash")
    case True
    with receipt_hashed_unique [OF s(1) y(1)] row have "decode_receipt L y = Inr r" by simp
    with True new_row xs show ?thesis
      unfolding history_row_ok_def
      by (intro exI [of _ r] exI [of _ "xs @ [x]"]) (simp add: rows list_all2_appendI)
  qed (use y(2) in \<open>simp add: history_row_ok_def rows\<close>)
  show ?thesis
    by (rule stored_ok_extend [OF s(2) ext]) (use new in \<open>auto simp: db'\<close>)
qed (use s in simp)

lemma outcome_stored:
  assumes "stored_ok L db" and "\<And>e db'. out = (Inl e, db') \<Longrightarrow> db' = db"
    and "\<And>x db'. out = (Inr x, db') \<Longrightarrow> stored_ok L db'"
  shows "stored_ok L (snd out)"
  using assms by (cases out; cases "fst out") auto

lemma sql_step_stored:
  assumes L: "conforming L" and s: "schema_ok db" "stored_ok L db" and op: "call_digests op"
  shows "stored_ok L (snd (sql_step L (eng, op) db))"
proof (cases op)
  case (SqlRegister c p d g)
  with op have "stored_ok L (snd (register_chain L eng c p d g db))"
    by (intro outcome_stored [OF s(2)]) (auto dest: sql_step_error(1) register_stored [OF L s])
  with SqlRegister show ?thesis by (simp add: split_def)
next
  case (SqlPut x)
  have "stored_ok L (snd (put_currentness eng x db))"
    by (rule outcome_stored [OF s(2)]) (blast dest: sql_step_error(2) put_stored [OF s])+
  with SqlPut show ?thesis by (simp add: split_def)
next
  case (SqlClaim g q now)
  then show ?thesis
    using outcome_stored [OF s(2) sql_step_error(3) claim_stored [OF L s]] by (simp add: split_def)
next
  case (SqlMark h a t)
  then show ?thesis
    using outcome_stored [OF s(2) sql_step_error(4) mark_stored [OF s]] by (simp add: split_def)
next
  case (SqlReceipt r)
  with op have "stored_ok L (snd (record_receipt L eng r db))"
    by (intro outcome_stored [OF s(2)]) (auto dest: sql_step_error(5) receipt_stored [OF L s])
  with SqlReceipt show ?thesis by (simp add: split_def)
next
  case (SqlReconcile x)
  with op have "stored_ok L (snd (append_reconciliation L eng x db))"
    by (intro outcome_stored [OF s(2)]) (auto dest: sql_step_error(6) reconcile_stored [OF L s])
  with SqlReconcile show ?thesis by (simp add: split_def)
qed

lemma sql_reachable_stored:
  "sql_reachable L db \<Longrightarrow> conforming L \<Longrightarrow> stored_ok L db"
  by (induction rule: sql_reachable.induct)
     (simp_all add: stored_ok_empty sql_step_stored sql_reachable_schema)

end
