(* ===== verification/Sqlite_Reading.thy ===== *)
theory Sqlite_Reading
  imports Sqlite_Stored
begin

text \<open>
  What \<open>read_lifecycle\<close> returns. Its success certifies the lifecycle it returns whatever the
  rows hold (\<open>read_lifecycle_okD\<close>). On a reachable database and without engine faults its
  result is determined by one fact (\<open>lifecycle_of_reachable\<close>): whether a dispatch marker was
  written after a receipt that reports no dispatch (\<open>overtaken\<close>).
\<close>

definition no_faults :: engine where
  "no_faults st = None"

lemma no_faults_simps [simp]:
  "no_faults st = None" "immediate no_faults = Inr ()" "commit no_faults = Inr ()"
  by (simp_all add: no_faults_def immediate_def commit_def)

section \<open>Success\<close>

lemma verify_rows_ok:
  "verify_rows L r previous xs = Inr () \<longleftrightarrow>
     (\<forall>i < length xs. \<exists>h. verify_reconciliation L r
        (if i = 0 then previous else Some (xs ! (i - 1))) (xs ! i) = Inr h)"
proof (induction xs arbitrary: previous)
  case (Cons x xs)
  have "Some ((x # xs) ! i) = (if i = 0 then Some x else Some (xs ! (i - 1)))" for i
    by (cases i) simp_all
  then show ?case
    by (simp add: rbind_ok map_err_ok Cons.IH All_less_Suc2)
qed simp

lemma verify_rows_history: "history_ok L r xs \<Longrightarrow> verify_rows L r None xs = Inr ()"
  by (auto simp: verify_rows_ok history_ok_def previous_at_def)

lemma read_lifecycle_okD:
  assumes "read_lifecycle L eng h db1 db2 db3 db4 = Inr lc"
  shows "lc_grant_hash lc = h
    \<and> (\<exists>c p d g. verify_grant L c p d g = Inr h
         \<and> (case lc_receipt lc of
              None \<Rightarrow> lc_reconciliations lc = []
            | Some r \<Rightarrow> (\<exists>v. verify_chain L c p d g r = Inr v)
                \<and> (\<exists>claim. lc_claim lc = Some claim \<and> dc_grant_hash claim = h
                     \<and> dc_attempt_id claim = er_attempt_id r \<and> dc_claimed_at_ms claim = er_claimed_at_ms r
                     \<and> dc_dispatch_started_at_ms claim = er_dispatched_at_ms r)
                \<and> verify_rows L r None (lc_reconciliations lc) = Inr ()))"
proof -
  from assms obtain chain where chain: "load_chain_by_grant_hash L eng (as_str h) db1 = Inr (Some chain)"
    by (auto simp: read_lifecycle_def rbind_ok ok_or_ok)
  then obtain raw where raw: "chain_by_hash db1 (as_str h) = Some raw" "decode_chain L raw = Inr chain"
    by (auto simp: load_Some)
  from lookup_key(1) [OF raw(1)] decode_chain_ok [OF raw(2)]
  have grant: "verify_grant L (sc_commitment chain) (sc_proposal chain) (sc_decision chain)
      (sc_grant chain) = Inr h"
    by (simp add: digest32.expand)
  from assms obtain claimed receipt where
      claimed: "load_claim eng (as_str h) db2 = Inr claimed"
    and receipt: "load_receipt_by_grant L eng (as_str h) db3 = Inr receipt"
    by (auto simp: read_lifecycle_def rbind_ok)
  show ?thesis
  proof (cases receipt)
    case None
    with assms chain claimed receipt grant show ?thesis by (auto simp: read_lifecycle_def) blast
  next
    case (Some r)
    with assms chain claimed receipt have ok: "lc_grant_hash lc = h" "lc_receipt lc = Some r"
      "\<exists>v. verify_chain L (sc_commitment chain) (sc_proposal chain) (sc_decision chain)
         (sc_grant chain) r = Inr v"
      "\<exists>claim. claimed = Some claim \<and> lc_claim lc = Some claim
         \<and> dc_attempt_id claim = er_attempt_id r \<and> dc_claimed_at_ms claim = er_claimed_at_ms r
         \<and> validate_dispatch_evidence r (dc_dispatch_started_at_ms claim) = Inr ()"
      "verify_rows L r None (lc_reconciliations lc) = Inr ()"
      by (auto simp: read_lifecycle_def rbind_ok ok_or_ok map_err_ok ensure_ok)
    from ok(4) claimed obtain claim where "lc_claim lc = Some claim"
      "dc_attempt_id claim = er_attempt_id r" "dc_claimed_at_ms claim = er_claimed_at_ms r"
      "dc_dispatch_started_at_ms claim = er_dispatched_at_ms r" "dc_grant_hash claim = h"
      by (auto simp: dispatch_evidence_ok load_Some decode_claim_ok digest32.expand)
    with ok(1,2,3,5) grant show ?thesis by auto blast
  qed
qed

section \<open>Reachable databases\<close>

text \<open>A dispatch marker stands beside a receipt that reports no dispatch.\<close>

definition overtaken :: "lib \<Rightarrow> database \<Rightarrow> digest32 \<Rightarrow> bool" where
  "overtaken L db h \<longleftrightarrow>
     (\<exists>x r cl. receipt_of db (as_str h) = Some x \<and> decode_receipt L x = Inr r
        \<and> er_dispatched_at_ms r = None
        \<and> claim_of db (as_str h) = Some cl \<and> cl_dispatch_started_at_ms cl \<noteq> None)"

lemma query_find_clean: "query_optional no_faults st (filter P rows) = Inr (find P rows)"
  by (induction rows) (simp_all add: query_optional_clean)

lemma load_clean:
  "load_chain_by_grant_hash L no_faults k db =
     (case chain_by_hash db k of None \<Rightarrow> Inr None | Some r \<Rightarrow> map_transpose (decode_chain L) (Some r))"
  "load_claim no_faults k db =
     (case claim_of db k of None \<Rightarrow> Inr None | Some r \<Rightarrow> map_transpose (decode_claim k) (Some r))"
  "load_receipt_by_grant L no_faults k db =
     (case receipt_of db k of None \<Rightarrow> Inr None | Some r \<Rightarrow> map_transpose (decode_receipt L) (Some r))"
  by (simp_all add: load_chain_by_grant_hash_def load_claim_def load_receipt_by_grant_def lookup_defs
      query_find_clean split: option.splits)

lemma read_rows_clean:
  "list_all2 (stores_record L) rows xs \<Longrightarrow> read_rows L no_faults n rows = Inr xs"
  by (induction arbitrary: n rule: list_all2_induct) (simp_all add: stores_record_def)

lemma stored_okD:
  assumes "schema_ok db" and "stored_ok L db"
  shows "chain_by_hash db k = Some raw \<Longrightarrow> \<exists>chain. decode_chain L raw = Inr chain"
    and "claim_of db k = Some cl \<Longrightarrow> claim_row_ok L db cl"
    and "receipt_of db k = Some x \<Longrightarrow> receipt_row_ok L db x"
    and "receipt_of db k = Some x \<Longrightarrow> history_row_ok L db x"
  using assms(2) by (auto simp: stored_ok_def list_all_iff chain_row_ok_def dest!: lookup_key)

text \<open>The receipt that a query finds, with its chain, its claim and its history.\<close>

lemma stored_receipt:
  assumes s: "schema_ok db" "stored_ok L db" and x: "receipt_of db k = Some x"
  shows "\<exists>r cl claim raw chain v xs. decode_receipt L x = Inr r \<and> k = as_str (er_grant_hash r)
    \<and> claim_of db k = Some cl \<and> decode_claim k cl = Inr claim \<and> reports_claim r cl
    \<and> chain_by_hash db k = Some raw \<and> decode_chain L raw = Inr chain
    \<and> verify_chain L (sc_commitment chain) (sc_proposal chain) (sc_decision chain) (sc_grant chain) r
        = Inr v
    \<and> history_ok L r xs \<and> list_all2 (stores_record L) (reconciliations_of (re_receipt_hash x) db) xs"
proof -
  from stored_okD(3) [OF s x] obtain r cl ir chain v where r: "decode_receipt L x = Inr r"
      "re_grant_hash x = as_str (er_grant_hash r)"
    and cl: "cl \<in> set (db_claims db)" "reports_claim r cl"
    and ir: "ir \<in> set (db_chains db)" "decode_chain L (snd ir) = Inr chain"
      "verify_chain L (sc_commitment chain) (sc_proposal chain) (sc_decision chain) (sc_grant chain) r
         = Inr v"
    unfolding receipt_row_ok_def by blast
  from lookup_key(5) [OF x] r(2) have k: "k = as_str (er_grant_hash r)" by simp
  have c: "claim_of db k = Some cl" using claim_of_unique [OF s(1) cl(1)] cl(2) by (simp add: k reports_claim_def)
  from stored_okD(2) [OF s c] lookup_key(4) [OF c] obtain claim where "decode_claim k cl = Inr claim"
    by (auto simp: claim_row_ok_def)
  moreover have "rc_grant_hash (snd ir) = k"
    using decode_chain_ok [OF ir(2)] ir(3) by (auto simp: k verify_chain_ok verify_authorization_ok)
  with chain_by_hash_unique [OF s(1) ir(1)] have "chain_by_hash db k = Some (snd ir)" by simp
  moreover obtain xs where "history_ok L r xs"
      "list_all2 (stores_record L) (reconciliations_of (re_receipt_hash x) db) xs"
    using stored_okD(4) [OF s x] r(1) by (auto simp: history_row_ok_def)
  ultimately show ?thesis using r(1) k c cl(2) ir by blast
qed

lemma lifecycle_of_overtaken:
  assumes s: "schema_ok db" "stored_ok L db" and "overtaken L db h"
  shows "lifecycle_of L no_faults h db = Inl SE_DispatchEvidenceMismatch"
proof -
  from assms(3) obtain x r cl where x: "receipt_of db (as_str h) = Some x" "decode_receipt L x = Inr r"
    and none: "er_dispatched_at_ms r = None"
    and cl: "claim_of db (as_str h) = Some cl" "cl_dispatch_started_at_ms cl \<noteq> None"
    by (auto simp: overtaken_def)
  from stored_receipt [OF s x(1)] x(2) cl obtain claim raw chain v where
      "decode_claim (as_str h) cl = Inr claim" "reports_claim r cl"
      "chain_by_hash db (as_str h) = Some raw" "decode_chain L raw = Inr chain"
      "verify_chain L (sc_commitment chain) (sc_proposal chain) (sc_decision chain) (sc_grant chain) r
        = Inr v"
    by auto
  moreover from this(1,2) cl(2) none have "dc_attempt_id claim = er_attempt_id r"
      "dc_claimed_at_ms claim = er_claimed_at_ms r" "dc_dispatch_started_at_ms claim \<noteq> None"
    by (auto simp: decode_claim_ok reports_claim_def word_uint_eq_iff)
  moreover from this(3) none have "validate_dispatch_evidence r (dc_dispatch_started_at_ms claim)
      = Inl SE_DispatchEvidenceMismatch"
    by (auto simp: validate_dispatch_evidence_def split: option.splits)
  ultimately show ?thesis
    using x cl(1) by (simp add: read_lifecycle_def load_clean)
qed

lemma lifecycle_without_receipt:
  assumes s: "schema_ok db" "stored_ok L db" and known: "chain_by_hash db (as_str h) \<noteq> None"
    and none: "receipt_of db (as_str h) = None"
  shows "\<exists>lc. lifecycle_of L no_faults h db = Inr lc \<and> lc_receipt lc = None
    \<and> (lc_claim lc = None \<longleftrightarrow> claim_of db (as_str h) = None)"
proof -
  from known obtain raw chain where "chain_by_hash db (as_str h) = Some raw" "decode_chain L raw = Inr chain"
    using stored_okD(1) [OF s] by blast
  moreover have "\<exists>c. load_claim no_faults (as_str h) db = Inr c
      \<and> (c = None \<longleftrightarrow> claim_of db (as_str h) = None)"
  proof (cases "claim_of db (as_str h)")
    case (Some cl)
    with stored_okD(2) [OF s Some] lookup_key(4) [OF Some] show ?thesis
      by (auto simp: load_clean claim_row_ok_def)
  qed (simp add: load_clean)
  ultimately show ?thesis using none by (auto simp: read_lifecycle_def load_clean)
qed

lemma lifecycle_with_receipt:
  assumes s: "schema_ok db" "stored_ok L db" and x: "receipt_of db (as_str h) = Some x"
    and ok: "\<not> overtaken L db h"
  shows "\<exists>lc. lifecycle_of L no_faults h db = Inr lc \<and> lc_receipt lc \<noteq> None \<and> lc_claim lc \<noteq> None
    \<and> claim_of db (as_str h) \<noteq> None"
proof -
  from stored_receipt [OF s x] obtain r cl claim raw chain v xs where
      r: "decode_receipt L x = Inr r" "as_str h = as_str (er_grant_hash r)"
    and cl: "claim_of db (as_str h) = Some cl" "decode_claim (as_str h) cl = Inr claim" "reports_claim r cl"
    and chain: "chain_by_hash db (as_str h) = Some raw" "decode_chain L raw = Inr chain"
      "verify_chain L (sc_commitment chain) (sc_proposal chain) (sc_decision chain) (sc_grant chain) r
        = Inr v"
    and xs: "history_ok L r xs" "list_all2 (stores_record L) (reconciliations_of (re_receipt_hash x) db) xs"
    by metis
  obtain rh where rh: "er_commitment L r = Inr rh" "as_str rh = re_receipt_hash x"
    using r(1) by (auto simp: decode_receipt_ok)
  have valid: "er_validate r = Inr ()"
    using rh(1) by (auto simp: er_commitment_def trait_commitment_def rbind_ok)
  have same: "dc_attempt_id claim = er_attempt_id r" "dc_claimed_at_ms claim = er_claimed_at_ms r"
    using cl(2,3) by (auto simp: decode_claim_ok reports_claim_def word_uint_eq_iff)
  have "dc_dispatch_started_at_ms claim = er_dispatched_at_ms r"
  proof (cases "er_dispatched_at_ms r")
    case None
    with ok x r(1) cl show ?thesis by (auto simp: overtaken_def decode_claim_ok)
  next
    case (Some t)
    with cl(2,3) show ?thesis by (auto simp: decode_claim_ok reports_claim_def word_uint_eq_iff)
  qed
  then have "validate_dispatch_evidence r (dc_dispatch_started_at_ms claim) = Inr ()"
    using valid by (cases "er_outcome r") (auto simp: dispatch_evidence_ok er_validate_ok)
  then show ?thesis
    using x r(1) cl chain same rh read_rows_clean [OF xs(2)] verify_rows_history [OF xs(1)]
    by (simp add: read_lifecycle_def load_clean load_all_reconciliations_def)
qed

lemma lifecycle_of_reachable:
  assumes s: "schema_ok db" "stored_ok L db"
  shows "chain_by_hash db (as_str h) = None \<Longrightarrow> lifecycle_of L no_faults h db = Inl SE_UnknownGrant"
    and "overtaken L db h \<Longrightarrow> lifecycle_of L no_faults h db = Inl SE_DispatchEvidenceMismatch"
    and "chain_by_hash db (as_str h) \<noteq> None \<Longrightarrow> \<not> overtaken L db h \<Longrightarrow>
      \<exists>lc. lifecycle_of L no_faults h db = Inr lc
        \<and> (lc_claim lc = None \<longleftrightarrow> claim_of db (as_str h) = None)
        \<and> (lc_receipt lc = None \<longleftrightarrow> receipt_of db (as_str h) = None)"
proof -
  show "chain_by_hash db (as_str h) = None \<Longrightarrow> lifecycle_of L no_faults h db = Inl SE_UnknownGrant"
    by (simp add: read_lifecycle_def load_clean)
  show "overtaken L db h \<Longrightarrow> lifecycle_of L no_faults h db = Inl SE_DispatchEvidenceMismatch"
    by (rule lifecycle_of_overtaken [OF s])
  assume "chain_by_hash db (as_str h) \<noteq> None" and "\<not> overtaken L db h"
  then show "\<exists>lc. lifecycle_of L no_faults h db = Inr lc
      \<and> (lc_claim lc = None \<longleftrightarrow> claim_of db (as_str h) = None)
      \<and> (lc_receipt lc = None \<longleftrightarrow> receipt_of db (as_str h) = None)"
    using lifecycle_without_receipt [OF s] lifecycle_with_receipt [OF s]
    by (cases "receipt_of db (as_str h)") (metis, metis option.distinct(1))
qed

section \<open>Lookups in later databases\<close>

lemma claim_of_extends:
  assumes "db_extends db db'" and "claim_of db k = Some cl"
  shows "\<exists>cl'. claim_of db' k = Some cl' \<and> claim_kept cl cl'"
proof -
  from assms(1) have g: "grown claim_kept (db_claims db) (db_claims db')" by (simp add: db_extends_def)
  have key: "cl_grant_hash y = k \<longleftrightarrow> cl_grant_hash x = k" if "claim_kept x y" for x y
    using that by (auto simp: claim_kept_def)
  show ?thesis
    unfolding claim_of_def by (rule grown_find [OF g key assms(2) [unfolded claim_of_def]])
qed

lemma receipt_of_extends:
  assumes "db_extends db db'" and "receipt_of db k = Some x"
  shows "receipt_of db' k = Some x"
proof -
  from assms(1) have "grown (=) (db_receipts db) (db_receipts db')" by (simp add: db_extends_def)
  from grown_find [OF this _ assms(2) [unfolded receipt_of_def]] show ?thesis
    by (simp add: receipt_of_def)
qed

section \<open>The claim after a mark\<close>

lemma find_map_key:
  "(\<And>r. k (f r) = k r) \<Longrightarrow> find (\<lambda>r. k r = v) (map f xs) = map_option f (find (\<lambda>r. k r = v) xs)"
  by (induction xs) auto

lemma mark_leaves_marker:
  assumes "mark_dispatch_started L eng h a t db = (Inr m, db')"
  shows "\<exists>cl. claim_of db' (as_str h) = Some cl \<and> cl_attempt_id cl = a
    \<and> cl_dispatch_started_at_ms cl = Some (uint t)
    \<and> (claim_of db (as_str h) = Some (cl\<lparr>cl_dispatch_started_at_ms := None\<rparr>)
       \<or> claim_of db (as_str h) = Some cl \<and> db' = db)"
proof -
  from mark_okD [OF assms] obtain row claim where row: "claim_of db (as_str h) = Some row"
      "decode_claim (as_str h) row = Inr claim" "dc_attempt_id claim = a"
    and cases: "dc_dispatch_started_at_ms claim = Some t \<and> db' = db
      \<or> dc_dispatch_started_at_ms claim = None \<and> mark_row h a t (at_time t db) = Inr db'" by blast
  from cases show ?thesis
  proof
    assume "dc_dispatch_started_at_ms claim = None \<and> mark_row h a t (at_time t db) = Inr db'"
    then have none: "dc_dispatch_started_at_ms claim = None"
      and db': "db_claims db' = map (\<lambda>r. if cl_grant_hash r = as_str h \<and> cl_attempt_id r = a
          \<and> cl_dispatch_started_at_ms r = None
          then r\<lparr>cl_dispatch_started_at_ms := Some (uint t)\<rparr> else r) (db_claims db)"
      by (auto dest!: mark_row_ok)
    let ?f = "\<lambda>r. if cl_grant_hash r = as_str h \<and> cl_attempt_id r = a
      \<and> cl_dispatch_started_at_ms r = None then r\<lparr>cl_dispatch_started_at_ms := Some (uint t)\<rparr> else r"
    have "claim_of db' (as_str h) = map_option ?f (claim_of db (as_str h))"
      unfolding claim_of_def db' by (rule find_map_key) simp
    with row none lookup_key(4) [OF row(1)] show ?thesis by (simp add: decode_claim_ok)
  qed (use row in \<open>auto simp: decode_claim_ok\<close>)
qed

section \<open>A marker after a receipt without dispatch\<close>

lemma read_lifecycle_loads:
  assumes "read_lifecycle L eng h db1 db2 db3 db4 = Inr lc"
  shows "load_claim eng (as_str h) db2 = Inr (lc_claim lc)
    \<and> load_receipt_by_grant L eng (as_str h) db3 = Inr (lc_receipt lc)"
  using assms by (auto simp: read_lifecycle_def rbind_ok)

lemma overtaken_extends:
  assumes "db_extends db db'" and "overtaken L db h"
  shows "overtaken L db' h"
proof -
  from assms(2) obtain x r cl where x: "receipt_of db (as_str h) = Some x" "decode_receipt L x = Inr r"
      "er_dispatched_at_ms r = None"
    and cl: "claim_of db (as_str h) = Some cl" "cl_dispatch_started_at_ms cl \<noteq> None"
    by (auto simp: overtaken_def)
  from claim_of_extends [OF assms(1) cl(1)] cl(2) have "claim_of db' (as_str h) = Some cl"
    by (auto simp: claim_kept_def)
  with receipt_of_extends [OF assms(1) x(1)] x cl(2) show ?thesis by (auto simp: overtaken_def)
qed

lemma overtaken_unreadable:
  assumes "overtaken L db h"
  shows "lifecycle_of L no_faults h db \<noteq> Inr lc"
proof
  assume lc: "lifecycle_of L no_faults h db = Inr lc"
  from assms obtain x r cl where x: "receipt_of db (as_str h) = Some x" "decode_receipt L x = Inr r"
      "er_dispatched_at_ms r = None"
    and cl: "claim_of db (as_str h) = Some cl" "cl_dispatch_started_at_ms cl \<noteq> None"
    by (auto simp: overtaken_def)
  from read_lifecycle_loads [OF lc] x(1,2) have r: "lc_receipt lc = Some r" by (simp add: load_clean)
  with read_lifecycle_okD [OF lc] obtain claim where
      "lc_claim lc = Some claim" "dc_dispatch_started_at_ms claim = None"
    by (auto simp: x(3))
  with read_lifecycle_loads [OF lc] have "load_claim no_faults (as_str h) db = Inr (Some claim)" by simp
  with cl \<open>dc_dispatch_started_at_ms claim = None\<close> show False by (auto simp: load_Some decode_claim_ok)
qed

end
