(* ===== verification/Sqlite_Fixtures.thy ===== *)
theory Sqlite_Fixtures
  imports Sqlite_Reading
begin

text \<open>
  A run of the SQLite store on the fixture chain: registration, currentness, claim, dispatch
  marker, receipt and reconciliation, and a second continuation of the claim in which a
  receipt reports that nothing was dispatched. Each lemma gives the result of one operation
  and the database after it.
\<close>

section \<open>Rows\<close>

definition text_of :: "protocol_error + string \<Rightarrow> string" where
  "text_of r = (case r of Inl e \<Rightarrow> [] | Inr s \<Rightarrow> s)"

lemma fx_texts:
  "\<exists>s. canonical_json ref_lib (tc_value fx_tc) = Inr s"
  "\<exists>s. canonical_json ref_lib (ep_value fx_ep) = Inr s"
  "\<exists>s. canonical_json ref_lib (ad_value fx_ad) = Inr s"
  "\<exists>s. canonical_json ref_lib (eg_value fx_eg) = Inr s"
  "er_validate r = Inr () \<Longrightarrow> \<exists>s. canonical_json ref_lib (er_value r) = Inr s"
  by (rule tc.valid_canonical ep.valid_canonical ad.valid_canonical eg.valid_canonical
      er.valid_canonical, simp_all add: ref_lib_quotes fx_valid)+

lemma fx_receipt_text:
  "er_validate r = Inr () \<Longrightarrow> \<exists>s. canonical_json ref_lib (er_value r) = Inr s
     \<and> text_of (canonical_json ref_lib (er_value r)) = s"
  using fx_texts(5) [of r] by (auto simp: text_of_def)

definition fx_row :: raw_chain where
  "fx_row = \<lparr>rc_grant_hash = as_str eg_hash, rc_proposal_hash = as_str ep_hash,
     rc_decision_hash = as_str ad_hash,
     rc_commitment_json = text_of (canonical_json ref_lib (tc_value fx_tc)),
     rc_proposal_json = text_of (canonical_json ref_lib (ep_value fx_ep)),
     rc_decision_json = text_of (canonical_json ref_lib (ad_value fx_ad)),
     rc_grant_json = text_of (canonical_json ref_lib (eg_value fx_eg))\<rparr>"

lemma fx_register_row: "register_row ref_lib fx_tc fx_ep fx_ad fx_eg = Inr (eg_hash, fx_row)"
  using fx_texts(1-4)
  by (auto simp: register_row_def fx_row_def fx_verify_grant fx_commitments text_of_def)

definition fx_stored_chain :: stored_chain where
  "fx_stored_chain = \<lparr>sc_grant_hash = eg_hash, sc_commitment = fx_tc, sc_proposal = fx_ep,
     sc_decision = fx_ad, sc_grant = fx_eg\<rparr>"

lemma fx_decode_chain: "decode_chain ref_lib fx_row = Inr fx_stored_chain"
  using decode_registered [OF conforming_ref_lib fx_register_row] fx_digests
  by (simp add: fx_stored_chain_def)

definition fx_snapshot :: currentness_snapshot where
  "fx_snapshot = \<lparr>cu_key = ''target-1'', cu_version = 1, cu_policy_epoch = 7,
     cu_configuration_epoch = 3, cu_pre_state_digest = fx_digest ''pre-state'',
     cu_resource_claim_digest = fx_digest ''resources'', cu_revoked = False,
     cu_observed_at_ms = 3900\<rparr>"

definition fx_snapshot_row :: currentness_row where
  "fx_snapshot_row = \<lparr>kr_key = ''target-1'', kr_version = 1, kr_policy_epoch = 7,
     kr_configuration_epoch = 3, kr_pre_state_digest = as_str (fx_digest ''pre-state''),
     kr_resource_claim_digest = as_str (fx_digest ''resources''), kr_revoked = 0,
     kr_observed_at_ms = 3900\<rparr>"

lemma fx_digest_ok: "digest_ok (fx_digest s)"
  by (simp add: fx_digest_def payload_digest_ok ref_lib_hash)

lemma fx_decode_currentness:
  "decode_currentness ''target-1'' fx_snapshot_row = Inr fx_snapshot"
  by (simp add: decode_currentness_ok fx_snapshot_def fx_snapshot_row_def MAX_SAFE_INTEGER_def
      parse_digest_as_str fx_digest_ok)

definition fx_claim_request :: claim_request where
  "fx_claim_request = \<lparr>cq_attempt_id = ''attempt-1'', cq_expected_audience = ''executor:local'',
     cq_currentness_key = ''target-1'', cq_expected_snapshot_version = 1,
     cq_maximum_snapshot_age_ms = 1000\<rparr>"

definition fx_durable :: durable_claim where
  "fx_durable = claim_result eg_hash fx_claim_request 4000"

definition fx_marked_claim :: durable_claim where
  "fx_marked_claim = fx_durable\<lparr>dc_dispatch_started_at_ms := Some 4100\<rparr>"

lemma eg_hash_ok: "digest_ok eg_hash"
  using commitment_okD(4) [OF conforming_ref_lib fx_commitments(4)] by simp

lemma fx_decode_claim:
  "decode_claim (as_str eg_hash) (row_of_claim fx_durable) = Inr fx_durable"
  "decode_claim (as_str eg_hash) (row_of_claim fx_marked_claim) = Inr fx_marked_claim"
  by (simp_all add: decode_claim_ok eg_hash_ok fx_durable_def fx_marked_claim_def claim_result_def
      fx_claim_request_def row_of_claim_def MAX_SAFE_INTEGER_def)

text \<open>A receipt that reports that the claimed effect was not dispatched.\<close>

definition fx_nd :: effect_receipt where
  "fx_nd = fx_er\<lparr>er_receipt_id := ''receipt-2'', er_dispatched_at_ms := None,
     er_outcome := NotDispatched\<rparr>"

definition nd_hash :: digest32 where "nd_hash = hash_of (er_commitment ref_lib fx_nd)"

lemma fx_nd_valid: "er_validate fx_nd = Inr ()"
  by (simp add: er_validate_def fx_nd_def fx_er_def text_eval)

lemma fx_nd_commitment: "er_commitment ref_lib fx_nd = Inr nd_hash"
  unfolding nd_hash_def er_commitment_def
  by (rule hash_of_ok) (simp add: er.commitment_ok_iff ref_lib_quotes fx_nd_valid)

lemma fx_nd_digests: "er_digests fx_nd"
  using fx_digests(5) by (simp add: er_digests_def fx_nd_def)

lemma fx_nd_chain: "\<exists>v. verify_chain ref_lib fx_tc fx_ep fx_ad fx_eg fx_nd = Inr v"
  using fx_verify_chain fx_nd_commitment
  by (auto simp: verify_chain_def rbind_ok ensure_ok fx_nd_def)

definition receipt_row_of :: "effect_receipt \<Rightarrow> digest32 \<Rightarrow> receipt_row" where
  "receipt_row_of r h = \<lparr>re_grant_hash = as_str (er_grant_hash r), re_receipt_id = er_receipt_id r,
     re_receipt_hash = as_str h, re_receipt_json = text_of (canonical_json ref_lib (er_value r))\<rparr>"

lemma fx_decode_receipt:
  "decode_receipt ref_lib (receipt_row_of fx_er er_hash) = Inr fx_er"
  "decode_receipt ref_lib (receipt_row_of fx_nd nd_hash) = Inr fx_nd"
  using fx_receipt_text [OF fx_er_valid] fx_receipt_text [OF fx_nd_valid]
    decode_recorded [OF conforming_ref_lib fx_commitments(5) _ fx_digests(5)]
    decode_recorded [OF conforming_ref_lib fx_nd_commitment _ fx_nd_digests]
  by (auto simp: receipt_row_of_def)

section \<open>Databases\<close>

definition fx_db1 :: database where
  "fx_db1 = empty_database\<lparr>db_chains := [(''grant-1'', fx_row)]\<rparr>"
definition fx_db2 :: database where
  "fx_db2 = fx_db1\<lparr>db_currentness := [fx_snapshot_row]\<rparr>"
definition fx_db3 :: database where
  "fx_db3 = fx_db2\<lparr>db_claims := [row_of_claim fx_durable], db_last_time := Some (Some 4000)\<rparr>"
definition fx_db4 :: database where
  "fx_db4 = fx_db3\<lparr>db_claims := [row_of_claim fx_marked_claim], db_last_time := Some (Some 4100)\<rparr>"
definition fx_db5 :: database where
  "fx_db5 = fx_db4\<lparr>db_receipts := [receipt_row_of fx_er er_hash]\<rparr>"

text \<open>The other continuation: the receipt first, then the marker.\<close>

definition fx_db3n :: database where
  "fx_db3n = fx_db3\<lparr>db_receipts := [receipt_row_of fx_nd nd_hash]\<rparr>"
definition fx_db4n :: database where
  "fx_db4n = fx_db4\<lparr>db_receipts := [receipt_row_of fx_nd nd_hash]\<rparr>"

lemmas fx_db_defs =
  fx_db1_def fx_db2_def fx_db3_def fx_db4_def fx_db5_def fx_db3n_def fx_db4n_def empty_database_def

section \<open>The operations\<close>

lemma fx_names [simp]: "eg_grant_id fx_eg = ''grant-1''" "as_str d = as_str e \<longleftrightarrow> d = e"
  by (simp_all add: fx_eg_def) (metis digest32.expand)

lemma fx_register:
  "register_chain ref_lib no_faults fx_tc fx_ep fx_ad fx_eg empty_database = (Inr eg_hash, fx_db1)"
  by (simp add: register_chain_def before_def fx_register_row transact_def register_body_def
      load_raw_chain_by_id_def store_exists_def query_optional_clean execute_def insert_chain_def
      constrained_def fx_db_defs)

lemma fx_snapshot_ok:
  "validate_snapshot fx_snapshot = Inr ()" "snapshot_params fx_snapshot = Inr fx_snapshot_row"
  "currentness_check fx_snapshot_row"
proof -
  show "validate_snapshot fx_snapshot = Inr ()"
    by (simp add: validate_snapshot_def fx_snapshot_def store_validate_text_def text_eval discard_def
        safe_i64_def)
  show "snapshot_params fx_snapshot = Inr fx_snapshot_row"
    by (simp add: snapshot_params_ok fx_snapshot_def fx_snapshot_row_def MAX_SAFE_INTEGER_def)
  show "currentness_check fx_snapshot_row"
    by (simp add: currentness_check_def fx_snapshot_row_def)
qed

lemmas fx_put_eval = put_currentness_def before_def transact_def put_body_def load_currentness_def
  query_optional_clean execute_def insert_currentness_def constrained_def fx_db_defs fx_snapshot_ok

lemma fx_put: "put_currentness no_faults fx_snapshot fx_db1 = (Inr (), fx_db2)"
  by (simp add: fx_put_eval)

lemma fx_lookups:
  "chain_by_id fx_db2 ''grant-1'' = Some fx_row"
  "chain_by_hash fx_db2 (as_str eg_hash) = Some fx_row" "chain_by_hash fx_db3 (as_str eg_hash) = Some fx_row"
  "chain_by_hash fx_db3n (as_str eg_hash) = Some fx_row"
  "chain_by_hash fx_db4 (as_str eg_hash) = Some fx_row"
  "claim_of fx_db3 (as_str eg_hash) = Some (row_of_claim fx_durable)"
  "claim_of fx_db3n (as_str eg_hash) = Some (row_of_claim fx_durable)"
  "claim_of fx_db4 (as_str eg_hash) = Some (row_of_claim fx_marked_claim)"
  "receipt_of fx_db3 (as_str eg_hash) = None" "receipt_of fx_db4 (as_str eg_hash) = None"
  by (simp_all add: lookup_defs fx_db_defs row_of_claim_def fx_durable_def fx_marked_claim_def
      claim_result_def fx_row_def)

lemma fx_current:
  "load_currentness no_faults ''target-1'' fx_db2 = Inr (Some fx_snapshot)"
  "load_currentness no_faults ''target-1'' fx_db3 = Inr (Some fx_snapshot)"
  "load_currentness no_faults ''target-1'' fx_db3n = Inr (Some fx_snapshot)"
proof -
  have "kr_key fx_snapshot_row = ''target-1''" by (simp add: fx_snapshot_row_def)
  then show "load_currentness no_faults ''target-1'' fx_db2 = Inr (Some fx_snapshot)"
    "load_currentness no_faults ''target-1'' fx_db3 = Inr (Some fx_snapshot)"
    "load_currentness no_faults ''target-1'' fx_db3n = Inr (Some fx_snapshot)"
    by (simp_all add: load_Some currentness_of_def fx_db_defs fx_decode_currentness)
qed

lemma fx_chain_loaded:
  "load_chain_by_grant_id ref_lib no_faults ''grant-1'' fx_db2 = Inr (Some fx_stored_chain)"
  "load_chain_by_grant_hash ref_lib no_faults (as_str eg_hash) fx_db3 = Inr (Some fx_stored_chain)"
  "load_chain_by_grant_hash ref_lib no_faults (as_str eg_hash) fx_db3n = Inr (Some fx_stored_chain)"
  "load_chain_by_grant_hash ref_lib no_faults (as_str eg_hash) fx_db4 = Inr (Some fx_stored_chain)"
  by (simp_all add: load_Some fx_lookups fx_decode_chain)

lemma fx_claim_loaded:
  "load_claim no_faults (as_str eg_hash) fx_db3 = Inr (Some fx_durable)"
  "load_claim no_faults (as_str eg_hash) fx_db3n = Inr (Some fx_durable)"
  "load_claim no_faults (as_str eg_hash) fx_db4 = Inr (Some fx_marked_claim)"
  by (simp_all add: load_Some fx_lookups fx_decode_claim)

lemma fx_claim_inputs: "claim_inputs ref_lib fx_eg fx_claim_request 4000 = Inr eg_hash"
  by (simp add: claim_inputs_def validate_claim_request_def fx_claim_request_def fx_commitments
      store_validate_text_def text_eval discard_def safe_i64_def MAX_CURRENTNESS_AGE_MS_def)

lemma fx_sql_claim:
  "sql_claim ref_lib no_faults fx_eg fx_claim_request 4000 fx_db2 = (Inr fx_durable, fx_db3)"
proof -
  have cur: "claim_currentness fx_stored_chain fx_snapshot fx_claim_request 4000 = Inr ()"
    by (simp add: claim_currentness_ok fx_stored_chain_def fx_snapshot_def fx_claim_request_def)
       (simp add: fx_tc_def fx_ep_def fx_eg_def)
  have row: "row_of_claim fx_durable = \<lparr>cl_grant_hash = as_str eg_hash, cl_attempt_id = ''attempt-1'',
      cl_currentness_key = ''target-1'', cl_snapshot_version = 1, cl_maximum_snapshot_age_ms = 1000,
      cl_claimed_at_ms = 4000, cl_dispatch_started_at_ms = None\<rparr>"
    by (simp add: row_of_claim_def fx_durable_def claim_result_def fx_claim_request_def)
  have "insert_claim (row_of_claim fx_durable) (fx_db2\<lparr>db_last_time := Some (Some 4000)\<rparr>) = Inr fx_db3"
    by (simp add: insert_claim_def constrained_def claim_check_def row fx_db_defs fx_row_def fx_snapshot_row_def)
  then have "execute_claim no_faults (row_of_claim fx_durable) (fx_db2\<lparr>db_last_time := Some (Some 4000)\<rparr>)
      = Inr fx_db3"
    by (simp add: execute_claim_ok)
  moreover have "db_last_time fx_db2 = Some None" by (simp add: fx_db_defs)
  ultimately have "claim_body ref_lib no_faults fx_eg fx_claim_request 4000 eg_hash fx_db2
      = Inr (fx_durable, fx_db3)"
    using cur fx_current(1)
    by (simp add: claim_body_def fx_chain_loaded fx_verify_grant check_clock_def load_last_time_def
        query_row_def safe_i64_def MAX_SAFE_INTEGER_def execute_def update_last_time_def row)
       (simp add: fx_claim_request_def fx_stored_chain_def fx_durable_def claim_result_def
        fx_verify_grant)
  then show ?thesis by (simp add: sql_claim_def before_def fx_claim_inputs transact_def)
qed

lemma fx_dispatch_currentness:
  "dispatch_currentness fx_stored_chain fx_snapshot fx_durable 4100 = Inr ()"
  by (simp add: dispatch_currentness_def validate_currentness_age_def fx_stored_chain_def
      fx_snapshot_def fx_durable_def claim_result_def fx_claim_request_def)
     (simp add: fx_tc_def fx_ep_def)

lemma fx_mark_row:
  "mark_row eg_hash ''attempt-1'' 4100 (fx_db3\<lparr>db_last_time := Some (Some 4100)\<rparr>) = Inr fx_db4"
  "mark_row eg_hash ''attempt-1'' 4100 (fx_db3n\<lparr>db_last_time := Some (Some 4100)\<rparr>) = Inr fx_db4n"
  by (simp_all add: mark_row_def update_claims_def constrained_def claims_update_guard_def claim_check_def
      fx_db_defs row_of_claim_def fx_durable_def fx_marked_claim_def claim_result_def fx_claim_request_def)

lemma fx_mark_body:
  assumes "load_claim no_faults (as_str eg_hash) db = Inr (Some fx_durable)"
    and "load_chain_by_grant_hash ref_lib no_faults (as_str eg_hash) db = Inr (Some fx_stored_chain)"
    and "load_currentness no_faults ''target-1'' db = Inr (Some fx_snapshot)"
    and "db_last_time db = Some (Some 4000)"
    and "mark_row eg_hash ''attempt-1'' 4100 (db\<lparr>db_last_time := Some (Some 4100)\<rparr>) = Inr db'"
  shows "mark_dispatch_started ref_lib no_faults eg_hash ''attempt-1'' 4100 db =
    (Inr \<lparr>dm_grant_hash = eg_hash, dm_attempt_id = ''attempt-1'', dm_dispatched_at_ms = 4100\<rparr>, db')"
proof -
  have f: "dc_attempt_id fx_durable = ''attempt-1''" "dc_claimed_at_ms fx_durable = 4000"
    "dc_dispatch_started_at_ms fx_durable = None" "dc_currentness_key fx_durable = ''target-1''"
    by (simp_all add: fx_durable_def claim_result_def fx_claim_request_def)
  have "eg_expires_at_ms (sc_grant fx_stored_chain) = 9000"
    by (simp add: fx_stored_chain_def) (simp add: fx_eg_def)
  then have "mark_body ref_lib no_faults eg_hash ''attempt-1'' 4100 4100 db =
      Inr (\<lparr>dm_grant_hash = eg_hash, dm_attempt_id = ''attempt-1'', dm_dispatched_at_ms = 4100\<rparr>, db')"
    using assms fx_dispatch_currentness
    by (simp add: mark_body_def Let_def f check_clock_def load_last_time_def query_row_def execute_def
        update_last_time_def mark_row_def)
  moreover have "mark_inputs ''attempt-1'' 4100 = Inr 4100"
    by (simp add: mark_inputs_def store_validate_text_def text_eval safe_i64_def)
  ultimately show ?thesis by (simp add: mark_dispatch_started_def before_def transact_def)
qed

definition fx_marker :: dispatch_marker where
  "fx_marker = \<lparr>dm_grant_hash = eg_hash, dm_attempt_id = ''attempt-1'', dm_dispatched_at_ms = 4100\<rparr>"

lemma fx_mark:
  "mark_dispatch_started ref_lib no_faults eg_hash ''attempt-1'' 4100 fx_db3 = (Inr fx_marker, fx_db4)"
  "mark_dispatch_started ref_lib no_faults eg_hash ''attempt-1'' 4100 fx_db3n = (Inr fx_marker, fx_db4n)"
  unfolding fx_marker_def
  using fx_mark_body [OF fx_claim_loaded(1) fx_chain_loaded(2) fx_current(2) _ fx_mark_row(1)]
    fx_mark_body [OF fx_claim_loaded(2) fx_chain_loaded(3) fx_current(3) _ fx_mark_row(2)]
  by (simp_all add: fx_db3_def fx_db3n_def)

lemma fx_receipt_loaded:
  "load_receipt_by_grant ref_lib no_faults (as_str eg_hash) fx_db3 = Inr None"
  "load_receipt_by_grant ref_lib no_faults (as_str eg_hash) fx_db4 = Inr None"
  by (simp_all add: load_clean fx_lookups)

lemma fx_record_body:
  assumes "load_chain_by_grant_hash ref_lib no_faults (as_str eg_hash) db = Inr (Some fx_stored_chain)"
    and "load_claim no_faults (as_str eg_hash) db = Inr (Some c)"
    and "load_receipt_by_grant ref_lib no_faults (as_str eg_hash) db = Inr None"
    and "dc_attempt_id c = er_attempt_id r" "dc_claimed_at_ms c = er_claimed_at_ms r"
    and "validate_dispatch_evidence r (dc_dispatch_started_at_ms c) = Inr ()"
    and "er_grant_hash r = eg_hash" "verify_chain ref_lib fx_tc fx_ep fx_ad fx_eg r = Inr v"
    and "er_commitment ref_lib r = Inr h"
    and "insert_receipt (receipt_row_of r h) db = Inr db'"
  shows "record_receipt ref_lib no_faults r db = (Inr h, db')"
proof -
  from assms(9) have valid: "er_validate r = Inr ()"
    by (auto simp: er_commitment_def trait_commitment_def rbind_ok)
  from fx_receipt_text [OF valid] obtain s where s: "canonical_json ref_lib (er_value r) = Inr s"
    "text_of (canonical_json ref_lib (er_value r)) = s" by auto
  from verify_chain_grant [OF assms(8)] assms(7) have "vc_grant_hash v = eg_hash" by simp
  then show ?thesis
    using assms valid s
    by (simp add: record_receipt_def before_def receipt_inputs_def transact_def receipt_body_def Let_def
        fx_stored_chain_def receipt_row_of_def)
qed

lemma fx_record:
  "record_receipt ref_lib no_faults fx_er fx_db4 = (Inr er_hash, fx_db5)"
  "record_receipt ref_lib no_faults fx_nd fx_db3 = (Inr nd_hash, fx_db3n)"
proof -
  have ins: "insert_receipt (receipt_row_of fx_er er_hash) fx_db4 = Inr fx_db5"
    "insert_receipt (receipt_row_of fx_nd nd_hash) fx_db3 = Inr fx_db3n"
    by (simp_all add: insert_receipt_def constrained_def fx_db_defs receipt_row_of_def row_of_claim_def
        fx_durable_def fx_marked_claim_def claim_result_def fx_nd_def) (simp_all add: fx_er_def)
  show "record_receipt ref_lib no_faults fx_er fx_db4 = (Inr er_hash, fx_db5)"
    by (rule fx_record_body [OF fx_chain_loaded(4) fx_claim_loaded(3) fx_receipt_loaded(2) _ _ _ _
          fx_verify_chain fx_commitments(5) ins(1)])
       (simp_all add: fx_er_def dispatch_evidence_ok fx_marked_claim_def fx_durable_def claim_result_def
          fx_claim_request_def)
  obtain v where v: "verify_chain ref_lib fx_tc fx_ep fx_ad fx_eg fx_nd = Inr v" using fx_nd_chain by auto
  show "record_receipt ref_lib no_faults fx_nd fx_db3 = (Inr nd_hash, fx_db3n)"
    by (rule fx_record_body [OF fx_chain_loaded(2) fx_claim_loaded(1) fx_receipt_loaded(1) _ _ _ _
          v fx_nd_commitment ins(2)])
       (simp_all add: fx_nd_def fx_er_def dispatch_evidence_ok fx_durable_def claim_result_def
          fx_claim_request_def)
qed

lemma fx_sql_reachable:
  "sql_reachable ref_lib fx_db1" "sql_reachable ref_lib fx_db2" "sql_reachable ref_lib fx_db3"
  "sql_reachable ref_lib fx_db4" "sql_reachable ref_lib fx_db5" "sql_reachable ref_lib fx_db3n"
  "sql_reachable ref_lib fx_db4n"
proof -
  note step = sql_next [where L = ref_lib and eng = no_faults]
  show 1: "sql_reachable ref_lib fx_db1"
    using step [OF sql_start, of "SqlRegister fx_tc fx_ep fx_ad fx_eg"] fx_digests
    by (simp add: fx_register)
  show 2: "sql_reachable ref_lib fx_db2"
    using step [OF 1, of "SqlPut fx_snapshot"] fx_put
    by (simp add: fx_digest_ok) (simp add: fx_snapshot_def fx_digest_ok)
  show 3: "sql_reachable ref_lib fx_db3"
    using step [OF 2, of "SqlClaim fx_eg fx_claim_request 4000"] fx_digests by (simp add: fx_sql_claim)
  show 4: "sql_reachable ref_lib fx_db4"
    using step [OF 3, of "SqlMark eg_hash ''attempt-1'' 4100"] by (simp add: fx_mark eg_hash_ok)
  show "sql_reachable ref_lib fx_db5"
    using step [OF 4, of "SqlReceipt fx_er"] fx_digests by (simp add: fx_record)
  show 5: "sql_reachable ref_lib fx_db3n"
    using step [OF 3, of "SqlReceipt fx_nd"] fx_nd_digests by (simp add: fx_record)
  show "sql_reachable ref_lib fx_db4n"
    using step [OF 5, of "SqlMark eg_hash ''attempt-1'' 4100"] by (simp add: fx_mark eg_hash_ok)
qed

lemma fx_receipts:
  "receipt_of fx_db5 (as_str eg_hash) = Some (receipt_row_of fx_er er_hash)"
  "receipt_of fx_db3n (as_str eg_hash) = Some (receipt_row_of fx_nd nd_hash)"
  "receipt_of fx_db4n (as_str eg_hash) = Some (receipt_row_of fx_nd nd_hash)"
  by (simp_all add: receipt_of_def fx_db5_def fx_db3n_def fx_db4n_def receipt_row_of_def fx_nd_def)
     (simp_all add: fx_er_def)

lemma fx_dispatch_times:
  "er_dispatched_at_ms fx_er = Some 4100" "er_dispatched_at_ms fx_nd = None" "er_outcome fx_nd = NotDispatched"
  by (simp_all add: fx_nd_def) (simp add: fx_er_def)

end
