(* ===== verification/Sqlite_Progress.thy ===== *)
theory Sqlite_Progress
  imports Sqlite_Reading Lifecycle_Spec
begin

text \<open>
  When the operations of the SQLite store succeed: for each operation, conditions on its
  arguments and on the database under which it returns a result, if the engine does not fail,
  and the database after it. The converse directions are the \<open>*_okD\<close> lemmas of
  \<open>Sqlite_Facts\<close>.
\<close>

section \<open>Registration\<close>

text \<open>The chain is stored already, or its four unique columns are unused.\<close>

definition chain_available :: "database \<Rightarrow> string \<Rightarrow> raw_chain \<Rightarrow> bool" where
  "chain_available db i row \<longleftrightarrow>
     chain_by_id db i = Some row
     \<or> (\<forall>(j, r) \<in> set (db_chains db). j \<noteq> i \<and> rc_grant_hash r \<noteq> rc_grant_hash row
           \<and> rc_proposal_hash r \<noteq> rc_proposal_hash row \<and> rc_decision_hash r \<noteq> rc_decision_hash row)"

definition with_chain :: "string \<Rightarrow> raw_chain \<Rightarrow> database \<Rightarrow> database" where
  "with_chain i row db =
     (if chain_by_id db i = Some row then db
      else db\<lparr>db_chains := db_chains db @ [(i, row)]\<rparr>)"

lemma with_chain_rest [simp]:
  "db_last_time (with_chain i row db) = db_last_time db"
  "db_currentness (with_chain i row db) = db_currentness db"
  "db_claims (with_chain i row db) = db_claims db"
  "db_receipts (with_chain i row db) = db_receipts db"
  by (simp_all add: with_chain_def)

lemma load_raw_clean: "load_raw_chain_by_id no_faults i db = Inr (chain_by_id db i)"
proof -
  have "query_optional no_faults st (map snd (filter (\<lambda>(j, r). j = i) xs))
      = Inr (map_option snd (find (\<lambda>(j, r). j = i) xs))" for st and xs :: "(string \<times> raw_chain) list"
    by (induction xs) (auto simp: query_optional_clean)
  then show ?thesis by (simp add: load_raw_chain_by_id_def chain_by_id_def)
qed

lemma register_succeeds:
  assumes row: "register_row L c p d g = Inr (h, row)" and free: "chain_available db (eg_grant_id g) row"
  shows "register_chain L no_faults c p d g db = (Inr h, with_chain (eg_grant_id g) row db)"
proof (cases "chain_by_id db (eg_grant_id g) = Some row")
  case True
  then show ?thesis
    by (simp add: register_chain_def before_def row transact_def register_body_def load_raw_clean
        with_chain_def)
next
  case False
  with free have new: "\<forall>(j, r) \<in> set (db_chains db). j \<noteq> eg_grant_id g
      \<and> rc_grant_hash r \<noteq> rc_grant_hash row \<and> rc_proposal_hash r \<noteq> rc_proposal_hash row
      \<and> rc_decision_hash r \<noteq> rc_decision_hash row" by (simp add: chain_available_def)
  then have "chain_by_id db (eg_grant_id g) = None" by (auto simp: chain_by_id_def find_None_iff)
  moreover have "insert_chain (eg_grant_id g) row db
      = Inr (db\<lparr>db_chains := db_chains db @ [(eg_grant_id g, row)]\<rparr>)"
    using new by (fastforce simp: insert_chain_def constrained_def list_ex_iff)
  moreover have "store_exists no_faults ''proposal_hash'' (rc_proposal_hash row) db = Inr False"
    "store_exists no_faults ''decision_hash'' (rc_decision_hash row) db = Inr False"
    using new by (auto simp: store_exists_def query_find_clean find_None_iff)
  ultimately show ?thesis
    by (simp add: register_chain_def before_def row transact_def register_body_def load_raw_clean
        with_chain_def execute_def)
qed

lemma with_chain_lookups:
  assumes "schema_ok db" and "chain_available db i row"
  shows "chain_by_id (with_chain i row db) i = Some row"
    and "chain_by_hash (with_chain i row db) (rc_grant_hash row) = Some row"
proof -
  show "chain_by_id (with_chain i row db) i = Some row"
  proof (cases "chain_by_id db i = Some row")
    case False
    with assms(2) have "find (\<lambda>(j, r). j = i) (db_chains db) = None"
      by (auto simp: chain_available_def find_None_iff)
    with False show ?thesis by (simp add: with_chain_def chain_by_id_def find_append_None)
  qed (simp add: with_chain_def)
  show "chain_by_hash (with_chain i row db) (rc_grant_hash row) = Some row"
  proof (cases "chain_by_id db i = Some row")
    case True
    from lookup_key(2) [OF True] have "row \<in> set (map snd (db_chains db))" by force
    then have "chain_by_hash db (rc_grant_hash row) = Some row"
      unfolding chain_by_hash_def using assms(1) by (intro distinct_find) (simp_all add: schema_defs comp_def split_def)
    with True show ?thesis by (simp add: with_chain_def)
  next
    case False
    with assms(2) show ?thesis
      by (simp add: with_chain_def chain_available_def chain_by_hash_def)
        (subst find_append_None; force simp: find_None_iff)
  qed
qed

section \<open>Currentness\<close>

definition snapshot_accepted :: "database \<Rightarrow> currentness_snapshot \<Rightarrow> bool" where
  "snapshot_accepted db s \<longleftrightarrow>
     validate_snapshot s = Inr ()
     \<and> (\<forall>r. currentness_of db (cu_key s) = Some r \<longrightarrow>
          (\<exists>previous. decode_currentness (cu_key s) r = Inr previous
             \<and> (previous = s \<or> put_checks s previous = Inr ())))"

lemma snapshot_row:
  assumes "validate_snapshot s = Inr ()" and "digest_ok (cu_pre_state_digest s)"
    and "digest_ok (cu_resource_claim_digest s)"
  shows "\<exists>row. snapshot_params s = Inr row \<and> kr_key row = cu_key s \<and> currentness_check row
    \<and> decode_currentness (cu_key s) row = Inr s"
proof -
  from assms(1) have "0 < uint (cu_version s)" "cu_version s \<le> MAX_SAFE_INTEGER"
    "cu_policy_epoch s \<le> MAX_SAFE_INTEGER" "cu_configuration_epoch s \<le> MAX_SAFE_INTEGER"
    "cu_observed_at_ms s \<le> MAX_SAFE_INTEGER"
    unfolding validate_snapshot_def checks_ok
    by (simp_all add: ok_iff discard_safe word_neq_0_conv flip: word_less_def [of 0, simplified])
  then show ?thesis
    using assms(2,3)
    by (simp add: snapshot_params_ok currentness_check_def decode_currentness_ok parse_digest_as_str)
qed

lemma load_currentness_clean:
  "load_currentness no_faults k db =
     (case currentness_of db k of None \<Rightarrow> Inr None | Some r \<Rightarrow> map_transpose (decode_currentness k) (Some r))"
  by (simp add: load_currentness_def currentness_of_def query_find_clean split: option.splits)

lemma put_succeeds:
  assumes ok: "snapshot_accepted db s" and digests: "digest_ok (cu_pre_state_digest s)"
    "digest_ok (cu_resource_claim_digest s)"
  shows "\<exists>rows r. put_currentness no_faults s db = (Inr (), db\<lparr>db_currentness := rows\<rparr>)
    \<and> currentness_of (db\<lparr>db_currentness := rows\<rparr>) (cu_key s) = Some r
    \<and> decode_currentness (cu_key s) r = Inr s"
proof -
  have v: "validate_snapshot s = Inr ()" using ok by (simp add: snapshot_accepted_def)
  note put = put_currentness_def before_def v transact_def put_body_def load_currentness_clean execute_def
  from snapshot_row [OF v digests] obtain row where row: "snapshot_params s = Inr row" "kr_key row = cu_key s"
    "currentness_check row" "decode_currentness (cu_key s) row = Inr s" by blast
  show ?thesis
  proof (cases "currentness_of db (cu_key s)")
    case None
    then have "cu_key s \<notin> kr_key ` set (db_currentness db)"
      by (auto simp: currentness_of_def find_None_iff)
    then have "put_currentness no_faults s db
        = (Inr (), db\<lparr>db_currentness := db_currentness db @ [row]\<rparr>)"
      using None row by (simp add: put insert_currentness_def constrained_def)
    then show ?thesis using None row
      by (intro exI [of _ "db_currentness db @ [row]"] exI [of _ row])
         (simp add: currentness_of_def find_append_None)
  next
    case (Some r)
    with ok obtain previous where prev: "decode_currentness (cu_key s) r = Inr previous"
      "previous = s \<or> put_checks s previous = Inr ()" by (auto simp: snapshot_accepted_def)
    show ?thesis
    proof (cases "previous = s")
      case True
      with Some prev show ?thesis
        by (intro exI [of _ "db_currentness db"] exI [of _ r]) (simp add: put)
    next
      case False
      let ?rows = "map (\<lambda>x. if kr_key x = cu_key s then row else x) (db_currentness db)"
      have "put_currentness no_faults s db = (Inr (), db\<lparr>db_currentness := ?rows\<rparr>)"
        using Some prev False row by (simp add: put update_currentness_def constrained_def)
      moreover have "find (\<lambda>x. kr_key x = cu_key s) xs = Some r \<Longrightarrow>
          find (\<lambda>x. kr_key x = cu_key s) (map (\<lambda>x. if kr_key x = cu_key s then row else x) xs) = Some row" for xs
        by (induction xs) (auto simp: row(2))
      ultimately show ?thesis using Some row
        by (intro exI [of _ ?rows] exI [of _ row]) (simp add: currentness_of_def)
    qed
  qed
qed

section \<open>The claim\<close>

lemma safe_i64_within: "n \<le> MAX_SAFE_INTEGER \<Longrightarrow> safe_i64 n k = Inr (uint n)"
  by (simp add: safe_i64_ok)

lemma request_bounds:
  "validate_claim_request q = Inr u \<Longrightarrow>
   cq_maximum_snapshot_age_ms q \<le> MAX_SAFE_INTEGER \<and> cq_expected_snapshot_version q \<le> MAX_SAFE_INTEGER"
  by (auto simp: validate_claim_request_ok MAX_SAFE_INTEGER_def intro: order_trans)

lemma free_claim_inserts:
  assumes q: "validate_claim_request q = Inr ()"
    and "(i, raw) \<in> set (db_chains db)" "rc_grant_hash raw = as_str h"
    and "row \<in> set (db_currentness db)" "kr_key row = cq_currentness_key q"
    and "row_holder cl_grant_hash db (as_str h) = None" and "row_holder cl_attempt_id db (cq_attempt_id q) = None"
  shows "insert_claim (row_of_claim (claim_result h q now)) (at_time now db)
    = Inr ((at_time now db)\<lparr>db_claims := db_claims db @ [row_of_claim (claim_result h q now)]\<rparr>)"
  using assms
  by (auto simp: insert_claim_def constrained_def claim_check_def row_of_claim_def claim_result_def
      row_holder_def find_None_iff list_ex_iff validate_claim_request_ok word_less_def intro!: bexI)

lemma claim_succeeds:
  assumes q: "validate_claim_request q = Inr ()" and now: "now \<le> MAX_SAFE_INTEGER" "clock_allows db now"
    and raw: "chain_by_id db (eg_grant_id g) = Some raw" "decode_chain L raw = Inr chain" "sc_grant chain = g"
    and row: "currentness_of db (cq_currentness_key q) = Some row"
      "decode_currentness (cq_currentness_key q) row = Inr s"
    and current: "claim_currentness chain s q now = Inr ()"
    and free: "row_holder cl_grant_hash db (as_str (sc_grant_hash chain)) = None"
      "row_holder cl_attempt_id db (cq_attempt_id q) = None"
  shows "sql_claim L no_faults g q now db
    = (Inr (claim_result (sc_grant_hash chain) q now),
       (at_time now db)\<lparr>db_claims := db_claims db @ [row_of_claim (claim_result (sc_grant_hash chain) q now)]\<rparr>)"
proof -
  let ?c = "claim_result (sc_grant_hash chain) q now"
  note chain = decode_chain_ok [OF raw(2)]
  note safe = safe_i64_within [OF now(1)] safe_i64_within [OF request_bounds [OF q, THEN conjunct1]]
    safe_i64_within [OF request_bounds [OF q, THEN conjunct2]]
  have "insert_claim (row_of_claim ?c) (at_time now db)
      = Inr ((at_time now db)\<lparr>db_claims := db_claims db @ [row_of_claim ?c]\<rparr>)"
    using chain lookup_key(2) [OF raw(1)] lookup_key(3) [OF row(1)] by (intro free_claim_inserts [OF q _ _ _ _ free]) auto
  then have ins: "execute_claim no_faults (row_of_claim ?c) (at_time now db)
      = Inr ((at_time now db)\<lparr>db_claims := db_claims db @ [row_of_claim ?c]\<rparr>)" by (simp add: execute_claim_ok)
  have found: "load_chain_by_grant_id L no_faults (eg_grant_id g) db = Inr (Some chain)"
    "load_currentness no_faults (cq_currentness_key q) db = Inr (Some s)"
    using raw row by (simp_all add: load_Some)
  have "claim_inputs L g q now = Inr (sc_grant_hash chain)"
    using q chain raw(3) by (simp add: claim_inputs_def safe)
  moreover have "check_clock no_faults (uint now) db = Inr ()"
    using now(2) by (simp add: check_clock_ok clock_allows_def)
  then have "claim_body L no_faults g q now (sc_grant_hash chain) db
      = Inr (?c, (at_time now db)\<lparr>db_claims := db_claims db @ [row_of_claim ?c]\<rparr>)"
    using found chain raw(3) current ins [unfolded row_of_claim_def claim_result_def]
    by (simp add: claim_body_def safe execute_def update_last_time_def)
       (simp add: claim_result_def row_of_claim_def)
  ultimately show ?thesis by (simp add: sql_claim_def before_def transact_def)
qed

lemma decode_claimed:
  assumes "validate_claim_request q = Inr ()" and "now \<le> MAX_SAFE_INTEGER" and "digest_ok h"
  shows "decode_claim (as_str h) (row_of_claim (claim_result h q now)) = Inr (claim_result h q now)"
  using assms request_bounds [OF assms(1)] by (simp add: decode_claim_ok row_of_claim_def claim_result_def)

lemma registered_row:
  assumes L: "conforming L" and "verify_grant L c p d g = Inr h"
  shows "\<exists>row. register_row L c p d g = Inr (h, row) \<and> rc_grant_hash row = as_str h"
proof -
  obtain v where v: "verify_authorization L c p d g = Inr v" using assms(2) by (auto simp: verify_grant_ok)
  then have com: "tc_commitment L c = Inr (va_commitment_hash v)" "ep_commitment L p = Inr (va_proposal_hash v)"
    "ad_commitment L d = Inr (va_decision_hash v)" "eg_commitment L g = Inr (va_grant_hash v)"
    by (simp_all add: verify_authorization_ok verify_decision_ok)
  then have "tc_validate c = Inr ()" "ep_validate p = Inr ()" "ad_validate d = Inr ()" "eg_validate g = Inr ()"
    using commitment_okD [OF L] by blast+
  then obtain a b e f where "canonical_json L (tc_value c) = Inr a" "canonical_json L (ep_value p) = Inr b"
    "canonical_json L (ad_value d) = Inr e" "canonical_json L (eg_value g) = Inr f"
    using tc.valid_canonical ep.valid_canonical ad.valid_canonical eg.valid_canonical
      quote_conforms_quotes L unfolding conforming_def by meson
  then show ?thesis using assms(2) com by (simp add: register_row_def)
qed

section \<open>The dispatch marker\<close>

lemma mark_succeeds:
  assumes s: "schema_ok db" and a: "store_validate_text ''attempt_id'' a 256 = Inr ()"
    and t: "t \<le> MAX_SAFE_INTEGER" "clock_allows db t"
    and row: "claim_of db (as_str h) = Some row" "decode_claim (as_str h) row = Inr claim"
      "dc_attempt_id claim = a" "dc_dispatch_started_at_ms claim = None" "dc_claimed_at_ms claim \<le> t"
    and raw: "chain_by_hash db (as_str h) = Some raw" "decode_chain L raw = Inr chain"
      "t < eg_expires_at_ms (sc_grant chain)"
    and crow: "currentness_of db (dc_currentness_key claim) = Some crow"
      "decode_currentness (dc_currentness_key claim) crow = Inr snapshot"
    and current: "dispatch_currentness chain snapshot claim t = Inr ()"
  shows "\<exists>rows. mark_dispatch_started L no_faults h a t db
      = (Inr \<lparr>dm_grant_hash = h, dm_attempt_id = a, dm_dispatched_at_ms = t\<rparr>,
         (at_time t db)\<lparr>db_claims := rows\<rparr>)
    \<and> claim_of ((at_time t db)\<lparr>db_claims := rows\<rparr>) (as_str h)
      = Some (row\<lparr>cl_dispatch_started_at_ms := Some (uint t)\<rparr>)"
proof -
  let ?f = "\<lambda>r. if cl_grant_hash r = as_str h \<and> cl_attempt_id r = a \<and> cl_dispatch_started_at_ms r = None
    then r\<lparr>cl_dispatch_started_at_ms := Some (uint t)\<rparr> else r"
  let ?db = "(at_time t db)\<lparr>db_claims := map ?f (db_claims db)\<rparr>"
  have "r = row" if "r \<in> set (db_claims db)" "cl_grant_hash r = as_str h" for r
    using claim_of_unique [OF s that(1)] that(2) row(1) by simp
  moreover have "list_all claim_check (db_claims db)" using s by (simp add: schema_defs)
  then have "claim_check row" using lookup_key(4) [OF row(1)] by (simp add: list_all_iff)
  ultimately have upd: "update_claims (\<lambda>r. cl_grant_hash r = as_str h \<and> cl_attempt_id r = a
      \<and> cl_dispatch_started_at_ms r = None) (\<lambda>r. r\<lparr>cl_dispatch_started_at_ms := Some (uint t)\<rparr>) (at_time t db)
      = Inr ?db"
    using row(2-5)
    by (auto simp: update_claims_def constrained_def list_all_iff claims_update_guard_def claim_check_def
        decode_claim_ok word_le_def)
  have loads: "load_claim no_faults (as_str h) db = Inr (Some claim)"
    "load_chain_by_grant_hash L no_faults (as_str h) db = Inr (Some chain)"
    "load_currentness no_faults (dc_currentness_key claim) db = Inr (Some snapshot)"
    "check_clock no_faults (uint t) db = Inr ()"
    using row raw crow t(2) by (simp_all add: load_Some check_clock_ok clock_allows_def)
  have "mark_dispatch_started L no_faults h a t db
      = (Inr \<lparr>dm_grant_hash = h, dm_attempt_id = a, dm_dispatched_at_ms = t\<rparr>, ?db)"
    using row(3-5) raw(3) current upd
    by (simp add: mark_dispatch_started_def before_def mark_inputs_def a safe_i64_within [OF t(1)] transact_def
        mark_body_def Let_def loads execute_def update_last_time_def not_less not_le)
  moreover have "claim_of ?db (as_str h) = map_option ?f (claim_of db (as_str h))"
    unfolding claim_of_def by (simp, rule find_map_key) simp
  ultimately show ?thesis using row lookup_key(4) [OF row(1)]
    by (intro exI [of _ "map ?f (db_claims db)"]) (simp add: decode_claim_ok)
qed

section \<open>The receipt\<close>

text \<open>The claim of a reachable database lies in the window of the chain under its grant hash.\<close>

lemma stored_claim_window:
  assumes s: "schema_ok db" "stored_ok L db"
    and row: "claim_of db (as_str h) = Some row" "decode_claim (as_str h) row = Inr claim"
    and raw: "chain_by_hash db (as_str h) = Some raw" "decode_chain L raw = Inr chain"
  shows "sc_grant_hash chain = h \<and> eg_not_before_ms (sc_grant chain) \<le> dc_claimed_at_ms claim
    \<and> dc_claimed_at_ms claim < eg_expires_at_ms (sc_grant chain)"
proof -
  have h: "dc_grant_hash claim = h" using row(2) by (simp add: decode_claim_ok digest32.expand)
  have hash: "sc_grant_hash chain = h"
    using decode_chain_ok [OF raw(2)] lookup_key(1) [OF raw(1)] by (simp add: digest32.expand)
  from stored_okD(2) [OF s row(1)] row lookup_key(4) [OF row(1)] obtain ir other where
      other: "ir \<in> set (db_chains db)" "decode_chain L (snd ir) = Inr other" "sc_grant_hash other = h"
      "eg_not_before_ms (sc_grant other) \<le> dc_claimed_at_ms claim"
      "dc_claimed_at_ms claim < eg_expires_at_ms (sc_grant other)"
    by (auto simp: claim_row_ok_def h)
  from chain_by_hash_unique [OF s(1) other(1)] decode_chain_ok [OF other(2)] raw other(2,3)
  have "other = chain" by simp
  with other hash show ?thesis by simp
qed

lemma chain_accepts_receipt:
  assumes chain: "decode_chain L raw = Inr chain" and h: "er_grant_hash r = sc_grant_hash chain"
    and p: "ep_commitment L (sc_proposal chain) = Inr (er_proposal_hash r)"
    and window: "eg_not_before_ms (sc_grant chain) \<le> er_claimed_at_ms r"
      "er_claimed_at_ms r < eg_expires_at_ms (sc_grant chain)"
    and k: "er_commitment L r = Inr k"
  shows "\<exists>v. verify_chain L (sc_commitment chain) (sc_proposal chain) (sc_decision chain) (sc_grant chain) r
      = Inr v \<and> vc_receipt_hash v = k"
proof -
  obtain va where va: "verify_authorization L (sc_commitment chain) (sc_proposal chain) (sc_decision chain)
      (sc_grant chain) = Inr va" "va_grant_hash va = er_grant_hash r" "va_proposal_hash va = er_proposal_hash r"
    using decode_chain_ok [OF chain] h p
    by (auto simp: verify_grant_ok verify_authorization_ok verify_decision_ok)
  then have "verify_chain L (sc_commitment chain) (sc_proposal chain) (sc_decision chain) (sc_grant chain) r
      = Inr \<lparr>vc_commitment_hash = va_commitment_hash va, vc_proposal_hash = va_proposal_hash va,
             vc_decision_hash = va_decision_hash va, vc_grant_hash = va_grant_hash va, vc_receipt_hash = k\<rparr>"
    using window k by (cases va) (simp add: verify_chain_ok)
  then show ?thesis by auto
qed

lemma record_succeeds:
  assumes "conforming L" and "claim_of db (as_str (er_grant_hash r)) = Some row"
    and "decode_claim (as_str (er_grant_hash r)) row = Inr claim"
    and "dc_attempt_id claim = er_attempt_id r" "dc_claimed_at_ms claim = er_claimed_at_ms r"
    and "validate_dispatch_evidence r (dc_dispatch_started_at_ms claim) = Inr ()"
    and "chain_by_hash db (as_str (er_grant_hash r)) = Some raw" and "decode_chain L raw = Inr chain"
    and "verify_chain L (sc_commitment chain) (sc_proposal chain) (sc_decision chain) (sc_grant chain) r = Inr v"
    and "receipt_of db (as_str (er_grant_hash r)) = None"
    and "er_receipt_id r \<notin> re_receipt_id ` set (db_receipts db)"
    and "as_str (vc_receipt_hash v) \<notin> re_receipt_hash ` set (db_receipts db)" and "er_digests r"
  shows "\<exists>db' x. record_receipt L no_faults r db = (Inr (vc_receipt_hash v), db')
    \<and> receipt_of db' (as_str (er_grant_hash r)) = Some x \<and> decode_receipt L x = Inr r
    \<and> db_claims db' = db_claims db \<and> db_chains db' = db_chains db"
proof -
  from assms(9) have h: "er_commitment L r = Inr (vc_receipt_hash v)" by (simp add: verify_chain_ok)
  then have valid: "er_validate r = Inr ()" using commitment_okD(5) [OF assms(1)] by blast
  from assms(1) have "quotes L" by (simp add: conforming_def quote_conforms_quotes)
  from er.valid_canonical [OF this valid] obtain s where s: "canonical_json L (er_value r) = Inr s" by blast
  let ?x = "\<lparr>re_grant_hash = as_str (er_grant_hash r), re_receipt_id = er_receipt_id r,
    re_receipt_hash = as_str (vc_receipt_hash v), re_receipt_json = s\<rparr>"
  have "re_receipt_id y \<noteq> er_receipt_id r \<and> re_receipt_hash y \<noteq> as_str (vc_receipt_hash v)"
    if "y \<in> set (db_receipts db)" for y using that assms(11,12) by (metis imageI)
  then have "insert_receipt ?x db = Inr (db\<lparr>db_receipts := db_receipts db @ [?x]\<rparr>)"
    using assms(2,10) lookup_key(4) [OF assms(2)]
    by (auto simp: insert_receipt_def constrained_def list_ex_iff receipt_of_def find_None_iff)
  then have "record_receipt L no_faults r db = (Inr (vc_receipt_hash v), db\<lparr>db_receipts := db_receipts db @ [?x]\<rparr>)"
    using assms h valid s verify_chain_grant [OF assms(9)]
    by (simp add: record_receipt_def before_def receipt_inputs_def transact_def receipt_body_def Let_def load_clean)
  moreover have "receipt_of (db\<lparr>db_receipts := db_receipts db @ [?x]\<rparr>) (as_str (er_grant_hash r)) = Some ?x"
    using assms(10) by (simp add: receipt_of_def find_append_None)
  moreover have "decode_receipt L ?x = Inr r" by (rule decode_recorded [OF assms(1) h s assms(13)]) simp_all
  ultimately show ?thesis by auto
qed

text \<open>A valid receipt that reports the claim and its marker is recorded, and the lifecycle shows it.\<close>

lemma receipt_completes:
  assumes L: "conforming L" and db: "sql_reachable L db"
    and row: "claim_of db (as_str h) = Some row" "decode_claim (as_str h) row = Inr claim"
    and raw: "chain_by_hash db (as_str h) = Some raw" "decode_chain L raw = Inr chain"
    and r: "er_validate r = Inr ()" "er_digests r" "er_grant_hash r = h" "er_attempt_id r = dc_attempt_id claim"
      "er_claimed_at_ms r = dc_claimed_at_ms claim"
      "validate_dispatch_evidence r (dc_dispatch_started_at_ms claim) = Inr ()"
      "ep_commitment L (sc_proposal chain) = Inr (er_proposal_hash r)"
    and fresh: "receipt_of db (as_str h) = None" "er_receipt_id r \<notin> re_receipt_id ` set (db_receipts db)"
      "\<And>k. er_commitment L r = Inr k \<Longrightarrow> as_str k \<notin> re_receipt_hash ` set (db_receipts db)"
  shows "\<exists>k db' lc. record_receipt L no_faults r db = (Inr k, db')
    \<and> lifecycle_of L no_faults h db' = Inr lc \<and> lc_claim lc = Some claim \<and> lc_receipt lc = Some r"
proof -
  note s = sql_reachable_schema [OF db] sql_reachable_stored [OF db L]
  from L have "quotes L" by (simp add: conforming_def quote_conforms_quotes)
  then obtain k where k: "er_commitment L r = Inr k" using commitment_valid_iff(5) r(1) by blast
  from stored_claim_window [OF s row raw] obtain v where
      v: "verify_chain L (sc_commitment chain) (sc_proposal chain) (sc_decision chain) (sc_grant chain) r = Inr v"
      "vc_receipt_hash v = k"
    using chain_accepts_receipt [OF raw(2) _ r(7) _ _ k] r(3,5) by auto
  from record_succeeds [where db = db and row = row, OF L _ _ _ _ r(6) _ raw(2) v(1)] row raw(1) fresh(1,2)
    fresh(3) [OF k] r(2-5) v(2)
  obtain db' x where rec: "record_receipt L no_faults r db = (Inr k, db')"
    and x: "receipt_of db' (as_str h) = Some x" "decode_receipt L x = Inr r"
      "db_claims db' = db_claims db" "db_chains db' = db_chains db" by auto
  have reach: "sql_reachable L db'" using sql_next [OF db, of "SqlReceipt r" no_faults] r(2) rec by simp
  have "er_dispatched_at_ms r = dc_dispatch_started_at_ms claim" using r(6) by (auto simp: dispatch_evidence_ok)
  then have "\<not> overtaken L db' h" using x row by (auto simp: overtaken_def claim_of_def decode_claim_ok)
  moreover have "chain_by_hash db' (as_str h) \<noteq> None" using raw(1) x(4) by (simp add: chain_by_hash_def)
  ultimately obtain lc where lc: "lifecycle_of L no_faults h db' = Inr lc"
    using lifecycle_of_reachable(3) [OF sql_reachable_schema [OF reach]
        sql_reachable_stored [OF reach L]] by blast
  have "claim_of db' (as_str h) = Some row" using row(1) x(3) by (simp add: claim_of_def)
  with read_lifecycle_loads [OF lc] x row have "lc_claim lc = Some claim \<and> lc_receipt lc = Some r"
    by (simp add: load_clean)
  with rec lc show ?thesis by blast
qed

end
