(* ===== verification/Sqlite_Properties.thy ===== *)
theory Sqlite_Properties
  imports Sqlite_Fixtures Sqlite_Progress
begin

text \<open>
  The properties of \<open>SqliteEffectStore\<close>. A run is any sequence of calls, of any number of
  connections, each with any behaviour of the engine; reachable databases are those that runs
  produce from the schema script. The instances use the run of the fixtures.
\<close>

section \<open>Runs\<close>

text \<open>
  C4: Single use, over every sequence of calls with every behaviour of the engine: no two
  successful claims share a grant hash, no two share an attempt identifier, and the database
  holds every claim that was reported as won, whatever happens later.
\<close>

theorem sql_claims_single_use:
  fixes L :: lib
  defines "runs key ops \<equiv> run_wins (sql_step L) (row_won key) ops empty_database"
  shows "distinct (map fst (runs cl_grant_hash ops))
    \<and> distinct (map fst (runs cl_attempt_id ops))
    \<and> set (runs cl_grant_hash ops) \<subseteq>
        {(k, c). row_holder cl_grant_hash (final_state (sql_step L) ops empty_database) k = Some c}"
  unfolding runs_def
  using hash_use.wins_distinct [OF schema_ok_empty] attempt_use.wins_distinct [OF schema_ok_empty]
    hash_use.wins_hold [OF schema_ok_empty] by blast

text \<open>
  C20: The database only grows: after any further calls every chain, receipt and reconciliation
  row is still there, every claim is unchanged but for its first dispatch marker, every
  currentness row is the same or has a larger version, no smaller epoch or observation time
  and no revocation undone under the same epochs, and the trusted time has not gone back.
\<close>

theorem sql_append_only:
  "db_extends (final_state (sql_step L) ops empty_database)
     (final_state (sql_step L) (ops @ later) empty_database)"
proof -
  have "final_state (sql_step L) (ops @ later) db = final_state (sql_step L) later (final_state (sql_step L) ops db)"
    for db by (induction ops arbitrary: db) simp_all
  then show ?thesis using sq.extends_run [OF sq.invar_run [OF schema_ok_empty]] by simp
qed

text \<open>
  C6: Every claim row of a reachable database is a claim of a stored, verified chain, claimed
  and marked inside the grant's window; every receipt row decodes to a receipt of the winning
  attempt that \<open>verify_chain\<close> accepts and whose dispatch time, if any, is the stored marker;
  and its reconciliation rows decode, in order, to one verified history.
\<close>

theorem sql_rows_verified:
  assumes "conforming L" and "sql_reachable L db"
  shows "schema_ok db \<and> (\<forall>cl \<in> set (db_claims db). claim_row_ok L db cl)
    \<and> (\<forall>x \<in> set (db_receipts db). receipt_row_ok L db x \<and> history_row_ok L db x)"
  using sql_reachable_schema [OF assms(2)] sql_reachable_stored [OF assms(2,1)]
  by (simp add: stored_ok_def list_all_iff)

theorem sql_rows_verified_witness:
  "receipt_row_ok ref_lib fx_db5 (receipt_row_of fx_er er_hash)"
  using sql_rows_verified [OF conforming_ref_lib fx_sql_reachable(5)] by (simp add: fx_db5_def)

section \<open>Claims\<close>

text \<open>
  C21: The exact condition under which a claim succeeds, on any database and without engine
  faults: the request is valid, the clock has not gone back, the stored chain decodes to a
  verified chain with exactly the supplied grant, the committed currentness snapshot is fresh,
  is the expected version and agrees with the task and the proposal, the time is inside the
  grant's window, and neither the grant nor the attempt identifier has been used.
\<close>

theorem sql_claim_succeeds_iff:
  "(\<exists>c db'. sql_claim L no_faults g q now db = (Inr c, db')) \<longleftrightarrow>
     validate_claim_request q = Inr () \<and> now \<le> MAX_SAFE_INTEGER \<and> clock_allows db now
     \<and> (\<exists>chain s. load_chain_by_grant_id L no_faults (eg_grant_id g) db = Inr (Some chain)
          \<and> sc_grant chain = g
          \<and> load_currentness no_faults (cq_currentness_key q) db = Inr (Some s)
          \<and> cu_observed_at_ms s \<le> now
          \<and> now - cu_observed_at_ms s \<le> cq_maximum_snapshot_age_ms q
          \<and> cu_version s = cq_expected_snapshot_version q
          \<and> cq_expected_audience q = eg_audience g
          \<and> cu_policy_epoch s = tc_policy_epoch (sc_commitment chain)
          \<and> cu_configuration_epoch s = tc_configuration_epoch (sc_commitment chain)
          \<and> cu_pre_state_digest s = ep_pre_state_digest (sc_proposal chain)
          \<and> cu_resource_claim_digest s = ep_resource_claim_digest (sc_proposal chain)
          \<and> \<not> cu_revoked s
          \<and> eg_not_before_ms g \<le> now \<and> now < eg_expires_at_ms g
          \<and> row_holder cl_grant_hash db (as_str (sc_grant_hash chain)) = None
          \<and> row_holder cl_attempt_id db (cq_attempt_id q) = None)"
  (is "?ok \<longleftrightarrow> ?v \<and> ?m \<and> ?t \<and> (\<exists>chain s. ?c chain s)")
proof
  assume ?ok
  then obtain c db' where claim: "sql_claim L no_faults g q now db = (Inr c, db')" by blast
  have won: "row_won key (no_faults, SqlClaim g q now)
      (fst (sql_step L (no_faults, SqlClaim g q now) db)) = Some (key (row_of_claim c), row_of_claim c)"
    for key by (simp add: claim)
  from claim_okD [OF claim] obtain raw chain row s where
      c: "c = claim_result (sc_grant_hash chain) q now" and "?v" "?m" "?t"
    and "chain_by_id db (eg_grant_id g) = Some raw" "decode_chain L raw = Inr chain" "sc_grant chain = g"
    and "currentness_of db (cq_currentness_key q) = Some row"
      "decode_currentness (cq_currentness_key q) row = Inr s"
    and "claim_currentness chain s q now = Inr ()" by auto
  then have "?c chain s"
    using row_won_key(1) [OF claim_keys(1) won] row_won_key(1) [OF claim_keys(2) won]
    by (auto simp: load_Some claim_currentness_ok c row_of_claim_def claim_result_def)
  with \<open>?v\<close> \<open>?m\<close> \<open>?t\<close> show "?v \<and> ?m \<and> ?t \<and> (\<exists>chain s. ?c chain s)" by blast
next
  assume asm: "?v \<and> ?m \<and> ?t \<and> (\<exists>chain s. ?c chain s)"
  then obtain chain s where c: "?c chain s" and v: ?v and m: ?m and t: ?t by blast
  from c obtain raw row where raw: "chain_by_id db (eg_grant_id g) = Some raw" "decode_chain L raw = Inr chain"
    and row: "currentness_of db (cq_currentness_key q) = Some row"
      "decode_currentness (cq_currentness_key q) row = Inr s" by (auto simp: load_Some)
  have cur: "claim_currentness chain s q now = Inr ()" using c by (simp add: claim_currentness_ok)
  have g: "sc_grant chain = g" "row_holder cl_grant_hash db (as_str (sc_grant_hash chain)) = None"
    "row_holder cl_attempt_id db (cq_attempt_id q) = None" using c by simp_all
  from claim_succeeds [OF v m t raw g(1) row cur g(2,3)] show ?ok by blast
qed

theorem sql_claim_succeeds_iff_witness:
  "clock_allows fx_db2 4000 \<and> row_holder cl_attempt_id fx_db2 ''attempt-1'' = None"
proof -
  have "\<exists>c db'. sql_claim ref_lib no_faults fx_eg fx_claim_request 4000 fx_db2 = (Inr c, db')"
    using fx_sql_claim by blast
  from this [unfolded sql_claim_succeeds_iff] show ?thesis
    by (elim conjE exE) (simp add: fx_claim_request_def)
qed

section \<open>The dispatch marker\<close>

text \<open>
  C7: A call of \<open>mark_dispatch_started\<close> that changes the database writes the marker into the
  unmarked claim of the named attempt, not before the claim and before the grant of the stored
  chain expires, while the currentness that the database holds for the key of the claim is still
  the version that was claimed, not older than the claim allows, not revoked, and in agreement
  with the task and the proposal of the stored chain, and while the clock has not gone back.
\<close>

theorem sql_dispatch_guarded:
  assumes "mark_dispatch_started L eng h a t db = (Inr m, db')" and "db' \<noteq> db"
  shows "\<exists>cl claim (chain :: stored_chain) (s :: currentness_snapshot).
    m = \<lparr>dm_grant_hash = h, dm_attempt_id = a, dm_dispatched_at_ms = t\<rparr>
    \<and> claim_of db (as_str h) = Some cl \<and> decode_claim (as_str h) cl = Inr claim
    \<and> dc_attempt_id claim = a \<and> dc_dispatch_started_at_ms claim = None
    \<and> claim_of db' (as_str h) = Some (cl\<lparr>cl_dispatch_started_at_ms := Some (uint t)\<rparr>)
    \<and> db_last_time db' = Some (Some (uint t)) \<and> clock_allows db t
    \<and> load_chain_by_grant_hash L no_faults (as_str h) db = Inr (Some chain)
    \<and> sc_grant_hash chain = h
    \<and> verify_grant L (sc_commitment chain) (sc_proposal chain) (sc_decision chain) (sc_grant chain) = Inr h
    \<and> load_currentness no_faults (dc_currentness_key claim) db = Inr (Some s)
    \<and> dc_claimed_at_ms claim \<le> t \<and> t < eg_expires_at_ms (sc_grant chain)
    \<and> cu_key s = dc_currentness_key claim \<and> cu_version s = dc_snapshot_version claim
    \<and> cu_observed_at_ms s \<le> t \<and> t - cu_observed_at_ms s \<le> dc_maximum_snapshot_age_ms claim
    \<and> cu_policy_epoch s = tc_policy_epoch (sc_commitment chain)
    \<and> cu_configuration_epoch s = tc_configuration_epoch (sc_commitment chain)
    \<and> cu_pre_state_digest s = ep_pre_state_digest (sc_proposal chain)
    \<and> cu_resource_claim_digest s = ep_resource_claim_digest (sc_proposal chain)
    \<and> \<not> cu_revoked s"
proof -
  from mark_okD [OF assms(1)] assms(2) obtain cl claim raw chain crow s where
      m: "m = \<lparr>dm_grant_hash = h, dm_attempt_id = a, dm_dispatched_at_ms = t\<rparr>"
    and cl: "claim_of db (as_str h) = Some cl" "decode_claim (as_str h) cl = Inr claim"
      "dc_attempt_id claim = a" "dc_claimed_at_ms claim \<le> t" "dc_dispatch_started_at_ms claim = None"
    and clock: "clock_allows db t"
    and raw: "chain_by_hash db (as_str h) = Some raw" "decode_chain L raw = Inr chain"
      "t < eg_expires_at_ms (sc_grant chain)"
    and s: "currentness_of db (dc_currentness_key claim) = Some crow"
      "decode_currentness (dc_currentness_key claim) crow = Inr s"
      "dispatch_currentness chain s claim t = Inr ()"
    and upd: "mark_row h a t (at_time t db) = Inr db'" by blast
  from s(3) have cur: "cu_version s = dc_snapshot_version claim" "cu_observed_at_ms s \<le> t"
    "t - cu_observed_at_ms s \<le> dc_maximum_snapshot_age_ms claim"
    "cu_policy_epoch s = tc_policy_epoch (sc_commitment chain)"
    "cu_configuration_epoch s = tc_configuration_epoch (sc_commitment chain)"
    "cu_pre_state_digest s = ep_pre_state_digest (sc_proposal chain)"
    "cu_resource_claim_digest s = ep_resource_claim_digest (sc_proposal chain)" "\<not> cu_revoked s"
    unfolding dispatch_currentness_def validate_currentness_age_def checks_ok
    by (simp_all add: ok_iff not_less)
  have hash: "sc_grant_hash chain = h"
    using decode_chain_ok [OF raw(2)] lookup_key(1) [OF raw(1)] by (simp add: digest32.expand)
  have none: "cl_dispatch_started_at_ms cl = None" using cl by (auto simp: decode_claim_ok)
  obtain cl' where cl': "claim_of db' (as_str h) = Some cl'" "cl_dispatch_started_at_ms cl' = Some (uint t)"
    "cl = cl'\<lparr>cl_dispatch_started_at_ms := None\<rparr> \<or> cl = cl'"
    using mark_leaves_marker [OF assms(1)] cl(1) by auto
  with none have "claim_of db' (as_str h) = Some (cl\<lparr>cl_dispatch_started_at_ms := Some (uint t)\<rparr>)"
    by (auto simp: cl'(2) [symmetric])
  moreover have "db_last_time db' = Some (Some (uint t))"
    using mark_row_ok [OF upd] clock by (auto simp: clock_allows_def)
  moreover have "cu_key s = dc_currentness_key claim" using s(2) by (simp add: decode_currentness_ok)
  moreover have "verify_grant L (sc_commitment chain) (sc_proposal chain) (sc_decision chain)
      (sc_grant chain) = Inr h" using decode_chain_ok [OF raw(2)] hash by simp
  moreover have "load_chain_by_grant_hash L no_faults (as_str h) db = Inr (Some chain)"
    "load_currentness no_faults (dc_currentness_key claim) db = Inr (Some s)"
    using raw(1,2) s(1,2) by (simp_all add: load_Some)
  moreover note m cl clock hash raw(3) cur
  ultimately show ?thesis by blast
qed

theorem sql_dispatch_guarded_witness:
  "\<exists>cl claim chain s. claim_of fx_db3 (as_str eg_hash) = Some cl \<and> decode_claim (as_str eg_hash) cl = Inr claim
     \<and> claim_of fx_db4 (as_str eg_hash) = Some (cl\<lparr>cl_dispatch_started_at_ms := Some 4100\<rparr>)
     \<and> load_chain_by_grant_hash ref_lib no_faults (as_str eg_hash) fx_db3 = Inr (Some chain)
     \<and> load_currentness no_faults (dc_currentness_key claim) fx_db3 = Inr (Some s)
     \<and> cu_version s = dc_snapshot_version claim \<and> \<not> cu_revoked s
     \<and> 4100 < eg_expires_at_ms (sc_grant chain)"
proof -
  have "db_last_time fx_db4 \<noteq> db_last_time fx_db3" by (simp add: fx_db4_def fx_db3_def)
  then have "fx_db4 \<noteq> fx_db3" by auto
  have time: "uint (4100 :: u64) = 4100" by simp
  from sql_dispatch_guarded [OF fx_mark(1) \<open>fx_db4 \<noteq> fx_db3\<close>, unfolded time]
  obtain cl claim chain s where "claim_of fx_db3 (as_str eg_hash) = Some cl" "decode_claim (as_str eg_hash) cl = Inr claim"
    "claim_of fx_db4 (as_str eg_hash) = Some (cl\<lparr>cl_dispatch_started_at_ms := Some 4100\<rparr>)"
    "load_chain_by_grant_hash ref_lib no_faults (as_str eg_hash) fx_db3 = Inr (Some chain)"
    "load_currentness no_faults (dc_currentness_key claim) fx_db3 = Inr (Some s)"
    "cu_version s = dc_snapshot_version claim" "\<not> cu_revoked s" "4100 < eg_expires_at_ms (sc_grant chain)"
    by (elim exE conjE) (rule that)
  then show ?thesis by (intro exI [of _ cl] exI [of _ claim] exI [of _ chain] exI [of _ s]) simp
qed

text \<open>
  C18: After a successful mark every later successful mark for the same grant, whatever happens
  in between, is by the same attempt and at the same time, and changes nothing.
\<close>

theorem sql_single_dispatch:
  assumes "schema_ok db" and "mark_dispatch_started L eng h a t db = (Inr m, db1)"
    and "mark_dispatch_started L eng' h a' t' (final_state (sql_step L) ops db1) = (Inr m', db2)"
  shows "a' = a \<and> t' = t \<and> m' = m \<and> db2 = final_state (sql_step L) ops db1"
proof -
  let ?db = "final_state (sql_step L) ops db1"
  have s1: "schema_ok db1" using sql_ops_evolve(4) [OF assms(1,2)] by (simp add: evolves_def)
  from mark_leaves_marker [OF assms(2)] obtain cl where cl: "claim_of db1 (as_str h) = Some cl"
      "cl_attempt_id cl = a" "cl_dispatch_started_at_ms cl = Some (uint t)" by blast
  from claim_of_extends [OF sq.extends_run [OF s1] cl(1)] cl(3)
  have "claim_of ?db (as_str h) = Some cl" by (auto simp: claim_kept_def)
  moreover from mark_leaves_marker [OF assms(3)] obtain cl2 where
      "cl_attempt_id cl2 = a'" "cl_dispatch_started_at_ms cl2 = Some (uint t')"
      "claim_of ?db (as_str h) = Some (cl2\<lparr>cl_dispatch_started_at_ms := None\<rparr>)
       \<or> claim_of ?db (as_str h) = Some cl2 \<and> db2 = ?db" by blast
  moreover have "cl2\<lparr>cl_dispatch_started_at_ms := None\<rparr> \<noteq> cl" using cl(3) by auto
  ultimately have "cl2 = cl \<and> db2 = ?db" by (metis option.inject)
  then have "a' = a \<and> t' = t \<and> db2 = ?db"
    using cl \<open>cl_attempt_id cl2 = a'\<close> \<open>cl_dispatch_started_at_ms cl2 = Some (uint t')\<close>
    by (simp add: word_uint_eq_iff)
  moreover from this mark_okD [OF assms(3)] mark_okD [OF assms(2)] have "m' = m" by blast
  ultimately show ?thesis by blast
qed

theorem sql_single_dispatch_witness:
  "snd (mark_dispatch_started ref_lib no_faults eg_hash ''attempt-1'' 4100 fx_db4) = fx_db4"
proof -
  have again: "mark_dispatch_started ref_lib no_faults eg_hash ''attempt-1'' 4100
      (final_state (sql_step ref_lib) [] fx_db4) = (Inr fx_marker, fx_db4)"
    using fx_claim_loaded(3)
    by (simp add: mark_dispatch_started_def before_def mark_inputs_def store_validate_text_def text_eval
        safe_i64_def transact_def mark_body_def Let_def fx_marked_claim_def fx_durable_def claim_result_def
        fx_claim_request_def fx_marker_def)
  from sql_single_dispatch [OF sql_reachable_schema [OF fx_sql_reachable(3)] fx_mark(1) again] again
  show ?thesis by simp
qed

section \<open>Reading back\<close>

lemma fx_sql_lifecycle:
  "\<exists>lc. lifecycle_of ref_lib no_faults eg_hash fx_db5 = Inr lc \<and> lc_receipt lc = Some fx_er"
  "\<exists>lc. lifecycle_of ref_lib no_faults eg_hash fx_db3n = Inr lc \<and> lc_receipt lc = Some fx_nd"
proof -
  have "\<not> overtaken ref_lib fx_db5 eg_hash"
    by (simp add: overtaken_def fx_receipts fx_decode_receipt fx_dispatch_times)
  moreover have "chain_by_hash fx_db5 (as_str eg_hash) = Some fx_row"
    by (simp add: chain_by_hash_def fx_db_defs fx_row_def)
  ultimately obtain lc where lc: "lifecycle_of ref_lib no_faults eg_hash fx_db5 = Inr lc"
    using lifecycle_of_reachable(3) [OF sql_reachable_schema [OF fx_sql_reachable(5)]
      sql_reachable_stored [OF fx_sql_reachable(5) conforming_ref_lib], of eg_hash] by auto
  with read_lifecycle_loads [OF lc] show "\<exists>lc. lifecycle_of ref_lib no_faults eg_hash fx_db5 = Inr lc
      \<and> lc_receipt lc = Some fx_er" by (simp add: load_clean fx_receipts fx_decode_receipt)
next
  have "\<not> overtaken ref_lib fx_db3n eg_hash"
    by (simp add: overtaken_def fx_lookups row_of_claim_def fx_durable_def claim_result_def)
  with lifecycle_of_reachable(3) [OF sql_reachable_schema [OF fx_sql_reachable(6)]
      sql_reachable_stored [OF fx_sql_reachable(6) conforming_ref_lib], of eg_hash]
  obtain lc where lc: "lifecycle_of ref_lib no_faults eg_hash fx_db3n = Inr lc"
    by (auto simp: fx_lookups)
  with read_lifecycle_loads [OF lc] show "\<exists>lc. lifecycle_of ref_lib no_faults eg_hash fx_db3n = Inr lc
      \<and> lc_receipt lc = Some fx_nd" by (simp add: load_clean fx_receipts fx_decode_receipt)
qed

text \<open>
  C22: Whatever the database holds, and even if other connections write between the four
  queries, a lifecycle that \<open>lifecycle\<close> returns belongs to a chain that \<open>verify_grant\<close>
  accepts with the requested hash, its receipt is a receipt of that chain, made by the claim it
  returns with the dispatch time of the claim's marker, and every reconciliation record it
  returns passes \<open>verify_reconciliation\<close> after the one before it.
\<close>

theorem sql_lifecycle_verified:
  assumes "read_lifecycle L eng h db1 db2 db3 db4 = Inr lc"
  shows "lc_grant_hash lc = h
    \<and> (\<exists>c p d g. verify_grant L c p d g = Inr h
         \<and> (case lc_receipt lc of
              None \<Rightarrow> lc_reconciliations lc = []
            | Some r \<Rightarrow> (\<exists>v. verify_chain L c p d g r = Inr v)
                \<and> (\<exists>claim. lc_claim lc = Some claim \<and> dc_grant_hash claim = h
                     \<and> dc_attempt_id claim = er_attempt_id r \<and> dc_claimed_at_ms claim = er_claimed_at_ms r
                     \<and> dc_dispatch_started_at_ms claim = er_dispatched_at_ms r)
                \<and> (let rs = lc_reconciliations lc in
                   \<forall>i < length rs. \<exists>k. verify_reconciliation L r
                     (if i = 0 then None else Some (rs ! (i - 1))) (rs ! i) = Inr k)))"
  using read_lifecycle_okD [OF assms] by (simp add: verify_rows_ok Let_def cong: option.case_cong)

theorem sql_lifecycle_verified_witness:
  "\<exists>lc claim. lifecycle_of ref_lib no_faults eg_hash fx_db5 = Inr lc \<and> lc_claim lc = Some claim
     \<and> dc_attempt_id claim = er_attempt_id fx_er \<and> dc_dispatch_started_at_ms claim = Some 4100"
proof -
  from fx_sql_lifecycle(1) obtain lc where lc: "lifecycle_of ref_lib no_faults eg_hash fx_db5 = Inr lc"
    "lc_receipt lc = Some fx_er" by blast
  from sql_lifecycle_verified [OF lc(1)] lc show ?thesis by (auto simp: fx_dispatch_times)
qed

text \<open>
  On a reachable database, without engine faults and with no writer between the queries,
  \<open>lifecycle\<close> fails for an unregistered grant and for a grant whose claim was marked as
  dispatched after a receipt without dispatch was recorded, and for no other reason; it returns
  a claim exactly if there is a claim row, and a receipt exactly if there is a receipt row.
\<close>

theorem sql_lifecycle_total:
  assumes "conforming L" and "sql_reachable L db"
  shows "case lifecycle_of L no_faults h db of
      Inl e \<Rightarrow> e = (if chain_by_hash db (as_str h) = None then SE_UnknownGrant
                  else SE_DispatchEvidenceMismatch)
        \<and> (chain_by_hash db (as_str h) = None \<or> overtaken L db h)
    | Inr lc \<Rightarrow> chain_by_hash db (as_str h) \<noteq> None \<and> \<not> overtaken L db h
        \<and> (lc_claim lc = None \<longleftrightarrow> claim_of db (as_str h) = None)
        \<and> (lc_receipt lc = None \<longleftrightarrow> receipt_of db (as_str h) = None)"
proof -
  note reach = lifecycle_of_reachable [OF sql_reachable_schema [OF assms(2)]
      sql_reachable_stored [OF assms(2,1)], of h]
  show ?thesis
  proof (cases "chain_by_hash db (as_str h) = None")
    case False
    with reach(2,3) show ?thesis by (cases "overtaken L db h") auto
  qed (use reach(1) in simp)
qed

theorem sql_lifecycle_total_witness:
  "\<exists>lc. lifecycle_of ref_lib no_faults eg_hash fx_db5 = Inr lc"
proof -
  have "chain_by_hash fx_db5 (as_str eg_hash) \<noteq> None"
    by (simp add: chain_by_hash_def fx_db_defs fx_row_def)
  moreover have "\<not> overtaken ref_lib fx_db5 eg_hash"
    by (simp add: overtaken_def fx_receipts fx_decode_receipt fx_dispatch_times)
  ultimately show ?thesis
    using sql_lifecycle_total [OF conforming_ref_lib fx_sql_reachable(5), of eg_hash]
    by (auto split: sum.splits)
qed

text \<open>
  The store accepts a dispatch marker after a receipt that reports that the effect was not
  dispatched. On a reachable database that holds such a receipt, which recording again
  confirms, \<open>mark_dispatch_started\<close> succeeds, so that its caller goes on to dispatch; from then
  on, whatever is called, the lifecycle of the grant can no longer be read.
\<close>

theorem sql_dispatch_after_not_dispatched:
  "\<exists>db db' r m. sql_reachable ref_lib db
     \<and> er_outcome r = NotDispatched
     \<and> (\<exists>lc. lifecycle_of ref_lib no_faults eg_hash db = Inr lc \<and> lc_receipt lc = Some r)
     \<and> mark_dispatch_started ref_lib no_faults eg_hash (er_attempt_id r) 4100 db = (Inr m, db')
     \<and> (\<forall>ops lc. lifecycle_of ref_lib no_faults eg_hash (final_state (sql_step ref_lib) ops db') \<noteq> Inr lc)"
proof -
  have mark: "mark_dispatch_started ref_lib no_faults eg_hash (er_attempt_id fx_nd) 4100 fx_db3n
      = (Inr fx_marker, fx_db4n)"
    using fx_mark(2) by (simp add: fx_nd_def) (simp add: fx_er_def)
  have "overtaken ref_lib fx_db4n eg_hash"
    by (simp add: overtaken_def fx_receipts fx_decode_receipt fx_dispatch_times)
       (simp add: claim_of_def fx_db4n_def fx_db4_def row_of_claim_def fx_marked_claim_def
        fx_durable_def claim_result_def)
  then have "lifecycle_of ref_lib no_faults eg_hash (final_state (sql_step ref_lib) ops fx_db4n) \<noteq> Inr lc"
    for ops lc
    by (rule overtaken_unreadable [OF overtaken_extends
          [OF sq.extends_run [OF sql_reachable_schema [OF fx_sql_reachable(7)]]]])
  then have never: "\<forall>ops lc. lifecycle_of ref_lib no_faults eg_hash
      (final_state (sql_step ref_lib) ops fx_db4n) \<noteq> Inr lc" by blast
  note facts = fx_sql_reachable(6) fx_dispatch_times(3) fx_sql_lifecycle(2) mark never
  show ?thesis
    by (rule exI [of _ fx_db3n], rule exI [of _ fx_db4n], rule exI [of _ fx_nd], rule exI [of _ fx_marker])
       (rule conjI [OF facts(1) conjI [OF facts(2) conjI [OF facts(3) conjI [OF facts(4,5)]]]])
qed

text \<open>
  \<open>lifecycle\<close> reads the claim and the receipt with separate statements outside a transaction.
  If another connection claims, marks and records between them, it reports a corrupt database,
  although each of the two databases is reachable and its own lifecycle is readable.
\<close>

lemma sql_lifecycle_between_writers:
  "read_lifecycle ref_lib no_faults eg_hash fx_db2 fx_db2 fx_db5 fx_db5 = Inl SE_Corrupt"
proof -
  have "claim_of fx_db2 (as_str eg_hash) = None" by (simp add: claim_of_def fx_db_defs)
  then show ?thesis
    using fx_verify_chain
    by (simp add: read_lifecycle_def load_clean fx_lookups fx_decode_chain fx_stored_chain_def
        fx_receipts fx_decode_receipt)
qed

section \<open>Receipts\<close>

abbreviation new_receipt_row :: "effect_receipt \<Rightarrow> digest32 \<Rightarrow> string \<Rightarrow> receipt_row" where
  "new_receipt_row r h json \<equiv> \<lparr>re_grant_hash = as_str (er_grant_hash r), re_receipt_id = er_receipt_id r,
     re_receipt_hash = as_str h, re_receipt_json = json\<rparr>"

lemma insert_receipt_iff:
  assumes "receipt_of db (as_str (er_grant_hash r)) = None" and "claim_of db (as_str (er_grant_hash r)) = Some row"
  shows "insert_receipt (new_receipt_row r h json) db = Inr db' \<longleftrightarrow>
    er_receipt_id r \<notin> re_receipt_id ` set (db_receipts db) \<and> as_str h \<notin> re_receipt_hash ` set (db_receipts db)
    \<and> db' = db\<lparr>db_receipts := db_receipts db @ [new_receipt_row r h json]\<rparr>"
  using assms lookup_key(4) [OF assms(2)]
  by (auto simp: insert_receipt_def constrained_def list_ex_iff receipt_of_def find_None_iff image_iff) metis+

lemma receipt_body_iff:
  assumes chain: "load_chain_by_grant_hash L no_faults (as_str (er_grant_hash r)) db = Inr (Some chain)"
    and v: "verify_chain L (sc_commitment chain) (sc_proposal chain) (sc_decision chain) (sc_grant chain) r = Inr v"
    and claim: "load_claim no_faults (as_str (er_grant_hash r)) db = Inr (Some claim)"
  shows "receipt_body L no_faults r h db = Inr (h, db') \<longleftrightarrow>
    dc_attempt_id claim = er_attempt_id r \<and> dc_claimed_at_ms claim = er_claimed_at_ms r
    \<and> validate_dispatch_evidence r (dc_dispatch_started_at_ms claim) = Inr ()
    \<and> (case load_receipt_by_grant L no_faults (as_str (er_grant_hash r)) db of
         Inl e \<Rightarrow> False
       | Inr (Some old) \<Rightarrow> er_commitment L old = Inr h \<and> db' = db
       | Inr None \<Rightarrow> \<exists>json. canonical_json L (er_value r) = Inr json
           \<and> insert_receipt (new_receipt_row r h json) db = Inr db')"
proof (cases "load_receipt_by_grant L no_faults (as_str (er_grant_hash r)) db")
  case (Inr found)
  with chain v claim verify_chain_grant [OF v] show ?thesis
    by (cases found) (auto simp: receipt_body_def Let_def rbind_ok ensure_ok map_err_ok)
qed (use chain v claim in \<open>auto simp: receipt_body_def Let_def rbind_ok\<close>)

lemma record_receipt_body:
  "record_receipt L no_faults r db = (Inr h, db') \<longleftrightarrow>
     er_commitment L r = Inr h \<and> receipt_body L no_faults r h db = Inr (h, db')"
proof -
  have "receipt_inputs L r = Inr x \<longleftrightarrow> er_commitment L r = Inr x" for x
    by (auto simp: receipt_inputs_def er_commitment_def trait_commitment_def rbind_ok map_err_ok)
  then show ?thesis
    using receipt_okD [of L no_faults r db h db']
    by (auto simp: record_receipt_def before_ok transact_ok)
qed

text \<open>
  C23: The exact condition under which a receipt is recorded, on any database and without engine
  faults, and its effect. The chain stored under the grant hash of the receipt accepts it, the
  stored claim is by the same attempt at the same time, the dispatch time and the outcome fit the
  stored marker; and either the same receipt is already there, and nothing changes, or no receipt
  is there and neither its identifier nor its hash is in use, and one row is added.
\<close>

theorem sql_receipt_recorded_iff:
  "record_receipt L no_faults r db = (Inr h, db') \<longleftrightarrow>
     er_commitment L r = Inr h
     \<and> (\<exists>chain v. load_chain_by_grant_hash L no_faults (as_str (er_grant_hash r)) db = Inr (Some chain)
          \<and> verify_chain L (sc_commitment chain) (sc_proposal chain) (sc_decision chain) (sc_grant chain) r = Inr v)
     \<and> (\<exists>claim. load_claim no_faults (as_str (er_grant_hash r)) db = Inr (Some claim)
          \<and> dc_attempt_id claim = er_attempt_id r \<and> dc_claimed_at_ms claim = er_claimed_at_ms r
          \<and> dc_dispatch_started_at_ms claim = er_dispatched_at_ms r
          \<and> (if dc_dispatch_started_at_ms claim = None then er_outcome r \<in> {NotDispatched, Unknown}
             else er_outcome r \<noteq> NotDispatched))
     \<and> (case load_receipt_by_grant L no_faults (as_str (er_grant_hash r)) db of
          Inl e \<Rightarrow> False
        | Inr (Some old) \<Rightarrow> er_commitment L old = Inr h \<and> db' = db
        | Inr None \<Rightarrow>
            er_receipt_id r \<notin> re_receipt_id ` set (db_receipts db)
            \<and> as_str h \<notin> re_receipt_hash ` set (db_receipts db)
            \<and> (\<exists>json. canonical_json L (er_value r) = Inr json
                 \<and> db' = db\<lparr>db_receipts := db_receipts db @
                     [\<lparr>re_grant_hash = as_str (er_grant_hash r), re_receipt_id = er_receipt_id r,
                       re_receipt_hash = as_str h, re_receipt_json = json\<rparr>]\<rparr>))"
proof (cases "\<exists>chain v claim. load_chain_by_grant_hash L no_faults (as_str (er_grant_hash r)) db = Inr (Some chain)
    \<and> verify_chain L (sc_commitment chain) (sc_proposal chain) (sc_decision chain) (sc_grant chain) r = Inr v
    \<and> load_claim no_faults (as_str (er_grant_hash r)) db = Inr (Some claim)")
  case False
  have "record_receipt L no_faults r db \<noteq> (Inr h, db')"
  proof
    assume "record_receipt L no_faults r db = (Inr h, db')"
    from receipt_okD [OF this] False show False by (auto simp: load_Some)
  qed
  with False show ?thesis by blast
next
  case True
  let ?k = "as_str (er_grant_hash r)"
  from True obtain chain v claim where loads: "load_chain_by_grant_hash L no_faults ?k db = Inr (Some chain)"
      "verify_chain L (sc_commitment chain) (sc_proposal chain) (sc_decision chain) (sc_grant chain) r = Inr v"
      "load_claim no_faults ?k db = Inr (Some claim)" by blast
  then obtain row where row: "claim_of db ?k = Some row" by (auto simp: load_Some)
  have "receipt_of db ?k = None" if "load_receipt_by_grant L no_faults ?k db = Inr None"
    using that by (auto simp: load_clean rbind_ok split: option.splits)
  with insert_receipt_iff [OF _ row] loads show ?thesis
    unfolding record_receipt_body receipt_body_iff [OF loads] dispatch_evidence_ok
    by (cases "load_receipt_by_grant L no_faults ?k db"; cases "er_outcome r") (auto split: option.splits if_splits)
qed

end
