(* ===== verification/Sqlite_Schema.thy ===== *)
theory Sqlite_Schema
  imports Sqlite_Operations
begin

text \<open>
  Opening a database, \<open>SqliteEffectStore::open\<close> and the functions it calls. The file is its
  pragmas, its journal mode, the objects of its schema and the data of the store; between any
  two statements other connections may change it, and every statement may fail. Those
  influences, and what SQLite answers about the connection's own settings, are the argument
  \<open>env\<close>. The journal mode is a setting of the file and stays there: \<open>PRAGMA journal_mode=WAL\<close>
  writes it (unless SQLite cannot, when the pragma leaves the mode as it is without an error).
  The other settings of the batch are settings of the connection.
\<close>

section \<open>The file and its surroundings\<close>

definition APPLICATION_ID :: int where "APPLICATION_ID = 0x45545031"

definition SCHEMA_VERSION :: int where "SCHEMA_VERSION = 1"

record schema_object =
  so_type :: string
  so_name :: string
  so_has_sql :: bool

record database_file =
  fl_user_version :: int
  fl_application_id :: int
  fl_journal_mode :: string
  fl_objects :: "schema_object list"
  fl_data :: database

datatype open_stmt =
  OpenConnection | BusyTimeout
| PreflightVersion | CountObjects | PreflightApplicationId
| SetForeignKeys | SetJournalMode | SetSynchronous | SetTrustedSchema | SetSecureDelete
| GetJournalMode | GetForeignKeys | GetSynchronous
| InitVersion | RunSchema | InitApplicationId | IntegrityCheck | FindObject string string

record surroundings =
  op_error :: "open_stmt \<Rightarrow> rusqlite_error option"
  op_others :: "open_stmt \<Rightarrow> database_file \<Rightarrow> database_file"
  op_enters_wal :: bool
  op_foreign_keys :: int
  op_synchronous :: int
  op_integrity :: "database_file \<Rightarrow> string"

section \<open>Statements\<close>

type_synonym 'a opener = "database_file \<Rightarrow> (store_error + 'a) \<times> database_file"

definition obind :: "'a opener \<Rightarrow> ('a \<Rightarrow> 'b opener) \<Rightarrow> 'b opener" where
  "obind m k f = (case m f of (Inl e, f') \<Rightarrow> (Inl e, f') | (Inr x, f') \<Rightarrow> k x f')"

definition checked :: "store_error + 'a \<Rightarrow> 'a opener" where
  "checked r f = (r, f)"

text \<open>A statement first sees what other connections did, then fails or has its own effect.\<close>

definition run_statement ::
    "surroundings \<Rightarrow> open_stmt \<Rightarrow> (database_file \<Rightarrow> rusqlite_error + 'a \<times> database_file) \<Rightarrow> 'a opener" where
  "run_statement env st run f =
     (let f' = op_others env st f in
      case op_error env st of
        Some e \<Rightarrow> (Inl (map_sqlite e), f')
      | None \<Rightarrow> (case run f' of Inl e \<Rightarrow> (Inl (map_sqlite e), f') | Inr (x, f'') \<Rightarrow> (Inr x, f'')))"

definition ask_file :: "surroundings \<Rightarrow> open_stmt \<Rightarrow> (database_file \<Rightarrow> 'a) \<Rightarrow> 'a opener" where
  "ask_file env st answer = run_statement env st (\<lambda>f. Inr (answer f, f))"

section \<open>The schema script\<close>

definition OBJECTS :: "(string \<times> string) list" where
  "OBJECTS =
     [(''table'', ''store_meta''), (''table'', ''currentness''), (''table'', ''authorization_chains''),
      (''table'', ''claims''), (''table'', ''receipts''), (''table'', ''reconciliations''),
      (''trigger'', ''authorization_chains_no_update''), (''trigger'', ''authorization_chains_no_delete''),
      (''trigger'', ''claims_update_guard''), (''trigger'', ''claims_no_delete''),
      (''trigger'', ''receipts_no_update''), (''trigger'', ''receipts_no_delete''),
      (''trigger'', ''reconciliations_no_update''), (''trigger'', ''reconciliations_no_delete'')]"

text \<open>
  The script is one transaction. It fails, and is rolled back with the connection, if an object
  of one of its names exists. The indexes that SQLite adds are left out: no statement here
  sees them.
\<close>

definition run_schema :: "database_file \<Rightarrow> rusqlite_error + unit \<times> database_file" where
  "run_schema f =
     (if list_ex (\<lambda>obj. so_name obj \<in> set (map snd OBJECTS)) (fl_objects f)
      then Inl (SqliteFailure OtherCode)
      else Inr ((), \<lparr>fl_user_version = 1, fl_application_id = 1163153457,
                     fl_journal_mode = fl_journal_mode f,
                     fl_objects = fl_objects f @ map (\<lambda>(t, n). \<lparr>so_type = t, so_name = n, so_has_sql = True\<rparr>) OBJECTS,
                     fl_data = empty_database\<rparr>))"

section \<open>Opening\<close>

text \<open>\<open>name NOT LIKE 'sqlite_%'\<close>: the comparison ignores case, and \<open>_\<close> stands for any character.\<close>

definition ascii_lower :: "char \<Rightarrow> char" where
  "ascii_lower c = (if CHR ''A'' \<le> c \<and> c \<le> CHR ''Z'' then char_of (of_char c + 32 :: nat) else c)"

definition like_sqlite :: "string \<Rightarrow> bool" where
  "like_sqlite name \<longleftrightarrow> 6 < length name \<and> map ascii_lower (take 6 name) = ''sqlite''"

definition preflight_schema :: "surroundings \<Rightarrow> unit opener" where
  "preflight_schema env =
     obind (ask_file env PreflightVersion fl_user_version) (\<lambda>version.
     if version = 0 then
       obind (ask_file env CountObjects (\<lambda>f. length (filter (\<lambda>obj. \<not> like_sqlite (so_name obj)) (fl_objects f)))) (\<lambda>count.
       checked (ensure (\<not> count \<noteq> 0) SE_ForeignDatabase))
     else
       obind (checked (ensure (\<not> version \<noteq> SCHEMA_VERSION) SE_IncompatibleSchema)) (\<lambda>_.
       obind (ask_file env PreflightApplicationId fl_application_id) (\<lambda>application_id.
       checked (ensure (\<not> application_id \<noteq> APPLICATION_ID) SE_IncompatibleSchema))))"

definition in_wal :: "database_file \<Rightarrow> database_file" where
  "in_wal f = f\<lparr>fl_journal_mode := ''wal''\<rparr>"

text \<open>The batch stops at the first statement that fails; what ran before stays done.\<close>

definition set_pragmas :: "surroundings \<Rightarrow> unit opener" where
  "set_pragmas env =
     obind (ask_file env SetForeignKeys (\<lambda>_. ())) (\<lambda>_.
     obind (run_statement env SetJournalMode (\<lambda>f. Inr ((), if op_enters_wal env then in_wal f else f))) (\<lambda>_.
     obind (ask_file env SetSynchronous (\<lambda>_. ())) (\<lambda>_.
     obind (ask_file env SetTrustedSchema (\<lambda>_. ())) (\<lambda>_.
     ask_file env SetSecureDelete (\<lambda>_. ())))))"

definition configure :: "surroundings \<Rightarrow> unit opener" where
  "configure env =
     obind (set_pragmas env) (\<lambda>_.
     obind (ask_file env GetJournalMode fl_journal_mode) (\<lambda>journal.
     obind (ask_file env GetForeignKeys (\<lambda>_. op_foreign_keys env)) (\<lambda>foreign_keys.
     obind (ask_file env GetSynchronous (\<lambda>_. op_synchronous env)) (\<lambda>synchronous.
     checked (ensure (\<not> (map ascii_lower journal \<noteq> ''wal'' \<or> foreign_keys \<noteq> 1 \<or> synchronous \<noteq> 2))
       SE_Unavailable)))))"

definition has_object :: "database_file \<Rightarrow> string \<Rightarrow> string \<Rightarrow> bool" where
  "has_object f object_type name \<longleftrightarrow>
     list_ex (\<lambda>obj. so_type obj = object_type \<and> so_name obj = name \<and> so_has_sql obj) (fl_objects f)"

fun verify_objects :: "surroundings \<Rightarrow> (string \<times> string) list \<Rightarrow> unit opener" where
  "verify_objects env [] = checked (Inr ())"
| "verify_objects env ((object_type, name) # rest) =
     obind (ask_file env (FindObject object_type name) (\<lambda>f. has_object f object_type name)) (\<lambda>found.
     obind (checked (ensure found SE_IncompatibleSchema)) (\<lambda>_. verify_objects env rest))"

definition verify_schema_objects :: "surroundings \<Rightarrow> unit opener" where
  "verify_schema_objects env = verify_objects env OBJECTS"

definition initialize_or_verify_schema :: "surroundings \<Rightarrow> unit opener" where
  "initialize_or_verify_schema env =
     obind (ask_file env InitVersion fl_user_version) (\<lambda>version.
     obind (if version = 0 then run_statement env RunSchema run_schema else checked (Inr ())) (\<lambda>_.
     obind (ask_file env InitApplicationId fl_application_id) (\<lambda>application_id.
     obind (checked (ensure (\<not> application_id \<noteq> APPLICATION_ID) SE_IncompatibleSchema)) (\<lambda>_.
     obind (ask_file env IntegrityCheck (op_integrity env)) (\<lambda>integrity.
     obind (checked (ensure (\<not> integrity \<noteq> ''ok'') SE_Corrupt)) (\<lambda>_.
     verify_schema_objects env))))))"

definition sql_open :: "surroundings \<Rightarrow> string \<Rightarrow> unit opener" where
  "sql_open env path =
     obind (checked (ensure (\<not> path = []) (SE_InvalidInput ''database path''))) (\<lambda>_.
     obind (ask_file env OpenConnection (\<lambda>_. ())) (\<lambda>_.
     obind (ask_file env BusyTimeout (\<lambda>_. ())) (\<lambda>_.
     obind (preflight_schema env) (\<lambda>_.
     obind (configure env) (\<lambda>_.
     initialize_or_verify_schema env)))))"

section \<open>What opening keeps\<close>

text \<open>A property of the file that a part of the work keeps, with any result.\<close>

definition keeps_file :: "(database_file \<Rightarrow> bool) \<Rightarrow> 'a opener \<Rightarrow> bool" where
  "keeps_file P m \<longleftrightarrow> (\<forall>f. P f \<longrightarrow> P (snd (m f)))"

definition others_keep :: "(database_file \<Rightarrow> bool) \<Rightarrow> surroundings \<Rightarrow> bool" where
  "others_keep P env \<longleftrightarrow> (\<forall>st f. P f \<longrightarrow> P (op_others env st f))"

lemma keeps_obind:
  assumes "keeps_file P m" and "\<And>x. keeps_file P (k x)"
  shows "keeps_file P (obind m k)"
  unfolding keeps_file_def
proof (intro allI impI)
  fix f assume "P f"
  obtain r f' where r: "m f = (r, f')" by fastforce
  with assms(1) \<open>P f\<close> have "P f'" by (metis keeps_file_def snd_conv)
  with assms(2) r show "P (snd (obind m k f))" by (cases r) (simp_all add: obind_def keeps_file_def)
qed

lemma keeps_check: "keeps_file P (checked r)"
  by (simp add: keeps_file_def checked_def)

lemma keeps_statement:
  assumes "others_keep P env" and "\<And>f x f'. P f \<Longrightarrow> run f = Inr (x, f') \<Longrightarrow> P f'"
  shows "keeps_file P (run_statement env st run)"
  unfolding keeps_file_def
proof (intro allI impI)
  fix f assume "P f"
  with assms(1) have "P (op_others env st f)" by (simp add: others_keep_def)
  with assms(2) show "P (snd (run_statement env st run f))"
    by (simp add: run_statement_def Let_def split: option.split sum.split prod.split)
qed

lemma keeps_ask: "others_keep P env \<Longrightarrow> keeps_file P (ask_file env st answer)"
  unfolding ask_file_def by (rule keeps_statement) auto

lemma keeps_objects: "others_keep P env \<Longrightarrow> keeps_file P (verify_objects env objs)"
  by (induction env objs rule: verify_objects.induct) (simp_all add: keeps_check keeps_obind keeps_ask)

lemma keeps_open:
  assumes "others_keep P env" and "\<And>f x f'. P f \<Longrightarrow> run_schema f = Inr (x, f') \<Longrightarrow> P f'"
    and "\<And>f. P f \<Longrightarrow> P (in_wal f)"
  shows "keeps_file P (sql_open env path)"
proof -
  have "keeps_file P (preflight_schema env)"
    unfolding preflight_schema_def
    by (auto intro!: keeps_obind keeps_check keeps_ask [OF assms(1)])
  moreover have "keeps_file P (configure env)"
    unfolding configure_def set_pragmas_def
    by (auto intro!: keeps_obind keeps_check keeps_ask [OF assms(1)] keeps_statement [OF assms(1)]
        dest: assms(3))
  moreover have "keeps_file P (initialize_or_verify_schema env)"
    unfolding initialize_or_verify_schema_def verify_schema_objects_def
    by (auto intro!: keeps_obind keeps_check keeps_ask [OF assms(1)] keeps_objects [OF assms(1)]
        keeps_statement [OF assms(1,2)])
  ultimately show ?thesis
    unfolding sql_open_def by (auto intro!: keeps_obind keeps_check keeps_ask [OF assms(1)])
qed

section \<open>Results\<close>

text \<open>Surroundings without faults and without other connections, with the settings accepted.\<close>

definition quiet_env :: "surroundings \<Rightarrow> bool" where
  "quiet_env env \<longleftrightarrow> (\<forall>st. op_error env st = None) \<and> (\<forall>st f. op_others env st f = f)
     \<and> op_enters_wal env \<and> op_foreign_keys env = 1
     \<and> op_synchronous env = 2 \<and> (\<forall>f. op_integrity env f = ''ok'')"

definition has_objects :: "database_file \<Rightarrow> bool" where
  "has_objects f \<longleftrightarrow> list_all (\<lambda>(t, n). has_object f t n) OBJECTS"

lemma quiet_ask: "quiet_env env \<Longrightarrow> ask_file env st answer f = (Inr (answer f), f)"
  by (simp add: ask_file_def run_statement_def quiet_env_def)

lemma quiet_objects:
  "quiet_env env \<Longrightarrow> verify_objects env objs f =
     (if list_all (\<lambda>(t, n). has_object f t n) objs then Inr () else Inl SE_IncompatibleSchema, f)"
  by (induction objs) (auto simp: obind_def checked_def quiet_ask ensure_def)

definition initialized :: "database_file \<Rightarrow> database_file" where
  "initialized f = \<lparr>fl_user_version = 1, fl_application_id = APPLICATION_ID,
     fl_journal_mode = fl_journal_mode f,
     fl_objects = fl_objects f @ map (\<lambda>(t, n). \<lparr>so_type = t, so_name = n, so_has_sql = True\<rparr>) OBJECTS,
     fl_data = empty_database\<rparr>"

lemma initialized_application: "fl_application_id (initialized f) = APPLICATION_ID"
  by (simp add: initialized_def)

lemma initialized_ok: "has_objects (initialized f)"
  by (force simp: has_objects_def initialized_def has_object_def list_all_iff list_ex_iff)

lemma objects_not_internal: "n \<in> snd ` set OBJECTS \<Longrightarrow> \<not> like_sqlite n"
  by (auto simp: OBJECTS_def like_sqlite_def ascii_lower_def)

lemma run_schema_new:
  assumes "\<forall>obj \<in> set (fl_objects f). like_sqlite (so_name obj)"
  shows "run_schema f = Inr ((), initialized f)"
  using assms objects_not_internal
  by (auto simp: run_schema_def initialized_def APPLICATION_ID_def list_ex_iff)

lemma quiet_preflight:
  "quiet_env env \<Longrightarrow> preflight_schema env f =
     (if fl_user_version f = 0
      then ensure (\<forall>obj \<in> set (fl_objects f). like_sqlite (so_name obj)) SE_ForeignDatabase
      else ensure (fl_user_version f = SCHEMA_VERSION \<and> fl_application_id f = APPLICATION_ID)
        SE_IncompatibleSchema, f)"
  by (simp add: preflight_schema_def obind_def checked_def quiet_ask ensure_def filter_empty_conv)

lemma quiet_rest:
  assumes "quiet_env env"
  shows "op_integrity env f = ''ok''" and "run_statement env st run f =
    (case run f of Inl e \<Rightarrow> (Inl (map_sqlite e), f) | Inr (x, f'') \<Rightarrow> (Inr x, f''))"
  using assms by (simp_all add: quiet_env_def run_statement_def)

lemma lower_wal: "map ascii_lower ''WAL'' = ''wal''" "map ascii_lower ''wal'' = ''wal''"
  by code_simp+

lemma in_wal_simps [simp]:
  "fl_user_version (in_wal f) = fl_user_version f" "fl_application_id (in_wal f) = fl_application_id f"
  "fl_objects (in_wal f) = fl_objects f" "fl_data (in_wal f) = fl_data f"
  "fl_journal_mode (in_wal f) = ''wal''" "in_wal (in_wal f) = in_wal f"
  by (simp_all add: in_wal_def)

lemma in_wal_objects [simp]: "has_objects (in_wal f) = has_objects f"
  by (simp add: has_objects_def has_object_def)

lemma quiet_configure: "quiet_env env \<Longrightarrow> configure env f = (Inr (), in_wal f)"
  using lower_wal(2)
  by (simp add: configure_def set_pragmas_def obind_def checked_def quiet_ask quiet_rest(2))
     (simp add: quiet_env_def ensure_def)

lemma quiet_open:
  assumes "quiet_env env" and "path \<noteq> []"
  shows "sql_open env path f =
    obind (preflight_schema env) (\<lambda>_ f. initialize_or_verify_schema env (in_wal f)) f"
  using assms
  by (simp add: sql_open_def obind_def checked_def quiet_ask quiet_configure split: prod.split sum.split)

lemma quiet_new:
  assumes "quiet_env env" and "fl_user_version f = 0" and "\<forall>obj \<in> set (fl_objects f). like_sqlite (so_name obj)"
  shows "initialize_or_verify_schema env f = (Inr (), initialized f)"
  using assms(2) initialized_ok [of f]
  by (simp add: initialize_or_verify_schema_def obind_def checked_def quiet_ask [OF assms(1)]
      quiet_rest [OF assms(1)] run_schema_new [OF assms(3)] initialized_application verify_schema_objects_def
      quiet_objects [OF assms(1)] has_objects_def)

lemma quiet_old:
  assumes "quiet_env env" and "fl_user_version f \<noteq> 0" and "fl_application_id f = APPLICATION_ID"
  shows "initialize_or_verify_schema env f = (ensure (has_objects f) SE_IncompatibleSchema, f)"
  using assms(2,3)
  by (simp add: initialize_or_verify_schema_def obind_def checked_def quiet_ask [OF assms(1)]
      quiet_rest [OF assms(1)] verify_schema_objects_def quiet_objects [OF assms(1)] has_objects_def ensure_def)

text \<open>
  C33: What \<open>open\<close> does when nothing interferes. A file that has never been used becomes an empty
  store in WAL mode; a file with tables of another program, of another version or with another
  application identifier is refused and stays as it is. Any other file is put into WAL mode and
  then accepted exactly if it has all the tables and triggers of the schema, so a file of the
  right version that lacks one of them is refused but not left as it was.
\<close>

theorem sql_open_result:
  assumes "quiet_env env" and "path \<noteq> []"
  shows "sql_open env path f =
    (if fl_user_version f = 0 then
       if \<forall>obj \<in> set (fl_objects f). like_sqlite (so_name obj) then (Inr (), initialized (in_wal f))
       else (Inl SE_ForeignDatabase, f)
     else if fl_user_version f = SCHEMA_VERSION \<and> fl_application_id f = APPLICATION_ID
       then (if has_objects f then Inr () else Inl SE_IncompatibleSchema, in_wal f)
       else (Inl SE_IncompatibleSchema, f))"
proof -
  note open' = quiet_open [OF assms] obind_def quiet_preflight [OF assms(1)]
  consider (new) "fl_user_version f = 0" "\<forall>obj \<in> set (fl_objects f). like_sqlite (so_name obj)"
    | (foreign) "fl_user_version f = 0" "\<not> (\<forall>obj \<in> set (fl_objects f). like_sqlite (so_name obj))"
    | (old) "fl_user_version f \<noteq> 0" by blast
  then show ?thesis
  proof cases
    case new
    then show ?thesis by (simp add: open' quiet_new [OF assms(1)])
  next
    case foreign
    then show ?thesis by (simp only: open') (simp add: ensure_def)
  next
    case old
    then show ?thesis by (simp add: open' quiet_old [OF assms(1)] ensure_def)
  qed
qed

definition calm_env :: surroundings where
  "calm_env = \<lparr>op_error = \<lambda>_. None, op_others = \<lambda>_ f. f, op_enters_wal = True, op_foreign_keys = 1,
     op_synchronous = 2, op_integrity = \<lambda>_. ''ok''\<rparr>"

lemma calm_quiet: "quiet_env calm_env"
  by (simp add: quiet_env_def calm_env_def)

definition new_file :: database_file where
  "new_file = \<lparr>fl_user_version = 0, fl_application_id = 0, fl_journal_mode = ''delete'',
     fl_objects = [], fl_data = empty_database\<rparr>"

text \<open>A file of the right version and application without the objects of the schema.\<close>

definition gutted_file :: database_file where
  "gutted_file = new_file\<lparr>fl_user_version := 1, fl_application_id := APPLICATION_ID\<rparr>"

theorem sql_open_result_witness:
  "sql_open calm_env ''etp.db'' new_file = (Inr (), initialized (in_wal new_file))
   \<and> sql_open calm_env ''etp.db'' (initialized (in_wal new_file)) = (Inr (), initialized (in_wal new_file))
   \<and> sql_open calm_env ''etp.db'' gutted_file = (Inl SE_IncompatibleSchema, in_wal gutted_file)
   \<and> in_wal gutted_file \<noteq> gutted_file"
proof -
  note result = sql_open_result [OF calm_quiet, of "''etp.db''"]
  have lacks: "\<not> has_objects gutted_file"
    by (simp add: gutted_file_def new_file_def has_objects_def has_object_def OBJECTS_def)
  have "in_wal (initialized (in_wal new_file)) = initialized (in_wal new_file)"
    by (simp add: in_wal_def initialized_def)
  then show ?thesis
    using result [of new_file] result [of "initialized (in_wal new_file)"] result [of gutted_file]
      initialized_ok [of "in_wal new_file"] lacks
    by (simp add: new_file_def initialized_def SCHEMA_VERSION_def gutted_file_def)
       (simp add: in_wal_def)
qed

text \<open>
  C24: Apart from the journal mode, opening changes nothing of a store that is there, not even in
  a race: whatever holds of the file, is kept by the other connections and by the change to WAL
  mode, and implies that some object of the schema exists, still holds after \<open>open\<close>, however it
  ends.
\<close>

theorem sql_open_keeps_store:
  assumes "\<And>st f. P f \<Longrightarrow> P (op_others env st f)"
    and "\<And>f. P f \<Longrightarrow> \<exists>obj \<in> set (fl_objects f). so_name obj \<in> snd ` set OBJECTS" and "P f"
    and "\<And>f. P f \<Longrightarrow> P (in_wal f)"
  shows "P (snd (sql_open env path f))"
proof -
  have "keeps_file P (sql_open env path)"
  proof (rule keeps_open)
    show "others_keep P env" using assms(1) by (simp add: others_keep_def)
    fix f x f' assume "P f" and run: "run_schema f = Inr (x, f')"
    with assms(2) obtain obj where "obj \<in> set (fl_objects f)" "so_name obj \<in> snd ` set OBJECTS" by blast
    with run show "P f'" by (auto simp: run_schema_def list_ex_iff split: if_splits)
  qed (rule assms(4))
  with assms(3) show ?thesis by (simp add: keeps_file_def)
qed

theorem sql_open_keeps_store_witness:
  "fl_data (snd (sql_open (calm_env\<lparr>op_error := \<lambda>st. if st = IntegrityCheck then Some OtherError else None\<rparr>)
     ''etp.db'' (initialized new_file))) = empty_database"
proof -
  let ?P = "\<lambda>f. fl_data f = empty_database \<and> fl_objects f = fl_objects (initialized new_file)"
  let ?env = "calm_env\<lparr>op_error := \<lambda>st. if st = IntegrityCheck then Some OtherError else None\<rparr>"
  have "?P (snd (sql_open ?env ''etp.db'' (initialized new_file)))"
    by (rule sql_open_keeps_store) (auto simp: calm_env_def initialized_def new_file_def OBJECTS_def)
  then show ?thesis by simp
qed

text \<open>
  Two processes that open a new file at the same time: the one whose script runs second fails,
  although the file is a valid store by then and opening it again succeeds.
\<close>

lemma sql_open_race:
  "sql_open (calm_env\<lparr>op_others := \<lambda>st f. if st = RunSchema then initialized f else f\<rparr>) ''etp.db'' new_file
   = (Inl SE_Unavailable, initialized (in_wal new_file))"
  using lower_wal(2)
  by (simp add: sql_open_def preflight_schema_def configure_def set_pragmas_def in_wal_def initialize_or_verify_schema_def obind_def
      checked_def ask_file_def run_statement_def Let_def calm_env_def new_file_def run_schema_def
      initialized_def OBJECTS_def map_sqlite_def)

end
