(* ===== verification/Executor.thy ===== *)
theory Executor
  imports Authority Sqlite_Schema "HOL-Library.Multiset"
begin

text \<open>
  The dispatch boundary, crates/effect-transaction-executor/src/lib.rs: the policy, the values
  of the type-state interface from the prepared effect to the receipt handle, and every method
  of the executor.

  A method is a program (\<open>prog\<close>) over the store: it ends with a result, calls an operation of
  \<open>SqliteEffectStore\<close>, or reads the database for one of the four queries of \<open>lifecycle\<close>. Only
  the single calls are atomic, so other connections may act between any two of them; the theory
  \<open>Executor_System\<close> runs many programs on one database that way, and \<open>run_alone\<close> runs one
  without interference. Record and document bytes are strings of bytes, as in the other crates.
  The \<open>Debug\<close> implementations and accessors are in \<open>Executor_Views\<close>.
\<close>

section \<open>Errors and policy\<close>

definition CORE_RECORD_PROFILE :: string where
  "CORE_RECORD_PROFILE = ''effect-transaction/core/0.1''"

datatype executor_error =
  EX_InvalidPolicy string
| DocumentTooLarge string
| DocumentDigestMismatch string
| GrantAudienceMismatch
| AuthorityConfigurationEpochMismatch
| AuthorityChangedAfterClaim
| CurrentnessPolicyEpochMismatch
| CurrentnessConfigurationEpochMismatch
| CurrentnessFromFuture
| EX_StaleCurrentness
| MissingDurableClaim
| RecoveryAttemptMismatch
| MissingDispatchMarker
| UnexpectedDispatchMarker
| EX_Protocol protocol_error
| EX_Authority authority_error
| EX_Store store_error

record executor_policy =
  po_audience :: string
  po_authority_role :: string
  po_maximum_authority_snapshot_age_ms :: u64
  po_maximum_currentness_age_ms :: u64

definition ex_validate_text :: "string \<Rightarrow> nat \<Rightarrow> executor_error + unit" where
  "ex_validate_text value maximum_bytes =
     (if value = [] \<or> length value > maximum_bytes \<or> \<not> is_trimmed value
         \<or> list_ex is_control (chars value)
      then Inl (EX_InvalidPolicy ''invalid text value'') else Inr ())"

definition ex_validate_token :: "string \<Rightarrow> executor_error + unit" where
  "ex_validate_token value =
     rbind (ex_validate_text value 256) (\<lambda>_.
     ensure (token_shape value) (EX_InvalidPolicy ''invalid authority role''))"

definition policy_validate :: "executor_policy \<Rightarrow> executor_error + unit" where
  "policy_validate policy = checks
     [ex_validate_text (po_audience policy) 512,
      ex_validate_token (po_authority_role policy),
      ensure (\<not> (po_maximum_authority_snapshot_age_ms policy = 0
                \<or> po_maximum_authority_snapshot_age_ms policy > MAX_AUTHORITY_SNAPSHOT_AGE_MS))
        (EX_InvalidPolicy ''authority snapshot age must be within the authority profile bound''),
      ensure (\<not> (po_maximum_currentness_age_ms policy = 0
                \<or> po_maximum_currentness_age_ms policy > MAX_CURRENTNESS_AGE_MS))
        (EX_InvalidPolicy ''currentness age must be within the executor profile bound'')]"

section \<open>The prepared effect\<close>

record effect_documents =
  do_arguments :: string
  do_expected_effect :: string
  do_pre_state :: string
  do_resource_claim :: string

definition validate_limits :: "effect_documents \<Rightarrow> executor_error + unit" where
  "validate_limits documents = checks
     (map (\<lambda>(name, value). ensure (\<not> length value > MAX_TRANSPORT_INPUT_BYTES) (DocumentTooLarge name))
        [(''arguments'', do_arguments documents),
         (''expected effect'', do_expected_effect documents),
         (''pre-state'', do_pre_state documents),
         (''resource claim'', do_resource_claim documents)])"

definition verify_document :: "lib \<Rightarrow> string \<Rightarrow> string \<Rightarrow> digest32 \<Rightarrow> executor_error + unit" where
  "verify_document L name bytes expected =
     (if from_payload L bytes = expected then Inr () else Inl (DocumentDigestMismatch name))"

record prepared_effect =
  pe_commitment :: task_commitment
  pe_proposal :: effect_proposal
  pe_decision :: authorization_decision
  pe_grant :: execution_grant
  pe_documents :: effect_documents
  pe_grant_hash :: digest32
  pe_proposal_hash :: digest32

text \<open>\<open>PreparedEffect::new\<close>.\<close>

definition prepare ::
    "lib \<Rightarrow> task_commitment \<Rightarrow> effect_proposal \<Rightarrow> authorization_decision \<Rightarrow> execution_grant
     \<Rightarrow> effect_documents \<Rightarrow> executor_error + prepared_effect" where
  "prepare L commitment proposal decision grant documents =
     rbind (validate_limits documents) (\<lambda>_.
     rbind (map_err EX_Protocol (verify_grant L commitment proposal decision grant)) (\<lambda>grant_hash.
     rbind (map_err EX_Protocol (ep_commitment L proposal)) (\<lambda>proposal_hash.
     rbind (verify_document L ''arguments'' (do_arguments documents) (ep_arguments_digest proposal)) (\<lambda>_.
     rbind (verify_document L ''expected effect'' (do_expected_effect documents)
              (ep_expected_effect_digest proposal)) (\<lambda>_.
     rbind (verify_document L ''pre-state'' (do_pre_state documents) (ep_pre_state_digest proposal)) (\<lambda>_.
     rbind (verify_document L ''resource claim'' (do_resource_claim documents)
              (ep_resource_claim_digest proposal)) (\<lambda>_.
     Inr \<lparr>pe_commitment = commitment, pe_proposal = proposal, pe_decision = decision,
          pe_grant = grant, pe_documents = documents, pe_grant_hash = grant_hash,
          pe_proposal_hash = proposal_hash\<rparr>)))))))"

section \<open>The values of the type-state interface\<close>

record authority_evidence =
  ae_statement_id :: string
  ae_issuer :: string
  ae_key_id :: string
  ae_role :: string
  ae_audience :: string
  ae_verified_at_ms :: u64
  ae_snapshot_observed_at_ms :: u64
  ae_verifying_key_digest :: digest32

definition evidence_from :: "verified_authority \<Rightarrow> authority_evidence" where
  "evidence_from value =
     (let statement = vy_statement value in
      \<lparr>ae_statement_id = au_statement_id statement, ae_issuer = au_issuer statement,
       ae_key_id = au_key_id statement, ae_role = au_role statement,
       ae_audience = au_audience statement, ae_verified_at_ms = vy_verified_at_ms value,
       ae_snapshot_observed_at_ms = vy_snapshot_observed_at_ms value,
       ae_verifying_key_digest = vy_verifying_key_digest value\<rparr>)"

definition same_authority_identity :: "authority_evidence \<Rightarrow> authority_evidence \<Rightarrow> bool" where
  "same_authority_identity first second \<longleftrightarrow>
     ae_statement_id first = ae_statement_id second \<and> ae_issuer first = ae_issuer second
     \<and> ae_key_id first = ae_key_id second \<and> ae_role first = ae_role second
     \<and> ae_audience first = ae_audience second
     \<and> ae_verifying_key_digest first = ae_verifying_key_digest second"

record claimed_effect =
  ce_prepared :: prepared_effect
  ce_claim :: durable_claim
  ce_authority :: authority_evidence
  ce_signed_authority :: string

record dispatch_capability =
  cp_prepared :: prepared_effect
  cp_claim :: durable_claim
  cp_dispatched_at_ms :: u64

record exact_effect =
  xe_effect_profile :: string
  xe_operation :: string
  xe_target :: string
  xe_documents :: effect_documents

record receipt_handle =
  rh_proposal_hash :: digest32
  rh_grant_hash :: digest32
  rh_attempt_id :: string
  rh_claimed_at_ms :: u64
  rh_dispatched_at_ms :: u64

text \<open>
  \<open>dispatch_with\<close> consumes the capability and calls the adapter once; the adapter's argument
  and the handle that stays behind.
\<close>

definition dispatch_with :: "dispatch_capability \<Rightarrow> (exact_effect \<Rightarrow> 'r) \<Rightarrow> receipt_handle \<times> 'r" where
  "dispatch_with capability adapter =
     (let prepared = cp_prepared capability; claim = cp_claim capability;
          exact = \<lparr>xe_effect_profile = ep_effect_profile (pe_proposal prepared),
                   xe_operation = ep_operation (pe_proposal prepared),
                   xe_target = ep_target (pe_proposal prepared),
                   xe_documents = pe_documents prepared\<rparr>;
          handle = \<lparr>rh_proposal_hash = pe_proposal_hash prepared, rh_grant_hash = dc_grant_hash claim,
                    rh_attempt_id = dc_attempt_id claim, rh_claimed_at_ms = dc_claimed_at_ms claim,
                    rh_dispatched_at_ms = cp_dispatched_at_ms capability\<rparr>
      in (handle, adapter exact))"

datatype dispatched_outcome = DispatchSucceeded | DispatchFailed | DispatchUnknown

fun outcome_from :: "dispatched_outcome \<Rightarrow> receipt_outcome" where
  "outcome_from DispatchSucceeded = Succeeded"
| "outcome_from DispatchFailed = Failed"
| "outcome_from DispatchUnknown = Unknown"

record not_dispatched_receipt =
  nd_receipt_id :: string
  nd_completed_at_ms :: u64
  nd_observation_digest :: digest32

record dispatched_receipt =
  dr_receipt_id :: string
  dr_completed_at_ms :: u64
  dr_outcome :: dispatched_outcome
  dr_observation_digest :: digest32

record unknown_recovery =
  ur_receipt_id :: string
  ur_proposal_hash :: digest32
  ur_grant_hash :: digest32
  ur_attempt_id :: string
  ur_completed_at_ms :: u64
  ur_observation_digest :: digest32

record not_dispatched_recovery =
  nr_receipt_id :: string
  nr_proposal_hash :: digest32
  nr_grant_hash :: digest32
  nr_attempt_id :: string
  nr_completed_at_ms :: u64
  nr_observation_digest :: digest32

section \<open>Programs over the store\<close>

text \<open>
  The continuation of a call gets what \<open>sql_step\<close> returns for that call. A query gets the
  behaviour of the engine and the database it sees.
\<close>

datatype 'a prog =
  Done 'a
| Call sql_call "sql_return \<Rightarrow> 'a prog"
| Look "engine \<times> database \<Rightarrow> 'a prog"

type_synonym 'a action = "(executor_error + 'a) prog"

primrec andthen :: "'a action \<Rightarrow> ('a \<Rightarrow> 'b action) \<Rightarrow> 'b action" where
  "andthen (Done r) f = (case r of Inl e \<Rightarrow> Done (Inl e) | Inr x \<Rightarrow> f x)"
| "andthen (Call c k) f = Call c (\<lambda>r. andthen (k r) f)"
| "andthen (Look k) f = Look (\<lambda>seen. andthen (k seen) f)"

text \<open>What a call of the given kind returned.\<close>

fun returned_digest :: "sql_return \<Rightarrow> store_error + digest32" where
  "returned_digest (SqlDigest r) = r"

fun returned_unit :: "sql_return \<Rightarrow> store_error + unit" where
  "returned_unit (SqlUnit r) = r"

fun returned_claim :: "sql_return \<Rightarrow> store_error + durable_claim" where
  "returned_claim (SqlClaimed r) = r"

fun returned_marker :: "sql_return \<Rightarrow> store_error + dispatch_marker" where
  "returned_marker (SqlMarked r) = r"

definition store_call :: "sql_call \<Rightarrow> (sql_return \<Rightarrow> store_error + 'a) \<Rightarrow> 'a action" where
  "store_call call returned = Call call (\<lambda>r. Done (map_err EX_Store (returned r)))"

text \<open>\<open>store.lifecycle\<close>: four queries, each of its own database.\<close>

definition store_lifecycle :: "lib \<Rightarrow> digest32 \<Rightarrow> lifecycle action" where
  "store_lifecycle L grant_hash =
     Look (\<lambda>(eng, db1). Look (\<lambda>(_, db2). Look (\<lambda>(_, db3). Look (\<lambda>(_, db4).
       Done (map_err EX_Store (read_lifecycle L eng grant_hash db1 db2 db3 db4))))))"

section \<open>The methods of the executor\<close>

text \<open>\<open>open\<close>: the executor keeps its policy and the opened store.\<close>

definition executor_open ::
    "surroundings \<Rightarrow> string \<Rightarrow> executor_policy \<Rightarrow> database_file
     \<Rightarrow> (executor_error + executor_policy) \<times> database_file" where
  "executor_open env path policy file =
     (case policy_validate policy of
        Inl e \<Rightarrow> (Inl e, file)
      | Inr u \<Rightarrow>
          (case sql_open env path file of
             (Inl e, file') \<Rightarrow> (Inl (EX_Store e), file')
           | (Inr u, file') \<Rightarrow> (Inr policy, file')))"

definition check_currentness_freshness ::
    "executor_policy \<Rightarrow> currentness_snapshot \<Rightarrow> u64 \<Rightarrow> executor_error + unit" where
  "check_currentness_freshness policy currentness now_ms = checks
     [ensure (\<not> cu_observed_at_ms currentness > now_ms) CurrentnessFromFuture,
      ensure (\<not> now_ms - cu_observed_at_ms currentness > po_maximum_currentness_age_ms policy)
        EX_StaleCurrentness]"

definition observe_currentness ::
    "executor_policy \<Rightarrow> currentness_snapshot \<Rightarrow> u64 \<Rightarrow> unit action" where
  "observe_currentness policy currentness trusted_now_ms =
     andthen (Done (check_currentness_freshness policy currentness trusted_now_ms)) (\<lambda>_.
     store_call (SqlPut currentness) returned_unit)"

text \<open>The context that both authority checks of an attempt use.\<close>

definition authority_context ::
    "executor_policy \<Rightarrow> prepared_effect \<Rightarrow> u64 \<Rightarrow> verification_context" where
  "authority_context policy prepared trusted_now_ms =
     \<lparr>cx_expected_record_profile = CORE_RECORD_PROFILE,
      cx_expected_record_version = eg_version (pe_grant prepared),
      cx_expected_record_kind = KExecutionGrant,
      cx_expected_record_digest = pe_grant_hash prepared,
      cx_expected_role = po_authority_role policy,
      cx_expected_audience = po_audience policy,
      cx_now_ms = trusted_now_ms,
      cx_maximum_snapshot_age_ms = po_maximum_authority_snapshot_age_ms policy\<rparr>"

definition authorize_checks ::
    "executor_policy \<Rightarrow> prepared_effect \<Rightarrow> authority_snapshot \<Rightarrow> currentness_snapshot \<Rightarrow> u64
     \<Rightarrow> executor_error + unit" where
  "authorize_checks policy prepared snapshot currentness trusted_now_ms = checks
     [check_currentness_freshness policy currentness trusted_now_ms,
      ensure (\<not> eg_audience (pe_grant prepared) \<noteq> po_audience policy) GrantAudienceMismatch,
      ensure (\<not> sn_configuration_epoch snapshot \<noteq> tc_configuration_epoch (pe_commitment prepared))
        AuthorityConfigurationEpochMismatch,
      ensure (\<not> cu_policy_epoch currentness \<noteq> tc_policy_epoch (pe_commitment prepared))
        CurrentnessPolicyEpochMismatch,
      ensure (\<not> cu_configuration_epoch currentness \<noteq> tc_configuration_epoch (pe_commitment prepared))
        CurrentnessConfigurationEpochMismatch]"

definition authorize_and_claim ::
    "lib \<Rightarrow> 'h cose_lib \<Rightarrow> executor_policy \<Rightarrow> prepared_effect \<Rightarrow> string \<Rightarrow> authority_snapshot
     \<Rightarrow> currentness_snapshot \<Rightarrow> string \<Rightarrow> u64 \<Rightarrow> claimed_effect action" where
  "authorize_and_claim L K policy prepared signed_authority snapshot currentness attempt_id
       trusted_now_ms =
     andthen (Done (authorize_checks policy prepared snapshot currentness trusted_now_ms)) (\<lambda>_.
     andthen (Done (map_err EX_Authority (verify_authority L K signed_authority snapshot
                (authority_context policy prepared trusted_now_ms)))) (\<lambda>verified.
     andthen (store_call (SqlRegister (pe_commitment prepared) (pe_proposal prepared)
                (pe_decision prepared) (pe_grant prepared)) returned_digest) (\<lambda>_.
     andthen (store_call (SqlPut currentness) returned_unit) (\<lambda>_.
     andthen (store_call (SqlClaim (pe_grant prepared)
                \<lparr>cq_attempt_id = attempt_id, cq_expected_audience = po_audience policy,
                 cq_currentness_key = cu_key currentness,
                 cq_expected_snapshot_version = cu_version currentness,
                 cq_maximum_snapshot_age_ms = po_maximum_currentness_age_ms policy\<rparr>
                trusted_now_ms) returned_claim) (\<lambda>claim.
     Done (Inr \<lparr>ce_prepared = prepared, ce_claim = claim, ce_authority = evidence_from verified,
                ce_signed_authority = signed_authority\<rparr>))))))"

definition begin_dispatch ::
    "lib \<Rightarrow> 'h cose_lib \<Rightarrow> executor_policy \<Rightarrow> claimed_effect \<Rightarrow> authority_snapshot \<Rightarrow> u64
     \<Rightarrow> dispatch_capability action" where
  "begin_dispatch L K policy claimed snapshot trusted_now_ms =
     andthen (Done (ensure (\<not> sn_configuration_epoch snapshot
                              \<noteq> tc_configuration_epoch (pe_commitment (ce_prepared claimed)))
                      AuthorityConfigurationEpochMismatch)) (\<lambda>_.
     andthen (Done (map_err EX_Authority (verify_authority L K (ce_signed_authority claimed) snapshot
                (authority_context policy (ce_prepared claimed) trusted_now_ms)))) (\<lambda>verified.
     andthen (Done (ensure (same_authority_identity (ce_authority claimed) (evidence_from verified))
                      AuthorityChangedAfterClaim)) (\<lambda>_.
     andthen (store_call (SqlMark (dc_grant_hash (ce_claim claimed)) (dc_attempt_id (ce_claim claimed))
                trusted_now_ms) returned_marker) (\<lambda>marker.
     Done (Inr \<lparr>cp_prepared = ce_prepared claimed, cp_claim = ce_claim claimed,
                cp_dispatched_at_ms = dm_dispatched_at_ms marker\<rparr>)))))"

definition record_not_dispatched ::
    "claimed_effect \<Rightarrow> not_dispatched_receipt \<Rightarrow> digest32 action" where
  "record_not_dispatched claimed evidence =
     store_call (SqlReceipt
       \<lparr>er_version = 1, er_receipt_id = nd_receipt_id evidence,
        er_proposal_hash = pe_proposal_hash (ce_prepared claimed),
        er_grant_hash = dc_grant_hash (ce_claim claimed),
        er_attempt_id = dc_attempt_id (ce_claim claimed),
        er_claimed_at_ms = dc_claimed_at_ms (ce_claim claimed), er_dispatched_at_ms = None,
        er_completed_at_ms = nd_completed_at_ms evidence, er_outcome = NotDispatched,
        er_observation_digest = nd_observation_digest evidence\<rparr>) returned_digest"

definition record_dispatched :: "receipt_handle \<Rightarrow> dispatched_receipt \<Rightarrow> digest32 action" where
  "record_dispatched handle evidence =
     store_call (SqlReceipt
       \<lparr>er_version = 1, er_receipt_id = dr_receipt_id evidence,
        er_proposal_hash = rh_proposal_hash handle, er_grant_hash = rh_grant_hash handle,
        er_attempt_id = rh_attempt_id handle, er_claimed_at_ms = rh_claimed_at_ms handle,
        er_dispatched_at_ms = Some (rh_dispatched_at_ms handle),
        er_completed_at_ms = dr_completed_at_ms evidence,
        er_outcome = outcome_from (dr_outcome evidence),
        er_observation_digest = dr_observation_digest evidence\<rparr>) returned_digest"

definition record_recovered_unknown :: "lib \<Rightarrow> unknown_recovery \<Rightarrow> digest32 action" where
  "record_recovered_unknown L recovery =
     andthen (store_lifecycle L (ur_grant_hash recovery)) (\<lambda>lifecycle.
     andthen (Done (ok_or (lc_claim lifecycle) MissingDurableClaim)) (\<lambda>claim.
     andthen (Done (ensure (\<not> dc_attempt_id claim \<noteq> ur_attempt_id recovery)
                      RecoveryAttemptMismatch)) (\<lambda>_.
     andthen (Done (ok_or (dc_dispatch_started_at_ms claim) MissingDispatchMarker)) (\<lambda>dispatched_at_ms.
     store_call (SqlReceipt
       \<lparr>er_version = 1, er_receipt_id = ur_receipt_id recovery,
        er_proposal_hash = ur_proposal_hash recovery, er_grant_hash = ur_grant_hash recovery,
        er_attempt_id = ur_attempt_id recovery, er_claimed_at_ms = dc_claimed_at_ms claim,
        er_dispatched_at_ms = Some dispatched_at_ms,
        er_completed_at_ms = ur_completed_at_ms recovery, er_outcome = Unknown,
        er_observation_digest = ur_observation_digest recovery\<rparr>) returned_digest))))"

definition record_recovered_not_dispatched :: "lib \<Rightarrow> not_dispatched_recovery \<Rightarrow> digest32 action" where
  "record_recovered_not_dispatched L recovery =
     andthen (store_lifecycle L (nr_grant_hash recovery)) (\<lambda>lifecycle.
     andthen (Done (ok_or (lc_claim lifecycle) MissingDurableClaim)) (\<lambda>claim.
     andthen (Done (ensure (\<not> dc_attempt_id claim \<noteq> nr_attempt_id recovery)
                      RecoveryAttemptMismatch)) (\<lambda>_.
     andthen (Done (ensure (\<not> dc_dispatch_started_at_ms claim \<noteq> None) UnexpectedDispatchMarker)) (\<lambda>_.
     store_call (SqlReceipt
       \<lparr>er_version = 1, er_receipt_id = nr_receipt_id recovery,
        er_proposal_hash = nr_proposal_hash recovery, er_grant_hash = nr_grant_hash recovery,
        er_attempt_id = nr_attempt_id recovery, er_claimed_at_ms = dc_claimed_at_ms claim,
        er_dispatched_at_ms = None, er_completed_at_ms = nr_completed_at_ms recovery,
        er_outcome = NotDispatched,
        er_observation_digest = nr_observation_digest recovery\<rparr>) returned_digest))))"

definition ex_append_reconciliation :: "reconciliation_record \<Rightarrow> digest32 action" where
  "ex_append_reconciliation recon = store_call (SqlReconcile recon) returned_digest"

definition ex_lifecycle :: "lib \<Rightarrow> digest32 \<Rightarrow> lifecycle action" where
  "ex_lifecycle L grant_hash = store_lifecycle L grant_hash"

section \<open>Running a program alone\<close>

primrec run_alone :: "lib \<Rightarrow> engine \<Rightarrow> 'a prog \<Rightarrow> database \<Rightarrow> 'a \<times> database" where
  "run_alone L eng (Done x) db = (x, db)"
| "run_alone L eng (Call c k) db =
     (case sql_step L (eng, c) db of (r, db') \<Rightarrow> run_alone L eng (k r) db')"
| "run_alone L eng (Look k) db = run_alone L eng (k (eng, db)) db"

end
