(* ===== verification/Executor_System.thy ===== *)
theory Executor_System
  imports Executor Sqlite_Reading
begin

text \<open>
  Executors at work on one database. A state of the system is the database, the methods that
  are running in any process, the values of the type-state interface that processes own, and
  every call of a target adapter so far. Rust moves these values: a method or
  \<open>dispatch_with\<close> that takes one by value consumes it, and none of the types is \<open>Clone\<close>. A
  process may stop at any point and lose what it owns, while the database stays.

  The first part of the theory is about single programs: a precondition that survives
  interference by other connections (\<open>assured\<close>), and which programs may still yield a value
  that stands for a winning claim (\<open>holds\<close>). The second part is the step relation.
\<close>

section \<open>Outcomes and states\<close>

datatype outcome =
  Claimed claimed_effect
| Capable dispatch_capability
| Recorded digest32
| Observed
| Audited lifecycle

type_synonym thread = "outcome action"

abbreviation yields :: "('a \<Rightarrow> outcome) \<Rightarrow> 'a action \<Rightarrow> thread" where
  "yields f p \<equiv> andthen p (\<lambda>x. Done (Inr (f x)))"

record system =
  sy_db :: database
  sy_threads :: "thread multiset"
  sy_claimed :: "claimed_effect multiset"
  sy_capable :: "dispatch_capability multiset"
  sy_handles :: "receipt_handle multiset"
  sy_dispatched :: "(receipt_handle \<times> exact_effect) list"

definition fresh_system :: system where
  "fresh_system = \<lparr>sy_db = empty_database, sy_threads = {#}, sy_claimed = {#}, sy_capable = {#},
     sy_handles = {#}, sy_dispatched = []\<rparr>"

text \<open>The effect and the handle of a dispatch: the adapter returns what it was given.\<close>

definition dispatched_of :: "dispatch_capability \<Rightarrow> receipt_handle \<times> exact_effect" where
  "dispatched_of capability = dispatch_with capability (\<lambda>exact. exact)"

section \<open>Steps\<close>

text \<open>
  Each executor has a policy of its own, which \<open>open\<close> validated. The first group of rules starts a method, the second
  lets a running method make its next access to the database or finish, the third calls the
  adapter; \<open>foreign\<close> is any other caller of the store, and \<open>crash\<close> a loss of memory.
\<close>

inductive exec_step :: "lib \<Rightarrow> 'h cose_lib \<Rightarrow> system \<Rightarrow> system \<Rightarrow> bool" for L K where
  start_claim:
    "policy_validate policy = Inr () \<Longrightarrow> prepare L c p d g docs = Inr prepared \<Longrightarrow>
     exec_step L K s (s\<lparr>sy_threads := sy_threads s +
       {#yields Claimed (authorize_and_claim L K policy prepared assertion snapshot currentness attempt now)#}\<rparr>)"
| start_dispatch:
    "policy_validate policy = Inr () \<Longrightarrow> claimed \<in># sy_claimed s \<Longrightarrow>
     exec_step L K s (s\<lparr>sy_claimed := sy_claimed s - {#claimed#}, sy_threads := sy_threads s +
       {#yields Capable (begin_dispatch L K policy claimed snapshot now)#}\<rparr>)"
| start_not_dispatched:
    "claimed \<in># sy_claimed s \<Longrightarrow>
     exec_step L K s (s\<lparr>sy_claimed := sy_claimed s - {#claimed#}, sy_threads := sy_threads s +
       {#yields Recorded (record_not_dispatched claimed evidence)#}\<rparr>)"
| start_dispatched:
    "handle \<in># sy_handles s \<Longrightarrow>
     exec_step L K s (s\<lparr>sy_handles := sy_handles s - {#handle#}, sy_threads := sy_threads s +
       {#yields Recorded (record_dispatched handle evidence')#}\<rparr>)"
| start_recover_unknown:
    "exec_step L K s (s\<lparr>sy_threads := sy_threads s +
       {#yields Recorded (record_recovered_unknown L recovery)#}\<rparr>)"
| start_recover_not_dispatched:
    "exec_step L K s (s\<lparr>sy_threads := sy_threads s +
       {#yields Recorded (record_recovered_not_dispatched L recovery')#}\<rparr>)"
| start_observe:
    "policy_validate policy = Inr () \<Longrightarrow>
     exec_step L K s (s\<lparr>sy_threads := sy_threads s +
       {#yields (\<lambda>_. Observed) (observe_currentness policy currentness now)#}\<rparr>)"
| start_reconcile:
    "exec_step L K s (s\<lparr>sy_threads := sy_threads s +
       {#yields Recorded (ex_append_reconciliation recon)#}\<rparr>)"
| start_lifecycle:
    "exec_step L K s (s\<lparr>sy_threads := sy_threads s + {#yields Audited (ex_lifecycle L h)#}\<rparr>)"
| call:
    "Call op k \<in># sy_threads s \<Longrightarrow> sql_step L (eng, op) (sy_db s) = (r, db') \<Longrightarrow>
     exec_step L K s (s\<lparr>sy_db := db', sy_threads := sy_threads s - {#Call op k#} + {#k r#}\<rparr>)"
| look:
    "Look k \<in># sy_threads s \<Longrightarrow>
     exec_step L K s (s\<lparr>sy_threads := sy_threads s - {#Look k#} + {#k (eng, sy_db s)#}\<rparr>)"
| finish_claim:
    "Done (Inr (Claimed c)) \<in># sy_threads s \<Longrightarrow>
     exec_step L K s (s\<lparr>sy_threads := sy_threads s - {#Done (Inr (Claimed c))#},
       sy_claimed := sy_claimed s + {#c#}\<rparr>)"
| finish_dispatch:
    "Done (Inr (Capable cap)) \<in># sy_threads s \<Longrightarrow>
     exec_step L K s (s\<lparr>sy_threads := sy_threads s - {#Done (Inr (Capable cap))#},
       sy_capable := sy_capable s + {#cap#}\<rparr>)"
| dispatch:
    "cap \<in># sy_capable s \<Longrightarrow>
     exec_step L K s (s\<lparr>sy_capable := sy_capable s - {#cap#},
       sy_handles := sy_handles s + {#fst (dispatched_of cap)#},
       sy_dispatched := sy_dispatched s @ [dispatched_of cap]\<rparr>)"
| foreign:
    "exec_step L K s (s\<lparr>sy_db := snd (sql_step L (eng, op) (sy_db s))\<rparr>)"
| crash:
    "T \<subseteq># sy_threads s \<Longrightarrow> C \<subseteq># sy_claimed s \<Longrightarrow> P \<subseteq># sy_capable s \<Longrightarrow> H \<subseteq># sy_handles s \<Longrightarrow>
     exec_step L K s (s\<lparr>sy_threads := T, sy_claimed := C, sy_capable := P, sy_handles := H\<rparr>)"

inductive exec_reachable :: "lib \<Rightarrow> 'h cose_lib \<Rightarrow> system \<Rightarrow> bool" for L K where
  exec_start: "exec_reachable L K fresh_system"
| exec_next: "exec_reachable L K s \<Longrightarrow> exec_step L K s s' \<Longrightarrow> exec_reachable L K s'"

section \<open>Dispatch markers and the grant's window\<close>

text \<open>
  The stored chain under a grant hash, and the invariant of the markers: each stands for a time
  after the claim and before the stored grant expires. Unlike the invariants of
  \<open>Sqlite_Stored\<close> it needs no assumption on the libraries or on the arguments of calls.
\<close>

definition held_chain :: "lib \<Rightarrow> database \<Rightarrow> string \<Rightarrow> stored_chain \<Rightarrow> bool" where
  "held_chain L db k chain \<longleftrightarrow>
     (\<exists>ir \<in> set (db_chains db). rc_grant_hash (snd ir) = k \<and> decode_chain L (snd ir) = Inr chain)"

definition marker_ok :: "lib \<Rightarrow> database \<Rightarrow> claim_row \<Rightarrow> bool" where
  "marker_ok L db r \<longleftrightarrow> (\<forall>t. cl_dispatch_started_at_ms r = Some t \<longrightarrow>
     (\<exists>chain. held_chain L db (cl_grant_hash r) chain
        \<and> cl_claimed_at_ms r \<le> t \<and> t < uint (eg_expires_at_ms (sc_grant chain))))"

definition sound :: "lib \<Rightarrow> database \<Rightarrow> bool" where
  "sound L db \<longleftrightarrow> schema_ok db \<and> (\<forall>r \<in> set (db_claims db). marker_ok L db r)"

definition goes :: "lib \<Rightarrow> database \<Rightarrow> database \<Rightarrow> bool" where
  "goes L a b \<longleftrightarrow> sound L b \<and> db_extends a b"

lemma sound_empty: "sound L empty_database"
  by (simp add: sound_def schema_ok_empty) (simp add: empty_database_def)

lemma goes_trans: "goes L a b \<Longrightarrow> goes L b c \<Longrightarrow> goes L a c"
  by (auto simp: goes_def intro: db_extends_trans)

lemma goes_refl: "sound L a \<Longrightarrow> goes L a a"
  by (simp add: goes_def)

lemma held_chain_extends: "db_extends a b \<Longrightarrow> held_chain L a k c \<Longrightarrow> held_chain L b k c"
  unfolding held_chain_def db_extends_def using grown_eq_subset by blast

lemma held_chain_unique:
  assumes "schema_ok db" and "held_chain L db k c" and "held_chain L db k c'"
  shows "c' = c"
proof -
  from assms(1) have "inj_on (rc_grant_hash \<circ> snd) (set (db_chains db))"
    by (simp add: schema_defs distinct_map)
  moreover obtain x y where "x \<in> set (db_chains db)" "y \<in> set (db_chains db)"
    "(rc_grant_hash \<circ> snd) x = (rc_grant_hash \<circ> snd) y"
    "decode_chain L (snd x) = Inr c" "decode_chain L (snd y) = Inr c'"
    using assms(2,3) by (auto simp: held_chain_def)
  ultimately show ?thesis by (metis inj_onD sum.inject(2))
qed

lemma marker_ok_extends: "db_extends a b \<Longrightarrow> marker_ok L a r \<Longrightarrow> marker_ok L b r"
  unfolding marker_ok_def using held_chain_extends by blast

text \<open>Only \<open>mark_dispatch_started\<close> writes a marker.\<close>

lemma unmarked_writes:
  assumes "r \<in> set (db_claims db')" and "cl_dispatch_started_at_ms r \<noteq> None"
  shows "register_chain L eng c p d g db = (o1, db') \<Longrightarrow> r \<in> set (db_claims db)"
    and "put_currentness eng s db = (o2, db') \<Longrightarrow> r \<in> set (db_claims db)"
    and "sql_claim L eng g q now db = (o3, db') \<Longrightarrow> r \<in> set (db_claims db)"
    and "record_receipt L eng x db = (o4, db') \<Longrightarrow> r \<in> set (db_claims db)"
    and "append_reconciliation L eng y db = (o5, db') \<Longrightarrow> r \<in> set (db_claims db)"
proof -
  note writes = insert_chain_def insert_currentness_def update_currentness_def insert_claim_def
    insert_receipt_def insert_reconciliation_def constrained_ok row_of_claim_def claim_result_def
  show "register_chain L eng c p d g db = (o1, db') \<Longrightarrow> r \<in> set (db_claims db)"
    using assms by (cases o1) (auto dest!: register_okD sql_step_error simp: writes)
  show "put_currentness eng s db = (o2, db') \<Longrightarrow> r \<in> set (db_claims db)"
    using assms by (cases o2) (auto dest!: put_okD sql_step_error simp: writes)
  show "sql_claim L eng g q now db = (o3, db') \<Longrightarrow> r \<in> set (db_claims db)"
    using assms by (cases o3) (auto dest!: claim_okD sql_step_error simp: writes)
  show "record_receipt L eng x db = (o4, db') \<Longrightarrow> r \<in> set (db_claims db)"
    using assms by (cases o4) (auto dest!: receipt_okD sql_step_error simp: writes)
  show "append_reconciliation L eng y db = (o5, db') \<Longrightarrow> r \<in> set (db_claims db)"
    using assms by (cases o5) (auto dest!: reconcile_okD sql_step_error simp: writes)
qed

lemma marked_write:
  assumes "mark_dispatch_started L eng h a t db = (Inr m, db')" and "schema_ok db"
    and "r \<in> set (db_claims db')"
  shows "r \<in> set (db_claims db) \<or> marker_ok L db r"
proof -
  from mark_okD [OF assms(1)] obtain row claim where row: "claim_of db (as_str h) = Some row"
      "decode_claim (as_str h) row = Inr claim" "dc_claimed_at_ms claim \<le> t"
    and cases: "db' = db \<or> (\<exists>raw chain. chain_by_hash db (as_str h) = Some raw \<and> decode_chain L raw = Inr chain
          \<and> t < eg_expires_at_ms (sc_grant chain) \<and> mark_row h a t (at_time t db) = Inr db')" by blast
  from cases show ?thesis
  proof
    assume "\<exists>raw chain. chain_by_hash db (as_str h) = Some raw \<and> decode_chain L raw = Inr chain
          \<and> t < eg_expires_at_ms (sc_grant chain) \<and> mark_row h a t (at_time t db) = Inr db'"
    then obtain raw chain where raw: "chain_by_hash db (as_str h) = Some raw" "decode_chain L raw = Inr chain"
      "t < eg_expires_at_ms (sc_grant chain)" and upd: "mark_row h a t (at_time t db) = Inr db'" by blast
    show ?thesis
    proof (cases "r \<in> set (db_claims db)")
      case False
      with assms(3) mark_row_ok [OF upd] obtain r0 where r0: "r0 \<in> set (db_claims db)"
        "cl_grant_hash r0 = as_str h" "r = r0\<lparr>cl_dispatch_started_at_ms := Some (uint t)\<rparr>"
        by (auto split: if_splits)
      then have "claim_of db (as_str h) = Some r0"
        using assms(2) by (auto simp: claim_of_def schema_defs intro: distinct_find)
      with row have "r0 = row" by simp
      with row(2,3) have "cl_claimed_at_ms r0 \<le> uint t" by (auto simp: decode_claim_ok word_le_def)
      moreover have "held_chain L db (as_str h) chain"
        using lookup_key(1) [OF raw(1)] raw(2) by (force simp: held_chain_def)
      ultimately show ?thesis using r0 raw(3) by (auto simp: marker_ok_def word_less_def)
    qed simp
  qed (use assms(3) in simp)
qed

lemma sql_step_sound:
  assumes "sound L db"
  shows "sound L (snd (sql_step L op db))"
proof -
  let ?db' = "snd (sql_step L op db)"
  from assms have s: "schema_ok db" and m: "\<And>r. r \<in> set (db_claims db) \<Longrightarrow> marker_ok L db r"
    by (auto simp: sound_def)
  have ev: "evolves db ?db'" by (rule sql_step_evolves [OF s])
  obtain eng c where op: "op = (eng, c)" by (cases op)
  have "marker_ok L db r" if r: "r \<in> set (db_claims ?db')" for r
  proof (cases "cl_dispatch_started_at_ms r = None")
    case False
    note same = unmarked_writes [OF _ False, THEN m]
    show ?thesis
    proof (cases c)
      case (SqlMark h a t)
      obtain out db' where out: "mark_dispatch_started L eng h a t db = (out, db')" by fastforce
      with r have r': "r \<in> set (db_claims db')" by (simp add: op SqlMark)
      show ?thesis
      proof (cases out)
        case (Inr x)
        from marked_write [OF out [unfolded Inr] s r'] show ?thesis by (auto intro: m)
      next
        case (Inl e)
        from sql_step_error(4) [OF out [unfolded Inl]] r' show ?thesis by (auto intro: m)
      qed
    qed (use r in \<open>auto simp: op split: prod.splits intro: same\<close>)
  qed (simp add: marker_ok_def)
  with ev show ?thesis by (auto simp: sound_def evolves_def intro: marker_ok_extends)
qed

interpretation sx: append_only "sql_step L" "sound L" db_extends for L
  by unfold_locales
    (use sql_step_sound sq.extends_step in \<open>auto simp: sound_def intro: db_extends_trans\<close>)

interpretation ticket: single_use "sql_step L" "sound L" db_extends
  "row_holder cl_grant_hash" "row_won cl_grant_hash" for L
  by unfold_locales
    (auto simp: sound_def intro: hash_use.holder_extends hash_use.win_free hash_use.win_holds)

lemma sx_step: "sound L db \<Longrightarrow> goes L db (snd (sql_step L op db))"
  by (simp add: goes_def sx.invar_step sx.extends_step)

section \<open>Programs under interference\<close>

text \<open>
  \<open>assured L Q p db\<close>: if other connections only extend the database between the accesses of
  \<open>p\<close>, then \<open>p\<close> can only finish with a value and a database that satisfy \<open>Q\<close>.
\<close>

primrec assured :: "lib \<Rightarrow> ('a \<Rightarrow> database \<Rightarrow> bool) \<Rightarrow> 'a prog \<Rightarrow> database \<Rightarrow> bool" where
  "assured L Q (Done x) db = Q x db"
| "assured L Q (Call c k) db =
     (\<forall>eng db1. goes L db db1 \<longrightarrow>
        assured L Q (k (fst (sql_step L (eng, c) db1))) (snd (sql_step L (eng, c) db1)))"
| "assured L Q (Look k) db = (\<forall>eng db1. goes L db db1 \<longrightarrow> assured L Q (k (eng, db1)) db1)"

definition stable :: "lib \<Rightarrow> ('a \<Rightarrow> database \<Rightarrow> bool) \<Rightarrow> bool" where
  "stable L Q \<longleftrightarrow> (\<forall>x db db'. Q x db \<longrightarrow> goes L db db' \<longrightarrow> Q x db')"

lemma assured_goes:
  "stable L Q \<Longrightarrow> assured L Q p db \<Longrightarrow> goes L db db' \<Longrightarrow> assured L Q p db'"
  by (cases p) (auto simp: stable_def dest: goes_trans)

text \<open>The rule for sequencing: what the first program promises is what the second needs.\<close>

definition sums :: "('a \<Rightarrow> database \<Rightarrow> bool) \<Rightarrow> executor_error + 'a \<Rightarrow> database \<Rightarrow> bool" where
  "sums Q r db = (case r of Inl e \<Rightarrow> True | Inr x \<Rightarrow> Q x db)"

lemma sums_simps [simp]: "sums Q (Inl e) db" "sums Q (Inr x) db = Q x db"
  by (simp_all add: sums_def)

lemma assured_andthen:
  assumes "assured L (sums Q) p db" and "sound L db"
    and "\<And>x db'. goes L db db' \<Longrightarrow> Q x db' \<Longrightarrow> assured L (sums R) (f x) db'"
  shows "assured L (sums R) (andthen p f) db"
  using assms
proof (induction p arbitrary: db)
  case (Done r)
  from Done.prems(3) [OF goes_refl [OF Done.prems(2)]] Done.prems(1) show ?case
    by (auto split: sum.splits)
next
  case (Call c k)
  show ?case unfolding andthen.simps assured.simps
  proof (intro allI impI)
    fix eng db1 assume db1: "goes L db db1"
    let ?s = "sql_step L (eng, c) db1"
    from db1 have step: "goes L db1 (snd ?s)" by (intro sx_step) (simp add: goes_def)
    show "assured L (sums R) (andthen (k (fst ?s)) f) (snd ?s)"
    proof (rule Call.IH)
      show "assured L (sums Q) (k (fst ?s)) (snd ?s)" using Call.prems(1) db1 by auto
      show "sound L (snd ?s)" using step by (simp add: goes_def)
      fix x db' assume "goes L (snd ?s) db'" and "Q x db'"
      then show "assured L (sums R) (f x) db'"
        using Call.prems(3) goes_trans [OF db1 goes_trans [OF step]] by blast
    qed simp
  qed
next
  case (Look k)
  show ?case unfolding andthen.simps assured.simps
  proof (intro allI impI)
    fix eng db1 assume db1: "goes L db db1"
    show "assured L (sums R) (andthen (k (eng, db1)) f) db1"
    proof (rule Look.IH)
      show "assured L (sums Q) (k (eng, db1)) db1" using Look.prems(1) db1 by auto
      show "sound L db1" using db1 by (simp add: goes_def)
      fix x db' assume "goes L db1 db'" and "Q x db'"
      then show "assured L (sums R) (f x) db'" using Look.prems(3) goes_trans [OF db1] by blast
    qed simp_all
  qed
qed

lemma assured_anything: "(\<And>x db. Q x db) \<Longrightarrow> assured L Q p db"
  by (induction p arbitrary: db) simp_all

text \<open>A pure step, and one call of the store.\<close>

lemma assured_pure:
  assumes "sound L db" and "\<And>x. r = Inr x \<Longrightarrow> assured L (sums R) (f x) db"
  shows "assured L (sums R) (andthen (Done r) f) db"
  using assms by (cases r) simp_all

lemma assured_store_call:
  assumes "\<And>eng db1 x. goes L db db1 \<Longrightarrow> returned (fst (sql_step L (eng, c) db1)) = Inr x
    \<Longrightarrow> Q x (snd (sql_step L (eng, c) db1))"
  shows "assured L (sums Q) (store_call c returned) db"
  using assms by (auto simp: store_call_def sums_def map_err_def split: sum.splits)

section \<open>Programs that stand for a winning claim\<close>

text \<open>
  The grant hash of the claim that an outcome stands for, and whether a program may yield such
  an outcome without winning that claim itself.
\<close>

fun outcome_holds :: "string \<Rightarrow> outcome \<Rightarrow> bool" where
  "outcome_holds k (Claimed c) = (as_str (dc_grant_hash (ce_claim c)) = k)"
| "outcome_holds k (Capable c) = (as_str (dc_grant_hash (cp_claim c)) = k)"
| "outcome_holds k r = False"

primrec holds :: "lib \<Rightarrow> string \<Rightarrow> thread \<Rightarrow> bool" where
  "holds L k (Done r) = (\<exists>x. r = Inr x \<and> outcome_holds k x)"
| "holds L k (Call c f) =
     (\<exists>eng db. (\<forall>v. row_won cl_grant_hash (eng, c) (fst (sql_step L (eng, c) db)) \<noteq> Some (k, v))
        \<and> holds L k (f (fst (sql_step L (eng, c) db))))"
| "holds L k (Look f) = (\<exists>seen. holds L k (f seen))"

definition tokens :: "lib \<Rightarrow> string \<Rightarrow> system \<Rightarrow> nat" where
  "tokens L k s =
     size (filter_mset (holds L k) (sy_threads s))
     + size (filter_mset (\<lambda>c. as_str (dc_grant_hash (ce_claim c)) = k) (sy_claimed s))
     + size (filter_mset (\<lambda>c. as_str (dc_grant_hash (cp_claim c)) = k) (sy_capable s))
     + length (filter (\<lambda>(handle, _). as_str (rh_grant_hash handle) = k) (sy_dispatched s))"

lemma holds_store_call:
  assumes "\<And>x. \<not> holds L k (f x)"
  shows "\<not> holds L k (andthen (store_call c returned) f)"
  using assms by (auto simp: store_call_def map_err_def split: sum.splits)

lemma holds_pure:
  assumes "\<And>x. r = Inr x \<Longrightarrow> \<not> holds L k (f x)"
  shows "\<not> holds L k (andthen (Done r) f)"
  using assms by (auto split: sum.splits)

lemma holds_lifecycle:
  assumes "\<And>x. \<not> holds L k (f x)"
  shows "\<not> holds L k (andthen (store_lifecycle L h) f)"
  using assms by (auto simp: store_lifecycle_def map_err_def split: sum.splits)

lemma andthen_assoc: "andthen (andthen p f) g = andthen p (\<lambda>x. andthen (f x) g)"
  by (induction p) (auto split: sum.splits)

lemma holds_claim:
  "\<not> holds L k (andthen (store_call (SqlClaim g q now) returned_claim)
     (\<lambda>claim. Done (Inr (Claimed (c\<lparr>ce_claim := claim\<rparr>)))))"
proof -
  have "\<not> holds L k (case map_err EX_Store x of Inl e \<Rightarrow> Done (Inl e)
      | Inr claim \<Rightarrow> Done (Inr (Claimed (c\<lparr>ce_claim := claim\<rparr>))))"
    if "\<forall>v. row_won cl_grant_hash (eng, SqlClaim g q now) (SqlClaimed x) \<noteq> Some (k, v)" for eng x
    using that by (cases x) (auto simp: row_of_claim_def)
  then show ?thesis by (auto simp: store_call_def split_def)
qed

lemma holds_starts:
  "\<not> holds L k (yields Claimed (authorize_and_claim L K policy prepared assertion snapshot currentness a now))"
  "\<not> holds L k (yields Recorded (record_not_dispatched claimed evidence))"
  "\<not> holds L k (yields Recorded (record_dispatched handle evidence'))"
  "\<not> holds L k (yields Recorded (record_recovered_unknown L recovery))"
  "\<not> holds L k (yields Recorded (record_recovered_not_dispatched L recovery'))"
  "\<not> holds L k (yields (\<lambda>_. Observed) (observe_currentness policy currentness now))"
  "\<not> holds L k (yields Recorded (ex_append_reconciliation recon))"
  "\<not> holds L k (yields Audited (ex_lifecycle L h))"
proof -
  have claim: "\<not> holds L k (andthen (store_call (SqlClaim g q now) returned_claim)
      (\<lambda>claim. Done (Inr (Claimed \<lparr>ce_prepared = p, ce_claim = claim, ce_authority = ae,
        ce_signed_authority = assertion\<rparr>))))" for g q p ae
    using holds_claim [where c = "\<lparr>ce_prepared = p, ce_claim = undefined, ce_authority = ae,
        ce_signed_authority = assertion\<rparr>"] by simp
  show "\<not> holds L k (yields Claimed (authorize_and_claim L K policy prepared assertion snapshot currentness a now))"
    unfolding authorize_and_claim_def andthen_assoc
    by (rule holds_pure, rule holds_pure, rule holds_store_call, rule holds_store_call) (simp add: claim)
qed (unfold record_not_dispatched_def record_dispatched_def record_recovered_unknown_def
    record_recovered_not_dispatched_def observe_currentness_def ex_append_reconciliation_def
    ex_lifecycle_def andthen_assoc, (intro holds_pure holds_store_call holds_lifecycle, simp)+)

lemma holds_begin:
  assumes "holds L k (yields Capable (begin_dispatch L K policy claimed snapshot now))"
  shows "as_str (dc_grant_hash (ce_claim claimed)) = k"
proof (rule ccontr)
  assume "as_str (dc_grant_hash (ce_claim claimed)) \<noteq> k"
  then have "\<not> holds L k (yields Capable (begin_dispatch L K policy claimed snapshot now))"
    unfolding begin_dispatch_def andthen_assoc by (intro holds_pure holds_store_call) auto
  with assms show False by simp
qed

section \<open>Programs without interference\<close>

lemma run_alone_andthen:
  "run_alone L eng (andthen p f) db =
     (case run_alone L eng p db of
        (Inl e, db') \<Rightarrow> (Inl e, db') | (Inr x, db') \<Rightarrow> run_alone L eng (f x) db')"
  by (induction p arbitrary: db) (auto split: sum.splits prod.splits)

lemma run_alone_store_call [simp]:
  "run_alone L eng (store_call c returned) db =
     (map_err EX_Store (returned (fst (sql_step L (eng, c) db))), snd (sql_step L (eng, c) db))"
  by (simp add: store_call_def split_def)

lemma run_alone_lifecycle [simp]:
  "run_alone L eng (store_lifecycle L h) db = (map_err EX_Store (lifecycle_of L eng h db), db)"
  by (simp add: store_lifecycle_def)

text \<open>A running method may finish before anything else happens.\<close>

lemma thread_runs:
  "exec_reachable L K s \<Longrightarrow> sy_threads s = add_mset p T \<Longrightarrow> run_alone L eng p (sy_db s) = (x, db') \<Longrightarrow>
   exec_reachable L K (s\<lparr>sy_db := db', sy_threads := add_mset (Done x) T\<rparr>)"
proof (induction p arbitrary: s)
  case (Done y)
  then show ?case by (cases s) auto
next
  case (Call c k)
  obtain r db1 where step: "sql_step L (eng, c) (sy_db s) = (r, db1)" by fastforce
  have "exec_reachable L K (s\<lparr>sy_db := db1, sy_threads := sy_threads s - {#Call c k#} + {#k r#}\<rparr>)"
    using Call.prems(1,2) step by (intro exec_next [OF _ call]) auto
  from Call.IH [OF rangeI this] Call.prems(2,3) step show ?case by simp
next
  case (Look k)
  have "exec_reachable L K (s\<lparr>sy_threads := sy_threads s - {#Look k#} + {#k (eng, sy_db s)#}\<rparr>)"
    using Look.prems(1,2) by (intro exec_next [OF _ look]) auto
  from Look.IH [OF rangeI this] Look.prems(2,3) show ?case by simp
qed

end
