(* ===== verification/Executor_Safety.thy ===== *)
theory Executor_Safety
  imports Executor_System Authority_Facts
begin

text \<open>
  The two invariants of the executor system. At most one value per grant hash stands for the
  winning claim, among running methods, claimed effects, capabilities and past dispatches; it
  rests on the single-use contract that the SQLite store provides. And each of these values is
  backed by a verified chain, by accepted authority assertions and by the rows of the database.
\<close>

section \<open>One value per winning claim\<close>

definition one_token :: "lib \<Rightarrow> string \<Rightarrow> system \<Rightarrow> bool" where
  "one_token L k s \<longleftrightarrow> tokens L k s \<le> 1
     \<and> (0 < tokens L k s \<longrightarrow> row_holder cl_grant_hash (sy_db s) k \<noteq> None)"

lemma one_token_mono:
  assumes "one_token L k s" and "tokens L k s' \<le> tokens L k s" and "goes L (sy_db s) (sy_db s')"
  shows "one_token L k s'"
proof -
  have "row_holder cl_grant_hash (sy_db s') k \<noteq> None" if "row_holder cl_grant_hash (sy_db s) k \<noteq> None"
    using that row_holder_extends [OF claim_keys(1)] assms(3) by (fastforce simp: goes_def)
  with assms(1,2) show ?thesis by (auto simp: one_token_def)
qed

lemma dispatched_grant [simp]: "rh_grant_hash (fst (dispatched_of cap)) = dc_grant_hash (cp_claim cap)"
  by (simp add: dispatched_of_def dispatch_with_def Let_def)

lemma filter_size_diff:
  "x \<in># M \<Longrightarrow> size (filter_mset P M) = size (filter_mset P (M - {#x#})) + (if P x then 1 else 0)"
  by (auto dest!: multi_member_split)

lemma exec_step_db: "exec_step L K s s' \<Longrightarrow> sound L (sy_db s) \<Longrightarrow> goes L (sy_db s) (sy_db s')"
  by (induction rule: exec_step.induct) (auto simp: goes_refl sx_step, metis sx_step snd_conv)

lemma call_one_token:
  assumes "one_token L k s" and "sound L (sy_db s)"
    and "Call op f \<in># sy_threads s" and "sql_step L (eng, op) (sy_db s) = (r, db')"
  shows "one_token L k (s\<lparr>sy_db := db', sy_threads := sy_threads s - {#Call op f#} + {#f r#}\<rparr>)"
    (is "one_token L k ?s'")
proof -
  from assms(3) obtain T where T: "sy_threads s = add_mset (Call op f) T"
    by (auto dest!: multi_member_split)
  define rest where "rest = tokens L k (s\<lparr>sy_threads := T\<rparr>)"
  have before: "tokens L k s = rest + (if holds L k (Call op f) then 1 else 0)"
    and after: "tokens L k ?s' = rest + (if holds L k (f r) then 1 else 0)"
    by (simp_all add: rest_def tokens_def T del: holds.simps)
  have db': "goes L (sy_db s) db'" using sx_step [OF assms(2)] assms(4) by (metis snd_conv)
  show ?thesis
  proof (cases "\<exists>v. row_won cl_grant_hash (eng, op) r = Some (k, v)")
    case True
    then obtain v where "row_won cl_grant_hash (eng, op) (fst (sql_step L (eng, op) (sy_db s))) = Some (k, v)"
      using assms(4) by auto
    note won = row_won_key [OF claim_keys(1) this]
    from won(1) assms(1) have "tokens L k s = 0" by (auto simp: one_token_def)
    with before after won(2) assms(4) show ?thesis by (simp add: one_token_def)
  next
    case False
    then have "holds L k (f r) \<longrightarrow> holds L k (Call op f)"
      using assms(4) by (auto intro!: exI [of _ eng] exI [of _ "sy_db s"])
    with before after have "tokens L k ?s' \<le> tokens L k s" by simp
    then show ?thesis using assms(1) db' by (auto intro: one_token_mono)
  qed
qed

lemma tokens_step:
  assumes "exec_step L K s s'"
  shows "tokens L k s' \<le> tokens L k s
    \<or> (\<exists>op f eng r db'. Call op f \<in># sy_threads s \<and> sql_step L (eng, op) (sy_db s) = (r, db')
         \<and> s' = s\<lparr>sy_db := db', sy_threads := sy_threads s - {#Call op f#} + {#f r#}\<rparr>)"
  using assms
proof (cases rule: exec_step.cases)
  case (start_dispatch policy claimed)
  then show ?thesis
    using filter_size_diff [OF start_dispatch(3), of "\<lambda>c. as_str (dc_grant_hash (ce_claim c)) = k"]
      holds_begin [of L k K]
    by (auto simp: tokens_def)
next
  case (look f eng)
  then show ?thesis using filter_size_diff [OF look(2), of "holds L k"]
    by (auto simp: tokens_def simp del: split_paired_Ex)
next
  case (finish_claim c)
  then show ?thesis using filter_size_diff [OF finish_claim(2), of "holds L k"] by (auto simp: tokens_def)
next
  case (finish_dispatch cap)
  then show ?thesis using filter_size_diff [OF finish_dispatch(2), of "holds L k"]
    by (auto simp: tokens_def)
next
  case (dispatch cap)
  then show ?thesis
    using filter_size_diff [OF dispatch(2), of "\<lambda>c. as_str (dc_grant_hash (cp_claim c)) = k"]
    by (auto simp: tokens_def split_def)
next
  case (crash T C P H)
  then show ?thesis
    by (auto simp: tokens_def intro!: add_mono size_mset_mono multiset_filter_mono)
next
  case (start_not_dispatched claimed evidence)
  then show ?thesis
    using filter_size_diff [OF start_not_dispatched(2), of "\<lambda>c. as_str (dc_grant_hash (ce_claim c)) = k"]
    by (auto simp: tokens_def holds_starts)
next
  case (call op f eng r db')
  then show ?thesis by blast
qed (auto simp: tokens_def holds_starts)

lemma exec_reachable_tokens:
  "exec_reachable L K s \<Longrightarrow> sound L (sy_db s) \<and> (\<forall>k. one_token L k s)"
proof (induction rule: exec_reachable.induct)
  case exec_start
  show ?case by (simp add: fresh_system_def sound_empty one_token_def tokens_def)
next
  case (exec_next s s')
  then have s: "sound L (sy_db s)" and one: "one_token L k s" for k by auto
  note db = exec_step_db [OF exec_next.hyps(2) s]
  have "one_token L k s'" for k
    using tokens_step [OF exec_next.hyps(2), of k]
  proof
    assume "tokens L k s' \<le> tokens L k s"
    from one_token_mono [OF one this db] show ?thesis .
  qed (blast intro: call_one_token [OF one s])
  with db show ?case by (simp add: goes_def)
qed

lemma filter_at_most_one_distinct:
  "(\<And>k. length (filter (\<lambda>x. f x = k) xs) \<le> 1) \<Longrightarrow> distinct (map f xs)"
proof (induction xs)
  case (Cons x xs)
  have "length (filter (\<lambda>y. f y = k) xs) \<le> 1" for k
    using Cons.prems [of k] by (auto split: if_splits)
  moreover have "filter (\<lambda>y. f y = f x) xs = []" using Cons.prems [of "f x"] by simp
  ultimately show ?case using Cons.IH by (auto simp: filter_empty_conv)
qed simp

section \<open>What each value is backed by\<close>

definition prepared_ok :: "lib \<Rightarrow> prepared_effect \<Rightarrow> bool" where
  "prepared_ok L p \<longleftrightarrow>
     prepare L (pe_commitment p) (pe_proposal p) (pe_decision p) (pe_grant p) (pe_documents p) = Inr p"

lemma prepare_okD:
  assumes "prepare L c p d g docs = Inr x"
  shows "x = \<lparr>pe_commitment = c, pe_proposal = p, pe_decision = d, pe_grant = g, pe_documents = docs,
      pe_grant_hash = pe_grant_hash x, pe_proposal_hash = pe_proposal_hash x\<rparr>
    \<and> verify_grant L c p d g = Inr (pe_grant_hash x) \<and> ep_commitment L p = Inr (pe_proposal_hash x)
    \<and> from_payload L (do_arguments docs) = ep_arguments_digest p
    \<and> from_payload L (do_expected_effect docs) = ep_expected_effect_digest p
    \<and> from_payload L (do_pre_state docs) = ep_pre_state_digest p
    \<and> from_payload L (do_resource_claim docs) = ep_resource_claim_digest p"
  using assms by (auto simp: prepare_def rbind_ok map_err_ok verify_document_def split: if_splits)

lemma prepared_okI: "prepare L c p d g docs = Inr x \<Longrightarrow> prepared_ok L x"
  using prepare_okD [of L c p d g docs x] unfolding prepared_ok_def
  by (cases x) simp

text \<open>An executor accepted the assertion for the grant of \<open>p\<close> at time \<open>now\<close>.\<close>

definition approved ::
    "lib \<Rightarrow> 'h cose_lib \<Rightarrow> prepared_effect \<Rightarrow> string \<Rightarrow> u64 \<Rightarrow> authority_evidence \<Rightarrow> bool" where
  "approved L K p assertion now evidence \<longleftrightarrow> (\<exists>policy snapshot v.
     policy_validate policy = Inr ()
     \<and> sn_configuration_epoch snapshot = tc_configuration_epoch (pe_commitment p)
     \<and> verify_authority L K assertion snapshot (authority_context policy p now) = Inr v
     \<and> evidence = evidence_from v)"

text \<open>The claim is inside the window of the prepared grant, which the database stores.\<close>

definition in_window :: "lib \<Rightarrow> prepared_effect \<Rightarrow> durable_claim \<Rightarrow> database \<Rightarrow> bool" where
  "in_window L p claim db \<longleftrightarrow>
     eg_not_before_ms (pe_grant p) \<le> dc_claimed_at_ms claim
     \<and> dc_claimed_at_ms claim < eg_expires_at_ms (pe_grant p)
     \<and> (\<exists>chain. held_chain L db (as_str (dc_grant_hash claim)) chain \<and> sc_grant chain = pe_grant p)"

definition claimed_ok :: "lib \<Rightarrow> 'h cose_lib \<Rightarrow> claimed_effect \<Rightarrow> database \<Rightarrow> bool" where
  "claimed_ok L K c db \<longleftrightarrow>
     prepared_ok L (ce_prepared c)
     \<and> dc_grant_hash (ce_claim c) = pe_grant_hash (ce_prepared c)
     \<and> row_holder cl_grant_hash db (as_str (dc_grant_hash (ce_claim c))) = Some (row_of_claim (ce_claim c))
     \<and> in_window L (ce_prepared c) (ce_claim c) db
     \<and> ae_audience (ce_authority c) = eg_audience (pe_grant (ce_prepared c))
     \<and> approved L K (ce_prepared c) (ce_signed_authority c) (dc_claimed_at_ms (ce_claim c)) (ce_authority c)"

definition capable_ok :: "lib \<Rightarrow> 'h cose_lib \<Rightarrow> dispatch_capability \<Rightarrow> database \<Rightarrow> bool" where
  "capable_ok L K cap db \<longleftrightarrow>
     (let p = cp_prepared cap; claim = cp_claim cap; t = cp_dispatched_at_ms cap in
      prepared_ok L p \<and> dc_grant_hash claim = pe_grant_hash p \<and> in_window L p claim db
      \<and> dc_claimed_at_ms claim \<le> t \<and> t < eg_expires_at_ms (pe_grant p)
      \<and> claim_of db (as_str (dc_grant_hash claim))
          = Some ((row_of_claim claim)\<lparr>cl_dispatch_started_at_ms := Some (uint t)\<rparr>)
      \<and> (\<exists>assertion first second. same_authority_identity first second
           \<and> ae_audience first = eg_audience (pe_grant p)
           \<and> approved L K p assertion (dc_claimed_at_ms claim) first
           \<and> approved L K p assertion t second))"

fun outcome_ok :: "lib \<Rightarrow> 'h cose_lib \<Rightarrow> outcome \<Rightarrow> database \<Rightarrow> bool" where
  "outcome_ok L K (Claimed c) db = claimed_ok L K c db"
| "outcome_ok L K (Capable cap) db = capable_ok L K cap db"
| "outcome_ok L K r db = True"

lemma in_window_goes: "in_window L p claim db \<Longrightarrow> goes L db db' \<Longrightarrow> in_window L p claim db'"
  unfolding in_window_def goes_def using held_chain_extends by blast

lemma claimed_ok_goes: "claimed_ok L K c db \<Longrightarrow> goes L db db' \<Longrightarrow> claimed_ok L K c db'"
  using ticket.holder_extends in_window_goes by (fastforce simp: claimed_ok_def goes_def)

lemma capable_ok_goes:
  assumes "capable_ok L K cap db" and "goes L db db'"
  shows "capable_ok L K cap db'"
proof -
  let ?row = "(row_of_claim (cp_claim cap))\<lparr>cl_dispatch_started_at_ms := Some (uint (cp_dispatched_at_ms cap))\<rparr>"
  have "claim_of db (as_str (dc_grant_hash (cp_claim cap))) = Some ?row"
    using assms(1) unfolding capable_ok_def Let_def by blast
  from claim_of_extends [OF _ this, of db'] assms(2)
  have "claim_of db' (as_str (dc_grant_hash (cp_claim cap))) = Some ?row"
    by (auto simp: goes_def claim_kept_def)
  with assms(1) in_window_goes [OF _ assms(2)] show ?thesis unfolding capable_ok_def Let_def by blast
qed

lemma outcome_ok_stable: "stable L (sums (outcome_ok L K))"
  unfolding stable_def
proof (intro allI impI)
  fix r :: "executor_error + outcome" and db db'
  assume "sums (outcome_ok L K) r db" and "goes L db db'"
  then show "sums (outcome_ok L K) r db'"
    by (cases r; cases "projr r") (auto intro: claimed_ok_goes capable_ok_goes)
qed

lemma claim_call_ok:
  assumes "sql_claim L eng g q now db = (Inr c, db')" and "sound L db"
  shows "dc_claimed_at_ms c = now \<and> eg_commitment L g = Inr (dc_grant_hash c)
    \<and> row_holder cl_grant_hash db' (as_str (dc_grant_hash c)) = Some (row_of_claim c)
    \<and> eg_not_before_ms g \<le> now \<and> now < eg_expires_at_ms g
    \<and> (\<exists>chain. held_chain L db' (as_str (dc_grant_hash c)) chain \<and> sc_grant chain = g)"
proof -
  from claim_okD [OF assms(1)] obtain h raw chain s where c: "c = claim_result h q now" "eg_commitment L g = Inr h"
    and chain: "chain_by_id db (eg_grant_id g) = Some raw" "decode_chain L raw = Inr chain"
      "sc_grant_hash chain = h" "sc_grant chain = g" "claim_currentness chain s q now = Inr ()"
    by blast
  let ?op = "(eng, SqlClaim g q now)"
  have won: "row_won cl_grant_hash ?op (fst (sql_step L ?op db)) = Some (as_str (dc_grant_hash c), row_of_claim c)"
    and db': "snd (sql_step L ?op db) = db'"
    using assms(1) by (simp_all add: row_of_claim_def)
  from chain c(1) have "held_chain L db (as_str (dc_grant_hash c)) chain"
    using lookup_key(2) decode_chain_ok by (force simp: held_chain_def claim_result_def)
  then have "held_chain L db' (as_str (dc_grant_hash c)) chain"
    using held_chain_extends sx.extends_step [OF assms(2), of ?op] unfolding db' by blast
  moreover have "row_holder cl_grant_hash db' (as_str (dc_grant_hash c)) = Some (row_of_claim c)"
    using ticket.win_holds [OF assms(2) won] unfolding db' .
  moreover have "eg_not_before_ms g \<le> now \<and> now < eg_expires_at_ms g"
    using chain(4,5) by (auto simp: claim_currentness_ok)
  moreover have "dc_claimed_at_ms c = now" "eg_commitment L g = Inr (dc_grant_hash c)"
    using c by (simp_all add: claim_result_def)
  ultimately show ?thesis using chain(4) by blast
qed

lemma verified_evidence:
  assumes "verify_authority L K assertion snapshot (authority_context policy p now) = Inr v"
  shows "ae_audience (evidence_from v) = po_audience policy"
  using assms by (simp add: verify_authority_ok verify_bindings_ok evidence_from_def Let_def authority_context_def)

text \<open>A call whose result is not needed.\<close>

lemma assured_next:
  assumes "sound L db" and "\<And>db'. sound L db' \<Longrightarrow> assured L (sums R) rest db'"
  shows "assured L (sums R) (andthen (store_call c returned) (\<lambda>_. rest)) db"
proof (rule assured_andthen [where Q = "\<lambda>_ _. True", OF _ assms(1)])
  show "assured L (sums R) rest db'" if "goes L db db'" for db'
    using that by (intro assms(2)) (simp add: goes_def)
qed (rule assured_store_call; simp)

lemma authorize_assured:
  assumes "prepared_ok L p" and "policy_validate policy = Inr ()" and "sound L db"
  shows "assured L (sums (claimed_ok L K))
    (authorize_and_claim L K policy p assertion snapshot currentness attempt now) db"
  unfolding authorize_and_claim_def
proof (intro assured_pure [OF assms(3)] assured_next [OF assms(3)], goal_cases)
  case (1 u v db1)
  have epoch: "sn_configuration_epoch snapshot = tc_configuration_epoch (pe_commitment p)"
    and aud: "eg_audience (pe_grant p) = po_audience policy" using 1(1) by (auto simp: authorize_checks_def ok_iff)
  have v: "verify_authority L K assertion snapshot (authority_context policy p now) = Inr v"
    using 1(2) by (simp add: map_err_ok)
  have hash: "eg_commitment L (pe_grant p) = Inr (pe_grant_hash p)"
    using assms(1) prepare_okD by (fastforce simp: prepared_ok_def ok_iff)
  let ?won = "\<lambda>c db'. dc_claimed_at_ms c = now \<and> eg_commitment L (pe_grant p) = Inr (dc_grant_hash c)
    \<and> row_holder cl_grant_hash db' (as_str (dc_grant_hash c)) = Some (row_of_claim c)
    \<and> eg_not_before_ms (pe_grant p) \<le> now \<and> now < eg_expires_at_ms (pe_grant p)
    \<and> (\<exists>chain. held_chain L db' (as_str (dc_grant_hash c)) chain \<and> sc_grant chain = pe_grant p)"
  show ?case
  proof (rule assured_next [OF 1(3)], rule assured_andthen [where Q = ?won], rule assured_store_call, goal_cases)
    case (1 db2 eng db3 x)
    then have "sound L db3" by (simp add: goes_def)
    with 1(3) show ?case by (auto split: prod.splits dest!: claim_call_ok)
  next
    case (3 db2 c db3)
    with assms(1,2) epoch aud v hash verified_evidence [OF v] show ?case
      by (auto simp: claimed_ok_def approved_def in_window_def)
  qed
qed

text \<open>A marker that is written for a claimed effect lies in the grant's window.\<close>

definition marked_at :: "claimed_effect \<Rightarrow> u64 \<Rightarrow> dispatch_marker \<Rightarrow> database \<Rightarrow> bool" where
  "marked_at c now m db \<longleftrightarrow>
     dm_dispatched_at_ms m = now \<and> dc_claimed_at_ms (ce_claim c) \<le> now
     \<and> now < eg_expires_at_ms (pe_grant (ce_prepared c))
     \<and> claim_of db (as_str (dc_grant_hash (ce_claim c)))
         = Some ((row_of_claim (ce_claim c))\<lparr>cl_dispatch_started_at_ms := Some (uint now)\<rparr>)"

lemma mark_in_window:
  assumes c: "claimed_ok L K c db" and db1: "goes L db db1"
    and step: "mark_dispatch_started L eng (dc_grant_hash (ce_claim c)) (dc_attempt_id (ce_claim c)) now db1
      = (Inr m, db')" and db': "goes L db db'"
  shows "marked_at c now m db'"
proof -
  let ?h = "dc_grant_hash (ce_claim c)"
  from claimed_ok_goes [OF c db1] obtain row where
      row: "claim_of db1 (as_str ?h) = Some row" "claim_core row = row_of_claim (ce_claim c)"
    by (auto simp: claimed_ok_def row_holder_def claim_of_def)
  from mark_leaves_marker [OF step] row obtain cl where cl: "claim_of db' (as_str ?h) = Some cl"
    "cl_dispatch_started_at_ms cl = Some (uint now)" "claim_core cl = row_of_claim (ce_claim c)"
    by (auto simp: claim_core_def)
  have cl': "cl = (claim_core cl)\<lparr>cl_dispatch_started_at_ms := Some (uint now)\<rparr>"
    using cl(2) by (cases cl) (simp add: claim_core_def)
  have hash: "cl_grant_hash cl = as_str ?h" and "marker_ok L db' cl"
    using lookup_key(4) [OF cl(1)] db' by (auto simp: goes_def sound_def)
  then obtain chain where chain: "held_chain L db' (as_str ?h) chain"
      "cl_claimed_at_ms cl \<le> uint now" "uint now < uint (eg_expires_at_ms (sc_grant chain))"
    unfolding marker_ok_def hash using cl(2) by blast
  have "in_window L (ce_prepared c) (ce_claim c) db" using c by (simp add: claimed_ok_def)
  from in_window_goes [OF this db'] obtain chain' where
      "held_chain L db' (as_str ?h) chain'" "sc_grant chain' = pe_grant (ce_prepared c)"
    unfolding in_window_def by blast
  with held_chain_unique [OF _ chain(1)] db' have "sc_grant chain = pe_grant (ce_prepared c)"
    by (auto simp: goes_def sound_def)
  moreover have "cl_claimed_at_ms cl = uint (dc_claimed_at_ms (ce_claim c))"
    using arg_cong [OF cl(3), of cl_claimed_at_ms] by (simp add: claim_core_def row_of_claim_def)
  ultimately show ?thesis
    using chain cl mark_okD [OF step] cl' by (auto simp: marked_at_def word_le_def word_less_def)
qed

lemma begin_assured:
  assumes "claimed_ok L K c db" and "policy_validate policy = Inr ()" and "sound L db"
  shows "assured L (sums (capable_ok L K)) (begin_dispatch L K policy c snapshot now) db"
  unfolding begin_dispatch_def
proof (intro assured_pure [OF assms(3)])
  fix u v w
  assume "ensure (\<not> sn_configuration_epoch snapshot \<noteq> tc_configuration_epoch (pe_commitment (ce_prepared c)))
      AuthorityConfigurationEpochMismatch = Inr u"
    and "map_err EX_Authority (verify_authority L K (ce_signed_authority c) snapshot
      (authority_context policy (ce_prepared c) now)) = Inr v"
    and "ensure (same_authority_identity (ce_authority c) (evidence_from v)) AuthorityChangedAfterClaim = Inr w"
  then have again: "approved L K (ce_prepared c) (ce_signed_authority c) now (evidence_from v)"
    and same: "same_authority_identity (ce_authority c) (evidence_from v)"
    using assms(2) by (auto simp: approved_def ensure_ok map_err_ok)
  let ?h = "dc_grant_hash (ce_claim c)"
  show "assured L (sums (capable_ok L K))
      (andthen (store_call (SqlMark ?h (dc_attempt_id (ce_claim c)) now) returned_marker) (\<lambda>marker.
       Done (Inr \<lparr>cp_prepared = ce_prepared c, cp_claim = ce_claim c,
         cp_dispatched_at_ms = dm_dispatched_at_ms marker\<rparr>))) db"
  proof (rule assured_andthen [where Q = "marked_at c now", OF _ assms(3)], rule assured_store_call)
    fix eng db1 m assume db1: "goes L db db1"
    let ?s = "sql_step L (eng, SqlMark ?h (dc_attempt_id (ce_claim c)) now) db1"
    assume "returned_marker (fst ?s) = Inr m"
    then have step: "mark_dispatch_started L eng ?h (dc_attempt_id (ce_claim c)) now db1 = (Inr m, snd ?s)"
      by (auto split: prod.splits)
    have "sound L db1" using db1 by (simp add: goes_def)
    from goes_trans [OF db1 sx_step [OF this]] have "goes L db (snd ?s)" .
    with mark_in_window [OF assms(1) db1 step] show "marked_at c now m (snd ?s)" .
  next
    fix m db' assume "marked_at c now m db'" and later: "goes L db db'"
    with assms(1) again same in_window_goes [OF _ later] show "assured L (sums (capable_ok L K))
        (Done (Inr \<lparr>cp_prepared = ce_prepared c, cp_claim = ce_claim c,
           cp_dispatched_at_ms = dm_dispatched_at_ms m\<rparr>)) db'"
      by (auto simp: capable_ok_def claimed_ok_def marked_at_def Let_def)
  qed
qed

section \<open>The system keeps it\<close>

definition backed :: "lib \<Rightarrow> 'h cose_lib \<Rightarrow> system \<Rightarrow> bool" where
  "backed L K s \<longleftrightarrow>
     (\<forall>p \<in># sy_threads s. assured L (sums (outcome_ok L K)) p (sy_db s))
     \<and> (\<forall>c \<in># sy_claimed s. claimed_ok L K c (sy_db s))
     \<and> (\<forall>cap \<in># sy_capable s. capable_ok L K cap (sy_db s))
     \<and> (\<forall>d \<in> set (sy_dispatched s). \<exists>cap. d = dispatched_of cap \<and> capable_ok L K cap (sy_db s))"

lemma backed_goes:
  assumes "backed L K s" and "goes L (sy_db s) db'"
  shows "backed L K (s\<lparr>sy_db := db'\<rparr>)"
proof -
  note kept = assured_goes [OF outcome_ok_stable _ assms(2)] claimed_ok_goes [OF _ assms(2)]
    capable_ok_goes [OF _ assms(2)]
  show ?thesis using assms(1) unfolding backed_def by (auto intro: kept) (metis kept(3))
qed

lemma yields_assured:
  assumes "sound L db"
  shows "assured L (sums Q) p db \<Longrightarrow> (\<And>x db'. Q x db' \<Longrightarrow> outcome_ok L K (f x) db') \<Longrightarrow>
      assured L (sums (outcome_ok L K)) (yields f p) db"
    and "(\<And>x db'. outcome_ok L K (f x) db') \<Longrightarrow> assured L (sums (outcome_ok L K)) (yields f p) db"
proof -
  show "assured L (sums Q) p db \<Longrightarrow> (\<And>x db'. Q x db' \<Longrightarrow> outcome_ok L K (f x) db') \<Longrightarrow>
      assured L (sums (outcome_ok L K)) (yields f p) db"
    by (erule assured_andthen [OF _ assms]) simp
  show "(\<And>x db'. outcome_ok L K (f x) db') \<Longrightarrow> assured L (sums (outcome_ok L K)) (yields f p) db"
    by (rule assured_andthen [where Q = "\<lambda>_ _. True", OF assured_anything assms])
       (auto simp: sums_def split: sum.splits)
qed

lemma backed_step:
  assumes "exec_step L K s s'" and "backed L K s" and "sound L (sy_db s)"
  shows "backed L K s'"
proof -
  note claim = yields_assured(1) [OF assms(3) authorize_assured [OF _ _ assms(3)],
      where f = Claimed]
    and mark = yields_assured(1) [OF assms(3) begin_assured [OF _ _ assms(3)], where f = Capable]
    and other = yields_assured(2) [OF assms(3)]
  from assms(1) show ?thesis
  proof (cases rule: exec_step.cases)
    case (call op f eng r db')
    then have db': "r = fst (sql_step L (eng, op) (sy_db s))" "db' = snd (sql_step L (eng, op) (sy_db s))"
      by auto
    have "assured L (sums (outcome_ok L K)) (Call op f) (sy_db s)" using assms(2) call(2) by (auto simp: backed_def)
    then have "assured L (sums (outcome_ok L K)) (f r) db'"
      using goes_refl [OF assms(3)] unfolding db' by auto
    moreover have "backed L K (s\<lparr>sy_db := db'\<rparr>)"
      using backed_goes [OF assms(2)] sx_step [OF assms(3)] unfolding db' by blast
    ultimately show ?thesis unfolding call(1) by (auto simp: backed_def dest: in_diffD)
  next
    case (look f eng)
    have "assured L (sums (outcome_ok L K)) (Look f) (sy_db s)" using assms(2) look(2) by (auto simp: backed_def)
    then have "assured L (sums (outcome_ok L K)) (f (eng, sy_db s)) (sy_db s)"
      using goes_refl [OF assms(3)] by auto
    with assms(2) show ?thesis unfolding look(1) by (auto simp: backed_def dest: in_diffD)
  next
    case (foreign eng op)
    then show ?thesis using backed_goes [OF assms(2)] sx_step [OF assms(3)] by simp
  next
    case (start_claim policy c p d g docs prepared assertion snapshot currentness attempt now)
    from claim [OF prepared_okI [OF start_claim(3)] start_claim(2), of K] assms(2)
    show ?thesis unfolding start_claim(1) by (auto simp: backed_def)
  next
    case (start_dispatch policy claimed snapshot now)
    then have "claimed_ok L K claimed (sy_db s)" using assms(2) by (auto simp: backed_def)
    from mark [OF this start_dispatch(2), of K] assms(2) show ?thesis unfolding start_dispatch(1)
      by (auto simp: backed_def dest: in_diffD)
  next
    case (finish_claim c)
    then have "assured L (sums (outcome_ok L K)) (Done (Inr (Claimed c))) (sy_db s)"
      using assms(2) by (auto simp: backed_def)
    with assms(2) show ?thesis unfolding finish_claim(1) by (auto simp: backed_def dest: in_diffD)
  next
    case (finish_dispatch cap)
    then have "assured L (sums (outcome_ok L K)) (Done (Inr (Capable cap))) (sy_db s)"
      using assms(2) by (auto simp: backed_def)
    with assms(2) show ?thesis unfolding finish_dispatch(1) by (auto simp: backed_def dest: in_diffD)
  next
    case (dispatch cap)
    with assms(2) show ?thesis unfolding dispatch(1) by (auto simp: backed_def dest: in_diffD)
  next
    case (crash T C P H)
    with assms(2) show ?thesis unfolding crash(1) by (auto simp: backed_def dest: mset_subset_eqD)
  qed (use assms(2) in \<open>auto simp: backed_def dest: in_diffD intro!: other\<close>)
qed

lemma exec_reachable_backed: "exec_reachable L K s \<Longrightarrow> backed L K s"
proof (induction rule: exec_reachable.induct)
  case exec_start
  show ?case by (simp add: backed_def fresh_system_def)
next
  case (exec_next s s')
  with exec_reachable_tokens show ?case by (blast intro: backed_step)
qed

end
