(* ===== verification/Executor_Fixtures.thy ===== *)
theory Executor_Fixtures
  imports Executor_System Sqlite_Fixtures Authority_Fixtures
begin

text \<open>
  A complete run of the executor on the fixture chain, from the prepared effect to the adapter,
  with an assertion about the fixture grant; and the run of a second process that closes the
  claim as not dispatched before the first one goes on.
\<close>

section \<open>The prepared effect and its authority\<close>

definition fx_docs :: effect_documents where
  "fx_docs = \<lparr>do_arguments = ''arguments'', do_expected_effect = ''expected effect'',
     do_pre_state = ''pre-state'', do_resource_claim = ''resources''\<rparr>"

definition fx_prepared :: prepared_effect where
  "fx_prepared = \<lparr>pe_commitment = fx_tc, pe_proposal = fx_ep, pe_decision = fx_ad, pe_grant = fx_eg,
     pe_documents = fx_docs, pe_grant_hash = eg_hash, pe_proposal_hash = ep_hash\<rparr>"

lemma fx_prepare: "prepare ref_lib fx_tc fx_ep fx_ad fx_eg fx_docs = Inr fx_prepared"
proof -
  have "validate_limits fx_docs = Inr ()"
    by (simp add: validate_limits_def fx_docs_def MAX_TRANSPORT_INPUT_BYTES_def)
  moreover have "ep_arguments_digest fx_ep = from_payload ref_lib (do_arguments fx_docs)"
    "ep_expected_effect_digest fx_ep = from_payload ref_lib (do_expected_effect fx_docs)"
    "ep_pre_state_digest fx_ep = from_payload ref_lib (do_pre_state fx_docs)"
    "ep_resource_claim_digest fx_ep = from_payload ref_lib (do_resource_claim fx_docs)"
    by (simp_all add: fx_ep_def fx_docs_def fx_digest_def)
  ultimately show ?thesis
    by (simp add: prepare_def fx_verify_grant fx_commitments verify_document_def fx_prepared_def)
qed

definition fx_policy :: executor_policy where
  "fx_policy = \<lparr>po_audience = ''executor:local'', po_authority_role = ''policy-authorizer'',
     po_maximum_authority_snapshot_age_ms = 1000, po_maximum_currentness_age_ms = 1000\<rparr>"

lemma fx_policy_valid: "policy_validate fx_policy = Inr ()"
  by (simp add: policy_validate_def fx_policy_def ex_validate_text_def ex_validate_token_def text_eval
      MAX_AUTHORITY_SNAPSHOT_AGE_MS_def MAX_CURRENTNESS_AGE_MS_def)

definition fx_grant_au :: authority_statement where
  "fx_grant_au = fx_au\<lparr>au_record_profile := CORE_RECORD_PROFILE, au_record_kind := KExecutionGrant,
     au_record_digest := eg_hash\<rparr>"

lemma fx_grant_au_valid: "au_validate fx_grant_au = Inr ()"
  by (simp add: au_validate_def fx_grant_au_def fx_au_def au_eval AUTHORITY_PROFILE_VERSION_def
      CORE_RECORD_PROFILE_def)

lemma fx_grant_au_fields:
  "au_issuer fx_grant_au = sa_issuer fx_sa" "au_key_id fx_grant_au = sa_key_id fx_sa"
  "digest_ok (au_record_digest fx_grant_au)"
  by (simp_all add: fx_grant_au_def fx_au_def fx_sa_def eg_hash_ok)

definition fx_assertion :: string where
  "fx_assertion = (case sign ref_lib ref_cose fx_sa fx_grant_au of Inl e \<Rightarrow> [] | Inr e \<Rightarrow> e)"

lemma fx_assertion_signed: "sign ref_lib ref_cose fx_sa fx_grant_au = Inr fx_assertion"
proof -
  have "\<exists>e. sign ref_lib ref_cose fx_sa fx_grant_au = Inr e"
    using eg_hash_ok
    by (intro fixture_signs fx_grant_au_valid fx_grant_au_fields)
       (simp add: fx_grant_au_def au_value_def fx_au_def AUTHORITY_PROFILE_def CORE_RECORD_PROFILE_def)
  then show ?thesis by (auto simp: fx_assertion_def)
qed

definition fx_verified :: "u64 \<Rightarrow> verified_authority" where
  "fx_verified now = \<lparr>vy_statement = fx_grant_au, vy_verified_at_ms = now,
     vy_snapshot_observed_at_ms = sn_observed_at_ms fx_sn,
     vy_verifying_key_digest = from_payload ref_lib (bytes_text (sn_public_key fx_sn))\<rparr>"

lemma fx_authority:
  assumes "now = 4000 \<or> now = 4100"
  shows "verify_authority ref_lib ref_cose fx_assertion fx_sn (authority_context fx_policy fx_prepared now)
    = Inr (fx_verified now)"
proof -
  let ?c = "authority_context fx_policy fx_prepared now"
  have now: "cx_now_ms ?c = now" by (simp add: authority_context_def)
  have "cx_validate ?c = Inr ()"
    using assms by (auto simp: cx_validate_def authority_context_def fx_policy_def fx_prepared_def au_eval
        CORE_RECORD_PROFILE_def) (simp_all add: fx_eg_def)
  moreover have "verify_bindings fx_grant_au fx_sn ?c = Inr ()"
    using assms by (auto simp: verify_bindings_def authority_context_def fx_policy_def fx_prepared_def
        fx_grant_au_def fx_au_def fx_sn_def) (simp_all add: fx_eg_def)
  ultimately show ?thesis
    using fixture_accepts [OF fx_assertion_signed fx_grant_au_fields(3,1,2)]
    by (simp add: fx_verified_def now)
qed

section \<open>The methods without interference\<close>

definition fx_claimed :: claimed_effect where
  "fx_claimed = \<lparr>ce_prepared = fx_prepared, ce_claim = fx_durable,
     ce_authority = evidence_from (fx_verified 4000), ce_signed_authority = fx_assertion\<rparr>"

definition fx_capability :: dispatch_capability where
  "fx_capability = \<lparr>cp_prepared = fx_prepared, cp_claim = fx_durable, cp_dispatched_at_ms = 4100\<rparr>"

definition fx_nr :: not_dispatched_recovery where
  "fx_nr = \<lparr>nr_receipt_id = ''receipt-2'', nr_proposal_hash = ep_hash, nr_grant_hash = eg_hash,
     nr_attempt_id = ''attempt-1'', nr_completed_at_ms = 4200,
     nr_observation_digest = er_observation_digest fx_er\<rparr>"

lemma fx_authorize:
  "run_alone ref_lib no_faults (authorize_and_claim ref_lib ref_cose fx_policy fx_prepared fx_assertion
     fx_sn fx_snapshot ''attempt-1'' 4000) empty_database = (Inr fx_claimed, fx_db3)"
proof -
  have checks: "authorize_checks fx_policy fx_prepared fx_sn fx_snapshot 4000 = Inr ()"
    by (simp add: authorize_checks_def check_currentness_freshness_def fx_policy_def fx_prepared_def
        fx_sn_def fx_snapshot_def) (simp add: fx_eg_def fx_tc_def)
  have request: "\<lparr>cq_attempt_id = ''attempt-1'', cq_expected_audience = po_audience fx_policy,
      cq_currentness_key = cu_key fx_snapshot, cq_expected_snapshot_version = cu_version fx_snapshot,
      cq_maximum_snapshot_age_ms = po_maximum_currentness_age_ms fx_policy\<rparr> = fx_claim_request"
    by (simp add: fx_policy_def fx_snapshot_def fx_claim_request_def)
  have p: "pe_commitment fx_prepared = fx_tc" "pe_proposal fx_prepared = fx_ep"
    "pe_decision fx_prepared = fx_ad" "pe_grant fx_prepared = fx_eg"
    by (simp_all add: fx_prepared_def)
  show ?thesis
    by (simp add: authorize_and_claim_def run_alone_andthen checks fx_authority request p fx_register fx_put
        fx_sql_claim fx_claimed_def)
qed

lemma fx_begin:
  assumes "db = fx_db3 \<and> db' = fx_db4 \<or> db = fx_db3n \<and> db' = fx_db4n"
  shows "run_alone ref_lib no_faults (begin_dispatch ref_lib ref_cose fx_policy fx_claimed fx_sn 4100) db
    = (Inr fx_capability, db')"
proof -
  have f: "sn_configuration_epoch fx_sn = tc_configuration_epoch (pe_commitment (ce_prepared fx_claimed))"
    "ce_prepared fx_claimed = fx_prepared" "ce_signed_authority fx_claimed = fx_assertion"
    "same_authority_identity (ce_authority fx_claimed) (evidence_from (fx_verified 4100))"
    by (simp_all add: fx_sn_def fx_claimed_def fx_prepared_def same_authority_identity_def evidence_from_def
        fx_verified_def Let_def) (simp add: fx_tc_def)
  have c: "ce_claim fx_claimed = fx_durable" "dc_grant_hash fx_durable = eg_hash"
    "dc_attempt_id fx_durable = ''attempt-1''"
    by (simp_all add: fx_claimed_def fx_durable_def claim_result_def fx_claim_request_def)
  from assms show ?thesis
    by (auto simp: begin_dispatch_def run_alone_andthen fx_authority f c fx_mark fx_marker_def fx_capability_def)
qed

lemma fx_recover:
  "run_alone ref_lib no_faults (record_recovered_not_dispatched ref_lib fx_nr) fx_db3 = (Inr nd_hash, fx_db3n)"
proof -
  have lc: "lifecycle_of ref_lib no_faults eg_hash fx_db3
      = Inr \<lparr>lc_grant_hash = eg_hash, lc_claim = Some fx_durable, lc_receipt = None, lc_reconciliations = []\<rparr>"
    by (simp add: read_lifecycle_def fx_chain_loaded fx_claim_loaded fx_receipt_loaded)
  have receipt: "\<lparr>er_version = 1, er_receipt_id = nr_receipt_id fx_nr, er_proposal_hash = nr_proposal_hash fx_nr,
      er_grant_hash = eg_hash, er_attempt_id = nr_attempt_id fx_nr,
      er_claimed_at_ms = dc_claimed_at_ms fx_durable, er_dispatched_at_ms = None,
      er_completed_at_ms = nr_completed_at_ms fx_nr, er_outcome = NotDispatched,
      er_observation_digest = nr_observation_digest fx_nr\<rparr> = fx_nd"
    by (simp add: fx_nr_def fx_nd_def fx_durable_def claim_result_def) (simp add: fx_er_def)
  have c: "nr_grant_hash fx_nr = eg_hash" "dc_attempt_id fx_durable = nr_attempt_id fx_nr"
    "dc_dispatch_started_at_ms fx_durable = None"
    by (simp_all add: fx_nr_def fx_durable_def claim_result_def fx_claim_request_def)
  show ?thesis
    by (simp add: record_recovered_not_dispatched_def run_alone_andthen lc receipt c fx_record)
qed

section \<open>The runs\<close>

lemma fx_yields:
  "run_alone L eng (yields f p) db =
     (case run_alone L eng p db of (Inl e, db') \<Rightarrow> (Inl e, db') | (Inr x, db') \<Rightarrow> (Inr (f x), db'))"
  by (simp add: run_alone_andthen split: prod.split sum.split)

definition fx_owner :: "database \<Rightarrow> system" where
  "fx_owner db = fresh_system\<lparr>sy_db := db, sy_claimed := {#fx_claimed#}\<rparr>"

lemma fx_owner_reachable: "exec_reachable ref_lib ref_cose (fx_owner fx_db3)"
proof -
  let ?p = "yields Claimed (authorize_and_claim ref_lib ref_cose fx_policy fx_prepared fx_assertion
     fx_sn fx_snapshot ''attempt-1'' 4000)"
  have "exec_reachable ref_lib ref_cose (fresh_system\<lparr>sy_threads := {#?p#}\<rparr>)"
    using exec_next [OF exec_start start_claim [OF fx_policy_valid fx_prepare]]
    by (simp add: fresh_system_def)
  from thread_runs [OF this, of ?p "{#}" no_faults "Inr (Claimed fx_claimed)" fx_db3]
  have "exec_reachable ref_lib ref_cose
      (fresh_system\<lparr>sy_db := fx_db3, sy_threads := {#Done (Inr (Claimed fx_claimed))#}\<rparr>)"
    by (simp add: fx_yields fx_authorize fresh_system_def)
  from exec_next [OF this finish_claim [of fx_claimed]] show ?thesis
    by (simp add: fresh_system_def fx_owner_def)
qed

text \<open>A second process records that the claim was not dispatched.\<close>

lemma fx_closed_reachable: "exec_reachable ref_lib ref_cose (fx_owner fx_db3n)"
proof -
  let ?p = "yields Recorded (record_recovered_not_dispatched ref_lib fx_nr)"
  have "exec_reachable ref_lib ref_cose ((fx_owner fx_db3)\<lparr>sy_threads := {#?p#}\<rparr>)"
    using exec_next [OF fx_owner_reachable start_recover_not_dispatched]
    by (simp add: fresh_system_def fx_owner_def)
  from thread_runs [OF this, of ?p "{#}" no_faults "Inr (Recorded nd_hash)" fx_db3n]
  have "exec_reachable ref_lib ref_cose ((fx_owner fx_db3n)\<lparr>sy_threads := {#Done (Inr (Recorded nd_hash))#}\<rparr>)"
    by (simp add: fx_yields fx_recover fresh_system_def fx_owner_def)
  from exec_next [OF this crash [of "{#}" _ "{#fx_claimed#}" "{#}" "{#}"]] show ?thesis
    by (simp add: fresh_system_def fx_owner_def)
qed

text \<open>The first process dispatches.\<close>

definition fx_dispatched :: "database \<Rightarrow> system" where
  "fx_dispatched db = fresh_system\<lparr>sy_db := db, sy_handles := {#fst (dispatched_of fx_capability)#},
     sy_dispatched := [dispatched_of fx_capability]\<rparr>"

lemma fx_dispatched_reachable:
  assumes "exec_reachable ref_lib ref_cose (fx_owner db)"
    and "db = fx_db3 \<and> db' = fx_db4 \<or> db = fx_db3n \<and> db' = fx_db4n"
  shows "exec_reachable ref_lib ref_cose (fx_dispatched db')"
proof -
  let ?p = "yields Capable (begin_dispatch ref_lib ref_cose fx_policy fx_claimed fx_sn 4100)"
  have "exec_reachable ref_lib ref_cose (fresh_system\<lparr>sy_db := db, sy_threads := {#?p#}\<rparr>)"
    using exec_next [OF assms(1) start_dispatch [OF fx_policy_valid, of fx_claimed]]
    by (simp add: fresh_system_def fx_owner_def)
  from thread_runs [OF this, of ?p "{#}" no_faults "Inr (Capable fx_capability)" db']
  have "exec_reachable ref_lib ref_cose
      (fresh_system\<lparr>sy_db := db', sy_threads := {#Done (Inr (Capable fx_capability))#}\<rparr>)"
    by (simp add: fx_yields fx_begin [OF assms(2)] fresh_system_def)
  from exec_next [OF this finish_dispatch [of fx_capability]]
  have "exec_reachable ref_lib ref_cose (fresh_system\<lparr>sy_db := db', sy_capable := {#fx_capability#}\<rparr>)"
    by (simp add: fresh_system_def)
  from exec_next [OF this dispatch [of fx_capability]] show ?thesis
    by (simp add: fresh_system_def fx_dispatched_def)
qed

end
