(* ===== verification/Executor_Properties.thy ===== *)
theory Executor_Properties
  imports Executor_Safety Executor_Fixtures Sqlite_Progress Fixture_Twins
begin

text \<open>
  The properties of the executor. The first ones hold in every state that any number of
  executors, with crashes, engine failures and other users of the store, reach on one database.
\<close>

section \<open>Dispatch\<close>

text \<open>
  C1: At most one dispatch per grant: over all executors, attempts and crashes, and whatever
  else calls the store, no two calls of a target adapter are for the same grant hash.
\<close>

theorem executor_dispatches_once:
  assumes "exec_reachable L K s"
  shows "distinct (map (rh_grant_hash \<circ> fst) (sy_dispatched s))"
proof -
  have "length (filter (\<lambda>d. as_str (rh_grant_hash (fst d)) = k) (sy_dispatched s)) \<le> tokens L k s" for k
    by (simp add: tokens_def split_def)
  with exec_reachable_tokens [OF assms]
  have "distinct (map (\<lambda>d. as_str (rh_grant_hash (fst d))) (sy_dispatched s))"
    by (intro filter_at_most_one_distinct) (auto simp: one_token_def intro: order_trans)
  then show ?thesis by (auto simp: distinct_map inj_on_def)
qed

theorem executor_dispatches_once_witness:
  "\<exists>s. exec_reachable ref_lib ref_cose s \<and> map (rh_grant_hash \<circ> fst) (sy_dispatched s) = [eg_hash]
     \<and> distinct (map (rh_grant_hash \<circ> fst) (sy_dispatched s))"
proof -
  have s: "exec_reachable ref_lib ref_cose (fx_dispatched fx_db4)"
    using fx_dispatched_reachable [OF fx_owner_reachable] by blast
  have d: "map (rh_grant_hash \<circ> fst) (sy_dispatched (fx_dispatched fx_db4)) = [eg_hash]"
    by (simp add: fx_dispatched_def fx_capability_def fx_durable_def claim_result_def)
  show ?thesis
    by (rule exI [of _ "fx_dispatched fx_db4"]) (rule conjI [OF s conjI [OF d executor_dispatches_once [OF s]]])
qed

text \<open>
  C2: What an adapter gets is authorized: its profile, operation, target and documents are those
  of a chain that \<open>verify_grant\<close> accepts with the grant hash of the handle, and the documents
  have the digests of the proposal; the database holds the claim of this attempt with exactly
  this dispatch marker; claim and marker lie in the grant's window, in this order; and at both
  times an executor with a valid policy accepted the same signed assertion for this grant, by
  the same authority, for the grant's audience.
\<close>

theorem executor_dispatch_backed:
  assumes "exec_reachable L K s" and "(handle, exact) \<in> set (sy_dispatched s)"
  shows "\<exists>x row assertion first second.
    verify_grant L (pe_commitment x) (pe_proposal x) (pe_decision x) (pe_grant x)
      = Inr (rh_grant_hash handle)
    \<and> exact = \<lparr>xe_effect_profile = ep_effect_profile (pe_proposal x),
        xe_operation = ep_operation (pe_proposal x), xe_target = ep_target (pe_proposal x),
        xe_documents = pe_documents x\<rparr>
    \<and> from_payload L (do_arguments (pe_documents x)) = ep_arguments_digest (pe_proposal x)
    \<and> from_payload L (do_expected_effect (pe_documents x)) = ep_expected_effect_digest (pe_proposal x)
    \<and> from_payload L (do_pre_state (pe_documents x)) = ep_pre_state_digest (pe_proposal x)
    \<and> from_payload L (do_resource_claim (pe_documents x)) = ep_resource_claim_digest (pe_proposal x)
    \<and> claim_of (sy_db s) (as_str (rh_grant_hash handle)) = Some row
    \<and> cl_attempt_id row = rh_attempt_id handle \<and> cl_claimed_at_ms row = uint (rh_claimed_at_ms handle)
    \<and> cl_dispatch_started_at_ms row = Some (uint (rh_dispatched_at_ms handle))
    \<and> eg_not_before_ms (pe_grant x) \<le> rh_claimed_at_ms handle
    \<and> rh_claimed_at_ms handle \<le> rh_dispatched_at_ms handle
    \<and> rh_dispatched_at_ms handle < eg_expires_at_ms (pe_grant x)
    \<and> same_authority_identity first second \<and> ae_audience first = eg_audience (pe_grant x)
    \<and> approved L K x assertion (rh_claimed_at_ms handle) first
    \<and> approved L K x assertion (rh_dispatched_at_ms handle) second"
proof -
  from exec_reachable_backed [OF assms(1)] assms(2) obtain cap where
      d: "(handle, exact) = dispatched_of cap" and cap: "capable_ok L K cap (sy_db s)"
    by (auto simp: backed_def)
  let ?x = "cp_prepared cap" and ?c = "cp_claim cap"
  from d have handle: "rh_grant_hash handle = dc_grant_hash ?c" "rh_attempt_id handle = dc_attempt_id ?c"
      "rh_claimed_at_ms handle = dc_claimed_at_ms ?c" "rh_dispatched_at_ms handle = cp_dispatched_at_ms cap"
    and exact: "exact = \<lparr>xe_effect_profile = ep_effect_profile (pe_proposal ?x),
        xe_operation = ep_operation (pe_proposal ?x), xe_target = ep_target (pe_proposal ?x),
        xe_documents = pe_documents ?x\<rparr>"
    by (simp_all add: dispatched_of_def dispatch_with_def Let_def)
  from cap have "prepared_ok L ?x" and hash: "dc_grant_hash ?c = pe_grant_hash ?x"
    by (simp_all add: capable_ok_def Let_def)
  note docs = prepare_okD [OF this(1) [unfolded prepared_ok_def]]
  from cap obtain assertion first second where row: "claim_of (sy_db s) (as_str (dc_grant_hash ?c))
        = Some ((row_of_claim ?c)\<lparr>cl_dispatch_started_at_ms := Some (uint (cp_dispatched_at_ms cap))\<rparr>)"
      "in_window L ?x ?c (sy_db s)" "dc_claimed_at_ms ?c \<le> cp_dispatched_at_ms cap"
      "cp_dispatched_at_ms cap < eg_expires_at_ms (pe_grant ?x)"
    and auth: "same_authority_identity first second" "ae_audience first = eg_audience (pe_grant ?x)"
      "approved L K ?x assertion (dc_claimed_at_ms ?c) first"
      "approved L K ?x assertion (cp_dispatched_at_ms cap) second"
    unfolding capable_ok_def Let_def by blast
  show ?thesis
    unfolding handle exact
    by (rule exI [of _ ?x], rule exI, rule exI [of _ assertion], rule exI [of _ first],
        rule exI [of _ second], intro conjI, use docs hash in simp)
       (use docs row auth in \<open>auto simp: row_of_claim_def in_window_def\<close>)
qed

theorem executor_dispatch_backed_witness:
  "\<exists>row. claim_of fx_db4 (as_str (rh_grant_hash (fst (dispatched_of fx_capability)))) = Some row
     \<and> cl_dispatch_started_at_ms row = Some 4100"
proof -
  have "exec_reachable ref_lib ref_cose (fx_dispatched fx_db4)"
    using fx_dispatched_reachable [OF fx_owner_reachable] by blast
  moreover have "(fst (dispatched_of fx_capability), snd (dispatched_of fx_capability))
      \<in> set (sy_dispatched (fx_dispatched fx_db4))" by (simp add: fx_dispatched_def)
  moreover have "rh_dispatched_at_ms (fst (dispatched_of fx_capability)) = 4100"
    by (simp add: dispatched_of_def dispatch_with_def fx_capability_def)
  moreover have "sy_db (fx_dispatched fx_db4) = fx_db4" by (simp add: fx_dispatched_def)
  ultimately show ?thesis using executor_dispatch_backed by fastforce
qed

text \<open>
  C19: A durable receipt does not prevent a dispatch. In a reachable state, the adapter was
  called for a grant whose durable receipt, recorded by the recovery method before, reports
  that the effect was not dispatched; the lifecycle of the grant can no longer be read.
\<close>

theorem executor_dispatch_despite_receipt:
  "\<exists>s handle exact x r. exec_reachable ref_lib ref_cose s
     \<and> (handle, exact) \<in> set (sy_dispatched s) \<and> rh_grant_hash handle = eg_hash
     \<and> receipt_of (sy_db s) (as_str eg_hash) = Some x \<and> decode_receipt ref_lib x = Inr r
     \<and> er_outcome r = NotDispatched
     \<and> (\<forall>lc. lifecycle_of ref_lib no_faults eg_hash (sy_db s) \<noteq> Inr lc)"
proof -
  have s: "exec_reachable ref_lib ref_cose (fx_dispatched fx_db4n)"
    using fx_dispatched_reachable [OF fx_closed_reachable] by blast
  have d: "dispatched_of fx_capability \<in> set (sy_dispatched (fx_dispatched fx_db4n))"
    "sy_db (fx_dispatched fx_db4n) = fx_db4n" by (simp_all add: fx_dispatched_def)
  have h: "rh_grant_hash (fst (dispatched_of fx_capability)) = eg_hash"
    by (simp add: fx_capability_def fx_durable_def claim_result_def)
  have "overtaken ref_lib fx_db4n eg_hash"
    by (simp add: overtaken_def fx_receipts fx_decode_receipt fx_dispatch_times)
       (simp add: claim_of_def fx_db4n_def fx_db4_def row_of_claim_def fx_marked_claim_def
        fx_durable_def claim_result_def)
  then have "\<forall>lc. lifecycle_of ref_lib no_faults eg_hash fx_db4n \<noteq> Inr lc"
    using overtaken_unreadable by blast
  with s d h fx_receipts(3) fx_decode_receipt(2) fx_dispatch_times(3) show ?thesis
    by (metis prod.collapse)
qed

text \<open>The effect prepared with the twin of the task.\<close>

definition twin_prepared :: prepared_effect where
  "twin_prepared = fx_prepared\<lparr>pe_commitment := twin_tc\<rparr>"

lemma twin_prepare: "prepare ref_lib twin_tc fx_ep fx_ad fx_eg fx_docs = Inr twin_prepared"
proof -
  have "verify_grant ref_lib twin_tc fx_ep fx_ad fx_eg = Inr eg_hash"
    by (simp add: verify_grant_def twin_verify_authorization fx_authorization_def)
  with fx_prepare fx_verify_grant show ?thesis
    by (auto simp: prepare_def rbind_ok twin_prepared_def fx_prepared_def)
qed

text \<open>
  C25: A grant hash fixes the effect: two prepared effects with the same grant hash are equal,
  documents included, or two of the records behind them collide, or two of the documents do.
\<close>

theorem executor_grant_fixes_effect:
  assumes "quote_conforms L"
    and "prepare L c p d g docs = Inr x" and "prepare L c' p' d' g' docs' = Inr x'"
    and "pe_grant_hash x = pe_grant_hash x'"
  shows "x = x' \<or> collides L (EGrant g) (EGrant g') \<or> collides L (EDecision d) (EDecision d')
    \<or> collides L (EProposal p) (EProposal p') \<or> collides L (ETask c) (ETask c')
    \<or> (\<exists>doc \<in> {do_arguments, do_expected_effect, do_pre_state, do_resource_claim}.
         doc docs \<noteq> doc docs' \<and> from_payload L (doc docs) = from_payload L (doc docs'))"
proof -
  note x = prepare_okD [OF assms(2)] and x' = prepare_okD [OF assms(3)]
  have links: "eg_commitment L g = Inr h \<and> ad_commitment L d = Inr (eg_decision_hash g)
      \<and> ep_commitment L p = Inr (eg_proposal_hash g) \<and> tc_commitment L c = Inr (ep_commitment_hash p)"
    if "verify_grant L c p d g = Inr h" for c p d g h
    using that by (auto simp: verify_grant_ok verify_authorization_ok verify_decision_ok)
  note bind = record_commitment_binding [OF assms(1)]
  note v = links [of c p d g "pe_grant_hash x"] and w = links [of c' p' d' g' "pe_grant_hash x'"]
  have "g = g' \<or> collides L (EGrant g) (EGrant g')"
    using bind [of "EGrant g" _ "EGrant g'"] v w x x' assms(4) by auto
  moreover have "d = d' \<or> collides L (EDecision d) (EDecision d')" if "g = g'"
    using bind [of "EDecision d" _ "EDecision d'"] v w x x' that by auto
  moreover have "p = p' \<or> collides L (EProposal p) (EProposal p')" if "g = g'"
    using bind [of "EProposal p" _ "EProposal p'"] v w x x' that by auto
  moreover have "c = c' \<or> collides L (ETask c) (ETask c')" if "p = p'"
    using bind [of "ETask c" _ "ETask c'"] v w x x' that by auto
  moreover have "docs = docs'" if "p = p'" "\<forall>doc \<in> {do_arguments, do_expected_effect, do_pre_state,
      do_resource_claim}. from_payload L (doc docs) = from_payload L (doc docs') \<longrightarrow> doc docs = doc docs'"
  proof -
    from that x x' have "do_arguments docs = do_arguments docs'" "do_pre_state docs = do_pre_state docs'"
      "do_expected_effect docs = do_expected_effect docs'" "do_resource_claim docs = do_resource_claim docs'"
      by auto
    then show ?thesis by simp
  qed
  moreover have "x = x'" if "c = c'" "p = p'" "d = d'" "g = g'" "docs = docs'"
    using assms(2,3) that by simp
  ultimately show ?thesis by blast
qed

theorem executor_grant_fixes_effect_witness:
  "prepare ref_lib fx_tc fx_ep fx_ad fx_eg fx_docs = Inr fx_prepared
   \<and> prepare ref_lib twin_tc fx_ep fx_ad fx_eg fx_docs = Inr twin_prepared
   \<and> pe_grant_hash fx_prepared = eg_hash \<and> pe_grant_hash twin_prepared = eg_hash
   \<and> fx_prepared \<noteq> twin_prepared \<and> collides ref_lib (ETask fx_tc) (ETask twin_tc)"
proof -
  have same: "pe_grant_hash fx_prepared = eg_hash" "pe_grant_hash twin_prepared = eg_hash"
    and differ: "fx_prepared \<noteq> twin_prepared"
    by (simp_all add: fx_prepared_def twin_prepared_def twins_differ)
  from executor_grant_fixes_effect [OF ref_lib_quote fx_prepare twin_prepare] same differ
  show ?thesis by (simp add: fx_prepare twin_prepare not_collides_self)
qed

section \<open>Progress\<close>

text \<open>The receipt that closes a claim after a crash, and the recovery method that records it.\<close>

definition closing_receipt ::
    "durable_claim \<Rightarrow> digest32 \<Rightarrow> string \<Rightarrow> u64 \<Rightarrow> digest32 \<Rightarrow> effect_receipt" where
  "closing_receipt claim proposal_hash receipt_id completed_at_ms observation_digest =
     \<lparr>er_version = 1, er_receipt_id = receipt_id, er_proposal_hash = proposal_hash,
      er_grant_hash = dc_grant_hash claim, er_attempt_id = dc_attempt_id claim,
      er_claimed_at_ms = dc_claimed_at_ms claim, er_dispatched_at_ms = dc_dispatch_started_at_ms claim,
      er_completed_at_ms = completed_at_ms,
      er_outcome = (if dc_dispatch_started_at_ms claim = None then NotDispatched else Unknown),
      er_observation_digest = observation_digest\<rparr>"

definition recover :: "lib \<Rightarrow> durable_claim \<Rightarrow> effect_receipt \<Rightarrow> digest32 action" where
  "recover L claim r =
     (if dc_dispatch_started_at_ms claim = None
      then record_recovered_not_dispatched L
        \<lparr>nr_receipt_id = er_receipt_id r, nr_proposal_hash = er_proposal_hash r,
         nr_grant_hash = er_grant_hash r, nr_attempt_id = er_attempt_id r,
         nr_completed_at_ms = er_completed_at_ms r, nr_observation_digest = er_observation_digest r\<rparr>
      else record_recovered_unknown L
        \<lparr>ur_receipt_id = er_receipt_id r, ur_proposal_hash = er_proposal_hash r,
         ur_grant_hash = er_grant_hash r, ur_attempt_id = er_attempt_id r,
         ur_completed_at_ms = er_completed_at_ms r, ur_observation_digest = er_observation_digest r\<rparr>)"

lemma recover_alone:
  assumes "lifecycle_of L eng (dc_grant_hash claim) db = Inr lc" and "lc_claim lc = Some claim"
    and "r = closing_receipt claim ph i t obs"
  shows "run_alone L eng (recover L claim r) db = run_alone L eng (store_call (SqlReceipt r) returned_digest) db"
proof (cases "dc_dispatch_started_at_ms claim")
  case None
  then have "\<lparr>er_version = 1, er_receipt_id = er_receipt_id r, er_proposal_hash = er_proposal_hash r,
      er_grant_hash = er_grant_hash r, er_attempt_id = er_attempt_id r, er_claimed_at_ms = dc_claimed_at_ms claim,
      er_dispatched_at_ms = None, er_completed_at_ms = er_completed_at_ms r, er_outcome = NotDispatched,
      er_observation_digest = er_observation_digest r\<rparr> = r"
    by (simp add: assms(3) closing_receipt_def)
  moreover have "er_grant_hash r = dc_grant_hash claim" "er_attempt_id r = dc_attempt_id claim"
    by (simp_all add: assms(3) closing_receipt_def)
  ultimately show ?thesis using assms(1,2) None
    by (simp add: recover_def record_recovered_not_dispatched_def run_alone_andthen)
next
  case (Some d)
  then have "\<lparr>er_version = 1, er_receipt_id = er_receipt_id r, er_proposal_hash = er_proposal_hash r,
      er_grant_hash = er_grant_hash r, er_attempt_id = er_attempt_id r, er_claimed_at_ms = dc_claimed_at_ms claim,
      er_dispatched_at_ms = Some d, er_completed_at_ms = er_completed_at_ms r, er_outcome = Unknown,
      er_observation_digest = er_observation_digest r\<rparr> = r"
    by (simp add: assms(3) closing_receipt_def)
  moreover have "er_grant_hash r = dc_grant_hash claim" "er_attempt_id r = dc_attempt_id claim"
    by (simp_all add: assms(3) closing_receipt_def)
  ultimately show ?thesis using assms(1,2) Some
    by (simp add: recover_def record_recovered_unknown_def run_alone_andthen)
qed

text \<open>
  C15: A crash never leaves an attempt stuck. If the lifecycle of a grant shows a claim and no
  receipt, the recovery method that fits the claim's marker, with a valid receipt under an
  unused identifier, succeeds, and the lifecycle shows this receipt: unknown if dispatch had
  been marked, not dispatched otherwise.
\<close>

theorem executor_recovers:
  assumes "conforming L" and "sql_reachable L db"
    and "lifecycle_of L no_faults h db = Inr lc" and "lc_claim lc = Some claim" and "lc_receipt lc = None"
    and "chain_by_hash db (as_str h) = Some raw" and "decode_chain L raw = Inr chain"
    and "ep_commitment L (sc_proposal chain) = Inr ph"
    and "r = closing_receipt claim ph i t obs" and "er_validate r = Inr ()" and "digest_ok obs"
    and "i \<notin> re_receipt_id ` set (db_receipts db)"
    and "\<And>k. er_commitment L r = Inr k \<Longrightarrow> as_str k \<notin> re_receipt_hash ` set (db_receipts db)"
  shows "\<exists>k db' lc'. run_alone L no_faults (recover L claim r) db = (Inr k, db')
    \<and> lifecycle_of L no_faults h db' = Inr lc' \<and> lc_receipt lc' = Some r"
proof -
  note loads = read_lifecycle_loads [OF assms(3), unfolded assms(4,5)]
  from loads obtain row where row: "claim_of db (as_str h) = Some row" "decode_claim (as_str h) row = Inr claim"
    by (auto simp: load_clean rbind_ok split: option.splits)
  from loads have none: "receipt_of db (as_str h) = None" by (auto simp: load_clean rbind_ok split: option.splits)
  have h: "dc_grant_hash claim = h" using row(2) by (simp add: decode_claim_ok digest32.expand)
  then have r: "er_grant_hash r = h" "er_proposal_hash r = ph" "er_attempt_id r = dc_attempt_id claim"
    "er_claimed_at_ms r = dc_claimed_at_ms claim" "er_dispatched_at_ms r = dc_dispatch_started_at_ms claim"
    "er_receipt_id r = i" "er_observation_digest r = obs"
    by (simp_all add: assms(9) closing_receipt_def)
  have ev: "validate_dispatch_evidence r (dc_dispatch_started_at_ms claim) = Inr ()"
    by (simp add: dispatch_evidence_ok r) (simp add: assms(9) closing_receipt_def)
  have digests: "er_digests r"
    using assms(8,11) commitment_okD(2) [OF assms(1)] row(2) h by (simp add: er_digests_def r decode_claim_ok)
  obtain k db' lc' where "record_receipt L no_faults r db = (Inr k, db')"
    "lifecycle_of L no_faults h db' = Inr lc'" "lc_receipt lc' = Some r"
    using receipt_completes [OF assms(1,2) row assms(6,7,10) digests r(1,3,4) ev _ none _ assms(13)]
      assms(8,12) by (auto simp: r)
  moreover from this(1) have "run_alone L no_faults (recover L claim r) db = (Inr k, db')"
    using recover_alone [OF assms(3) [folded h] assms(4,9)] by simp
  ultimately show ?thesis by blast
qed

theorem executor_recovers_witness:
  "\<exists>k db' lc'. run_alone ref_lib no_faults (recover ref_lib fx_marked_claim fx_er) fx_db4 = (Inr k, db')
     \<and> lifecycle_of ref_lib no_faults eg_hash db' = Inr lc' \<and> lc_receipt lc' = Some fx_er"
proof -
  let ?obs = "er_observation_digest fx_er"
  let ?lc = "\<lparr>lc_grant_hash = eg_hash, lc_claim = Some fx_marked_claim, lc_receipt = None,
    lc_reconciliations = []\<rparr>"
  have lc: "lifecycle_of ref_lib no_faults eg_hash fx_db4 = Inr ?lc"
    by (simp add: read_lifecycle_def fx_chain_loaded fx_claim_loaded fx_receipt_loaded)
  have r: "fx_er = closing_receipt fx_marked_claim ep_hash ''receipt-1'' 4200 ?obs"
    by (simp add: closing_receipt_def fx_marked_claim_def fx_durable_def claim_result_def fx_claim_request_def)
       (simp add: fx_er_def)
  have ep: "ep_commitment ref_lib (sc_proposal fx_stored_chain) = Inr ep_hash"
    by (simp add: fx_stored_chain_def fx_commitments)
  have fresh: "''receipt-1'' \<notin> re_receipt_id ` set (db_receipts fx_db4)"
    "as_str k \<notin> re_receipt_hash ` set (db_receipts fx_db4)" for k
    by (simp_all add: fx_db_defs)
  have obs: "digest_ok ?obs" using fx_digests(5) by (simp add: er_digests_def)
  show ?thesis
    by (rule executor_recovers [OF conforming_ref_lib fx_sql_reachable(4) lc _ _ fx_lookups(5) fx_decode_chain
          ep r fx_er_valid obs fresh]) simp_all
qed

end
