(* ===== verification/Executor_Views.thy ===== *)
theory Executor_Views
  imports Executor_Fixtures
begin

text \<open>
  What the executor's opaque values show: the hand-written \<open>Debug\<close> implementations and the
  accessors of crates/effect-transaction-executor/src/lib.rs (and \<open>Debug\<close> of the SQLite
  store), as functions to a small tree of names and values. The property says that the bytes of
  the documents reach nobody before the adapter is called: not through a view, not through a
  call of the store, not through a decision of the executor.
\<close>

section \<open>Debug output\<close>

text \<open>
  The value that \<open>debug_struct\<close> builds: the fields in order, and whether
  \<open>finish_non_exhaustive\<close> ended it. A newtype shows its content under an empty name.
\<close>

datatype debug_value =
  D_Number nat
| D_Text string
| D_Struct string "(string \<times> debug_value) list" bool

definition debug_u64 :: "u64 \<Rightarrow> debug_value" where "debug_u64 n = D_Number (unat n)"

definition debug_digest :: "digest32 \<Rightarrow> debug_value" where
  "debug_digest d = D_Struct ''Digest32'' [('''', D_Text (as_str d))] False"

definition debug_documents :: "effect_documents \<Rightarrow> debug_value" where
  "debug_documents d = D_Struct ''EffectDocuments''
     [(''arguments_bytes'', D_Number (length (do_arguments d))),
      (''expected_effect_bytes'', D_Number (length (do_expected_effect d))),
      (''pre_state_bytes'', D_Number (length (do_pre_state d))),
      (''resource_claim_bytes'', D_Number (length (do_resource_claim d)))] False"

definition debug_prepared :: "prepared_effect \<Rightarrow> debug_value" where
  "debug_prepared p = D_Struct ''PreparedEffect''
     [(''commitment_id'', D_Text (tc_commitment_id (pe_commitment p))),
      (''proposal_id'', D_Text (ep_proposal_id (pe_proposal p))),
      (''decision_id'', D_Text (ad_decision_id (pe_decision p))),
      (''grant_id'', D_Text (eg_grant_id (pe_grant p))),
      (''proposal_hash'', debug_digest (pe_proposal_hash p)),
      (''grant_hash'', debug_digest (pe_grant_hash p)),
      (''documents'', debug_documents (pe_documents p))] False"

definition debug_evidence :: "authority_evidence \<Rightarrow> debug_value" where
  "debug_evidence a = D_Struct ''AuthorityEvidence''
     [(''statement_id'', D_Text (ae_statement_id a)), (''issuer'', D_Text (ae_issuer a)),
      (''key_id'', D_Text (ae_key_id a)), (''role'', D_Text (ae_role a)),
      (''audience'', D_Text (ae_audience a)), (''verified_at_ms'', debug_u64 (ae_verified_at_ms a)),
      (''snapshot_observed_at_ms'', debug_u64 (ae_snapshot_observed_at_ms a)),
      (''verifying_key_digest'', debug_digest (ae_verifying_key_digest a))] False"

definition debug_claimed :: "claimed_effect \<Rightarrow> debug_value" where
  "debug_claimed c = D_Struct ''ClaimedEffect''
     [(''grant_hash'', debug_digest (dc_grant_hash (ce_claim c))),
      (''attempt_id'', D_Text (dc_attempt_id (ce_claim c))),
      (''claimed_at_ms'', debug_u64 (dc_claimed_at_ms (ce_claim c))),
      (''authority'', debug_evidence (ce_authority c))] True"

definition debug_capability :: "dispatch_capability \<Rightarrow> debug_value" where
  "debug_capability k = D_Struct ''DispatchCapability''
     [(''grant_hash'', debug_digest (dc_grant_hash (cp_claim k))),
      (''attempt_id'', D_Text (dc_attempt_id (cp_claim k))),
      (''dispatched_at_ms'', debug_u64 (cp_dispatched_at_ms k))] True"

definition debug_exact :: "exact_effect \<Rightarrow> debug_value" where
  "debug_exact x = D_Struct ''ExactEffect''
     [(''effect_profile'', D_Text (xe_effect_profile x)), (''operation'', D_Text (xe_operation x)),
      (''target_bytes'', D_Number (length (xe_target x))),
      (''documents'', debug_documents (xe_documents x))] False"

definition debug_handle :: "receipt_handle \<Rightarrow> debug_value" where
  "debug_handle h = D_Struct ''ReceiptHandle''
     [(''proposal_hash'', debug_digest (rh_proposal_hash h)),
      (''grant_hash'', debug_digest (rh_grant_hash h)),
      (''attempt_id'', D_Text (rh_attempt_id h)),
      (''claimed_at_ms'', debug_u64 (rh_claimed_at_ms h)),
      (''dispatched_at_ms'', debug_u64 (rh_dispatched_at_ms h))] False"

definition debug_policy :: "executor_policy \<Rightarrow> debug_value" where
  "debug_policy p = D_Struct ''ExecutorPolicy''
     [(''audience'', D_Text (po_audience p)), (''authority_role'', D_Text (po_authority_role p)),
      (''maximum_authority_snapshot_age_ms'', debug_u64 (po_maximum_authority_snapshot_age_ms p)),
      (''maximum_currentness_age_ms'', debug_u64 (po_maximum_currentness_age_ms p))] False"

definition debug_store :: debug_value where
  "debug_store = D_Struct ''SqliteEffectStore'' [] True"

definition debug_executor :: "executor_policy \<Rightarrow> debug_value" where
  "debug_executor policy = D_Struct ''EffectTransactionExecutor''
     [(''policy'', debug_policy policy), (''store'', debug_store)] False"

section \<open>Accessors\<close>

text \<open>The five accessors of \<open>ClaimedEffect\<close>.\<close>

definition claimed_accessors ::
    "claimed_effect \<Rightarrow> digest32 \<times> digest32 \<times> string \<times> u64 \<times> authority_evidence" where
  "claimed_accessors c =
     (dc_grant_hash (ce_claim c), pe_proposal_hash (ce_prepared c), dc_attempt_id (ce_claim c),
      dc_claimed_at_ms (ce_claim c), ce_authority c)"

text \<open>The seven accessors of \<open>ExactEffect\<close>.\<close>

definition exact_accessors ::
    "exact_effect \<Rightarrow> string \<times> string \<times> string \<times> string \<times> string \<times> string \<times> string" where
  "exact_accessors x =
     (xe_effect_profile x, xe_operation x, xe_target x, do_arguments (xe_documents x),
      do_expected_effect (xe_documents x), do_pre_state (xe_documents x),
      do_resource_claim (xe_documents x))"

section \<open>Exchanging the documents\<close>

definition with_documents :: "effect_documents \<Rightarrow> prepared_effect \<Rightarrow> prepared_effect" where
  "with_documents d p = p\<lparr>pe_documents := d\<rparr>"

definition claimed_with :: "effect_documents \<Rightarrow> claimed_effect \<Rightarrow> claimed_effect" where
  "claimed_with d c = c\<lparr>ce_prepared := with_documents d (ce_prepared c)\<rparr>"

definition capability_with :: "effect_documents \<Rightarrow> dispatch_capability \<Rightarrow> dispatch_capability" where
  "capability_with d k = k\<lparr>cp_prepared := with_documents d (cp_prepared k)\<rparr>"

lemmas exchange_defs = with_documents_def claimed_with_def capability_with_def

text \<open>Apply a function to the successful results of a method.\<close>

definition map_action :: "('a \<Rightarrow> 'b) \<Rightarrow> 'a action \<Rightarrow> 'b action" where
  "map_action f = map_prog (map_sum id f)"

lemma map_action_simps [simp]:
  "map_action f (Done (Inl e)) = Done (Inl e)"
  "map_action f (Done (Inr x)) = Done (Inr (f x))"
  by (simp_all add: map_action_def)

lemma map_action_andthen:
  "map_action f (andthen m g) = andthen m (\<lambda>x. map_action f (g x))"
proof (induction m)
  case (Done r)
  then show ?case by (cases r) (simp_all add: map_action_def)
qed (simp_all add: map_action_def fun_eq_iff)

lemma authorize_exchange:
  "authorize_and_claim L K policy (with_documents d p) assertion snapshot currentness attempt now =
     map_action (claimed_with d)
       (authorize_and_claim L K policy p assertion snapshot currentness attempt now)"
  unfolding authorize_and_claim_def map_action_andthen
  by (simp add: exchange_defs authorize_checks_def authority_context_def)

lemma begin_exchange:
  "begin_dispatch L K policy (claimed_with d c) snapshot now =
     map_action (capability_with d) (begin_dispatch L K policy c snapshot now)"
  unfolding begin_dispatch_def map_action_andthen
  by (simp add: exchange_defs authority_context_def)

section \<open>Property\<close>

text \<open>
  C26: The document bytes stay sealed until the adapter runs. Exchanging the documents of a
  prepared effect changes no store call, no decision and no result of \<open>authorize_and_claim\<close> and
  \<open>begin_dispatch\<close> other than the documents themselves, no receipt of \<open>record_not_dispatched\<close>,
  and nothing that the claimed effect or the capability shows; a prepared effect shows at most
  the lengths. The adapter then gets exactly these documents with the receipt handle unchanged.
\<close>

theorem executor_seals_documents:
  "authorize_and_claim L K policy (with_documents d p) assertion snapshot currentness attempt now =
     map_action (claimed_with d)
       (authorize_and_claim L K policy p assertion snapshot currentness attempt now)
   \<and> begin_dispatch L K policy (claimed_with d c) snapshot now =
       map_action (capability_with d) (begin_dispatch L K policy c snapshot now)
   \<and> record_not_dispatched (claimed_with d c) evidence = record_not_dispatched c evidence
   \<and> debug_claimed (claimed_with d c) = debug_claimed c
   \<and> claimed_accessors (claimed_with d c) = claimed_accessors c
   \<and> debug_capability (capability_with d k) = debug_capability k
   \<and> (debug_prepared (with_documents d p) = debug_prepared p \<longleftrightarrow>
        map length [do_arguments d, do_expected_effect d, do_pre_state d, do_resource_claim d] =
        map length [do_arguments (pe_documents p), do_expected_effect (pe_documents p),
                    do_pre_state (pe_documents p), do_resource_claim (pe_documents p)])
   \<and> (debug_exact (x\<lparr>xe_target := t, xe_documents := d\<rparr>) = debug_exact x \<longleftrightarrow>
        length t = length (xe_target x) \<and> debug_documents d = debug_documents (xe_documents x))
   \<and> fst (dispatch_with (capability_with d k) adapter) = fst (dispatch_with k adapter)
   \<and> (\<exists>profile operation target. snd (dispatch_with (capability_with d k) exact_accessors) =
        (profile, operation, target, do_arguments d, do_expected_effect d, do_pre_state d,
         do_resource_claim d))"
  unfolding authorize_exchange begin_exchange
  by (auto simp: record_not_dispatched_def debug_claimed_def claimed_accessors_def
      debug_capability_def debug_prepared_def debug_documents_def dispatch_with_def
      debug_exact_def exact_accessors_def exchange_defs Let_def)

end
