(* ===== verification/Executor_Typing.thy ===== *)
theory Executor_Typing
  imports Executor_Fixtures
begin

text \<open>
  The type \<open>Digest32\<close>. Its constructor is private to the core crate, so a value outside is one
  that \<open>parse\<close>, the deserializer, \<open>from_payload\<close> or a commitment made; a value \<open>is typed\<close> when
  every digest in it has the digest syntax (\<open>digest_ok\<close>). This theory shows that the stores and
  the executor keep values typed: calls with typed arguments return typed results (whatever the
  database holds), and a program of the executor with typed arguments only makes typed calls.
  This is what the reachability of \<open>Sqlite_Operations\<close> assumes of the callers of the store.
\<close>

section \<open>Deserialized values\<close>

text \<open>
  The deserializers of the records build each digest with \<open>Digest32::deserialize\<close>, which
  rejects every other text.
\<close>

definition typed_readers :: "lib \<Rightarrow> bool" where
  "typed_readers L \<longleftrightarrow>
     (\<forall>s r. from_json_tc L s = Some r \<longrightarrow> tc_digests r)
     \<and> (\<forall>s r. from_json_ep L s = Some r \<longrightarrow> ep_digests r)
     \<and> (\<forall>s r. from_json_ad L s = Some r \<longrightarrow> ad_digests r)
     \<and> (\<forall>s r. from_json_eg L s = Some r \<longrightarrow> eg_digests r)
     \<and> (\<forall>s r. from_json_er L s = Some r \<longrightarrow> er_digests r)
     \<and> (\<forall>s r. from_json_rr L s = Some r \<longrightarrow> rr_digests r)"

lemma parse_typed:
  assumes "typed_readers L"
  shows "parse_tc L s = Inr c \<Longrightarrow> tc_digests c" and "parse_ep L s = Inr p \<Longrightarrow> ep_digests p"
    and "parse_ad L s = Inr d \<Longrightarrow> ad_digests d" and "parse_eg L s = Inr g \<Longrightarrow> eg_digests g"
    and "parse_er L s = Inr r \<Longrightarrow> er_digests r" and "parse_rr L s = Inr x \<Longrightarrow> rr_digests x"
  using assms by (auto simp: parse_defs parse_record_ok typed_readers_def)

lemma read_digest_typed: "read_digest v = Some d \<Longrightarrow> digest_ok d"
  by (auto simp: read_digest_def bind_eq_Some_conv deserialize_digest_Some digest_ok_def)

lemma field_digest_typed: "field obj n read_digest = Some d \<Longrightarrow> digest_ok d"
  by (auto simp: field_def bind_eq_Some_conv read_digest_typed)

lemma optional_digest_typed: "Typed_Reader.optional obj n read_digest = Some (Some d) \<Longrightarrow> digest_ok d"
  by (auto simp: Typed_Reader.optional_def read_digest_typed split: option.splits if_splits)

lemma those_digests_typed: "those (map read_digest vs) = Some ds \<Longrightarrow> d \<in> set ds \<Longrightarrow> digest_ok d"
  by (induction vs arbitrary: ds) (auto split: option.splits simp: read_digest_typed)

lemma list_digest_typed:
  assumes "field obj n (read_list read_digest) = Some ds" and "d \<in> set ds"
  shows "digest_ok d"
proof -
  from assms(1) obtain v where "read_list read_digest v = Some ds" by (auto simp: field_def bind_eq_Some_conv)
  then show ?thesis using assms(2) by (cases v) (auto simp: read_list_def those_digests_typed)
qed

lemmas digests_typed = field_digest_typed optional_digest_typed list_digest_typed

lemma strict_reader_typed:
  "read_tc v = Some c \<Longrightarrow> tc_digests c" "read_ep v = Some p \<Longrightarrow> ep_digests p"
  "read_ad v = Some d \<Longrightarrow> ad_digests d" "read_eg v = Some g \<Longrightarrow> eg_digests g"
  "read_er v = Some r \<Longrightarrow> er_digests r" "read_rr v = Some x \<Longrightarrow> rr_digests x"
  by (auto simp: read_tc_def read_ep_def read_ad_def read_eg_def read_er_def read_rr_def
      bind_eq_Some_conv digests_defs intro: digests_typed)

lemma ref_lib_typed: "typed_readers ref_lib"
  unfolding typed_readers_def ref_lib_def with_conforming_readers_def
  by (auto simp: conforming_reader_def bind_eq_Some_conv strict_reader_typed)

section \<open>Results of the store\<close>

lemma commitments_typed:
  assumes "nonzero_hash L"
  shows "tc_commitment L c = Inr h \<Longrightarrow> digest_ok h" and "ep_commitment L p = Inr h \<Longrightarrow> digest_ok h"
    and "ad_commitment L d = Inr h \<Longrightarrow> digest_ok h" and "eg_commitment L g = Inr h \<Longrightarrow> digest_ok h"
    and "er_commitment L r = Inr h \<Longrightarrow> digest_ok h" and "rr_commitment L x = Inr h \<Longrightarrow> digest_ok h"
  unfolding commitment_defs by (rule commitment_digest_ok [OF assms], assumption)+

fun return_digests :: "sql_return \<Rightarrow> bool" where
  "return_digests (SqlDigest r) = (\<forall>h. r = Inr h \<longrightarrow> digest_ok h)"
| "return_digests (SqlUnit r) = True"
| "return_digests (SqlClaimed r) = (\<forall>c. r = Inr c \<longrightarrow> digest_ok (dc_grant_hash c))"
| "return_digests (SqlMarked r) = (\<forall>m. r = Inr m \<longrightarrow> digest_ok (dm_grant_hash m))"

definition lifecycle_digests :: "lifecycle \<Rightarrow> bool" where
  "lifecycle_digests lc \<longleftrightarrow>
     digest_ok (lc_grant_hash lc) \<and> (\<forall>c. lc_claim lc = Some c \<longrightarrow> digest_ok (dc_grant_hash c))
     \<and> (\<forall>r. lc_receipt lc = Some r \<longrightarrow> er_digests r) \<and> (\<forall>x \<in> set (lc_reconciliations lc). rr_digests x)"

lemma sql_step_typed:
  assumes hash: "nonzero_hash L" and c: "call_digests op"
  shows "return_digests (fst (sql_step L (eng, op) db))"
proof -
  note h = commitments_typed [OF hash]
  show ?thesis
  proof (cases op)
    case (SqlRegister t p d g)
    have "digest_ok x" if "register_chain L eng t p d g db = (Inr x, db')" for x db'
      using register_okD [OF that]
      by (auto simp: register_row_def rbind_ok map_err_ok verify_grant_ok verify_authorization_ok dest: h(4))
    then show ?thesis by (cases "register_chain L eng t p d g db") (auto simp: SqlRegister)
  next
    case (SqlPut s)
    then show ?thesis by (simp add: split_def)
  next
    case (SqlClaim g q now)
    have "digest_ok (dc_grant_hash x)" if "sql_claim L eng g q now db = (Inr x, db')" for x db'
      using claim_okD [OF that] h(4) by (auto simp: claim_result_def)
    then show ?thesis by (cases "sql_claim L eng g q now db") (auto simp: SqlClaim)
  next
    case (SqlMark k a t)
    have "dm_grant_hash x = k" if "mark_dispatch_started L eng k a t db = (Inr x, db')" for x db'
      using mark_okD [OF that] by simp
    with c SqlMark show ?thesis by (cases "mark_dispatch_started L eng k a t db") auto
  next
    case (SqlReceipt r)
    have "digest_ok x" if "record_receipt L eng r db = (Inr x, db')" for x db'
      using receipt_okD [OF that] h(5) by blast
    then show ?thesis by (cases "record_receipt L eng r db") (auto simp: SqlReceipt)
  next
    case (SqlReconcile y)
    have "digest_ok x" if "append_reconciliation L eng y db = (Inr x, db')" for x db'
      using reconcile_okD [OF that] h(6) by blast
    then show ?thesis by (cases "append_reconciliation L eng y db") (auto simp: SqlReconcile)
  qed
qed

lemma read_rows_typed:
  "typed_readers L \<Longrightarrow> read_rows L eng n rows = Inr xs \<Longrightarrow> x \<in> set xs \<Longrightarrow> rr_digests x"
proof (induction rows arbitrary: n xs)
  case (Cons row rows)
  then show ?case
    by (auto simp: rbind_ok map_err_ok sql_ok decode_reconciliation_def dest: parse_typed(6))
qed simp

lemma lifecycle_records:
  assumes "read_lifecycle L eng h db1 db2 db3 db4 = Inr lc"
  shows "lc_reconciliations lc = [] \<or> (\<exists>rows. read_rows L eng 0 rows = Inr (lc_reconciliations lc))"
proof (cases "lc_receipt lc")
  case None
  with assms show ?thesis by (auto simp: read_lifecycle_def rbind_ok)
next
  case (Some r)
  with assms show ?thesis by (auto simp: read_lifecycle_def rbind_ok load_all_reconciliations_def)
qed

lemma read_lifecycle_typed:
  assumes L: "typed_readers L" and h: "digest_ok h"
    and lc: "read_lifecycle L eng h db1 db2 db3 db4 = Inr lc"
  shows "lifecycle_digests lc"
proof -
  note loads = read_lifecycle_loads [OF lc]
  have "digest_ok (dc_grant_hash c)" if "lc_claim lc = Some c" for c
    using loads that by (auto simp: load_Some decode_claim_ok)
  moreover have "er_digests r" if "lc_receipt lc = Some r" for r
    using loads that by (auto simp: load_Some decode_receipt_ok dest: parse_typed(5) [OF L])
  moreover have "rr_digests x" if "x \<in> set (lc_reconciliations lc)" for x
    using lifecycle_records [OF lc] that by (auto dest: read_rows_typed [OF L])
  ultimately show ?thesis
    using h read_lifecycle_okD [OF lc] by (simp add: lifecycle_digests_def)
qed

section \<open>Typed programs\<close>

text \<open>A program that only makes typed calls, and ends with a value that satisfies \<open>Q\<close>.\<close>

primrec typed_prog :: "lib \<Rightarrow> ('a \<Rightarrow> bool) \<Rightarrow> 'a prog \<Rightarrow> bool" where
  "typed_prog L Q (Done x) = Q x"
| "typed_prog L Q (Call op k) =
     (call_digests op \<and> (\<forall>eng db. typed_prog L Q (k (fst (sql_step L (eng, op) db)))))"
| "typed_prog L Q (Look k) = (\<forall>seen. typed_prog L Q (k seen))"

definition yields_typed :: "lib \<Rightarrow> ('a \<Rightarrow> bool) \<Rightarrow> 'a action \<Rightarrow> bool" where
  "yields_typed L Q = typed_prog L (\<lambda>r. \<forall>x. r = Inr x \<longrightarrow> Q x)"

lemma yields_typed_Done [simp]: "yields_typed L Q (Done r) \<longleftrightarrow> (\<forall>x. r = Inr x \<longrightarrow> Q x)"
  by (simp add: yields_typed_def)

lemma yields_typed_andthen:
  assumes "yields_typed L Q m" and "\<And>x. Q x \<Longrightarrow> yields_typed L R (f x)"
  shows "yields_typed L R (andthen m f)"
  using assms(1) unfolding yields_typed_def
proof (induction m)
  case (Done r)
  then show ?case using assms(2) by (cases r) (simp_all add: yields_typed_def)
next
  case (Call op k)
  then show ?case by (auto intro: Call.IH [OF rangeI])
next
  case (Look k)
  then show ?case by (auto simp del: split_paired_All intro: Look.IH [OF rangeI])
qed

lemma store_call_typed:
  assumes "nonzero_hash L" and "call_digests op"
    and "\<And>r x. return_digests r \<Longrightarrow> (\<exists>eng db. r = fst (sql_step L (eng, op) db)) \<Longrightarrow>
      returned r = Inr x \<Longrightarrow> Q x"
  shows "yields_typed L Q (store_call op returned)"
  using assms(2) assms(3) [OF sql_step_typed [OF assms(1,2)]]
  by (simp add: store_call_def yields_typed_def map_err_ok) blast

lemma step_kinds:
  "\<exists>r. fst (sql_step L (eng, SqlRegister c p d g) db) = SqlDigest r"
  "\<exists>r. fst (sql_step L (eng, SqlClaim g q now) db) = SqlClaimed r"
  "\<exists>r. fst (sql_step L (eng, SqlMark h a t) db) = SqlMarked r"
  "\<exists>r. fst (sql_step L (eng, SqlReceipt e) db) = SqlDigest r"
  "\<exists>r. fst (sql_step L (eng, SqlReconcile x) db) = SqlDigest r"
  by (simp_all add: split_def)

lemma store_lifecycle_typed:
  "typed_readers L \<Longrightarrow> digest_ok h \<Longrightarrow> yields_typed L lifecycle_digests (store_lifecycle L h)"
  by (auto simp: store_lifecycle_def yields_typed_def map_err_ok dest: read_lifecycle_typed)

section \<open>The values of the executor\<close>

definition prepared_digests :: "prepared_effect \<Rightarrow> bool" where
  "prepared_digests p \<longleftrightarrow>
     tc_digests (pe_commitment p) \<and> ep_digests (pe_proposal p) \<and> ad_digests (pe_decision p)
     \<and> eg_digests (pe_grant p) \<and> digest_ok (pe_grant_hash p) \<and> digest_ok (pe_proposal_hash p)"

definition claimed_digests :: "claimed_effect \<Rightarrow> bool" where
  "claimed_digests c \<longleftrightarrow>
     prepared_digests (ce_prepared c) \<and> digest_ok (dc_grant_hash (ce_claim c))
     \<and> digest_ok (ae_verifying_key_digest (ce_authority c))"

definition capability_digests :: "dispatch_capability \<Rightarrow> bool" where
  "capability_digests c \<longleftrightarrow> prepared_digests (cp_prepared c) \<and> digest_ok (dc_grant_hash (cp_claim c))"

definition handle_digests :: "receipt_handle \<Rightarrow> bool" where
  "handle_digests h \<longleftrightarrow> digest_ok (rh_proposal_hash h) \<and> digest_ok (rh_grant_hash h)"

lemma prepare_typed:
  assumes "nonzero_hash L" and "prepare L c p d g docs = Inr prepared"
    and "tc_digests c" and "ep_digests p" and "ad_digests d" and "eg_digests g"
  shows "prepared_digests prepared"
  using assms commitments_typed(2,4) [OF assms(1)]
  by (auto simp: prepare_def rbind_ok map_err_ok verify_grant_ok verify_authorization_ok prepared_digests_def)

lemma evidence_typed:
  assumes "nonzero_hash L" and "verify_authority L K assertion snapshot context = Inr v"
  shows "digest_ok (ae_verifying_key_digest (evidence_from v))"
proof -
  have "\<exists>s. vy_verifying_key_digest v = from_payload L s"
    using assms(2) by (auto simp: verify_authority_def rbind_ok)
  then show ?thesis by (auto simp: evidence_from_def Let_def payload_digest_ok [OF assms(1)])
qed

section \<open>The methods\<close>

lemma calls_typed:
  assumes "nonzero_hash L"
  shows "tc_digests c \<Longrightarrow> ep_digests p \<Longrightarrow> ad_digests d \<Longrightarrow> eg_digests g \<Longrightarrow>
      yields_typed L digest_ok (store_call (SqlRegister c p d g) returned_digest)"
    and "digest_ok (cu_pre_state_digest s) \<Longrightarrow> digest_ok (cu_resource_claim_digest s) \<Longrightarrow>
      yields_typed L (\<lambda>_. True) (store_call (SqlPut s) returned_unit)"
    and "eg_digests g \<Longrightarrow>
      yields_typed L (\<lambda>x. digest_ok (dc_grant_hash x)) (store_call (SqlClaim g q now) returned_claim)"
    and "digest_ok h \<Longrightarrow> yields_typed L (\<lambda>_. True) (store_call (SqlMark h a t) returned_marker)"
    and "er_digests r \<Longrightarrow> yields_typed L digest_ok (store_call (SqlReceipt r) returned_digest)"
    and "rr_digests x \<Longrightarrow> yields_typed L digest_ok (store_call (SqlReconcile x) returned_digest)"
proof -
  have returned: "return_digests r \<Longrightarrow> r = SqlDigest r' \<Longrightarrow> returned_digest r = Inr h \<Longrightarrow> digest_ok h"
    "return_digests r \<Longrightarrow> r = SqlClaimed k \<Longrightarrow> returned_claim r = Inr y \<Longrightarrow> digest_ok (dc_grant_hash y)"
    for r r' h k y by simp_all
  note typed = store_call_typed [OF assms]
  show "tc_digests c \<Longrightarrow> ep_digests p \<Longrightarrow> ad_digests d \<Longrightarrow> eg_digests g \<Longrightarrow>
      yields_typed L digest_ok (store_call (SqlRegister c p d g) returned_digest)"
    by (rule typed) (simp, metis returned(1) step_kinds(1))
  show "digest_ok (cu_pre_state_digest s) \<Longrightarrow> digest_ok (cu_resource_claim_digest s) \<Longrightarrow>
      yields_typed L (\<lambda>_. True) (store_call (SqlPut s) returned_unit)"
    by (rule typed) simp_all
  show "eg_digests g \<Longrightarrow>
      yields_typed L (\<lambda>x. digest_ok (dc_grant_hash x)) (store_call (SqlClaim g q now) returned_claim)"
    by (rule typed) (simp, metis returned(2) step_kinds(2))
  show "digest_ok h \<Longrightarrow> yields_typed L (\<lambda>_. True) (store_call (SqlMark h a t) returned_marker)"
    by (rule typed) simp_all
  show "er_digests r \<Longrightarrow> yields_typed L digest_ok (store_call (SqlReceipt r) returned_digest)"
    by (rule typed) (simp, metis returned(1) step_kinds(4))
  show "rr_digests x \<Longrightarrow> yields_typed L digest_ok (store_call (SqlReconcile x) returned_digest)"
    by (rule typed) (simp, metis returned(1) step_kinds(5))
qed

text \<open>A pure step in front.\<close>

lemma pure_typed:
  assumes "\<And>x. r = Inr x \<Longrightarrow> yields_typed L Q (f x)"
  shows "yields_typed L Q (andthen (Done r) f)"
  using assms by (cases r) simp_all

lemma authorize_typed:
  assumes L: "nonzero_hash L" and p: "prepared_digests prepared"
    and s: "digest_ok (cu_pre_state_digest currentness)" "digest_ok (cu_resource_claim_digest currentness)"
  shows "yields_typed L claimed_digests
    (authorize_and_claim L K policy prepared assertion snapshot currentness attempt now)"
proof -
  have r: "tc_digests (pe_commitment prepared)" "ep_digests (pe_proposal prepared)"
    "ad_digests (pe_decision prepared)" "eg_digests (pe_grant prepared)"
    using p by (simp_all add: prepared_digests_def)
  note calls = calls_typed(1) [OF L r] calls_typed(2) [OF L s] calls_typed(3) [OF L r(4)]
  show ?thesis unfolding authorize_and_claim_def
    by (rule pure_typed, rule pure_typed, (rule yields_typed_andthen, rule calls)+)
       (auto simp: claimed_digests_def p map_err_ok dest: evidence_typed [OF L])
qed

lemma begin_typed:
  assumes L: "nonzero_hash L" and c: "claimed_digests claimed"
  shows "yields_typed L capability_digests (begin_dispatch L K policy claimed snapshot now)"
proof -
  have h: "digest_ok (dc_grant_hash (ce_claim claimed))" "prepared_digests (ce_prepared claimed)"
    using c by (simp_all add: claimed_digests_def)
  show ?thesis unfolding begin_dispatch_def
    by (rule pure_typed, rule pure_typed, rule pure_typed,
        rule yields_typed_andthen [OF calls_typed(4) [OF L h(1)]]) (simp add: capability_digests_def h)
qed

lemma receipts_typed:
  assumes L: "nonzero_hash L"
  shows "claimed_digests claimed \<Longrightarrow> digest_ok (nd_observation_digest nd) \<Longrightarrow>
      yields_typed L digest_ok (record_not_dispatched claimed nd)"
    and "handle_digests handle \<Longrightarrow> digest_ok (dr_observation_digest dr) \<Longrightarrow>
      yields_typed L digest_ok (record_dispatched handle dr)"
  unfolding record_not_dispatched_def record_dispatched_def
  by (rule calls_typed(5) [OF L],
      simp add: er_digests_def claimed_digests_def prepared_digests_def handle_digests_def)+

lemma recoveries_typed:
  assumes L: "nonzero_hash L" "typed_readers L"
  shows "digest_ok (ur_proposal_hash ur) \<Longrightarrow> digest_ok (ur_grant_hash ur) \<Longrightarrow>
      digest_ok (ur_observation_digest ur) \<Longrightarrow> yields_typed L digest_ok (record_recovered_unknown L ur)"
    and "digest_ok (nr_proposal_hash nr) \<Longrightarrow> digest_ok (nr_grant_hash nr) \<Longrightarrow>
      digest_ok (nr_observation_digest nr) \<Longrightarrow>
      yields_typed L digest_ok (record_recovered_not_dispatched L nr)"
  unfolding record_recovered_unknown_def record_recovered_not_dispatched_def
  by (rule yields_typed_andthen [OF store_lifecycle_typed [OF L(2)]], assumption,
      (rule pure_typed)+, rule calls_typed(5) [OF L(1)], simp add: er_digests_def)+

lemma dispatch_typed:
  "capability_digests capability \<Longrightarrow> handle_digests (fst (dispatch_with capability adapter))"
  by (simp add: capability_digests_def prepared_digests_def dispatch_with_def handle_digests_def Let_def)

section \<open>Running a typed program\<close>

lemma run_alone_typed:
  "typed_prog L Q p \<Longrightarrow> sql_reachable L db \<Longrightarrow> run_alone L eng p db = (x, db') \<Longrightarrow>
   Q x \<and> sql_reachable L db'"
proof (induction p arbitrary: db)
  case (Done y)
  then show ?case by simp
next
  case (Call c k)
  obtain r db1 where step: "sql_step L (eng, c) db = (r, db1)" by fastforce
  have "typed_prog L Q (k r)" and "call_digests c"
    using Call.prems(1) step by (simp, metis fst_conv, simp)
  moreover have "sql_reachable L db1"
    using sql_next [OF Call.prems(2), of c eng] Call.prems(1) step by simp
  ultimately show ?case using Call.IH [OF rangeI] Call.prems(3) step by simp
next
  case (Look k)
  then show ?case using Look.IH [OF rangeI] by (auto simp del: split_paired_All)
qed

section \<open>The properties\<close>

text \<open>
  C27: the executor keeps the digest type. From records with well-formed digests, \<open>prepare\<close> and
  \<open>authorize_and_claim\<close> make values with well-formed digests only, the methods that consume
  such a value make a capability, a handle or a receipt hash of the same kind, and every call
  that a method makes has typed arguments, whatever the store returns and other connections
  write between two of its calls.
\<close>

theorem executor_keeps_types:
  assumes "nonzero_hash L" and "typed_readers L" and "prepare L c p d g docs = Inr prepared"
    and "tc_digests c" and "ep_digests p" and "ad_digests d" and "eg_digests g"
    and "digest_ok (cu_pre_state_digest currentness)" and "digest_ok (cu_resource_claim_digest currentness)"
    and "digest_ok (nd_observation_digest nd)" and "digest_ok (dr_observation_digest dr)" and "digest_ok h"
  shows "yields_typed L claimed_digests
      (authorize_and_claim L K policy prepared assertion snapshot currentness attempt now)
   \<and> (claimed_digests claimed \<longrightarrow>
        yields_typed L capability_digests (begin_dispatch L K policy claimed snapshot' later)
        \<and> yields_typed L digest_ok (record_not_dispatched claimed nd))
   \<and> (capability_digests capability \<longrightarrow> handle_digests (fst (dispatch_with capability adapter)))
   \<and> (handle_digests handle \<longrightarrow> yields_typed L digest_ok (record_dispatched handle dr))
   \<and> yields_typed L lifecycle_digests (ex_lifecycle L h)"
proof (intro conjI impI)
  note hash = assms(1)
  show "yields_typed L claimed_digests
      (authorize_and_claim L K policy prepared assertion snapshot currentness attempt now)"
    by (rule authorize_typed [OF hash prepare_typed [OF hash assms(3-7)] assms(8,9)])
  show "claimed_digests claimed \<Longrightarrow>
      yields_typed L capability_digests (begin_dispatch L K policy claimed snapshot' later)"
    by (rule begin_typed [OF hash])
  show "yields_typed L lifecycle_digests (ex_lifecycle L h)"
    unfolding ex_lifecycle_def by (rule store_lifecycle_typed [OF assms(2,12)])
qed (simp_all add: dispatch_typed receipts_typed [OF assms(1)] assms(10,11))

text \<open>
  The fixture run: the claim that it makes is typed, what follows from the claim too, and the
  database stays reachable by typed calls.
\<close>

lemma executor_keeps_types_witness:
  "claimed_digests fx_claimed \<and> sql_reachable ref_lib fx_db3
   \<and> capability_digests fx_capability \<and> sql_reachable ref_lib fx_db4"
proof -
  have d: "tc_digests fx_tc" "ep_digests fx_ep" "ad_digests fx_ad" "eg_digests fx_eg"
    "digest_ok (cu_pre_state_digest fx_snapshot)" "digest_ok (cu_resource_claim_digest fx_snapshot)"
    using fx_digests by (simp_all add: fx_snapshot_def fx_digest_def payload_digest_ok ref_lib_hash)
  have obs: "digest_ok (nd_observation_digest \<lparr>nd_receipt_id = ''r'', nd_completed_at_ms = 4200,
      nd_observation_digest = eg_hash\<rparr>)"
    "digest_ok (dr_observation_digest \<lparr>dr_receipt_id = ''r'', dr_completed_at_ms = 4200,
      dr_outcome = DispatchUnknown, dr_observation_digest = eg_hash\<rparr>)" by (simp_all add: eg_hash_ok)
  note typed = executor_keeps_types [OF ref_lib_hash ref_lib_typed fx_prepare d obs eg_hash_ok]
  have "typed_prog ref_lib (\<lambda>r. \<forall>x. r = Inr x \<longrightarrow> claimed_digests x) (authorize_and_claim ref_lib ref_cose
      fx_policy fx_prepared fx_assertion fx_sn fx_snapshot ''attempt-1'' 4000)"
    by (rule typed [THEN conjunct1, unfolded yields_typed_def])
  from run_alone_typed [OF this sql_start fx_authorize]
  have claimed: "claimed_digests fx_claimed" "sql_reachable ref_lib fx_db3" by simp_all
  have "typed_prog ref_lib (\<lambda>r. \<forall>x. r = Inr x \<longrightarrow> capability_digests x) (begin_dispatch ref_lib ref_cose
      fx_policy fx_claimed fx_sn 4100)"
    by (rule typed [THEN conjunct2, THEN conjunct1, THEN mp, OF claimed(1), THEN conjunct1,
        unfolded yields_typed_def])
  from run_alone_typed [OF this claimed(2) fx_begin, of fx_db4] claimed show ?thesis by simp
qed

text \<open>
  C28: the results of the store are typed. A call with well-formed digests returns only
  well-formed digests, on every database and with any fault of the engine, and so does
  \<open>lifecycle\<close>, although it takes its records from the database.
\<close>

theorem store_keeps_types:
  assumes "nonzero_hash L" and "typed_readers L" and "call_digests op" and "digest_ok h"
  shows "return_digests (fst (sql_step L (eng, op) db))
   \<and> (\<forall>lc. read_lifecycle L eng h db1 db2 db3 db4 = Inr lc \<longrightarrow> lifecycle_digests lc)"
  using sql_step_typed [OF assms(1,3)] read_lifecycle_typed [OF assms(2,4)] by blast

lemma store_keeps_types_witness:
  "return_digests (fst (sql_step ref_lib (no_faults, SqlMark eg_hash ''attempt-1'' 4100) fx_db3))
   \<and> (\<exists>lc. lifecycle_of ref_lib no_faults eg_hash fx_db4 = Inr lc \<and> lifecycle_digests lc)"
proof -
  have "call_digests (SqlMark eg_hash ''attempt-1'' 4100)" by (simp add: eg_hash_ok)
  note typed = store_keeps_types [OF ref_lib_hash ref_lib_typed this eg_hash_ok]
  have "lifecycle_of ref_lib no_faults eg_hash fx_db4
      = Inr \<lparr>lc_grant_hash = eg_hash, lc_claim = Some fx_marked_claim, lc_receipt = None,
          lc_reconciliations = []\<rparr>"
    by (simp add: read_lifecycle_def fx_chain_loaded fx_claim_loaded fx_receipt_loaded)
  with typed show ?thesis by blast
qed

end
