(* ===== verification/Executor_Progress.thy ===== *)
theory Executor_Progress
  imports Executor_Typing Sqlite_Progress
begin

text \<open>
  The undisturbed run of the executor: on any reachable database, with inputs that fit the
  grant and the times, \<open>authorize_and_claim\<close>, \<open>begin_dispatch\<close>, the adapter and
  \<open>record_dispatched\<close> all succeed. Each stage has a lemma that hands the facts the next stage
  needs about the database on.
\<close>

section \<open>Claiming\<close>

text \<open>The request that \<open>authorize_and_claim\<close> makes.\<close>

definition request_of :: "executor_policy \<Rightarrow> currentness_snapshot \<Rightarrow> string \<Rightarrow> claim_request" where
  "request_of policy currentness a =
     \<lparr>cq_attempt_id = a, cq_expected_audience = po_audience policy,
      cq_currentness_key = cu_key currentness, cq_expected_snapshot_version = cu_version currentness,
      cq_maximum_snapshot_age_ms = po_maximum_currentness_age_ms policy\<rparr>"

lemma request_valid:
  assumes policy: "policy_validate policy = Inr ()" and s: "validate_snapshot s = Inr ()"
    and a: "store_validate_text ''attempt_id'' a 256 = Inr ()"
  shows "validate_claim_request (request_of policy s a) = Inr ()"
proof -
  from policy have "ex_validate_text (po_audience policy) 512 = Inr ()"
    "0 < po_maximum_currentness_age_ms policy" "po_maximum_currentness_age_ms policy \<le> 300000"
    unfolding policy_validate_def checks_ok
    by (simp_all add: ok_iff MAX_CURRENTNESS_AGE_MS_def word_neq_0_conv not_less)
  moreover from s have "store_validate_text ''currentness key'' (cu_key s) 1024 = Inr ()"
    "0 < cu_version s" "cu_version s \<le> MAX_SAFE_INTEGER"
    unfolding validate_snapshot_def checks_ok by (simp_all add: ok_iff discard_safe word_neq_0_conv)
  ultimately show ?thesis using a
    by (simp add: validate_claim_request_ok request_of_def store_validate_text_def ex_validate_text_def
        split: if_splits)
qed

lemma authorize_checks_ok:
  "authorize_checks policy prepared sn s now = Inr u \<longleftrightarrow>
     cu_observed_at_ms s \<le> now \<and> now - cu_observed_at_ms s \<le> po_maximum_currentness_age_ms policy
     \<and> eg_audience (pe_grant prepared) = po_audience policy
     \<and> sn_configuration_epoch sn = tc_configuration_epoch (pe_commitment prepared)
     \<and> cu_policy_epoch s = tc_policy_epoch (pe_commitment prepared)
     \<and> cu_configuration_epoch s = tc_configuration_epoch (pe_commitment prepared)"
  unfolding authorize_checks_def checks_ok check_currentness_freshness_def
  by (simp add: ok_iff not_less not_le)

text \<open>What the claim leaves in the database, as the later stages need it.\<close>

definition claim_stands ::
    "lib \<Rightarrow> database \<Rightarrow> prepared_effect \<Rightarrow> currentness_snapshot \<Rightarrow> durable_claim \<Rightarrow> bool" where
  "claim_stands L db prepared s claim \<longleftrightarrow>
     (let k = as_str (dc_grant_hash claim) in
      claim_of db k = Some (row_of_claim claim) \<and> decode_claim k (row_of_claim claim) = Inr claim
      \<and> (\<exists>raw. chain_by_hash db k = Some raw \<and> decode_chain L raw = Inr
           \<lparr>sc_grant_hash = dc_grant_hash claim, sc_commitment = pe_commitment prepared,
            sc_proposal = pe_proposal prepared, sc_decision = pe_decision prepared,
            sc_grant = pe_grant prepared\<rparr>)
      \<and> (\<exists>r. currentness_of db (cu_key s) = Some r \<and> decode_currentness (cu_key s) r = Inr s)
      \<and> receipt_of db k = None)"

text \<open>The conditions on the database and the inputs of a claim.\<close>

definition claimable ::
    "lib \<Rightarrow> database \<Rightarrow> prepared_effect \<Rightarrow> currentness_snapshot \<Rightarrow> string \<Rightarrow> u64 \<Rightarrow> bool" where
  "claimable L db prepared s a now \<longleftrightarrow>
     snapshot_accepted db s \<and> \<not> cu_revoked s
     \<and> cu_pre_state_digest s = ep_pre_state_digest (pe_proposal prepared)
     \<and> cu_resource_claim_digest s = ep_resource_claim_digest (pe_proposal prepared)
     \<and> eg_not_before_ms (pe_grant prepared) \<le> now \<and> now < eg_expires_at_ms (pe_grant prepared)
     \<and> clock_allows db now \<and> store_validate_text ''attempt_id'' a 256 = Inr ()
     \<and> row_holder cl_grant_hash db (as_str (pe_grant_hash prepared)) = None
     \<and> row_holder cl_attempt_id db a = None
     \<and> (\<forall>h row. register_row L (pe_commitment prepared) (pe_proposal prepared) (pe_decision prepared)
            (pe_grant prepared) = Inr (h, row) \<longrightarrow>
          chain_available db (eg_grant_id (pe_grant prepared)) row)"

definition claimed_by ::
    "executor_policy \<Rightarrow> prepared_effect \<Rightarrow> currentness_snapshot \<Rightarrow> string \<Rightarrow> u64 \<Rightarrow> durable_claim" where
  "claimed_by policy prepared s a now = claim_result (pe_grant_hash prepared) (request_of policy s a) now"

lemma unclaimed_unreceipted:
  assumes "schema_ok db" and "row_holder cl_grant_hash db k = None"
  shows "claim_of db k = None" and "receipt_of db k = None"
proof -
  from assms(2) have "k \<notin> cl_grant_hash ` set (db_claims db)" by (auto simp: row_holder_def find_None_iff)
  moreover have "re_grant_hash ` set (db_receipts db) \<subseteq> cl_grant_hash ` set (db_claims db)"
    using assms(1) by (simp add: schema_defs)
  ultimately show "claim_of db k = None" "receipt_of db k = None"
    by (auto simp: claim_of_def receipt_of_def find_None_iff)
qed

lemma store_claims:
  assumes L: "conforming L" and db: "schema_ok db" and p: "prepared_digests prepared"
    and g: "verify_grant L (pe_commitment prepared) (pe_proposal prepared) (pe_decision prepared)
      (pe_grant prepared) = Inr (pe_grant_hash prepared)"
    and policy: "policy_validate policy = Inr ()"
    and checks: "authorize_checks policy prepared sn s now = Inr ()"
    and ok: "claimable L db prepared s a now" and now: "now \<le> MAX_SAFE_INTEGER"
  shows "\<exists>row rows db2. register_chain L no_faults (pe_commitment prepared) (pe_proposal prepared)
      (pe_decision prepared) (pe_grant prepared) db = (Inr (pe_grant_hash prepared), row)
    \<and> put_currentness no_faults s row = (Inr (), rows)
    \<and> sql_claim L no_faults (pe_grant prepared) (request_of policy s a) now rows
        = (Inr (claimed_by policy prepared s a now), db2)
    \<and> claim_stands L db2 prepared s (claimed_by policy prepared s a now)
    \<and> clock_allows db2 now \<and> db_receipts db2 = db_receipts db"
proof -
  let ?h = "pe_grant_hash prepared" and ?i = "eg_grant_id (pe_grant prepared)"
  let ?q = "request_of policy s a" and ?c = "claimed_by policy prepared s a now"
  obtain raw where raw: "register_row L (pe_commitment prepared) (pe_proposal prepared) (pe_decision prepared)
      (pe_grant prepared) = Inr (?h, raw)" "rc_grant_hash raw = as_str ?h"
    using registered_row [OF L g] by blast
  have free: "chain_available db ?i raw" using ok raw(1) by (auto simp: claimable_def)
  let ?db1 = "with_chain ?i raw db"
  have decode: "decode_chain L raw = Inr \<lparr>sc_grant_hash = ?h, sc_commitment = pe_commitment prepared,
      sc_proposal = pe_proposal prepared, sc_decision = pe_decision prepared, sc_grant = pe_grant prepared\<rparr>"
    (is "_ = Inr ?chain") using decode_registered [OF L raw(1)] p by (simp add: prepared_digests_def)
  have "snapshot_accepted ?db1 s" using ok by (simp add: claimable_def snapshot_accepted_def currentness_of_def)
  moreover have "digest_ok (cu_pre_state_digest s)" "digest_ok (cu_resource_claim_digest s)"
    using ok p by (auto simp: claimable_def prepared_digests_def ep_digests_def)
  ultimately obtain rows r where put: "put_currentness no_faults s ?db1 = (Inr (), ?db1\<lparr>db_currentness := rows\<rparr>)"
    and r: "currentness_of (?db1\<lparr>db_currentness := rows\<rparr>) (cu_key s) = Some r"
      "decode_currentness (cu_key s) r = Inr s" using put_succeeds by blast
  let ?db2 = "?db1\<lparr>db_currentness := rows\<rparr>"
  let ?db3 = "(at_time now ?db2)\<lparr>db_claims := db_claims db @ [row_of_claim ?c]\<rparr>"
  have q: "validate_claim_request ?q = Inr ()"
    using ok by (intro request_valid policy) (simp_all add: claimable_def snapshot_accepted_def)
  have chains: "chain_by_id ?db2 ?i = Some raw" "chain_by_hash ?db2 (as_str ?h) = Some raw"
    using with_chain_lookups [OF db free] raw(2) by (simp_all add: chain_by_id_def chain_by_hash_def)
  have cur: "claim_currentness ?chain s ?q now = Inr ()"
    using ok checks by (simp add: claim_currentness_ok claimable_def authorize_checks_ok request_of_def)
  have clock: "clock_allows ?db2 now" using ok by (simp add: claimable_def clock_allows_def)
  have unused: "row_holder cl_grant_hash ?db2 (as_str ?h) = None" "row_holder cl_attempt_id ?db2 (cq_attempt_id ?q) = None"
    using ok by (simp_all add: claimable_def row_holder_def request_of_def)
  have "sql_claim L no_faults (pe_grant prepared) ?q now ?db2 = (Inr ?c, ?db3)"
    using claim_succeeds [OF q now clock chains(1) decode, where s = s and row = r] cur unused r
    by (simp add: claimed_by_def request_of_def)
  moreover have h: "digest_ok ?h" using p by (simp add: prepared_digests_def)
  have "claim_stands L ?db3 prepared s ?c"
    using unclaimed_unreceipted [OF db, of "as_str ?h"] ok chains r decode decode_claimed [OF q now h]
    by (simp add: claim_stands_def claimable_def claimed_by_def claim_result_def claim_of_def receipt_of_def
        find_append_None row_of_claim_def chain_by_hash_def currentness_of_def Let_def)
  moreover have "clock_allows ?db3 now" using clock by (auto simp: clock_allows_def)
  ultimately show ?thesis using register_succeeds [OF raw(1) free] put by auto
qed

lemma prepare_ok:
  "prepare L c p d g docs = Inr prepared \<Longrightarrow>
   verify_grant L c p d g = Inr (pe_grant_hash prepared) \<and> ep_commitment L p = Inr (pe_proposal_hash prepared)
   \<and> pe_commitment prepared = c \<and> pe_proposal prepared = p \<and> pe_decision prepared = d
   \<and> pe_grant prepared = g \<and> pe_documents prepared = docs"
  by (auto simp: prepare_def rbind_ok map_err_ok)

lemma authorize_completes:
  assumes "authorize_checks policy prepared sn s now = Inr ()"
    and "verify_authority L K assertion sn (authority_context policy prepared now) = Inr v"
    and "register_chain L no_faults (pe_commitment prepared) (pe_proposal prepared)
      (pe_decision prepared) (pe_grant prepared) db = (Inr h, db1)"
    and "put_currentness no_faults s db1 = (Inr (), db2)"
    and "sql_claim L no_faults (pe_grant prepared) (request_of policy s a) now db2 = (Inr claim, db3)"
  shows "run_alone L no_faults (authorize_and_claim L K policy prepared assertion sn s a now) db
    = (Inr \<lparr>ce_prepared = prepared, ce_claim = claim, ce_authority = evidence_from v,
         ce_signed_authority = assertion\<rparr>, db3)"
  using assms by (simp add: authorize_and_claim_def run_alone_andthen request_of_def)

lemma executor_claims:
  assumes L: "conforming L" and db: "sql_reachable L db" and policy: "policy_validate policy = Inr ()"
    and prepared: "prepare L c p d g docs = Inr prepared" and digests: "prepared_digests prepared"
    and checks: "authorize_checks policy prepared sn s now = Inr ()"
    and first: "verify_authority L K assertion sn (authority_context policy prepared now) = Inr v"
    and free: "claimable L db prepared s a now" and now: "now \<le> MAX_SAFE_INTEGER"
    and claimed: "claimed = \<lparr>ce_prepared = prepared, ce_claim = claimed_by policy prepared s a now,
      ce_authority = evidence_from v, ce_signed_authority = assertion\<rparr>"
  shows "\<exists>db1. run_alone L no_faults (authorize_and_claim L K policy prepared assertion sn s a now) db
      = (Inr claimed, db1)
    \<and> claim_stands L db1 prepared s (claimed_by policy prepared s a now) \<and> clock_allows db1 now
    \<and> db_receipts db1 = db_receipts db \<and> sql_reachable L db1 \<and> claimed_digests claimed"
proof -
  have hash: "nonzero_hash L" using L by (simp add: conforming_def)
  obtain db1 where run: "run_alone L no_faults (authorize_and_claim L K policy prepared assertion sn s a now) db
      = (Inr claimed, db1)"
    and stands: "claim_stands L db1 prepared s (claimed_by policy prepared s a now)" "clock_allows db1 now"
      "db_receipts db1 = db_receipts db"
    using store_claims [OF L sql_reachable_schema [OF db] digests _ policy checks free now]
      prepare_ok [OF prepared] authorize_completes [OF checks first] unfolding claimed by force
  have "digest_ok (cu_pre_state_digest s)" "digest_ok (cu_resource_claim_digest s)"
    using free digests by (auto simp: claimable_def prepared_digests_def ep_digests_def)
  from run_alone_typed [OF authorize_typed [OF hash digests this, unfolded yields_typed_def] db run]
  show ?thesis using run stands by auto
qed

section \<open>Dispatching\<close>

lemma begin_completes:
  assumes db: "schema_ok db" and claim: "claim = claimed_by policy prepared s a now"
    and stands: "claim_stands L db prepared s claim" "clock_allows db now" "claimable L db0 prepared s a now"
      "authorize_checks policy prepared sn s now = Inr ()"
    and times: "now \<le> later" "later \<le> MAX_SAFE_INTEGER" "later < eg_expires_at_ms (pe_grant prepared)"
      "later - cu_observed_at_ms s \<le> po_maximum_currentness_age_ms policy"
    and authority: "sn_configuration_epoch sn' = tc_configuration_epoch (pe_commitment prepared)"
      "verify_authority L K assertion sn' (authority_context policy prepared later) = Inr v'"
      "same_authority_identity (evidence_from v) (evidence_from v')"
  shows "\<exists>db'. run_alone L no_faults (begin_dispatch L K policy \<lparr>ce_prepared = prepared, ce_claim = claim,
        ce_authority = evidence_from v, ce_signed_authority = assertion\<rparr> sn' later) db
      = (Inr \<lparr>cp_prepared = prepared, cp_claim = claim, cp_dispatched_at_ms = later\<rparr>, db')
    \<and> claim_of db' (as_str (dc_grant_hash claim))
      = Some ((row_of_claim claim)\<lparr>cl_dispatch_started_at_ms := Some (uint later)\<rparr>)
    \<and> db_chains db' = db_chains db \<and> db_receipts db' = db_receipts db"
proof -
  let ?h = "dc_grant_hash claim"
  have c: "dc_attempt_id claim = a" "dc_dispatch_started_at_ms claim = None" "dc_claimed_at_ms claim = now"
    "dc_currentness_key claim = cu_key s" "dc_snapshot_version claim = cu_version s"
    "dc_maximum_snapshot_age_ms claim = po_maximum_currentness_age_ms policy"
    by (simp_all add: claim claimed_by_def claim_result_def request_of_def)
  from stands(1) obtain raw r where row: "claim_of db (as_str ?h) = Some (row_of_claim claim)"
      "decode_claim (as_str ?h) (row_of_claim claim) = Inr claim"
    and raw: "chain_by_hash db (as_str ?h) = Some raw" "decode_chain L raw = Inr
      \<lparr>sc_grant_hash = ?h, sc_commitment = pe_commitment prepared, sc_proposal = pe_proposal prepared,
       sc_decision = pe_decision prepared, sc_grant = pe_grant prepared\<rparr>" (is "_ = Inr ?chain")
    and r: "currentness_of db (dc_currentness_key claim) = Some r"
      "decode_currentness (dc_currentness_key claim) r = Inr s"
    by (auto simp: claim_stands_def Let_def c)
  have "cu_observed_at_ms s \<le> later"
    using stands(4) times(1) unfolding authorize_checks_ok by (auto intro: order_trans)
  then have current: "dispatch_currentness ?chain s claim later = Inr ()"
    using stands(3,4) times(4) unfolding dispatch_currentness_def checks_ok validate_currentness_age_def
    by (simp add: ok_iff c claimable_def authorize_checks_ok not_less)
  have "clock_allows db later"
    using stands(2) times(1) by (auto simp: clock_allows_def word_le_def)
  moreover have "store_validate_text ''attempt_id'' a 256 = Inr ()" using stands(3) by (simp add: claimable_def)
  ultimately obtain rows where "mark_dispatch_started L no_faults ?h a later db
      = (Inr \<lparr>dm_grant_hash = ?h, dm_attempt_id = a, dm_dispatched_at_ms = later\<rparr>,
         (at_time later db)\<lparr>db_claims := rows\<rparr>)"
    "claim_of ((at_time later db)\<lparr>db_claims := rows\<rparr>) (as_str ?h)
      = Some ((row_of_claim claim)\<lparr>cl_dispatch_started_at_ms := Some (uint later)\<rparr>)"
    using mark_succeeds [OF db _ times(2) _ row _ _ _ raw _ r current] times(1,3) c by auto
  then show ?thesis
    using authority by (simp add: begin_dispatch_def run_alone_andthen c)
qed

section \<open>Recording\<close>

text \<open>The receipt of a dispatch at \<open>later\<close>.\<close>

definition receipt_for ::
    "prepared_effect \<Rightarrow> durable_claim \<Rightarrow> u64 \<Rightarrow> dispatched_receipt \<Rightarrow> effect_receipt" where
  "receipt_for prepared claim later dr =
     \<lparr>er_version = 1, er_receipt_id = dr_receipt_id dr, er_proposal_hash = pe_proposal_hash prepared,
      er_grant_hash = dc_grant_hash claim, er_attempt_id = dc_attempt_id claim,
      er_claimed_at_ms = dc_claimed_at_ms claim, er_dispatched_at_ms = Some later,
      er_completed_at_ms = dr_completed_at_ms dr, er_outcome = outcome_from (dr_outcome dr),
      er_observation_digest = dr_observation_digest dr\<rparr>"

lemma record_dispatched_for:
  "record_dispatched (fst (dispatch_with \<lparr>cp_prepared = prepared, cp_claim = claim,
      cp_dispatched_at_ms = later\<rparr> adapter)) dr
    = store_call (SqlReceipt (receipt_for prepared claim later dr)) returned_digest"
  by (simp add: record_dispatched_def dispatch_with_def receipt_for_def Let_def)

lemma marked_decodes:
  "decode_claim k (row_of_claim claim) = Inr claim \<Longrightarrow> dc_dispatch_started_at_ms claim = None \<Longrightarrow>
   later \<le> MAX_SAFE_INTEGER \<Longrightarrow>
   decode_claim k ((row_of_claim claim)\<lparr>cl_dispatch_started_at_ms := Some (uint later)\<rparr>)
     = Inr (claim\<lparr>dc_dispatch_started_at_ms := Some later\<rparr>)"
  by (simp add: decode_claim_ok)

lemma record_completes:
  assumes L: "conforming L" and db: "sql_reachable L db"
    and row: "claim_of db (as_str (dc_grant_hash claim))
        = Some ((row_of_claim claim)\<lparr>cl_dispatch_started_at_ms := Some (uint later)\<rparr>)"
      "decode_claim (as_str (dc_grant_hash claim)) (row_of_claim claim) = Inr claim"
      "dc_dispatch_started_at_ms claim = None" "later \<le> MAX_SAFE_INTEGER"
    and raw: "chain_by_hash db (as_str (dc_grant_hash claim)) = Some raw" "decode_chain L raw = Inr chain"
    and r: "er_validate (receipt_for prepared claim later dr) = Inr ()" "digest_ok (dr_observation_digest dr)"
    and p: "ep_commitment L (sc_proposal chain) = Inr (pe_proposal_hash prepared)"
    and fresh: "receipt_of db (as_str (dc_grant_hash claim)) = None"
      "dr_receipt_id dr \<notin> re_receipt_id ` set (db_receipts db)"
      "\<And>k. er_commitment L (receipt_for prepared claim later dr) = Inr k \<Longrightarrow>
        as_str k \<notin> re_receipt_hash ` set (db_receipts db)"
  shows "\<exists>k db' lc. record_receipt L no_faults (receipt_for prepared claim later dr) db = (Inr k, db')
    \<and> lifecycle_of L no_faults (dc_grant_hash claim) db' = Inr lc
    \<and> lc_claim lc = Some (claim\<lparr>dc_dispatch_started_at_ms := Some later\<rparr>)
    \<and> lc_receipt lc = Some (receipt_for prepared claim later dr)"
proof (rule receipt_completes [OF L db row(1) marked_decodes [OF row(2-4)] raw r(1)])
  show "validate_dispatch_evidence (receipt_for prepared claim later dr)
      (dc_dispatch_started_at_ms (claim\<lparr>dc_dispatch_started_at_ms := Some later\<rparr>)) = Inr ()"
    unfolding dispatch_evidence_ok by (cases "dr_outcome dr") (simp_all add: receipt_for_def)
  show "er_digests (receipt_for prepared claim later dr)"
    using commitment_okD(2) [OF L p] row(2) r(2) by (simp add: er_digests_def receipt_for_def decode_claim_ok)
qed (use p fresh in \<open>simp_all add: receipt_for_def\<close>)

lemma claim_stands_later:
  assumes "claim_stands L db prepared s claim" and "db_chains db' = db_chains db"
    and "db_receipts db' = db_receipts db"
  shows "\<exists>raw. chain_by_hash db' (as_str (dc_grant_hash claim)) = Some raw
    \<and> decode_chain L raw = Inr \<lparr>sc_grant_hash = dc_grant_hash claim, sc_commitment = pe_commitment prepared,
         sc_proposal = pe_proposal prepared, sc_decision = pe_decision prepared, sc_grant = pe_grant prepared\<rparr>
    \<and> decode_claim (as_str (dc_grant_hash claim)) (row_of_claim claim) = Inr claim
    \<and> receipt_of db' (as_str (dc_grant_hash claim)) = None"
  using assms by (auto simp: claim_stands_def Let_def chain_by_hash_def receipt_of_def)

section \<open>The property\<close>

text \<open>
  C14: An undisturbed attempt with honest inputs completes. On every reachable database that can
  take the claim, with a valid policy, a prepared effect, accepted authority at both times, fresh
  matching currentness, and times in order inside the grant, \<open>authorize_and_claim\<close> and
  \<open>begin_dispatch\<close> return a capability, the adapter gets the prepared documents, and
  \<open>record_dispatched\<close> with a valid receipt under an unused identifier succeeds; afterwards the
  lifecycle shows the claim with its marker and the receipt.
\<close>

theorem executor_completes:
  assumes L: "conforming L" and db: "sql_reachable L db"
    and policy: "policy_validate policy = Inr ()"
    and prepared: "prepare L c p d g docs = Inr prepared"
    and typed: "tc_digests c" "ep_digests p" "ad_digests d" "eg_digests g"
    and checks: "authorize_checks policy prepared sn s now = Inr ()"
    and first: "verify_authority L K assertion sn (authority_context policy prepared now) = Inr v"
    and free: "claimable L db prepared s a now"
    and times: "now \<le> later" "later \<le> MAX_SAFE_INTEGER" "later < eg_expires_at_ms g"
      "later - cu_observed_at_ms s \<le> po_maximum_currentness_age_ms policy"
    and second: "sn_configuration_epoch sn' = tc_configuration_epoch c"
      "verify_authority L K assertion sn' (authority_context policy prepared later) = Inr v'"
      "same_authority_identity (evidence_from v) (evidence_from v')"
    and r: "r = receipt_for prepared (claimed_by policy prepared s a now) later dr"
      "er_validate r = Inr ()" "digest_ok (dr_observation_digest dr)"
      "dr_receipt_id dr \<notin> re_receipt_id ` set (db_receipts db)"
      "\<And>k. er_commitment L r = Inr k \<Longrightarrow> as_str k \<notin> re_receipt_hash ` set (db_receipts db)"
  shows "\<exists>claimed db1 capability db2 k db3 lc.
    run_alone L no_faults (authorize_and_claim L K policy prepared assertion sn s a now) db
      = (Inr claimed, db1)
    \<and> run_alone L no_faults (begin_dispatch L K policy claimed sn' later) db1 = (Inr capability, db2)
    \<and> snd (dispatch_with capability xe_documents) = docs
    \<and> run_alone L no_faults (record_dispatched (fst (dispatch_with capability adapter)) dr) db2 = (Inr k, db3)
    \<and> lifecycle_of L no_faults (pe_grant_hash prepared) db3 = Inr lc
    \<and> lc_claim lc = Some ((ce_claim claimed)\<lparr>dc_dispatch_started_at_ms := Some later\<rparr>)
    \<and> lc_receipt lc = Some r"
proof -
  let ?c = "claimed_by policy prepared s a now"
  let ?cap = "\<lparr>cp_prepared = prepared, cp_claim = ?c, cp_dispatched_at_ms = later\<rparr>"
  have hash: "nonzero_hash L" using L by (simp add: conforming_def)
  note p = prepare_ok [OF prepared]
  have c: "dc_grant_hash ?c = pe_grant_hash prepared" "dc_dispatch_started_at_ms ?c = None"
    by (simp_all add: claimed_by_def claim_result_def)
  from executor_claims [OF L db policy prepared prepare_typed [OF hash prepared typed] checks first free
      order_trans [OF times(1,2)] refl]
  obtain claimed db1 where claimed: "claimed = \<lparr>ce_prepared = prepared, ce_claim = ?c,
      ce_authority = evidence_from v, ce_signed_authority = assertion\<rparr>"
    and run1: "run_alone L no_faults (authorize_and_claim L K policy prepared assertion sn s a now) db
      = (Inr claimed, db1)"
    and stands: "claim_stands L db1 prepared s ?c" "clock_allows db1 now" "db_receipts db1 = db_receipts db"
    and reach1: "sql_reachable L db1" "claimed_digests claimed" by blast
  obtain db2 where run2: "run_alone L no_faults (begin_dispatch L K policy claimed sn' later) db1 = (Inr ?cap, db2)"
    and marked: "claim_of db2 (as_str (dc_grant_hash ?c))
        = Some ((row_of_claim ?c)\<lparr>cl_dispatch_started_at_ms := Some (uint later)\<rparr>)"
      "db_chains db2 = db_chains db1" "db_receipts db2 = db_receipts db1"
    using begin_completes [OF sql_reachable_schema [OF reach1(1)] refl stands(1,2) free checks times(1,2) _
        times(4) _ second(2,3)] times(3) second(1) p by (auto simp: claimed)
  from run_alone_typed [OF begin_typed [OF hash reach1(2), unfolded yields_typed_def] reach1(1) run2]
  have reach2: "sql_reachable L db2" by simp
  from claim_stands_later [OF stands(1) marked(2,3)] obtain raw where
      raw: "chain_by_hash db2 (as_str (dc_grant_hash ?c)) = Some raw" "decode_chain L raw = Inr
        \<lparr>sc_grant_hash = dc_grant_hash ?c, sc_commitment = pe_commitment prepared,
         sc_proposal = pe_proposal prepared, sc_decision = pe_decision prepared, sc_grant = pe_grant prepared\<rparr>"
    and decodes: "decode_claim (as_str (dc_grant_hash ?c)) (row_of_claim ?c) = Inr ?c"
      "receipt_of db2 (as_str (dc_grant_hash ?c)) = None" by blast
  obtain k db3 lc where "record_receipt L no_faults r db2 = (Inr k, db3)"
    "lifecycle_of L no_faults (pe_grant_hash prepared) db3 = Inr lc"
    "lc_claim lc = Some (?c\<lparr>dc_dispatch_started_at_ms := Some later\<rparr>)" "lc_receipt lc = Some r"
    using record_completes [OF L reach2 marked(1) decodes(1) c(2) times(2) raw _ r(3) _ decodes(2),
        where prepared = prepared] r p marked(3) stands(3) by (auto simp: c(1))
  moreover from this(1) have "run_alone L no_faults
      (record_dispatched (fst (dispatch_with ?cap adapter)) dr) db2 = (Inr k, db3)"
    by (simp add: record_dispatched_for r(1))
  moreover have "snd (dispatch_with ?cap xe_documents) = docs" using p by (simp add: dispatch_with_def Let_def)
  moreover have "ce_claim claimed = ?c" by (simp add: claimed)
  ultimately show ?thesis using run1 run2 by metis
qed

text \<open>The fixture inputs on a new database.\<close>

definition fx_dispatched_receipt :: dispatched_receipt where
  "fx_dispatched_receipt = \<lparr>dr_receipt_id = ''receipt-1'', dr_completed_at_ms = 4200,
     dr_outcome = DispatchUnknown, dr_observation_digest = er_observation_digest fx_er\<rparr>"

lemma fx_claimable: "claimable ref_lib empty_database fx_prepared fx_snapshot ''attempt-1'' 4000"
proof -
  show ?thesis
    using fx_snapshot_ok(1)
    by (simp add: claimable_def snapshot_accepted_def fx_prepared_def chain_available_def row_holder_def
        currentness_of_def clock_allows_def empty_database_def text_eval store_validate_text_def)
       (simp add: fx_snapshot_def fx_ep_def fx_eg_def)
qed

theorem executor_completes_witness:
  "\<exists>claimed db1 capability db2 k db3 lc.
    run_alone ref_lib no_faults (authorize_and_claim ref_lib ref_cose fx_policy fx_prepared fx_assertion fx_sn
      fx_snapshot ''attempt-1'' 4000) empty_database = (Inr claimed, db1)
    \<and> run_alone ref_lib no_faults (begin_dispatch ref_lib ref_cose fx_policy claimed fx_sn 4100) db1
      = (Inr capability, db2)
    \<and> snd (dispatch_with capability xe_documents) = fx_docs
    \<and> run_alone ref_lib no_faults
        (record_dispatched (fst (dispatch_with capability id)) fx_dispatched_receipt) db2 = (Inr k, db3)
    \<and> lifecycle_of ref_lib no_faults (pe_grant_hash fx_prepared) db3 = Inr lc
    \<and> lc_claim lc = Some ((ce_claim claimed)\<lparr>dc_dispatch_started_at_ms := Some 4100\<rparr>)
    \<and> lc_receipt lc = Some fx_er"
proof (rule executor_completes [OF conforming_ref_lib sql_start fx_policy_valid fx_prepare fx_digests(1-4)])
  show "authorize_checks fx_policy fx_prepared fx_sn fx_snapshot 4000 = Inr ()"
    by (simp add: authorize_checks_def check_currentness_freshness_def fx_policy_def fx_prepared_def
        fx_sn_def fx_snapshot_def) (simp add: fx_eg_def fx_tc_def)
  show "verify_authority ref_lib ref_cose fx_assertion fx_sn (authority_context fx_policy fx_prepared 4000)
      = Inr (fx_verified 4000)" by (rule fx_authority) simp
  show "verify_authority ref_lib ref_cose fx_assertion fx_sn (authority_context fx_policy fx_prepared 4100)
      = Inr (fx_verified 4100)" by (rule fx_authority) simp
  show "same_authority_identity (evidence_from (fx_verified 4000)) (evidence_from (fx_verified 4100))"
    by (simp add: same_authority_identity_def evidence_from_def fx_verified_def Let_def)
  show "fx_er = receipt_for fx_prepared (claimed_by fx_policy fx_prepared fx_snapshot ''attempt-1'' 4000) 4100
      fx_dispatched_receipt"
    by (simp add: receipt_for_def claimed_by_def claim_result_def request_of_def fx_dispatched_receipt_def
        fx_prepared_def) (simp add: fx_er_def)
qed (use fx_claimable fx_er_valid fx_digests(5) in \<open>simp_all add: fx_dispatched_receipt_def er_digests_def
    empty_database_def MAX_SAFE_INTEGER_def\<close>, simp_all add: fx_eg_def fx_snapshot_def fx_policy_def fx_sn_def fx_tc_def)

end
