(* ===== verification/Lifecycle_Machine.thy ===== *)
theory Lifecycle_Machine
  imports Store_Interface Lifecycle_Spec
begin

text \<open>
  The abstract lifecycle of one grant, which both stores implement: a ledger that is filled in
  order, by registration, the claim, the dispatch marker, the receipt and the reconciliation
  records. Each transition is written once, with its guard in terms of the verification
  functions, independent of tables, indexes and transactions; \<open>moves\<close> lets at most one grant
  of a family take one transition. The locale \<open>lifecycle_ledgers\<close> is the refinement contract
  of a store, with its consequences for every sequence of calls.
\<close>

section \<open>Ledgers and their transitions\<close>

record ledger =
  lg_chain :: "(task_commitment \<times> effect_proposal \<times> authorization_decision \<times> execution_grant) option"
  lg_claim :: "(string \<times> int) option"
  lg_marker :: "int option"
  lg_receipt :: "effect_receipt option"
  lg_history :: "reconciliation_record list"

definition blank :: ledger where
  "blank = \<lparr>lg_chain = None, lg_claim = None, lg_marker = None, lg_receipt = None, lg_history = []\<rparr>"

text \<open>
  The flag says whether the store keeps dispatch markers, and then compares the dispatch time
  of a receipt with the marker. The marker does not require that the receipt is missing, as
  the code does not.
\<close>

inductive ledger_step :: "lib \<Rightarrow> bool \<Rightarrow> ledger \<Rightarrow> ledger \<Rightarrow> bool" for L markers where
  registers:
    "lg_chain l = None \<Longrightarrow> verify_grant L c p d g = Inr h \<Longrightarrow>
     ledger_step L markers l (l\<lparr>lg_chain := Some (c, p, d, g)\<rparr>)"
| claims:
    "lg_chain l = Some (c, p, d, g) \<Longrightarrow> lg_claim l = None \<Longrightarrow>
     uint (eg_not_before_ms g) \<le> t \<Longrightarrow> t < uint (eg_expires_at_ms g) \<Longrightarrow>
     ledger_step L markers l (l\<lparr>lg_claim := Some (a, t)\<rparr>)"
| marks:
    "markers \<Longrightarrow> lg_chain l = Some (c, p, d, g) \<Longrightarrow> lg_claim l = Some (a, t) \<Longrightarrow>
     lg_marker l = None \<Longrightarrow> t \<le> u \<Longrightarrow> u < uint (eg_expires_at_ms g) \<Longrightarrow>
     ledger_step L markers l (l\<lparr>lg_marker := Some u\<rparr>)"
| receives:
    "lg_chain l = Some (c, p, d, g) \<Longrightarrow> lg_claim l = Some (er_attempt_id r, uint (er_claimed_at_ms r)) \<Longrightarrow>
     lg_receipt l = None \<Longrightarrow> verify_chain L c p d g r = Inr v \<Longrightarrow>
     markers \<longrightarrow> map_option uint (er_dispatched_at_ms r) = lg_marker l \<Longrightarrow>
     ledger_step L markers l (l\<lparr>lg_receipt := Some r\<rparr>)"
| reconciles:
    "lg_receipt l = Some r \<Longrightarrow> length (lg_history l) < MAX_RECONCILIATION_RECORDS \<Longrightarrow>
     rr_reconciliation_id x \<notin> rr_reconciliation_id ` set (lg_history l) \<Longrightarrow>
     verify_reconciliation L r (last_record (lg_history l)) x = Inr h \<Longrightarrow>
     ledger_step L markers l (l\<lparr>lg_history := lg_history l @ [x]\<rparr>)"

inductive_cases ledger_stepE: "ledger_step L markers l l'"

text \<open>At most one grant of a family of grants takes a transition.\<close>

definition moves :: "lib \<Rightarrow> bool \<Rightarrow> ('k \<Rightarrow> ledger) \<Rightarrow> ('k \<Rightarrow> ledger) \<Rightarrow> bool" where
  "moves L markers f f' \<longleftrightarrow> f' = f \<or> (\<exists>k l. ledger_step L markers (f k) l \<and> f' = f(k := l))"

lemma moves_refl [simp]: "moves L markers f f"
  by (simp add: moves_def)

lemma moves_at: "ledger_step L markers (f k) l \<Longrightarrow> f' = f(k := l) \<Longrightarrow> moves L markers f f'"
  by (auto simp: moves_def)

lemma moves_each: "moves L markers f f' \<Longrightarrow> f' k = f k \<or> ledger_step L markers (f k) (f' k)"
  by (auto simp: moves_def)

section \<open>What every ledger satisfies\<close>

text \<open>The bundle a ledger stands for.\<close>

definition ledger_bundle :: "ledger \<Rightarrow> transaction_bundle option" where
  "ledger_bundle l =
     map_option (\<lambda>(c, p, d, g). \<lparr>tb_commitment = c, tb_proposal = p, tb_decision = d, tb_grant = Some g,
        tb_receipt = lg_receipt l, tb_reconciliations = lg_history l\<rparr>) (lg_chain l)"

definition ledger_ok :: "lib \<Rightarrow> bool \<Rightarrow> ledger \<Rightarrow> bool" where
  "ledger_ok L markers l \<longleftrightarrow>
     (case lg_chain l of
        None \<Rightarrow> l = blank
      | Some (c, p, d, g) \<Rightarrow>
          (\<exists>v. verify_transaction L (the (ledger_bundle l)) = Inr v)
          \<and> (case lg_claim l of
               None \<Rightarrow> lg_marker l = None \<and> lg_receipt l = None
             | Some (a, t) \<Rightarrow>
                 uint (eg_not_before_ms g) \<le> t \<and> t < uint (eg_expires_at_ms g)
                 \<and> (\<forall>u. lg_marker l = Some u \<longrightarrow> markers \<and> t \<le> u \<and> u < uint (eg_expires_at_ms g))
                 \<and> (\<forall>r. lg_receipt l = Some r \<longrightarrow>
                      a = er_attempt_id r \<and> t = uint (er_claimed_at_ms r)
                      \<and> (markers \<longrightarrow> (\<forall>u. er_dispatched_at_ms r = Some u \<longrightarrow> lg_marker l = Some (uint u))))))"

lemma ledger_verifies:
  assumes "lg_chain l = Some (c, p, d, g)"
  shows "(\<exists>v. verify_transaction L (the (ledger_bundle l)) = Inr v) \<longleftrightarrow>
    length (lg_history l) \<le> MAX_RECONCILIATION_RECORDS \<and>
    (case lg_receipt l of
       None \<Rightarrow> (\<exists>h. verify_grant L c p d g = Inr h) \<and> lg_history l = []
     | Some r \<Rightarrow> (\<exists>v. verify_chain L c p d g r = Inr v) \<and> history_ok L r (lg_history l))"
proof -
  have "(\<exists>h. verify_grant L c p d g = Inr h)" if "verify_chain L c p d g r = Inr v" for r v
    using that by (auto simp: verify_chain_ok verify_grant_ok)
  moreover have "\<exists>v. verify_decision L c p d = Inr v" if "verify_grant L c p d g = Inr h" for h
    using that by (auto simp: verify_grant_ok verify_authorization_ok)
  ultimately show ?thesis
    unfolding verify_transaction_ok_iff lifecycle_ok_def ledger_bundle_def
    by (auto simp: assms simp del: verify_grant_ok verify_chain_ok split: option.splits)
qed

lemma ledger_ok_blank [simp]: "ledger_ok L markers blank"
  by (simp add: ledger_ok_def blank_def)

lemma ledger_step_ok:
  assumes "ledger_step L markers l l'" and "ledger_ok L markers l"
  shows "ledger_ok L markers l'"
  using assms(1)
proof cases
  case (registers c p d g h)
  with assms(2) show ?thesis
    using ledger_verifies [of l' c p d g L]
    by (auto simp: ledger_ok_def blank_def simp del: verify_grant_ok)
next
  case (claims c p d g t a)
  then have "the (ledger_bundle l') = the (ledger_bundle l)" by (simp add: ledger_bundle_def)
  with claims assms(2) show ?thesis by (simp add: ledger_ok_def)
next
  case (marks c p d g a t u)
  then have "the (ledger_bundle l') = the (ledger_bundle l)" by (simp add: ledger_bundle_def)
  with marks assms(2) show ?thesis by (auto simp: ledger_ok_def)
next
  case (receives c p d g r v)
  have "lg_history l = []" using receives assms(2) ledger_verifies [OF receives(2), of L]
    by (auto simp: ledger_ok_def)
  with receives have "\<exists>v. verify_transaction L (the (ledger_bundle l')) = Inr v"
    using ledger_verifies [of l' c p d g L] by (simp del: verify_chain_ok)
  with receives assms(2) show ?thesis by (auto simp: ledger_ok_def)
next
  case (reconciles r x h)
  from reconciles(2) assms(2) obtain c p d g where chain: "lg_chain l = Some (c, p, d, g)"
    by (cases "lg_chain l") (auto simp: ledger_ok_def blank_def)
  with assms(2) have "\<exists>v. verify_transaction L (the (ledger_bundle l)) = Inr v"
    by (auto simp: ledger_ok_def)
  then have "\<exists>v. verify_transaction L (the (ledger_bundle l')) = Inr v"
    using ledger_verifies [OF chain, of L] ledger_verifies [of l' c p d g L] chain reconciles
    by (auto simp: history_ok_snoc simp del: verify_chain_ok verify_reconciliation_ok)
  with chain reconciles assms(2) show ?thesis by (auto simp: ledger_ok_def split: option.splits)
qed

text \<open>A transition fills one free place, so a ledger is never rewritten and fills up.\<close>

definition kept :: "'a option \<Rightarrow> 'a option \<Rightarrow> bool" where
  "kept a b \<longleftrightarrow> a = None \<or> b = a"

definition ledger_extends :: "ledger \<Rightarrow> ledger \<Rightarrow> bool" where
  "ledger_extends l l' \<longleftrightarrow>
     kept (lg_chain l) (lg_chain l') \<and> kept (lg_claim l) (lg_claim l')
     \<and> kept (lg_marker l) (lg_marker l') \<and> kept (lg_receipt l) (lg_receipt l')
     \<and> (\<exists>later. lg_history l' = lg_history l @ later)"

definition filled :: "'a option \<Rightarrow> nat" where "filled a = (if a = None then 0 else 1)"

definition ledger_entries :: "ledger \<Rightarrow> nat" where
  "ledger_entries l = filled (lg_chain l) + filled (lg_claim l) + filled (lg_marker l)
     + filled (lg_receipt l) + length (lg_history l)"

lemma ledger_extends_refl [simp]: "ledger_extends l l"
  by (simp add: ledger_extends_def kept_def)

lemma slot_kept_trans: "kept a b \<Longrightarrow> kept b c \<Longrightarrow> kept a c"
  by (auto simp: kept_def)

lemma ledger_extends_trans: "ledger_extends a b \<Longrightarrow> ledger_extends b c \<Longrightarrow> ledger_extends a c"
  unfolding ledger_extends_def by (elim conjE exE, intro conjI; (rule slot_kept_trans; assumption)?) simp

lemma ledger_step_extends: "ledger_step L markers l l' \<Longrightarrow> ledger_extends l l'"
  by (erule ledger_stepE) (auto simp: ledger_extends_def kept_def)

lemma ledger_step_entries: "ledger_step L markers l l' \<Longrightarrow> ledger_entries l' = Suc (ledger_entries l)"
  by (erule ledger_stepE) (auto simp: ledger_entries_def filled_def)

lemma ledger_entries_bound:
  assumes "ledger_ok L markers l"
  shows "ledger_entries l \<le> 4 + MAX_RECONCILIATION_RECORDS"
proof (cases "lg_chain l")
  case None
  with assms show ?thesis by (auto simp: ledger_ok_def ledger_entries_def filled_def blank_def)
next
  case (Some chain)
  then obtain c p d g where chain: "lg_chain l = Some (c, p, d, g)" by (cases chain) auto
  with assms have "length (lg_history l) \<le> MAX_RECONCILIATION_RECORDS"
    using ledger_verifies [OF chain, of L] by (auto simp: ledger_ok_def)
  then show ?thesis by (simp add: ledger_entries_def filled_def)
qed

section \<open>Infinite sequences of calls\<close>

lemma final_state_snoc: "final_state step (ops @ [op]) s = snd (step op (final_state step ops s))"
  by (induction ops arbitrary: s) simp_all

text \<open>The state after the first \<open>n\<close> calls of an infinite sequence of calls.\<close>

definition state_after :: "('op \<Rightarrow> 's \<Rightarrow> 'r \<times> 's) \<Rightarrow> (nat \<Rightarrow> 'op) \<Rightarrow> 's \<Rightarrow> nat \<Rightarrow> 's" where
  "state_after step calls s n = final_state step (map calls [0..<n]) s"

lemma state_after_simps [simp]:
  "state_after step calls s 0 = s"
  "state_after step calls s (Suc n) = snd (step (calls n) (state_after step calls s n))"
  by (simp_all add: state_after_def final_state_snoc)

text \<open>A set of numbers of which every initial part has at most \<open>b\<close> elements.\<close>

lemma card_initial_parts:
  fixes P :: "nat \<Rightarrow> bool"
  assumes "\<And>n. card {i. i < n \<and> P i} \<le> (b :: nat)"
  shows "finite {i. P i} \<and> card {i. P i} \<le> b"
proof (rule ccontr)
  assume not: "\<not> ?thesis"
  obtain A where A: "A \<subseteq> {i. P i}" "finite A" "card A = Suc b"
  proof (cases "finite {i. P i}")
    case True
    with not have "Suc b \<le> card {i. P i}" by simp
    then obtain T where T: "T \<subseteq> {i. P i}" "card T = Suc b" "finite T"
      by (rule obtain_subset_with_card_n)
    show ?thesis by (rule that [OF T(1,3,2)])
  next
    case False
    from infinite_arbitrarily_large [OF this, of "Suc b"]
    obtain T where T: "finite T \<and> card T = Suc b \<and> T \<subseteq> {i. P i}" by (rule exE)
    show ?thesis by (rule that [of T]) (simp_all add: T)
  qed
  from A(2) [unfolded finite_nat_set_iff_bounded] obtain n where "\<forall>i \<in> A. i < n" by (rule exE)
  with A(1) have "A \<subseteq> {i. i < n \<and> P i}" by blast
  then have "card A \<le> card {i. i < n \<and> P i}" by (rule card_mono [rotated]) simp
  with A(3) assms [of n] show False by simp
qed

section \<open>The refinement contract\<close>

text \<open>
  \<open>ledgers s k\<close> is the ledger of the grant with key \<open>k\<close> in state \<open>s\<close>; \<open>legal\<close> are the
  calls that a typed client can make.
\<close>

locale lifecycle_ledgers =
  fixes step :: "'op \<Rightarrow> 's \<Rightarrow> 'r \<times> 's"
    and legal :: "'op \<Rightarrow> bool"
    and invar :: "'s \<Rightarrow> bool"
    and ledgers :: "'s \<Rightarrow> 'k \<Rightarrow> ledger"
    and L :: lib
    and markers :: bool
  assumes invar_step: "invar s \<Longrightarrow> legal op \<Longrightarrow> invar (snd (step op s))"
    and step_moves: "invar s \<Longrightarrow> legal op \<Longrightarrow> moves L markers (ledgers s) (ledgers (snd (step op s)))"
begin

lemma invar_run: "invar s \<Longrightarrow> list_all legal ops \<Longrightarrow> invar (final_state step ops s)"
  by (induction ops arbitrary: s) (simp_all add: invar_step)

lemma run_moves:
  "invar s \<Longrightarrow> list_all legal ops \<Longrightarrow>
   (moves L markers)\<^sup>*\<^sup>* (ledgers s) (ledgers (final_state step ops s))"
proof (induction ops arbitrary: s)
  case (Cons op ops)
  then have "(moves L markers)\<^sup>*\<^sup>* (ledgers (snd (step op s))) (ledgers (final_state step (op # ops) s))"
    by (simp add: invar_step)
  with step_moves [of s op] Cons.prems show ?case by (auto intro: converse_rtranclp_into_rtranclp)
qed simp

lemma run_ledger:
  "invar s \<Longrightarrow> list_all legal ops \<Longrightarrow>
   (ledger_step L markers)\<^sup>*\<^sup>* (ledgers s k) (ledgers (final_state step ops s) k)"
proof (induction ops arbitrary: s)
  case (Cons op ops)
  then have "(ledger_step L markers)\<^sup>*\<^sup>* (ledgers (snd (step op s)) k)
      (ledgers (final_state step (op # ops) s) k)"
    by (simp add: invar_step)
  with moves_each [OF step_moves [of s op], of k] Cons.prems show ?case
    by (auto intro: converse_rtranclp_into_rtranclp)
qed simp

lemma run_extends:
  assumes "invar s" and "list_all legal ops"
  shows "ledger_extends (ledgers s k) (ledgers (final_state step ops s) k)"
  using run_ledger [OF assms, of k]
  by (induction rule: rtranclp_induct)
     (auto intro: ledger_extends_trans ledger_step_extends)

lemma run_ok:
  assumes "invar s" and "list_all legal ops" and "ledgers s k = blank"
  shows "ledger_ok L markers (ledgers (final_state step ops s) k)"
  using run_ledger [OF assms(1,2), of k] unfolding assms(3)
  by (induction rule: rtranclp_induct) (auto intro: ledger_step_ok)

text \<open>Calls that change a ledger: at most as many as there are places to fill.\<close>

lemma run_bounded:
  assumes "invar s" and "list_all legal ops" and "ledgers s k = blank"
  shows "ledger_entries (ledgers (final_state step ops s) k) \<le> 4 + MAX_RECONCILIATION_RECORDS"
  by (rule ledger_entries_bound [OF run_ok [OF assms]])

text \<open>
  Along an infinite sequence of calls a ledger changes as often as it has entries, so at most
  as often as it has places, and then never again.
\<close>

lemma changes_counted:
  assumes "invar s" and "\<And>n. legal (calls n)" and "ledgers s k = blank"
  defines "l n \<equiv> ledgers (state_after step calls s n) k"
  shows "card {i. i < n \<and> l (Suc i) \<noteq> l i} = ledger_entries (l n)"
proof (induction n)
  case 0
  then show ?case using assms(3) by (simp add: l_def ledger_entries_def blank_def filled_def)
next
  case (Suc n)
  have legal: "list_all legal (map calls [0..<n])" using assms(2) by (simp add: list_all_iff)
  have "invar (state_after step calls s n)"
    unfolding state_after_def by (rule invar_run [OF assms(1) legal])
  from moves_each [OF step_moves [OF this assms(2)]]
  have move: "l (Suc n) = l n \<or> ledger_step L markers (l n) (l (Suc n))" by (simp add: l_def)
  have split: "{i. i < Suc n \<and> l (Suc i) \<noteq> l i}
      = (if l (Suc n) = l n then {} else {n}) \<union> {i. i < n \<and> l (Suc i) \<noteq> l i}"
    by (auto simp: less_Suc_eq)
  from move Suc.IH show ?case unfolding split
    by (auto dest: ledger_step_entries)
qed

lemma changes_bounded:
  assumes "invar s" and "\<And>n. legal (calls n)" and "ledgers s k = blank"
  defines "l n \<equiv> ledgers (state_after step calls s n) k"
  shows "finite {i. l (Suc i) \<noteq> l i} \<and> card {i. l (Suc i) \<noteq> l i} \<le> 4 + MAX_RECONCILIATION_RECORDS"
proof (rule card_initial_parts)
  fix n
  have "list_all legal (map calls [0..<n])" using assms(2) by (simp add: list_all_iff)
  from run_bounded [OF assms(1) this assms(3)]
  have bound: "ledger_entries (ledgers (state_after step calls s n) k) \<le> 4 + MAX_RECONCILIATION_RECORDS"
    unfolding state_after_def .
  show "card {i. i < n \<and> l (Suc i) \<noteq> l i} \<le> 4 + MAX_RECONCILIATION_RECORDS"
    unfolding l_def by (rule ord_eq_le_trans [OF changes_counted [OF assms(1-3)] bound])
qed

lemma ledger_settles:
  assumes "invar s" and "\<And>n. legal (calls n)" and "ledgers s k = blank"
  defines "l n \<equiv> ledgers (state_after step calls s n) k"
  shows "\<exists>n. \<forall>m \<ge> n. l m = l n"
proof -
  from changes_bounded [OF assms(1-3), THEN conjunct1, unfolded finite_nat_set_iff_bounded]
  obtain n where n: "\<forall>i \<in> {i. l (Suc i) \<noteq> l i}. i < n" unfolding l_def by (rule exE)
  have "l m = l n" if "m \<ge> n" for m
    using that
  proof (induction m rule: dec_induct)
    case (step m)
    then have "\<not> m < n" by simp
    with n have "l (Suc m) = l m" by blast
    with step.IH show ?case by simp
  qed simp
  then show ?thesis by blast
qed

end

end
