(* ===== verification/Memory_Ledger.thy ===== *)
theory Memory_Ledger
  imports Memory_Invariant Lifecycle_Machine
begin

text \<open>
  \<open>MemoryGrantStore\<close> implements the abstract lifecycle: the ledger of a grant identifier is
  read off the stored grant (the store keeps no dispatch markers), and every call is a
  transition of at most one ledger. The indexes, the clock and the lock do not show.
\<close>

section \<open>The ledger of a stored grant\<close>

definition stored_ledger :: "stored_grant \<Rightarrow> ledger" where
  "stored_ledger sg =
     \<lparr>lg_chain = Some (sg_commitment sg, sg_proposal sg, sg_decision sg, sg_grant sg),
      lg_claim = map_option (\<lambda>c. (gc_attempt_id c, uint (gc_claimed_at_ms c))) (sg_claim sg),
      lg_marker = None, lg_receipt = sg_receipt sg, lg_history = sg_reconciliations sg\<rparr>"

definition state_ledgers :: "memory_grant_state \<Rightarrow> string \<Rightarrow> ledger" where
  "state_ledgers st i = (case ms_grants st i of None \<Rightarrow> blank | Some sg \<Rightarrow> stored_ledger sg)"

definition mem_ledgers :: "memory_grant_store \<Rightarrow> string \<Rightarrow> ledger" where
  "mem_ledgers s = state_ledgers (mg_state s)"

lemma mem_ledgers_default: "mem_ledgers memory_default = (\<lambda>_. blank)"
  by (simp add: mem_ledgers_def state_ledgers_def [abs_def] memory_default_def empty_state_def)

lemma state_ledgers_update:
  assumes "ms_grants st' = (ms_grants st)(i \<mapsto> sg)"
  shows "state_ledgers st' = (state_ledgers st)(i := stored_ledger sg)"
  using assms by (auto simp: state_ledgers_def fun_eq_iff)

section \<open>Every critical section moves one ledger\<close>

abbreviation transits :: "lib \<Rightarrow> memory_grant_state \<Rightarrow> memory_grant_state \<Rightarrow> bool" where
  "transits L st st' \<equiv> moves L False (state_ledgers st) (state_ledgers st')"

lemma transits_same: "ms_grants st' = ms_grants st \<Longrightarrow> transits L st st'"
  by (simp add: moves_def state_ledgers_def fun_eq_iff)

lemma register_transits:
  assumes "verify_authorization L c p d g = Inr v" and "register_locked c p d g v st = Inr (h, st')"
  shows "transits L st st'"
proof -
  from assms(2) have free: "ms_grants st (eg_grant_id g) = None"
    and st': "ms_grants st' = (ms_grants st)(eg_grant_id g \<mapsto> fresh_grant h c p d g)"
    by (auto simp: register_locked_ok)
  have "verify_grant L c p d g = Inr (va_grant_hash v)" using assms(1) by (simp add: verify_grant_def)
  then have "ledger_step L False blank (stored_ledger (fresh_grant h c p d g))"
    using registers [of blank L c p d g] by (simp add: blank_def stored_ledger_def fresh_grant_def)
  with free show ?thesis
    by (intro moves_at [OF _ state_ledgers_update [OF st']]) (simp add: state_ledgers_def)
qed

lemma claim_transits:
  assumes "claim_locked L g req now h st = (r, st')"
  shows "transits L st st'"
  using assms
proof (cases rule: claim_locked_cases)
  case (claimed sg)
  let ?c = "claim_of g req now h"
  from claimed(3) have sg: "ms_grants st (eg_grant_id g) = Some sg" and free: "sg_claim sg = None"
    and window: "eg_not_before_ms (sg_grant sg) \<le> now" "now < eg_expires_at_ms (sg_grant sg)"
    by (simp_all add: claim_checks_ok)
  have st': "ms_grants st' = (ms_grants st)(eg_grant_id g \<mapsto> sg\<lparr>sg_claim := Some ?c\<rparr>)"
    using claimed(4) by simp
  have "ledger_step L False (stored_ledger sg) (stored_ledger (sg\<lparr>sg_claim := Some ?c\<rparr>))"
    using claims [of "stored_ledger sg" "sg_commitment sg" "sg_proposal sg" "sg_decision sg"
        "sg_grant sg" "uint now" L False "gr_attempt_id req"] free window
    by (simp add: stored_ledger_def claim_of_def word_le_def word_less_def)
  with sg show ?thesis
    by (intro moves_at [OF _ state_ledgers_update [OF st']]) (simp add: state_ledgers_def)
qed (simp_all add: transits_same)

lemma receipt_transits:
  assumes "record_receipt_locked L r st = Inr (h, st')"
  shows "transits L st st'"
proof -
  from assms obtain i sg where sg: "ms_grants st i = Some sg" and acc: "receipt_accepted L r h sg"
    and res: "case sg_receipt sg of Some x \<Rightarrow> er_commitment L x = Inr h \<and> st' = st
      | None \<Rightarrow> st' = st\<lparr>ms_grants := (ms_grants st)(i \<mapsto> sg\<lparr>sg_receipt := Some r\<rparr>),
                          ms_grant_by_receipt := (ms_grant_by_receipt st)(h \<mapsto> i)\<rparr>"
    by (auto simp: record_receipt_locked_ok)
  show ?thesis
  proof (cases "sg_receipt sg")
    case None
    with res have st': "ms_grants st' = (ms_grants st)(i \<mapsto> sg\<lparr>sg_receipt := Some r\<rparr>)" by simp
    from acc obtain c v where "sg_claim sg = Some c" "er_attempt_id r = gc_attempt_id c"
      "er_claimed_at_ms r = gc_claimed_at_ms c"
      "verify_chain L (sg_commitment sg) (sg_proposal sg) (sg_decision sg) (sg_grant sg) r = Inr v"
      by (auto simp: receipt_accepted_def)
    with None have "ledger_step L False (stored_ledger sg) (stored_ledger (sg\<lparr>sg_receipt := Some r\<rparr>))"
      using receives [of "stored_ledger sg" "sg_commitment sg" "sg_proposal sg" "sg_decision sg"
          "sg_grant sg" r L v False]
      by (simp add: stored_ledger_def del: verify_chain_ok)
    with sg show ?thesis
      by (intro moves_at [OF _ state_ledgers_update [OF st']]) (simp add: state_ledgers_def)
  qed (use res in simp)
qed

lemma reconciliation_transits:
  assumes "append_reconciliation_locked L x st = Inr (h, st')"
  shows "transits L st st'"
proof -
  from assms obtain i sg r where sg: "ms_grants st i = Some sg" and r: "sg_receipt sg = Some r"
    and res: "st' = st \<or> (length (sg_reconciliations sg) < MAX_RECONCILIATION_RECORDS
          \<and> rr_reconciliation_id x \<notin> rr_reconciliation_id ` set (sg_reconciliations sg)
          \<and> verify_reconciliation L r (last_record (sg_reconciliations sg)) x = Inr h
          \<and> st' = st\<lparr>ms_grants := (ms_grants st)(i \<mapsto>
                      sg\<lparr>sg_reconciliations := sg_reconciliations sg @ [x]\<rparr>)\<rparr>)"
    unfolding append_reconciliation_locked_ok by (metis (no_types, lifting))
  let ?sg = "sg\<lparr>sg_reconciliations := sg_reconciliations sg @ [x]\<rparr>"
  show ?thesis
  proof (cases "st' = st")
    case False
    with res have st': "ms_grants st' = (ms_grants st)(i \<mapsto> ?sg)" by simp
    have "ledger_step L False (stored_ledger sg) (stored_ledger ?sg)"
      using False res r reconciles [of "stored_ledger sg" r x L h False]
      by (simp add: stored_ledger_def del: verify_reconciliation_ok)
    with sg show ?thesis
      by (intro moves_at [OF _ state_ledgers_update [OF st']]) (simp add: state_ledgers_def)
  qed simp
qed

section \<open>Every call\<close>

lemma lock_transits:
  assumes "\<And>x st'. section (mg_state s) = (x, st') \<Longrightarrow> transits L (mg_state s) st'"
  shows "moves L False (mem_ledgers s) (mem_ledgers (snd (with_lock s section)))"
  using assms by (auto simp: with_lock_def mem_ledgers_def split: prod.split)

lemma guarded_transits:
  assumes "\<And>x st'. f (mg_state s) = Inr (x, st') \<Longrightarrow> transits L (mg_state s) st'"
  shows "moves L False (mem_ledgers s) (mem_ledgers (snd (with_lock s (\<lambda>st. keep_on_error st (f st)))))"
  by (rule lock_transits) (use assms in \<open>auto simp: keep_on_error_def split: sum.splits\<close>)

lemma mem_step_moves: "moves L False (mem_ledgers s) (mem_ledgers (snd (mem_step L call s)))"
proof (cases call)
  case (CallRegister c p d g)
  then show ?thesis
    using guarded_transits [of "register_locked c p d g v" s L for v] register_transits
    by (auto simp: split_def memory_register_def split: sum.split)
next
  case (CallClaim g q now)
  then show ?thesis
    using lock_transits [OF claim_transits]
    by (auto simp: split_def memory_claim_def split: sum.split)
next
  case (CallReceipt r)
  then show ?thesis
    using guarded_transits [OF receipt_transits]
    by (auto simp: split_def memory_record_receipt_def split: sum.split)
next
  case (CallReconcile x)
  then show ?thesis
    using guarded_transits [OF reconciliation_transits]
    by (auto simp: split_def memory_append_reconciliation_def split: sum.split)
qed

interpretation mem_life: lifecycle_ledgers "mem_step L" "\<lambda>_. True" "mem_invar L" mem_ledgers L False for L
  by unfold_locales (use mem_step_keeps in \<open>auto simp: mem_invar_def keeps_def mem_step_moves\<close>)

end
