(* ===== verification/Sqlite_Ledger.thy ===== *)
theory Sqlite_Ledger
  imports Sqlite_Reading Lifecycle_Machine
begin

text \<open>
  \<open>SqliteEffectStore\<close> implements the abstract lifecycle: the ledger of a grant hash is put
  together from the rows of five tables, and every call, with any failures of the engine, is a
  transition of at most one ledger. Currentness and trusted time do not show.
\<close>

section \<open>The ledger of a grant hash\<close>

definition result_ok :: "'e + 'a \<Rightarrow> 'a option" where
  "result_ok r = (case r of Inl e \<Rightarrow> None | Inr x \<Rightarrow> Some x)"

lemma result_ok_simps [simp]: "result_ok (Inr x) = Some x" "result_ok (Inl e) = None"
  by (simp_all add: result_ok_def)

definition chain_parts ::
    "stored_chain \<Rightarrow> task_commitment \<times> effect_proposal \<times> authorization_decision \<times> execution_grant" where
  "chain_parts chain = (sc_commitment chain, sc_proposal chain, sc_decision chain, sc_grant chain)"

definition history_of :: "lib \<Rightarrow> database \<Rightarrow> receipt_row option \<Rightarrow> reconciliation_record list" where
  "history_of L db x =
     (case x of
        None \<Rightarrow> []
      | Some x \<Rightarrow>
          List.map_filter (\<lambda>row. result_ok (decode_reconciliation L row))
            (reconciliations_of (re_receipt_hash x) db))"

definition sql_ledgers :: "lib \<Rightarrow> database \<Rightarrow> string \<Rightarrow> ledger" where
  "sql_ledgers L db k =
     \<lparr>lg_chain = Option.bind (chain_by_hash db k)
        (\<lambda>raw. map_option chain_parts (result_ok (decode_chain L raw))),
      lg_claim = map_option (\<lambda>r. (cl_attempt_id r, cl_claimed_at_ms r)) (claim_of db k),
      lg_marker = Option.bind (claim_of db k) cl_dispatch_started_at_ms,
      lg_receipt = Option.bind (receipt_of db k) (\<lambda>x. result_ok (decode_receipt L x)),
      lg_history = history_of L db (receipt_of db k)\<rparr>"

lemma sql_ledgers_empty: "sql_ledgers L empty_database = (\<lambda>_. blank)"
  by (simp add: sql_ledgers_def [abs_def] history_of_def lookup_defs empty_database_def blank_def)

text \<open>Lookups that see only some of the tables.\<close>

lemma lookup_same:
  "db_chains db' = db_chains db \<Longrightarrow> chain_by_hash db' = chain_by_hash db"
  "db_claims db' = db_claims db \<Longrightarrow> claim_of db' = claim_of db"
  "db_receipts db' = db_receipts db \<Longrightarrow> receipt_of db' = receipt_of db"
  "db_reconciliations db' = db_reconciliations db \<Longrightarrow> history_of L db' = history_of L db"
  by (simp_all add: fun_eq_iff lookup_defs history_of_def reconciliations_of_def split: option.split)

lemma sql_ledgers_same:
  "db_chains db' = db_chains db \<Longrightarrow> db_claims db' = db_claims db \<Longrightarrow> db_receipts db' = db_receipts db
   \<Longrightarrow> db_reconciliations db' = db_reconciliations db \<Longrightarrow> sql_ledgers L db' = sql_ledgers L db"
  unfolding sql_ledgers_def fun_eq_iff by (intro allI) (simp only: lookup_same [of db' db])

lemma find_snoc: "find P (xs @ [y]) = (case find P xs of None \<Rightarrow> if P y then Some y else None | Some x \<Rightarrow> Some x)"
  by (induction xs) auto

lemma stored_history:
  "list_all2 (stores_record L) rows xs \<Longrightarrow>
   List.map_filter (\<lambda>row. result_ok (decode_reconciliation L row)) rows = xs"
  by (induction rule: list_all2_induct) (simp_all add: stores_record_def List.map_filter_simps)

section \<open>Every operation moves one ledger\<close>

abbreviation db_moves :: "lib \<Rightarrow> database \<Rightarrow> database \<Rightarrow> bool" where
  "db_moves L db db' \<equiv> moves L True (sql_ledgers L db) (sql_ledgers L db')"

lemma register_moves:
  assumes L: "conforming L" and dg: "tc_digests c" "ep_digests p" "ad_digests d" "eg_digests g"
    and reg: "register_chain L eng c p d g db = (Inr h, db')"
  shows "db_moves L db db'"
proof -
  from register_okD [OF reg] obtain row where row: "register_row L c p d g = Inr (h, row)"
    and cases: "db' = db \<or> insert_chain (eg_grant_id g) row db = Inr db'" by blast
  note dec = decode_registered [OF L row dg]
  from decode_chain_ok [OF dec] have ver: "verify_grant L c p d g = Inr h" "rc_grant_hash row = as_str h"
    by simp_all
  show ?thesis
  proof (cases "db' = db")
    case False
    let ?l = "sql_ledgers L db (as_str h)"
    from False cases have fresh: "\<forall>r \<in> snd ` set (db_chains db). rc_grant_hash r \<noteq> as_str h"
      and db': "db' = db\<lparr>db_chains := db_chains db @ [(eg_grant_id g, row)]\<rparr>"
      using ver(2) by (auto simp: insert_chain_def constrained_ok list_ex_iff)
    have none: "chain_by_hash db (as_str h) = None"
      using fresh by (auto simp: chain_by_hash_def find_None_iff)
    have "chain_by_hash db' k = (if k = as_str h then Some row else chain_by_hash db k)" for k
      using none ver(2) by (auto simp: chain_by_hash_def db' find_snoc split: option.split)
    moreover have same: "claim_of db' = claim_of db" "receipt_of db' = receipt_of db"
      "history_of L db' = history_of L db" by (rule lookup_same, simp add: db')+
    ultimately have "sql_ledgers L db' = (sql_ledgers L db)(as_str h := ?l\<lparr>lg_chain := Some (c, p, d, g)\<rparr>)"
      using dec
      by (auto simp: sql_ledgers_def fun_eq_iff chain_parts_def same)
    moreover have "ledger_step L True ?l (?l\<lparr>lg_chain := Some (c, p, d, g)\<rparr>)"
      by (rule registers [OF _ ver(1)]) (simp add: sql_ledgers_def none)
    ultimately show ?thesis by (blast intro: moves_at)
  qed simp
qed

lemma put_moves:
  assumes "put_currentness eng s db = (Inr u, db')"
  shows "db_moves L db db'"
proof -
  have "update_currentness row db = Inr db' \<or> insert_currentness row db = Inr db' \<Longrightarrow>
      sql_ledgers L db' = sql_ledgers L db" for row
    by (rule sql_ledgers_same) (auto simp: update_currentness_def insert_currentness_def constrained_ok)
  with put_okD [OF assms] have "sql_ledgers L db' = sql_ledgers L db" by blast
  then show ?thesis by simp
qed

text \<open>A claim row and its marker, looked up by the text of the grant hash.\<close>

lemma claim_moves:
  assumes s: "schema_ok db" and claim: "sql_claim L eng g q now db = (Inr c, db')"
  shows "db_moves L db db'"
proof -
  from claim_okD [OF claim] obtain h raw chain row snapshot where
      c: "c = claim_result h q now"
    and raw: "chain_by_id db (eg_grant_id g) = Some raw" "decode_chain L raw = Inr chain"
    and hash: "sc_grant_hash chain = h" "sc_grant chain = g"
    and cur: "claim_currentness chain snapshot q now = Inr ()"
    and ins: "insert_claim (row_of_claim c) (at_time now db) = Inr db'" by blast
  let ?k = "as_str h" and ?row = "row_of_claim c"
  let ?l = "sql_ledgers L db ?k" and ?claim = "(cq_attempt_id q, uint now)"
  have key: "cl_grant_hash ?row = ?k" by (simp add: row_of_claim_def c claim_result_def)
  from ins key have db': "db_claims db' = db_claims db @ [?row]" "db_chains db' = db_chains db"
      "db_receipts db' = db_receipts db" "db_reconciliations db' = db_reconciliations db"
    and fresh: "\<forall>r \<in> set (db_claims db). cl_grant_hash r \<noteq> ?k"
    by (auto simp: insert_claim_def constrained_ok list_ex_iff)
  have none: "claim_of db ?k = None" using fresh by (simp add: claim_of_def find_None_iff)
  have claims_of: "claim_of db' k = (if k = ?k then Some ?row else claim_of db k)" for k
    using none key by (auto simp: claim_of_def db' find_snoc split: option.split)
  have "chain_by_hash db ?k = Some raw"
    using chain_by_hash_unique [OF s lookup_key(2) [OF raw(1)]] decode_chain_ok [OF raw(2)] hash by simp
  then have chain: "lg_chain ?l = Some (sc_commitment chain, sc_proposal chain, sc_decision chain, g)"
    using raw(2) hash by (simp add: sql_ledgers_def chain_parts_def)
  have same: "chain_by_hash db' = chain_by_hash db" "receipt_of db' = receipt_of db"
    "history_of L db' = history_of L db" by (rule lookup_same, simp add: db')+
  have "sql_ledgers L db' = (sql_ledgers L db)(?k := ?l\<lparr>lg_claim := Some ?claim\<rparr>)"
    using none
    by (auto simp: sql_ledgers_def fun_eq_iff claims_of same row_of_claim_def c claim_result_def)
  moreover have "ledger_step L True ?l (?l\<lparr>lg_claim := Some ?claim\<rparr>)"
    by (rule claims [OF chain])
       (use none cur hash in \<open>auto simp: sql_ledgers_def claim_currentness_ok word_le_def word_less_def\<close>)
  ultimately show ?thesis by (blast intro: moves_at)
qed

lemma mark_moves:
  assumes mark: "mark_dispatch_started L eng h a t db = (Inr m, db')"
  shows "db_moves L db db'"
proof -
  let ?k = "as_str h"
  let ?l = "sql_ledgers L db ?k"
  from mark_okD [OF mark] obtain row claim where
      row: "claim_of db ?k = Some row" "decode_claim ?k row = Inr claim"
    and attempt: "dc_attempt_id claim = a" and time: "dc_claimed_at_ms claim \<le> t"
    and cases: "db' = db \<or> dc_dispatch_started_at_ms claim = None \<and>
        (\<exists>raw chain. chain_by_hash db ?k = Some raw \<and> decode_chain L raw = Inr chain
           \<and> t < eg_expires_at_ms (sc_grant chain)) \<and> mark_row h a t (at_time t db) = Inr db'"
    by blast
  show ?thesis
  proof (cases "db' = db")
    case False
    with cases obtain raw chain where none: "dc_dispatch_started_at_ms claim = None"
      and raw: "chain_by_hash db ?k = Some raw" "decode_chain L raw = Inr chain"
      and exp: "t < eg_expires_at_ms (sc_grant chain)"
      and upd: "mark_row h a t (at_time t db) = Inr db'" by blast
    let ?f = "\<lambda>r. if cl_grant_hash r = ?k \<and> cl_attempt_id r = a \<and> cl_dispatch_started_at_ms r = None
      then r\<lparr>cl_dispatch_started_at_ms := Some (uint t)\<rparr> else r"
    from mark_row_ok [OF upd] have db': "db_claims db' = map ?f (db_claims db)"
      "db_chains db' = db_chains db" "db_receipts db' = db_receipts db"
      "db_reconciliations db' = db_reconciliations db" by auto
    have mapped: "claim_of db' k = map_option ?f (claim_of db k)" for k
      unfolding claim_of_def db'(1) by (rule find_map_key) simp
    have others: "claim_of db' k = claim_of db k" if "k \<noteq> ?k" for k
      unfolding mapped using that lookup_key(4) [of db k] by (cases "claim_of db k") auto
    have this_row: "claim_of db' ?k = Some (row\<lparr>cl_dispatch_started_at_ms := Some (uint t)\<rparr>)"
      unfolding mapped using row none attempt lookup_key(4) [OF row(1)] by (simp add: decode_claim_ok)
    have same: "chain_by_hash db' = chain_by_hash db" "receipt_of db' = receipt_of db"
      "history_of L db' = history_of L db" by (rule lookup_same, simp add: db')+
    have "sql_ledgers L db' k = ((sql_ledgers L db)(?k := ?l\<lparr>lg_marker := Some (uint t)\<rparr>)) k" for k
      using others [of k] this_row row(1)
      by (cases "k = ?k")
         (simp_all add: sql_ledgers_def same)
    then have "sql_ledgers L db' = (sql_ledgers L db)(?k := ?l\<lparr>lg_marker := Some (uint t)\<rparr>)"
      by (rule ext)
    moreover have "ledger_step L True ?l (?l\<lparr>lg_marker := Some (uint t)\<rparr>)"
    proof (rule marks)
      show "lg_chain ?l = Some (sc_commitment chain, sc_proposal chain, sc_decision chain, sc_grant chain)"
        using raw by (simp add: sql_ledgers_def chain_parts_def)
      show "lg_claim ?l = Some (a, uint (dc_claimed_at_ms claim))"
        using row attempt by (simp add: sql_ledgers_def decode_claim_ok)
      show "lg_marker ?l = None" using row none by (simp add: sql_ledgers_def decode_claim_ok)
    qed (use time exp in \<open>simp_all add: word_le_def word_less_def\<close>)
    ultimately show ?thesis by (blast intro: moves_at)
  qed simp
qed

lemma receipt_moves:
  assumes L: "conforming L" and s: "schema_ok db" and d: "er_digests r"
    and rec: "record_receipt L eng r db = (Inr h, db')"
  shows "db_moves L db db'"
proof -
  let ?k = "as_str (er_grant_hash r)"
  let ?l = "sql_ledgers L db ?k"
  from receipt_okD [OF rec] obtain raw chain row claim v where h: "er_commitment L r = Inr h"
    and raw: "chain_by_hash db ?k = Some raw" "decode_chain L raw = Inr chain"
    and v: "verify_chain L (sc_commitment chain) (sc_proposal chain) (sc_decision chain)
              (sc_grant chain) r = Inr v"
    and row: "claim_of db ?k = Some row" "decode_claim ?k row = Inr claim"
    and claim: "dc_attempt_id claim = er_attempt_id r" "dc_claimed_at_ms claim = er_claimed_at_ms r"
      "validate_dispatch_evidence r (dc_dispatch_started_at_ms claim) = Inr ()"
    and cases: "db' = db \<or> (\<exists>j. canonical_json L (er_value r) = Inr j
          \<and> insert_receipt \<lparr>re_grant_hash = ?k, re_receipt_id = er_receipt_id r,
               re_receipt_hash = as_str h, re_receipt_json = j\<rparr> db = Inr db')"
    by blast
  show ?thesis
  proof (cases "db' = db")
    case False
    with cases obtain j x where j: "canonical_json L (er_value r) = Inr j"
      and x: "x = \<lparr>re_grant_hash = ?k, re_receipt_id = er_receipt_id r,
               re_receipt_hash = as_str h, re_receipt_json = j\<rparr>"
      and ins: "insert_receipt x db = Inr db'" by blast
    then have db': "db' = db\<lparr>db_receipts := db_receipts db @ [x]\<rparr>"
      and fresh: "\<forall>y \<in> set (db_receipts db). re_grant_hash y \<noteq> ?k"
      by (auto simp: insert_receipt_def constrained_ok list_ex_iff)
    have dec: "decode_receipt L x = Inr r" by (rule decode_recorded [OF L h j d]) (simp_all add: x)
    have none: "receipt_of db ?k = None" using fresh by (simp add: receipt_of_def find_None_iff)
    have receipts_of: "receipt_of db' k = (if k = ?k then Some x else receipt_of db k)" for k
      using none by (auto simp: receipt_of_def db' find_snoc x split: option.split)
    have "history_of L db' (Some x) = []"
      by (simp add: history_of_def fresh_receipt_rows [OF s ins] List.map_filter_simps)
    moreover have same: "claim_of db' = claim_of db" "chain_by_hash db' = chain_by_hash db"
      "history_of L db' = history_of L db" by (rule lookup_same, simp add: db')+
    ultimately have "sql_ledgers L db' = (sql_ledgers L db)(?k := ?l\<lparr>lg_receipt := Some r\<rparr>)"
      using none dec by (auto simp: sql_ledgers_def fun_eq_iff receipts_of) (simp add: history_of_def)
    moreover have "ledger_step L True ?l (?l\<lparr>lg_receipt := Some r\<rparr>)"
    proof (rule receives)
      show "lg_chain ?l = Some (sc_commitment chain, sc_proposal chain, sc_decision chain, sc_grant chain)"
        using raw by (simp add: sql_ledgers_def chain_parts_def)
      show "lg_claim ?l = Some (er_attempt_id r, uint (er_claimed_at_ms r))"
        using row claim by (simp add: sql_ledgers_def decode_claim_ok)
      show "lg_receipt ?l = None" using none by (simp add: sql_ledgers_def)
      show "True \<longrightarrow> map_option uint (er_dispatched_at_ms r) = lg_marker ?l"
        using row claim(3) by (simp add: sql_ledgers_def decode_claim_ok dispatch_evidence_ok)
    qed (rule v)
    ultimately show ?thesis by (blast intro: moves_at)
  qed simp
qed

lemma reconcile_moves:
  assumes L: "conforming L" and s: "schema_ok db" "stored_ok L db" and d: "rr_digests x"
    and app: "append_reconciliation L eng x db = (Inr h, db')"
  shows "db_moves L db db'"
proof (cases "db' = db")
  case False
  let ?hash = "as_str (rr_receipt_hash x)"
  from reconcile_appends [OF L s app d False] obtain row r xs j where
      row: "receipt_hashed db ?hash = Some row" "decode_receipt L row = Inr r"
    and len: "length xs < MAX_RECONCILIATION_RECORDS"
    and xs: "list_all2 (stores_record L) (reconciliations_of ?hash db) xs"
    and hist: "history_ok L r (xs @ [x])"
    and new_row: "stores_record L (row_of_record x h j) x"
    and db': "db' = db\<lparr>db_reconciliations := db_reconciliations db @ [row_of_record x h j]\<rparr>"
    and rows: "\<forall>k. reconciliations_of k db' = reconciliations_of k db
          @ (if k = ?hash then [row_of_record x h j] else [])" by metis
  let ?k = "re_grant_hash row"
  let ?l = "sql_ledgers L db ?k"
  from lookup_key(6) [OF row(1)] have hash: "re_receipt_hash row = ?hash" and "row \<in> set (db_receipts db)"
    by simp_all
  then have this_row: "receipt_of db ?k = Some row" by (simp add: receipt_of_unique [OF s(1)])
  have others: "re_receipt_hash y \<noteq> ?hash" if "receipt_of db k = Some y" "k \<noteq> ?k" for k y
    using lookup_key(5) [OF that(1)] receipt_hashed_unique [OF s(1), of y] row(1) that(2) by auto
  have history: "history_of L db (Some row) = xs" "history_of L db' (Some row) = xs @ [x]"
    using xs new_row by (simp_all add: history_of_def hash rows stored_history list_all2_appendI)
  have same: "claim_of db' = claim_of db" "chain_by_hash db' = chain_by_hash db"
    "receipt_of db' = receipt_of db" by (rule lookup_same, simp add: db')+
  have "history_of L db' (receipt_of db k) = history_of L db (receipt_of db k)" if "k \<noteq> ?k" for k
    using others [OF _ that] by (cases "receipt_of db k") (auto simp: history_of_def rows)
  then have "sql_ledgers L db' k = ((sql_ledgers L db)(?k := ?l\<lparr>lg_history := lg_history ?l @ [x]\<rparr>)) k" for k
    using this_row history by (cases "k = ?k") (simp_all add: sql_ledgers_def same)
  then have "sql_ledgers L db' = (sql_ledgers L db)(?k := ?l\<lparr>lg_history := lg_history ?l @ [x]\<rparr>)"
    by (rule ext)
  moreover obtain k where "ledger_step L True ?l (?l\<lparr>lg_history := lg_history ?l @ [x]\<rparr>)"
  proof -
    have l: "lg_receipt ?l = Some r" "lg_history ?l = xs"
      using this_row row(2) history(1) by (simp_all add: sql_ledgers_def)
    from hist obtain k where k: "verify_reconciliation L r (last_record xs) x = Inr k"
      "rr_reconciliation_id x \<notin> rr_reconciliation_id ` set xs"
      by (auto simp: history_ok_snoc)
    from that reconciles [of ?l r x L k True] l len k show thesis by simp
  qed
  ultimately show ?thesis by (blast intro: moves_at)
qed simp

section \<open>Every call\<close>

lemma outcome_moves:
  assumes "\<And>e db'. out = (Inl e, db') \<Longrightarrow> db' = db"
    and "\<And>x db'. out = (Inr x, db') \<Longrightarrow> db_moves L db db'"
  shows "db_moves L db (snd out)"
  using assms by (cases out; cases "fst out") auto

definition sql_invar :: "lib \<Rightarrow> database \<Rightarrow> bool" where
  "sql_invar L db \<longleftrightarrow> conforming L \<and> schema_ok db \<and> stored_ok L db"

lemma sql_step_moves:
  assumes L: "conforming L" and s: "schema_ok db" "stored_ok L db" and op: "call_digests (snd call)"
  shows "db_moves L db (snd (sql_step L call db))"
proof -
  obtain eng c where call: "call = (eng, c)" by (cases call) auto
  show ?thesis
  proof (cases c)
    case (SqlRegister t p d g)
    with op have "db_moves L db (snd (register_chain L eng t p d g db))"
      by (intro outcome_moves) (auto simp: call dest: sql_step_error(1) register_moves [OF L])
    with SqlRegister call show ?thesis by (simp add: split_def)
  next
    case (SqlPut x)
    have "db_moves L db (snd (put_currentness eng x db))"
      by (rule outcome_moves) (blast dest: sql_step_error(2) put_moves)+
    with SqlPut call show ?thesis by (simp add: split_def)
  next
    case (SqlClaim g q now)
    then show ?thesis
      using outcome_moves [OF sql_step_error(3) claim_moves [OF s(1)]] call by (simp add: split_def)
  next
    case (SqlMark h a t)
    then show ?thesis
      using outcome_moves [OF sql_step_error(4) mark_moves] call by (simp add: split_def)
  next
    case (SqlReceipt r)
    with op have "db_moves L db (snd (record_receipt L eng r db))"
      by (intro outcome_moves) (auto simp: call dest: sql_step_error(5) receipt_moves [OF L s(1)])
    with SqlReceipt call show ?thesis by (simp add: split_def)
  next
    case (SqlReconcile x)
    with op have "db_moves L db (snd (append_reconciliation L eng x db))"
      by (intro outcome_moves) (auto simp: call dest: sql_step_error(6) reconcile_moves [OF L s])
    with SqlReconcile call show ?thesis by (simp add: split_def)
  qed
qed

interpretation sql_life: lifecycle_ledgers "sql_step L" "\<lambda>call. call_digests (snd call)" "sql_invar L"
  "sql_ledgers L" L True for L
proof unfold_locales
  fix db :: database and call :: "engine \<times> sql_call"
  assume "sql_invar L db" "call_digests (snd call)"
  then show "sql_invar L (snd (sql_step L call db))"
    using sql_step_evolves [of db L call] sql_step_stored [of L db "snd call" "fst call"]
    by (simp add: sql_invar_def evolves_def)
  show "moves L True (sql_ledgers L db) (sql_ledgers L (snd (sql_step L call db)))"
    using sql_step_moves [of L db call] \<open>sql_invar L db\<close> \<open>call_digests (snd call)\<close>
    by (simp add: sql_invar_def)
qed

lemma sql_invar_empty: "conforming L \<Longrightarrow> sql_invar L empty_database"
  by (simp add: sql_invar_def schema_ok_empty stored_ok_empty)

end
