(* ===== verification/Refinement_Properties.thy ===== *)
theory Refinement_Properties
  imports Memory_Ledger Memory_Properties Sqlite_Ledger Sqlite_Fixtures
begin

text \<open>
  Both stores refine the abstract lifecycle of \<open>Lifecycle_Machine\<close>. The properties rest on the
  two interpretations of \<open>lifecycle_ledgers\<close>; here the sequences of calls behind the reachable
  states are made explicit.
\<close>

section \<open>Reachable states are those of runs\<close>

lemma mem_reachable_run: "mem_reachable L s \<Longrightarrow> \<exists>calls. s = final_state (mem_step L) calls memory_default"
proof (induction rule: mem_reachable.induct)
  case mem_start
  show ?case by (rule exI [of _ "[]"]) simp
next
  case (mem_next s call)
  then show ?case by (metis final_state_snoc)
qed

lemma sql_reachable_run:
  "sql_reachable L db \<Longrightarrow>
   \<exists>calls. list_all (\<lambda>call. call_digests (snd call)) calls \<and> db = final_state (sql_step L) calls empty_database"
proof (induction rule: sql_reachable.induct)
  case sql_start
  show ?case by (rule exI [of _ "[]"]) simp
next
  case (sql_next db op eng)
  then obtain calls where "list_all (\<lambda>call. call_digests (snd call)) calls"
    "db = final_state (sql_step L) calls empty_database" by blast
  with sql_next show ?case
    by (intro exI [of _ "calls @ [(eng, op)]"]) (simp add: final_state_snoc)
qed

section \<open>Properties\<close>

text \<open>
  C3: \<open>SqliteEffectStore\<close> refines the abstract lifecycle. On every reachable database every
  call, whatever the engine does, leaves all ledgers alone or takes exactly one transition of
  one grant's ledger; the database itself was reached by such transitions from blank ledgers.
  So every ledger stands for a bundle that \<open>verify_transaction\<close> accepts, with claim, marker and
  receipt that fit, and at most 10004 calls ever change it.
\<close>

theorem sql_refines_lifecycle:
  assumes "conforming L" and "sql_reachable L db" and "call_digests (snd call)"
  shows "moves L True (sql_ledgers L db) (sql_ledgers L (snd (sql_step L call db)))
    \<and> (moves L True)\<^sup>*\<^sup>* (\<lambda>_. blank) (sql_ledgers L db)
    \<and> ledger_ok L True (sql_ledgers L db k)
    \<and> ledger_extends (sql_ledgers L db k) (sql_ledgers L (snd (sql_step L call db)) k)
    \<and> ledger_entries (sql_ledgers L db k) \<le> 10004"
proof -
  from sql_reachable_run [OF assms(2)] obtain calls where
      calls: "list_all (\<lambda>call. call_digests (snd call)) calls"
    and db: "db = final_state (sql_step L) calls empty_database" by blast
  note start = sql_invar_empty [OF assms(1)]
  have inv: "sql_invar L db" using sql_life.invar_run [OF start calls] by (simp add: db)
  have "moves L True (sql_ledgers L db) (sql_ledgers L (snd (sql_step L call db)))"
    by (rule sql_life.step_moves [OF inv assms(3)])
  moreover have "ledger_extends (sql_ledgers L db k) (sql_ledgers L (snd (sql_step L call db)) k)"
    using sql_life.run_extends [OF inv, of "[call]" k] assms(3) by simp
  ultimately show ?thesis
    using sql_life.run_moves [OF start calls] sql_life.run_ok [OF start calls, of k]
      sql_life.run_bounded [OF start calls, of k]
    by (simp add: db sql_ledgers_empty MAX_RECONCILIATION_RECORDS_def)
qed

theorem sql_refines_lifecycle_witness:
  "moves ref_lib True (sql_ledgers ref_lib fx_db2)
     (sql_ledgers ref_lib (snd (sql_step ref_lib (no_faults, SqlClaim fx_eg fx_claim_request 4000) fx_db2)))
   \<and> lg_claim (sql_ledgers ref_lib fx_db3 (as_str eg_hash)) \<noteq> None"
proof -
  have d: "call_digests (snd (no_faults, SqlClaim fx_eg fx_claim_request 4000))"
    by (simp add: fx_digests)
  have "lg_claim (sql_ledgers ref_lib fx_db3 (as_str eg_hash)) \<noteq> None"
    by (simp add: sql_ledgers_def fx_lookups)
  with sql_refines_lifecycle [OF conforming_ref_lib fx_sql_reachable(2) d] show ?thesis by blast
qed

text \<open>
  C29: The lifecycle of a grant comes to rest. Along every infinite sequence of calls, with any
  behaviour of the engine, the ledger of a grant hash changes at most 10004 times, and from some
  call on it never changes again.
\<close>

theorem sql_ledger_settles:
  assumes "conforming L" and "\<And>n. call_digests (snd (calls n))"
  defines "db n \<equiv> state_after (sql_step L) calls empty_database n"
  shows "finite {n. sql_ledgers L (db (Suc n)) k \<noteq> sql_ledgers L (db n) k}
    \<and> card {n. sql_ledgers L (db (Suc n)) k \<noteq> sql_ledgers L (db n) k} \<le> 10004
    \<and> (\<exists>n. \<forall>m \<ge> n. sql_ledgers L (db m) k = sql_ledgers L (db n) k)"
proof -
  have blank: "sql_ledgers L empty_database k = blank" by (simp add: sql_ledgers_empty)
  note run = sql_invar_empty [OF assms(1)] assms(2) blank
  show ?thesis
    using sql_life.changes_bounded [where calls = calls, OF run] sql_life.ledger_settles [where calls = calls, OF run]
    by (simp add: db_def MAX_RECONCILIATION_RECORDS_def)
qed

text \<open>The calls of the fixtures, and then the claim again and again.\<close>

definition fx_sql_calls :: "nat \<Rightarrow> engine \<times> sql_call" where
  "fx_sql_calls n = (no_faults,
     if n = 0 then SqlRegister fx_tc fx_ep fx_ad fx_eg
     else if n = 1 then SqlPut fx_snapshot
     else SqlClaim fx_eg fx_claim_request 4000)"

theorem sql_ledger_settles_witness:
  "finite {n. sql_ledgers ref_lib (state_after (sql_step ref_lib) fx_sql_calls empty_database (Suc n)) (as_str eg_hash)
       \<noteq> sql_ledgers ref_lib (state_after (sql_step ref_lib) fx_sql_calls empty_database n) (as_str eg_hash)}
   \<and> lg_claim (sql_ledgers ref_lib (state_after (sql_step ref_lib) fx_sql_calls empty_database 0) (as_str eg_hash)) = None
   \<and> lg_claim (sql_ledgers ref_lib (state_after (sql_step ref_lib) fx_sql_calls empty_database 3) (as_str eg_hash)) \<noteq> None"
proof -
  have "digest_ok (cu_pre_state_digest fx_snapshot)" "digest_ok (cu_resource_claim_digest fx_snapshot)"
    by (simp_all add: fx_snapshot_def fx_digest_ok)
  then have digests: "call_digests (snd (fx_sql_calls n))" for n
    using fx_digests by (simp add: fx_sql_calls_def)
  have "state_after (sql_step ref_lib) fx_sql_calls empty_database 3 = fx_db3"
    using fx_register fx_put fx_sql_claim by (simp add: numeral_3_eq_3 fx_sql_calls_def split_def)
  moreover have "lg_claim (sql_ledgers ref_lib fx_db3 (as_str eg_hash)) \<noteq> None"
    by (simp add: sql_ledgers_def fx_lookups)
  ultimately show ?thesis
    using sql_ledger_settles [OF conforming_ref_lib digests, where k = "as_str eg_hash"]
    by (simp add: sql_ledgers_empty blank_def del: state_after_simps(2))
qed

text \<open>
  C16: \<open>MemoryGrantStore\<close> refines the same abstract lifecycle, with grant identifiers as keys
  and without dispatch markers.
\<close>

theorem memory_refines_lifecycle:
  assumes "mem_reachable L s"
  shows "moves L False (mem_ledgers s) (mem_ledgers (snd (mem_step L call s)))
    \<and> (moves L False)\<^sup>*\<^sup>* (\<lambda>_. blank) (mem_ledgers s)
    \<and> ledger_ok L False (mem_ledgers s i)
    \<and> ledger_extends (mem_ledgers s i) (mem_ledgers (snd (mem_step L call s)) i)
    \<and> ledger_entries (mem_ledgers s i) \<le> 10004"
proof -
  from mem_reachable_run [OF assms] obtain calls where s: "s = final_state (mem_step L) calls memory_default"
    by blast
  have start: "mem_invar L memory_default" by (rule mem_reachable_invar [OF mem_start])
  have legal: "list_all (\<lambda>_. True) xs" for xs :: "mem_call list" by (simp add: list_all_iff)
  note inv = mem_reachable_invar [OF assms]
  have "moves L False (mem_ledgers s) (mem_ledgers (snd (mem_step L call s)))"
    by (rule mem_step_moves)
  moreover have "ledger_extends (mem_ledgers s i) (mem_ledgers (snd (mem_step L call s)) i)"
    using mem_life.run_extends [OF inv legal, of i "[call]"] by simp
  ultimately show ?thesis
    using mem_life.run_moves [OF start legal, of calls] mem_life.run_ok [OF start legal, of i calls]
      mem_life.run_bounded [OF start legal, of i calls]
    by (simp add: s mem_ledgers_default MAX_RECONCILIATION_RECORDS_def)
qed

theorem memory_refines_lifecycle_witness:
  "moves ref_lib False (mem_ledgers Memory_Properties.fx_claimed)
     (mem_ledgers (snd (mem_step ref_lib (CallReceipt fx_er) Memory_Properties.fx_claimed)))
   \<and> lg_receipt (mem_ledgers Memory_Properties.fx_received ''grant-1'') = Some fx_er"
proof -
  have "lg_receipt (mem_ledgers Memory_Properties.fx_received ''grant-1'') = Some fx_er"
    by (simp add: mem_ledgers_def state_ledgers_def stored_ledger_def fx_received_state)
  with memory_refines_lifecycle [OF Memory_Properties.fx_reachable(2)] show ?thesis by blast
qed

end
