(* ===== verification/Cli.thy ===== *)
theory Cli
  imports Parsing
begin

text \<open>
  The command line program (crates/effect-transaction-cli/src/main.rs): reading a bounded
  file, the two input forms of \<open>etp verify\<close>, the six record kinds of \<open>etp hash\<close>, and the
  texts and the exit code of \<open>main\<close>. The error texts of the core crate, which the program
  prints, are here as well.

  The surroundings are the fields of \<open>cli_env\<close>: the files, the JSON parser that turns bytes
  into a value, the deserializer of a bundle from such a value, the two JSON printers, and
  the text of an error of serde\_json. The arguments that \<open>Cli::parse\<close> (crate clap) delivers
  are the argument of \<open>main\<close>. A standard output that cannot be written to, on which
  \<open>println!\<close> panics, is not modelled.
\<close>

section \<open>Error texts of the core crate\<close>

text \<open>\<open>to_string\<close> of a \<open>ProtocolError\<close>; \<open>json\<close> is the text of the payload of \<open>Json\<close>.\<close>

fun protocol_error_text :: "string \<Rightarrow> protocol_error \<Rightarrow> string" where
  "protocol_error_text json Json = ''JSON processing failed: '' @ json"
| "protocol_error_text json (UnsupportedVersion n) =
     ''unsupported profile version '' @ decimal (unat n)"
| "protocol_error_text json InvalidDigest = ''invalid digest''"
| "protocol_error_text json (InvalidBinding s) = ''invalid binding: '' @ s"
| "protocol_error_text json (DuplicateIdentifier s) = ''duplicate identifier: '' @ s"
| "protocol_error_text json (InvalidToken s) = ''invalid token: '' @ s"
| "protocol_error_text json InvalidNonce = ''invalid nonce''"
| "protocol_error_text json (UnsafeInteger s) =
     ''integer is outside the interoperable JSON range: '' @ s"
| "protocol_error_text json UnsafeJsonNumber = ''JSON number is outside the interoperable range''"
| "protocol_error_text json (ResourceLimit s) = ''resource limit exceeded: '' @ s"
| "protocol_error_text json InvalidTimeWindow = ''invalid time window''"
| "protocol_error_text json (InvalidNestedWindow s) = ''invalid nested time window: '' @ s"
| "protocol_error_text json (NonCanonicalList s) = ''non-canonical list: '' @ s"
| "protocol_error_text json (ListTooLong s) = ''list exceeds profile limit: '' @ s"
| "protocol_error_text json MissingReasonCode = ''authorization decision requires a reason code''"
| "protocol_error_text json MissingAuthorizingEvidence =
     ''allow decision requires admitted evidence''"
| "protocol_error_text json GrantMustBeSingleUse = ''execution grant must have exactly one use''"
| "protocol_error_text json GrantLifetimeExceeded =
     ''execution grant lifetime exceeds the core profile limit''"
| "protocol_error_text json InvalidReceiptTimeline = ''invalid receipt timeline''"
| "protocol_error_text json ContradictoryDispatchEvidence =
     ''dispatched effect cannot have a not_dispatched outcome''"
| "protocol_error_text json MissingDispatchEvidence =
     ''known effect outcome requires a dispatch timestamp''"
| "protocol_error_text json InvalidSequence = ''invalid reconciliation sequence''"
| "protocol_error_text json InvalidReconciliationParent = ''invalid reconciliation parent''"
| "protocol_error_text json InvalidReconciliationTimeline =
     ''reconciliation observation predates receipt completion''"
| "protocol_error_text json ReconciliationAlreadyTerminal =
     ''terminal reconciliation cannot be extended''"
| "protocol_error_text json (ChainMismatch s) = ''record chain mismatch: '' @ s"
| "protocol_error_text json (MissingPredecessor s) =
     ''record chain is missing a required predecessor: '' @ s"
| "protocol_error_text json DecisionDoesNotAuthorize = ''decision does not authorize execution''"
| "protocol_error_text json ReceiptOutsideGrantWindow =
     ''receipt claim is outside the grant window''"
| "protocol_error_text json ReconciliationRequiresUnknown =
     ''only an unknown receipt can be reconciled''"
| "protocol_error_text json StoreUnavailable = ''grant store is unavailable''"
| "protocol_error_text json ClockUnavailable = ''trusted clock is unavailable''"
| "protocol_error_text json ClockRollback = ''trusted clock moved backwards''"
| "protocol_error_text json DuplicateGrant = ''duplicate grant''"
| "protocol_error_text json DecisionAlreadyGranted =
     ''authorization decision already issued a grant''"
| "protocol_error_text json ProposalAlreadyGranted =
     ''effect proposal already received a grant''"
| "protocol_error_text json UnknownGrant = ''unknown grant''"
| "protocol_error_text json ReceiptWithoutClaim = ''receipt requires a successful claim''"
| "protocol_error_text json ReceiptClaimMismatch =
     ''receipt attempt does not match the winning claim''"
| "protocol_error_text json ReceiptAlreadyRecorded =
     ''ledger receipt is already recorded for this attempt''"
| "protocol_error_text json UnknownReceipt = ''unknown receipt''"
| "protocol_error_text json ReconciliationFork =
     ''reconciliation would fork the authoritative history''"
| "protocol_error_text json AudienceMismatch =
     ''grant audience does not match the claiming executor''"
| "protocol_error_text json StaleAuthority = ''policy or configuration authority is stale''"
| "protocol_error_text json StalePreState = ''target pre-state is stale''"
| "protocol_error_text json StaleResourceClaim = ''resource claim is stale''"
| "protocol_error_text json GrantRevoked = ''grant is revoked''"
| "protocol_error_text json GrantNotYetValid = ''grant is not yet valid''"
| "protocol_error_text json GrantExpired = ''grant expired''"
| "protocol_error_text json GrantAlreadyClaimed = ''grant was already claimed''"

section \<open>Data\<close>

definition CORE_PROFILE :: string where "CORE_PROFILE = ''effect-transaction/core/0.1''"

datatype cli_record_kind =
  K_TaskCommitment | K_EffectProposal | K_AuthorizationDecision | K_ExecutionGrant
| K_EffectReceipt | K_ReconciliationRecord

fun cli_kind_str :: "cli_record_kind \<Rightarrow> string" where
  "cli_kind_str K_TaskCommitment = ''task_commitment''"
| "cli_kind_str K_EffectProposal = ''effect_proposal''"
| "cli_kind_str K_AuthorizationDecision = ''authorization_decision''"
| "cli_kind_str K_ExecutionGrant = ''execution_grant''"
| "cli_kind_str K_EffectReceipt = ''effect_receipt''"
| "cli_kind_str K_ReconciliationRecord = ''reconciliation_record''"

text \<open>\<open>Command\<close>: the path, and for \<open>hash\<close> the kind; the last argument is \<open>compact\<close>.\<close>

datatype cli_command = Verify string bool | Hash cli_record_kind string bool

record vector_envelope =
  ve_profile :: string
  ve_description :: "string option"
  ve_transaction :: transaction_bundle
  ve_expected :: jvalue

datatype verify_input = Vector vector_envelope | Transaction transaction_bundle

text \<open>\<open>Io\<close> carries the text of the error of the operating system, \<open>CE_Json\<close> nothing.\<close>

datatype cli_error =
  CE_Io string
| CE_InputTooLarge
| CE_Json
| CE_UnsupportedProfile string
| CE_Protocol protocol_error
| CE_ExpectedMismatch
| CE_InvalidVectorDescription

fun cli_code :: "cli_error \<Rightarrow> string" where
  "cli_code (CE_Io e) = ''io_error''"
| "cli_code CE_InputTooLarge = ''transport_limit''"
| "cli_code CE_Json = ''invalid_json''"
| "cli_code (CE_UnsupportedProfile p) = ''unsupported_profile''"
| "cli_code (CE_Protocol e) = ''protocol_reject''"
| "cli_code CE_ExpectedMismatch = ''expected_mismatch''"
| "cli_code CE_InvalidVectorDescription = ''invalid_vector_description''"

fun cli_error_text :: "string \<Rightarrow> cli_error \<Rightarrow> string" where
  "cli_error_text json (CE_Io e) = ''failed to read input: '' @ e"
| "cli_error_text json CE_InputTooLarge = ''input exceeds the ETP transport limit''"
| "cli_error_text json CE_Json = ''invalid JSON structure: '' @ json"
| "cli_error_text json (CE_UnsupportedProfile p) = ''unsupported transaction profile: '' @ p"
| "cli_error_text json (CE_Protocol e) = ''transaction rejected: '' @ protocol_error_text json e"
| "cli_error_text json CE_ExpectedMismatch =
     ''computed result does not match test-vector expectations''"
| "cli_error_text json CE_InvalidVectorDescription = ''test-vector description is invalid''"

text \<open>
  What the path names: nothing that can be opened, or a source of bytes that ends after them
  or fails there. An endless source is one whose bytes exceed the limit of the reader.
\<close>

datatype file_source = Unopened string | Opened string "string option"

record cli_env =
  ce_lib :: lib
  ce_file :: "string \<Rightarrow> file_source"
  ce_content :: "string \<Rightarrow> jvalue option"
  ce_bundle :: "jvalue \<Rightarrow> transaction_bundle option"
  ce_to_string :: "jvalue \<Rightarrow> string option"
  ce_to_string_pretty :: "jvalue \<Rightarrow> string option"
  ce_json_text :: string

section \<open>Reading the input\<close>

text \<open>\<open>take(limit).read_to_end\<close>: the source is not asked for bytes beyond the limit.\<close>

definition take_read_to_end :: "nat \<Rightarrow> string \<Rightarrow> string option \<Rightarrow> cli_error + string" where
  "take_read_to_end limit bytes failure =
     (if length bytes \<ge> limit then Inr (take limit bytes)
      else case failure of None \<Rightarrow> Inr bytes | Some e \<Rightarrow> Inl (CE_Io e))"

definition read_bounded :: "cli_env \<Rightarrow> string \<Rightarrow> cli_error + string" where
  "read_bounded E path =
     (case ce_file E path of
        Unopened e \<Rightarrow> Inl (CE_Io e)
      | Opened bytes failure \<Rightarrow>
          rbind (take_read_to_end (MAX_TRANSPORT_INPUT_BYTES + 1) bytes failure) (\<lambda>bytes.
          rbind (ensure (\<not> length bytes > MAX_TRANSPORT_INPUT_BYTES) CE_InputTooLarge) (\<lambda>_.
          Inr bytes)))"

text \<open>
  \<open>serde_json::Value\<close> of a parsed value: an object is a map in key order in which the last
  of several entries with the same key stays.
\<close>

function content_value :: "jvalue \<Rightarrow> jvalue" where
  "content_value v =
     (case v of
        JArray vs \<Rightarrow> JArray (map content_value vs)
      | JObject kvs \<Rightarrow>
          JObject (map (\<lambda>k. (k, content_value (the (map_of (rev kvs) k))))
                       (sorted_list_of_set (set (map fst kvs))))
      | _ \<Rightarrow> v)"
  by pat_completeness auto
termination
proof (relation "measure size")
  fix v vs c
  assume "v = JArray vs" "c \<in> set vs"
  then show "(c, v) \<in> measure size" using children_size [of c v] by simp
next
  fix v kvs k
  assume v: "v = JObject kvs" and "k \<in> set (sorted_list_of_set (set (map fst kvs)))"
  then have "k \<in> fst ` set (rev kvs)" by simp
  then obtain w where "map_of (rev kvs) k = Some w" "(k, w) \<in> set (rev kvs)"
    by (metis domD dom_map_of_conv_image_fst map_of_SomeD)
  then show "(the (map_of (rev kvs) k), v) \<in> measure size"
    using v children_size [of w v] by force
qed simp

declare content_value.simps [simp del]

text \<open>
  The deserializer that serde derives for \<open>VectorEnvelope\<close>: an object without unknown or
  repeated names, in which only \<open>description\<close> may be missing, or an array of the four
  fields in their order.
\<close>

definition read_vector :: "cli_env \<Rightarrow> jvalue \<Rightarrow> vector_envelope option" where
  "read_vector E v =
     (let finish = (\<lambda>profile description transaction expected.
            Some \<lparr>ve_profile = profile, ve_description = description,
                  ve_transaction = transaction, ve_expected = expected\<rparr>)
      in case v of
           JArray [p, d, t, e] \<Rightarrow> do {
             profile \<leftarrow> read_string p;
             description \<leftarrow> (if d = JNull then Some None else map_option Some (read_string d));
             transaction \<leftarrow> ce_bundle E t;
             finish profile description transaction (content_value e) }
         | _ \<Rightarrow> do {
             obj \<leftarrow> strict_object [''profile'', ''description'', ''transaction'', ''expected''] v;
             profile \<leftarrow> field obj ''profile'' read_string;
             description \<leftarrow> optional obj ''description'' read_string;
             transaction \<leftarrow> field obj ''transaction'' (ce_bundle E);
             expected \<leftarrow> field obj ''expected'' (\<lambda>e. Some (content_value e));
             finish profile description transaction expected })"

text \<open>\<open>VerifyInput\<close> is untagged: the first form that can be read is taken.\<close>

definition read_verify_input :: "cli_env \<Rightarrow> jvalue \<Rightarrow> verify_input option" where
  "read_verify_input E v =
     (case read_vector E v of
        Some vector \<Rightarrow> Some (Vector vector)
      | None \<Rightarrow> map_option Transaction (ce_bundle E v))"

definition strict_deserialize ::
    "cli_env \<Rightarrow> (jvalue \<Rightarrow> 'a option) \<Rightarrow> string \<Rightarrow> cli_error + 'a" where
  "strict_deserialize E read bytes = ok_or (Option.bind (ce_content E bytes) read) CE_Json"

section \<open>Verification\<close>

fun state_name :: "transaction_state \<Rightarrow> string" where
  "state_name TS_Decided = ''decided''"
| "state_name TS_Granted = ''granted''"
| "state_name TS_NotDispatched = ''not_dispatched''"
| "state_name TS_Succeeded = ''succeeded''"
| "state_name TS_Failed = ''failed''"
| "state_name TS_Unknown = ''unknown''"
| "state_name TS_EffectConfirmed = ''effect_confirmed''"
| "state_name TS_NoEffectConfirmed = ''no_effect_confirmed''"
| "state_name TS_PartialEffect = ''partial_effect''"
| "state_name TS_StillUnknown = ''still_unknown''"
| "state_name TS_Compensated = ''compensated''"

text \<open>\<open>to_value\<close> of the result; the object is a map, so its entries are in key order.\<close>

definition vt_value :: "verified_transaction \<Rightarrow> jvalue" where
  "vt_value v = norm (JObject
     [(''commitment_hash'', jdigest (vt_commitment_hash v)),
      (''proposal_hash'', jdigest (vt_proposal_hash v)),
      (''decision_hash'', jdigest (vt_decision_hash v)),
      (''grant_hash'', jopt jdigest (vt_grant_hash v)),
      (''receipt_hash'', jopt jdigest (vt_receipt_hash v)),
      (''reconciliation_hashes'', JArray (map jdigest (vt_reconciliation_hashes v))),
      (''state'', JString (state_name (vt_state v)))])"

text \<open>\<open>Map::insert\<close>.\<close>

definition map_insert :: "string \<Rightarrow> jvalue \<Rightarrow> (string \<times> jvalue) list \<Rightarrow> (string \<times> jvalue) list" where
  "map_insert k v kvs = sort_key fst ((k, v) # filter (\<lambda>kv. fst kv \<noteq> k) kvs)"

definition description_invalid :: "string \<Rightarrow> bool" where
  "description_invalid description \<longleftrightarrow>
     length (chars description) > 4096 \<or> list_ex is_control (chars description)"

definition verified_json :: "cli_env \<Rightarrow> string \<Rightarrow> cli_error + jvalue" where
  "verified_json E bytes =
     rbind (strict_deserialize E (read_verify_input E) bytes) (\<lambda>input.
     rbind (case input of
              Vector vector \<Rightarrow>
                rbind (ensure (\<not> ve_profile vector \<noteq> CORE_PROFILE)
                         (CE_UnsupportedProfile (ve_profile vector))) (\<lambda>_.
                rbind (ensure (\<not> (\<exists>d \<in> set_option (ve_description vector). description_invalid d))
                         CE_InvalidVectorDescription) (\<lambda>_.
                Inr (ve_transaction vector, Some (ve_expected vector))))
            | Transaction bundle \<Rightarrow> Inr (bundle, None)) (\<lambda>(bundle, expected).
     rbind (map_err CE_Protocol (verify_transaction (ce_lib E) bundle)) (\<lambda>verified.
     let value = vt_value verified in
     rbind (ensure (\<not> (\<exists>e \<in> set_option expected. e \<noteq> value)) CE_ExpectedMismatch) (\<lambda>_.
     case value of
       JObject kvs \<Rightarrow> Inr (JObject (map_insert ''valid'' (JBool True) kvs))
     | _ \<Rightarrow> Inl CE_ExpectedMismatch))))"

section \<open>Hashing a record\<close>

definition record_digest ::
    "(string \<Rightarrow> protocol_error + 'r) \<Rightarrow> ('r \<Rightarrow> protocol_error + digest32) \<Rightarrow> string
     \<Rightarrow> cli_error + digest32" where
  "record_digest parse commitment bytes =
     rbind (map_err CE_Protocol (parse bytes)) (\<lambda>r. map_err CE_Protocol (commitment r))"

fun kind_digest :: "lib \<Rightarrow> cli_record_kind \<Rightarrow> string \<Rightarrow> cli_error + digest32" where
  "kind_digest L K_TaskCommitment = record_digest (parse_tc L) (tc_commitment L)"
| "kind_digest L K_EffectProposal = record_digest (parse_ep L) (ep_commitment L)"
| "kind_digest L K_AuthorizationDecision = record_digest (parse_ad L) (ad_commitment L)"
| "kind_digest L K_ExecutionGrant = record_digest (parse_eg L) (eg_commitment L)"
| "kind_digest L K_EffectReceipt = record_digest (parse_er L) (er_commitment L)"
| "kind_digest L K_ReconciliationRecord = record_digest (parse_rr L) (rr_commitment L)"

definition hash_output :: "cli_record_kind \<Rightarrow> digest32 \<Rightarrow> jvalue" where
  "hash_output kind digest = norm (JObject
     [(''valid'', JBool True), (''kind'', JString (cli_kind_str kind)), (''digest'', jdigest digest)])"

definition hash_json :: "cli_env \<Rightarrow> cli_record_kind \<Rightarrow> string \<Rightarrow> cli_error + jvalue" where
  "hash_json E kind bytes =
     rbind (kind_digest (ce_lib E) kind bytes) (\<lambda>digest. Inr (hash_output kind digest))"

section \<open>The program\<close>

text \<open>The result is the line written to standard output.\<close>

definition print_json :: "cli_env \<Rightarrow> jvalue \<Rightarrow> bool \<Rightarrow> cli_error + string" where
  "print_json E v compact =
     rbind (ok_or (if compact then ce_to_string E v else ce_to_string_pretty E v) CE_Json)
       (\<lambda>output. Inr (output @ [CHR 0x0A]))"

definition run :: "cli_env \<Rightarrow> cli_command \<Rightarrow> cli_error + string" where
  "run E command =
     (case command of
        Verify path compact \<Rightarrow>
          rbind (read_bounded E path) (\<lambda>bytes.
          rbind (verified_json E bytes) (\<lambda>v. print_json E v compact))
      | Hash kind path compact \<Rightarrow>
          rbind (read_bounded E path) (\<lambda>bytes.
          rbind (hash_json E kind bytes) (\<lambda>v. print_json E v compact)))"

definition error_json :: "string \<Rightarrow> cli_error \<Rightarrow> jvalue" where
  "error_json json e = JObject
     (map_insert ''message'' (JString (cli_error_text json e))
     (map_insert ''code'' (JString (cli_code e))
     (map_insert ''valid'' (JBool False) [])))"

text \<open>The exit status, and the line on standard output or the value on standard error.\<close>

datatype exit_code = Exit_Success string | Exit_Failure jvalue

definition main :: "cli_env \<Rightarrow> cli_command \<Rightarrow> exit_code" where
  "main E command =
     (case run E command of
        Inr output \<Rightarrow> Exit_Success output
      | Inl e \<Rightarrow> Exit_Failure (error_json (ce_json_text E) e))"

end
