(* ===== verification/Cli_Properties.thy ===== *)
theory Cli_Properties
  imports Cli Fixture_Twins
begin

text \<open>
  The properties of the command line program: when \<open>etp verify\<close> succeeds and what it prints,
  that a printed digest identifies kind and record, and which inputs give which error. The
  instances run the program on a file with the canonical text of the bundle of \<open>Fixtures\<close>,
  read by a strict reader for bundles.
\<close>

section \<open>Facts\<close>

fun command_path :: "cli_command \<Rightarrow> string" where
  "command_path (Verify path compact) = path"
| "command_path (Hash kind path compact) = path"

lemma map_err_Inl: "map_err f r = Inl e \<Longrightarrow> \<exists>x. r = Inl x \<and> e = f x"
  by (simp add: map_err_def split: sum.splits)

lemma read_bounded_error:
  "read_bounded E path = Inl e \<longleftrightarrow>
     (case ce_file E path of
        Unopened t \<Rightarrow> e = CE_Io t
      | Opened bytes failure \<Rightarrow>
          if length bytes > MAX_TRANSPORT_INPUT_BYTES then e = CE_InputTooLarge
          else \<exists>t. failure = Some t \<and> e = CE_Io t)"
  by (auto simp: read_bounded_def take_read_to_end_def rbind_err ensure_err MAX_TRANSPORT_INPUT_BYTES_def
      split: file_source.split option.split)

lemma read_bounded_ok [ok_iff]:
  "read_bounded E path = Inr bytes \<longleftrightarrow>
     ce_file E path = Opened bytes None \<and> length bytes \<le> MAX_TRANSPORT_INPUT_BYTES"
  by (auto simp: read_bounded_def take_read_to_end_def ok_iff MAX_TRANSPORT_INPUT_BYTES_def
      split: file_source.split option.split)

lemma run_Verify:
  "run E (Verify path compact) = Inr out \<longleftrightarrow>
     (\<exists>bytes v. read_bounded E path = Inr bytes \<and> verified_json E bytes = Inr v
        \<and> print_json E v compact = Inr out)"
  by (simp add: run_def rbind_ok)

lemma run_Hash:
  "run E (Hash kind path compact) = Inr out \<longleftrightarrow>
     (\<exists>bytes digest. read_bounded E path = Inr bytes \<and> kind_digest (ce_lib E) kind bytes = Inr digest
        \<and> print_json E (hash_output kind digest) compact = Inr out)"
  by (auto simp: run_def rbind_ok hash_json_def)

lemma main_Success: "main E command = Exit_Success out \<longleftrightarrow> run E command = Inr out"
  by (simp add: main_def split: sum.split)

lemma main_Failure:
  "main E command = Exit_Failure v \<longleftrightarrow>
     (\<exists>e. run E command = Inl e \<and> v = error_json (ce_json_text E) e)"
  by (auto simp: main_def split: sum.split)

text \<open>Errors of the steps after reading are neither \<open>Io\<close> nor \<open>InputTooLarge\<close>.\<close>

definition input_error :: "cli_error \<Rightarrow> bool" where
  "input_error e \<longleftrightarrow> e = CE_InputTooLarge \<or> (\<exists>t. e = CE_Io t)"

definition clean :: "cli_error + 'a \<Rightarrow> bool" where
  "clean r \<longleftrightarrow> (\<forall>e. r = Inl e \<longrightarrow> \<not> input_error e)"

lemma clean_intros:
  "clean m \<Longrightarrow> (\<And>x. clean (f x)) \<Longrightarrow> clean (rbind m f)"
  "\<not> input_error e \<Longrightarrow> clean (ensure b e)"
  "clean (map_err CE_Protocol r)" "clean (ok_or x CE_Json)" "clean (Inr y)"
  "\<not> input_error e \<Longrightarrow> clean (Inl e)"
  by (auto simp: clean_def rbind_err ensure_err map_err_def ok_or_def input_error_def
      split: sum.splits option.splits)

lemma no_input_error [simp]:
  "\<not> input_error CE_Json" "\<not> input_error (CE_UnsupportedProfile p)"
  "\<not> input_error (CE_Protocol x)" "\<not> input_error CE_ExpectedMismatch"
  "\<not> input_error CE_InvalidVectorDescription"
  by (simp_all add: input_error_def)

lemma later_steps_clean:
  "clean (verified_json E bytes)" "clean (hash_json E kind bytes)" "clean (print_json E v compact)"
proof -
  show "clean (verified_json E bytes)"
    unfolding verified_json_def strict_deserialize_def Let_def
    by (intro clean_intros) (auto intro!: clean_intros split: verify_input.split prod.split jvalue.split)
  show "clean (hash_json E kind bytes)"
    by (cases kind) (auto simp: hash_json_def record_digest_def intro!: clean_intros)
  show "clean (print_json E v compact)"
    by (auto simp: print_json_def intro!: clean_intros)
qed

lemma run_input_error:
  assumes "run E command = Inl e"
  shows "if input_error e then read_bounded E (command_path command) = Inl e
         else \<exists>bytes. read_bounded E (command_path command) = Inr bytes"
proof (cases "read_bounded E (command_path command)")
  case (Inl x)
  moreover from Inl have "input_error x"
    by (auto simp: read_bounded_error input_error_def split: file_source.splits if_splits)
  ultimately show ?thesis using assms by (cases command) (auto simp: run_def)
next
  case (Inr bytes)
  then have "clean (run E command)"
    using later_steps_clean by (cases command) (auto simp: run_def intro!: clean_intros)
  with assms Inr show ?thesis by (auto simp: clean_def)
qed

text \<open>The object that \<open>etp verify\<close> prints.\<close>

definition verify_output :: "verified_transaction \<Rightarrow> jvalue" where
  "verify_output v = JObject
     [(''commitment_hash'', jdigest (vt_commitment_hash v)),
      (''decision_hash'', jdigest (vt_decision_hash v)),
      (''grant_hash'', jopt jdigest (vt_grant_hash v)),
      (''proposal_hash'', jdigest (vt_proposal_hash v)),
      (''receipt_hash'', jopt jdigest (vt_receipt_hash v)),
      (''reconciliation_hashes'', JArray (map jdigest (vt_reconciliation_hashes v))),
      (''state'', JString (state_name (vt_state v))),
      (''valid'', JBool True)]"

lemma norm_leaves [simp]: "norm (jdigest d) = jdigest d" "norm (jopt jdigest x) = jopt jdigest x"
  by (simp_all add: jdigest_def jopt_def split: option.split)

lemma verified_output:
  "(case vt_value v of JObject kvs \<Rightarrow> Inr (JObject (map_insert ''valid'' (JBool True) kvs))
                     | _ \<Rightarrow> Inl CE_ExpectedMismatch) = Inr (verify_output v)"
  by (simp add: vt_value_def verify_output_def map_insert_def comp_def)

text \<open>
  The transaction an input is about, and the result that it expects: the envelope of a test
  vector with the core profile and an acceptable description, or a bare bundle.
\<close>

definition input_claims :: "cli_env \<Rightarrow> jvalue \<Rightarrow> transaction_bundle \<Rightarrow> jvalue option \<Rightarrow> bool" where
  "input_claims E content bundle expected \<longleftrightarrow>
     (case read_vector E content of
        Some vector \<Rightarrow>
          ve_profile vector = CORE_PROFILE
          \<and> (\<forall>d. ve_description vector = Some d \<longrightarrow>
               length (chars d) \<le> 4096 \<and> \<not> list_ex is_control (chars d))
          \<and> bundle = ve_transaction vector \<and> expected = Some (ve_expected vector)
      | None \<Rightarrow> ce_bundle E content = Some bundle \<and> expected = None)"

lemma verified_json_ok:
  "verified_json E bytes = Inr out \<longleftrightarrow>
     (\<exists>content bundle expected v. ce_content E bytes = Some content
        \<and> input_claims E content bundle expected
        \<and> verify_transaction (ce_lib E) bundle = Inr v
        \<and> (\<forall>e. expected = Some e \<longrightarrow> e = vt_value v) \<and> out = verify_output v)"
proof (cases "ce_content E bytes")
  case None
  then show ?thesis by (simp add: verified_json_def strict_deserialize_def)
next
  case (Some content)
  then show ?thesis
    by (cases "read_vector E content"; cases "ce_bundle E content")
       (auto simp: verified_json_def strict_deserialize_def read_verify_input_def ok_iff
         input_claims_def verified_output Let_def description_invalid_def not_less)
qed

text \<open>
  The derived deserializer does not insist on an object: the array of the four fields is the
  same envelope.
\<close>

lemma read_vector_array:
  "read_vector E (JArray [p, d, t, e]) =
     read_vector E (JObject [(''profile'', p), (''description'', d), (''transaction'', t), (''expected'', e)])"
  by (simp add: read_vector_def strict_object_def field_def optional_def)

text \<open>The digest of \<open>etp hash\<close> is the commitment of a record of the kind.\<close>

fun record_kind_of :: "etp_record \<Rightarrow> cli_record_kind" where
  "record_kind_of (ETask c) = K_TaskCommitment"
| "record_kind_of (EProposal p) = K_EffectProposal"
| "record_kind_of (EDecision d) = K_AuthorizationDecision"
| "record_kind_of (EGrant g) = K_ExecutionGrant"
| "record_kind_of (EReceipt r) = K_EffectReceipt"
| "record_kind_of (EReconciliation x) = K_ReconciliationRecord"

text \<open>What the typed deserializer of a kind reads from bytes.\<close>

fun record_read :: "lib \<Rightarrow> cli_record_kind \<Rightarrow> string \<Rightarrow> etp_record option" where
  "record_read L K_TaskCommitment bytes = map_option ETask (from_json_tc L bytes)"
| "record_read L K_EffectProposal bytes = map_option EProposal (from_json_ep L bytes)"
| "record_read L K_AuthorizationDecision bytes = map_option EDecision (from_json_ad L bytes)"
| "record_read L K_ExecutionGrant bytes = map_option EGrant (from_json_eg L bytes)"
| "record_read L K_EffectReceipt bytes = map_option EReceipt (from_json_er L bytes)"
| "record_read L K_ReconciliationRecord bytes = map_option EReconciliation (from_json_rr L bytes)"

lemma record_digest_ok:
  assumes "parse = parse_record L from_json validate to_value"
    and "commitment = trait_commitment L domain validate to_value"
  shows "record_digest parse commitment bytes = Inr h \<longleftrightarrow>
    length bytes \<le> MAX_TRANSPORT_INPUT_BYTES \<and> (\<exists>r. from_json bytes = Some r \<and> commitment r = Inr h)"
  unfolding assms
  by (auto simp: record_digest_def ok_iff parse_record_ok trait_commitment_def hash_record_def)

lemma kind_digest_ok:
  "kind_digest L kind bytes = Inr h \<longleftrightarrow>
     length bytes \<le> MAX_TRANSPORT_INPUT_BYTES
     \<and> (\<exists>r. record_read L kind bytes = Some r \<and> record_commitment L r = Inr h)"
  by (cases kind)
     (auto simp: record_digest_ok [OF parse_tc_def tc_commitment_def]
       record_digest_ok [OF parse_ep_def ep_commitment_def]
       record_digest_ok [OF parse_ad_def ad_commitment_def]
       record_digest_ok [OF parse_eg_def eg_commitment_def]
       record_digest_ok [OF parse_er_def er_commitment_def]
       record_digest_ok [OF parse_rr_def rr_commitment_def])

lemma record_read_kind: "record_read L kind bytes = Some r \<Longrightarrow> record_kind_of r = kind"
  by (cases kind) auto

lemma error_json_entries:
  "error_json json e = JObject [(''code'', JString (cli_code e)),
     (''message'', JString (cli_error_text json e)), (''valid'', JBool False)]"
  by (simp add: error_json_def map_insert_def)

section \<open>Fixtures\<close>

text \<open>The entries of a bundle and a strict reader for them.\<close>

definition tb_value :: "transaction_bundle \<Rightarrow> jvalue" where
  "tb_value b = JObject
     [(''commitment'', tc_value (tb_commitment b)), (''proposal'', ep_value (tb_proposal b)),
      (''decision'', ad_value (tb_decision b)), (''grant'', jopt eg_value (tb_grant b)),
      (''receipt'', jopt er_value (tb_receipt b)),
      (''reconciliations'', JArray (map rr_value (tb_reconciliations b)))]"

definition read_tb :: "jvalue \<Rightarrow> transaction_bundle option" where
  "read_tb v = do {
     obj \<leftarrow> strict_object [''commitment'', ''proposal'', ''decision'', ''grant'', ''receipt'',
       ''reconciliations''] v;
     commitment \<leftarrow> field obj ''commitment'' read_tc;
     proposal \<leftarrow> field obj ''proposal'' read_ep;
     decision \<leftarrow> field obj ''decision'' read_ad;
     grant \<leftarrow> optional obj ''grant'' read_eg;
     receipt \<leftarrow> optional obj ''receipt'' read_er;
     reconciliations \<leftarrow> (case map_of obj ''reconciliations'' of
        None \<Rightarrow> Some [] | Some v \<Rightarrow> read_list read_rr v);
     Some \<lparr>tb_commitment = commitment, tb_proposal = proposal, tb_decision = decision,
           tb_grant = grant, tb_receipt = receipt, tb_reconciliations = reconciliations\<rparr> }"

definition fx_text :: string where
  "fx_text = (case encode_canonical_value ref_lib (tb_value fx_bundle) of Inr s \<Rightarrow> s | Inl e \<Rightarrow> [])"

definition fx_task_text :: "task_commitment \<Rightarrow> string" where
  "fx_task_text c = (case canonical_json ref_lib (tc_value c) of Inr s \<Rightarrow> s | Inl e \<Rightarrow> [])"

definition fx_cli :: cli_env where
  "fx_cli = \<lparr>ce_lib = ref_lib,
     ce_file = (\<lambda>path. if path = ''bundle.json'' then Opened fx_text None
                       else if path = ''task.json'' then Opened (fx_task_text fx_tc) None
                       else if path = ''twin.json'' then Opened (fx_task_text twin_tc) None
                       else Unopened ''No such file or directory (os error 2)''),
     ce_content = read_json, ce_bundle = read_tb,
     ce_to_string = (\<lambda>v. case encode_canonical_value ref_lib v of Inr s \<Rightarrow> Some s | Inl e \<Rightarrow> None),
     ce_to_string_pretty = (\<lambda>v. None), ce_json_text = ''malformed''\<rparr>"

lemma fx_safe: "safe_numbers (tb_value fx_bundle)"
  using tc.valid_safe [OF fx_tc_valid] ep.valid_safe [OF fx_ep_valid] ad.valid_safe [OF fx_ad_valid]
    eg.valid_safe [OF fx_eg_valid] er.valid_safe [OF fx_er_valid] rr.valid_safe [OF fx_rr1_valid]
    rr.valid_safe [OF fx_rr2_valid]
  by (simp add: tb_value_def fx_bundle_def jopt_def)

lemma fx_text: "encode_canonical_value ref_lib (tb_value fx_bundle) = Inr fx_text"
  using encode_ok_iff [OF ref_lib_quotes, of "tb_value fx_bundle"] fx_safe
  by (auto simp: fx_text_def)

lemma fx_task_text: "tc_validate c = Inr () \<Longrightarrow> canonical_json ref_lib (tc_value c) = Inr (fx_task_text c)"
  using tc.valid_canonical [OF ref_lib_quotes, of c] by (auto simp: fx_task_text_def)

lemma fx_text_length: "length fx_text \<le> MAX_TRANSPORT_INPUT_BYTES"
proof -
  have "text_bound (tb_value fx_bundle) \<le> MAX_TRANSPORT_INPUT_BYTES"
    using fx_digests
    by (simp add: tb_value_def fx_bundle_def jopt_def value_defs digests_defs fx_defs
        MAX_TRANSPORT_INPUT_BYTES_def)
  with encode_text_bound [OF ref_lib_quote fx_text] show ?thesis by simp
qed

lemma fx_task_text_length:
  assumes "tc_validate c = Inr ()" and "tc_digests c"
  shows "length (fx_task_text c) \<le> MAX_TRANSPORT_INPUT_BYTES"
  using encode_text_bound [OF ref_lib_quote, of "tc_value c"] fx_task_text [OF assms(1)] tc_fits [OF assms]
  by (auto simp: canonical_json_def rbind_ok)

lemma fx_read: "read_json fx_text = Some (norm (tb_value fx_bundle))"
  by (rule read_json_encode [OF ref_lib_quote fx_text])

lemma fx_read_tb: "read_tb (norm (tb_value fx_bundle)) = Some fx_bundle"
proof -
  have nn: "norm (eg_value g) \<noteq> JNull" "norm (er_value r) \<noteq> JNull" for g r
    by (simp_all add: eg_value_def er_value_def)
  have "read_list read_rr (JArray (map (norm \<circ> rr_value) [fx_rr1, fx_rr2])) = Some [fx_rr1, fx_rr2]"
    by (rule read_list_map) (use fx_digests in \<open>auto simp: read_rr_value\<close>)
  then show ?thesis
    using fx_digests nn unfolding tb_value_def read_tb_def
    by (subst strict_norm)
       (simp_all add: read_simps fx_bundle_def jopt_def read_tc_value read_ep_value read_ad_value
         read_eg_value read_er_value)
qed

lemma fx_not_vector: "read_vector E (norm (tb_value b)) = None"
  by (simp add: read_vector_def tb_value_def strict_object_def)

lemma fx_prints: "safe_numbers v \<Longrightarrow> \<exists>s. print_json fx_cli v True = Inr s"
  using encode_ok_iff [OF ref_lib_quotes, of v] by (auto simp: print_json_def fx_cli_def)

section \<open>Properties\<close>

text \<open>
  C17: \<open>etp verify\<close> succeeds exactly on a readable file of at most one mebibyte whose content
  is a bundle that meets the lifecycle specification, or a test vector of the core profile with
  such a bundle and exactly the result that verification computes. It then prints the computed
  hashes and the state of the last record together with \<open>valid\<close>.
\<close>

theorem cli_verify_accepts:
  assumes "quotes (ce_lib E)"
  shows "main E (Verify path compact) = Exit_Success out \<longleftrightarrow>
    (\<exists>bytes content bundle expected v. ce_file E path = Opened bytes None \<and> length bytes \<le> 1048576
       \<and> ce_content E bytes = Some content \<and> input_claims E content bundle expected
       \<and> lifecycle_spec (ce_lib E) bundle \<and> verify_transaction (ce_lib E) bundle = Inr v
       \<and> vt_state v = bundle_state bundle
       \<and> (\<forall>e. expected = Some e \<longrightarrow> e = vt_value v)
       \<and> print_json E (verify_output v) compact = Inr out)"
proof -
  have spec: "lifecycle_spec (ce_lib E) b \<and> vt_state v = bundle_state b"
    if "verify_transaction (ce_lib E) b = Inr v" for b v
    using that verify_transaction_ok_iff [of "ce_lib E" b] lifecycle_spec_iff [OF assms, of b]
      verify_transaction_state [OF that] by auto
  show ?thesis
    unfolding main_Success run_Verify read_bounded_ok verified_json_ok MAX_TRANSPORT_INPUT_BYTES_def
    using spec by blast
qed

theorem cli_verify_accepts_witness:
  "\<exists>out v. main fx_cli (Verify ''bundle.json'' True) = Exit_Success out
     \<and> print_json fx_cli (verify_output v) True = Inr out \<and> vt_state v = TS_EffectConfirmed"
proof -
  have L: "ce_lib fx_cli = ref_lib" by (simp add: fx_cli_def)
  from fx_lifecycle obtain v where v: "verify_transaction ref_lib fx_bundle = Inr v"
    using verify_transaction_ok_iff by blast
  have state: "bundle_state fx_bundle = TS_EffectConfirmed"
    by (simp add: bundle_state_def fx_bundle_def last_record_def fx_rr2_def)
  have "safe_numbers (verify_output v)"
    by (auto simp: verify_output_def jdigest_def jopt_def split: option.split)
  from fx_prints [OF this] obtain out where out: "print_json fx_cli (verify_output v) True = Inr out"
    by blast
  have "input_claims fx_cli (norm (tb_value fx_bundle)) fx_bundle None"
    by (simp add: input_claims_def fx_not_vector) (simp add: fx_cli_def fx_read_tb)
  then have "main fx_cli (Verify ''bundle.json'' True) = Exit_Success out"
    using cli_verify_accepts [of fx_cli "''bundle.json''" True out] fx_text_length fx_read v out
      fx_lifecycle lifecycle_spec_iff [OF ref_lib_quotes] verify_transaction_state [OF v]
    unfolding L by (auto simp: ref_lib_quotes MAX_TRANSPORT_INPUT_BYTES_def) (auto simp: fx_cli_def)
  with out state verify_transaction_state [OF v] show ?thesis by metis
qed

text \<open>
  The parser reads a printed report back, in either form. This is what the crate serde\_json
  documents of its two printers and its parser.
\<close>

definition reports_read_back :: "cli_env \<Rightarrow> bool" where
  "reports_read_back E \<longleftrightarrow>
     (\<forall>kind digest line. ce_to_string E (hash_output kind digest) = Some line
        \<or> ce_to_string_pretty E (hash_output kind digest) = Some line
        \<longrightarrow> ce_content E line = Some (hash_output kind digest))"

lemma cli_kind_str_inj: "cli_kind_str k = cli_kind_str k' \<longleftrightarrow> k = k'"
  by (cases k; cases k') simp_all

lemma hash_output_inj: "hash_output k h = hash_output k' h' \<longleftrightarrow> k = k' \<and> h = h'"
  by (auto simp: hash_output_def cli_kind_str_inj jdigest_def digest32.expand)

lemma same_report:
  assumes "reports_read_back E"
    and "print_json E (hash_output k h) c = Inr out" and "print_json E (hash_output k' h') c' = Inr out"
  shows "k = k' \<and> h = h'"
proof -
  have read: "\<exists>line. out = line @ [CHR 0x0A] \<and> ce_content E line = Some (hash_output k h)"
    if "print_json E (hash_output k h) c = Inr out" for k h c
    using that assms(1) by (auto simp: print_json_def rbind_ok ok_or_ok reports_read_back_def split: if_splits)
  from read [OF assms(2)] read [OF assms(3)] have "hash_output k h = hash_output k' h'" by auto
  then show ?thesis by (simp add: hash_output_inj)
qed

text \<open>
  C35: Two runs of \<open>etp hash\<close> that print the same line were asked for the same kind, and the
  records that their two files hold are the same record of this kind, or the texts hashed for
  these two records collide. The line reports the commitment of the record in the file.
\<close>

theorem cli_hash_identifies:
  assumes "quote_conforms (ce_lib E)" and "reports_read_back E"
    and "main E (Hash kind path c) = Exit_Success out" and "main E (Hash kind' path' c') = Exit_Success out"
  shows "kind = kind' \<and> (\<exists>bytes bytes' r r' h.
      ce_file E path = Opened bytes None \<and> record_read (ce_lib E) kind bytes = Some r
    \<and> ce_file E path' = Opened bytes' None \<and> record_read (ce_lib E) kind' bytes' = Some r'
    \<and> record_commitment (ce_lib E) r = Inr h \<and> record_commitment (ce_lib E) r' = Inr h
    \<and> print_json E (hash_output kind h) c = Inr out
    \<and> (r = r' \<or> collides (ce_lib E) r r'))"
proof -
  have hashed: "\<exists>bytes r h. ce_file E path = Opened bytes None \<and> record_read (ce_lib E) kind bytes = Some r
      \<and> record_commitment (ce_lib E) r = Inr h \<and> print_json E (hash_output kind h) c = Inr out"
    if "main E (Hash kind path c) = Exit_Success out" for kind path c
    using that by (auto simp: main_Success run_Hash kind_digest_ok read_bounded_ok)
  obtain bytes r h bytes' r' h' where
      "ce_file E path = Opened bytes None" "record_read (ce_lib E) kind bytes = Some r"
      "record_commitment (ce_lib E) r = Inr h" "print_json E (hash_output kind h) c = Inr out"
      "ce_file E path' = Opened bytes' None" "record_read (ce_lib E) kind' bytes' = Some r'"
      "record_commitment (ce_lib E) r' = Inr h'" "print_json E (hash_output kind' h') c' = Inr out"
    using hashed [OF assms(3)] hashed [OF assms(4)] by blast
  moreover from this have "kind = kind'" "h = h'" using same_report [OF assms(2)] by blast+
  moreover from calculation have "r = r' \<or> collides (ce_lib E) r r'"
    using record_commitment_binding [OF assms(1), of r h r'] by simp
  ultimately show ?thesis by blast
qed

text \<open>Two files with the task of the fixture and its twin, for which the same line is printed.\<close>

lemma fx_reports: "reports_read_back fx_cli"
proof -
  have "norm (hash_output k h) = hash_output k h" for k h
    by (simp add: hash_output_def)
  then have "read_json line = Some (hash_output k h)"
    if "encode_canonical_value ref_lib (hash_output k h) = Inr line" for k h line
    using read_json_encode [OF ref_lib_quote that] by simp
  then show ?thesis by (auto simp: reports_read_back_def fx_cli_def split: sum.splits)
qed

lemma fx_twin_digests: "tc_digests twin_tc"
  using fx_digests(1) by (simp add: twin_tc_def tc_digests_def)

lemma fx_task_hash:
  assumes "tc_validate c = Inr ()" and "tc_digests c" and "tc_commitment ref_lib c = Inr tc_hash"
    and "ce_file fx_cli path = Opened (fx_task_text c) None"
    and "print_json fx_cli (hash_output K_TaskCommitment tc_hash) True = Inr out"
  shows "main fx_cli (Hash K_TaskCommitment path True) = Exit_Success out"
    and "record_read ref_lib K_TaskCommitment (fx_task_text c) = Some (ETask c)"
proof -
  have L: "ce_lib fx_cli = ref_lib" by (simp add: fx_cli_def)
  show read: "record_read ref_lib K_TaskCommitment (fx_task_text c) = Some (ETask c)"
    using ref_lib_reads fx_task_text [OF assms(1)] assms(2) by (simp add: reads_records_def)
  have "kind_digest ref_lib K_TaskCommitment (fx_task_text c) = Inr tc_hash"
    unfolding kind_digest_ok using read fx_task_text_length [OF assms(1,2)] assms(3) by simp
  then show "main fx_cli (Hash K_TaskCommitment path True) = Exit_Success out"
    unfolding main_Success run_Hash read_bounded_ok
    using assms(4,5) fx_task_text_length [OF assms(1,2)] L by auto
qed

theorem cli_hash_identifies_witness:
  "\<exists>out. main fx_cli (Hash K_TaskCommitment ''task.json'' True) = Exit_Success out
     \<and> main fx_cli (Hash K_TaskCommitment ''twin.json'' True) = Exit_Success out
     \<and> collides ref_lib (ETask fx_tc) (ETask twin_tc)"
proof -
  have L: "ce_lib fx_cli = ref_lib" by (simp add: fx_cli_def)
  have files: "ce_file fx_cli ''task.json'' = Opened (fx_task_text fx_tc) None"
    "ce_file fx_cli ''twin.json'' = Opened (fx_task_text twin_tc) None" by (simp_all add: fx_cli_def)
  have "safe_numbers (hash_output K_TaskCommitment tc_hash)" by (simp add: hash_output_def jdigest_def)
  from fx_prints [OF this] obtain out
    where out: "print_json fx_cli (hash_output K_TaskCommitment tc_hash) True = Inr out" by blast
  note task = fx_task_hash [OF fx_tc_valid fx_digests(1) fx_commitments(1) files(1) out]
  note twin = fx_task_hash [OF twins_valid(1) fx_twin_digests twin_commitments(1) files(2) out]
  have "collides ref_lib (ETask fx_tc) (ETask twin_tc)"
    using cli_hash_identifies [OF _ fx_reports task(1) twin(1), unfolded L] task(2) twin(2) files
      ref_lib_quote twins_differ(1) by auto
  with task(1) twin(1) show ?thesis by blast
qed

text \<open>
  C36: What a failing run reports about its input. A file that cannot be opened, or that fails
  before one byte more than the limit was delivered, is reported as \<open>io_error\<close>; a longer one
  as \<open>transport_limit\<close>, whatever its content and however it ends; every other failure of
  either command has another code. The report is one object with \<open>valid\<close> false.
\<close>

theorem cli_input_errors:
  "case main E command of
     Exit_Success out \<Rightarrow>
       (\<exists>bytes. ce_file E (command_path command) = Opened bytes None \<and> length bytes \<le> 1048576)
   | Exit_Failure v \<Rightarrow>
       (\<exists>code text. v = JObject [(''code'', JString code), (''message'', JString text),
                                (''valid'', JBool False)]
          \<and> (code = ''io_error'' \<longleftrightarrow>
               (case ce_file E (command_path command) of
                  Unopened e \<Rightarrow> True
                | Opened bytes failure \<Rightarrow> length bytes \<le> 1048576 \<and> failure \<noteq> None))
          \<and> (code = ''transport_limit'' \<longleftrightarrow>
               (\<exists>bytes failure. ce_file E (command_path command) = Opened bytes failure
                  \<and> length bytes > 1048576)))"
proof (cases "run E command")
  case (Inr out)
  then have "\<exists>bytes. read_bounded E (command_path command) = Inr bytes"
    by (cases command) (auto simp: run_def rbind_ok)
  then have "\<exists>bytes. ce_file E (command_path command) = Opened bytes None \<and> length bytes \<le> 1048576"
    by (simp add: read_bounded_ok MAX_TRANSPORT_INPUT_BYTES_def)
  with Inr show ?thesis by (simp add: main_def)
next
  case (Inl e)
  have code: "cli_code e = ''io_error'' \<longleftrightarrow> (\<exists>t. e = CE_Io t)"
    "cli_code e = ''transport_limit'' \<longleftrightarrow> e = CE_InputTooLarge"
    by (cases e; simp)+
  note read = run_input_error [OF Inl] read_bounded_error [of E "command_path command"]
    read_bounded_ok [of E "command_path command"]
  have "cli_code e = ''io_error'' \<longleftrightarrow>
      (case ce_file E (command_path command) of Unopened e \<Rightarrow> True
       | Opened bytes failure \<Rightarrow> length bytes \<le> 1048576 \<and> failure \<noteq> None)"
    "cli_code e = ''transport_limit'' \<longleftrightarrow>
      (\<exists>bytes failure. ce_file E (command_path command) = Opened bytes failure \<and> length bytes > 1048576)"
    using read unfolding code MAX_TRANSPORT_INPUT_BYTES_def
    by (cases "ce_file E (command_path command)"; cases "input_error e";
        force simp: input_error_def split: if_splits)+
  then show ?thesis
    using Inl by (auto simp: main_def error_json_entries)
qed

end
