(* ===== verification/Core_Tests.thy ===== *)
theory Core_Tests
  imports Test_Harness Memory_Invariant Parsing
begin

text \<open>
  The unit tests of crates/effect-transaction-core/src/lib.rs, as executable definitions over the
  model, one per test function and for every library \<open>L\<close>. A property test is the predicate that it
  checks of one generated input. That they pass is shown in \<open>Core_Tests_Pass\<close>.
\<close>

section \<open>Fixture\<close>

text \<open>The records of \<open>fixture\<close>, with the commitments they contain as arguments.\<close>

definition test_commitment :: "lib \<Rightarrow> task_commitment" where
  "test_commitment L = \<lparr>tc_version = 1, tc_commitment_id = ''task-1'', tc_principal = ''user:alice'',
     tc_objective_digest = from_payload L ''objective'',
     tc_constraints_digest = from_payload L ''constraints'',
     tc_authority_scope_digest = from_payload L ''authority'', tc_policy_epoch = 7,
     tc_configuration_epoch = 3, tc_created_at_ms = 1000, tc_expires_at_ms = 20000\<rparr>"

definition test_proposal :: "lib \<Rightarrow> digest32 \<Rightarrow> effect_proposal" where
  "test_proposal L commitment_hash = \<lparr>ep_version = 1, ep_proposal_id = ''proposal-1'',
     ep_commitment_hash = commitment_hash, ep_effect_profile = ''mcp/tool-call@1'',
     ep_operation = ''filesystem.write'', ep_target = ''workspace:/report.md'',
     ep_arguments_digest = from_payload L ''arguments'',
     ep_expected_effect_digest = from_payload L ''expected effect'',
     ep_pre_state_digest = from_payload L ''pre-state'',
     ep_resource_claim_digest = from_payload L ''resources'',
     ep_created_at_ms = 2000, ep_expires_at_ms = 15000\<rparr>"

definition test_decision :: "lib \<Rightarrow> digest32 \<Rightarrow> authorization_decision" where
  "test_decision L proposal_hash = \<lparr>ad_version = 1, ad_decision_id = ''decision-1'',
     ad_proposal_hash = proposal_hash, ad_evidence_hashes = [from_payload L ''evidence''],
     ad_outcome = Allow, ad_reason_codes = [''policy_allow''], ad_decided_at_ms = 3000,
     ad_expires_at_ms = 10000\<rparr>"

definition test_grant :: "digest32 \<Rightarrow> digest32 \<Rightarrow> execution_grant" where
  "test_grant proposal_hash decision_hash = \<lparr>eg_version = 1, eg_grant_id = ''grant-1'',
     eg_proposal_hash = proposal_hash, eg_decision_hash = decision_hash,
     eg_audience = ''executor:local'', eg_not_before_ms = 3000, eg_expires_at_ms = 9000,
     eg_uses = 1, eg_nonce = ''bm9uY2UtZm9yLWdyYW50LTE''\<rparr>"

definition test_receipt :: "lib \<Rightarrow> digest32 \<Rightarrow> digest32 \<Rightarrow> effect_receipt" where
  "test_receipt L proposal_hash grant_hash = \<lparr>er_version = 1, er_receipt_id = ''receipt-1'',
     er_proposal_hash = proposal_hash, er_grant_hash = grant_hash, er_attempt_id = ''attempt-1'',
     er_claimed_at_ms = 4000, er_dispatched_at_ms = Some 4100, er_completed_at_ms = 4200,
     er_outcome = Unknown, er_observation_digest = from_payload L ''timeout after dispatch''\<rparr>"

definition core_fixture ::
    "lib \<Rightarrow> protocol_error + task_commitment \<times> effect_proposal \<times> authorization_decision
       \<times> execution_grant \<times> effect_receipt" where
  "core_fixture L =
     (let commitment = test_commitment L in
      rbind (tc_commitment L commitment) (\<lambda>commitment_hash.
      let proposal = test_proposal L commitment_hash in
      rbind (ep_commitment L proposal) (\<lambda>proposal_hash.
      let decision = test_decision L proposal_hash in
      rbind (ad_commitment L decision) (\<lambda>decision_hash.
      let grant = test_grant proposal_hash decision_hash in
      rbind (eg_commitment L grant) (\<lambda>grant_hash.
      let receipt = test_receipt L proposal_hash grant_hash in
      Inr (commitment, proposal, decision, grant, receipt))))))"

definition test_claim_request :: "task_commitment \<Rightarrow> effect_proposal \<Rightarrow> string \<Rightarrow> grant_claim_request" where
  "test_claim_request commitment proposal attempt_id =
     \<lparr>gr_attempt_id = attempt_id, gr_expected_audience = ''executor:local'',
      gr_observed_policy_epoch = tc_policy_epoch commitment,
      gr_observed_configuration_epoch = tc_configuration_epoch commitment,
      gr_observed_pre_state_digest = ep_pre_state_digest proposal,
      gr_observed_resource_claim_digest = ep_resource_claim_digest proposal, gr_revoked = False\<rparr>"

definition test_reconciliation ::
    "lib \<Rightarrow> digest32 \<Rightarrow> reconciliation_outcome \<Rightarrow> string \<Rightarrow> reconciliation_record" where
  "test_reconciliation L receipt_hash outcome evidence =
     \<lparr>rr_version = 1, rr_reconciliation_id = ''reconciliation-1'', rr_receipt_hash = receipt_hash,
      rr_sequence = 1, rr_parent_reconciliation_hash = None, rr_observed_at_ms = 5000,
      rr_outcome = outcome, rr_evidence_digest = from_payload L evidence\<rparr>"

text \<open>The test body after \<open>fixture()?\<close>.\<close>

definition with_core_fixture ::
    "lib \<Rightarrow> (task_commitment \<Rightarrow> effect_proposal \<Rightarrow> authorization_decision \<Rightarrow> execution_grant
       \<Rightarrow> effect_receipt \<Rightarrow> protocol_error failure + unit) \<Rightarrow> protocol_error failure + unit" where
  "with_core_fixture L body = rbind (attempt (core_fixture L)) (\<lambda>(c, p, d, g, r). body c p d g r)"

section \<open>Verification\<close>

definition verifies_complete_chain_and_reconciliation :: "lib \<Rightarrow> protocol_error failure + unit" where
  "verifies_complete_chain_and_reconciliation L =
     with_core_fixture L (\<lambda>commitment proposal decision grant receipt.
       rbind (attempt (verify_chain L commitment proposal decision grant receipt)) (\<lambda>chain.
       let reconciliation = test_reconciliation L (vc_receipt_hash chain) EffectConfirmed
                              ''authoritative observation'' in
       rbind (attempt (verify_reconciliation L receipt None reconciliation)) (\<lambda>_.
       Inr ())))"

definition verifies_every_portable_lifecycle_prefix :: "lib \<Rightarrow> protocol_error failure + unit" where
  "verifies_every_portable_lifecycle_prefix L =
     with_core_fixture L (\<lambda>commitment proposal decision grant receipt.
       let bundle = \<lparr>tb_commitment = commitment, tb_proposal = proposal, tb_decision = decision,
                     tb_grant = None, tb_receipt = None, tb_reconciliations = []\<rparr> in
       rbind (attempt (verify_transaction L bundle)) (\<lambda>v.
       rbind (assert_that (vt_state v = TS_Decided)) (\<lambda>_.
       let bundle = bundle\<lparr>tb_grant := Some grant\<rparr> in
       rbind (attempt (verify_transaction L bundle)) (\<lambda>v.
       rbind (assert_that (vt_state v = TS_Granted)) (\<lambda>_.
       let bundle = bundle\<lparr>tb_receipt := Some receipt\<rparr> in
       rbind (attempt (verify_transaction L bundle)) (\<lambda>v.
       rbind (assert_that (vt_state v = TS_Unknown)) (\<lambda>_.
       rbind (attempt (er_commitment L receipt)) (\<lambda>receipt_hash.
       let bundle = bundle\<lparr>tb_reconciliations := tb_reconciliations bundle @
             [test_reconciliation L receipt_hash EffectConfirmed ''target audit event'']\<rparr> in
       rbind (attempt (verify_transaction L bundle)) (\<lambda>verified.
       rbind (assert_that (vt_state verified = TS_EffectConfirmed)) (\<lambda>_.
       rbind (assert_that (length (vt_reconciliation_hashes verified) = 1)) (\<lambda>_.
       Inr ())))))))))))"

definition duplicate_bundle_text :: string where
  "duplicate_bundle_text =
     ''{\"commitment\":{},\"commitment\":{},\"proposal\":{},\"decision\":{},\"grant\":null,\"receipt\":null,\"reconciliations\":[]}''"

definition portable_bundle_rejects_missing_predecessors_and_duplicate_json_fields ::
    "lib \<Rightarrow> protocol_error failure + unit" where
  "portable_bundle_rejects_missing_predecessors_and_duplicate_json_fields L =
     with_core_fixture L (\<lambda>commitment proposal decision _ receipt.
       let invalid = \<lparr>tb_commitment = commitment, tb_proposal = proposal, tb_decision = decision,
                      tb_grant = None, tb_receipt = Some receipt, tb_reconciliations = []\<rparr> in
       rbind (assert_that (verify_transaction L invalid = Inl (MissingPredecessor ''grant''))) (\<lambda>_.
       rbind (assert_that (parse_transaction_bundle L duplicate_bundle_text = Inl Json)) (\<lambda>_.
       Inr ())))"

fun chain_mismatch :: "protocol_error + 'a \<Rightarrow> bool" where
  "chain_mismatch (Inl (ChainMismatch _)) = True"
| "chain_mismatch _ = False"

definition substituted_proposal_is_rejected :: "lib \<Rightarrow> protocol_error failure + unit" where
  "substituted_proposal_is_rejected L =
     with_core_fixture L (\<lambda>commitment proposal decision grant receipt.
       let proposal = proposal\<lparr>ep_target := ''workspace:/different.md''\<rparr> in
       let result = verify_chain L commitment proposal decision grant receipt in
       rbind (assert_that (chain_mismatch result)) (\<lambda>_.
       Inr ()))"

section \<open>The in-memory store\<close>

text \<open>
  The twelve threads of the concurrency test call \<open>claim\<close> on one store. Each call takes the lock
  once, so an execution is an order of the calls, here the order of the worker indices.
\<close>

fun claims_in_order ::
    "lib \<Rightarrow> task_commitment \<Rightarrow> effect_proposal \<Rightarrow> execution_grant \<Rightarrow> nat list
       \<Rightarrow> memory_grant_store \<Rightarrow> bool list" where
  "claims_in_order L commitment proposal grant [] store = []"
| "claims_in_order L commitment proposal grant (index # rest) store =
     (let request = test_claim_request commitment proposal (''attempt-'' @ decimal index) in
      case memory_claim L grant request (Some 4000) store of
        (result, store') \<Rightarrow>
          (\<not> isl result) # claims_in_order L commitment proposal grant rest store')"

definition only_one_concurrent_claim_succeeds :: "lib \<Rightarrow> nat list \<Rightarrow> protocol_error failure + unit" where
  "only_one_concurrent_claim_succeeds L order =
     with_core_fixture L (\<lambda>commitment proposal decision grant _.
       call (memory_register L commitment proposal decision grant) (\<lambda>_ store.
         rbind (assert_that
           (length (filter id (claims_in_order L commitment proposal grant order store)) = 1)) (\<lambda>_.
         Inr ())) memory_default)"

definition one_decision_can_issue_only_one_grant :: "lib \<Rightarrow> protocol_error failure + unit" where
  "one_decision_can_issue_only_one_grant L =
     with_core_fixture L (\<lambda>commitment proposal decision grant _.
       call (memory_register L commitment proposal decision grant) (\<lambda>_.
         let second = grant\<lparr>eg_grant_id := ''grant-2'', eg_nonce := ''c2Vjb25kLWdyYW50LW5vbmNlLTI''\<rparr> in
         observe (memory_register L commitment proposal decision second) (\<lambda>r.
         and_then (assert_that (r = Inl DecisionAlreadyGranted))
         passed)) memory_default)"

definition one_proposal_cannot_be_reauthorized_into_another_grant ::
    "lib \<Rightarrow> protocol_error failure + unit" where
  "one_proposal_cannot_be_reauthorized_into_another_grant L =
     with_core_fixture L (\<lambda>commitment proposal decision grant _.
       call (memory_register L commitment proposal decision grant) (\<lambda>_ store.
         let second_decision = decision\<lparr>ad_decision_id := ''decision-2'',
               ad_reason_codes := [''policy_allow_after_retry'']\<rparr> in
         rbind (attempt (ad_commitment L second_decision)) (\<lambda>second_decision_hash.
         let second_grant = grant\<lparr>eg_grant_id := ''grant-2'',
               eg_decision_hash := second_decision_hash,
               eg_nonce := ''c2Vjb25kLWdyYW50LW5vbmNlLTI''\<rparr> in
         observe (memory_register L commitment proposal second_decision second_grant) (\<lambda>r.
         and_then (assert_that (r = Inl ProposalAlreadyGranted))
         passed) store)) memory_default)"

definition claim_rechecks_currentness_and_records_attempt :: "lib \<Rightarrow> protocol_error failure + unit" where
  "claim_rechecks_currentness_and_records_attempt L =
     with_core_fixture L (\<lambda>commitment proposal decision grant _.
       call (memory_register L commitment proposal decision grant) (\<lambda>_.
       let request = test_claim_request commitment proposal ''attempt-current'' in
       let stale = request\<lparr>gr_observed_configuration_epoch :=
                             gr_observed_configuration_epoch request + 1\<rparr> in
       observe (memory_claim L grant stale (Some 4000)) (\<lambda>r.
       and_then (assert_that (r = Inl StaleAuthority))
       (let revoked = request\<lparr>gr_revoked := True\<rparr> in
       observe (memory_claim L grant revoked (Some 4000)) (\<lambda>r.
       and_then (assert_that (r = Inl GrantRevoked))
       (observe (memory_claim L grant request (Some 3999)) (\<lambda>r.
       and_then (assert_that (r = Inl ClockRollback))
       (call (memory_claim L grant request (Some 4000)) (\<lambda>claim.
       and_then (assert_that (gc_attempt_id claim = ''attempt-current''))
       (and_then (assert_that (gc_claimed_at_ms claim = 4000))
       passed))))))))) memory_default)"

definition canonical_receipt_and_reconciliation_history_is_fork_free ::
    "lib \<Rightarrow> protocol_error failure + unit" where
  "canonical_receipt_and_reconciliation_history_is_fork_free L =
     with_core_fixture L (\<lambda>commitment proposal decision grant receipt.
       call (memory_register L commitment proposal decision grant) (\<lambda>_.
       let request = test_claim_request commitment proposal ''attempt-1'' in
       call (memory_claim L grant request (Some 4000)) (\<lambda>_.
       call (memory_record_receipt L receipt) (\<lambda>receipt_hash.
       call (memory_record_receipt L receipt) (\<lambda>again.
       and_then (assert_that (again = receipt_hash))
       (let conflicting = receipt\<lparr>er_observation_digest := from_payload L ''conflicting observation''\<rparr> in
       observe (memory_record_receipt L conflicting) (\<lambda>r.
       and_then (assert_that (r = Inl ReceiptAlreadyRecorded))
       (let reconciliation = test_reconciliation L receipt_hash StillUnknown ''first observation'' in
       call (memory_append_reconciliation L reconciliation) (\<lambda>reconciliation_hash.
       call (memory_append_reconciliation L reconciliation) (\<lambda>again.
       and_then (assert_that (again = reconciliation_hash))
       (let fork = reconciliation\<lparr>rr_reconciliation_id := ''reconciliation-fork'',
                     rr_evidence_digest := from_payload L ''contradictory branch''\<rparr> in
       observe (memory_append_reconciliation L fork) (\<lambda>r.
       and_then (assert_that (r = Inl ReconciliationFork))
       passed))))))))))) memory_default)"

definition store_rejects_proposal_outside_committed_window :: "lib \<Rightarrow> protocol_error failure + unit" where
  "store_rejects_proposal_outside_committed_window L =
     with_core_fixture L (\<lambda>commitment proposal decision grant _.
       let proposal = proposal\<lparr>ep_expires_at_ms := tc_expires_at_ms commitment + 1\<rparr> in
       rbind (attempt (ep_commitment L proposal)) (\<lambda>proposal_hash.
       let decision = decision\<lparr>ad_proposal_hash := proposal_hash\<rparr> in
       rbind (attempt (ad_commitment L decision)) (\<lambda>decision_hash.
       let grant = grant\<lparr>eg_proposal_hash := ad_proposal_hash decision,
                         eg_decision_hash := decision_hash\<rparr> in
       observe (memory_register L commitment proposal decision grant) (\<lambda>r.
       and_then (assert_that (r = Inl (InvalidNestedWindow ''proposal'')))
       passed) memory_default)))"

definition store_rejects_decision_outside_proposal_window :: "lib \<Rightarrow> protocol_error failure + unit" where
  "store_rejects_decision_outside_proposal_window L =
     with_core_fixture L (\<lambda>commitment proposal decision grant _.
       let decision = decision\<lparr>ad_expires_at_ms := ep_expires_at_ms proposal + 1\<rparr> in
       rbind (attempt (ad_commitment L decision)) (\<lambda>decision_hash.
       let grant = grant\<lparr>eg_decision_hash := decision_hash\<rparr> in
       observe (memory_register L commitment proposal decision grant) (\<lambda>r.
       and_then (assert_that (r = Inl (InvalidNestedWindow ''decision'')))
       passed) memory_default))"

section \<open>Canonical JSON\<close>

definition canonical_json_is_key_order_independent :: "lib \<Rightarrow> protocol_error failure + unit" where
  "canonical_json_is_key_order_independent L =
     rbind (attempt (ok_or (read_json ''{\"z\":1,\"a\":{\"b\":2,\"a\":1}}'') Json)) (\<lambda>first.
     rbind (attempt (ok_or (read_json ''{\"a\":{\"a\":1,\"b\":2},\"z\":1}'') Json)) (\<lambda>second.
     rbind (attempt (canonical_json L first)) (\<lambda>left.
     rbind (attempt (canonical_json L second)) (\<lambda>right.
     rbind (assert_that (left = right)) (\<lambda>_.
     Inr ())))))"

definition floats_and_unsafe_integers_are_rejected :: "lib \<Rightarrow> protocol_error failure + unit" where
  "floats_and_unsafe_integers_are_rejected L =
     (let float = JObject [(''value'', JNumber JFloat)] in
      let unsafe_integer = JObject [(''value'', JNumber (JInt (uint (MAX_SAFE_INTEGER + 1))))] in
      rbind (assert_that (canonical_json L float = Inl UnsafeJsonNumber)) (\<lambda>_.
      rbind (assert_that (canonical_json L unsafe_integer = Inl UnsafeJsonNumber)) (\<lambda>_.
      Inr ())))"

definition canonicalizer_rejects_excessive_nesting :: "lib \<Rightarrow> protocol_error failure + unit" where
  "canonicalizer_rejects_excessive_nesting L =
     (let value = ((\<lambda>value. JArray [value]) ^^ MAX_CANONICAL_NESTING_DEPTH) JNull in
      rbind (assert_that (canonical_json L value = Inl (ResourceLimit ''JSON nesting depth''))) (\<lambda>_.
      Inr ()))"

section \<open>Limits of fields and inputs\<close>

definition enforces_core_field_and_lifetime_limits :: "lib \<Rightarrow> protocol_error failure + unit" where
  "enforces_core_field_and_lifetime_limits L =
     with_core_fixture L (\<lambda>_ proposal decision grant _.
       let proposal = proposal\<lparr>ep_operation := ''Filesystem.Write''\<rparr> in
       rbind (assert_that (ep_validate proposal = Inl (InvalidToken ''operation''))) (\<lambda>_.
       let decision = decision\<lparr>ad_reason_codes := []\<rparr> in
       rbind (assert_that (ad_validate decision = Inl MissingReasonCode)) (\<lambda>_.
       let grant = grant\<lparr>eg_expires_at_ms := eg_not_before_ms grant + MAX_GRANT_LIFETIME_MS + 1\<rparr> in
       rbind (assert_that (eg_validate grant = Inl GrantLifetimeExceeded)) (\<lambda>_.
       Inr ()))))"

text \<open>The two bytes of the letter e with an acute accent, repeated.\<close>

definition accented :: "nat \<Rightarrow> string" where
  "accented n = concat (replicate n [CHR 0xC3, CHR 0xA9])"

definition field_limits_count_utf8_bytes_not_unicode_scalars :: "lib \<Rightarrow> protocol_error failure + unit" where
  "field_limits_count_utf8_bytes_not_unicode_scalars L =
     with_core_fixture L (\<lambda>commitment _ _ _ _.
       let commitment = commitment\<lparr>tc_commitment_id := accented 256\<rparr> in
       rbind (assert_that (length (chars (tc_commitment_id commitment)) = 256)) (\<lambda>_.
       rbind (assert_that (length (tc_commitment_id commitment) = 512)) (\<lambda>_.
       rbind (assert_that (tc_validate commitment = Inl (InvalidBinding ''commitment_id''))) (\<lambda>_.
       Inr ()))))"

text \<open>The two JSON string literals, without their quotes.\<close>

definition malformed_digests_fail_during_deserialization :: "protocol_error failure + unit" where
  "malformed_digests_fail_during_deserialization =
     checks (map (\<lambda>value. assert_that (deserialize_digest value = None))
       [''garbage'', ''sha256:0000000000000000000000000000000000000000000000000000000000000000''])"

text \<open>
  \<open>serde_json::to_string\<close> of a struct: the entries in declaration order, without spaces; and
  \<open>str::replacen\<close> with count 1.
\<close>

definition to_string :: "lib \<Rightarrow> jvalue \<Rightarrow> protocol_error + string" where
  "to_string L v =
     (case v of
        JObject kvs \<Rightarrow>
          rbind (traverse (encode_entry L) kvs) (\<lambda>ps. Inr (CHR ''{'' # join_comma ps @ ''}''))
      | _ \<Rightarrow> encode_canonical_value L v)"

fun replace_first :: "string \<Rightarrow> string \<Rightarrow> string \<Rightarrow> string" where
  "replace_first old new [] = (if old = [] then new else [])"
| "replace_first old new (c # s) =
     (case strip_prefix (c # s) old of
        Some rest \<Rightarrow> new @ rest
      | None \<Rightarrow> c # replace_first old new s)"

definition strict_record_parser_rejects_duplicate_fields_and_oversized_input ::
    "lib \<Rightarrow> protocol_error failure + unit" where
  "strict_record_parser_rejects_duplicate_fields_and_oversized_input L =
     with_core_fixture L (\<lambda>commitment _ _ _ _.
       rbind (attempt (to_string L (tc_value commitment))) (\<lambda>encoded.
       let duplicate = replace_first ''\"commitment_id\":\"task-1\"''
             ''\"commitment_id\":\"task-1\",\"commitment_id\":\"task-2\"'' encoded in
       rbind (assert_that (isl (parse_tc L duplicate))) (\<lambda>_.
       let oversized = replicate (MAX_TRANSPORT_INPUT_BYTES + 1) CHR '' '' in
       rbind (assert_that (parse_tc L oversized = Inl (ResourceLimit ''transport bytes''))) (\<lambda>_.
       Inr ()))))"

definition receipt_distinguishes_not_dispatched_from_unknown :: "lib \<Rightarrow> protocol_error failure + unit" where
  "receipt_distinguishes_not_dispatched_from_unknown L =
     with_core_fixture L (\<lambda>_ _ _ _ receipt.
       let receipt = receipt\<lparr>er_outcome := NotDispatched, er_dispatched_at_ms := None\<rparr> in
       rbind (attempt (er_validate receipt)) (\<lambda>_.
       let receipt = receipt\<lparr>er_outcome := Succeeded\<rparr> in
       rbind (assert_that (er_validate receipt = Inl MissingDispatchEvidence)) (\<lambda>_.
       let receipt = receipt\<lparr>er_outcome := Unknown\<rparr> in
       rbind (attempt (er_validate receipt)) (\<lambda>_.
       Inr ()))))"

section \<open>Property tests\<close>

text \<open>What each property test asserts of one generated input.\<close>

definition arbitrary_bounded_json_bytes_never_panic_or_skip_validation :: "lib \<Rightarrow> string \<Rightarrow> bool" where
  "arbitrary_bounded_json_bytes_never_panic_or_skip_validation L input \<longleftrightarrow>
     (case parse_tc L input of
        Inr record \<Rightarrow> tc_validate record = Inr () \<and> \<not> isl (canonical_json L (tc_value record))
      | Inl _ \<Rightarrow> True)
     \<and> (case parse_transaction_bundle L input of
          Inr bundle \<Rightarrow> \<not> isl (verify_transaction L bundle)
        | Inl _ \<Rightarrow> True)"

text \<open>\<open>Vec::resize\<close>: truncate, or extend with copies of the fill byte.\<close>

definition resize :: "nat \<Rightarrow> 'a \<Rightarrow> 'a list \<Rightarrow> 'a list" where
  "resize n fill xs = take n xs @ replicate (n - length xs) fill"

definition bytes_over_transport_limit_are_rejected_before_parsing ::
    "lib \<Rightarrow> string \<Rightarrow> char \<Rightarrow> nat \<Rightarrow> bool" where
  "bytes_over_transport_limit_are_rejected_before_parsing L start fill excess \<longleftrightarrow>
     (let input = resize (MAX_TRANSPORT_INPUT_BYTES + excess) fill start in
      parse_tc L input = Inl (ResourceLimit ''transport bytes'')
      \<and> parse_transaction_bundle L input = Inl (ResourceLimit ''transport bytes''))"

end
