(* ===== verification/Core_Tests_Pass.thy ===== *)
theory Core_Tests_Pass
  imports Core_Tests Fixtures Lifecycle_Spec
begin

text \<open>
  The unit tests of the core crate pass on the model, for every library whose JSON string encoder
  never fails. Where a test relies on two texts having different hashes, that is a hypothesis about
  these two texts (\<open>collides\<close> or the hash of the two payloads); where it relies on a deserializer
  refusing a text, the hypothesis is that refusal.
\<close>

section \<open>The fixture\<close>

lemma test_records_valid:
  "tc_validate (test_commitment L) = Inr ()" "ep_validate (test_proposal L ch) = Inr ()"
  "ad_validate (test_decision L ph) = Inr ()" "eg_validate (test_grant ph dh) = Inr ()"
  "er_validate (test_receipt L ph gh) = Inr ()"
  "rr_validate (test_reconciliation L rh outcome e) = Inr ()"
  by (simp_all add: tc_validate_def test_commitment_def ep_validate_def test_proposal_def
      ad_validate_def test_decision_def eg_validate_def test_grant_def er_validate_def
      test_receipt_def rr_validate_def test_reconciliation_def validate_sorted_unique_digests_def
      validate_sorted_unique_tokens_def text_eval)

lemma valid_commits:
  assumes "quotes L"
  shows "tc_validate c = Inr () \<Longrightarrow> \<exists>h. tc_commitment L c = Inr h"
    and "ep_validate p = Inr () \<Longrightarrow> \<exists>h. ep_commitment L p = Inr h"
    and "ad_validate d = Inr () \<Longrightarrow> \<exists>h. ad_commitment L d = Inr h"
    and "eg_validate g = Inr () \<Longrightarrow> \<exists>h. eg_commitment L g = Inr h"
    and "er_validate r = Inr () \<Longrightarrow> \<exists>h. er_commitment L r = Inr h"
    and "rr_validate x = Inr () \<Longrightarrow> \<exists>h. rr_commitment L x = Inr h"
  unfolding commitment_defs
  by (simp_all add: tc.commitment_ok_iff ep.commitment_ok_iff ad.commitment_ok_iff
      eg.commitment_ok_iff er.commitment_ok_iff rr.commitment_ok_iff assms)

abbreviation test_authorization ::
    "digest32 \<Rightarrow> digest32 \<Rightarrow> digest32 \<Rightarrow> digest32 \<Rightarrow> verified_authorization" where
  "test_authorization ch ph dh gh \<equiv> \<lparr>va_commitment_hash = ch, va_proposal_hash = ph,
     va_decision_hash = dh, va_grant_hash = gh\<rparr>"

definition fixture_hashes ::
    "lib \<Rightarrow> digest32 \<Rightarrow> digest32 \<Rightarrow> digest32 \<Rightarrow> digest32 \<Rightarrow> digest32 \<Rightarrow> bool" where
  "fixture_hashes L ch ph dh gh rh \<longleftrightarrow>
     tc_commitment L (test_commitment L) = Inr ch \<and> ep_commitment L (test_proposal L ch) = Inr ph
     \<and> ad_commitment L (test_decision L ph) = Inr dh \<and> eg_commitment L (test_grant ph dh) = Inr gh
     \<and> er_commitment L (test_receipt L ph gh) = Inr rh"

lemma with_core_fixture:
  assumes "quotes L"
    and "\<And>ch ph dh gh rh. fixture_hashes L ch ph dh gh rh \<Longrightarrow>
      body (test_commitment L) (test_proposal L ch) (test_decision L ph) (test_grant ph dh)
        (test_receipt L ph gh) = Inr ()"
  shows "with_core_fixture L body = Inr ()"
proof -
  note valid = valid_commits [OF assms(1)] and ok = test_records_valid
  obtain ch where ch: "tc_commitment L (test_commitment L) = Inr ch" using valid(1) ok(1) by blast
  obtain ph where ph: "ep_commitment L (test_proposal L ch) = Inr ph" using valid(2) ok(2) by blast
  obtain dh where dh: "ad_commitment L (test_decision L ph) = Inr dh" using valid(3) ok(3) by blast
  obtain gh where gh: "eg_commitment L (test_grant ph dh) = Inr gh" using valid(4) ok(4) by blast
  obtain rh where "er_commitment L (test_receipt L ph gh) = Inr rh" using valid(5) ok(5) by blast
  with ch ph dh gh assms(2) [of ch ph dh gh rh] show ?thesis
    by (simp add: with_core_fixture_def core_fixture_def fixture_hashes_def Let_def)
qed

text \<open>The fixture verifies at every stage of the lifecycle.\<close>

lemma fixture_verifies:
  assumes "fixture_hashes L ch ph dh gh rh"
  shows "verify_decision L (test_commitment L) (test_proposal L ch) (test_decision L ph)
      = Inr \<lparr>vd_commitment_hash = ch, vd_proposal_hash = ph, vd_decision_hash = dh\<rparr>"
    and "verify_authorization L (test_commitment L) (test_proposal L ch) (test_decision L ph)
        (test_grant ph dh)
      = Inr (test_authorization ch ph dh gh)"
    and "verify_chain L (test_commitment L) (test_proposal L ch) (test_decision L ph)
        (test_grant ph dh) (test_receipt L ph gh)
      = Inr \<lparr>vc_commitment_hash = ch, vc_proposal_hash = ph, vc_decision_hash = dh,
             vc_grant_hash = gh, vc_receipt_hash = rh\<rparr>"
proof -
  show d: "verify_decision L (test_commitment L) (test_proposal L ch) (test_decision L ph)
      = Inr \<lparr>vd_commitment_hash = ch, vd_proposal_hash = ph, vd_decision_hash = dh\<rparr>"
    using assms by (simp add: verify_decision_ok fixture_hashes_def)
      (simp add: test_commitment_def test_proposal_def test_decision_def)
  show a: "verify_authorization L (test_commitment L) (test_proposal L ch) (test_decision L ph)
        (test_grant ph dh)
      = Inr (test_authorization ch ph dh gh)"
    using assms d by (simp only: verify_authorization_ok verified_authorization.simps)
      (simp add: fixture_hashes_def, simp add: test_decision_def test_grant_def)
  show "verify_chain L (test_commitment L) (test_proposal L ch) (test_decision L ph)
        (test_grant ph dh) (test_receipt L ph gh)
      = Inr \<lparr>vc_commitment_hash = ch, vc_proposal_hash = ph, vc_decision_hash = dh,
             vc_grant_hash = gh, vc_receipt_hash = rh\<rparr>"
    using assms a by (simp only: verify_chain_ok verified_chain.simps)
      (simp add: fixture_hashes_def, simp add: test_receipt_def test_grant_def)
qed

lemma reconciliation_verifies:
  assumes "fixture_hashes L ch ph dh gh rh" and "quotes L"
  obtains xh where "rr_commitment L (test_reconciliation L rh outcome e) = Inr xh"
    and "verify_reconciliation L (test_receipt L ph gh) None (test_reconciliation L rh outcome e) = Inr xh"
proof -
  obtain xh where "rr_commitment L (test_reconciliation L rh outcome e) = Inr xh"
    using valid_commits(6) [OF assms(2)] test_records_valid(6) by blast
  moreover from this assms(1)
  have "verify_reconciliation L (test_receipt L ph gh) None (test_reconciliation L rh outcome e) = Inr xh"
    by (simp add: verify_reconciliation_ok evidence_for_def follows_def fixture_hashes_def)
       (simp add: test_reconciliation_def test_receipt_def)
  ultimately show ?thesis by (rule that)
qed

section \<open>Verification\<close>

lemma verifies_complete_chain_and_reconciliation_passes:
  assumes "quotes L"
  shows "verifies_complete_chain_and_reconciliation L = Inr ()"
  unfolding verifies_complete_chain_and_reconciliation_def
proof (rule with_core_fixture [OF assms], goal_cases)
  case (1 ch ph dh gh rh)
  obtain xh where "verify_reconciliation L (test_receipt L ph gh) None
      (test_reconciliation L rh EffectConfirmed ''authoritative observation'') = Inr xh"
    using reconciliation_verifies [OF 1 assms] .
  then show ?case by (simp add: fixture_verifies [OF 1])
qed

lemma verifies_every_portable_lifecycle_prefix_passes:
  assumes "quotes L"
  shows "verifies_every_portable_lifecycle_prefix L = Inr ()"
  unfolding verifies_every_portable_lifecycle_prefix_def
proof (rule with_core_fixture [OF assms], goal_cases)
  case (1 ch ph dh gh rh)
  let ?x = "test_reconciliation L rh EffectConfirmed ''target audit event''"
  obtain xh where "verify_reconciliation L (test_receipt L ph gh) None ?x = Inr xh"
    using reconciliation_verifies [OF 1 assms] .
  moreover have "er_outcome (test_receipt L ph gh) = Unknown" "rr_outcome ?x = EffectConfirmed"
    by (simp_all add: test_receipt_def test_reconciliation_def)
  moreover have "er_commitment L (test_receipt L ph gh) = Inr rh"
    using 1 by (simp add: fixture_hashes_def)
  ultimately show ?case
    by (simp add: verify_transaction_def verify_grant_def fixture_verifies [OF 1]
        MAX_RECONCILIATION_RECORDS_def)
qed

lemma portable_bundle_rejects_missing_predecessors_and_duplicate_json_fields_passes:
  assumes "quotes L" and "from_json_tb L duplicate_bundle_text = None"
  shows "portable_bundle_rejects_missing_predecessors_and_duplicate_json_fields L = Inr ()"
  unfolding portable_bundle_rejects_missing_predecessors_and_duplicate_json_fields_def
proof (rule with_core_fixture [OF assms(1)], goal_cases)
  case (1 ch ph dh gh rh)
  have "parse_transaction_bundle L duplicate_bundle_text = Inl Json"
    using assms(2) by (simp add: parse_transaction_bundle_def MAX_TRANSPORT_INPUT_BYTES_def
        duplicate_bundle_text_def)
  then show ?case
    by (simp add: verify_transaction_def fixture_verifies [OF 1] MAX_RECONCILIATION_RECORDS_def)
qed

text \<open>Different records have different commitments, unless their hashed texts collide.\<close>

lemma different_commitments:
  assumes "quote_conforms L"
  shows "ep_commitment L p = Inr h \<Longrightarrow> ep_commitment L q = Inr k \<Longrightarrow> p \<noteq> q
      \<Longrightarrow> \<not> collides L (EProposal p) (EProposal q) \<Longrightarrow> h \<noteq> k"
    and "ad_commitment L d = Inr h \<Longrightarrow> ad_commitment L e = Inr k \<Longrightarrow> d \<noteq> e
      \<Longrightarrow> \<not> collides L (EDecision d) (EDecision e) \<Longrightarrow> h \<noteq> k"
    and "er_commitment L r = Inr h \<Longrightarrow> er_commitment L t = Inr k \<Longrightarrow> r \<noteq> t
      \<Longrightarrow> \<not> collides L (EReceipt r) (EReceipt t) \<Longrightarrow> h \<noteq> k"
    and "rr_commitment L x = Inr h \<Longrightarrow> rr_commitment L y = Inr k \<Longrightarrow> x \<noteq> y
      \<Longrightarrow> \<not> collides L (EReconciliation x) (EReconciliation y) \<Longrightarrow> h \<noteq> k"
  using record_commitment_binding [OF assms, of "EProposal p" h "EProposal q"]
    record_commitment_binding [OF assms, of "EDecision d" h "EDecision e"]
    record_commitment_binding [OF assms, of "EReceipt r" h "EReceipt t"]
    record_commitment_binding [OF assms, of "EReconciliation x" h "EReconciliation y"]
  by auto

lemma substituted_proposal_is_rejected_passes:
  assumes "quote_conforms L"
    and "\<And>ch. tc_commitment L (test_commitment L) = Inr ch \<Longrightarrow>
      \<not> collides L (EProposal (test_proposal L ch))
          (EProposal (test_proposal L ch\<lparr>ep_target := ''workspace:/different.md''\<rparr>))"
  shows "substituted_proposal_is_rejected L = Inr ()"
  unfolding substituted_proposal_is_rejected_def
proof (rule with_core_fixture [OF quote_conforms_quotes [OF assms(1)]], goal_cases)
  case (1 ch ph dh gh rh)
  let ?p = "test_proposal L ch\<lparr>ep_target := ''workspace:/different.md''\<rparr>"
  have "ep_validate ?p = Inr ()"
    by (simp add: ep_validate_def test_proposal_def text_eval)
  then obtain qh where qh: "ep_commitment L ?p = Inr qh" using valid_commits(2) [OF quote_conforms_quotes [OF assms(1)]] by blast
  moreover have "test_proposal L ch \<noteq> ?p" by (simp add: test_proposal_def)
  ultimately have "ph \<noteq> qh"
    using 1 assms(2) [of ch] different_commitments(1) [OF assms(1)] by (auto simp: fixture_hashes_def)
  with 1 qh have "verify_decision L (test_commitment L) ?p (test_decision L ph)
      = Inl (ChainMismatch ''decision.proposal_hash'')"
    by (simp add: verify_decision_def fixture_hashes_def)
       (simp add: test_proposal_def test_decision_def test_commitment_def)
  then show ?case by (simp add: verify_chain_def verify_authorization_def)
qed

section \<open>Fields and limits\<close>

lemma enforces_core_field_and_lifetime_limits_passes:
  assumes "quotes L"
  shows "enforces_core_field_and_lifetime_limits L = Inr ()"
  unfolding enforces_core_field_and_lifetime_limits_def
proof (rule with_core_fixture [OF assms], goal_cases)
  case (1 ch ph dh gh rh)
  show ?case
    by (simp add: ep_validate_def test_proposal_def ad_validate_def test_decision_def eg_validate_def
        test_grant_def text_eval validate_sorted_unique_digests_def
        validate_sorted_unique_tokens_def)
qed

lemma accented_length: "length (accented n) = 2 * n" "length (chars (accented n)) = n"
  by (induction n) (simp_all add: accented_def)

lemma field_limits_count_utf8_bytes_not_unicode_scalars_passes:
  assumes "quotes L"
  shows "field_limits_count_utf8_bytes_not_unicode_scalars L = Inr ()"
  unfolding field_limits_count_utf8_bytes_not_unicode_scalars_def
proof (rule with_core_fixture [OF assms], goal_cases)
  case (1 ch ph dh gh rh)
  have "validate_identifier ''commitment_id'' (accented 256) = Inl (InvalidBinding ''commitment_id'')"
    by (simp add: validate_identifier_def validate_trimmed_text_def validate_nonempty_text_def
        accented_length)
  then show ?case
    by (simp add: tc_validate_def test_commitment_def accented_length text_eval(10-))
qed

lemma malformed_digests_fail_during_deserialization_passes:
  "malformed_digests_fail_during_deserialization = Inr ()"
  by (simp add: malformed_digests_fail_during_deserialization_def deserialize_digest_def
      parse_digest_def validate_digest_text_def strip_prefix_def DIGEST_PREFIX_def hex_byte_def
      is_digit_def)

lemma receipt_distinguishes_not_dispatched_from_unknown_passes:
  assumes "quotes L"
  shows "receipt_distinguishes_not_dispatched_from_unknown L = Inr ()"
  unfolding receipt_distinguishes_not_dispatched_from_unknown_def
  by (rule with_core_fixture [OF assms])
     (simp add: er_validate_def test_receipt_def text_eval)

section \<open>The in-memory store\<close>

text \<open>A store that holds one grant.\<close>

definition one_grant ::
    "verified_authorization \<Rightarrow> task_commitment \<Rightarrow> effect_proposal \<Rightarrow> authorization_decision
     \<Rightarrow> execution_grant \<Rightarrow> grant_claim option \<Rightarrow> (effect_receipt \<times> digest32) option
     \<Rightarrow> reconciliation_record list \<Rightarrow> u64 option \<Rightarrow> memory_grant_store" where
  "one_grant v c p d g claim receipt history time =
     \<lparr>mg_poisoned = False,
      mg_state = \<lparr>
        ms_grants = [eg_grant_id g \<mapsto> \<lparr>sg_hash = va_grant_hash v, sg_commitment = c, sg_proposal = p,
          sg_decision = d, sg_grant = g, sg_claim = claim, sg_receipt = map_option fst receipt,
          sg_reconciliations = history\<rparr>],
        ms_grant_by_hash = [va_grant_hash v \<mapsto> eg_grant_id g],
        ms_grant_by_proposal = [va_proposal_hash v \<mapsto> eg_grant_id g],
        ms_grant_by_decision = [va_decision_hash v \<mapsto> eg_grant_id g],
        ms_grant_by_receipt = (case receipt of None \<Rightarrow> Map.empty | Some (r, h) \<Rightarrow> [h \<mapsto> eg_grant_id g]),
        ms_last_trusted_time_ms = time\<rparr>\<rparr>"

lemma register_first:
  assumes "verify_authorization L c p d g = Inr v"
  shows "memory_register L c p d g memory_default
    = (Inr (va_grant_hash v), one_grant v c p d g None None [] None)"
  using assms
  by (simp add: memory_register_def with_lock_def keep_on_error_def register_locked_def
      memory_default_def empty_state_def one_grant_def)

lemma register_second:
  assumes "verify_authorization L c p d g = Inr w" and "eg_grant_id g \<noteq> eg_grant_id g0"
  shows "va_decision_hash w = va_decision_hash v \<Longrightarrow>
      fst (memory_register L c p d g (one_grant v c0 p0 d0 g0 None None [] None))
        = Inl DecisionAlreadyGranted"
    and "va_decision_hash w \<noteq> va_decision_hash v \<Longrightarrow> va_proposal_hash w = va_proposal_hash v \<Longrightarrow>
      fst (memory_register L c p d g (one_grant v c0 p0 d0 g0 None None [] None))
        = Inl ProposalAlreadyGranted"
  using assms
  by (simp_all add: memory_register_def with_lock_def keep_on_error_def register_locked_def one_grant_def)

text \<open>The outcome of a claim on the only grant, after the clock has been accepted.\<close>

definition claim_outcome ::
    "task_commitment \<Rightarrow> effect_proposal \<Rightarrow> execution_grant \<Rightarrow> grant_claim_request \<Rightarrow> u64
     \<Rightarrow> grant_claim option \<Rightarrow> protocol_error + unit" where
  "claim_outcome c p g request now claim = checks
     [ensure (gr_expected_audience request = eg_audience g) AudienceMismatch,
      ensure (gr_observed_policy_epoch request = tc_policy_epoch c
              \<and> gr_observed_configuration_epoch request = tc_configuration_epoch c) StaleAuthority,
      ensure (gr_observed_pre_state_digest request = ep_pre_state_digest p) StalePreState,
      ensure (gr_observed_resource_claim_digest request = ep_resource_claim_digest p)
        StaleResourceClaim,
      ensure (\<not> gr_revoked request) GrantRevoked,
      ensure (eg_not_before_ms g \<le> now) GrantNotYetValid,
      ensure (now < eg_expires_at_ms g) GrantExpired,
      ensure (claim = None) GrantAlreadyClaimed]"

lemma claim_only_grant:
  assumes "verify_authorization L c p d g = Inr v" and "gr_validate request = Inr ()"
    and "now \<le> MAX_SAFE_INTEGER"
  shows "memory_claim L g request (Some now) (one_grant v c p d g claim receipt history time) =
    (if \<not> clock_extends time (Some now)
     then (Inl ClockRollback, one_grant v c p d g claim receipt history time)
     else (case claim_outcome c p g request now claim of
         Inl e \<Rightarrow> (Inl e, one_grant v c p d g claim receipt history (Some now))
       | Inr _ \<Rightarrow> (Inr (claim_of g request now (va_grant_hash v)),
           one_grant v c p d g (Some (claim_of g request now (va_grant_hash v))) receipt history
             (Some now))))"
proof -
  have "eg_commitment L g = Inr (va_grant_hash v)"
    using assms(1) by (simp add: verify_authorization_ok)
  moreover have "validate_safe_integer ''trusted now_ms'' now = Inr ()"
    using assms(3) by (simp add: validate_safe_integer_ok)
  moreover have "claim_checks L g request now (va_grant_hash v)
      (mg_state (one_grant v c p d g claim receipt history (Some now))) =
      rbind (claim_outcome c p g request now claim) (\<lambda>_.
        Inr (the (ms_grants (mg_state (one_grant v c p d g claim receipt history (Some now)))
          (eg_grant_id g))))"
    using assms(1) by (simp add: claim_checks_def one_grant_def claim_outcome_def not_less not_le)
  ultimately show ?thesis
    using assms(2)
    by (cases time; cases "claim_outcome c p g request now claim")
       (auto simp: memory_claim_def with_lock_def claim_locked_def clock_extends_def Let_def
          keep_on_error_def one_grant_def claim_of_def not_less)
qed

text \<open>Registering the fixture, as every test of the store begins.\<close>

lemma call_register_fixture:
  assumes "fixture_hashes L ch ph dh gh rh"
  shows "call (memory_register L (test_commitment L) (test_proposal L ch) (test_decision L ph)
      (test_grant ph dh)) k memory_default
    = k gh (one_grant (test_authorization ch ph dh gh) (test_commitment L) (test_proposal L ch) (test_decision L ph)
        (test_grant ph dh) None None [] None)"
  using register_first [OF fixture_verifies(2) [OF assms]] by (simp add: call_def)

lemma eg_grant_id_test: "eg_grant_id (test_grant ph dh) = ''grant-1''"
  by (simp add: test_grant_def)

lemma observe_fst: "(\<And>s'. k (fst (f s)) s' = y) \<Longrightarrow> observe f k s = y"
  by (cases "f s") (simp add: observe_def)

lemma one_decision_can_issue_only_one_grant_passes:
  assumes "quotes L"
  shows "one_decision_can_issue_only_one_grant L = Inr ()"
  unfolding one_decision_can_issue_only_one_grant_def
proof (rule with_core_fixture [OF assms], goal_cases)
  case (1 ch ph dh gh rh)
  let ?g = "test_grant ph dh\<lparr>eg_grant_id := ''grant-2'', eg_nonce := ''c2Vjb25kLWdyYW50LW5vbmNlLTI''\<rparr>"
  have "eg_validate ?g = Inr ()" by (simp add: eg_validate_def test_grant_def text_eval)
  then obtain kh where "eg_commitment L ?g = Inr kh" using valid_commits(4) [OF assms] by blast
  then have "verify_authorization L (test_commitment L) (test_proposal L ch) (test_decision L ph) ?g
      = Inr \<lparr>va_commitment_hash = ch, va_proposal_hash = ph, va_decision_hash = dh, va_grant_hash = kh\<rparr>"
    using fixture_verifies(2) [OF 1] by (simp add: verify_authorization_ok test_grant_def)
  from register_second(1) [OF this, of "test_grant ph dh" "test_authorization ch ph dh gh"] show ?case
    by (simp add: call_register_fixture [OF 1] Let_def observe_fst eg_grant_id_test)
qed

lemma one_proposal_cannot_be_reauthorized_into_another_grant_passes:
  assumes "quote_conforms L"
    and "\<And>ph. \<not> collides L
      (EDecision (test_decision L ph\<lparr>ad_decision_id := ''decision-2'',
         ad_reason_codes := [''policy_allow_after_retry'']\<rparr>)) (EDecision (test_decision L ph))"
  shows "one_proposal_cannot_be_reauthorized_into_another_grant L = Inr ()"
  unfolding one_proposal_cannot_be_reauthorized_into_another_grant_def
proof (rule with_core_fixture [OF quote_conforms_quotes [OF assms(1)]], goal_cases)
  case (1 ch ph dh gh rh)
  note commits = valid_commits [OF quote_conforms_quotes [OF assms(1)]]
  let ?d = "test_decision L ph\<lparr>ad_decision_id := ''decision-2'',
      ad_reason_codes := [''policy_allow_after_retry'']\<rparr>"
  have "ad_validate ?d = Inr ()"
    by (simp add: ad_validate_def test_decision_def text_eval validate_sorted_unique_digests_def
        validate_sorted_unique_tokens_def)
  then obtain eh where eh: "ad_commitment L ?d = Inr eh" using commits(3) by blast
  moreover have "?d \<noteq> test_decision L ph" by (simp add: test_decision_def)
  ultimately have "eh \<noteq> dh"
    using 1 assms(2) [of ph] different_commitments(2) [OF assms(1)] by (auto simp: fixture_hashes_def)
  let ?g = "test_grant ph dh\<lparr>eg_grant_id := ''grant-2'', eg_decision_hash := eh,
      eg_nonce := ''c2Vjb25kLWdyYW50LW5vbmNlLTI''\<rparr>"
  have "eg_validate ?g = Inr ()" by (simp add: eg_validate_def test_grant_def text_eval)
  then obtain kh where "eg_commitment L ?g = Inr kh" using commits(4) by blast
  then have "verify_authorization L (test_commitment L) (test_proposal L ch) ?d ?g
      = Inr \<lparr>va_commitment_hash = ch, va_proposal_hash = ph, va_decision_hash = eh, va_grant_hash = kh\<rparr>"
    using fixture_verifies(2) [OF 1] eh
    by (simp add: verify_authorization_ok verify_decision_ok test_grant_def test_decision_def)
  from register_second(2) [OF this, of "test_grant ph dh" "test_authorization ch ph dh gh"] \<open>eh \<noteq> dh\<close> show ?case
    by (simp add: call_register_fixture [OF 1] Let_def eh observe_fst eg_grant_id_test)
qed

lemma claim_request_valid:
  assumes "validate_identifier ''attempt_id'' a = Inr ()"
  shows "gr_validate (test_claim_request (test_commitment L) p a) = Inr ()"
  using assms by (simp add: gr_validate_def test_claim_request_def test_commitment_def text_eval(2-))

lemma attempt_current_valid: "validate_identifier ''attempt_id'' ''attempt-current'' = Inr ()"
  "validate_identifier ''attempt_id'' ''attempt-1'' = Inr ()"
  by (simp_all add: text_eval)

lemma claim_outcome_request:
  "claim_outcome (test_commitment L) p (test_grant ph dh) (test_claim_request (test_commitment L) p a) 4000
     claim = ensure (claim = None) GrantAlreadyClaimed"
  by (simp add: claim_outcome_def test_claim_request_def test_grant_def ensure_def)

lemma claim_rechecks_currentness_and_records_attempt_passes:
  assumes "quotes L"
  shows "claim_rechecks_currentness_and_records_attempt L = Inr ()"
  unfolding claim_rechecks_currentness_and_records_attempt_def
proof (rule with_core_fixture [OF assms], goal_cases)
  case (1 ch ph dh gh rh)
  note claim = claim_only_grant [OF fixture_verifies(2) [OF 1]]
  let ?r = "test_claim_request (test_commitment L) (test_proposal L ch) ''attempt-current''"
  have valid: "gr_validate ?r = Inr ()"
    "gr_validate (?r\<lparr>gr_observed_configuration_epoch := gr_observed_configuration_epoch ?r + 1\<rparr>) = Inr ()"
    "gr_validate (?r\<lparr>gr_revoked := True\<rparr>) = Inr ()"
    by (simp_all add: gr_validate_def test_claim_request_def test_commitment_def text_eval)
  have stale: "claim_outcome (test_commitment L) (test_proposal L ch) (test_grant ph dh)
      (?r\<lparr>gr_observed_configuration_epoch := gr_observed_configuration_epoch ?r + 1\<rparr>) 4000 None
    = Inl StaleAuthority"
    by (simp add: claim_outcome_def test_claim_request_def test_grant_def)
  have revoked: "claim_outcome (test_commitment L) (test_proposal L ch) (test_grant ph dh)
      (?r\<lparr>gr_revoked := True\<rparr>) 4000 None = Inl GrantRevoked"
    by (simp add: claim_outcome_def test_claim_request_def test_grant_def)
  have attempt: "gr_attempt_id ?r = ''attempt-current''" by (simp add: test_claim_request_def)
  show ?case
    by (simp only: call_register_fixture [OF 1] Let_def)
       (simp add: observe_def call_def claim valid stale revoked
        clock_extends_def MAX_SAFE_INTEGER_def claim_outcome_request claim_of_def attempt)
qed

text \<open>Receipts and reconciliation records for the only grant.\<close>

lemma receipt_only_grant:
  assumes "verify_chain L c p d g r = Inr w" and "va_grant_hash v = vc_grant_hash w"
    and "er_attempt_id r = gc_attempt_id cl" and "er_claimed_at_ms r = gc_claimed_at_ms cl"
  shows "memory_record_receipt L r (one_grant v c p d g (Some cl) None [] time)
      = (Inr (vc_receipt_hash w), one_grant v c p d g (Some cl) (Some (r, vc_receipt_hash w)) [] time)"
    and "er_commitment L x = Inr xh \<Longrightarrow>
      memory_record_receipt L r (one_grant v c p d g (Some cl) (Some (x, k)) history time)
      = (if xh = vc_receipt_hash w then Inr (vc_receipt_hash w) else Inl ReceiptAlreadyRecorded,
         one_grant v c p d g (Some cl) (Some (x, k)) history time)"
proof -
  have r: "er_commitment L r = Inr (vc_receipt_hash w)" "er_grant_hash r = va_grant_hash v"
    using assms(1,2) by (simp_all add: verify_chain_ok)
  from r(1) have valid: "er_validate r = Inr ()"
    by (auto simp: commitment_defs trait_commitment_def rbind_ok)
  show "memory_record_receipt L r (one_grant v c p d g (Some cl) None [] time)
      = (Inr (vc_receipt_hash w), one_grant v c p d g (Some cl) (Some (r, vc_receipt_hash w)) [] time)"
    using assms r valid
    by (simp add: memory_record_receipt_def with_lock_def keep_on_error_def record_receipt_locked_def
        one_grant_def)
  show "er_commitment L x = Inr xh \<Longrightarrow>
      memory_record_receipt L r (one_grant v c p d g (Some cl) (Some (x, k)) history time)
      = (if xh = vc_receipt_hash w then Inr (vc_receipt_hash w) else Inl ReceiptAlreadyRecorded,
         one_grant v c p d g (Some cl) (Some (x, k)) history time)"
    using assms r valid
    by (simp add: memory_record_receipt_def with_lock_def keep_on_error_def record_receipt_locked_def
        one_grant_def)
qed

lemma reconciliation_only_grant:
  assumes "rr_commitment L x = Inr xh" and "rr_receipt_hash x = k" and "rr_sequence x = 1"
  shows "verify_reconciliation L r None x = Inr xh \<Longrightarrow>
      memory_append_reconciliation L x (one_grant v c p d g (Some cl) (Some (r, k)) [] time)
      = (Inr xh, one_grant v c p d g (Some cl) (Some (r, k)) [x] time)"
    and "rr_commitment L y = Inr yh \<Longrightarrow>
      memory_append_reconciliation L x (one_grant v c p d g (Some cl) (Some (r, k)) [y] time)
      = (if yh = xh then Inr yh else Inl ReconciliationFork,
         one_grant v c p d g (Some cl) (Some (r, k)) [y] time)"
proof -
  have "rr_validate x = Inr ()"
    using assms(1) by (auto simp: commitment_defs trait_commitment_def rbind_ok)
  then show "verify_reconciliation L r None x = Inr xh \<Longrightarrow>
      memory_append_reconciliation L x (one_grant v c p d g (Some cl) (Some (r, k)) [] time)
      = (Inr xh, one_grant v c p d g (Some cl) (Some (r, k)) [x] time)"
    and "rr_commitment L y = Inr yh \<Longrightarrow>
      memory_append_reconciliation L x (one_grant v c p d g (Some cl) (Some (r, k)) [y] time)
      = (if yh = xh then Inr yh else Inl ReconciliationFork,
         one_grant v c p d g (Some cl) (Some (r, k)) [y] time)"
    using assms
    by (simp_all add: memory_append_reconciliation_def with_lock_def keep_on_error_def
        append_reconciliation_locked_def one_grant_def last_record_def MAX_RECONCILIATION_RECORDS_def
        Let_def)
qed

lemma canonical_receipt_and_reconciliation_history_is_fork_free_passes:
  assumes "quote_conforms L"
    and "\<And>ph gh. \<not> collides L (EReceipt (test_receipt L ph gh))
      (EReceipt (test_receipt L ph gh\<lparr>er_observation_digest := from_payload L ''conflicting observation''\<rparr>))"
    and "\<And>rh. \<not> collides L
      (EReconciliation (test_reconciliation L rh StillUnknown ''first observation''))
      (EReconciliation (test_reconciliation L rh StillUnknown ''first observation''
         \<lparr>rr_reconciliation_id := ''reconciliation-fork'',
          rr_evidence_digest := from_payload L ''contradictory branch''\<rparr>))"
    and "from_payload L ''timeout after dispatch'' \<noteq> from_payload L ''conflicting observation''"
  shows "canonical_receipt_and_reconciliation_history_is_fork_free L = Inr ()"
  unfolding canonical_receipt_and_reconciliation_history_is_fork_free_def
proof (rule with_core_fixture [OF quote_conforms_quotes [OF assms(1)]], goal_cases)
  case (1 ch ph dh gh rh)
  note quotes = quote_conforms_quotes [OF assms(1)]
  note commits = valid_commits [OF quotes]
  let ?c = "test_commitment L" and ?p = "test_proposal L ch" and ?d = "test_decision L ph"
  let ?g = "test_grant ph dh" and ?r = "test_receipt L ph gh"
  let ?q = "test_claim_request ?c ?p ''attempt-1''"
  let ?other = "?r\<lparr>er_observation_digest := from_payload L ''conflicting observation''\<rparr>"
  let ?x = "test_reconciliation L rh StillUnknown ''first observation''"
  let ?fork = "?x\<lparr>rr_reconciliation_id := ''reconciliation-fork'',
      rr_evidence_digest := from_payload L ''contradictory branch''\<rparr>"
  note chain = fixture_verifies(3) [OF 1]
  note claim = claim_only_grant [OF fixture_verifies(2) [OF 1] claim_request_valid [OF attempt_current_valid(2)]]
  have rh: "er_commitment L ?r = Inr rh" using 1 by (simp add: fixture_hashes_def)
  have fits: "er_attempt_id ?r = ''attempt-1''" "er_claimed_at_ms ?r = 4000" "gr_attempt_id ?q = ''attempt-1''"
    by (simp_all add: test_receipt_def test_claim_request_def)
  have "er_validate ?other = Inr ()" by (simp add: er_validate_def test_receipt_def text_eval)
  then obtain oh where oh: "er_commitment L ?other = Inr oh" using commits(5) by blast
  have "?r \<noteq> ?other" using assms(4) by (simp add: test_receipt_def)
  then have "rh \<noteq> oh" by (rule different_commitments(3) [OF assms(1) rh oh _ assms(2)])
  have other: "verify_chain L ?c ?p ?d ?g ?other = Inr \<lparr>vc_commitment_hash = ch, vc_proposal_hash = ph,
      vc_decision_hash = dh, vc_grant_hash = gh, vc_receipt_hash = oh\<rparr>"
    using chain oh by (simp add: verify_chain_ok)
  obtain xh where x: "rr_commitment L ?x = Inr xh" "verify_reconciliation L ?r None ?x = Inr xh"
    using reconciliation_verifies [OF 1 quotes] .
  have "rr_validate ?fork = Inr ()" by (simp add: rr_validate_def test_reconciliation_def text_eval)
  then obtain fh where fh: "rr_commitment L ?fork = Inr fh" using commits(6) by blast
  have "?x \<noteq> ?fork" by (simp add: test_reconciliation_def)
  then have "xh \<noteq> fh" by (rule different_commitments(4) [OF assms(1) x(1) fh _ assms(3)])
  have keys: "rr_receipt_hash ?x = rh" "rr_sequence ?x = 1"
    by (simp_all add: test_reconciliation_def)
  show ?case
    by (simp only: call_register_fixture [OF 1] Let_def)
       (simp add: call_def observe_def claim clock_extends_def MAX_SAFE_INTEGER_def
          claim_outcome_request claim_of_def fits receipt_only_grant [OF chain]
          receipt_only_grant [OF other] rh oh \<open>rh \<noteq> oh\<close> reconciliation_only_grant x keys fh \<open>xh \<noteq> fh\<close>)
qed

text \<open>In every order of the twelve workers the first one wins and all others are refused.\<close>

lemma worker_attempt_valid:
  assumes "i < 12"
  shows "validate_identifier ''attempt_id'' (''attempt-'' @ decimal i) = Inr ()"
proof -
  have "length (decimal i) \<le> 2" by (rule decimal_length) (use assms in simp_all)
  then show ?thesis by (intro visible_identifier) (simp_all add: visible_decimal)
qed

lemma later_claims_refused:
  assumes "verify_authorization L (test_commitment L) p d (test_grant ph dh) = Inr v"
    and "set order \<subseteq> {..<12}"
  shows "filter id (claims_in_order L (test_commitment L) p (test_grant ph dh) order
      (one_grant v (test_commitment L) p d (test_grant ph dh) (Some cl) None [] (Some 4000))) = []"
  using assms(2)
proof (induction order)
  case (Cons i order)
  then have "gr_validate (test_claim_request (test_commitment L) p (''attempt-'' @ decimal i)) = Inr ()"
    by (intro claim_request_valid worker_attempt_valid) simp
  with Cons show ?case
    by (simp add: Let_def claim_only_grant [OF assms(1)] MAX_SAFE_INTEGER_def claim_outcome_request)
qed simp

lemma first_claim_wins:
  assumes "verify_authorization L (test_commitment L) p d (test_grant ph dh) = Inr v"
    and "set order \<subseteq> {..<12}" and "order \<noteq> []"
  shows "length (filter id (claims_in_order L (test_commitment L) p (test_grant ph dh) order
      (one_grant v (test_commitment L) p d (test_grant ph dh) None None [] None))) = 1"
proof -
  obtain i rest where order: "order = i # rest" using assms(3) by (cases order) auto
  with assms(2) have "gr_validate (test_claim_request (test_commitment L) p (''attempt-'' @ decimal i)) = Inr ()"
    by (intro claim_request_valid worker_attempt_valid) simp
  with assms(2) order show ?thesis
    by (simp add: Let_def claim_only_grant [OF assms(1)] MAX_SAFE_INTEGER_def claim_outcome_request
        clock_extends_def later_claims_refused [OF assms(1)])
qed

lemma only_one_concurrent_claim_succeeds_passes:
  assumes "quotes L" and "mset order = mset [0..<12]"
  shows "only_one_concurrent_claim_succeeds L order = Inr ()"
  unfolding only_one_concurrent_claim_succeeds_def
proof (rule with_core_fixture [OF assms(1)], goal_cases)
  case (1 ch ph dh gh rh)
  have "set order = {0..<12}" using mset_eq_setD [OF assms(2)] by simp
  then have "set order \<subseteq> {..<12}" "order \<noteq> []" by auto
  from first_claim_wins [OF fixture_verifies(2) [OF 1] this] show ?case
    by (simp add: call_register_fixture [OF 1])
qed

text \<open>Proposals and decisions outside the window of their predecessor.\<close>

lemma store_rejects_proposal_outside_committed_window_passes:
  assumes "quotes L"
  shows "store_rejects_proposal_outside_committed_window L = Inr ()"
  unfolding store_rejects_proposal_outside_committed_window_def
proof (rule with_core_fixture [OF assms], goal_cases)
  case (1 ch ph dh gh rh)
  let ?p = "test_proposal L ch\<lparr>ep_expires_at_ms := tc_expires_at_ms (test_commitment L) + 1\<rparr>"
  have "ep_validate ?p = Inr ()"
    by (simp add: ep_validate_def test_proposal_def test_commitment_def text_eval)
  then obtain qh where qh: "ep_commitment L ?p = Inr qh" using valid_commits(2) [OF assms] by blast
  have "test_decision L ph\<lparr>ad_proposal_hash := qh\<rparr> = test_decision L qh"
    by (simp add: test_decision_def)
  moreover obtain eh where "ad_commitment L (test_decision L qh) = Inr eh"
    using valid_commits(3) [OF assms] test_records_valid(3) by blast
  moreover have "verify_decision L (test_commitment L) ?p d = Inl (InvalidNestedWindow ''proposal'')" for d
    using 1 by (simp add: verify_decision_def fixture_hashes_def)
      (simp add: test_proposal_def test_commitment_def)
  ultimately show ?case
    by (simp add: Let_def qh observe_def memory_register_def verify_authorization_def)
qed

lemma store_rejects_decision_outside_proposal_window_passes:
  assumes "quotes L"
  shows "store_rejects_decision_outside_proposal_window L = Inr ()"
  unfolding store_rejects_decision_outside_proposal_window_def
proof (rule with_core_fixture [OF assms], goal_cases)
  case (1 ch ph dh gh rh)
  let ?d = "test_decision L ph\<lparr>ad_expires_at_ms := ep_expires_at_ms (test_proposal L ch) + 1\<rparr>"
  have "ad_validate ?d = Inr ()"
    by (simp add: ad_validate_def test_decision_def test_proposal_def text_eval
        validate_sorted_unique_digests_def validate_sorted_unique_tokens_def)
  then obtain eh where "ad_commitment L ?d = Inr eh" using valid_commits(3) [OF assms] by blast
  moreover have "verify_decision L (test_commitment L) (test_proposal L ch) ?d
      = Inl (InvalidNestedWindow ''decision'')"
    using 1 by (simp add: verify_decision_def fixture_hashes_def)
      (simp add: test_proposal_def test_commitment_def test_decision_def)
  ultimately show ?case
    by (simp add: Let_def observe_def memory_register_def verify_authorization_def)
qed

section \<open>Canonical JSON\<close>

lemma floats_and_unsafe_integers_are_rejected_passes:
  assumes "quotes L"
  shows "floats_and_unsafe_integers_are_rejected L = Inr ()"
proof -
  obtain k where k: "json_quote L ''value'' = Some k" using assms by (auto simp: quotes_def)
  have budget: "\<exists>n. validate_value_budget (JObject [(''value'', JNumber x)]) 1 0 = Inr n" for x
    by (simp add: validate_value_budget.simps checked_add1_def USIZE_LIMIT_def
        MAX_CANONICAL_NESTING_DEPTH_def MAX_CANONICAL_NODES_def)
  have "encode_number x = Inl UnsafeJsonNumber \<Longrightarrow>
      canonical_json L (JObject [(''value'', JNumber x)]) = Inl UnsafeJsonNumber" for x
    using budget [of x] k by (auto simp: canonical_json_def encode_object encode_entry_def encode_simps)
  moreover have "encode_number JFloat = Inl UnsafeJsonNumber"
      "encode_number (JInt (uint (MAX_SAFE_INTEGER + 1))) = Inl UnsafeJsonNumber"
    by (simp_all add: encode_number_def as_i64_def as_u64_def MAX_SAFE_val MAX_SAFE_INTEGER_def)
  ultimately show ?thesis by (simp add: floats_and_unsafe_integers_are_rejected_def Let_def)
qed

lemma nested_arrays_too_deep:
  assumes "d + n = Suc MAX_CANONICAL_NESTING_DEPTH" and "k \<le> d"
  shows "validate_value_budget (((\<lambda>value. JArray [value]) ^^ n) JNull) d k
    = Inl (ResourceLimit ''JSON nesting depth'')"
  using assms
proof (induction n arbitrary: d k)
  case 0
  then show ?case by (simp add: validate_value_budget.simps)
next
  case (Suc n)
  then have "checked_add1 k = Some (Suc k)" "Suc k \<le> MAX_CANONICAL_NODES"
    "d \<le> MAX_CANONICAL_NESTING_DEPTH"
    by (simp_all add: checked_add1_def USIZE_LIMIT_def MAX_CANONICAL_NODES_def
        MAX_CANONICAL_NESTING_DEPTH_def)
  with Suc.IH [of "Suc d" "Suc k"] Suc.prems show ?case
    by (subst validate_value_budget.simps) simp
qed

lemma canonicalizer_rejects_excessive_nesting_passes:
  "canonicalizer_rejects_excessive_nesting L = Inr ()"
  using nested_arrays_too_deep [of 1 MAX_CANONICAL_NESTING_DEPTH 0]
  by (simp add: canonicalizer_rejects_excessive_nesting_def canonical_json_def Let_def)

lemma test_texts_read:
  "read_json ''{\"z\":1,\"a\":{\"b\":2,\"a\":1}}'' =
     Some (JObject [(''z'', JNumber (JInt 1)),
       (''a'', JObject [(''b'', JNumber (JInt 2)), (''a'', JNumber (JInt 1))])])"
  "read_json ''{\"a\":{\"a\":1,\"b\":2},\"z\":1}'' =
     Some (JObject [(''a'', JObject [(''a'', JNumber (JInt 1)), (''b'', JNumber (JInt 2))]),
       (''z'', JNumber (JInt 1))])"
  by code_simp+

lemma canonical_json_is_key_order_independent_passes:
  assumes "quotes L"
  shows "canonical_json_is_key_order_independent L = Inr ()"
proof -
  let ?v = "JObject [(''z'', JNumber (JInt 1)),
      (''a'', JObject [(''b'', JNumber (JInt 2)), (''a'', JNumber (JInt 1))])]"
  let ?w = "JObject [(''a'', JObject [(''a'', JNumber (JInt 1)), (''b'', JNumber (JInt 2))]),
      (''z'', JNumber (JInt 1))]"
  have norm: "norm ?v = norm ?w" by (simp add: sort_key_def insort_key_def)
  have "jdepth ?v \<le> Suc (Suc 1)" "jdepth ?w \<le> Suc (Suc 1)"
    unfolding jdepth_object_le by (simp_all add: jdepth_object_le)
  then have ok: "\<exists>s. canonical_json L v = Inr s" if "v = ?v \<or> v = ?w" for v
    unfolding canonical_json_ok_iff [OF assms]
    using that by (auto simp: MAX_SAFE_val MAX_CANONICAL_NESTING_DEPTH_def MAX_CANONICAL_NODES_def
        sort_key_def insort_key_def)
  obtain s t where st: "canonical_json L ?v = Inr s" "canonical_json L ?w = Inr t"
    using ok by blast
  then have "encode_canonical_value L ?v = Inr s" "encode_canonical_value L ?w = Inr t"
    by (simp_all add: canonical_json_def rbind_ok)
  with norm have "s = t" by (metis encode_norm Inr_inject)
  with st show ?thesis
    by (simp add: canonical_json_is_key_order_independent_def test_texts_read)
qed

section \<open>Strict records\<close>

text \<open>An object written in any order of its entries, repeated keys included, is read as it is.\<close>

lemma read_json_object:
  assumes "quote_conforms L" and "traverse (encode_entry L) kvs = Inr ps" and "kvs \<noteq> []"
  shows "read_json (CHR ''{'' # join_comma ps @ ''}'')
    = Some (JObject (map (\<lambda>kv. (fst kv, norm (snd kv))) kvs))"
proof -
  have "list_all2 (\<lambda>c q. jnodes c \<le> length q) (map snd kvs) ps"
    using assms(2) encode_length [OF assms(1)] unfolding traverse_ok list_all2_map1
    by (elim list.rel_mono_strong) (fastforce simp: encode_entry_def rbind_ok)
  then have "sum_list (map (\<lambda>kv. jnodes (snd kv)) kvs) \<le> length (join_comma ps)"
    using jnodes_children [of "map snd kvs" ps] by (simp add: comp_def)
  then have "read_members (2 * length (join_comma ps) + 5) (join_comma ps @ CHR ''}'' # [])
      = Some (map (\<lambda>kv. (fst kv, norm (snd kv))) kvs, [])"
    by (intro read_members_back [OF assms(2,3,1)] encode_reads_back [OF assms(1)]) simp
  moreover obtain kv e qs where "ps = e # qs" "encode_entry L kv = Inr e"
    using assms(2,3) by (cases kvs) (auto simp: rbind_ok)
  with assms(1) have "hd (join_comma ps @ ''}'') = CHR 0x22"
    using join_comma_hd [of e qs] by (auto simp: encode_entry_def rbind_ok ok_or_ok quote_conforms_def
        spec_quote_def)
  moreover have "2 * length (CHR ''{'' # join_comma ps @ ''}'') + 2
      = Suc (2 * length (join_comma ps) + 5)" by simp
  ultimately show ?thesis unfolding read_json_def by (simp only: read_value.simps) simp
qed

lemma strict_record_parser_rejects_duplicate_fields_and_oversized_input_passes:
  assumes "quote_conforms L" and "from_json_tc L = conforming_reader read_tc"
  shows "strict_record_parser_rejects_duplicate_fields_and_oversized_input L = Inr ()"
  unfolding strict_record_parser_rejects_duplicate_fields_and_oversized_input_def
proof (rule with_core_fixture [OF quote_conforms_quotes [OF assms(1)]], goal_cases)
  case (1 ch ph dh gh rh)
  have quote: "json_quote L s = Some (spec_quote s)" for s
    using assms(1) by (simp add: quote_conforms_def)
  obtain kvs where kvs: "tc_value (test_commitment L) =
      JObject ((''version'', jnum 1) # (''commitment_id'', JString ''task-1'') # kvs)"
    and "kvs \<noteq> []" and safe: "list_all safe_numbers (map snd kvs)"
    by (simp add: tc_value_def test_commitment_def jnum_def jdigest_def MAX_SAFE_val)
  have "\<exists>ps. traverse (encode_entry L) kvs = Inr ps"
    unfolding traverse_ok_ex
  proof
    fix kv assume "kv \<in> set kvs"
    with safe have "safe_numbers (snd kv)" by (simp add: list_all_iff)
    then show "\<exists>y. encode_entry L kv = Inr y"
      using encode_ok_iff [OF quote_conforms_quotes [OF assms(1)], of "snd kv"]
      by (auto simp: encode_entry_def quote rbind_ok)
  qed
  then obtain p ps where ps: "traverse (encode_entry L) kvs = Inr (p # ps)"
    using \<open>kvs \<noteq> []\<close> by (cases kvs) (auto simp: rbind_ok)
  have ident: "encode_entry L (''commitment_id'', JString s) = Inr (''\"commitment_id\":'' @ spec_quote s)"
    and version: "encode_entry L (''version'', jnum 1) = Inr ''\"version\":1''" for s
    by (simp_all add: encode_entry_def quote encode_simps jnum_def)
       (simp_all add: spec_quote_def escape_def encode_number_def as_i64_def MAX_SAFE_val
          int_to_string_def decimal.simps DIGITS_def)
  let ?rest = "CHR '','' # join_comma (p # ps) @ ''}''"
  let ?id = "''\"commitment_id\":\"task-1\"''" and ?twice = "''\"commitment_id\":\"task-1\",\"commitment_id\":\"task-2\"''"
  have written: "to_string L (tc_value (test_commitment L)) = Inr (''{\"version\":1,'' @ ?id @ ?rest)"
    by (simp add: to_string_def kvs ps ident version) (simp add: spec_quote_def escape_def)
  have changed: "replace_first ?id ?twice (''{\"version\":1,'' @ ?id @ ?rest) = ''{\"version\":1,'' @ ?twice @ ?rest"
    by (simp add: strip_prefix_def)
  let ?entries = "(''version'', jnum 1) # (''commitment_id'', JString ''task-1'')
      # (''commitment_id'', JString ''task-2'') # kvs"
  have "traverse (encode_entry L) ?entries = Inr (''\"version\":1'' # (''\"commitment_id\":'' @ spec_quote ''task-1'')
      # (''\"commitment_id\":'' @ spec_quote ''task-2'') # p # ps)"
    by (simp add: ps ident version)
  from read_json_object [OF assms(1) this] have "read_json (''{\"version\":1,'' @ ?twice @ ?rest)
      = Some (JObject (map (\<lambda>kv. (fst kv, norm (snd kv))) ?entries))"
    by (simp add: spec_quote_def escape_def)
  then have "from_json_tc L (''{\"version\":1,'' @ ?twice @ ?rest) = None"
    by (simp add: assms(2) conforming_reader_def read_tc_def strict_object_def)
  then have "isl (parse_tc L (''{\"version\":1,'' @ ?twice @ ?rest))"
    by (simp add: parse_tc_def parse_record_def ensure_def)
  moreover have "parse_tc L (replicate (MAX_TRANSPORT_INPUT_BYTES + 1) c)
      = Inl (ResourceLimit ''transport bytes'')" for c
    by (simp add: parse_tc_def parse_record_def)
  ultimately show ?case
    by (simp only: written changed Let_def attempt_simps rbind.simps assert_that_simps simp_thms)
qed

section \<open>Property tests\<close>

text \<open>A parser never skips the validation of its record, and refuses every oversized input.\<close>

lemma arbitrary_bounded_json_bytes_never_panic_or_skip_validation_passes:
  "arbitrary_bounded_json_bytes_never_panic_or_skip_validation L input"
  by (auto simp: arbitrary_bounded_json_bytes_never_panic_or_skip_validation_def parse_tc_def
      parse_record_ok parse_transaction_bundle_ok verify_transaction_ok_iff [symmetric] split: sum.split)

lemma bytes_over_transport_limit_are_rejected_before_parsing_passes:
  assumes "1 \<le> excess"
  shows "bytes_over_transport_limit_are_rejected_before_parsing L start fill excess"
proof -
  have "MAX_TRANSPORT_INPUT_BYTES < length (resize (MAX_TRANSPORT_INPUT_BYTES + excess) fill start)"
    using assms by (simp add: resize_def)
  then show ?thesis
    by (simp add: bytes_over_transport_limit_are_rejected_before_parsing_def parse_tc_def
        parse_record_def parse_transaction_bundle_def Let_def)
qed

end
