(* ===== verification/Sqlite_Tests.thy ===== *)
theory Sqlite_Tests
  imports Test_Harness Sqlite_Schema Sqlite_Reading
begin

text \<open>
  The unit tests of crates/effect-transaction-sqlite/src/lib.rs, as executable definitions over the
  model: \<open>L\<close> is the library and \<open>env\<close> what the engine does while a database is opened. The tests
  run on a fresh file in a temporary directory, with an engine that does not fail. A test that
  reopens its file calls \<open>open\<close> on the file that the first connection left. The boxed errors of
  the tests are store errors, a protocol error being converted. That the tests pass is shown in
  \<open>Sqlite_Tests_Pass\<close>.
\<close>

section \<open>Fixture\<close>

record chain_fixture =
  cf_commitment :: task_commitment
  cf_proposal :: effect_proposal
  cf_decision :: authorization_decision
  cf_grant :: execution_grant

definition sql_commitment :: "lib \<Rightarrow> string \<Rightarrow> task_commitment" where
  "sql_commitment L suffix = \<lparr>tc_version = 1, tc_commitment_id = ''task-'' @ suffix,
     tc_principal = ''user:alice'', tc_objective_digest = from_payload L ''objective'',
     tc_constraints_digest = from_payload L ''constraints'',
     tc_authority_scope_digest = from_payload L ''authority'', tc_policy_epoch = 7,
     tc_configuration_epoch = 3, tc_created_at_ms = 1000, tc_expires_at_ms = 20000\<rparr>"

definition sql_proposal :: "lib \<Rightarrow> string \<Rightarrow> digest32 \<Rightarrow> effect_proposal" where
  "sql_proposal L suffix commitment_hash = \<lparr>ep_version = 1, ep_proposal_id = ''proposal-'' @ suffix,
     ep_commitment_hash = commitment_hash, ep_effect_profile = ''mcp/tool-call@1'',
     ep_operation = ''filesystem.write'', ep_target = ''workspace:/'' @ suffix @ ''.md'',
     ep_arguments_digest = from_payload L ''arguments'',
     ep_expected_effect_digest = from_payload L ''expected'',
     ep_pre_state_digest = from_payload L ''pre-state'',
     ep_resource_claim_digest = from_payload L ''resources'',
     ep_created_at_ms = 2000, ep_expires_at_ms = 15000\<rparr>"

definition sql_decision :: "lib \<Rightarrow> string \<Rightarrow> digest32 \<Rightarrow> authorization_decision" where
  "sql_decision L suffix proposal_hash = \<lparr>ad_version = 1, ad_decision_id = ''decision-'' @ suffix,
     ad_proposal_hash = proposal_hash, ad_evidence_hashes = [from_payload L ''evidence''],
     ad_outcome = Allow, ad_reason_codes = [''policy_allow''], ad_decided_at_ms = 3000,
     ad_expires_at_ms = 10000\<rparr>"

definition sql_grant :: "string \<Rightarrow> digest32 \<Rightarrow> digest32 \<Rightarrow> execution_grant" where
  "sql_grant suffix proposal_hash decision_hash = \<lparr>eg_version = 1, eg_grant_id = ''grant-'' @ suffix,
     eg_proposal_hash = proposal_hash, eg_decision_hash = decision_hash,
     eg_audience = ''runner:prod'', eg_not_before_ms = 3500, eg_expires_at_ms = 9000, eg_uses = 1,
     eg_nonce = ''abcdefghijklmnopqrstuvwxyz012345''\<rparr>"

definition sql_fixture :: "lib \<Rightarrow> string \<Rightarrow> protocol_error + chain_fixture" where
  "sql_fixture L suffix =
     (let commitment = sql_commitment L suffix in
      rbind (tc_commitment L commitment) (\<lambda>commitment_hash.
      let proposal = sql_proposal L suffix commitment_hash in
      rbind (ep_commitment L proposal) (\<lambda>proposal_hash.
      let decision = sql_decision L suffix proposal_hash in
      rbind (ad_commitment L decision) (\<lambda>decision_hash.
      let grant = sql_grant suffix proposal_hash decision_hash in
      Inr \<lparr>cf_commitment = commitment, cf_proposal = proposal, cf_decision = decision,
           cf_grant = grant\<rparr>))))"

definition test_snapshot :: "lib \<Rightarrow> u64 \<Rightarrow> currentness_snapshot" where
  "test_snapshot L version = \<lparr>cu_key = ''cluster/prod/deployment/api'', cu_version = version,
     cu_policy_epoch = 7, cu_configuration_epoch = 3,
     cu_pre_state_digest = from_payload L ''pre-state'',
     cu_resource_claim_digest = from_payload L ''resources'', cu_revoked = False,
     cu_observed_at_ms = 3900 + version\<rparr>"

definition test_request :: "string \<Rightarrow> u64 \<Rightarrow> claim_request" where
  "test_request attempt_id version = \<lparr>cq_attempt_id = attempt_id, cq_expected_audience = ''runner:prod'',
     cq_currentness_key = ''cluster/prod/deployment/api'', cq_expected_snapshot_version = version,
     cq_maximum_snapshot_age_ms = 5000\<rparr>"

section \<open>Running a store\<close>

type_synonym store_test = "database_file \<Rightarrow> store_error failure + unit"

text \<open>An operation of an open store works on the data of the file.\<close>

definition on_file ::
    "(database \<Rightarrow> (store_error + 'a) \<times> database) \<Rightarrow> database_file \<Rightarrow> (store_error + 'a) \<times> database_file" where
  "on_file operation f = (case operation (fl_data f) of (r, db) \<Rightarrow> (r, f\<lparr>fl_data := db\<rparr>))"

definition register_test ::
    "lib \<Rightarrow> chain_fixture \<Rightarrow> database_file \<Rightarrow> (store_error + digest32) \<times> database_file" where
  "register_test L data = on_file
     (register_chain L no_faults (cf_commitment data) (cf_proposal data) (cf_decision data) (cf_grant data))"

definition put_test :: "currentness_snapshot \<Rightarrow> database_file \<Rightarrow> (store_error + unit) \<times> database_file" where
  "put_test snapshot = on_file (put_currentness no_faults snapshot)"

definition claim_test ::
    "lib \<Rightarrow> execution_grant \<Rightarrow> claim_request \<Rightarrow> u64 \<Rightarrow> database_file
     \<Rightarrow> (store_error + durable_claim) \<times> database_file" where
  "claim_test L grant request now_ms = on_file (sql_claim L no_faults grant request now_ms)"

definition mark_test ::
    "lib \<Rightarrow> digest32 \<Rightarrow> string \<Rightarrow> u64 \<Rightarrow> database_file \<Rightarrow> (store_error + dispatch_marker) \<times> database_file" where
  "mark_test L grant_hash attempt_id at = on_file (mark_dispatch_started L no_faults grant_hash attempt_id at)"

definition receipt_test ::
    "lib \<Rightarrow> effect_receipt \<Rightarrow> database_file \<Rightarrow> (store_error + digest32) \<times> database_file" where
  "receipt_test L receipt = on_file (record_receipt L no_faults receipt)"

definition reconcile_test ::
    "lib \<Rightarrow> reconciliation_record \<Rightarrow> database_file \<Rightarrow> (store_error + digest32) \<times> database_file" where
  "reconcile_test L record = on_file (append_reconciliation L no_faults record)"

definition lifecycle_test ::
    "lib \<Rightarrow> digest32 \<Rightarrow> database_file \<Rightarrow> (store_error + lifecycle) \<times> database_file" where
  "lifecycle_test L grant_hash f = (lifecycle_of L no_faults grant_hash (fl_data f), f)"

text \<open>\<open>fixture(suffix)?\<close>, and another step that can only fail.\<close>

definition given :: "protocol_error + 'a \<Rightarrow> ('a \<Rightarrow> store_test) \<Rightarrow> store_test" where
  "given r k f = rbind (attempt (protocol r)) (\<lambda>x. k x f)"

definition verify_that :: "bool \<Rightarrow> store_test \<Rightarrow> store_test" where
  "verify_that b k = and_then (assert_that b) k"

text \<open>Opening the file of the test; the path is not empty.\<close>

definition open_test :: "surroundings \<Rightarrow> store_test \<Rightarrow> store_test" where
  "open_test env k = call (sql_open env ''test.sqlite3'') (\<lambda>_. k)"

section \<open>Tests\<close>

definition test_receipt_of ::
    "lib \<Rightarrow> string \<Rightarrow> digest32 \<Rightarrow> digest32 \<Rightarrow> string \<Rightarrow> u64 option \<Rightarrow> u64 \<Rightarrow> receipt_outcome \<Rightarrow> string
     \<Rightarrow> effect_receipt" where
  "test_receipt_of L receipt_id proposal_hash grant_hash attempt_id dispatched completed outcome label =
     \<lparr>er_version = 1, er_receipt_id = receipt_id, er_proposal_hash = proposal_hash,
      er_grant_hash = grant_hash, er_attempt_id = attempt_id, er_claimed_at_ms = 4000,
      er_dispatched_at_ms = dispatched, er_completed_at_ms = completed, er_outcome = outcome,
      er_observation_digest = from_payload L label\<rparr>"

definition full_lifecycle_survives_reopen :: "lib \<Rightarrow> surroundings \<Rightarrow> store_error failure + unit" where
  "full_lifecycle_survives_reopen L env =
     given (sql_fixture L ''one'') (\<lambda>data.
     open_test env (
     call (register_test L data) (\<lambda>grant_hash.
     call (register_test L data) (\<lambda>again.
     verify_that (again = grant_hash) (
     call (put_test (test_snapshot L 1)) (\<lambda>_.
     call (claim_test L (cf_grant data) (test_request ''attempt-one'' 1) 4000) (\<lambda>claim.
     verify_that (dc_grant_hash claim = grant_hash) (
     call (mark_test L grant_hash ''attempt-one'' 4100) (\<lambda>_.
     given (ep_commitment L (cf_proposal data)) (\<lambda>proposal_hash.
     let receipt = test_receipt_of L ''receipt-one'' proposal_hash grant_hash ''attempt-one''
           (Some 4100) 4500 Unknown ''unknown'' in
     call (receipt_test L receipt) (\<lambda>receipt_hash.
     let reconciliation = \<lparr>rr_version = 1, rr_reconciliation_id = ''reconcile-one'',
           rr_receipt_hash = receipt_hash, rr_sequence = 1, rr_parent_reconciliation_hash = None,
           rr_observed_at_ms = 5000, rr_outcome = EffectConfirmed,
           rr_evidence_digest = from_payload L ''target-observation''\<rparr> in
     call (reconcile_test L reconciliation) (\<lambda>_.
     open_test env (
     call (lifecycle_test L grant_hash) (\<lambda>lifecycle.
     verify_that (map_option dc_attempt_id (lc_claim lifecycle) = Some ''attempt-one'') (
     verify_that (map_option er_receipt_id (lc_receipt lifecycle) = Some ''receipt-one'') (
     verify_that (length (lc_reconciliations lifecycle) = 1) (
     verify_that (rr_receipt_hash (lc_reconciliations lifecycle ! 0) = receipt_hash)
     passed)))))))))))))))))
     new_file"

definition stale_currentness_rolls_back_claim_atomically ::
    "lib \<Rightarrow> surroundings \<Rightarrow> store_error failure + unit" where
  "stale_currentness_rolls_back_claim_atomically L env =
     open_test env (
     given (sql_fixture L ''atomic'') (\<lambda>data.
     call (register_test L data) (\<lambda>hash.
     call (put_test (test_snapshot L 2)) (\<lambda>_.
     observe (claim_test L (cf_grant data) (test_request ''losing-attempt'' 1) 4000) (\<lambda>r.
     verify_that (r = Inl SE_StaleSnapshot) (
     call (lifecycle_test L hash) (\<lambda>lifecycle.
     verify_that (lc_claim lifecycle = None) (
     call (claim_test L (cf_grant data) (test_request ''winning-attempt'' 2) 4001) (\<lambda>winning.
     verify_that (dc_attempt_id winning = ''winning-attempt'')
     passed)))))))))
     new_file"

definition claim_rejects_stale_and_future_currentness_without_consuming_grant ::
    "lib \<Rightarrow> surroundings \<Rightarrow> store_error failure + unit" where
  "claim_rejects_stale_and_future_currentness_without_consuming_grant L env =
     open_test env (
     given (sql_fixture L ''freshness'') (\<lambda>data.
     call (register_test L data) (\<lambda>hash.
     let old = (test_snapshot L 1)\<lparr>cu_observed_at_ms := 3000\<rparr> in
     call (put_test old) (\<lambda>_.
     let old_request = (test_request ''old-attempt'' 1)\<lparr>cq_maximum_snapshot_age_ms := 100\<rparr> in
     observe (claim_test L (cf_grant data) old_request 4000) (\<lambda>r.
     verify_that (r = Inl SE_StaleCurrentness) (
     call (lifecycle_test L hash) (\<lambda>lifecycle.
     verify_that (lc_claim lifecycle = None) (
     let future = (test_snapshot L 2)\<lparr>cu_observed_at_ms := 4100\<rparr> in
     call (put_test future) (\<lambda>_.
     observe (claim_test L (cf_grant data) (test_request ''future-attempt'' 2) 4000) (\<lambda>r.
     verify_that (r = Inl SE_SnapshotFromFuture) (
     call (lifecycle_test L hash) (\<lambda>lifecycle.
     verify_that (lc_claim lifecycle = None)
     passed))))))))))))
     new_file"

definition dispatch_reapplies_the_claimed_freshness_budget ::
    "lib \<Rightarrow> surroundings \<Rightarrow> store_error failure + unit" where
  "dispatch_reapplies_the_claimed_freshness_budget L env =
     open_test env (
     given (sql_fixture L ''dispatch-freshness'') (\<lambda>data.
     call (register_test L data) (\<lambda>hash.
     let current = (test_snapshot L 1)\<lparr>cu_observed_at_ms := 3950\<rparr> in
     call (put_test current) (\<lambda>_.
     let request = (test_request ''fresh-at-claim'' 1)\<lparr>cq_maximum_snapshot_age_ms := 100\<rparr> in
     call (claim_test L (cf_grant data) request 4000) (\<lambda>_.
     observe (mark_test L hash ''fresh-at-claim'' 4051) (\<lambda>r.
     verify_that (r = Inl SE_StaleCurrentness) (
     call (lifecycle_test L hash) (\<lambda>lifecycle.
     verify_that (Option.bind (lc_claim lifecycle) dc_dispatch_started_at_ms = None)
     passed))))))))
     new_file"

definition currentness_is_rechecked_at_the_dispatch_boundary ::
    "lib \<Rightarrow> surroundings \<Rightarrow> store_error failure + unit" where
  "currentness_is_rechecked_at_the_dispatch_boundary L env =
     open_test env (
     given (sql_fixture L ''dispatch-fence'') (\<lambda>data.
     call (register_test L data) (\<lambda>hash.
     call (put_test (test_snapshot L 1)) (\<lambda>_.
     call (claim_test L (cf_grant data) (test_request ''fenced-attempt'' 1) 4000) (\<lambda>_.
     call (put_test (test_snapshot L 2)) (\<lambda>_.
     observe (mark_test L hash ''fenced-attempt'' 4100) (\<lambda>r.
     verify_that (r = Inl SE_StaleSnapshot) (
     call (lifecycle_test L hash) (\<lambda>lifecycle.
     verify_that (Option.bind (lc_claim lifecycle) dc_dispatch_started_at_ms = None)
     passed)))))))))
     new_file"

text \<open>
  The two threads open the file and then claim; the claims are transactions, so an execution is
  one of the two orders.
\<close>

definition two_connections_cannot_claim_the_same_grant ::
    "lib \<Rightarrow> surroundings \<Rightarrow> nat \<Rightarrow> nat \<Rightarrow> store_error failure + unit" where
  "two_connections_cannot_claim_the_same_grant L env first second =
     given (sql_fixture L ''race'') (\<lambda>data.
     open_test env (
     call (register_test L data) (\<lambda>_.
     call (put_test (test_snapshot L 1)) (\<lambda>_.
     open_test env (
     open_test env (
     observe (claim_test L (cf_grant data) (test_request (''attempt-'' @ decimal first) 1) 4000) (\<lambda>r1.
     observe (claim_test L (cf_grant data) (test_request (''attempt-'' @ decimal second) 1) 4000) (\<lambda>r2.
     verify_that (length (filter (\<lambda>r. \<not> isl r) [r1, r2]) = 1) (
     verify_that (length (filter (\<lambda>r. r = Inl SE_GrantAlreadyClaimed) [r1, r2]) = 1)
     passed)))))))))
     new_file"

definition dispatch_and_receipt_evidence_cannot_conflict ::
    "lib \<Rightarrow> surroundings \<Rightarrow> store_error failure + unit" where
  "dispatch_and_receipt_evidence_cannot_conflict L env =
     open_test env (
     given (sql_fixture L ''dispatch'') (\<lambda>data.
     call (register_test L data) (\<lambda>hash.
     call (put_test (test_snapshot L 1)) (\<lambda>_.
     call (claim_test L (cf_grant data) (test_request ''attempt-dispatch'' 1) 4000) (\<lambda>_.
     call (mark_test L hash ''attempt-dispatch'' 4100) (\<lambda>_.
     given (ep_commitment L (cf_proposal data)) (\<lambda>proposal_hash.
     let contradictory = test_receipt_of L ''receipt-not-dispatched'' proposal_hash hash
           ''attempt-dispatch'' None 4200 NotDispatched ''none'' in
     observe (receipt_test L contradictory) (\<lambda>r.
     verify_that (r = Inl SE_DispatchEvidenceMismatch) (
     call (lifecycle_test L hash) (\<lambda>lifecycle.
     verify_that (lc_receipt lifecycle = None)
     passed))))))))))
     new_file"

definition receipt_outcome_case ::
    "lib \<Rightarrow> surroundings \<Rightarrow> string \<times> receipt_outcome \<times> bool \<Rightarrow> store_error failure + unit" where
  "receipt_outcome_case L env c =
     (case c of (suffix, outcome, dispatched) \<Rightarrow>
     open_test env (
     given (sql_fixture L suffix) (\<lambda>data.
     call (register_test L data) (\<lambda>hash.
     call (put_test (test_snapshot L 1)) (\<lambda>_.
     let attempt_id = ''attempt-'' @ suffix in
     call (claim_test L (cf_grant data) (test_request attempt_id 1) 4000) (\<lambda>_.
     (\<lambda>k. if dispatched then call (mark_test L hash attempt_id 4100) (\<lambda>_. k (Some 4100)) else k None)
     (\<lambda>dispatched_at_ms.
     given (ep_commitment L (cf_proposal data)) (\<lambda>proposal_hash.
     let receipt = test_receipt_of L (''receipt-'' @ suffix) proposal_hash hash attempt_id
           dispatched_at_ms 4500 outcome suffix in
     call (receipt_test L receipt) (\<lambda>_.
     call (lifecycle_test L hash) (\<lambda>lifecycle.
     verify_that (lc_receipt lifecycle = Some receipt)
     passed)))))))))
     new_file)"

definition all_receipt_outcomes_preserve_exact_dispatch_knowledge ::
    "lib \<Rightarrow> surroundings \<Rightarrow> store_error failure + unit" where
  "all_receipt_outcomes_preserve_exact_dispatch_knowledge L env =
     checks (map (receipt_outcome_case L env)
       [(''not-dispatched'', NotDispatched, False), (''succeeded'', Succeeded, True),
        (''failed'', Failed, True), (''unknown'', Unknown, True)])"

definition trusted_clock_and_attempt_uniqueness_survive_reopen ::
    "lib \<Rightarrow> surroundings \<Rightarrow> store_error failure + unit" where
  "trusted_clock_and_attempt_uniqueness_survive_reopen L env =
     given (sql_fixture L ''first'') (\<lambda>first.
     given (sql_fixture L ''second'') (\<lambda>second.
     open_test env (
     call (register_test L first) (\<lambda>_.
     call (register_test L second) (\<lambda>_.
     call (put_test (test_snapshot L 1)) (\<lambda>_.
     call (claim_test L (cf_grant first) (test_request ''global-attempt'' 1) 5000) (\<lambda>_.
     open_test env (
     observe (claim_test L (cf_grant second) (test_request ''other-attempt'' 1) 4999) (\<lambda>r.
     verify_that (r = Inl SE_ClockRollback) (
     observe (claim_test L (cf_grant second) (test_request ''global-attempt'' 1) 5001) (\<lambda>r.
     verify_that (r = Inl SE_AttemptAlreadyUsed) (
     given (eg_commitment L (cf_grant second)) (\<lambda>second_hash.
     call (lifecycle_test L second_hash) (\<lambda>lifecycle.
     verify_that (lc_claim lifecycle = None) (
     call (claim_test L (cf_grant second) (test_request ''fresh-attempt'' 1) 5002) (\<lambda>_.
     passed))))))))))))))))
     new_file"

definition currentness_is_monotonic_and_revocation_is_sticky_per_epoch ::
    "lib \<Rightarrow> surroundings \<Rightarrow> store_error failure + unit" where
  "currentness_is_monotonic_and_revocation_is_sticky_per_epoch L env =
     open_test env (
     let revoked = (test_snapshot L 1)\<lparr>cu_revoked := True\<rparr> in
     call (put_test revoked) (\<lambda>_.
     let stale = revoked\<lparr>cu_version := 1, cu_revoked := False\<rparr> in
     observe (put_test stale) (\<lambda>r.
     verify_that (r = Inl SE_CurrentnessVersionConflict) (
     let rollback = revoked\<lparr>cu_version := 2, cu_revoked := False,
                            cu_observed_at_ms := cu_observed_at_ms revoked + 1\<rparr> in
     observe (put_test rollback) (\<lambda>r.
     verify_that (r = Inl SE_RevocationRollback) (
     let rollback = rollback\<lparr>cu_policy_epoch := cu_policy_epoch rollback + 1\<rparr> in
     call (put_test rollback) (\<lambda>_.
     passed)))))))
     new_file"

text \<open>
  The statements that the test runs before \<open>open\<close>: one table of its own, and in the first
  database another user version.
\<close>

definition unknown_and_foreign_schemas_are_refused_without_mutation ::
    "surroundings \<Rightarrow> store_error failure + unit" where
  "unknown_and_foreign_schemas_are_refused_without_mutation env =
     (let keep = \<lparr>so_type = ''table'', so_name = ''keep'', so_has_sql = True\<rparr>;
          future = new_file\<lparr>fl_objects := [keep], fl_user_version := 99\<rparr>;
          foreign = new_file\<lparr>fl_objects := [keep]\<rparr> in
      rbind (assert_that (fst (sql_open env ''future.sqlite3'' future) = Inl SE_IncompatibleSchema)) (\<lambda>_.
      rbind (assert_that (fst (sql_open env ''foreign.sqlite3'' foreign) = Inl SE_ForeignDatabase)) (\<lambda>_.
      Inr ())))"

end
