(* ===== verification/Sqlite_Running.thy ===== *)
theory Sqlite_Running
  imports Sqlite_Progress Sqlite_Schema
begin

text \<open>
  The operations of the SQLite store evaluated on databases that hold a few rows (\<open>small_db\<close>),
  errors included. The unit tests of the store and of the executor run on such databases.
\<close>

section \<open>Small databases\<close>

definition row_of_snapshot :: "currentness_snapshot \<Rightarrow> currentness_row" where
  "row_of_snapshot s = \<lparr>kr_key = cu_key s, kr_version = uint (cu_version s),
     kr_policy_epoch = uint (cu_policy_epoch s), kr_configuration_epoch = uint (cu_configuration_epoch s),
     kr_pre_state_digest = as_str (cu_pre_state_digest s),
     kr_resource_claim_digest = as_str (cu_resource_claim_digest s),
     kr_revoked = (if cu_revoked s then 1 else 0), kr_observed_at_ms = uint (cu_observed_at_ms s)\<rparr>"

definition small_db ::
    "(string \<times> raw_chain) list \<Rightarrow> currentness_snapshot list \<Rightarrow> durable_claim list
     \<Rightarrow> receipt_row list \<Rightarrow> reconciliation_row list \<Rightarrow> u64 option \<Rightarrow> database" where
  "small_db chain_rows snapshots claims receipts records time =
     \<lparr>db_last_time = Some (map_option uint time), db_currentness = map row_of_snapshot snapshots,
      db_chains = chain_rows, db_claims = map row_of_claim claims, db_receipts = receipts,
      db_reconciliations = records\<rparr>"

lemma small_db_empty: "empty_database = small_db [] [] [] [] [] None"
  by (simp add: empty_database_def small_db_def)

lemma small_db_fields [simp]:
  "db_last_time (small_db cs ss ds rs xs t) = Some (map_option uint t)"
  "db_currentness (small_db cs ss ds rs xs t) = map row_of_snapshot ss"
  "db_chains (small_db cs ss ds rs xs t) = cs" "db_claims (small_db cs ss ds rs xs t) = map row_of_claim ds"
  "db_receipts (small_db cs ss ds rs xs t) = rs" "db_reconciliations (small_db cs ss ds rs xs t) = xs"
  by (simp_all add: small_db_def)

lemma small_db_updates [simp]:
  "small_db cs ss ds rs xs t\<lparr>db_chains := cs'\<rparr> = small_db cs' ss ds rs xs t"
  "small_db cs ss ds rs xs t\<lparr>db_receipts := rs'\<rparr> = small_db cs ss ds rs' xs t"
  "small_db cs ss ds rs xs t\<lparr>db_reconciliations := xs'\<rparr> = small_db cs ss ds rs xs' t"
  "small_db cs ss ds rs xs t\<lparr>db_last_time := Some (Some (uint now))\<rparr> = small_db cs ss ds rs xs (Some now)"
  "small_db cs ss ds rs xs t\<lparr>db_claims := map row_of_claim ds'\<rparr> = small_db cs ss ds' rs xs t"
  "small_db cs ss ds rs xs t\<lparr>db_currentness := map row_of_snapshot ss'\<rparr> = small_db cs ss' ds rs xs t"
  by (simp_all add: small_db_def)

lemma find_map_rows: "find P (map f xs) = map_option f (find (P \<circ> f) xs)"
  by (induction xs) auto

lemma as_str_eq: "as_str a = as_str b \<longleftrightarrow> a = b"
  by (metis digest32.expand)

lemma small_lookups [simp]:
  "currentness_of (small_db cs ss ds rs xs t) k = map_option row_of_snapshot (find (\<lambda>s. cu_key s = k) ss)"
  "claim_of (small_db cs ss ds rs xs t) (as_str h) = map_option row_of_claim (find (\<lambda>d. dc_grant_hash d = h) ds)"
  "chain_by_id (small_db cs ss ds rs xs t) i = map_option snd (find (\<lambda>(j, r). j = i) cs)"
  "chain_by_hash (small_db cs ss ds rs xs t) k = find (\<lambda>r. rc_grant_hash r = k) (map snd cs)"
  "receipt_of (small_db cs ss ds rs xs t) k = find (\<lambda>r. re_grant_hash r = k) rs"
  by (simp_all add: lookup_defs find_map_rows comp_def row_of_snapshot_def row_of_claim_def as_str_eq)

section \<open>Opening\<close>

text \<open>The file of a store with the given data, which \<open>open\<close> creates and leaves as it is.\<close>

abbreviation store_on :: "database \<Rightarrow> database_file" where
  "store_on db \<equiv> (initialized (in_wal new_file))\<lparr>fl_data := db\<rparr>"

lemma small_open_new:
  assumes "quiet_env env" and "path \<noteq> []"
  shows "sql_open env path new_file = (Inr (), store_on (small_db [] [] [] [] [] None))"
proof -
  have "sql_open env path new_file = (Inr (), initialized (in_wal new_file))"
    using quiet_open [OF assms, of new_file] quiet_new [OF assms(1), of "in_wal new_file"]
    by (simp add: obind_def quiet_preflight [OF assms(1)] new_file_def)
  moreover have "initialized (in_wal new_file) = store_on (small_db [] [] [] [] [] None)"
    by (simp add: initialized_def small_db_empty)
  ultimately show ?thesis by simp
qed

lemma small_open_again:
  assumes "quiet_env env" and "path \<noteq> []"
  shows "sql_open env path (store_on db) = (Inr (), store_on db)"
proof -
  have f: "fl_user_version (store_on db) = 1" "fl_application_id (store_on db) = APPLICATION_ID"
    "in_wal (store_on db) = store_on db"
    by (simp_all add: initialized_def in_wal_def)
  have "has_objects (store_on db)"
    using initialized_ok [of "in_wal new_file"] by (simp add: has_objects_def has_object_def)
  then show ?thesis
    using quiet_open [OF assms, of "store_on db"] quiet_old [OF assms(1), of "store_on db"] f
    by (simp add: obind_def quiet_preflight [OF assms(1)] SCHEMA_VERSION_def)
qed

section \<open>Registration\<close>

lemma register_small:
  assumes "register_row L c p d g = Inr (h, row)"
  shows "register_chain L no_faults c p d g (small_db [] ss ds rs xs t)
      = (Inr h, small_db [(eg_grant_id g, row)] ss ds rs xs t)"
    and "register_chain L no_faults c p d g (small_db [(eg_grant_id g, row)] ss ds rs xs t)
      = (Inr h, small_db [(eg_grant_id g, row)] ss ds rs xs t)"
    and "j \<noteq> eg_grant_id g \<Longrightarrow> rc_grant_hash r \<noteq> rc_grant_hash row \<Longrightarrow>
      rc_proposal_hash r \<noteq> rc_proposal_hash row \<Longrightarrow> rc_decision_hash r \<noteq> rc_decision_hash row \<Longrightarrow>
      register_chain L no_faults c p d g (small_db [(j, r)] ss ds rs xs t)
      = (Inr h, small_db [(j, r), (eg_grant_id g, row)] ss ds rs xs t)"
  by (simp_all add: register_succeeds [OF assms] chain_available_def with_chain_def)

section \<open>Currentness\<close>

definition snapshot_ok :: "currentness_snapshot \<Rightarrow> bool" where
  "snapshot_ok s \<longleftrightarrow> validate_snapshot s = Inr () \<and> digest_ok (cu_pre_state_digest s)
     \<and> digest_ok (cu_resource_claim_digest s)"

lemma snapshot_row_small:
  assumes "snapshot_ok s"
  shows "snapshot_params s = Inr (row_of_snapshot s)" and "currentness_check (row_of_snapshot s)"
    and "decode_currentness (cu_key s) (row_of_snapshot s) = Inr s"
proof -
  from assms obtain row where row: "snapshot_params s = Inr row" "currentness_check row"
      "decode_currentness (cu_key s) row = Inr s"
    using snapshot_row [of s] by (auto simp: snapshot_ok_def)
  moreover from row(1) have "row = row_of_snapshot s"
    by (simp add: snapshot_params_ok row_of_snapshot_def)
  ultimately show "snapshot_params s = Inr (row_of_snapshot s)" "currentness_check (row_of_snapshot s)"
    "decode_currentness (cu_key s) (row_of_snapshot s) = Inr s" by simp_all
qed

lemma row_of_snapshot_key [simp]: "kr_key (row_of_snapshot s) = cu_key s"
  by (simp add: row_of_snapshot_def)

lemma put_small:
  assumes "snapshot_ok s"
  shows "put_currentness no_faults s (small_db cs [] ds rs xs t) = (Inr (), small_db cs [s] ds rs xs t)"
    and "snapshot_ok p \<Longrightarrow> cu_key p = cu_key s \<Longrightarrow>
      put_currentness no_faults s (small_db cs [p] ds rs xs t) =
        (if p = s then (Inr (), small_db cs [p] ds rs xs t)
         else (case put_checks s p of
             Inl e \<Rightarrow> (Inl e, small_db cs [p] ds rs xs t)
           | Inr _ \<Rightarrow> (Inr (), small_db cs [s] ds rs xs t)))"
proof -
  note row = snapshot_row_small [OF assms]
  note put = put_currentness_def before_def transact_def put_body_def load_currentness_clean execute_def
  have v: "validate_snapshot s = Inr ()" using assms by (simp add: snapshot_ok_def)
  show "put_currentness no_faults s (small_db cs [] ds rs xs t) = (Inr (), small_db cs [s] ds rs xs t)"
    using small_db_updates(6) [of "[s]" cs "[]" ds rs xs t]
    by (simp add: put v row insert_currentness_def constrained_def del: small_db_updates)
  assume p: "snapshot_ok p" "cu_key p = cu_key s"
  show "put_currentness no_faults s (small_db cs [p] ds rs xs t) =
        (if p = s then (Inr (), small_db cs [p] ds rs xs t)
         else (case put_checks s p of
             Inl e \<Rightarrow> (Inl e, small_db cs [p] ds rs xs t)
           | Inr _ \<Rightarrow> (Inr (), small_db cs [s] ds rs xs t)))"
    using snapshot_row_small(3) [OF p(1)] p(2) small_db_updates(6) [of "[s]" cs "[p]" ds rs xs t]
    by (cases "put_checks s p")
       (simp_all add: put v row update_currentness_def constrained_def del: small_db_updates)
qed

section \<open>Claims\<close>

lemma small_holder [simp]:
  "row_holder cl_grant_hash (small_db cs ss ds rs xs t) (as_str h) = None
     \<longleftrightarrow> (\<forall>d \<in> set ds. dc_grant_hash d \<noteq> h)"
  "row_holder cl_attempt_id (small_db cs ss ds rs xs t) a = None \<longleftrightarrow> (\<forall>d \<in> set ds. dc_attempt_id d \<noteq> a)"
  by (auto simp: row_holder_def find_None_iff row_of_claim_def as_str_eq)

text \<open>
  A claim request that passes validation is decided by the clock, the currentness of the chain
  and the rows of \<open>claims\<close>, in this order.
\<close>

lemma taken_small:
  assumes used: "(\<exists>d \<in> set ds. dc_grant_hash d = dc_grant_hash c) \<or> (\<exists>d \<in> set ds. dc_attempt_id d = dc_attempt_id c)"
  shows "execute_claim no_faults (row_of_claim c) (small_db cs ss ds rs xs t) =
    Inl (if \<exists>d \<in> set ds. dc_grant_hash d = dc_grant_hash c then SE_GrantAlreadyClaimed else SE_AttemptAlreadyUsed)"
proof -
  have "list_ex (\<lambda>r. cl_grant_hash r = cl_grant_hash (row_of_claim c) \<or> cl_attempt_id r = cl_attempt_id (row_of_claim c))
      (map row_of_claim ds)"
    using used by (simp add: list_ex_iff row_of_claim_def as_str_eq) blast
  then have refused: "insert_claim (row_of_claim c) (small_db cs ss ds rs xs t) = Inl (SqliteFailure ConstraintViolation)"
    by (simp add: insert_claim_def constrained_def)
  have "find (\<lambda>r. cl_grant_hash r = cl_grant_hash (row_of_claim c)) (map row_of_claim ds) = None
      \<longleftrightarrow> \<not> (\<exists>d \<in> set ds. dc_grant_hash d = dc_grant_hash c)"
    by (simp add: find_None_iff row_of_claim_def as_str_eq)
  then have "claim_exists no_faults (cl_grant_hash (row_of_claim c)) (small_db cs ss ds rs xs t)
      = Inr (\<exists>d \<in> set ds. dc_grant_hash d = dc_grant_hash c)"
    by (simp add: claim_exists_def query_find_clean del: not_None_eq)
  with refused show ?thesis by (simp add: execute_claim_def is_constraint_def)
qed

lemma claim_small:
  assumes q: "validate_claim_request q = Inr ()" and now: "now \<le> MAX_SAFE_INTEGER"
    and raw: "map_option snd (find (\<lambda>(j, r). j = eg_grant_id g) cs) = Some raw"
      "decode_chain L raw = Inr chain" "sc_grant chain = g"
    and s: "snapshot_ok s" "cq_currentness_key q = cu_key s"
  shows "sql_claim L no_faults g q now (small_db cs [s] ds rs xs t) =
    (if \<exists>u. t = Some u \<and> now < u then (Inl SE_ClockRollback, small_db cs [s] ds rs xs t)
     else (case claim_currentness chain s q now of
         Inl e \<Rightarrow> (Inl e, small_db cs [s] ds rs xs t)
       | Inr _ \<Rightarrow>
           if \<exists>d \<in> set ds. dc_grant_hash d = sc_grant_hash chain
           then (Inl SE_GrantAlreadyClaimed, small_db cs [s] ds rs xs t)
           else if \<exists>d \<in> set ds. dc_attempt_id d = cq_attempt_id q
           then (Inl SE_AttemptAlreadyUsed, small_db cs [s] ds rs xs t)
           else (Inr (claim_result (sc_grant_hash chain) q now),
                 small_db cs [s] (ds @ [claim_result (sc_grant_hash chain) q now]) rs xs (Some now))))"
proof -
  let ?db = "small_db cs [s] ds rs xs t" and ?c = "claim_result (sc_grant_hash chain) q now"
  note chain = decode_chain_ok [OF raw(2)]
  have bounds: "now \<le> MAX_SAFE_INTEGER" "cq_maximum_snapshot_age_ms q \<le> MAX_SAFE_INTEGER"
    "cq_expected_snapshot_version q \<le> MAX_SAFE_INTEGER"
    using now request_bounds [OF q] by simp_all
  have found: "load_chain_by_grant_id L no_faults (eg_grant_id g) ?db = Inr (Some chain)"
    "load_currentness no_faults (cq_currentness_key q) ?db = Inr (Some s)"
    using raw(1,2) snapshot_row_small(3) [OF s(1)] s(2) by (auto simp: load_Some)
  have inputs: "claim_inputs L g q now = Inr (sc_grant_hash chain)"
    using q chain raw(3) by (simp add: claim_inputs_def safe_i64_within [OF now])
  have clock: "check_clock no_faults (uint now) ?db = ensure (\<not> (\<exists>u. t = Some u \<and> now < u)) SE_ClockRollback"
    by (cases t) (simp_all add: check_clock_def load_last_time_def query_row_def word_less_def)
  have time: "?db\<lparr>db_last_time := map_option (\<lambda>_. Some (uint now)) (db_last_time ?db)\<rparr>
      = small_db cs [s] ds rs xs (Some now)" by simp
  have body: "claim_body L no_faults g q now (sc_grant_hash chain) ?db =
      rbind (ensure (\<not> (\<exists>u. t = Some u \<and> now < u)) SE_ClockRollback) (\<lambda>_.
      rbind (claim_currentness chain s q now) (\<lambda>_.
      rbind (execute_claim no_faults (row_of_claim ?c) (small_db cs [s] ds rs xs (Some now))) (\<lambda>db2.
      Inr (?c, db2))))"
    using found chain raw(3) bounds
    by (simp add: claim_body_def clock safe_i64_within execute_def update_last_time_def time
        row_of_claim_def claim_result_def)
  note taken = taken_small [of ds ?c cs "[s]" rs xs "Some now"]
  have names: "dc_grant_hash ?c = sc_grant_hash chain" "dc_attempt_id ?c = cq_attempt_id q"
    by (simp_all add: claim_result_def)
  show ?thesis
  proof (cases "(\<exists>u. t = Some u \<and> now < u) \<or> claim_currentness chain s q now \<noteq> Inr ()
      \<or> (\<exists>d \<in> set ds. dc_grant_hash d = sc_grant_hash chain) \<or> (\<exists>d \<in> set ds. dc_attempt_id d = cq_attempt_id q)")
    case True
    then show ?thesis
      by (cases "claim_currentness chain s q now")
         (auto simp: sql_claim_def before_def inputs transact_def body taken [unfolded names] ensure_def)
  next
    case False
    then have "sql_claim L no_faults g q now ?db = (Inr ?c, (at_time now ?db)\<lparr>db_claims := db_claims ?db @ [row_of_claim ?c]\<rparr>)"
      using raw s snapshot_row_small(3) [OF s(1)]
      by (intro claim_succeeds [OF q now _ _ raw(2,3)])
         (auto simp: clock_allows_def word_le_def word_less_def not_less)
    then show ?thesis using False small_db_updates(5) [of "ds @ [?c]" cs "[s]" ds rs xs "Some now"] by simp
  qed
qed

section \<open>The dispatch marker\<close>

definition claim_ok :: "durable_claim \<Rightarrow> bool" where
  "claim_ok d \<longleftrightarrow> decode_claim (as_str (dc_grant_hash d)) (row_of_claim d) = Inr d"

lemma claim_ok_iff:
  "claim_ok d \<longleftrightarrow> digest_ok (dc_grant_hash d) \<and> dc_snapshot_version d \<le> MAX_SAFE_INTEGER
     \<and> dc_maximum_snapshot_age_ms d \<le> MAX_SAFE_INTEGER \<and> dc_claimed_at_ms d \<le> MAX_SAFE_INTEGER
     \<and> (\<forall>t. dc_dispatch_started_at_ms d = Some t \<longrightarrow> t \<le> MAX_SAFE_INTEGER)"
  by (simp add: claim_ok_def decode_claim_ok row_of_claim_def)

lemma claimed_ok:
  "validate_claim_request q = Inr () \<Longrightarrow> now \<le> MAX_SAFE_INTEGER \<Longrightarrow> digest_ok h \<Longrightarrow> claim_ok (claim_result h q now)"
  using request_bounds [of q "()"] by (simp add: claim_ok_iff claim_result_def)

lemma mark_small:
  assumes d: "claim_ok d" "dc_dispatch_started_at_ms d = None" "dc_attempt_id d = a"
    and a: "store_validate_text ''attempt_id'' a 256 = Inr ()"
    and now: "now \<le> MAX_SAFE_INTEGER" "dc_claimed_at_ms d \<le> now" "0 < dc_maximum_snapshot_age_ms d"
    and raw: "find (\<lambda>r. rc_grant_hash r = as_str (dc_grant_hash d)) (map snd cs) = Some raw"
      "decode_chain L raw = Inr chain"
    and s: "snapshot_ok s" "cu_key s = dc_currentness_key d"
  shows "mark_dispatch_started L no_faults (dc_grant_hash d) a now (small_db cs [s] [d] rs xs t) =
    (if \<exists>u. t = Some u \<and> now < u then (Inl SE_ClockRollback, small_db cs [s] [d] rs xs t)
     else if eg_expires_at_ms (sc_grant chain) \<le> now then (Inl SE_GrantExpired, small_db cs [s] [d] rs xs t)
     else (case dispatch_currentness chain s d now of
         Inl e \<Rightarrow> (Inl e, small_db cs [s] [d] rs xs t)
       | Inr _ \<Rightarrow> (Inr \<lparr>dm_grant_hash = dc_grant_hash d, dm_attempt_id = a, dm_dispatched_at_ms = now\<rparr>,
           small_db cs [s] [d\<lparr>dc_dispatch_started_at_ms := Some now\<rparr>] rs xs (Some now))))"
proof -
  let ?db = "small_db cs [s] [d] rs xs t" and ?h = "dc_grant_hash d"
  have found: "load_claim no_faults (as_str ?h) ?db = Inr (Some d)"
    "load_chain_by_grant_hash L no_faults (as_str ?h) ?db = Inr (Some chain)"
    "load_currentness no_faults (dc_currentness_key d) ?db = Inr (Some s)"
    using d(1) raw snapshot_row_small(3) [OF s(1)] s(2)
    by (auto simp: load_Some claim_ok_def)
  have clock: "check_clock no_faults (uint now) ?db = ensure (\<not> (\<exists>u. t = Some u \<and> now < u)) SE_ClockRollback"
    by (cases t) (simp_all add: check_clock_def load_last_time_def query_row_def word_less_def)
  have "update_claims (\<lambda>r. cl_grant_hash r = as_str ?h \<and> cl_attempt_id r = a
        \<and> cl_dispatch_started_at_ms r = None) (\<lambda>r. r\<lparr>cl_dispatch_started_at_ms := Some (uint now)\<rparr>)
        (small_db cs [s] [d] rs xs (Some now))
      = Inr (small_db cs [s] [d\<lparr>dc_dispatch_started_at_ms := Some now\<rparr>] rs xs (Some now))"
    using d(2,3) now(2,3)
    by (simp add: update_claims_def constrained_def claims_update_guard_def claim_check_def row_of_claim_def
        small_db_def word_le_def word_less_def)
  then have marked: "execute no_faults UpdateDispatch (update_claims (\<lambda>r. cl_grant_hash r = as_str ?h \<and> cl_attempt_id r = a
        \<and> cl_dispatch_started_at_ms r = None) (\<lambda>r. r\<lparr>cl_dispatch_started_at_ms := Some (uint now)\<rparr>)
        (small_db cs [s] [d] rs xs (Some now)))
      = Inr (small_db cs [s] [d\<lparr>dc_dispatch_started_at_ms := Some now\<rparr>] rs xs (Some now))"
    by (simp add: execute_def)
  have inputs: "mark_inputs a now = Inr (uint now)"
    by (simp add: mark_inputs_def a safe_i64_within [OF now(1)])
  have body: "mark_body L no_faults ?h a now (uint now) ?db =
      rbind (ensure (\<not> (\<exists>u. t = Some u \<and> now < u)) SE_ClockRollback) (\<lambda>_.
      rbind (ensure (\<not> now \<ge> eg_expires_at_ms (sc_grant chain)) SE_GrantExpired) (\<lambda>_.
      rbind (dispatch_currentness chain s d now) (\<lambda>_.
      Inr (\<lparr>dm_grant_hash = ?h, dm_attempt_id = a, dm_dispatched_at_ms = now\<rparr>,
        small_db cs [s] [d\<lparr>dc_dispatch_started_at_ms := Some now\<rparr>] rs xs (Some now)))))"
    using d now(2) found marked
    by (simp add: mark_body_def Let_def clock not_less execute_def update_last_time_def)
  show ?thesis
    by (cases "dispatch_currentness chain s d now")
       (auto simp: mark_dispatch_started_def before_def inputs transact_def body ensure_def)
qed

section \<open>Receipts and reconciliation records\<close>

definition json_text :: "protocol_error + string \<Rightarrow> string" where
  "json_text r = (case r of Inl e \<Rightarrow> [] | Inr s \<Rightarrow> s)"

lemma json_text_Inr [simp]: "json_text (Inr s) = s"
  by (simp add: json_text_def)

definition row_of_receipt :: "lib \<Rightarrow> effect_receipt \<Rightarrow> digest32 \<Rightarrow> receipt_row" where
  "row_of_receipt L r h = \<lparr>re_grant_hash = as_str (er_grant_hash r), re_receipt_id = er_receipt_id r,
     re_receipt_hash = as_str h, re_receipt_json = json_text (canonical_json L (er_value r))\<rparr>"

lemma receipt_text:
  assumes "conforming L" and "er_commitment L r = Inr h"
  shows "\<exists>j. canonical_json L (er_value r) = Inr j"
    and "er_digests r \<Longrightarrow> decode_receipt L (row_of_receipt L r h) = Inr r"
proof -
  have "quotes L" using assms(1) by (simp add: conforming_def quote_conforms_quotes)
  with commitment_okD(5) [OF assms] show j: "\<exists>j. canonical_json L (er_value r) = Inr j"
    using er.valid_canonical [of L r] by auto
  then obtain j where "canonical_json L (er_value r) = Inr j" by blast
  then show "er_digests r \<Longrightarrow> decode_receipt L (row_of_receipt L r h) = Inr r"
    by (intro decode_recorded [OF assms]) (simp_all add: row_of_receipt_def)
qed

text \<open>A claimed grant with its chain, as the operations on receipts find it.\<close>

definition claimed_chain :: "lib \<Rightarrow> (string \<times> raw_chain) list \<Rightarrow> durable_claim \<Rightarrow> stored_chain \<Rightarrow> bool" where
  "claimed_chain L cs d chain \<longleftrightarrow> claim_ok d
     \<and> (\<exists>raw. find (\<lambda>r. rc_grant_hash r = as_str (dc_grant_hash d)) (map snd cs) = Some raw
          \<and> decode_chain L raw = Inr chain)"

definition completes :: "lib \<Rightarrow> stored_chain \<Rightarrow> durable_claim \<Rightarrow> effect_receipt \<Rightarrow> digest32 \<Rightarrow> bool" where
  "completes L chain d r h \<longleftrightarrow> er_commitment L r = Inr h \<and> er_digests r \<and> er_grant_hash r = dc_grant_hash d
     \<and> er_attempt_id r = dc_attempt_id d \<and> er_claimed_at_ms r = dc_claimed_at_ms d
     \<and> (\<exists>v. verify_chain L (sc_commitment chain) (sc_proposal chain) (sc_decision chain) (sc_grant chain) r
              = Inr v \<and> vc_receipt_hash v = h)"

lemma claimed_loads:
  assumes "claimed_chain L cs d chain"
  shows "load_claim no_faults (as_str (dc_grant_hash d)) (small_db cs ss [d] rs xs t) = Inr (Some d)"
    and "load_chain_by_grant_hash L no_faults (as_str (dc_grant_hash d)) (small_db cs ss [d] rs xs t)
      = Inr (Some chain)"
  using assms by (auto simp: claimed_chain_def claim_ok_def load_Some)

lemma receipt_small:
  assumes L: "conforming L" and chain: "claimed_chain L cs d chain" and r: "completes L chain d r h"
  shows "record_receipt L no_faults r (small_db cs ss [d] [] xs t) =
    (case validate_dispatch_evidence r (dc_dispatch_started_at_ms d) of
       Inl e \<Rightarrow> (Inl e, small_db cs ss [d] [] xs t)
     | Inr _ \<Rightarrow> (Inr h, small_db cs ss [d] [row_of_receipt L r h] xs t))"
proof -
  let ?db = "small_db cs ss [d] [] xs t"
  from r obtain v where h: "er_commitment L r = Inr h"
    and v: "verify_chain L (sc_commitment chain) (sc_proposal chain) (sc_decision chain) (sc_grant chain) r
      = Inr v" and same: "er_grant_hash r = dc_grant_hash d" "er_attempt_id r = dc_attempt_id d"
      "er_claimed_at_ms r = dc_claimed_at_ms d"
    by (auto simp: completes_def)
  have none: "load_receipt_by_grant L no_faults (as_str (dc_grant_hash d)) ?db = Inr None"
    by (simp add: load_clean)
  obtain j where j: "canonical_json L (er_value r) = Inr j" using receipt_text(1) [OF L h] by blast
  have "vc_grant_hash v = dc_grant_hash d" using verify_chain_grant [OF v] same by simp
  then have insert: "insert_receipt \<lparr>re_grant_hash = as_str (vc_grant_hash v), re_receipt_id = er_receipt_id r,
        re_receipt_hash = as_str h, re_receipt_json = j\<rparr> ?db
      = Inr (small_db cs ss [d] [row_of_receipt L r h] xs t)"
    by (simp add: insert_receipt_def constrained_def row_of_receipt_def same row_of_claim_def j)
  have "receipt_inputs L r = Inr h"
    using h commitment_okD(5) [OF L h] by (simp add: receipt_inputs_def)
  moreover have "receipt_body L no_faults r h ?db =
      rbind (validate_dispatch_evidence r (dc_dispatch_started_at_ms d)) (\<lambda>_.
        Inr (h, small_db cs ss [d] [row_of_receipt L r h] xs t))"
    using v same j
    by (simp add: receipt_body_def Let_def claimed_loads [OF chain] none insert)
  ultimately show ?thesis
    by (cases "validate_dispatch_evidence r (dc_dispatch_started_at_ms d)")
       (simp_all add: record_receipt_def before_def transact_def)
qed

lemma reconcile_small:
  assumes L: "conforming L" and r: "er_commitment L r = Inr h" "er_digests r"
    and x: "rr_commitment L x = Inr k" "rr_receipt_hash x = h" "verify_reconciliation L r None x = Inr k"
  shows "append_reconciliation L no_faults x (small_db cs ss ds [row_of_receipt L r h] [] t)
    = (Inr k, small_db cs ss ds [row_of_receipt L r h]
        [row_of_record x k (json_text (canonical_json L (rr_value x)))] t)"
proof -
  let ?db = "small_db cs ss ds [row_of_receipt L r h] [] t"
  have "quotes L" using L by (simp add: conforming_def quote_conforms_quotes)
  with commitment_okD(6) [OF L x(1)] obtain j where j: "canonical_json L (rr_value x) = Inr j"
    using rr.valid_canonical [of L x] by auto
  have one: "rr_sequence x = 1" "rr_parent_reconciliation_hash x = None"
    using x(3) by (simp_all add: verify_reconciliation_ok follows_def)
  have "reconcile_inputs L x = Inr k"
    using x(1) commitment_okD(6) [OF L x(1)] by (simp add: reconcile_inputs_def)
  moreover have "load_receipt_by_hash L no_faults (as_str h) ?db = Inr (Some r)"
    using receipt_text(2) [OF L r] by (simp add: load_Some receipt_hashed_def row_of_receipt_def)
  moreover have "load_reconciliation_at L no_faults (as_str h) 1 ?db = Inr None"
    "reconciliation_count no_faults (as_str h) ?db = Inr 0"
    "load_latest_reconciliation L no_faults (as_str h) ?db = Inr None"
    by (simp_all add: load_reconciliation_at_def safe_i64_def query_find_clean reconciliation_count_def
        query_row_def reconciliations_of_def load_latest_reconciliation_def query_optional_clean)
  moreover have "insert_reconciliation (row_of_record x k (json_text (canonical_json L (rr_value x)))) ?db
      = Inr (small_db cs ss ds [row_of_receipt L r h]
          [row_of_record x k (json_text (canonical_json L (rr_value x)))] t)"
    using x(2) one by (simp add: insert_reconciliation_def constrained_def row_of_record_def row_of_receipt_def)
  ultimately show ?thesis
    using x j one
    by (simp add: append_reconciliation_def before_def transact_def reconcile_body_def Let_def
        MAX_RECONCILIATION_RECORDS_def safe_i64_def execute_reconciliation_def row_of_record_def)
qed

section \<open>Lifecycles\<close>

lemma lifecycle_small:
  assumes raw: "find (\<lambda>r. rc_grant_hash r = as_str h) (map snd cs) = Some raw" "decode_chain L raw = Inr chain"
    and ds: "\<forall>d \<in> set ds. claim_ok d"
  shows "lifecycle_of L no_faults h (small_db cs ss ds [] xs t) = Inr \<lparr>lc_grant_hash = h,
    lc_claim = find (\<lambda>d. dc_grant_hash d = h) ds, lc_receipt = None, lc_reconciliations = []\<rparr>"
proof -
  let ?db = "small_db cs ss ds [] xs t"
  have "load_claim no_faults (as_str h) ?db = Inr (find (\<lambda>d. dc_grant_hash d = h) ds)"
  proof (cases "find (\<lambda>d. dc_grant_hash d = h) ds")
    case (Some d)
    with find_in [OF Some] ds have "dc_grant_hash d = h" "claim_ok d" by auto
    with Some show ?thesis by (auto simp: load_clean claim_ok_def)
  qed (simp add: load_clean)
  then show ?thesis using raw by (simp add: read_lifecycle_def load_clean)
qed

lemma lifecycle_receipt_small:
  assumes L: "conforming L" and chain: "claimed_chain L cs d chain" and r: "completes L chain d r h"
    and e: "validate_dispatch_evidence r (dc_dispatch_started_at_ms d) = Inr ()"
  shows "lifecycle_of L no_faults (dc_grant_hash d) (small_db cs ss [d] [row_of_receipt L r h] [] t) =
      Inr \<lparr>lc_grant_hash = dc_grant_hash d, lc_claim = Some d, lc_receipt = Some r, lc_reconciliations = []\<rparr>"
    and "rr_commitment L x = Inr k \<Longrightarrow> rr_digests x \<Longrightarrow> rr_receipt_hash x = h
      \<Longrightarrow> verify_reconciliation L r None x = Inr k \<Longrightarrow>
      lifecycle_of L no_faults (dc_grant_hash d) (small_db cs ss [d] [row_of_receipt L r h]
          [row_of_record x k (json_text (canonical_json L (rr_value x)))] t) =
      Inr \<lparr>lc_grant_hash = dc_grant_hash d, lc_claim = Some d, lc_receipt = Some r, lc_reconciliations = [x]\<rparr>"
proof -
  from r obtain v where h: "er_commitment L r = Inr h" "er_digests r"
    and v: "verify_chain L (sc_commitment chain) (sc_proposal chain) (sc_decision chain) (sc_grant chain) r
      = Inr v" and same: "er_grant_hash r = dc_grant_hash d" "er_attempt_id r = dc_attempt_id d"
      "er_claimed_at_ms r = dc_claimed_at_ms d"
    by (auto simp: completes_def)
  have found: "load_receipt_by_grant L no_faults (as_str (dc_grant_hash d))
      (small_db cs ss [d] [row_of_receipt L r h] xs t) = Inr (Some r)" for xs
    using receipt_text(2) [OF L h] by (simp add: load_clean row_of_receipt_def same)
  show "lifecycle_of L no_faults (dc_grant_hash d) (small_db cs ss [d] [row_of_receipt L r h] [] t) =
      Inr \<lparr>lc_grant_hash = dc_grant_hash d, lc_claim = Some d, lc_receipt = Some r, lc_reconciliations = []\<rparr>"
    using v same h e
    by (simp add: read_lifecycle_def claimed_loads [OF chain] found load_all_reconciliations_def
        reconciliations_of_def)
  assume x: "rr_commitment L x = Inr k" "rr_digests x" "rr_receipt_hash x = h"
    "verify_reconciliation L r None x = Inr k"
  have "quotes L" using L by (simp add: conforming_def quote_conforms_quotes)
  with commitment_okD(6) [OF L x(1)] obtain j where j: "canonical_json L (rr_value x) = Inr j"
    using rr.valid_canonical [of L x] by auto
  from decode_appended [OF L x(1) this x(2)] show "lifecycle_of L no_faults (dc_grant_hash d)
      (small_db cs ss [d] [row_of_receipt L r h] [row_of_record x k (json_text (canonical_json L (rr_value x)))] t) =
      Inr \<lparr>lc_grant_hash = dc_grant_hash d, lc_claim = Some d, lc_receipt = Some r, lc_reconciliations = [x]\<rparr>"
    using v same h e x j
    by (simp add: read_lifecycle_def claimed_loads [OF chain] found load_all_reconciliations_def
        reconciliations_of_def) (simp add: row_of_record_def)
qed

end
