(* ===== verification/Sqlite_Tests_Pass.thy ===== *)
theory Sqlite_Tests_Pass
  imports Sqlite_Tests Sqlite_Running
begin

text \<open>
  The unit tests of the SQLite crate pass on the model, for every conforming library and every
  engine that opens files without interference. Where a test registers two chains, their four
  unique columns are assumed to differ; the stored texts do differ, so this excludes a collision
  of the hash function.
\<close>

section \<open>The fixture\<close>

abbreviation fixture_of :: "lib \<Rightarrow> string \<Rightarrow> digest32 \<Rightarrow> digest32 \<Rightarrow> digest32 \<Rightarrow> chain_fixture" where
  "fixture_of L suffix ch ph dh \<equiv> \<lparr>cf_commitment = sql_commitment L suffix,
     cf_proposal = sql_proposal L suffix ch, cf_decision = sql_decision L suffix ph,
     cf_grant = sql_grant suffix ph dh\<rparr>"

abbreviation chain_of :: "lib \<Rightarrow> string \<Rightarrow> digest32 \<Rightarrow> digest32 \<Rightarrow> digest32 \<Rightarrow> digest32 \<Rightarrow> stored_chain" where
  "chain_of L suffix ch ph dh gh \<equiv> \<lparr>sc_grant_hash = gh, sc_commitment = sql_commitment L suffix,
     sc_proposal = sql_proposal L suffix ch, sc_decision = sql_decision L suffix ph,
     sc_grant = sql_grant suffix ph dh\<rparr>"

definition sql_ready ::
    "lib \<Rightarrow> string \<Rightarrow> digest32 \<Rightarrow> digest32 \<Rightarrow> digest32 \<Rightarrow> digest32 \<Rightarrow> raw_chain \<Rightarrow> bool" where
  "sql_ready L suffix ch ph dh gh row \<longleftrightarrow>
     register_row L (sql_commitment L suffix) (sql_proposal L suffix ch) (sql_decision L suffix ph)
       (sql_grant suffix ph dh) = Inr (gh, row)
     \<and> decode_chain L row = Inr (chain_of L suffix ch ph dh gh)
     \<and> ep_commitment L (sql_proposal L suffix ch) = Inr ph
     \<and> eg_commitment L (sql_grant suffix ph dh) = Inr gh
     \<and> rc_grant_hash row = as_str gh \<and> digest_ok ph \<and> digest_ok gh"

definition short_suffix :: "string \<Rightarrow> bool" where
  "short_suffix suffix \<longleftrightarrow> visible suffix \<and> length suffix \<le> 100"

lemmas visible_eval =
  visible_trimmed_text validate_identifier_def validate_token_def token_shape_def token_byte_def
  validate_nonce_def is_lower_def is_upper_def is_digit_def validate_safe_integer_def
  validate_window_def MAX_SAFE_INTEGER_def MAX_GRANT_LIFETIME_MS_def validate_version_def
  PROFILE_VERSION_def validate_sorted_unique_digests_def validate_sorted_unique_tokens_def

lemma sql_records_valid:
  assumes "short_suffix suffix"
  shows "tc_validate (sql_commitment L suffix) = Inr ()" "ep_validate (sql_proposal L suffix ch) = Inr ()"
    "ad_validate (sql_decision L suffix ph) = Inr ()" "eg_validate (sql_grant suffix ph dh) = Inr ()"
  using assms
  by (simp_all add: tc_validate_def sql_commitment_def ep_validate_def sql_proposal_def
      ad_validate_def sql_decision_def eg_validate_def sql_grant_def short_suffix_def visible_eval)

lemma sql_records_digests:
  assumes "conforming L"
  shows "tc_digests (sql_commitment L suffix)" "digest_ok ch \<Longrightarrow> ep_digests (sql_proposal L suffix ch)"
    "digest_ok ph \<Longrightarrow> ad_digests (sql_decision L suffix ph)"
    "digest_ok ph \<Longrightarrow> digest_ok dh \<Longrightarrow> eg_digests (sql_grant suffix ph dh)"
  using assms
  by (simp_all add: digests_defs sql_commitment_def sql_proposal_def sql_decision_def sql_grant_def
      conforming_def payload_digest_ok)

lemma given_sql_fixture:
  assumes L: "conforming L" and "short_suffix suffix"
    and "\<And>ch ph dh gh row. sql_ready L suffix ch ph dh gh row \<Longrightarrow> k (fixture_of L suffix ch ph dh) f = Inr ()"
  shows "given (sql_fixture L suffix) k f = Inr ()"
proof -
  note valid = commitment_valid_iff [OF quote_conforms_quotes] and ok = sql_records_valid [OF assms(2)]
  from L have q: "quote_conforms L" by (simp add: conforming_def)
  note digest = commitment_okD [OF L, THEN conjunct2] and fields = sql_records_digests [OF L]
  obtain ch where ch: "tc_commitment L (sql_commitment L suffix) = Inr ch" using valid(1) [OF q] ok(1) by blast
  obtain ph where ph: "ep_commitment L (sql_proposal L suffix ch) = Inr ph" using valid(2) [OF q] ok(2) by blast
  obtain dh where dh: "ad_commitment L (sql_decision L suffix ph) = Inr dh" using valid(3) [OF q] ok(3) by blast
  obtain gh where gh: "eg_commitment L (sql_grant suffix ph dh) = Inr gh" using valid(4) [OF q] ok(4) by blast
  have "verify_authorization L (sql_commitment L suffix) (sql_proposal L suffix ch) (sql_decision L suffix ph)
      (sql_grant suffix ph dh) = Inr \<lparr>va_commitment_hash = ch, va_proposal_hash = ph,
        va_decision_hash = dh, va_grant_hash = gh\<rparr>"
    using ch ph dh gh
    by (simp add: verify_authorization_ok verify_decision_ok)
       (simp add: sql_commitment_def sql_proposal_def sql_decision_def sql_grant_def)
  then have "verify_grant L (sql_commitment L suffix) (sql_proposal L suffix ch) (sql_decision L suffix ph)
      (sql_grant suffix ph dh) = Inr gh" by (simp add: verify_grant_def)
  then obtain row where row: "register_row L (sql_commitment L suffix) (sql_proposal L suffix ch)
      (sql_decision L suffix ph) (sql_grant suffix ph dh) = Inr (gh, row)" "rc_grant_hash row = as_str gh"
    using registered_row [OF L] by blast
  have "decode_chain L row = Inr (chain_of L suffix ch ph dh gh)"
    using digest(1) [OF ch] digest(2) [OF ph] digest(3) [OF dh]
    by (intro decode_registered [OF L row(1)] fields)
  then have "sql_ready L suffix ch ph dh gh row"
    using row ph gh digest(2) [OF ph] digest(4) [OF gh] by (simp add: sql_ready_def)
  from assms(3) [OF this] ch ph dh show ?thesis
    by (simp add: given_def sql_fixture_def Let_def)
qed

section \<open>Files\<close>

lemma open_new:
  assumes "quiet_env env"
  shows "open_test env k new_file = k (store_on (small_db [] [] [] [] [] None))"
  by (simp add: open_test_def call_def small_open_new [OF assms])

lemma open_again:
  assumes "quiet_env env"
  shows "open_test env k (store_on db) = k (store_on db)"
  by (simp add: open_test_def call_def small_open_again [OF assms])

lemma on_store: "on_file operation (store_on db) = (case operation db of (r, db') \<Rightarrow> (r, store_on db'))"
  by (simp add: on_file_def)

section \<open>The operations on the fixture\<close>

lemma grant_id_of: "eg_grant_id (sql_grant suffix ph dh) = ''grant-'' @ suffix"
  by (simp add: sql_grant_def)

lemma register_ready:
  assumes "sql_ready L suffix ch ph dh gh row"
  shows "register_test L (fixture_of L suffix ch ph dh) (store_on (small_db [] ss ds rs xs t))
      = (Inr gh, store_on (small_db [(''grant-'' @ suffix, row)] ss ds rs xs t))"
    and "register_test L (fixture_of L suffix ch ph dh)
        (store_on (small_db [(''grant-'' @ suffix, row)] ss ds rs xs t))
      = (Inr gh, store_on (small_db [(''grant-'' @ suffix, row)] ss ds rs xs t))"
  using assms register_small(1,2) [of L "sql_commitment L suffix" "sql_proposal L suffix ch"
      "sql_decision L suffix ph" "sql_grant suffix ph dh" gh row]
  by (simp_all add: register_test_def on_store sql_ready_def grant_id_of)

lemma put_ready:
  assumes "snapshot_ok s"
  shows "put_test s (store_on (small_db cs [] ds rs xs t)) = (Inr (), store_on (small_db cs [s] ds rs xs t))"
    and "snapshot_ok p \<Longrightarrow> cu_key p = cu_key s \<Longrightarrow> p \<noteq> s \<Longrightarrow>
      put_test s (store_on (small_db cs [p] ds rs xs t)) =
        (case put_checks s p of
           Inl e \<Rightarrow> (Inl e, store_on (small_db cs [p] ds rs xs t))
         | Inr _ \<Rightarrow> (Inr (), store_on (small_db cs [s] ds rs xs t)))"
  by (simp_all add: put_test_def on_store put_small assms split: sum.split)

lemma test_snapshot_at_ok:
  assumes "conforming L" and "0 < v" and "v \<le> 1000" and "time \<le> 100000"
  shows "snapshot_ok (test_snapshot L v\<lparr>cu_observed_at_ms := time\<rparr>)"
    and "snapshot_ok (test_snapshot L v\<lparr>cu_revoked := b, cu_observed_at_ms := time\<rparr>)"
proof -
  have d: "digest_ok (from_payload L x)" for x
    using assms(1) by (simp add: conforming_def payload_digest_ok)
  have key: "store_validate_text f ''cluster/prod/deployment/api'' 1024 = Inr ()" for f
    by (simp add: store_validate_text_def text_eval)
  have bounds: "v \<noteq> 0" "v \<le> MAX_SAFE_INTEGER" "time \<le> MAX_SAFE_INTEGER"
    using assms(2-4) by (auto simp: MAX_SAFE_INTEGER_def intro: order_trans)
  from bounds d key show "snapshot_ok (test_snapshot L v\<lparr>cu_observed_at_ms := time\<rparr>)"
    "snapshot_ok (test_snapshot L v\<lparr>cu_revoked := b, cu_observed_at_ms := time\<rparr>)"
    by (simp_all add: snapshot_ok_def validate_snapshot_def test_snapshot_def discard_def safe_i64_within
        MAX_SAFE_INTEGER_def)
qed

lemma test_snapshot_ok:
  assumes "conforming L" and "0 < v" and "v \<le> 1000"
  shows "snapshot_ok (test_snapshot L v)" and "snapshot_ok (test_snapshot L v\<lparr>cu_revoked := b\<rparr>)"
proof -
  have t: "3900 + v \<le> 100000"
    using assms(3) by (simp add: word_le_nat_alt unat_word_ariths)
  have same: "test_snapshot L v = test_snapshot L v\<lparr>cu_observed_at_ms := 3900 + v\<rparr>"
    "test_snapshot L v\<lparr>cu_revoked := b\<rparr> = test_snapshot L v\<lparr>cu_revoked := b, cu_observed_at_ms := 3900 + v\<rparr>"
    by (simp_all add: test_snapshot_def)
  show "snapshot_ok (test_snapshot L v)" by (subst same(1)) (rule test_snapshot_at_ok(1) [OF assms t])
  show "snapshot_ok (test_snapshot L v\<lparr>cu_revoked := b\<rparr>)"
    by (subst same(2)) (rule test_snapshot_at_ok(2) [OF assms t])
qed

lemma visible_store_text:
  assumes "visible a" and "a \<noteq> []" and "length a \<le> n"
  shows "store_validate_text f a n = Inr ()"
proof -
  have "is_trimmed a" "\<not> list_ex is_control (chars a)"
    using visible_trimmed_text [OF assms, of f]
    by (simp_all add: validate_trimmed_text_def validate_nonempty_text_def ok_iff split: if_splits)
  with assms(2,3) show ?thesis by (simp add: store_validate_text_def)
qed

lemma test_request_age_valid:
  assumes "visible a" and "a \<noteq> []" and "length a \<le> 256" and "0 < v" and "v \<le> 1000"
    and "0 < m" and "m \<le> MAX_CURRENTNESS_AGE_MS"
  shows "validate_claim_request (test_request a v\<lparr>cq_maximum_snapshot_age_ms := m\<rparr>) = Inr ()"
proof -
  have "store_validate_text f a 256 = Inr ()" for f by (rule visible_store_text [OF assms(1-3)])
  moreover have "store_validate_text f ''cluster/prod/deployment/api'' 1024 = Inr ()"
    "store_validate_text f ''runner:prod'' 512 = Inr ()" for f
    by (simp_all add: store_validate_text_def text_eval)
  moreover have "v \<noteq> 0" "v \<le> MAX_SAFE_INTEGER" "m \<noteq> 0" "m \<le> MAX_SAFE_INTEGER"
    using assms(4-7) by (auto simp: MAX_SAFE_INTEGER_def MAX_CURRENTNESS_AGE_MS_def intro: order_trans)
  ultimately show ?thesis
    using assms(7)
    by (simp add: validate_claim_request_def test_request_def discard_def safe_i64_within not_less
        MAX_SAFE_INTEGER_def MAX_CURRENTNESS_AGE_MS_def)
qed

lemma test_request_valid:
  assumes "visible a" and "a \<noteq> []" and "length a \<le> 256" and "0 < v" and "v \<le> 1000"
  shows "validate_claim_request (test_request a v) = Inr ()"
  using test_request_age_valid [OF assms, of 5000]
  by (simp add: test_request_def MAX_CURRENTNESS_AGE_MS_def)

text \<open>Claims of the grant of a fixture; the other rows of \<open>authorization_chains\<close> do not matter.\<close>

abbreviation holds_chain :: "(string \<times> raw_chain) list \<Rightarrow> string \<Rightarrow> raw_chain \<Rightarrow> bool" where
  "holds_chain cs suffix row \<equiv>
     map_option snd (find (\<lambda>(j, r). j = ''grant-'' @ suffix) cs) = Some row
     \<and> find (\<lambda>r. rc_grant_hash r = rc_grant_hash row) (map snd cs) = Some row"

lemma claim_ready:
  assumes ready: "sql_ready L suffix ch ph dh gh row" and "holds_chain cs suffix row"
    and "validate_claim_request q = Inr ()" and "now \<le> MAX_SAFE_INTEGER"
    and "snapshot_ok s" and "cq_currentness_key q = cu_key s"
  shows "claim_test L (sql_grant suffix ph dh) q now (store_on (small_db cs [s] ds rs xs t)) =
    (if \<exists>u. t = Some u \<and> now < u then (Inl SE_ClockRollback, store_on (small_db cs [s] ds rs xs t))
     else (case claim_currentness (chain_of L suffix ch ph dh gh) s q now of
         Inl e \<Rightarrow> (Inl e, store_on (small_db cs [s] ds rs xs t))
       | Inr _ \<Rightarrow>
           if \<exists>d \<in> set ds. dc_grant_hash d = gh
           then (Inl SE_GrantAlreadyClaimed, store_on (small_db cs [s] ds rs xs t))
           else if \<exists>d \<in> set ds. dc_attempt_id d = cq_attempt_id q
           then (Inl SE_AttemptAlreadyUsed, store_on (small_db cs [s] ds rs xs t))
           else (Inr (claim_result gh q now),
                 store_on (small_db cs [s] (ds @ [claim_result gh q now]) rs xs (Some now)))))"
proof -
  have raw: "map_option snd (find (\<lambda>(j, r). j = eg_grant_id (sql_grant suffix ph dh)) cs) = Some row"
    using assms(2) by (simp add: grant_id_of)
  have chain: "decode_chain L row = Inr (chain_of L suffix ch ph dh gh)"
    using ready by (simp add: sql_ready_def)
  show ?thesis
    using claim_small [OF assms(3,4) raw chain _ assms(5,6), of ds rs xs t]
    by (cases "\<exists>u. t = Some u \<and> now < u"; cases "claim_currentness (chain_of L suffix ch ph dh gh) s q now";
        cases "\<exists>d \<in> set ds. dc_grant_hash d = gh"; cases "\<exists>d \<in> set ds. dc_attempt_id d = cq_attempt_id q")
       (simp_all only: claim_test_def on_store prod.case if_True if_False sum.case stored_chain.simps simp_thms)
qed

lemma mark_ready:
  assumes ready: "sql_ready L suffix ch ph dh gh row" and "holds_chain cs suffix row"
    and q: "validate_claim_request q = Inr ()" "cq_attempt_id q = a" and now: "now \<le> u" "u \<le> MAX_SAFE_INTEGER"
    and s: "snapshot_ok s" "cu_key s = cq_currentness_key q"
  shows "mark_test L gh a u (store_on (small_db cs [s] [claim_result gh q now] rs xs (Some now))) =
    (if 9000 \<le> u then (Inl SE_GrantExpired, store_on (small_db cs [s] [claim_result gh q now] rs xs (Some now)))
     else (case dispatch_currentness (chain_of L suffix ch ph dh gh) s (claim_result gh q now) u of
         Inl e \<Rightarrow> (Inl e, store_on (small_db cs [s] [claim_result gh q now] rs xs (Some now)))
       | Inr _ \<Rightarrow> (Inr \<lparr>dm_grant_hash = gh, dm_attempt_id = a, dm_dispatched_at_ms = u\<rparr>,
           store_on (small_db cs [s] [claim_result gh q now\<lparr>dc_dispatch_started_at_ms := Some u\<rparr>] rs xs (Some u)))))"
proof -
  let ?d = "claim_result gh q now"
  have ok: "claim_ok ?d"
    using ready q(1) now by (intro claimed_ok) (auto simp: sql_ready_def)
  have d: "dc_dispatch_started_at_ms ?d = None" "dc_attempt_id ?d = a" "dc_claimed_at_ms ?d \<le> u"
    "cu_key s = dc_currentness_key ?d" "dc_grant_hash ?d = gh"
    using q now s by (simp_all add: claim_result_def)
  have pos: "0 < dc_maximum_snapshot_age_ms ?d"
    using q(1) by (simp add: claim_result_def validate_claim_request_ok word_neq_0_conv)
  have a: "store_validate_text ''attempt_id'' a 256 = Inr ()"
    using q by (simp add: validate_claim_request_ok)
  have raw: "find (\<lambda>r. rc_grant_hash r = as_str (dc_grant_hash ?d)) (map snd cs) = Some row"
    "decode_chain L row = Inr (chain_of L suffix ch ph dh gh)"
    using ready assms(2) by (simp_all add: sql_ready_def d)
  have expires: "eg_expires_at_ms (sql_grant suffix ph dh) = 9000" by (simp add: sql_grant_def)
  show ?thesis
    using mark_small [OF ok d(1,2) a now(2) d(3) pos raw s(1) d(4), of rs xs "Some now"] now(1)
    by (simp add: mark_test_def on_store d expires not_less [symmetric] split: sum.split)
qed

text \<open>Receipts for the claimed grant.\<close>

lemma completes_ready:
  assumes ready: "sql_ready L suffix ch ph dh gh row" and "er_commitment L r = Inr h" and "er_digests r"
    and "er_proposal_hash r = ph" and "er_grant_hash r = gh" and "dc_grant_hash d = gh"
    and "er_attempt_id r = dc_attempt_id d" and "er_claimed_at_ms r = dc_claimed_at_ms d"
    and "3500 \<le> dc_claimed_at_ms d" and "dc_claimed_at_ms d < 9000"
  shows "completes L (chain_of L suffix ch ph dh gh) d r h"
proof -
  let ?c = "chain_of L suffix ch ph dh gh"
  have window: "eg_not_before_ms (sc_grant ?c) \<le> er_claimed_at_ms r" "er_claimed_at_ms r < eg_expires_at_ms (sc_grant ?c)"
    using assms(8-10) by (simp_all add: sql_grant_def)
  have "decode_chain L row = Inr ?c" "er_grant_hash r = sc_grant_hash ?c"
    "ep_commitment L (sc_proposal ?c) = Inr (er_proposal_hash r)"
    using assms by (simp_all add: sql_ready_def)
  from chain_accepts_receipt [OF this window assms(2)] show ?thesis
    using assms by (simp add: completes_def)
qed

lemma claimed_ready:
  assumes "sql_ready L suffix ch ph dh gh row" and "claim_ok d" and "dc_grant_hash d = gh"
  shows "claimed_chain L [(''grant-'' @ suffix, row)] d (chain_of L suffix ch ph dh gh)"
  using assms by (simp add: claimed_chain_def sql_ready_def)

lemma test_receipt_valid:
  assumes L: "conforming L" and "digest_ok ph" "digest_ok gh"
    and "visible i" "i \<noteq> []" "length i \<le> 256" and "visible a" "a \<noteq> []" "length a \<le> 256"
    and "4100 \<le> completed" "completed \<le> 5000" and "t = None \<and> (outcome = NotDispatched \<or> outcome = Unknown)
      \<or> t = Some 4100 \<and> outcome \<noteq> NotDispatched"
  shows "\<exists>h. er_commitment L (test_receipt_of L i ph gh a t completed outcome label) = Inr h \<and> digest_ok h"
    and "er_digests (test_receipt_of L i ph gh a t completed outcome label)"
proof -
  let ?r = "test_receipt_of L i ph gh a t completed outcome label"
  have c: "completed \<le> MAX_SAFE_INTEGER" "\<not> completed < 4000" "\<not> completed < 4100"
    using order_trans [OF assms(11), of MAX_SAFE_INTEGER] order_trans [OF _ assms(10), of 4000]
    by (simp_all add: MAX_SAFE_INTEGER_def not_less assms(10))
  have "er_validate ?r = Inr ()"
    using assms(4-9,12) c
    by (cases outcome) (auto simp: er_validate_def test_receipt_of_def visible_eval)
  moreover have "quote_conforms L" using L by (simp add: conforming_def)
  ultimately obtain h where h: "er_commitment L ?r = Inr h" using commitment_valid_iff(5) quote_conforms_quotes by blast
  with commitment_okD(5) [OF L h] show "\<exists>h. er_commitment L ?r = Inr h \<and> digest_ok h" by blast
  show "er_digests ?r"
    using assms(1-3) by (simp add: er_digests_def test_receipt_of_def conforming_def payload_digest_ok)
qed

section \<open>Tests of claims and currentness\<close>

lemmas run = call_def observe_def given_def verify_that_def and_then_def passed_def Let_def

lemma claim_currentness_test:
  "claim_currentness (chain_of L suffix ch ph dh gh) (test_snapshot L v) (test_request a w) now = checks
     [ensure (3900 + v \<le> now) SE_SnapshotFromFuture, ensure (now - (3900 + v) \<le> 5000) SE_StaleCurrentness,
      ensure (v = w) SE_StaleSnapshot, ensure (3500 \<le> now) SE_GrantNotYetValid,
      ensure (now < 9000) SE_GrantExpired]"
  "claim_currentness (chain_of L suffix ch ph dh gh) (test_snapshot L v\<lparr>cu_observed_at_ms := at\<rparr>)
     (test_request a w) now = checks
     [ensure (at \<le> now) SE_SnapshotFromFuture, ensure (now - at \<le> 5000) SE_StaleCurrentness,
      ensure (v = w) SE_StaleSnapshot, ensure (3500 \<le> now) SE_GrantNotYetValid,
      ensure (now < 9000) SE_GrantExpired]"
  "claim_currentness (chain_of L suffix ch ph dh gh) (test_snapshot L v\<lparr>cu_observed_at_ms := at\<rparr>)
     (test_request a w\<lparr>cq_maximum_snapshot_age_ms := m\<rparr>) now = checks
     [ensure (at \<le> now) SE_SnapshotFromFuture, ensure (now - at \<le> m) SE_StaleCurrentness,
      ensure (v = w) SE_StaleSnapshot, ensure (3500 \<le> now) SE_GrantNotYetValid,
      ensure (now < 9000) SE_GrantExpired]"
  by (simp_all add: claim_currentness_def validate_currentness_age_def test_snapshot_def test_request_def
      sql_grant_def sql_commitment_def sql_proposal_def not_less not_le ensure_def)

lemma test_keys [simp]:
  "cu_key (test_snapshot L v) = ''cluster/prod/deployment/api''"
  "cu_version (test_snapshot L v) = v"
  "cq_currentness_key (test_request a v) = ''cluster/prod/deployment/api''"
  "cq_attempt_id (test_request a v) = a"
  by (simp_all add: test_snapshot_def test_request_def)

lemma lifecycle_ready:
  assumes "sql_ready L suffix ch ph dh gh row" and "holds_chain cs suffix row" and "\<forall>d \<in> set ds. claim_ok d"
  shows "lifecycle_test L gh (store_on (small_db cs ss ds [] xs t)) = (Inr \<lparr>lc_grant_hash = gh,
    lc_claim = find (\<lambda>d. dc_grant_hash d = gh) ds, lc_receipt = None, lc_reconciliations = []\<rparr>,
    store_on (small_db cs ss ds [] xs t))"
proof -
  have "find (\<lambda>r. rc_grant_hash r = as_str gh) (map snd cs) = Some row"
    "decode_chain L row = Inr (chain_of L suffix ch ph dh gh)"
    using assms(1,2) by (simp_all add: sql_ready_def)
  from lifecycle_small [OF this assms(3)] show ?thesis by (simp add: lifecycle_test_def)
qed

lemma stale_currentness_rolls_back_claim_atomically_passes:
  assumes L: "conforming L" and env: "quiet_env env"
  shows "stale_currentness_rolls_back_claim_atomically L env = Inr ()"
  unfolding stale_currentness_rolls_back_claim_atomically_def open_new [OF env]
proof (rule given_sql_fixture [OF L], goal_cases)
  case 1
  show ?case by (simp add: short_suffix_def)
next
  case (2 ch ph dh gh row)
  note ok = test_snapshot_ok(1) [OF L] test_request_valid
  show ?case
    by (simp add: run register_ready [OF 2] put_ready claim_ready [OF 2] lifecycle_ready [OF 2] ok
        claim_currentness_test MAX_SAFE_INTEGER_def claim_result_def)
qed

lemma claim_rejects_stale_and_future_currentness_without_consuming_grant_passes:
  assumes L: "conforming L" and env: "quiet_env env"
  shows "claim_rejects_stale_and_future_currentness_without_consuming_grant L env = Inr ()"
  unfolding claim_rejects_stale_and_future_currentness_without_consuming_grant_def open_new [OF env]
proof (rule given_sql_fixture [OF L], goal_cases)
  case 1
  show ?case by (simp add: short_suffix_def)
next
  case (2 ch ph dh gh row)
  have differ: "test_snapshot L 1\<lparr>cu_observed_at_ms := 3000\<rparr> \<noteq> test_snapshot L 2\<lparr>cu_observed_at_ms := 4100\<rparr>"
    "put_checks (test_snapshot L 2\<lparr>cu_observed_at_ms := 4100\<rparr>) (test_snapshot L 1\<lparr>cu_observed_at_ms := 3000\<rparr>) = Inr ()"
    by (simp_all add: test_snapshot_def put_checks_def word_le_nat_alt ensure_def)
  show ?case
    by (simp add: run register_ready [OF 2] put_ready claim_ready [OF 2] lifecycle_ready [OF 2]
        test_snapshot_at_ok(1) [OF L] test_request_valid test_request_age_valid MAX_CURRENTNESS_AGE_MS_def
        claim_currentness_test MAX_SAFE_INTEGER_def claim_result_def differ)
qed

lemma dispatch_currentness_test:
  "dispatch_currentness (chain_of L suffix ch ph dh gh) (test_snapshot L v)
     (claim_result gh (test_request a w) now) u = checks
     [ensure (3900 + v \<le> u) SE_SnapshotFromFuture, ensure (u - (3900 + v) \<le> 5000) SE_StaleCurrentness,
      ensure (v = w) SE_StaleSnapshot]"
  "dispatch_currentness (chain_of L suffix ch ph dh gh) (test_snapshot L v\<lparr>cu_observed_at_ms := time\<rparr>)
     (claim_result gh (test_request a w\<lparr>cq_maximum_snapshot_age_ms := m\<rparr>) now) u = checks
     [ensure (time \<le> u) SE_SnapshotFromFuture, ensure (u - time \<le> m) SE_StaleCurrentness,
      ensure (v = w) SE_StaleSnapshot]"
  by (simp_all add: dispatch_currentness_def validate_currentness_age_def test_snapshot_def test_request_def
      claim_result_def sql_commitment_def sql_proposal_def not_less not_le ensure_def)

lemma claim_result_fields [simp]:
  "dc_grant_hash (claim_result gh q now) = gh" "dc_attempt_id (claim_result gh q now) = cq_attempt_id q"
  "dc_dispatch_started_at_ms (claim_result gh q now) = None" "dc_claimed_at_ms (claim_result gh q now) = now"
  by (simp_all add: claim_result_def)

lemma ready_hash: "sql_ready L suffix ch ph dh gh row \<Longrightarrow> rc_grant_hash row = as_str gh \<and> digest_ok gh \<and> digest_ok ph"
  by (simp add: sql_ready_def)

lemma dispatch_reapplies_the_claimed_freshness_budget_passes:
  assumes L: "conforming L" and env: "quiet_env env"
  shows "dispatch_reapplies_the_claimed_freshness_budget L env = Inr ()"
  unfolding dispatch_reapplies_the_claimed_freshness_budget_def open_new [OF env]
proof (rule given_sql_fixture [OF L], goal_cases)
  case 1
  show ?case by (simp add: short_suffix_def)
next
  case (2 ch ph dh gh row)
  show ?case
    by (simp add: run register_ready [OF 2] put_ready claim_ready [OF 2] mark_ready [OF 2] lifecycle_ready [OF 2]
        test_snapshot_at_ok(1) [OF L] test_request_age_valid MAX_CURRENTNESS_AGE_MS_def
        claim_currentness_test dispatch_currentness_test MAX_SAFE_INTEGER_def claimed_ok ready_hash [OF 2])
qed

lemma later_snapshot:
  "test_snapshot L 1 \<noteq> test_snapshot L 2" "put_checks (test_snapshot L 2) (test_snapshot L 1) = Inr ()"
  by (simp_all add: test_snapshot_def put_checks_def word_le_nat_alt ensure_def)

lemma currentness_is_rechecked_at_the_dispatch_boundary_passes:
  assumes L: "conforming L" and env: "quiet_env env"
  shows "currentness_is_rechecked_at_the_dispatch_boundary L env = Inr ()"
  unfolding currentness_is_rechecked_at_the_dispatch_boundary_def open_new [OF env]
proof (rule given_sql_fixture [OF L], goal_cases)
  case 1
  show ?case by (simp add: short_suffix_def)
next
  case (2 ch ph dh gh row)
  show ?case
    by (simp add: run register_ready [OF 2] put_ready claim_ready [OF 2] mark_ready [OF 2] lifecycle_ready [OF 2]
        test_snapshot_ok [OF L] test_request_valid later_snapshot
        claim_currentness_test dispatch_currentness_test MAX_SAFE_INTEGER_def claimed_ok ready_hash [OF 2])
qed

lemma two_connections_cannot_claim_the_same_grant_passes:
  assumes L: "conforming L" and env: "quiet_env env" and "{first, second} = {0, 1}"
  shows "two_connections_cannot_claim_the_same_grant L env first second = Inr ()"
  unfolding two_connections_cannot_claim_the_same_grant_def
proof (rule given_sql_fixture [OF L], goal_cases)
  case 1
  show ?case by (simp add: short_suffix_def)
next
  case (2 ch ph dh gh row)
  have "first < 10" "second < 10" using assms(3) by (auto simp: doubleton_eq_iff)
  then have short: "length (decimal first) \<le> 1" "length (decimal second) \<le> 1"
    by (auto intro: decimal_length)
  have "validate_claim_request (test_request (''attempt-'' @ decimal n) 1) = Inr ()"
    if "length (decimal n) \<le> 1" for n
    using that by (intro test_request_valid) (simp_all add: visible_decimal)
  from this [OF short(1)] this [OF short(2)] have valid:
    "validate_claim_request (test_request (''attempt-'' @ decimal first) 1) = Inr ()"
    "validate_claim_request (test_request (''attempt-'' @ decimal second) 1) = Inr ()" .
  show ?case
    by (simp only: open_new [OF env])
       (simp add: run open_again [OF env] register_ready [OF 2] put_ready claim_ready [OF 2]
        test_snapshot_ok [OF L] valid [simplified]
        claim_currentness_test MAX_SAFE_INTEGER_def)
qed

section \<open>Tests of receipts\<close>

text \<open>The claim of a test at 4000, dispatched at 4100 or not, and a receipt for it.\<close>

abbreviation test_claim :: "digest32 \<Rightarrow> string \<Rightarrow> u64 option \<Rightarrow> durable_claim" where
  "test_claim gh a u \<equiv> claim_result gh (test_request a 1) 4000\<lparr>dc_dispatch_started_at_ms := u\<rparr>"

lemma undispatched_claim: "test_claim gh a None = claim_result gh (test_request a 1) 4000"
  by (simp add: claim_result_def)

lemma test_claim_ok:
  assumes "digest_ok gh" "visible a" "a \<noteq> []" "length a \<le> 256" "u = None \<or> u = Some 4100"
  shows "claim_ok (test_claim gh a u)"
  using claimed_ok [OF test_request_valid [OF assms(2-4), of 1], of 4000 gh] assms(1,5)
  by (auto simp: claim_ok_iff MAX_SAFE_INTEGER_def)

lemma test_receipt_fields [simp]:
  "er_proposal_hash (test_receipt_of L i ph gh a u c oc l) = ph"
  "er_grant_hash (test_receipt_of L i ph gh a u c oc l) = gh"
  "er_attempt_id (test_receipt_of L i ph gh a u c oc l) = a"
  "er_claimed_at_ms (test_receipt_of L i ph gh a u c oc l) = 4000"
  "er_dispatched_at_ms (test_receipt_of L i ph gh a u c oc l) = u"
  "er_completed_at_ms (test_receipt_of L i ph gh a u c oc l) = c"
  "er_outcome (test_receipt_of L i ph gh a u c oc l) = oc"
  "er_receipt_id (test_receipt_of L i ph gh a u c oc l) = i"
  by (simp_all add: test_receipt_of_def)

lemma test_receipt_completes:
  assumes L: "conforming L" and ready: "sql_ready L suffix ch ph dh gh row"
    and names: "visible i" "i \<noteq> []" "length i \<le> 256" "visible a" "a \<noteq> []" "length a \<le> 256"
    and c: "4100 \<le> c" "c \<le> 5000"
    and u: "u = None \<and> (outcome = NotDispatched \<or> outcome = Unknown) \<or> u = Some 4100 \<and> outcome \<noteq> NotDispatched"
    and t: "t = None \<or> t = Some 4100"
  obtains h where "er_commitment L (test_receipt_of L i ph gh a u c outcome label) = Inr h" "digest_ok h"
    "er_digests (test_receipt_of L i ph gh a u c outcome label)"
    "claimed_chain L [(''grant-'' @ suffix, row)] (test_claim gh a t) (chain_of L suffix ch ph dh gh)"
    "completes L (chain_of L suffix ch ph dh gh) (test_claim gh a t)
       (test_receipt_of L i ph gh a u c outcome label) h"
proof -
  have ok: "digest_ok ph" "digest_ok gh" using ready by (simp_all add: sql_ready_def)
  note valid = test_receipt_valid [OF L ok names c u]
  obtain h where h: "er_commitment L (test_receipt_of L i ph gh a u c outcome label) = Inr h" "digest_ok h"
    using valid(1) by blast
  moreover have "completes L (chain_of L suffix ch ph dh gh) (test_claim gh a t)
      (test_receipt_of L i ph gh a u c outcome label) h"
    using valid(2) by (intro completes_ready [OF ready h(1)]) simp_all
  moreover have "claimed_chain L [(''grant-'' @ suffix, row)] (test_claim gh a t) (chain_of L suffix ch ph dh gh)"
    by (rule claimed_ready [OF ready test_claim_ok [OF ok(2) names(4-6) t]]) simp
  ultimately show thesis using valid(2) by (intro that)
qed

lemma dispatch_and_receipt_evidence_cannot_conflict_passes:
  assumes L: "conforming L" and env: "quiet_env env"
  shows "dispatch_and_receipt_evidence_cannot_conflict L env = Inr ()"
  unfolding dispatch_and_receipt_evidence_cannot_conflict_def open_new [OF env]
proof (rule given_sql_fixture [OF L], goal_cases)
  case 1
  show ?case by (simp add: short_suffix_def)
next
  case (2 ch ph dh gh row)
  let ?r = "test_receipt_of L ''receipt-not-dispatched'' ph gh ''attempt-dispatch'' None 4200 NotDispatched ''none''"
    and ?d = "test_claim gh ''attempt-dispatch'' (Some 4100)"
  obtain h where "claimed_chain L [(''grant-'' @ ''dispatch'', row)] ?d (chain_of L ''dispatch'' ch ph dh gh)"
    "completes L (chain_of L ''dispatch'' ch ph dh gh) ?d ?r h"
    by (rule test_receipt_completes [OF L 2, of "''receipt-not-dispatched''" "''attempt-dispatch''" 4200 None
          NotDispatched "Some 4100" "''none''"]) auto
  note refused = receipt_small [OF L this, of "[test_snapshot L 1]" "[]" "Some 4100"]
  have ok: "ep_commitment L (sql_proposal L ''dispatch'' ch) = Inr ph" "claim_ok ?d"
    using 2 by (simp_all add: sql_ready_def test_claim_ok)
  show ?case
    using refused ok
    by (simp add: run register_ready [OF 2] put_ready claim_ready [OF 2] mark_ready [OF 2] lifecycle_ready [OF 2]
        test_snapshot_ok [OF L] test_request_valid
        claim_currentness_test dispatch_currentness_test MAX_SAFE_INTEGER_def ready_hash [OF 2]
        receipt_test_def on_store validate_dispatch_evidence_def)
qed

text \<open>A receipt that agrees with the dispatch marker is recorded and read back.\<close>

lemma receipt_ready:
  assumes L: "conforming L" and ready: "sql_ready L suffix ch ph dh gh row"
    and names: "visible i" "i \<noteq> []" "length i \<le> 256" "visible a" "a \<noteq> []" "length a \<le> 256"
    and u: "u = None \<and> (outcome = NotDispatched \<or> outcome = Unknown) \<or> u = Some 4100 \<and> outcome \<noteq> NotDispatched"
  obtains h rrow where "er_commitment L (test_receipt_of L i ph gh a u 4500 outcome label) = Inr h" "digest_ok h"
    "\<And>ss xs t. receipt_test L (test_receipt_of L i ph gh a u 4500 outcome label)
        (store_on (small_db [(''grant-'' @ suffix, row)] ss [test_claim gh a u] [] xs t))
      = (Inr h, store_on (small_db [(''grant-'' @ suffix, row)] ss [test_claim gh a u] [rrow] xs t))"
    "\<And>ss t. lifecycle_test L gh (store_on (small_db [(''grant-'' @ suffix, row)] ss [test_claim gh a u] [rrow] [] t))
      = (Inr \<lparr>lc_grant_hash = gh, lc_claim = Some (test_claim gh a u),
          lc_receipt = Some (test_receipt_of L i ph gh a u 4500 outcome label), lc_reconciliations = []\<rparr>,
         store_on (small_db [(''grant-'' @ suffix, row)] ss [test_claim gh a u] [rrow] [] t))"
    "rrow = row_of_receipt L (test_receipt_of L i ph gh a u 4500 outcome label) h"
    "completes L (chain_of L suffix ch ph dh gh) (test_claim gh a u)
       (test_receipt_of L i ph gh a u 4500 outcome label) h"
    "claimed_chain L [(''grant-'' @ suffix, row)] (test_claim gh a u) (chain_of L suffix ch ph dh gh)"
proof -
  let ?r = "test_receipt_of L i ph gh a u 4500 outcome label" and ?d = "test_claim gh a u"
  obtain h where h: "er_commitment L ?r = Inr h" "digest_ok h"
    and chain: "claimed_chain L [(''grant-'' @ suffix, row)] ?d (chain_of L suffix ch ph dh gh)"
    "completes L (chain_of L suffix ch ph dh gh) ?d ?r h"
    by (rule test_receipt_completes [OF L ready names _ _ u, where c = 4500 and t = u and label = label])
       (use u in auto)
  have e: "validate_dispatch_evidence ?r (dc_dispatch_started_at_ms ?d) = Inr ()"
    using u by (cases outcome) (auto simp: validate_dispatch_evidence_def)
  show thesis
    using receipt_small [OF L chain] lifecycle_receipt_small(1) [OF L chain e] e
    by (intro that [OF h _ _ refl chain(2,1)])
       (simp_all add: receipt_test_def lifecycle_test_def on_store)
qed

lemma receipt_outcome_case_passes:
  assumes L: "conforming L" and env: "quiet_env env" and suffix: "short_suffix suffix"
    and c: "dispatched \<longleftrightarrow> outcome \<noteq> NotDispatched"
  shows "receipt_outcome_case L env (suffix, outcome, dispatched) = Inr ()"
  unfolding receipt_outcome_case_def prod.case open_new [OF env]
proof (rule given_sql_fixture [OF L suffix], goal_cases)
  case ready: (1 ch ph dh gh row)
  let ?i = "''receipt-'' @ suffix" and ?a = "''attempt-'' @ suffix"
    and ?u = "if dispatched then Some 4100 else None"
  have names: "visible ?i" "?i \<noteq> []" "length ?i \<le> 256" "visible ?a" "?a \<noteq> []" "length ?a \<le> 256"
    using suffix by (simp_all add: short_suffix_def)
  have ok: "ep_commitment L (sql_proposal L suffix ch) = Inr ph"
    using ready by (simp add: sql_ready_def)
  have q: "validate_claim_request (test_request ?a 1) = Inr ()" using names by (intro test_request_valid) simp_all
  obtain h rrow where run_receipt: "\<And>ss xs t. receipt_test L (test_receipt_of L ?i ph gh ?a ?u 4500 outcome suffix)
        (store_on (small_db [(''grant-'' @ suffix, row)] ss [test_claim gh ?a ?u] [] xs t))
      = (Inr h, store_on (small_db [(''grant-'' @ suffix, row)] ss [test_claim gh ?a ?u] [rrow] xs t))"
    "\<And>ss t. lifecycle_test L gh (store_on (small_db [(''grant-'' @ suffix, row)] ss [test_claim gh ?a ?u] [rrow] [] t))
      = (Inr \<lparr>lc_grant_hash = gh, lc_claim = Some (test_claim gh ?a ?u),
          lc_receipt = Some (test_receipt_of L ?i ph gh ?a ?u 4500 outcome suffix), lc_reconciliations = []\<rparr>,
         store_on (small_db [(''grant-'' @ suffix, row)] ss [test_claim gh ?a ?u] [rrow] [] t))"
    by (rule receipt_ready [OF L ready names, of ?u outcome suffix]) (use c in \<open>auto split: if_splits\<close>)
  note quick = run register_ready [OF ready] put_ready claim_ready [OF ready] mark_ready [OF ready]
    test_snapshot_ok [OF L] q [simplified] ok claim_currentness_test dispatch_currentness_test MAX_SAFE_INTEGER_def
  show ?case
  proof (cases dispatched)
    case True
    with run_receipt show ?thesis by (simp add: quick)
  next
    case False
    with run_receipt show ?thesis by (simp add: quick undispatched_claim)
  qed
qed

lemma all_receipt_outcomes_preserve_exact_dispatch_knowledge_passes:
  assumes "conforming L" and "quiet_env env"
  shows "all_receipt_outcomes_preserve_exact_dispatch_knowledge L env = Inr ()"
  by (simp add: all_receipt_outcomes_preserve_exact_dispatch_knowledge_def
      receipt_outcome_case_passes [OF assms] short_suffix_def)

text \<open>The first reconciliation record of the lifecycle test.\<close>

lemma reconcile_ready:
  assumes L: "conforming L" and h: "digest_ok h" "er_commitment L r = Inr h" "er_completed_at_ms r = 4500"
    "er_outcome r = Unknown"
    and x: "x = \<lparr>rr_version = 1, rr_reconciliation_id = ''reconcile-one'', rr_receipt_hash = h, rr_sequence = 1,
       rr_parent_reconciliation_hash = None, rr_observed_at_ms = 5000, rr_outcome = EffectConfirmed,
       rr_evidence_digest = from_payload L ''target-observation''\<rparr>"
  obtains k where "rr_commitment L x = Inr k" "rr_digests x" "verify_reconciliation L r None x = Inr k"
proof -
  have "quote_conforms L" using L by (simp add: conforming_def)
  moreover have "rr_validate x = Inr ()"
    by (simp add: x rr_validate_def visible_eval)
  ultimately obtain k where k: "rr_commitment L x = Inr k"
    using commitment_valid_iff(6) quote_conforms_quotes by blast
  moreover have "rr_digests x"
    using L h(1) by (simp add: x digests_defs conforming_def payload_digest_ok)
  moreover have "verify_reconciliation L r None x = Inr k"
    using k h by (simp add: verify_reconciliation_ok evidence_for_def follows_def x)
  ultimately show thesis by (rule that)
qed

lemma full_lifecycle_survives_reopen_passes:
  assumes L: "conforming L" and env: "quiet_env env"
  shows "full_lifecycle_survives_reopen L env = Inr ()"
  unfolding full_lifecycle_survives_reopen_def
proof (rule given_sql_fixture [OF L], goal_cases)
  case 1
  show ?case by (simp add: short_suffix_def)
next
  case (2 ch ph dh gh row)
  let ?r = "test_receipt_of L ''receipt-one'' ph gh ''attempt-one'' (Some 4100) 4500 Unknown ''unknown''"
    and ?d = "test_claim gh ''attempt-one'' (Some 4100)"
  obtain h rrow where h: "er_commitment L ?r = Inr h" "digest_ok h"
    and recorded: "\<And>ss xs t. receipt_test L ?r (store_on (small_db [(''grant-'' @ ''one'', row)] ss [?d] [] xs t))
      = (Inr h, store_on (small_db [(''grant-'' @ ''one'', row)] ss [?d] [rrow] xs t))"
    and rrow: "rrow = row_of_receipt L ?r h"
    and chain: "completes L (chain_of L ''one'' ch ph dh gh) ?d ?r h"
    "claimed_chain L [(''grant-'' @ ''one'', row)] ?d (chain_of L ''one'' ch ph dh gh)"
    by (rule receipt_ready [OF L 2, of "''receipt-one''" "''attempt-one''" "Some 4100" Unknown "''unknown''"]) auto
  have fields: "er_digests ?r" using chain(1) by (simp add: completes_def)
  have e: "validate_dispatch_evidence ?r (dc_dispatch_started_at_ms ?d) = Inr ()"
    by (simp add: validate_dispatch_evidence_def)
  let ?x = "\<lparr>rr_version = 1, rr_reconciliation_id = ''reconcile-one'', rr_receipt_hash = h, rr_sequence = 1,
       rr_parent_reconciliation_hash = None, rr_observed_at_ms = 5000, rr_outcome = EffectConfirmed,
       rr_evidence_digest = from_payload L ''target-observation''\<rparr>"
  obtain k where k: "rr_commitment L ?x = Inr k" "rr_digests ?x" "verify_reconciliation L ?r None ?x = Inr k"
    by (rule reconcile_ready [OF L h(2,1)]) simp_all
  note noted = reconcile_small [OF L h(1) fields k(1) _ k(3), of "[(''grant-'' @ ''one'', row)]"
      "[test_snapshot L 1]" "[?d]" "Some 4100"]
    and lifecycle = lifecycle_receipt_small(2) [OF L chain(2,1) e k(1,2) _ k(3), of "[test_snapshot L 1]" "Some 4100"]
  have ok: "ep_commitment L (sql_proposal L ''one'' ch) = Inr ph" using 2 by (simp add: sql_ready_def)
  show ?case
    using recorded noted lifecycle
    by (simp only: open_new [OF env])
       (simp add: run open_again [OF env] register_ready [OF 2] register_ready(2) [OF 2, simplified]
        put_ready claim_ready [OF 2] mark_ready [OF 2] test_snapshot_ok [OF L] test_request_valid ok rrow
        claim_currentness_test dispatch_currentness_test MAX_SAFE_INTEGER_def
        reconcile_test_def lifecycle_test_def on_store)
qed

section \<open>Two chains\<close>

text \<open>The unique columns of the rows of the two chains do not collide.\<close>

definition separate_fixtures :: "lib \<Rightarrow> bool" where
  "separate_fixtures L \<longleftrightarrow> (\<forall>ch ph dh gh row ch' ph' dh' gh' row'.
     sql_ready L ''first'' ch ph dh gh row \<and> sql_ready L ''second'' ch' ph' dh' gh' row' \<longrightarrow>
     rc_grant_hash row \<noteq> rc_grant_hash row' \<and> rc_proposal_hash row \<noteq> rc_proposal_hash row'
     \<and> rc_decision_hash row \<noteq> rc_decision_hash row')"

lemma register_second_chain:
  assumes "sql_ready L ''second'' ch ph dh gh row" and "rc_grant_hash r \<noteq> rc_grant_hash row"
    and "rc_proposal_hash r \<noteq> rc_proposal_hash row" and "rc_decision_hash r \<noteq> rc_decision_hash row"
  shows "register_test L (fixture_of L ''second'' ch ph dh) (store_on (small_db [(''grant-first'', r)] ss ds rs xs t))
      = (Inr gh, store_on (small_db [(''grant-first'', r), (''grant-second'', row)] ss ds rs xs t))"
  using assms register_small(3) [of L "sql_commitment L ''second''" "sql_proposal L ''second'' ch"
      "sql_decision L ''second'' ph" "sql_grant ''second'' ph dh" gh row "''grant-first''" r]
  by (simp add: register_test_def on_store sql_ready_def grant_id_of)

lemma trusted_clock_and_attempt_uniqueness_survive_reopen_passes:
  assumes L: "conforming L" and env: "quiet_env env" and apart: "separate_fixtures L"
  shows "trusted_clock_and_attempt_uniqueness_survive_reopen L env = Inr ()"
  unfolding trusted_clock_and_attempt_uniqueness_survive_reopen_def
proof (rule given_sql_fixture [OF L], goal_cases)
  case 1
  show ?case by (simp add: short_suffix_def)
next
  case first: (2 ch ph dh gh row)
  show ?case
  proof (rule given_sql_fixture [OF L], goal_cases)
    case 1
    show ?case by (simp add: short_suffix_def)
  next
    case (2 ch' ph' dh' gh' row')
    have differ: "rc_grant_hash row \<noteq> rc_grant_hash row'" "rc_proposal_hash row \<noteq> rc_proposal_hash row'"
      "rc_decision_hash row \<noteq> rc_decision_hash row'"
      using apart first 2 unfolding separate_fixtures_def by blast+
    with first 2 have "gh \<noteq> gh'" by (auto simp: sql_ready_def)
    have hash: "eg_commitment L (sql_grant ''second'' ph' dh') = Inr gh'" using 2 by (simp add: sql_ready_def)
    show ?case
      using differ \<open>gh \<noteq> gh'\<close>
      by (simp only: open_new [OF env])
         (simp add: run open_again [OF env] register_ready [OF first] register_second_chain [OF 2] put_ready
          claim_ready [OF first] claim_ready [OF 2] lifecycle_ready [OF 2] test_snapshot_ok [OF L]
          test_request_valid claim_currentness_test MAX_SAFE_INTEGER_def claimed_ok ready_hash [OF first] hash)
  qed
qed

section \<open>Currentness\<close>

lemma currentness_is_monotonic_and_revocation_is_sticky_per_epoch_passes:
  assumes L: "conforming L" and env: "quiet_env env"
  shows "currentness_is_monotonic_and_revocation_is_sticky_per_epoch L env = Inr ()"
proof -
  let ?s = "test_snapshot L 1\<lparr>cu_revoked := True\<rparr>"
  have ok: "snapshot_ok ?s" "snapshot_ok (?s\<lparr>cu_version := 1, cu_revoked := False\<rparr>)"
    "snapshot_ok (?s\<lparr>cu_version := 2, cu_revoked := False, cu_observed_at_ms := cu_observed_at_ms ?s + 1\<rparr>)"
    "snapshot_ok (?s\<lparr>cu_version := 2, cu_revoked := False, cu_observed_at_ms := cu_observed_at_ms ?s + 1,
       cu_policy_epoch := cu_policy_epoch ?s + 1\<rparr>)"
    using test_snapshot_ok [OF L, of 1] test_snapshot_ok [OF L, of 2]
    by (simp_all add: snapshot_ok_def validate_snapshot_def test_snapshot_def discard_def safe_i64_within
        MAX_SAFE_INTEGER_def)
  show ?thesis
    unfolding currentness_is_monotonic_and_revocation_is_sticky_per_epoch_def open_new [OF env]
    using ok
    by (simp add: run put_ready put_checks_def test_snapshot_def word_le_nat_alt ensure_def)
qed

section \<open>Opening foreign files\<close>

lemma unknown_and_foreign_schemas_are_refused_without_mutation_passes:
  assumes env: "quiet_env env"
  shows "unknown_and_foreign_schemas_are_refused_without_mutation env = Inr ()"
  by (simp add: unknown_and_foreign_schemas_are_refused_without_mutation_def Let_def quiet_open [OF env]
      quiet_preflight [OF env] obind_def new_file_def SCHEMA_VERSION_def ensure_def like_sqlite_def ascii_lower_def)

end
