(* ===== verification/Executor_Tests.thy ===== *)
theory Executor_Tests
  imports Test_Harness Executor Executor_Views
begin

text \<open>
  The unit tests of crates/effect-transaction-executor/src/lib.rs, as executable definitions over
  the model. A test opens an executor on a fresh file and calls its methods one after the other,
  without other connections and with an engine that does not fail; \<open>env\<close> is what the engine does
  while the database is opened. The boxed errors of the tests are executor errors. That the tests
  pass is shown in \<open>Executor_Tests_Pass\<close>.
\<close>

section \<open>Fixture\<close>

definition EXEC_NOW :: u64 where "EXEC_NOW = 4000"

text \<open>\<open>EffectDocuments::new\<close>.\<close>

definition documents_new :: "string \<Rightarrow> string \<Rightarrow> string \<Rightarrow> string \<Rightarrow> effect_documents" where
  "documents_new arguments expected_effect pre_state resource_claim =
     \<lparr>do_arguments = arguments, do_expected_effect = expected_effect, do_pre_state = pre_state,
      do_resource_claim = resource_claim\<rparr>"

record exec_fixture =
  xf_commitment :: task_commitment
  xf_proposal :: effect_proposal
  xf_decision :: authorization_decision
  xf_grant :: execution_grant
  xf_arguments :: string
  xf_expected_effect :: string
  xf_pre_state :: string
  xf_resource_claim :: string

definition prepared_of :: "lib \<Rightarrow> exec_fixture \<Rightarrow> executor_error + prepared_effect" where
  "prepared_of L self =
     prepare L (xf_commitment self) (xf_proposal self) (xf_decision self) (xf_grant self)
       (documents_new (xf_arguments self) (xf_expected_effect self) (xf_pre_state self)
         (xf_resource_claim self))"

definition exec_arguments :: "string \<Rightarrow> string" where
  "exec_arguments suffix = ''{\"content\":\"'' @ suffix @ ''\",\"path\":\"/'' @ suffix @ ''.md\"}''"

definition exec_expected :: "string \<Rightarrow> string" where
  "exec_expected suffix = ''{\"sha256\":\"'' @ suffix @ ''\"}''"

definition exec_pre_state :: string where "exec_pre_state = ''{\"exists\":false}''"

definition exec_resources :: string where "exec_resources = ''{\"writes\":1}''"

definition exec_commitment :: "lib \<Rightarrow> string \<Rightarrow> task_commitment" where
  "exec_commitment L suffix = \<lparr>tc_version = PROFILE_VERSION, tc_commitment_id = ''task-'' @ suffix,
     tc_principal = ''user:alice'', tc_objective_digest = from_payload L ''objective'',
     tc_constraints_digest = from_payload L ''constraints'',
     tc_authority_scope_digest = from_payload L ''authority scope'', tc_policy_epoch = 7,
     tc_configuration_epoch = 3, tc_created_at_ms = 1000, tc_expires_at_ms = 20000\<rparr>"

definition exec_proposal :: "lib \<Rightarrow> string \<Rightarrow> digest32 \<Rightarrow> effect_proposal" where
  "exec_proposal L suffix commitment_hash = \<lparr>ep_version = PROFILE_VERSION,
     ep_proposal_id = ''proposal-'' @ suffix, ep_commitment_hash = commitment_hash,
     ep_effect_profile = ''filesystem/canonical-write@1'', ep_operation = ''filesystem.write'',
     ep_target = ''workspace:/'' @ suffix @ ''.md'',
     ep_arguments_digest = from_payload L (exec_arguments suffix),
     ep_expected_effect_digest = from_payload L (exec_expected suffix),
     ep_pre_state_digest = from_payload L exec_pre_state,
     ep_resource_claim_digest = from_payload L exec_resources,
     ep_created_at_ms = 2000, ep_expires_at_ms = 15000\<rparr>"

definition exec_decision :: "lib \<Rightarrow> string \<Rightarrow> digest32 \<Rightarrow> authorization_decision" where
  "exec_decision L suffix proposal_hash = \<lparr>ad_version = PROFILE_VERSION,
     ad_decision_id = ''decision-'' @ suffix, ad_proposal_hash = proposal_hash,
     ad_evidence_hashes = [from_payload L ''policy evidence''], ad_outcome = Allow,
     ad_reason_codes = [''policy_allow''], ad_decided_at_ms = 3000, ad_expires_at_ms = 10000\<rparr>"

definition exec_grant :: "string \<Rightarrow> digest32 \<Rightarrow> digest32 \<Rightarrow> execution_grant" where
  "exec_grant suffix proposal_hash decision_hash = \<lparr>eg_version = PROFILE_VERSION,
     eg_grant_id = ''grant-'' @ suffix, eg_proposal_hash = proposal_hash,
     eg_decision_hash = decision_hash, eg_audience = ''executor:prod-a'', eg_not_before_ms = 3500,
     eg_expires_at_ms = 9000, eg_uses = 1, eg_nonce = ''abcdefghijklmnopqrstuvwxyz012345''\<rparr>"

definition exec_fixture_of :: "lib \<Rightarrow> string \<Rightarrow> protocol_error + exec_fixture" where
  "exec_fixture_of L suffix =
     (let commitment = exec_commitment L suffix in
      rbind (tc_commitment L commitment) (\<lambda>commitment_hash.
      let proposal = exec_proposal L suffix commitment_hash in
      rbind (ep_commitment L proposal) (\<lambda>proposal_hash.
      let decision = exec_decision L suffix proposal_hash in
      rbind (ad_commitment L decision) (\<lambda>decision_hash.
      let grant = exec_grant suffix proposal_hash decision_hash in
      Inr \<lparr>xf_commitment = commitment, xf_proposal = proposal, xf_decision = decision,
           xf_grant = grant, xf_arguments = exec_arguments suffix,
           xf_expected_effect = exec_expected suffix, xf_pre_state = exec_pre_state,
           xf_resource_claim = exec_resources\<rparr>))))"

definition exec_policy :: executor_policy where
  "exec_policy = \<lparr>po_audience = ''executor:prod-a'', po_authority_role = ''execution_authorizer'',
     po_maximum_authority_snapshot_age_ms = 500, po_maximum_currentness_age_ms = 500\<rparr>"

definition exec_signer :: "'h cose_lib \<Rightarrow> authority_error + signing_authority" where
  "exec_signer K = from_seed K ''spiffe://example.test/authority'' ''root-2026-09'' (replicate 32 7)"

definition exec_statement :: "lib \<Rightarrow> exec_fixture \<Rightarrow> protocol_error + authority_statement" where
  "exec_statement L fixture =
     rbind (eg_commitment L (xf_grant fixture)) (\<lambda>grant_hash.
     Inr \<lparr>au_version = 1, au_authority_profile = AUTHORITY_PROFILE,
       au_statement_id = ''assertion-'' @ eg_grant_id (xf_grant fixture),
       au_issuer = ''spiffe://example.test/authority'', au_key_id = ''root-2026-09'',
       au_role = ''execution_authorizer'', au_audience = ''executor:prod-a'',
       au_record_profile = CORE_RECORD_PROFILE, au_record_version = eg_version (xf_grant fixture),
       au_record_kind = KExecutionGrant, au_record_digest = grant_hash, au_issued_at_ms = 3700,
       au_not_before_ms = 3800, au_expires_at_ms = 8000, au_authority_epoch = 7,
       au_configuration_epoch = 3\<rparr>)"

definition exec_snapshot :: "u8 list \<Rightarrow> authority_snapshot" where
  "exec_snapshot public_key = \<lparr>sn_issuer = ''spiffe://example.test/authority'',
     sn_key_id = ''root-2026-09'', sn_public_key = public_key,
     sn_authorized_roles = [''execution_authorizer''],
     sn_authorized_audiences = [''executor:prod-a''], sn_authority_epoch = 7,
     sn_configuration_epoch = 3, sn_key_valid_from_ms = 1000, sn_key_valid_until_ms = 10000,
     sn_revoked_at_ms = None, sn_observed_at_ms = 3900\<rparr>"

definition exec_currentness :: "exec_fixture \<Rightarrow> u64 \<Rightarrow> currentness_snapshot" where
  "exec_currentness fixture version = \<lparr>cu_key = ''cluster/prod/deployment/api'', cu_version = version,
     cu_policy_epoch = tc_policy_epoch (xf_commitment fixture),
     cu_configuration_epoch = tc_configuration_epoch (xf_commitment fixture),
     cu_pre_state_digest = ep_pre_state_digest (xf_proposal fixture),
     cu_resource_claim_digest = ep_resource_claim_digest (xf_proposal fixture),
     cu_revoked = False, cu_observed_at_ms = 3950 + version\<rparr>"

definition signed_authority ::
    "lib \<Rightarrow> 'h cose_lib \<Rightarrow> signing_authority \<Rightarrow> exec_fixture \<Rightarrow> executor_error + string" where
  "signed_authority L K signer fixture =
     rbind (map_err EX_Protocol (exec_statement L fixture)) (\<lambda>statement.
     map_err EX_Authority (sign L K signer statement))"

section \<open>Running an executor\<close>

type_synonym exec_test = "database_file \<Rightarrow> executor_error failure + unit"

text \<open>A method call on an executor whose database is the file.\<close>

definition run_method :: "lib \<Rightarrow> 'a action \<Rightarrow> database_file \<Rightarrow> (executor_error + 'a) \<times> database_file" where
  "run_method L p f = (case run_alone L no_faults p (fl_data f) of (r, db) \<Rightarrow> (r, f\<lparr>fl_data := db\<rparr>))"

text \<open>\<open>result?\<close> on a step that does not touch the file, and an assertion.\<close>

definition need :: "executor_error + 'a \<Rightarrow> ('a \<Rightarrow> exec_test) \<Rightarrow> exec_test" where
  "need r k f = rbind (attempt r) (\<lambda>x. k x f)"

definition expect :: "bool \<Rightarrow> exec_test \<Rightarrow> exec_test" where
  "expect b k = and_then (assert_that b) k"

definition open_executor :: "surroundings \<Rightarrow> executor_policy \<Rightarrow> (executor_policy \<Rightarrow> exec_test) \<Rightarrow> exec_test" where
  "open_executor env policy k = call (executor_open env ''test.db'' policy) k"

definition failed_with :: "executor_error \<Rightarrow> executor_error + 'a \<Rightarrow> bool" where
  "failed_with e result = (case result of Inl x \<Rightarrow> x = e | Inr _ \<Rightarrow> False)"

text \<open>
  \<open>let fixture = fixture(suffix)?; let signer = signer()?; let assertion =
  signed\_authority(\&signer, \&fixture)?\<close>, with which most tests begin.
\<close>

definition with_signed ::
    "lib \<Rightarrow> 'h cose_lib \<Rightarrow> string \<Rightarrow> (exec_fixture \<Rightarrow> u8 list \<Rightarrow> string \<Rightarrow> exec_test) \<Rightarrow> exec_test" where
  "with_signed L K suffix body =
     need (map_err EX_Protocol (exec_fixture_of L suffix)) (\<lambda>fixture.
     need (map_err EX_Authority (exec_signer K)) (\<lambda>signer.
     need (signed_authority L K signer fixture) (\<lambda>assertion.
     body fixture (key_public K (sa_seed signer)) assertion)))"

section \<open>Tests\<close>

definition full_flow_releases_exact_effect_only_after_durable_marker ::
    "lib \<Rightarrow> 'h cose_lib \<Rightarrow> surroundings \<Rightarrow> executor_error failure + unit" where
  "full_flow_releases_exact_effect_only_after_durable_marker L K env =
     with_signed L K ''swimming'' (\<lambda>fixture public_key assertion.
     let snapshot = exec_snapshot public_key in
     open_executor env exec_policy (\<lambda>policy.
     need (prepared_of L fixture) (\<lambda>prepared.
     call (run_method L (authorize_and_claim L K policy prepared assertion snapshot
             (exec_currentness fixture 1) ''attempt-swimming'' EXEC_NOW)) (\<lambda>claimed.
     expect (dc_attempt_id (ce_claim claimed) = ''attempt-swimming'') (
     expect (ae_statement_id (ce_authority claimed) = ''assertion-grant-swimming'') (
     call (run_method L (begin_dispatch L K policy claimed snapshot (EXEC_NOW + 10))) (\<lambda>capability.
     let (handle, seen, observed) = dispatch_with capability
           (\<lambda>effect. (exact_accessors effect, ''adapter-returned'')) in
     expect (seen = (''filesystem/canonical-write@1'', ''filesystem.write'', ''workspace:/swimming.md'',
       xf_arguments fixture, xf_expected_effect fixture, xf_pre_state fixture, xf_resource_claim fixture)) (
     expect (observed = ''adapter-returned'') (
     call (run_method L (record_dispatched handle \<lparr>dr_receipt_id = ''receipt-swimming'',
             dr_completed_at_ms = EXEC_NOW + 20, dr_outcome = DispatchSucceeded,
             dr_observation_digest = from_payload L ''target confirms success''\<rparr>)) (\<lambda>receipt_hash.
     need (map_err EX_Protocol (eg_commitment L (xf_grant fixture))) (\<lambda>grant_hash.
     call (run_method L (ex_lifecycle L grant_hash)) (\<lambda>lifecycle.
     expect (map_option er_outcome (lc_receipt lifecycle) = Some Succeeded) (
     need (case lc_receipt lifecycle of
             None \<Rightarrow> Inr None
           | Some receipt \<Rightarrow> map_err EX_Protocol (rbind (er_commitment L receipt) (\<lambda>h. Inr (Some h)))) (\<lambda>hash.
     expect (hash = Some receipt_hash)
     passed))))))))))))))
     new_file"

definition document_case :: "lib \<Rightarrow> nat \<Rightarrow> executor_error failure + unit" where
  "document_case L position =
     need (map_err EX_Protocol (exec_fixture_of L (''digest-'' @ decimal position))) (\<lambda>fixture.
     let bytes = [xf_arguments fixture, xf_expected_effect fixture, xf_pre_state fixture, xf_resource_claim fixture];
         bytes = bytes[position := bytes ! position @ ''!''];
         result = prepare L (xf_commitment fixture) (xf_proposal fixture) (xf_decision fixture)
           (xf_grant fixture) (documents_new (bytes ! 0) (bytes ! 1) (bytes ! 2) (bytes ! 3)) in
     expect (case result of Inl (DocumentDigestMismatch _) \<Rightarrow> True | _ \<Rightarrow> False)
     passed) new_file"

definition every_exact_document_digest_is_enforced :: "lib \<Rightarrow> executor_error failure + unit" where
  "every_exact_document_digest_is_enforced L = checks (map (document_case L) [0, 1, 2, 3])"

definition prepared_effect_treats_profile_documents_as_opaque_bytes ::
    "lib \<Rightarrow> executor_error failure + unit" where
  "prepared_effect_treats_profile_documents_as_opaque_bytes L =
     need (map_err EX_Protocol (exec_fixture_of L ''opaque'')) (\<lambda>fixture.
     let fixture = fixture\<lparr>xf_arguments := [CHR 0xFF, CHR 0x00, CHR ''{'']\<rparr>;
         fixture = fixture\<lparr>xf_proposal := (xf_proposal fixture)
           \<lparr>ep_arguments_digest := from_payload L (xf_arguments fixture)\<rparr>\<rparr> in
     need (map_err EX_Protocol (ep_commitment L (xf_proposal fixture))) (\<lambda>proposal_hash.
     let fixture = fixture\<lparr>xf_decision := (xf_decision fixture)\<lparr>ad_proposal_hash := proposal_hash\<rparr>\<rparr> in
     need (map_err EX_Protocol (ad_commitment L (xf_decision fixture))) (\<lambda>decision_hash.
     let fixture = fixture\<lparr>xf_grant := (xf_grant fixture)\<lparr>eg_proposal_hash := proposal_hash,
                             eg_decision_hash := decision_hash\<rparr>\<rparr> in
     need (prepared_of L fixture) (\<lambda>prepared.
     expect (do_arguments (pe_documents prepared) = xf_arguments fixture)
     passed)))) new_file"

definition wrong_executor_audience_is_rejected_before_claim ::
    "lib \<Rightarrow> 'h cose_lib \<Rightarrow> surroundings \<Rightarrow> executor_error failure + unit" where
  "wrong_executor_audience_is_rejected_before_claim L K env =
     with_signed L K ''audience'' (\<lambda>fixture public_key assertion.
     let wrong_policy = exec_policy\<lparr>po_audience := ''executor:other''\<rparr> in
     open_executor env wrong_policy (\<lambda>policy.
     need (prepared_of L fixture) (\<lambda>prepared.
     observe (run_method L (authorize_and_claim L K policy prepared assertion (exec_snapshot public_key)
                (exec_currentness fixture 1) ''attempt-audience'' EXEC_NOW)) (\<lambda>r.
     expect (failed_with GrantAudienceMismatch r)
     passed)))) new_file"

datatype authority_mutation = MutateRole | MutateDigest | MutateStale | MutateRevoked

definition mutation_case ::
    "lib \<Rightarrow> 'h cose_lib \<Rightarrow> surroundings \<Rightarrow> nat \<times> authority_mutation \<Rightarrow> executor_error failure + unit" where
  "mutation_case L K env c =
     (case c of (index, mutation) \<Rightarrow>
     need (map_err EX_Protocol (exec_fixture_of L (''authority-'' @ decimal index))) (\<lambda>fixture.
     need (map_err EX_Authority (exec_signer K)) (\<lambda>signer.
     need (map_err EX_Protocol (exec_statement L fixture)) (\<lambda>statement.
     let snapshot = exec_snapshot (key_public K (sa_seed signer)) in
     let (statement, snapshot) = (case mutation of
           MutateRole \<Rightarrow> (statement\<lparr>au_role := ''other_authorizer''\<rparr>,
             snapshot\<lparr>sn_authorized_roles := sn_authorized_roles snapshot @ [''other_authorizer'']\<rparr>)
         | MutateDigest \<Rightarrow> (statement\<lparr>au_record_digest := from_payload L ''another grant''\<rparr>, snapshot)
         | MutateStale \<Rightarrow> (statement, snapshot\<lparr>sn_observed_at_ms := 3000\<rparr>)
         | MutateRevoked \<Rightarrow> (statement, snapshot\<lparr>sn_revoked_at_ms := Some 3999\<rparr>)) in
     need (map_err EX_Authority (sign L K signer statement)) (\<lambda>assertion.
     open_executor env exec_policy (\<lambda>policy.
     need (prepared_of L fixture) (\<lambda>prepared.
     observe (run_method L (authorize_and_claim L K policy prepared assertion snapshot
                (exec_currentness fixture 1) (''attempt-'' @ decimal index) EXEC_NOW)) (\<lambda>result.
     expect (failed_with (EX_Authority (case mutation of
           MutateRole \<Rightarrow> RoleMismatch
         | MutateDigest \<Rightarrow> RecordDigestMismatch
         | MutateStale \<Rightarrow> StaleSnapshot
         | MutateRevoked \<Rightarrow> KeyRevoked)) result)
     passed))))))) new_file)"

definition wrong_role_digest_stale_and_revoked_authority_fail_closed ::
    "lib \<Rightarrow> 'h cose_lib \<Rightarrow> surroundings \<Rightarrow> executor_error failure + unit" where
  "wrong_role_digest_stale_and_revoked_authority_fail_closed L K env =
     checks (map (mutation_case L K env)
       [(0, MutateRole), (1, MutateDigest), (2, MutateStale), (3, MutateRevoked)])"

definition authority_and_currentness_epoch_mismatches_fail_before_consumption ::
    "lib \<Rightarrow> 'h cose_lib \<Rightarrow> surroundings \<Rightarrow> executor_error failure + unit" where
  "authority_and_currentness_epoch_mismatches_fail_before_consumption L K env =
     with_signed L K ''epochs'' (\<lambda>fixture public_key assertion.
     let snapshot = exec_snapshot public_key;
         snapshot = snapshot\<lparr>sn_authority_epoch := sn_authority_epoch snapshot + 1\<rparr> in
     open_executor env exec_policy (\<lambda>policy.
     need (prepared_of L fixture) (\<lambda>prepared.
     observe (run_method L (authorize_and_claim L K policy prepared assertion snapshot
                (exec_currentness fixture 1) ''attempt-epoch-a'' EXEC_NOW)) (\<lambda>r.
     expect (failed_with (EX_Authority AuthorityEpochMismatch) r) (
     let current = exec_currentness fixture 1;
         current = current\<lparr>cu_policy_epoch := cu_policy_epoch current + 1\<rparr> in
     need (prepared_of L fixture) (\<lambda>prepared.
     observe (run_method L (authorize_and_claim L K policy prepared assertion (exec_snapshot public_key)
                current ''attempt-epoch-b'' EXEC_NOW)) (\<lambda>r.
     expect (failed_with CurrentnessPolicyEpochMismatch r)
     passed))))))) new_file"

definition duplicate_claim_and_state_drift_cannot_reach_dispatch ::
    "lib \<Rightarrow> 'h cose_lib \<Rightarrow> surroundings \<Rightarrow> executor_error failure + unit" where
  "duplicate_claim_and_state_drift_cannot_reach_dispatch L K env =
     with_signed L K ''linear'' (\<lambda>fixture public_key assertion.
     let snapshot = exec_snapshot public_key in
     open_executor env exec_policy (\<lambda>policy.
     need (prepared_of L fixture) (\<lambda>prepared.
     call (run_method L (authorize_and_claim L K policy prepared assertion snapshot
             (exec_currentness fixture 1) ''attempt-winner'' EXEC_NOW)) (\<lambda>claimed.
     need (prepared_of L fixture) (\<lambda>prepared.
     observe (run_method L (authorize_and_claim L K policy prepared assertion snapshot
                (exec_currentness fixture 1) ''attempt-loser'' (EXEC_NOW + 1))) (\<lambda>r.
     expect (failed_with (EX_Store SE_GrantAlreadyClaimed) r) (
     call (run_method L (observe_currentness policy (exec_currentness fixture 2) (EXEC_NOW + 2))) (\<lambda>_.
     observe (run_method L (begin_dispatch L K policy claimed snapshot (EXEC_NOW + 3))) (\<lambda>r.
     expect (failed_with (EX_Store SE_StaleSnapshot) r)
     passed))))))))) new_file"

definition authority_is_reverified_at_the_dispatch_boundary ::
    "lib \<Rightarrow> 'h cose_lib \<Rightarrow> surroundings \<Rightarrow> executor_error failure + unit" where
  "authority_is_reverified_at_the_dispatch_boundary L K env =
     with_signed L K ''dispatch-revocation'' (\<lambda>fixture public_key assertion.
     let snapshot = exec_snapshot public_key in
     open_executor env exec_policy (\<lambda>policy.
     need (prepared_of L fixture) (\<lambda>prepared.
     call (run_method L (authorize_and_claim L K policy prepared assertion snapshot
             (exec_currentness fixture 1) ''attempt-revoked-after-claim'' EXEC_NOW)) (\<lambda>claimed.
     let grant_hash = dc_grant_hash (ce_claim claimed);
         revoked = snapshot\<lparr>sn_revoked_at_ms := Some (EXEC_NOW + 1), sn_observed_at_ms := EXEC_NOW + 1\<rparr> in
     observe (run_method L (begin_dispatch L K policy claimed revoked (EXEC_NOW + 2))) (\<lambda>r.
     expect (failed_with (EX_Authority KeyRevoked) r) (
     call (run_method L (ex_lifecycle L grant_hash)) (\<lambda>lifecycle.
     expect (Option.bind (lc_claim lifecycle) dc_dispatch_started_at_ms = None)
     passed))))))) new_file"

definition post_marker_crash_recovers_only_as_unknown_then_reconciles ::
    "lib \<Rightarrow> 'h cose_lib \<Rightarrow> surroundings \<Rightarrow> executor_error failure + unit" where
  "post_marker_crash_recovers_only_as_unknown_then_reconciles L K env =
     with_signed L K ''crash'' (\<lambda>fixture public_key assertion.
     open_executor env exec_policy (\<lambda>policy.
     need (prepared_of L fixture) (\<lambda>prepared.
     call (run_method L (authorize_and_claim L K policy prepared assertion (exec_snapshot public_key)
             (exec_currentness fixture 1) ''attempt-crash'' EXEC_NOW)) (\<lambda>claimed.
     let grant_hash = dc_grant_hash (ce_claim claimed);
         proposal_hash = pe_proposal_hash (ce_prepared claimed);
         dispatch_snapshot = exec_snapshot public_key in
     call (run_method L (begin_dispatch L K policy claimed dispatch_snapshot (EXEC_NOW + 10))) (\<lambda>_.
     open_executor env exec_policy (\<lambda>_.
     observe (run_method L (record_recovered_not_dispatched L
       \<lparr>nr_receipt_id = ''receipt-invalid-not-dispatched'', nr_proposal_hash = proposal_hash,
        nr_grant_hash = grant_hash, nr_attempt_id = ''attempt-crash'',
        nr_completed_at_ms = EXEC_NOW + 40,
        nr_observation_digest = from_payload L ''invalid certainty''\<rparr>)) (\<lambda>r.
     expect (failed_with UnexpectedDispatchMarker r) (
     call (run_method L (record_recovered_unknown L
       \<lparr>ur_receipt_id = ''receipt-crash'', ur_proposal_hash = proposal_hash,
        ur_grant_hash = grant_hash, ur_attempt_id = ''attempt-crash'',
        ur_completed_at_ms = EXEC_NOW + 50,
        ur_observation_digest = from_payload L ''transport outcome unavailable''\<rparr>)) (\<lambda>receipt_hash.
     call (run_method L (ex_lifecycle L grant_hash)) (\<lambda>lifecycle.
     expect (map_option er_outcome (lc_receipt lifecycle) = Some Unknown) (
     let reconciliation = \<lparr>rr_version = 1, rr_reconciliation_id = ''reconciliation-crash-1'',
           rr_receipt_hash = receipt_hash, rr_sequence = 1, rr_parent_reconciliation_hash = None,
           rr_observed_at_ms = EXEC_NOW + 100, rr_outcome = EffectConfirmed,
           rr_evidence_digest = from_payload L ''target idempotency record found''\<rparr> in
     call (run_method L (ex_append_reconciliation reconciliation)) (\<lambda>_.
     call (run_method L (ex_lifecycle L grant_hash)) (\<lambda>lifecycle.
     expect (length (lc_reconciliations lifecycle) = 1)
     passed))))))))))))) new_file"

definition recovery_refuses_unknown_without_dispatch_marker ::
    "lib \<Rightarrow> 'h cose_lib \<Rightarrow> surroundings \<Rightarrow> executor_error failure + unit" where
  "recovery_refuses_unknown_without_dispatch_marker L K env =
     with_signed L K ''no-marker'' (\<lambda>fixture public_key assertion.
     open_executor env exec_policy (\<lambda>policy.
     need (prepared_of L fixture) (\<lambda>prepared.
     call (run_method L (authorize_and_claim L K policy prepared assertion (exec_snapshot public_key)
             (exec_currentness fixture 1) ''attempt-no-marker'' EXEC_NOW)) (\<lambda>claimed.
     let proposal_hash = pe_proposal_hash (ce_prepared claimed);
         grant_hash = dc_grant_hash (ce_claim claimed) in
     open_executor env exec_policy (\<lambda>_.
     observe (run_method L (record_recovered_unknown L
       \<lparr>ur_receipt_id = ''receipt-invalid-unknown'', ur_proposal_hash = proposal_hash,
        ur_grant_hash = grant_hash, ur_attempt_id = ''attempt-no-marker'',
        ur_completed_at_ms = EXEC_NOW + 10, ur_observation_digest = from_payload L ''none''\<rparr>)) (\<lambda>r.
     expect (failed_with MissingDispatchMarker r) (
     call (run_method L (record_recovered_not_dispatched L
       \<lparr>nr_receipt_id = ''receipt-not-dispatched'', nr_proposal_hash = proposal_hash,
        nr_grant_hash = grant_hash, nr_attempt_id = ''attempt-no-marker'',
        nr_completed_at_ms = EXEC_NOW + 10,
        nr_observation_digest = from_payload L ''adapter never invoked''\<rparr>)) (\<lambda>_.
     call (run_method L (ex_lifecycle L grant_hash)) (\<lambda>lifecycle.
     expect (map_option er_outcome (lc_receipt lifecycle) = Some NotDispatched)
     passed))))))))) new_file"

end
