(* ===== verification/Executor_Running.thy ===== *)
theory Executor_Running
  imports Executor_Tests Sqlite_Tests_Pass Authority_Tests_Pass
begin

text \<open>
  What the methods of the executor do in the situations of its unit tests: on the fixture's records,
  whose digests a conforming library computes, on the small databases of \<open>Sqlite_Running\<close> and
  with authority objects that the authority crate has signed. Each method has a lemma giving its
  result and the database it leaves.
\<close>

section \<open>The fixture\<close>

abbreviation efixture :: "lib \<Rightarrow> string \<Rightarrow> digest32 \<Rightarrow> digest32 \<Rightarrow> digest32 \<Rightarrow> exec_fixture" where
  "efixture L suffix ch ph dh \<equiv> \<lparr>xf_commitment = exec_commitment L suffix,
     xf_proposal = exec_proposal L suffix ch, xf_decision = exec_decision L suffix ph,
     xf_grant = exec_grant suffix ph dh, xf_arguments = exec_arguments suffix,
     xf_expected_effect = exec_expected suffix, xf_pre_state = exec_pre_state,
     xf_resource_claim = exec_resources\<rparr>"

abbreviation echain :: "lib \<Rightarrow> string \<Rightarrow> digest32 \<Rightarrow> digest32 \<Rightarrow> digest32 \<Rightarrow> digest32 \<Rightarrow> stored_chain" where
  "echain L suffix ch ph dh gh \<equiv> \<lparr>sc_grant_hash = gh, sc_commitment = exec_commitment L suffix,
     sc_proposal = exec_proposal L suffix ch, sc_decision = exec_decision L suffix ph,
     sc_grant = exec_grant suffix ph dh\<rparr>"

definition exec_ready ::
    "lib \<Rightarrow> string \<Rightarrow> digest32 \<Rightarrow> digest32 \<Rightarrow> digest32 \<Rightarrow> digest32 \<Rightarrow> raw_chain \<Rightarrow> bool" where
  "exec_ready L suffix ch ph dh gh row \<longleftrightarrow> short_suffix suffix \<and> conforming L
     \<and> register_row L (exec_commitment L suffix) (exec_proposal L suffix ch) (exec_decision L suffix ph)
       (exec_grant suffix ph dh) = Inr (gh, row)
     \<and> verify_grant L (exec_commitment L suffix) (exec_proposal L suffix ch) (exec_decision L suffix ph)
       (exec_grant suffix ph dh) = Inr gh
     \<and> decode_chain L row = Inr (echain L suffix ch ph dh gh)
     \<and> ep_commitment L (exec_proposal L suffix ch) = Inr ph
     \<and> eg_commitment L (exec_grant suffix ph dh) = Inr gh
     \<and> rc_grant_hash row = as_str gh \<and> digest_ok ph \<and> digest_ok gh"

lemma exec_records_valid:
  assumes "short_suffix suffix"
  shows "tc_validate (exec_commitment L suffix) = Inr ()" "ep_validate (exec_proposal L suffix ch) = Inr ()"
    "ad_validate (exec_decision L suffix ph) = Inr ()" "eg_validate (exec_grant suffix ph dh) = Inr ()"
  using assms
  by (simp_all add: tc_validate_def exec_commitment_def ep_validate_def exec_proposal_def
      ad_validate_def exec_decision_def eg_validate_def exec_grant_def short_suffix_def visible_eval)

lemma exec_records_digests:
  assumes "conforming L"
  shows "tc_digests (exec_commitment L suffix)" "digest_ok ch \<Longrightarrow> ep_digests (exec_proposal L suffix ch)"
    "digest_ok ph \<Longrightarrow> ad_digests (exec_decision L suffix ph)"
    "digest_ok ph \<Longrightarrow> digest_ok dh \<Longrightarrow> eg_digests (exec_grant suffix ph dh)"
  using assms
  by (simp_all add: digests_defs exec_commitment_def exec_proposal_def exec_decision_def exec_grant_def
      conforming_def payload_digest_ok)

lemma exec_fixture_ready:
  assumes L: "conforming L" and suffix: "short_suffix suffix"
  obtains ch ph dh gh row where "exec_ready L suffix ch ph dh gh row"
    and "exec_fixture_of L suffix = Inr (efixture L suffix ch ph dh)"
proof -
  note valid = commitment_valid_iff [OF quote_conforms_quotes] and ok = exec_records_valid [OF suffix]
  from L have q: "quote_conforms L" by (simp add: conforming_def)
  note digest = commitment_okD [OF L, THEN conjunct2] and fields = exec_records_digests [OF L]
  obtain ch where ch: "tc_commitment L (exec_commitment L suffix) = Inr ch" using valid(1) [OF q] ok(1) by blast
  obtain ph where ph: "ep_commitment L (exec_proposal L suffix ch) = Inr ph" using valid(2) [OF q] ok(2) by blast
  obtain dh where dh: "ad_commitment L (exec_decision L suffix ph) = Inr dh" using valid(3) [OF q] ok(3) by blast
  obtain gh where gh: "eg_commitment L (exec_grant suffix ph dh) = Inr gh" using valid(4) [OF q] ok(4) by blast
  have "verify_authorization L (exec_commitment L suffix) (exec_proposal L suffix ch) (exec_decision L suffix ph)
      (exec_grant suffix ph dh) = Inr \<lparr>va_commitment_hash = ch, va_proposal_hash = ph,
        va_decision_hash = dh, va_grant_hash = gh\<rparr>"
    using ch ph dh gh
    by (simp add: verify_authorization_ok verify_decision_ok)
       (simp add: exec_commitment_def exec_proposal_def exec_decision_def exec_grant_def)
  then have grant: "verify_grant L (exec_commitment L suffix) (exec_proposal L suffix ch) (exec_decision L suffix ph)
      (exec_grant suffix ph dh) = Inr gh" by (simp add: verify_grant_def)
  then obtain row where row: "register_row L (exec_commitment L suffix) (exec_proposal L suffix ch)
      (exec_decision L suffix ph) (exec_grant suffix ph dh) = Inr (gh, row)" "rc_grant_hash row = as_str gh"
    using registered_row [OF L] by blast
  have "decode_chain L row = Inr (echain L suffix ch ph dh gh)"
    using digest(1) [OF ch] digest(2) [OF ph] digest(3) [OF dh]
    by (intro decode_registered [OF L row(1)] fields)
  then have "exec_ready L suffix ch ph dh gh row"
    using row ph gh grant suffix L digest(2) [OF ph] digest(4) [OF gh] by (simp add: exec_ready_def)
  then show thesis
    by (rule that) (simp add: exec_fixture_of_def Let_def ch ph dh)
qed

section \<open>The prepared effect\<close>

abbreviation eprepared :: "lib \<Rightarrow> string \<Rightarrow> digest32 \<Rightarrow> digest32 \<Rightarrow> digest32 \<Rightarrow> digest32 \<Rightarrow> prepared_effect" where
  "eprepared L suffix ch ph dh gh \<equiv> \<lparr>pe_commitment = exec_commitment L suffix,
     pe_proposal = exec_proposal L suffix ch, pe_decision = exec_decision L suffix ph,
     pe_grant = exec_grant suffix ph dh,
     pe_documents = documents_new (exec_arguments suffix) (exec_expected suffix) exec_pre_state exec_resources,
     pe_grant_hash = gh, pe_proposal_hash = ph\<rparr>"

lemma small_documents:
  assumes "short_suffix suffix"
  shows "length (exec_arguments suffix) \<le> 1000" "length (exec_expected suffix) \<le> 1000"
    "length exec_pre_state \<le> 1000" "length exec_resources \<le> 1000"
  using assms by (simp_all add: exec_arguments_def exec_expected_def exec_pre_state_def exec_resources_def short_suffix_def)

lemma prepared_ready:
  assumes "exec_ready L suffix ch ph dh gh row"
  shows "prepared_of L (efixture L suffix ch ph dh) = Inr (eprepared L suffix ch ph dh gh)"
proof -
  have "validate_limits (documents_new (exec_arguments suffix) (exec_expected suffix) exec_pre_state exec_resources) = Inr ()"
    using assms small_documents [of suffix]
    by (simp add: validate_limits_def documents_new_def exec_ready_def MAX_TRANSPORT_INPUT_BYTES_def)
  moreover have "ep_arguments_digest (exec_proposal L suffix ch) = from_payload L (exec_arguments suffix)"
    "ep_expected_effect_digest (exec_proposal L suffix ch) = from_payload L (exec_expected suffix)"
    "ep_pre_state_digest (exec_proposal L suffix ch) = from_payload L exec_pre_state"
    "ep_resource_claim_digest (exec_proposal L suffix ch) = from_payload L exec_resources"
    by (simp_all add: exec_proposal_def)
  ultimately show ?thesis
    using assms
    by (simp add: prepared_of_def prepare_def exec_ready_def verify_document_def) (simp add: documents_new_def)
qed

section \<open>The signed statement\<close>

definition estatement :: "string \<Rightarrow> digest32 \<Rightarrow> authority_statement" where
  "estatement suffix gh = \<lparr>au_version = 1, au_authority_profile = AUTHORITY_PROFILE,
     au_statement_id = ''assertion-grant-'' @ suffix, au_issuer = ''spiffe://example.test/authority'',
     au_key_id = ''root-2026-09'', au_role = ''execution_authorizer'', au_audience = ''executor:prod-a'',
     au_record_profile = CORE_RECORD_PROFILE, au_record_version = 1, au_record_kind = KExecutionGrant,
     au_record_digest = gh, au_issued_at_ms = 3700, au_not_before_ms = 3800, au_expires_at_ms = 8000,
     au_authority_epoch = 7, au_configuration_epoch = 3\<rparr>"

lemma statement_ready:
  "exec_ready L suffix ch ph dh gh row \<Longrightarrow> exec_statement L (efixture L suffix ch ph dh) = Inr (estatement suffix gh)"
  by (simp add: exec_statement_def exec_ready_def estatement_def)
     (simp add: exec_grant_def PROFILE_VERSION_def)

lemma visible_opaque:
  assumes "visible a" and "a \<noteq> []" and "length a \<le> n"
  shows "validate_opaque f a n = Inr ()"
  using visible_store_text [OF assms, of f] by (simp add: store_validate_text_def validate_opaque_def split: if_splits)

lemma exec_texts:
  "validate_opaque f ''executor:prod-a'' 512 = Inr ()" "validate_opaque f ''executor:other'' 512 = Inr ()"
  "au_validate_token f ''other_authorizer'' = Inr ()" "au_validate_token f CORE_RECORD_PROFILE = Inr ()"
  by (simp_all add: au_eval CORE_RECORD_PROFILE_def)

lemma estatement_like:
  assumes "short_suffix suffix" and "digest_ok gh"
  shows "like_fixture L (estatement suffix gh)" "like_fixture L (estatement suffix gh\<lparr>au_role := ''other_authorizer''\<rparr>)"
proof -
  have id: "validate_opaque ''statement_id'' (''assertion-grant-'' @ suffix) 256 = Inr ()"
    using assms(1) by (intro visible_opaque) (simp_all add: short_suffix_def)
  show "like_fixture L (estatement suffix gh)" "like_fixture L (estatement suffix gh\<lparr>au_role := ''other_authorizer''\<rparr>)"
    using assms id [simplified]
    by (simp_all add: like_fixture_def au_validate_def estatement_def test_fields exec_texts short_suffix_def
        AUTHORITY_PROFILE_VERSION_def au_value_def AUTHORITY_PROFILE_def CORE_RECORD_PROFILE_def)
qed

lemma exec_signer_ok: "authority_ready L K \<Longrightarrow> exec_signer K = Inr the_signer"
  using auth_signer_ok by (simp add: auth_signer_def exec_signer_def)

lemma with_signed_ready:
  assumes A: "authority_ready L K" and L: "conforming L" and suffix: "short_suffix suffix"
    and body: "\<And>ch ph dh gh row e. exec_ready L suffix ch ph dh gh row \<Longrightarrow>
      sign L K the_signer (estatement suffix gh) = Inr e \<Longrightarrow>
      body (efixture L suffix ch ph dh) (the_key K) e f = Inr ()"
  shows "with_signed L K suffix body f = Inr ()"
proof -
  obtain ch ph dh gh row where ready: "exec_ready L suffix ch ph dh gh row"
    and fixture: "exec_fixture_of L suffix = Inr (efixture L suffix ch ph dh)"
    by (rule exec_fixture_ready [OF L suffix])
  have gh: "digest_ok gh" using ready by (simp add: exec_ready_def)
  obtain e where e: "sign L K the_signer (estatement suffix gh) = Inr e"
    by (rule like_fixture_signed [OF A estatement_like(1) [OF suffix gh]])
  show ?thesis
    using body [OF ready e]
    by (simp add: with_signed_def need_def fixture exec_signer_ok [OF A] signed_authority_def
        statement_ready [OF ready] e)
qed

section \<open>The verdict of the authority crate\<close>

lemma exec_verdict:
  assumes A: "authority_ready L K" and ready: "exec_ready L suffix ch ph dh gh row"
    and e: "sign L K the_signer (estatement suffix gh) = Inr e"
    and "sn_public_key n = the_key K" "sn_issuer n = ''spiffe://example.test/authority''" "sn_key_id n = ''root-2026-09''"
  shows "verify_authority L K e n c = rbind (cx_validate c) (\<lambda>_. rbind (sn_validate K n) (\<lambda>_.
    rbind (verify_bindings (estatement suffix gh) n c) (\<lambda>_. Inr (verified_of L (estatement suffix gh) n c))))"
proof -
  have "digest_ok gh" using ready by (simp add: exec_ready_def)
  with assms show ?thesis by (intro signed_verdict [OF A e]) (simp_all add: estatement_def)
qed

definition econtext :: "digest32 \<Rightarrow> u64 \<Rightarrow> verification_context" where
  "econtext gh now = \<lparr>cx_expected_record_profile = CORE_RECORD_PROFILE, cx_expected_record_version = 1,
     cx_expected_record_kind = KExecutionGrant, cx_expected_record_digest = gh,
     cx_expected_role = ''execution_authorizer'', cx_expected_audience = ''executor:prod-a'',
     cx_now_ms = now, cx_maximum_snapshot_age_ms = 500\<rparr>"

lemma authority_context_ready:
  "authority_context exec_policy (eprepared L suffix ch ph dh gh) now = econtext gh now"
  by (simp add: authority_context_def exec_policy_def econtext_def) (simp add: exec_grant_def PROFILE_VERSION_def)

lemma econtext_valid: "now \<le> 5000 \<Longrightarrow> cx_validate (econtext gh now) = Inr ()"
  using order_trans [of now 5000 MAX_SAFE_INTEGER]
  by (simp add: cx_validate_ok econtext_def test_fields exec_texts) 

lemma exec_snapshot_fields [simp]:
  "sn_public_key (exec_snapshot k) = k" "sn_issuer (exec_snapshot k) = ''spiffe://example.test/authority''"
  "sn_key_id (exec_snapshot k) = ''root-2026-09''" "sn_configuration_epoch (exec_snapshot k) = 3"
  "sn_authority_epoch (exec_snapshot k) = 7"
  by (simp_all add: exec_snapshot_def)

lemma exec_snapshot_valid:
  assumes A: "authority_ready L K"
  shows "sn_validate K (exec_snapshot (the_key K)) = Inr ()"
    and "sn_validate K (exec_snapshot (the_key K)\<lparr>sn_authority_epoch := 8\<rparr>) = Inr ()"
    and "sn_validate K (exec_snapshot (the_key K)\<lparr>sn_observed_at_ms := 3000\<rparr>) = Inr ()"
    and "sn_validate K (exec_snapshot (the_key K)\<lparr>sn_revoked_at_ms := Some 3999\<rparr>) = Inr ()"
    and "sn_validate K (exec_snapshot (the_key K)\<lparr>sn_revoked_at_ms := Some 4001, sn_observed_at_ms := 4001\<rparr>) = Inr ()"
    and "sn_validate K (exec_snapshot (the_key K)\<lparr>sn_authorized_roles := [''execution_authorizer'', ''other_authorizer'']\<rparr>) = Inr ()"
  using key_ready [OF A]
  by (simp_all add: sn_validate_ok exec_snapshot_def test_fields exec_texts)

definition everified :: "lib \<Rightarrow> 'h cose_lib \<Rightarrow> string \<Rightarrow> digest32 \<Rightarrow> u64 \<Rightarrow> verified_authority" where
  "everified L K suffix gh now = verified_of L (estatement suffix gh) (exec_snapshot (the_key K)) (econtext gh now)"

lemma exec_accepted:
  assumes A: "authority_ready L K" and ready: "exec_ready L suffix ch ph dh gh row"
    and e: "sign L K the_signer (estatement suffix gh) = Inr e" and now: "now \<in> {4000, 4001, 4003, 4010}"
  shows "verify_authority L K e (exec_snapshot (the_key K)) (econtext gh now) = Inr (everified L K suffix gh now)"
proof -
  have "verify_bindings (estatement suffix gh) (exec_snapshot (the_key K)) (econtext gh now) = Inr ()"
    using now by (auto simp: verify_bindings_def estatement_def exec_snapshot_def econtext_def)
  moreover have "cx_validate (econtext gh now) = Inr ()" using now by (intro econtext_valid) auto
  ultimately show ?thesis
    by (simp add: exec_verdict [OF A ready e] exec_snapshot_valid [OF A] everified_def)
qed

section \<open>Currentness\<close>

definition ecurrent :: "lib \<Rightarrow> u64 \<Rightarrow> currentness_snapshot" where
  "ecurrent L version = \<lparr>cu_key = ''cluster/prod/deployment/api'', cu_version = version,
     cu_policy_epoch = 7, cu_configuration_epoch = 3, cu_pre_state_digest = from_payload L exec_pre_state,
     cu_resource_claim_digest = from_payload L exec_resources, cu_revoked = False,
     cu_observed_at_ms = 3950 + version\<rparr>"

lemma exec_currentness_ready: "exec_currentness (efixture L suffix ch ph dh) version = ecurrent L version"
  by (simp add: exec_currentness_def ecurrent_def) (simp add: exec_commitment_def exec_proposal_def)

lemma ecurrent_ok:
  assumes "conforming L"
  shows "snapshot_ok (ecurrent L 1)" "snapshot_ok (ecurrent L 2)"
proof -
  have d: "digest_ok (from_payload L x)" for x
    using assms by (simp add: conforming_def payload_digest_ok)
  have key: "store_validate_text f ''cluster/prod/deployment/api'' 1024 = Inr ()" for f
    by (simp add: store_validate_text_def text_eval)
  show "snapshot_ok (ecurrent L 1)" "snapshot_ok (ecurrent L 2)"
    by (simp_all add: snapshot_ok_def validate_snapshot_def ecurrent_def discard_def safe_i64_within d key
        MAX_SAFE_INTEGER_def)
qed

lemma ecurrent_later:
  "ecurrent L 1 \<noteq> ecurrent L 2" "put_checks (ecurrent L 2) (ecurrent L 1) = Inr ()"
  "cu_key (ecurrent L v) = ''cluster/prod/deployment/api''" "cu_version (ecurrent L v) = v"
  by (simp_all add: ecurrent_def put_checks_def word_le_nat_alt ensure_def)

definition erequest :: "string \<Rightarrow> u64 \<Rightarrow> claim_request" where
  "erequest a v = \<lparr>cq_attempt_id = a, cq_expected_audience = ''executor:prod-a'',
     cq_currentness_key = ''cluster/prod/deployment/api'', cq_expected_snapshot_version = v,
     cq_maximum_snapshot_age_ms = 500\<rparr>"

lemma erequest_fields [simp]:
  "cq_attempt_id (erequest a v) = a" "cq_currentness_key (erequest a v) = ''cluster/prod/deployment/api''"
  by (simp_all add: erequest_def)

definition attempt_name :: "string \<Rightarrow> bool" where
  "attempt_name a \<longleftrightarrow> visible a \<and> a \<noteq> [] \<and> length a \<le> 256"

lemma erequest_valid:
  assumes "attempt_name a"
  shows "validate_claim_request (erequest a 1) = Inr ()"
proof -
  have "store_validate_text f a 256 = Inr ()" for f
    using assms by (intro visible_store_text) (simp_all add: attempt_name_def)
  moreover have "store_validate_text f ''cluster/prod/deployment/api'' 1024 = Inr ()"
    "store_validate_text f ''executor:prod-a'' 512 = Inr ()" for f
    by (simp_all add: store_validate_text_def text_eval)
  ultimately show ?thesis
    by (simp add: validate_claim_request_ok erequest_def MAX_SAFE_INTEGER_def MAX_CURRENTNESS_AGE_MS_def)
qed

lemma eclaim_currentness:
  "claim_currentness (echain L suffix ch ph dh gh) (ecurrent L v) (erequest a w) now = checks
     [ensure (3950 + v \<le> now) SE_SnapshotFromFuture, ensure (now - (3950 + v) \<le> 500) SE_StaleCurrentness,
      ensure (v = w) SE_StaleSnapshot, ensure (3500 \<le> now) SE_GrantNotYetValid,
      ensure (now < 9000) SE_GrantExpired]"
  by (simp add: claim_currentness_def validate_currentness_age_def ecurrent_def erequest_def
      exec_grant_def exec_commitment_def exec_proposal_def not_less not_le ensure_def)

lemma edispatch_currentness:
  "dispatch_currentness (echain L suffix ch ph dh gh) (ecurrent L v) (claim_result gh (erequest a w) now) u = checks
     [ensure (3950 + v \<le> u) SE_SnapshotFromFuture, ensure (u - (3950 + v) \<le> 500) SE_StaleCurrentness,
      ensure (v = w) SE_StaleSnapshot]"
  by (simp add: dispatch_currentness_def validate_currentness_age_def ecurrent_def erequest_def
      claim_result_def exec_commitment_def exec_proposal_def not_less not_le ensure_def)

section \<open>The calls of the store\<close>

abbreviation eclaim :: "digest32 \<Rightarrow> string \<Rightarrow> u64 option \<Rightarrow> durable_claim" where
  "eclaim gh a u \<equiv> claim_result gh (erequest a 1) 4000\<lparr>dc_dispatch_started_at_ms := u\<rparr>"

lemma undispatched: "eclaim gh a None = claim_result gh (erequest a 1) 4000"
  by (simp add: claim_result_def)

abbreviation erows :: "string \<Rightarrow> raw_chain \<Rightarrow> (string \<times> raw_chain) list" where
  "erows suffix row \<equiv> [(''grant-'' @ suffix, row)]"

lemma eregister:
  assumes "exec_ready L suffix ch ph dh gh row" and "cs = [] \<or> cs = erows suffix row"
  shows "register_chain L no_faults (exec_commitment L suffix) (exec_proposal L suffix ch) (exec_decision L suffix ph)
      (exec_grant suffix ph dh) (small_db cs ss ds rs xs t) = (Inr gh, small_db (erows suffix row) ss ds rs xs t)"
  using assms register_small(1,2) [of L "exec_commitment L suffix" "exec_proposal L suffix ch"
      "exec_decision L suffix ph" "exec_grant suffix ph dh" gh row]
  by (auto simp: exec_ready_def) (simp_all add: exec_grant_def)

lemma eput:
  assumes "conforming L"
  shows "put_currentness no_faults (ecurrent L 1) (small_db cs [] ds rs xs t) = (Inr (), small_db cs [ecurrent L 1] ds rs xs t)"
    and "put_currentness no_faults (ecurrent L 1) (small_db cs [ecurrent L 1] ds rs xs t)
      = (Inr (), small_db cs [ecurrent L 1] ds rs xs t)"
    and "put_currentness no_faults (ecurrent L 2) (small_db cs [ecurrent L 1] ds rs xs t)
      = (Inr (), small_db cs [ecurrent L 2] ds rs xs t)"
  using ecurrent_ok [OF assms] by (simp_all add: put_small ecurrent_later)

lemma eclaims:
  assumes ready: "exec_ready L suffix ch ph dh gh row" and a: "attempt_name a"
  shows "sql_claim L no_faults (exec_grant suffix ph dh) (erequest a 1) 4000
      (small_db (erows suffix row) [ecurrent L 1] [] rs xs None)
    = (Inr (eclaim gh a None), small_db (erows suffix row) [ecurrent L 1] [eclaim gh a None] rs xs (Some 4000))"
    and "sql_claim L no_faults (exec_grant suffix ph dh) (erequest a 1) 4001
      (small_db (erows suffix row) [ecurrent L 1] [eclaim gh b None] rs xs (Some 4000))
    = (Inl SE_GrantAlreadyClaimed, small_db (erows suffix row) [ecurrent L 1] [eclaim gh b None] rs xs (Some 4000))"
proof -
  have L: "conforming L" using ready by (simp add: exec_ready_def)
  have "eg_grant_id (exec_grant suffix ph dh) = ''grant-'' @ suffix" by (simp add: exec_grant_def)
  then have raw: "map_option snd (find (\<lambda>(j, r). j = eg_grant_id (exec_grant suffix ph dh)) (erows suffix row)) = Some row"
    "decode_chain L row = Inr (echain L suffix ch ph dh gh)"
    using ready by (simp_all add: exec_ready_def)
  note claim = claim_small [OF erequest_valid [OF a] _ raw _ ecurrent_ok(1) [OF L]]
  show "sql_claim L no_faults (exec_grant suffix ph dh) (erequest a 1) 4000
      (small_db (erows suffix row) [ecurrent L 1] [] rs xs None)
    = (Inr (eclaim gh a None), small_db (erows suffix row) [ecurrent L 1] [eclaim gh a None] rs xs (Some 4000))"
    using claim [where now = 4000 and ds = "[]" and rs = rs and xs = xs and t = None]
    by (simp add: eclaim_currentness MAX_SAFE_INTEGER_def ecurrent_later undispatched)
  show "sql_claim L no_faults (exec_grant suffix ph dh) (erequest a 1) 4001
      (small_db (erows suffix row) [ecurrent L 1] [eclaim gh b None] rs xs (Some 4000))
    = (Inl SE_GrantAlreadyClaimed, small_db (erows suffix row) [ecurrent L 1] [eclaim gh b None] rs xs (Some 4000))"
    using claim [where now = 4001 and ds = "[eclaim gh b None]" and rs = rs and xs = xs and t = "Some 4000"]
    by (simp add: eclaim_currentness MAX_SAFE_INTEGER_def ecurrent_later)
qed

lemma eclaim_ok:
  assumes "exec_ready L suffix ch ph dh gh row" and "attempt_name a" and "u = None \<or> u = Some 4010"
  shows "claim_ok (eclaim gh a u)"
  using claimed_ok [OF erequest_valid [OF assms(2)], of 4000 gh] assms(1,3)
  by (auto simp: claim_ok_iff exec_ready_def MAX_SAFE_INTEGER_def)

lemma emark:
  assumes ready: "exec_ready L suffix ch ph dh gh row" and a: "attempt_name a"
  shows "mark_dispatch_started L no_faults gh a 4010
      (small_db (erows suffix row) [ecurrent L 1] [eclaim gh a None] rs xs (Some 4000))
    = (Inr \<lparr>dm_grant_hash = gh, dm_attempt_id = a, dm_dispatched_at_ms = 4010\<rparr>,
       small_db (erows suffix row) [ecurrent L 1] [eclaim gh a (Some 4010)] rs xs (Some 4010))"
    and "mark_dispatch_started L no_faults gh a 4003
      (small_db (erows suffix row) [ecurrent L 2] [eclaim gh a None] rs xs (Some 4000))
    = (Inl SE_StaleSnapshot, small_db (erows suffix row) [ecurrent L 2] [eclaim gh a None] rs xs (Some 4000))"
proof -
  have L: "conforming L" using ready by (simp add: exec_ready_def)
  have age: "0 < dc_maximum_snapshot_age_ms (eclaim gh a None)" by (simp add: claim_result_def erequest_def)
  have named: "store_validate_text ''attempt_id'' a 256 = Inr ()"
    using a by (intro visible_store_text) (simp_all add: attempt_name_def)
  have raw: "find (\<lambda>r. rc_grant_hash r = as_str (dc_grant_hash (eclaim gh a None))) (map snd (erows suffix row)) = Some row"
    "decode_chain L row = Inr (echain L suffix ch ph dh gh)"
    using ready by (simp_all add: exec_ready_def)
  have key: "cu_key (ecurrent L v) = dc_currentness_key (eclaim gh a None)" for v
    by (simp add: ecurrent_later claim_result_def)
  have grant: "eg_expires_at_ms (exec_grant suffix ph dh) = 9000" by (simp add: exec_grant_def)
  note mark = mark_small [OF eclaim_ok [OF ready a disjI1 [OF refl]] _ _ named _ _ age raw]
  show "mark_dispatch_started L no_faults gh a 4010
      (small_db (erows suffix row) [ecurrent L 1] [eclaim gh a None] rs xs (Some 4000))
    = (Inr \<lparr>dm_grant_hash = gh, dm_attempt_id = a, dm_dispatched_at_ms = 4010\<rparr>,
       small_db (erows suffix row) [ecurrent L 1] [eclaim gh a (Some 4010)] rs xs (Some 4010))"
    using mark [OF _ _ _ _ ecurrent_ok(1) [OF L] key, of 4010 rs xs "Some 4000"]
    by (simp add: MAX_SAFE_INTEGER_def grant undispatched edispatch_currentness)
  show "mark_dispatch_started L no_faults gh a 4003
      (small_db (erows suffix row) [ecurrent L 2] [eclaim gh a None] rs xs (Some 4000))
    = (Inl SE_StaleSnapshot, small_db (erows suffix row) [ecurrent L 2] [eclaim gh a None] rs xs (Some 4000))"
    using mark [OF _ _ _ _ ecurrent_ok(2) [OF L] key, of 4003 rs xs "Some 4000"]
    by (simp add: MAX_SAFE_INTEGER_def grant undispatched edispatch_currentness)
qed

section \<open>The methods\<close>

lemma method_store: "run_method L p (store_on db) = (case run_alone L no_faults p db of (r, db') \<Rightarrow> (r, store_on db'))"
  by (simp add: run_method_def)

lemma authorize_checks_ready:
  assumes "sn_configuration_epoch n = 3" and "cu_policy_epoch s = 7" and "cu_configuration_epoch s = 3"
    and "cu_observed_at_ms s = 3951" and "now = 4000 \<or> now = 4001"
  shows "authorize_checks exec_policy (eprepared L suffix ch ph dh gh) n s now = Inr ()"
  using assms
  by (auto simp: authorize_checks_def check_currentness_freshness_def exec_policy_def)
     (simp_all add: exec_grant_def exec_commitment_def)

definition eclaimed ::
    "lib \<Rightarrow> 'h cose_lib \<Rightarrow> string \<Rightarrow> digest32 \<Rightarrow> digest32 \<Rightarrow> digest32 \<Rightarrow> digest32 \<Rightarrow> string \<Rightarrow> string \<Rightarrow> claimed_effect" where
  "eclaimed L K suffix ch ph dh gh e a = \<lparr>ce_prepared = eprepared L suffix ch ph dh gh,
     ce_claim = eclaim gh a None, ce_authority = evidence_from (everified L K suffix gh 4000),
     ce_signed_authority = e\<rparr>"

lemma ecurrent_fields [simp]:
  "cu_policy_epoch (ecurrent L v) = 7" "cu_configuration_epoch (ecurrent L v) = 3"
  "cu_observed_at_ms (ecurrent L v) = 3950 + v"
  by (simp_all add: ecurrent_def)

lemma erequest_made:
  "\<lparr>cq_attempt_id = a, cq_expected_audience = po_audience exec_policy, cq_currentness_key = cu_key (ecurrent L v),
    cq_expected_snapshot_version = cu_version (ecurrent L v),
    cq_maximum_snapshot_age_ms = po_maximum_currentness_age_ms exec_policy\<rparr> = erequest a v"
  by (simp add: erequest_def exec_policy_def ecurrent_later)

lemma eauthorize:
  assumes A: "authority_ready L K" and ready: "exec_ready L suffix ch ph dh gh row"
    and e: "sign L K the_signer (estatement suffix gh) = Inr e" and a: "attempt_name a"
  shows "run_method L (authorize_and_claim L K exec_policy (eprepared L suffix ch ph dh gh) e (exec_snapshot (the_key K))
      (ecurrent L 1) a 4000) (store_on (small_db [] [] [] [] [] None))
    = (Inr (eclaimed L K suffix ch ph dh gh e a),
       store_on (small_db (erows suffix row) [ecurrent L 1] [eclaim gh a None] [] [] (Some 4000)))"
    and "run_method L (authorize_and_claim L K exec_policy (eprepared L suffix ch ph dh gh) e (exec_snapshot (the_key K))
      (ecurrent L 1) a 4001)
        (store_on (small_db (erows suffix row) [ecurrent L 1] [eclaim gh b None] [] [] (Some 4000)))
    = (Inl (EX_Store SE_GrantAlreadyClaimed),
       store_on (small_db (erows suffix row) [ecurrent L 1] [eclaim gh b None] [] [] (Some 4000)))"
proof -
  have L: "conforming L" using ready by (simp add: exec_ready_def)
  note steps = authorize_and_claim_def run_alone_andthen authorize_checks_ready authority_context_ready
    exec_accepted [OF A ready e] eregister [OF ready] eput [OF L] erequest_made eclaims [OF ready a] method_store
  show "run_method L (authorize_and_claim L K exec_policy (eprepared L suffix ch ph dh gh) e (exec_snapshot (the_key K))
      (ecurrent L 1) a 4000) (store_on (small_db [] [] [] [] [] None))
    = (Inr (eclaimed L K suffix ch ph dh gh e a),
       store_on (small_db (erows suffix row) [ecurrent L 1] [eclaim gh a None] [] [] (Some 4000)))"
    by (simp add: steps eclaims(1) [OF ready a, simplified] eclaimed_def)
  show "run_method L (authorize_and_claim L K exec_policy (eprepared L suffix ch ph dh gh) e (exec_snapshot (the_key K))
      (ecurrent L 1) a 4001)
        (store_on (small_db (erows suffix row) [ecurrent L 1] [eclaim gh b None] [] [] (Some 4000)))
    = (Inl (EX_Store SE_GrantAlreadyClaimed),
       store_on (small_db (erows suffix row) [ecurrent L 1] [eclaim gh b None] [] [] (Some 4000)))"
    by (simp add: steps eclaims(2) [OF ready a, simplified])
qed

lemma ebegin:
  assumes A: "authority_ready L K" and ready: "exec_ready L suffix ch ph dh gh row"
    and e: "sign L K the_signer (estatement suffix gh) = Inr e" and a: "attempt_name a"
  shows "run_method L (begin_dispatch L K exec_policy (eclaimed L K suffix ch ph dh gh e a) (exec_snapshot (the_key K)) 4010)
        (store_on (small_db (erows suffix row) [ecurrent L 1] [eclaim gh a None] [] [] (Some 4000)))
    = (Inr \<lparr>cp_prepared = eprepared L suffix ch ph dh gh, cp_claim = eclaim gh a None, cp_dispatched_at_ms = 4010\<rparr>,
       store_on (small_db (erows suffix row) [ecurrent L 1] [eclaim gh a (Some 4010)] [] [] (Some 4010)))"
    and "run_method L (begin_dispatch L K exec_policy (eclaimed L K suffix ch ph dh gh e a) (exec_snapshot (the_key K)) 4003)
        (store_on (small_db (erows suffix row) [ecurrent L 2] [eclaim gh a None] [] [] (Some 4000)))
    = (Inl (EX_Store SE_StaleSnapshot),
       store_on (small_db (erows suffix row) [ecurrent L 2] [eclaim gh a None] [] [] (Some 4000)))"
proof -
  have epoch: "tc_configuration_epoch (exec_commitment L suffix) = 3"
    by (simp add: exec_commitment_def)
  have same: "same_authority_identity (evidence_from (everified L K suffix gh 4000)) (evidence_from (everified L K suffix gh t))" for t
    by (simp add: same_authority_identity_def evidence_from_def everified_def verified_of_def Let_def)
  note steps = begin_dispatch_def run_alone_andthen authority_context_ready
    exec_accepted [OF A ready e] epoch same method_store eclaimed_def
  show "run_method L (begin_dispatch L K exec_policy (eclaimed L K suffix ch ph dh gh e a) (exec_snapshot (the_key K)) 4010)
        (store_on (small_db (erows suffix row) [ecurrent L 1] [eclaim gh a None] [] [] (Some 4000)))
    = (Inr \<lparr>cp_prepared = eprepared L suffix ch ph dh gh, cp_claim = eclaim gh a None, cp_dispatched_at_ms = 4010\<rparr>,
       store_on (small_db (erows suffix row) [ecurrent L 1] [eclaim gh a (Some 4010)] [] [] (Some 4010)))"
    by (simp add: steps emark(1) [OF ready a, simplified])
  show "run_method L (begin_dispatch L K exec_policy (eclaimed L K suffix ch ph dh gh e a) (exec_snapshot (the_key K)) 4003)
        (store_on (small_db (erows suffix row) [ecurrent L 2] [eclaim gh a None] [] [] (Some 4000)))
    = (Inl (EX_Store SE_StaleSnapshot),
       store_on (small_db (erows suffix row) [ecurrent L 2] [eclaim gh a None] [] [] (Some 4000)))"
    by (simp add: steps emark(2) [OF ready a, simplified])
qed

section \<open>Receipts\<close>

lemma ereceipt_valid:
  assumes "conforming L" and "digest_ok ph" "digest_ok gh" and "attempt_name i" "attempt_name a"
    and "c \<in> {4010, 4020, 4050}" and "u = None \<and> outcome = NotDispatched \<or> u = Some 4010 \<and> outcome \<noteq> NotDispatched"
  shows "\<exists>h. er_commitment L (test_receipt_of L i ph gh a u c outcome label) = Inr h \<and> digest_ok h"
    and "er_digests (test_receipt_of L i ph gh a u c outcome label)"
proof -
  let ?r = "test_receipt_of L i ph gh a u c outcome label"
  have "er_validate ?r = Inr ()"
    using assms(4-7) by (cases outcome) (auto simp: er_validate_def test_receipt_of_def visible_eval attempt_name_def)
  moreover have "quote_conforms L" using assms(1) by (simp add: conforming_def)
  ultimately obtain h where h: "er_commitment L ?r = Inr h" using commitment_valid_iff(5) quote_conforms_quotes by blast
  with commitment_okD(5) [OF assms(1) h] show "\<exists>h. er_commitment L ?r = Inr h \<and> digest_ok h" by blast
  show "er_digests ?r"
    using assms(1-3) by (simp add: er_digests_def test_receipt_of_def conforming_def payload_digest_ok)
qed

lemma ecompletes:
  assumes ready: "exec_ready L suffix ch ph dh gh row" and a: "attempt_name i" "attempt_name a"
    and c: "c \<in> {4010, 4020, 4050}" and u: "u = None \<and> outcome = NotDispatched \<or> u = Some 4010 \<and> outcome \<noteq> NotDispatched"
  obtains h where "er_commitment L (test_receipt_of L i ph gh a u c outcome label) = Inr h" "digest_ok h"
    "er_digests (test_receipt_of L i ph gh a u c outcome label)"
    "claimed_chain L (erows suffix row) (eclaim gh a u) (echain L suffix ch ph dh gh)"
    "completes L (echain L suffix ch ph dh gh) (eclaim gh a u) (test_receipt_of L i ph gh a u c outcome label) h"
    "validate_dispatch_evidence (test_receipt_of L i ph gh a u c outcome label) u = Inr ()"
proof -
  let ?r = "test_receipt_of L i ph gh a u c outcome label" and ?c = "echain L suffix ch ph dh gh"
  have ok: "conforming L" "digest_ok ph" "digest_ok gh" using ready by (simp_all add: exec_ready_def)
  note valid = ereceipt_valid [OF ok a c u]
  obtain h where h: "er_commitment L ?r = Inr h" "digest_ok h" using valid(1) by blast
  have d: "claim_ok (eclaim gh a u)" using u by (intro eclaim_ok [OF ready a(2)]) auto
  then have "claimed_chain L (erows suffix row) (eclaim gh a u) ?c"
    using ready by (simp add: claimed_chain_def exec_ready_def)
  moreover have window: "eg_not_before_ms (sc_grant ?c) \<le> er_claimed_at_ms ?r" "er_claimed_at_ms ?r < eg_expires_at_ms (sc_grant ?c)"
    by (simp_all add: exec_grant_def)
  have "decode_chain L row = Inr ?c" "er_grant_hash ?r = sc_grant_hash ?c"
    "ep_commitment L (sc_proposal ?c) = Inr (er_proposal_hash ?r)"
    using ready by (simp_all add: exec_ready_def)
  from chain_accepts_receipt [OF this window h(1)] have "completes L ?c (eclaim gh a u) ?r h"
    using h valid(2) by (simp add: completes_def)
  moreover have "validate_dispatch_evidence ?r u = Inr ()"
    using u by (cases outcome) (auto simp: validate_dispatch_evidence_def)
  ultimately show thesis using h valid(2) by (intro that)
qed

text \<open>The receipt that the methods build is one of these.\<close>

lemma built_receipt:
  "\<lparr>er_version = 1, er_receipt_id = i, er_proposal_hash = ph, er_grant_hash = gh, er_attempt_id = a,
    er_claimed_at_ms = 4000, er_dispatched_at_ms = u, er_completed_at_ms = c, er_outcome = outcome,
    er_observation_digest = from_payload L label\<rparr> = test_receipt_of L i ph gh a u c outcome label"
  by (simp add: test_receipt_of_def)

text \<open>The lifecycle before and after the receipt.\<close>

lemma elifecycle:
  assumes ready: "exec_ready L suffix ch ph dh gh row" and a: "attempt_name a" and u: "u = None \<or> u = Some 4010"
  shows "lifecycle_of L no_faults gh (small_db (erows suffix row) ss [eclaim gh a u] [] xs t)
    = Inr \<lparr>lc_grant_hash = gh, lc_claim = Some (eclaim gh a u), lc_receipt = None, lc_reconciliations = []\<rparr>"
proof -
  have "find (\<lambda>r. rc_grant_hash r = as_str gh) (map snd (erows suffix row)) = Some row"
    "decode_chain L row = Inr (echain L suffix ch ph dh gh)"
    using ready by (simp_all add: exec_ready_def)
  from lifecycle_small [OF this, of "[eclaim gh a u]"] eclaim_ok [OF ready a u] show ?thesis by simp
qed

section \<open>Opening\<close>

lemma exec_policy_valid:
  "policy_validate exec_policy = Inr ()" "policy_validate (exec_policy\<lparr>po_audience := ''executor:other''\<rparr>) = Inr ()"
  by (simp_all add: policy_validate_def exec_policy_def ex_validate_text_def ex_validate_token_def text_eval
      MAX_AUTHORITY_SNAPSHOT_AGE_MS_def MAX_CURRENTNESS_AGE_MS_def)

lemma open_executor_new:
  assumes "quiet_env env" and "policy_validate policy = Inr ()"
  shows "open_executor env policy k new_file = k policy (store_on (small_db [] [] [] [] [] None))"
  by (simp add: open_executor_def call_def executor_open_def assms(2) small_open_new [OF assms(1)])

lemma open_executor_again:
  assumes "quiet_env env"
  shows "open_executor env exec_policy k (store_on db) = k exec_policy (store_on db)"
  by (simp add: open_executor_def call_def executor_open_def exec_policy_valid small_open_again [OF assms])

end
