(* ===== verification/Executor_Tests_Pass.thy ===== *)
theory Executor_Tests_Pass
  imports Executor_Running
begin

text \<open>
  The unit tests of the executor crate pass on the model, for conforming libraries and every
  engine that opens files without interference. The methods run on the small databases of
  \<open>Sqlite_Running\<close>, with the lemmas of \<open>Executor_Running\<close>.
\<close>

section \<open>Tests of documents\<close>

lemmas estep = need_def expect_def call_def observe_def and_then_def passed_def Let_def failed_with_def

lemma method_lifecycle:
  "run_method L (ex_lifecycle L h) (store_on db) = (map_err EX_Store (lifecycle_of L no_faults h db), store_on db)"
  by (simp add: method_store ex_lifecycle_def)

lemma eclaimed_fields [simp]:
  "dc_grant_hash (ce_claim (eclaimed L K suffix ch ph dh gh e a)) = gh"
  "dc_attempt_id (ce_claim (eclaimed L K suffix ch ph dh gh e a)) = a"
  "pe_proposal_hash (ce_prepared (eclaimed L K suffix ch ph dh gh e a)) = ph"
  by (simp_all add: eclaimed_def claim_result_def)

lemma with_fixture_ready:
  assumes "conforming L" and "short_suffix suffix"
    and "\<And>ch ph dh gh row. exec_ready L suffix ch ph dh gh row \<Longrightarrow> k (efixture L suffix ch ph dh) f = Inr ()"
  shows "need (map_err EX_Protocol (exec_fixture_of L suffix)) k f = Inr ()"
proof -
  obtain ch ph dh gh row where "exec_ready L suffix ch ph dh gh row"
    "exec_fixture_of L suffix = Inr (efixture L suffix ch ph dh)"
    by (rule exec_fixture_ready [OF assms(1,2)])
  with assms(3) show ?thesis by (simp add: need_def)
qed

text \<open>
  The digests of the four documents change when a byte is appended: the digests of eight particular
  texts, which the test computes.
\<close>

abbreviation edocuments :: "string \<Rightarrow> string list" where
  "edocuments suffix \<equiv> [exec_arguments suffix, exec_expected suffix, exec_pre_state, exec_resources]"

definition documents_differ :: "lib \<Rightarrow> nat \<Rightarrow> bool" where
  "documents_differ L position \<longleftrightarrow> (let s = edocuments (''digest-'' @ decimal position) ! position in
     from_payload L (s @ ''!'') \<noteq> from_payload L s)"

lemma document_case_passes:
  assumes L: "conforming L" and differ: "documents_differ L position" and "position \<in> {0, 1, 2, 3}"
  shows "document_case L position = Inr ()"
  unfolding document_case_def
proof (rule with_fixture_ready [OF L], goal_cases)
  case 1
  have "length (decimal position) \<le> 1" using assms(3) by (intro decimal_length) auto
  then show ?case by (simp add: short_suffix_def visible_decimal)
next
  case (2 ch ph dh gh row)
  let ?suffix = "''digest-'' @ decimal position"
  let ?p = "exec_proposal L ?suffix ch" and ?docs = "[exec_arguments ?suffix, exec_expected ?suffix, exec_pre_state, exec_resources]"
  have short: "short_suffix ?suffix" using 2 by (simp only: exec_ready_def)
  let ?d = "\<lambda>b. documents_new (b ! 0) (b ! 1) (b ! 2) (b ! 3)"
  have limits: "validate_limits (?d (?docs[position := ?docs ! position @ ''!''])) = Inr ()"
    using assms(3) small_documents [OF short]
    by (auto simp: validate_limits_def documents_new_def MAX_TRANSPORT_INPUT_BYTES_def)
  have digests: "ep_arguments_digest ?p = from_payload L (exec_arguments ?suffix)"
    "ep_expected_effect_digest ?p = from_payload L (exec_expected ?suffix)"
    "ep_pre_state_digest ?p = from_payload L exec_pre_state"
    "ep_resource_claim_digest ?p = from_payload L exec_resources"
    by (simp_all only: exec_proposal_def effect_proposal.simps)
  have "\<exists>name. prepare L (exec_commitment L ?suffix) ?p (exec_decision L ?suffix ph) (exec_grant ?suffix ph dh)
      (?d (?docs[position := ?docs ! position @ ''!''])) = Inl (DocumentDigestMismatch name)"
    using assms(3) 2 limits differ
    by (auto simp: prepare_def exec_ready_def verify_document_def digests documents_new_def documents_differ_def Let_def
        simp del: append_Cons)
  then show ?case by (auto simp: estep)
qed

lemma every_exact_document_digest_is_enforced_passes:
  assumes "conforming L" and "\<forall>position<4. documents_differ L position"
  shows "every_exact_document_digest_is_enforced L = Inr ()"
  using document_case_passes [OF assms(1)] assms(2)
  by (simp add: every_exact_document_digest_is_enforced_def)

text \<open>The fixture with other arguments, its hashes computed again.\<close>

lemma rechained_prepared:
  assumes ready: "exec_ready L suffix ch ph' dh' gh' row" and arguments: "length arguments \<le> 1000"
  defines "p \<equiv> exec_proposal L suffix ch\<lparr>ep_arguments_digest := from_payload L arguments\<rparr>"
  obtains ph dh gh where "ep_commitment L p = Inr ph" "ad_commitment L (exec_decision L suffix ph) = Inr dh"
    "prepare L (exec_commitment L suffix) p (exec_decision L suffix ph) (exec_grant suffix ph dh)
       (documents_new arguments (exec_expected suffix) exec_pre_state exec_resources)
     = Inr \<lparr>pe_commitment = exec_commitment L suffix, pe_proposal = p, pe_decision = exec_decision L suffix ph,
        pe_grant = exec_grant suffix ph dh,
        pe_documents = documents_new arguments (exec_expected suffix) exec_pre_state exec_resources,
        pe_grant_hash = gh, pe_proposal_hash = ph\<rparr>"
proof -
  have short: "short_suffix suffix" and q: "quote_conforms L" using ready by (simp_all add: exec_ready_def conforming_def)
  note ok = exec_records_valid [OF short] and valid = commitment_valid_iff [OF quote_conforms_quotes [OF q]]
  have "ep_validate p = Inr ()" using ok(2) [of L ch] by (simp add: p_def ep_validate_def)
  then obtain ph where ph: "ep_commitment L p = Inr ph" using valid(2) by blast
  obtain dh where dh: "ad_commitment L (exec_decision L suffix ph) = Inr dh" using valid(3) ok(3) by blast
  obtain gh where gh: "eg_commitment L (exec_grant suffix ph dh) = Inr gh" using valid(4) ok(4) by blast
  have "ep_commitment_hash (exec_proposal L suffix ch) = ch" by (simp add: exec_proposal_def)
  then have hash: "tc_commitment L (exec_commitment L suffix) = Inr ch"
    using ready by (auto simp: exec_ready_def verify_grant_ok verify_authorization_ok verify_decision_ok)
  have "verify_authorization L (exec_commitment L suffix) p (exec_decision L suffix ph) (exec_grant suffix ph dh)
    = Inr \<lparr>va_commitment_hash = ch, va_proposal_hash = ph, va_decision_hash = dh, va_grant_hash = gh\<rparr>"
    using hash ph dh gh
    by (simp add: verify_authorization_ok verify_decision_ok)
       (simp add: p_def exec_commitment_def exec_proposal_def exec_decision_def exec_grant_def)
  then have "verify_grant L (exec_commitment L suffix) p (exec_decision L suffix ph) (exec_grant suffix ph dh) = Inr gh"
    by (simp add: verify_grant_def)
  moreover have "validate_limits (documents_new arguments (exec_expected suffix) exec_pre_state exec_resources) = Inr ()"
    using small_documents [OF short] arguments
    by (simp add: validate_limits_def documents_new_def MAX_TRANSPORT_INPUT_BYTES_def)
  ultimately show thesis
    using ph by (intro that [OF ph dh, of gh])
      (simp add: prepare_def verify_document_def documents_new_def, simp add: p_def exec_proposal_def)
qed

lemma prepared_effect_treats_profile_documents_as_opaque_bytes_passes:
  assumes L: "conforming L"
  shows "prepared_effect_treats_profile_documents_as_opaque_bytes L = Inr ()"
  unfolding prepared_effect_treats_profile_documents_as_opaque_bytes_def
proof (rule with_fixture_ready [OF L], goal_cases)
  case 1
  show ?case by (simp add: short_suffix_def)
next
  case (2 ch ph' dh' gh' row)
  have rechained: "exec_decision L suffix ph'\<lparr>ad_proposal_hash := x\<rparr> = exec_decision L suffix x"
    "exec_grant suffix ph' dh'\<lparr>eg_proposal_hash := x, eg_decision_hash := y\<rparr> = exec_grant suffix x y" for suffix x y
    by (simp_all add: exec_decision_def exec_grant_def)
  show ?case
    by (rule rechained_prepared [OF 2, of "[CHR 0xFF, CHR 0x00, CHR ''{'']"])
       (simp, simp add: estep rechained prepared_of_def, simp add: documents_new_def)
qed

section \<open>Tests of the authorization\<close>

lemma wrong_executor_audience_is_rejected_before_claim_passes:
  assumes A: "authority_ready L K" and L: "conforming L" and env: "quiet_env env"
  shows "wrong_executor_audience_is_rejected_before_claim L K env = Inr ()"
  unfolding wrong_executor_audience_is_rejected_before_claim_def
proof (rule with_signed_ready [OF A L], goal_cases)
  case 1
  show ?case by (simp add: short_suffix_def)
next
  case (2 ch ph dh gh row e)
  have "authorize_checks (exec_policy\<lparr>po_audience := ''executor:other''\<rparr>) (eprepared L ''audience'' ch ph dh gh)
      (exec_snapshot (the_key K)) (ecurrent L 1) 4000 = Inl GrantAudienceMismatch"
    by (simp add: authorize_checks_def check_currentness_freshness_def exec_policy_def exec_grant_def)
  then show ?case
    by (simp add: Let_def open_executor_new [OF env exec_policy_valid(2)])
       (simp add: estep prepared_ready [OF 2(1)] exec_currentness_ready method_store authorize_and_claim_def
         run_alone_andthen EXEC_NOW_def)
qed

text \<open>A claim that the authority crate refuses changes nothing.\<close>

lemma authority_refused:
  assumes A: "authority_ready L K" and s: "digest_ok (au_record_digest s)" "au_issuer s = ''spiffe://example.test/authority''"
      "au_key_id s = ''root-2026-09''" and e: "sign L K the_signer s = Inr e"
    and n: "sn_public_key n = the_key K" "sn_issuer n = ''spiffe://example.test/authority''" "sn_key_id n = ''root-2026-09''"
      "sn_configuration_epoch n = 3" "sn_validate K n = Inr ()"
    and refused: "verify_bindings s n (econtext gh 4000) = Inl x"
  shows "run_method L (authorize_and_claim L K exec_policy (eprepared L suffix ch ph dh gh) e n (ecurrent L 1) a 4000) f
    = (Inl (EX_Authority x), f)"
proof -
  have "verify_authority L K e n (econtext gh 4000) = Inl x"
    using signed_verdict [OF A e s(1)] n s refused by (simp add: econtext_valid)
  with n(4) show ?thesis
    by (simp add: run_method_def authorize_and_claim_def run_alone_andthen authorize_checks_ready authority_context_ready)
qed

lemma authority_and_currentness_epoch_mismatches_fail_before_consumption_passes:
  assumes A: "authority_ready L K" and L: "conforming L" and env: "quiet_env env"
  shows "authority_and_currentness_epoch_mismatches_fail_before_consumption L K env = Inr ()"
  unfolding authority_and_currentness_epoch_mismatches_fail_before_consumption_def
proof (rule with_signed_ready [OF A L], goal_cases)
  case 1
  show ?case by (simp add: short_suffix_def)
next
  case (2 ch ph dh gh row e)
  let ?n = "exec_snapshot (the_key K)\<lparr>sn_authority_epoch := 8\<rparr>"
  have gh: "digest_ok gh" using 2 by (simp add: exec_ready_def)
  have "verify_bindings (estatement ''epochs'' gh) ?n (econtext gh 4000) = Inl AuthorityEpochMismatch"
    by (simp add: verify_bindings_def estatement_def exec_snapshot_def econtext_def)
  then have refused: "run_method L (authorize_and_claim L K exec_policy (eprepared L ''epochs'' ch ph dh gh) e ?n
      (ecurrent L 1) a 4000) f = (Inl (EX_Authority AuthorityEpochMismatch), f)" for a f
    by (intro authority_refused [OF A _ _ _ 2(2)])
       (simp_all add: exec_snapshot_valid [OF A], simp_all add: estatement_def gh)
  have "authorize_checks exec_policy (eprepared L ''epochs'' ch ph dh gh) (exec_snapshot (the_key K))
      (ecurrent L 1\<lparr>cu_policy_epoch := 8\<rparr>) 4000 = Inl CurrentnessPolicyEpochMismatch"
    by (simp add: authorize_checks_def check_currentness_freshness_def exec_policy_def exec_grant_def exec_commitment_def)
  then have "run_method L (authorize_and_claim L K exec_policy (eprepared L ''epochs'' ch ph dh gh) e (exec_snapshot (the_key K))
      (ecurrent L 1\<lparr>cu_policy_epoch := 8\<rparr>) a 4000) f = (Inl CurrentnessPolicyEpochMismatch, f)" for a f
    by (simp add: authorize_and_claim_def run_alone_andthen run_method_def)
  with refused show ?case
    by (simp add: Let_def open_executor_new [OF env exec_policy_valid(1)])
       (simp add: estep prepared_ready [OF 2(1)] exec_currentness_ready EXEC_NOW_def)
qed

text \<open>The digest of the text \<open>another grant\<close> is not the one of the grant in the test.\<close>

definition another_grant :: "lib \<Rightarrow> nat \<Rightarrow> bool" where
  "another_grant L index \<longleftrightarrow> (case exec_fixture_of L (''authority-'' @ decimal index) of Inl _ \<Rightarrow> True
     | Inr f \<Rightarrow> eg_commitment L (xf_grant f) \<noteq> Inr (from_payload L ''another grant''))"

lemma mutation_case_passes:
  assumes A: "authority_ready L K" and L: "conforming L" and env: "quiet_env env" and other: "another_grant L index"
    and i: "index < 10"
  shows "mutation_case L K env (index, mutation) = Inr ()"
proof -
  obtain suffix where suffix: "''authority-'' @ decimal index = suffix" by blast
  have "length (decimal index) \<le> 1" using i by (intro decimal_length) auto
  then have short: "short_suffix suffix" by (simp add: suffix [symmetric] short_suffix_def visible_decimal)
  obtain ch ph dh gh row where ready: "exec_ready L suffix ch ph dh gh row"
    and fixture: "exec_fixture_of L suffix = Inr (efixture L suffix ch ph dh)"
    by (rule exec_fixture_ready [OF L short])
  have "eg_commitment L (exec_grant suffix ph dh) \<noteq> Inr (from_payload L ''another grant'')"
    using other unfolding another_grant_def suffix by (simp add: fixture)
  then have gh: "digest_ok gh" "digest_ok (from_payload L ''another grant'')" "from_payload L ''another grant'' \<noteq> gh"
    using ready L by (auto simp: exec_ready_def conforming_def payload_digest_ok)
  let ?s = "case mutation of MutateRole \<Rightarrow> estatement suffix gh\<lparr>au_role := ''other_authorizer''\<rparr>
    | MutateDigest \<Rightarrow> estatement suffix (from_payload L ''another grant'') | _ \<Rightarrow> estatement suffix gh"
    and ?n = "case mutation of MutateRole \<Rightarrow> exec_snapshot (the_key K)
        \<lparr>sn_authorized_roles := [''execution_authorizer'', ''other_authorizer'']\<rparr>
    | MutateDigest \<Rightarrow> exec_snapshot (the_key K)
    | MutateStale \<Rightarrow> exec_snapshot (the_key K)\<lparr>sn_observed_at_ms := 3000\<rparr>
    | MutateRevoked \<Rightarrow> exec_snapshot (the_key K)\<lparr>sn_revoked_at_ms := Some 3999\<rparr>"
    and ?x = "case mutation of MutateRole \<Rightarrow> RoleMismatch | MutateDigest \<Rightarrow> RecordDigestMismatch
    | MutateStale \<Rightarrow> StaleSnapshot | MutateRevoked \<Rightarrow> KeyRevoked"
  have "like_fixture L ?s"
    using estatement_like [OF short] gh by (cases mutation) simp_all
  then obtain e where e: "sign L K the_signer ?s = Inr e" by (rule like_fixture_signed [OF A])
  have "verify_bindings ?s ?n (econtext gh 4000) = Inl ?x"
    using gh by (cases mutation) (simp_all add: verify_bindings_def estatement_def exec_snapshot_def econtext_def)
  moreover have "sn_validate K ?n = Inr ()" by (cases mutation) (simp_all add: exec_snapshot_valid [OF A])
  ultimately have refused: "run_method L (authorize_and_claim L K exec_policy (eprepared L suffix ch ph dh gh) e ?n
      (ecurrent L 1) a 4000) f = (Inl (EX_Authority ?x), f)" for a f
    using gh by (intro authority_refused [OF A _ _ _ e]) (cases mutation; simp add: estatement_def)+
  have other_digest: "estatement suffix gh\<lparr>au_record_digest := d\<rparr> = estatement suffix d" for d
    by (simp add: estatement_def)
  have roles: "sn_authorized_roles (exec_snapshot k) = [''execution_authorizer'']" for k by (simp add: exec_snapshot_def)
  show ?thesis
    unfolding mutation_case_def prod.case suffix
    using e refused
    by (cases mutation)
       (simp_all add: estep fixture exec_signer_ok [OF A] statement_ready [OF ready]
         other_digest roles prepared_ready [OF ready] exec_currentness_ready EXEC_NOW_def
         open_executor_new [OF env exec_policy_valid(1)])
qed

lemma wrong_role_digest_stale_and_revoked_authority_fail_closed_passes:
  assumes "authority_ready L K" and "conforming L" and "quiet_env env" and "\<forall>index<4. another_grant L index"
  shows "wrong_role_digest_stale_and_revoked_authority_fail_closed L K env = Inr ()"
  using mutation_case_passes [OF assms(1-3)] assms(4)
  by (simp add: wrong_role_digest_stale_and_revoked_authority_fail_closed_def)

section \<open>Tests of the dispatch\<close>

lemma duplicate_claim_and_state_drift_cannot_reach_dispatch_passes:
  assumes A: "authority_ready L K" and L: "conforming L" and env: "quiet_env env"
  shows "duplicate_claim_and_state_drift_cannot_reach_dispatch L K env = Inr ()"
  unfolding duplicate_claim_and_state_drift_cannot_reach_dispatch_def
proof (rule with_signed_ready [OF A L], goal_cases)
  case 1
  show ?case by (simp add: short_suffix_def)
next
  case (2 ch ph dh gh row e)
  have names: "attempt_name ''attempt-winner''" "attempt_name ''attempt-loser''"
    by (simp_all add: attempt_name_def visible_eval)
  have "check_currentness_freshness exec_policy (ecurrent L 2) 4002 = Inr ()"
    by (simp add: check_currentness_freshness_def exec_policy_def)
  then have observed: "run_method L (observe_currentness exec_policy (ecurrent L 2) 4002)
      (store_on (small_db cs [ecurrent L 1] ds [] [] t)) = (Inr (), store_on (small_db cs [ecurrent L 2] ds [] [] t))" for cs ds t
    by (simp add: observe_currentness_def run_alone_andthen method_store eput [OF L])
  show ?case
    by (simp add: Let_def open_executor_new [OF env exec_policy_valid(1)])
       (simp add: estep prepared_ready [OF 2(1)] exec_currentness_ready EXEC_NOW_def observed
         eauthorize(1) [OF A 2 names(1), simplified] eauthorize(2) [OF A 2 names(2), simplified]
         ebegin(2) [OF A 2 names(1), simplified])
qed

lemma authority_is_reverified_at_the_dispatch_boundary_passes:
  assumes A: "authority_ready L K" and L: "conforming L" and env: "quiet_env env"
  shows "authority_is_reverified_at_the_dispatch_boundary L K env = Inr ()"
  unfolding authority_is_reverified_at_the_dispatch_boundary_def
proof (rule with_signed_ready [OF A L], goal_cases)
  case 1
  show ?case by (simp add: short_suffix_def)
next
  case (2 ch ph dh gh row e)
  let ?a = "''attempt-revoked-after-claim''"
  let ?n = "exec_snapshot (the_key K)\<lparr>sn_revoked_at_ms := Some 4001, sn_observed_at_ms := 4001\<rparr>"
  have name: "attempt_name ?a" by (simp add: attempt_name_def visible_eval)
  have "verify_bindings (estatement ''dispatch-revocation'' gh) ?n (econtext gh 4002) = Inl KeyRevoked"
    by (simp add: verify_bindings_def estatement_def exec_snapshot_def econtext_def)
  then have revoked: "verify_authority L K e ?n (econtext gh 4002) = Inl KeyRevoked"
    by (simp add: exec_verdict [OF A 2] econtext_valid exec_snapshot_valid [OF A])
  have epoch: "tc_configuration_epoch (exec_commitment L suffix) = 3" for suffix by (simp add: exec_commitment_def)
  from revoked have refused: "run_method L (begin_dispatch L K exec_policy (eclaimed L K ''dispatch-revocation'' ch ph dh gh e ?a) ?n 4002) f
    = (Inl (EX_Authority KeyRevoked), f)" for f
    by (simp add: begin_dispatch_def run_alone_andthen authority_context_ready run_method_def eclaimed_def epoch)
  show ?case
    by (simp add: Let_def open_executor_new [OF env exec_policy_valid(1)])
       (simp add: estep prepared_ready [OF 2(1)] exec_currentness_ready EXEC_NOW_def
         eauthorize(1) [OF A 2 name, simplified] refused method_lifecycle
         elifecycle [OF 2(1) name disjI1 [OF refl], simplified])
qed

section \<open>Tests of receipts and recovery\<close>

lemma method_receipt:
  assumes L: "conforming L" and chain: "claimed_chain L cs d chain" and r: "completes L chain d r h"
    and e: "validate_dispatch_evidence r (dc_dispatch_started_at_ms d) = Inr ()"
  shows "run_method L (store_call (SqlReceipt r) returned_digest) (store_on (small_db cs ss [d] [] xs t))
    = (Inr h, store_on (small_db cs ss [d] [row_of_receipt L r h] xs t))"
  using receipt_small [OF L chain r] e by (simp add: method_store)

lemma full_flow_releases_exact_effect_only_after_durable_marker_passes:
  assumes A: "authority_ready L K" and L: "conforming L" and env: "quiet_env env"
  shows "full_flow_releases_exact_effect_only_after_durable_marker L K env = Inr ()"
  unfolding full_flow_releases_exact_effect_only_after_durable_marker_def
proof (rule with_signed_ready [OF A L], goal_cases)
  case 1
  show ?case by (simp add: short_suffix_def)
next
  case (2 ch ph dh gh row e)
  let ?a = "''attempt-swimming''" and ?i = "''receipt-swimming''"
  let ?r = "test_receipt_of L ?i ph gh ?a (Some 4010) 4020 Succeeded ''target confirms success''"
  have names: "attempt_name ?i" "attempt_name ?a" by (simp_all add: attempt_name_def visible_eval)
  obtain h where r: "er_commitment L ?r = Inr h"
    and complete: "claimed_chain L (erows ''swimming'' row) (eclaim gh ?a (Some 4010)) (echain L ''swimming'' ch ph dh gh)"
    "completes L (echain L ''swimming'' ch ph dh gh) (eclaim gh ?a (Some 4010)) ?r h"
    "validate_dispatch_evidence ?r (dc_dispatch_started_at_ms (eclaim gh ?a (Some 4010))) = Inr ()"
    by (rule ecompletes [OF 2(1) names, where u = "Some 4010" and c = 4020 and outcome = Succeeded
          and label = "''target confirms success''"]) auto
  have dispatched: "exact_accessors \<lparr>xe_effect_profile = ep_effect_profile (exec_proposal L ''swimming'' ch),
      xe_operation = ep_operation (exec_proposal L ''swimming'' ch), xe_target = ep_target (exec_proposal L ''swimming'' ch),
      xe_documents = documents_new a b c d\<rparr>
    = (''filesystem/canonical-write@1'', ''filesystem.write'', ''workspace:/swimming.md'', a, b, c, d)" for a b c d
    by (simp add: exact_accessors_def exec_proposal_def documents_new_def)
  have grant: "eg_commitment L (exec_grant ''swimming'' ph dh) = Inr gh" using 2 by (simp add: exec_ready_def)
  have named: "ae_statement_id (ce_authority (eclaimed L K ''swimming'' ch ph dh gh e a)) = ''assertion-grant-swimming''" for a
    by (simp add: eclaimed_def evidence_from_def everified_def verified_of_def estatement_def Let_def)
  note lifecycle = lifecycle_receipt_small(1) [OF L complete, of "[ecurrent L 1]" "Some 4010"]
  show ?case
    by (simp add: Let_def open_executor_new [OF env exec_policy_valid(1)])
       (simp add: estep prepared_ready [OF 2(1)] exec_currentness_ready EXEC_NOW_def named
         eauthorize(1) [OF A 2 names(2), simplified] ebegin(1) [OF A 2 names(2), simplified] dispatch_with_def dispatched
         record_dispatched_def built_receipt method_receipt [OF L complete, simplified] grant method_lifecycle
         lifecycle [simplified] r)
qed

text \<open>
  What a receipt changes: it is written once, \<open>lifecycle\<close> returns it, and a first reconciliation
  record can be appended to it.
\<close>

abbreviation with_receipts ::
    "lib \<Rightarrow> string \<Rightarrow> raw_chain \<Rightarrow> digest32 \<Rightarrow> string \<Rightarrow> u64 option \<Rightarrow> receipt_row list \<Rightarrow> reconciliation_row list
     \<Rightarrow> u64 option \<Rightarrow> database" where
  "with_receipts L suffix row gh a u rs xs t \<equiv> small_db (erows suffix row) [ecurrent L 1] [eclaim gh a u] rs xs t"

definition received ::
    "lib \<Rightarrow> string \<Rightarrow> raw_chain \<Rightarrow> digest32 \<Rightarrow> string \<Rightarrow> u64 option \<Rightarrow> effect_receipt \<Rightarrow> digest32 \<Rightarrow> receipt_row \<Rightarrow> bool" where
  "received L suffix row gh a u r h rrow \<longleftrightarrow>
     (\<forall>t. run_method L (store_call (SqlReceipt r) returned_digest) (store_on (with_receipts L suffix row gh a u [] [] t))
        = (Inr h, store_on (with_receipts L suffix row gh a u [rrow] [] t))
      \<and> lifecycle_of L no_faults gh (with_receipts L suffix row gh a u [rrow] [] t)
        = Inr \<lparr>lc_grant_hash = gh, lc_claim = Some (eclaim gh a u), lc_receipt = Some r, lc_reconciliations = []\<rparr>)
   \<and> (\<forall>x k t. rr_commitment L x = Inr k \<longrightarrow> rr_digests x \<longrightarrow> rr_receipt_hash x = h
      \<longrightarrow> verify_reconciliation L r None x = Inr k \<longrightarrow>
      (\<exists>xrow. run_method L (ex_append_reconciliation x) (store_on (with_receipts L suffix row gh a u [rrow] [] t))
          = (Inr k, store_on (with_receipts L suffix row gh a u [rrow] [xrow] t))
       \<and> lifecycle_of L no_faults gh (with_receipts L suffix row gh a u [rrow] [xrow] t)
          = Inr \<lparr>lc_grant_hash = gh, lc_claim = Some (eclaim gh a u), lc_receipt = Some r,
              lc_reconciliations = [x]\<rparr>))"

lemma received_record:
  assumes L: "conforming L" and r: "er_commitment L r = Inr h" "er_digests r"
    and complete: "claimed_chain L (erows suffix row) (eclaim gh a u) chain" "completes L chain (eclaim gh a u) r h"
      "validate_dispatch_evidence r u = Inr ()"
  shows "received L suffix row gh a u r h (row_of_receipt L r h)"
proof -
  have e: "validate_dispatch_evidence r (dc_dispatch_started_at_ms (eclaim gh a u)) = Inr ()" using complete(3) by simp
  have gh: "dc_grant_hash (eclaim gh a u) = gh" by (simp add: claim_result_def)
  note lifecycle = lifecycle_receipt_small [OF L complete(1,2) e, unfolded gh]
  show ?thesis
    unfolding received_def
  proof (intro conjI allI impI, goal_cases)
    case (1 t)
    show ?case by (rule method_receipt [OF L complete(1,2) e])
  next
    case (2 t)
    show ?case by (rule lifecycle(1))
  next
    case (3 x k t)
    show ?case
      using reconcile_small [OF L r 3(1,3,4)] lifecycle(2) [OF 3]
      by (intro exI conjI) (simp_all add: ex_append_reconciliation_def method_store)
  qed
qed

lemma ereceipt:
  assumes ready: "exec_ready L suffix ch ph dh gh row" and names: "attempt_name i" "attempt_name a"
    and c: "c \<in> {4010, 4020, 4050}" and u: "u = None \<and> outcome = NotDispatched \<or> u = Some 4010 \<and> outcome \<noteq> NotDispatched"
  obtains h rrow where "er_commitment L (test_receipt_of L i ph gh a u c outcome label) = Inr h" and "digest_ok h"
    and "received L suffix row gh a u (test_receipt_of L i ph gh a u c outcome label) h rrow"
proof -
  have L: "conforming L" using ready by (simp add: exec_ready_def)
  show thesis
    by (rule ecompletes [OF ready names c u, where label = label]) (rule that, assumption+, rule received_record [OF L])
qed

text \<open>Recovering a claim.\<close>

lemma recovered:
  assumes ready: "exec_ready L suffix ch ph dh gh row" and a: "attempt_name a"
  shows "run_method L (record_recovered_not_dispatched L \<lparr>nr_receipt_id = i, nr_proposal_hash = ph, nr_grant_hash = gh,
        nr_attempt_id = a, nr_completed_at_ms = c, nr_observation_digest = from_payload L label\<rparr>)
      (store_on (small_db (erows suffix row) [ecurrent L 1] [eclaim gh a (Some 4010)] [] [] t))
    = (Inl UnexpectedDispatchMarker, store_on (small_db (erows suffix row) [ecurrent L 1] [eclaim gh a (Some 4010)] [] [] t))"
    and "run_method L (record_recovered_unknown L \<lparr>ur_receipt_id = i, ur_proposal_hash = ph, ur_grant_hash = gh,
        ur_attempt_id = a, ur_completed_at_ms = c, ur_observation_digest = from_payload L label\<rparr>)
      (store_on (small_db (erows suffix row) [ecurrent L 1] [eclaim gh a None] [] [] t))
    = (Inl MissingDispatchMarker, store_on (small_db (erows suffix row) [ecurrent L 1] [eclaim gh a None] [] [] t))"
    and "run_method L (record_recovered_not_dispatched L \<lparr>nr_receipt_id = i, nr_proposal_hash = ph, nr_grant_hash = gh,
        nr_attempt_id = a, nr_completed_at_ms = c, nr_observation_digest = from_payload L label\<rparr>)
      (store_on (small_db (erows suffix row) [ecurrent L 1] [eclaim gh a None] [] [] t))
    = run_method L (store_call (SqlReceipt (test_receipt_of L i ph gh a None c NotDispatched label)) returned_digest)
      (store_on (small_db (erows suffix row) [ecurrent L 1] [eclaim gh a None] [] [] t))"
    and "run_method L (record_recovered_unknown L \<lparr>ur_receipt_id = i, ur_proposal_hash = ph, ur_grant_hash = gh,
        ur_attempt_id = a, ur_completed_at_ms = c, ur_observation_digest = from_payload L label\<rparr>)
      (store_on (small_db (erows suffix row) [ecurrent L 1] [eclaim gh a (Some 4010)] [] [] t))
    = run_method L (store_call (SqlReceipt (test_receipt_of L i ph gh a (Some 4010) c Unknown label)) returned_digest)
      (store_on (small_db (erows suffix row) [ecurrent L 1] [eclaim gh a (Some 4010)] [] [] t))"
proof -
  note lifecycle = elifecycle [OF ready a disjI1 [OF refl], of "[ecurrent L 1]" "[]" t]
    elifecycle [OF ready a disjI2 [OF refl], of "[ecurrent L 1]" "[]" t]
  have claim: "dc_attempt_id (eclaim gh a u) = a" "dc_claimed_at_ms (eclaim gh a u) = 4000"
    "dc_dispatch_started_at_ms (eclaim gh a u) = u" for u
    by (simp_all add: claim_result_def)
  note steps = record_recovered_not_dispatched_def record_recovered_unknown_def method_store run_alone_andthen
    lifecycle [simplified] claim [simplified] built_receipt
  show "run_method L (record_recovered_not_dispatched L \<lparr>nr_receipt_id = i, nr_proposal_hash = ph, nr_grant_hash = gh,
        nr_attempt_id = a, nr_completed_at_ms = c, nr_observation_digest = from_payload L label\<rparr>)
      (store_on (small_db (erows suffix row) [ecurrent L 1] [eclaim gh a (Some 4010)] [] [] t))
    = (Inl UnexpectedDispatchMarker, store_on (small_db (erows suffix row) [ecurrent L 1] [eclaim gh a (Some 4010)] [] [] t))"
    "run_method L (record_recovered_unknown L \<lparr>ur_receipt_id = i, ur_proposal_hash = ph, ur_grant_hash = gh,
        ur_attempt_id = a, ur_completed_at_ms = c, ur_observation_digest = from_payload L label\<rparr>)
      (store_on (small_db (erows suffix row) [ecurrent L 1] [eclaim gh a None] [] [] t))
    = (Inl MissingDispatchMarker, store_on (small_db (erows suffix row) [ecurrent L 1] [eclaim gh a None] [] [] t))"
    by (simp_all add: steps)
  show "run_method L (record_recovered_not_dispatched L \<lparr>nr_receipt_id = i, nr_proposal_hash = ph, nr_grant_hash = gh,
        nr_attempt_id = a, nr_completed_at_ms = c, nr_observation_digest = from_payload L label\<rparr>)
      (store_on (small_db (erows suffix row) [ecurrent L 1] [eclaim gh a None] [] [] t))
    = run_method L (store_call (SqlReceipt (test_receipt_of L i ph gh a None c NotDispatched label)) returned_digest)
      (store_on (small_db (erows suffix row) [ecurrent L 1] [eclaim gh a None] [] [] t))"
    "run_method L (record_recovered_unknown L \<lparr>ur_receipt_id = i, ur_proposal_hash = ph, ur_grant_hash = gh,
        ur_attempt_id = a, ur_completed_at_ms = c, ur_observation_digest = from_payload L label\<rparr>)
      (store_on (small_db (erows suffix row) [ecurrent L 1] [eclaim gh a (Some 4010)] [] [] t))
    = run_method L (store_call (SqlReceipt (test_receipt_of L i ph gh a (Some 4010) c Unknown label)) returned_digest)
      (store_on (small_db (erows suffix row) [ecurrent L 1] [eclaim gh a (Some 4010)] [] [] t))"
    by (simp_all add: steps)
qed

lemma recovery_refuses_unknown_without_dispatch_marker_passes:
  assumes A: "authority_ready L K" and L: "conforming L" and env: "quiet_env env"
  shows "recovery_refuses_unknown_without_dispatch_marker L K env = Inr ()"
  unfolding recovery_refuses_unknown_without_dispatch_marker_def
proof (rule with_signed_ready [OF A L], goal_cases)
  case 1
  show ?case by (simp add: short_suffix_def)
next
  case (2 ch ph dh gh row e)
  let ?a = "''attempt-no-marker''" and ?i = "''receipt-not-dispatched''"
  have names: "attempt_name ?i" "attempt_name ?a" by (simp_all add: attempt_name_def visible_eval)
  show ?case
    by (rule ereceipt [OF 2(1) names, where u = None and c = 4010 and outcome = NotDispatched
          and label = "''adapter never invoked''"], unfold received_def)
       (simp, simp, simp add: Let_def open_executor_new [OF env exec_policy_valid(1)],
        simp add: estep prepared_ready [OF 2(1)] exec_currentness_ready EXEC_NOW_def
          eauthorize(1) [OF A 2 names(2), simplified] open_executor_again [OF env]
          recovered [OF 2(1) names(2), simplified] method_lifecycle test_receipt_of_def)
qed

text \<open>The reconciliation of the crash test.\<close>

lemma ereconcile:
  assumes L: "conforming L" and h: "digest_ok h"
    and r: "er_commitment L (test_receipt_of L i ph gh a (Some 4010) 4050 Unknown label) = Inr h"
  obtains k where "rr_commitment L \<lparr>rr_version = 1, rr_reconciliation_id = ''reconciliation-crash-1'', rr_receipt_hash = h,
       rr_sequence = 1, rr_parent_reconciliation_hash = None, rr_observed_at_ms = 4100, rr_outcome = EffectConfirmed,
       rr_evidence_digest = from_payload L text'\<rparr> = Inr k"
    and "rr_digests \<lparr>rr_version = 1, rr_reconciliation_id = ''reconciliation-crash-1'', rr_receipt_hash = h,
       rr_sequence = 1, rr_parent_reconciliation_hash = None, rr_observed_at_ms = 4100, rr_outcome = EffectConfirmed,
       rr_evidence_digest = from_payload L text'\<rparr>"
    and "verify_reconciliation L (test_receipt_of L i ph gh a (Some 4010) 4050 Unknown label) None
      \<lparr>rr_version = 1, rr_reconciliation_id = ''reconciliation-crash-1'', rr_receipt_hash = h,
       rr_sequence = 1, rr_parent_reconciliation_hash = None, rr_observed_at_ms = 4100, rr_outcome = EffectConfirmed,
       rr_evidence_digest = from_payload L text'\<rparr> = Inr k"
proof -
  let ?x = "\<lparr>rr_version = 1, rr_reconciliation_id = ''reconciliation-crash-1'', rr_receipt_hash = h,
       rr_sequence = 1, rr_parent_reconciliation_hash = None, rr_observed_at_ms = 4100, rr_outcome = EffectConfirmed,
       rr_evidence_digest = from_payload L text'\<rparr>"
  have "quote_conforms L" using L by (simp add: conforming_def)
  moreover have "rr_validate ?x = Inr ()" by (simp add: rr_validate_def visible_eval)
  ultimately obtain k where k: "rr_commitment L ?x = Inr k"
    using commitment_valid_iff(6) quote_conforms_quotes by blast
  moreover have "rr_digests ?x" using L h by (simp add: digests_defs conforming_def payload_digest_ok)
  moreover have "verify_reconciliation L (test_receipt_of L i ph gh a (Some 4010) 4050 Unknown label) None ?x = Inr k"
    using k r by (simp add: verify_reconciliation_ok evidence_for_def follows_def)
  ultimately show thesis by (rule that)
qed

lemma post_marker_crash_recovers_only_as_unknown_then_reconciles_passes:
  assumes A: "authority_ready L K" and L: "conforming L" and env: "quiet_env env"
  shows "post_marker_crash_recovers_only_as_unknown_then_reconciles L K env = Inr ()"
  unfolding post_marker_crash_recovers_only_as_unknown_then_reconciles_def
proof (rule with_signed_ready [OF A L], goal_cases)
  case 1
  show ?case by (simp add: short_suffix_def)
next
  case (2 ch ph dh gh row e)
  let ?a = "''attempt-crash''" and ?i = "''receipt-crash''" and ?l = "''transport outcome unavailable''"
  have names: "attempt_name ?i" "attempt_name ?a" by (simp_all add: attempt_name_def visible_eval)
  let ?r = "test_receipt_of L ?i ph gh ?a (Some 4010) 4050 Unknown ?l" and ?db = "with_receipts L ''crash'' row gh ?a (Some 4010)"
  obtain h rrow where r: "er_commitment L ?r = Inr h" "digest_ok h" and steps: "received L ''crash'' row gh ?a (Some 4010) ?r h rrow"
    by (rule ereceipt [OF 2(1) names, where u = "Some 4010" and c = 4050 and outcome = Unknown and label = ?l]) auto
  let ?x = "\<lparr>rr_version = 1, rr_reconciliation_id = ''reconciliation-crash-1'', rr_receipt_hash = h,
       rr_sequence = 1, rr_parent_reconciliation_hash = None, rr_observed_at_ms = 4100, rr_outcome = EffectConfirmed,
       rr_evidence_digest = from_payload L ''target idempotency record found''\<rparr>"
  obtain k where "rr_commitment L ?x = Inr k" "rr_digests ?x" "verify_reconciliation L ?r None ?x = Inr k"
    by (rule ereconcile [OF L r(2,1)])
  then obtain xrow where x: "run_method L (ex_append_reconciliation ?x) (store_on (?db [rrow] [] (Some 4010)))
      = (Inr k, store_on (?db [rrow] [xrow] (Some 4010)))"
    "lifecycle_of L no_faults gh (?db [rrow] [xrow] (Some 4010))
      = Inr \<lparr>lc_grant_hash = gh, lc_claim = Some (eclaim gh ?a (Some 4010)), lc_receipt = Some ?r, lc_reconciliations = [?x]\<rparr>"
    using steps unfolding received_def by fastforce
  note steps = steps [unfolded received_def, THEN conjunct1, rule_format]
  show ?case
    by (simp add: Let_def open_executor_new [OF env exec_policy_valid(1)])
       (simp add: estep prepared_ready [OF 2(1)] exec_currentness_ready EXEC_NOW_def
         eauthorize(1) [OF A 2 names(2), simplified] ebegin(1) [OF A 2 names(2), simplified] open_executor_again [OF env]
         recovered [OF 2(1) names(2), simplified] method_lifecycle steps [simplified] x [simplified])
qed

end
