(* ===== verification/Cli_Tests.thy ===== *)
theory Cli_Tests
  imports Test_Harness Cli_Properties
begin

text \<open>
  The unit tests of the command line program (crates/effect-transaction-cli/src/main.rs), as
  executable definitions over the model, and that they pass. \<open>vector_text\<close> is the file
  test-vectors/positive-chain.json; its bytes are ASCII, so \<open>from_utf8_lossy\<close> is the text itself.
  \<open>to_vec\<close> gives the bytes of \<open>to_string\<close>.
\<close>

section \<open>Values of serde\_json\<close>

text \<open>Indexing a \<open>Value\<close> by a name gives null where there is nothing.\<close>

definition value_index :: "jvalue \<Rightarrow> string \<Rightarrow> jvalue" where
  "value_index v k = (case v of JObject kvs \<Rightarrow> (case map_of kvs k of Some x \<Rightarrow> x | None \<Rightarrow> JNull) | _ \<Rightarrow> JNull)"

definition as_object :: "jvalue \<Rightarrow> (string \<times> jvalue) list option" where
  "as_object v = (case v of JObject kvs \<Rightarrow> Some kvs | _ \<Rightarrow> None)"

definition read_value :: "cli_env \<Rightarrow> string \<Rightarrow> cli_error + jvalue" where
  "read_value E bytes = ok_or (map_option content_value (ce_content E bytes)) CE_Json"

definition value_bytes :: "cli_env \<Rightarrow> jvalue \<Rightarrow> cli_error + string" where
  "value_bytes E v = ok_or (ce_to_string E v) CE_Json"

text \<open>\<open>replacen(old, new, 1)\<close>.\<close>

fun replace_first :: "string \<Rightarrow> string \<Rightarrow> string \<Rightarrow> string" where
  "replace_first old new [] = (if old = [] then new else [])"
| "replace_first old new (c # s) =
     (if take (length old) (c # s) = old then new @ drop (length old) (c # s)
      else c # replace_first old new s)"

section \<open>The tests\<close>

definition verifies_the_published_cross_language_vector ::
    "cli_env \<Rightarrow> string \<Rightarrow> cli_error failure + unit" where
  "verifies_the_published_cross_language_vector E vector_text =
     rbind (attempt (verified_json E vector_text)) (\<lambda>v. checks
       [assert_that (value_index v ''valid'' = JBool True),
        assert_that (value_index v ''state'' = JString ''effect_confirmed'')])"

definition refuses_an_unregistered_profile_and_expected_divergence ::
    "cli_env \<Rightarrow> string \<Rightarrow> cli_error failure + unit" where
  "refuses_an_unregistered_profile_and_expected_divergence E vector_text =
     (let changed_profile = replace_first CORE_PROFILE ''effect-transaction/core/9.9'' vector_text;
          changed_expectation = replace_first ''\"state\": \"effect_confirmed\"'' ''\"state\": \"succeeded\"'' vector_text
      in checks
       [assert_that (case verified_json E changed_profile of
          Inl (CE_UnsupportedProfile _) \<Rightarrow> True | _ \<Rightarrow> False),
        assert_that (case verified_json E changed_expectation of
          Inl CE_ExpectedMismatch \<Rightarrow> True | _ \<Rightarrow> False)])"

definition refused_as_json :: "cli_env \<Rightarrow> string \<Rightarrow> cli_error failure + unit" where
  "refused_as_json E bytes = assert_that (case verified_json E bytes of Inl CE_Json \<Rightarrow> True | _ \<Rightarrow> False)"

definition keeps_bare_transactions_separate_from_strict_vector_envelopes ::
    "cli_env \<Rightarrow> string \<Rightarrow> cli_error failure + unit" where
  "keeps_bare_transactions_separate_from_strict_vector_envelopes E vector_text =
     rbind (attempt (read_value E vector_text)) (\<lambda>vector.
     rbind (attempt (value_bytes E (value_index vector ''transaction''))) (\<lambda>bare.
     rbind (attempt (verified_json E bare)) (\<lambda>verified.
     rbind (assert_that (value_index verified ''state'' = JString ''effect_confirmed'')) (\<lambda>_.
     rbind (attempt (ok_or (as_object vector) CE_ExpectedMismatch)) (\<lambda>kvs.
     let missing_expected = JObject (filter (\<lambda>kv. fst kv \<noteq> ''expected'') kvs) in
     rbind (attempt (value_bytes E missing_expected)) (\<lambda>bytes.
     rbind (refused_as_json E bytes) (\<lambda>_.
     rbind (attempt (ok_or (as_object vector) CE_ExpectedMismatch)) (\<lambda>kvs.
     let unknown_metadata = JObject (map_insert ''model_comment'' (JString ''untrusted'') kvs) in
     rbind (attempt (value_bytes E unknown_metadata)) (\<lambda>bytes.
     refused_as_json E bytes)))))))))"

section \<open>They pass\<close>

text \<open>
  What the tests rely on. The parser reads the file and its two changed copies as their text says:
  an object with the four fields in the order of the file. It reads back what the printer writes.
  The deserializer of a bundle reads the transaction, in the file and as a \<open>Value\<close>, and refuses an
  object with a name of the envelope. The transaction is confirmed, and the expectation in the file
  is its result.
\<close>

definition envelope :: "string \<Rightarrow> string \<Rightarrow> jvalue \<Rightarrow> jvalue \<Rightarrow> jvalue" where
  "envelope profile description transaction expected =
     JObject [(''profile'', JString profile), (''description'', JString description),
       (''transaction'', transaction), (''expected'', expected)]"

definition reads_file :: "cli_env \<Rightarrow> string \<Rightarrow> string \<Rightarrow> jvalue \<Rightarrow> jvalue \<Rightarrow> jvalue \<Rightarrow> bool" where
  "reads_file E vector_text description transaction expected succeeded \<longleftrightarrow>
     ce_content E vector_text = Some (envelope CORE_PROFILE description transaction expected)
   \<and> ce_content E (replace_first CORE_PROFILE ''effect-transaction/core/9.9'' vector_text)
       = Some (envelope ''effect-transaction/core/9.9'' description transaction expected)
   \<and> ce_content E (replace_first ''\"state\": \"effect_confirmed\"'' ''\"state\": \"succeeded\"'' vector_text)
       = Some (envelope CORE_PROFILE description transaction succeeded)"

definition prints_and_reads :: "cli_env \<Rightarrow> bool" where
  "prints_and_reads E \<longleftrightarrow> (\<forall>v. content_value v = v \<and> safe_numbers v \<longrightarrow>
     (\<exists>s. ce_to_string E v = Some s \<and> ce_content E s = Some v))"

definition reads_bundle :: "cli_env \<Rightarrow> jvalue \<Rightarrow> verified_transaction \<Rightarrow> bool" where
  "reads_bundle E transaction v \<longleftrightarrow>
     (\<exists>bundle. ce_bundle E transaction = Some bundle \<and> ce_bundle E (content_value transaction) = Some bundle
        \<and> verify_transaction (ce_lib E) bundle = Inr v)
   \<and> read_vector E (content_value transaction) = None
   \<and> (\<forall>kvs. ''profile'' \<in> fst ` set kvs \<longrightarrow> ce_bundle E (JObject kvs) = None)
   \<and> vt_state v = TS_EffectConfirmed"

definition published_file ::
    "cli_env \<Rightarrow> string \<Rightarrow> string \<Rightarrow> jvalue \<Rightarrow> jvalue \<Rightarrow> jvalue \<Rightarrow> verified_transaction \<Rightarrow> bool" where
  "published_file E vector_text description transaction expected succeeded v \<longleftrightarrow>
     reads_file E vector_text description transaction expected succeeded
   \<and> prints_and_reads E \<and> reads_bundle E transaction v
   \<and> \<not> description_invalid description
   \<and> safe_numbers (content_value transaction) \<and> safe_numbers (content_value expected)
   \<and> content_value expected = vt_value v \<and> content_value succeeded = vt_value (v\<lparr>vt_state := TS_Succeeded\<rparr>)"

lemma content_object:
  assumes "sorted (map fst kvs)" and "distinct (map fst kvs)"
  shows "content_value (JObject kvs) = JObject (map (\<lambda>(k, x). (k, content_value x)) kvs)"
proof -
  have keys: "sorted_list_of_set (set (map fst kvs)) = map fst kvs"
    using assms by (intro sorted_list_of_set.idem_if_sorted_distinct)
  have "map_of (rev kvs) k = Some x" if "(k, x) \<in> set kvs" for k x
    using that assms(2) by (simp add: map_of_eq_Some_iff distinct_rev rev_map [symmetric])
  then show ?thesis by (auto simp: content_value.simps [of "JObject kvs"] keys simp del: set_map)
qed

lemma content_idem: "content_value (content_value v) = content_value v"
proof (induction v rule: content_value.induct)
  case (1 v)
  show ?case
  proof (cases v)
    case (JArray vs)
    with 1(1) show ?thesis by (simp add: content_value.simps)
  next
    case (JObject kvs)
    let ?ks = "sorted_list_of_set (set (map fst kvs))"
    let ?kvs = "map (\<lambda>k. (k, content_value (the (map_of (rev kvs) k)))) ?ks"
    have v: "content_value v = JObject ?kvs" by (simp only: JObject content_value.simps [of "JObject kvs"] jvalue.case)
    have "map fst ?kvs = ?ks" by (simp add: comp_def)
    then have "content_value (JObject ?kvs) = JObject (map (\<lambda>(k, x). (k, content_value x)) ?kvs)"
      by (intro content_object) simp_all
    also have "\<dots> = JObject ?kvs"
      using 1(2) [OF JObject] by simp
    finally show ?thesis by (simp only: v)
  qed (simp_all add: content_value.simps)
qed

lemma content_vt_value [simp]: "content_value (vt_value v) = vt_value v"
  by (simp add: vt_value_def content_object jdigest_def jopt_def content_value.simps [of "JString _"]
      content_value.simps [of JNull] content_value.simps [of "JArray _"] comp_def split: option.split)

lemma read_envelope:
  "read_vector E (envelope p d t e) = map_option (\<lambda>bundle. \<lparr>ve_profile = p, ve_description = Some d,
     ve_transaction = bundle, ve_expected = content_value e\<rparr>) (ce_bundle E t)"
  by (cases "ce_bundle E t") (simp_all add: read_vector_def envelope_def strict_object_def field_def optional_def)

lemma verify_output_index [simp]:
  "value_index (verify_output v) ''valid'' = JBool True"
  "value_index (verify_output v) ''state'' = JString (state_name (vt_state v))"
  by (simp_all add: value_index_def verify_output_def)

lemma verified_file:
  assumes "published_file E vector_text description transaction expected succeeded v"
  shows "verified_json E vector_text = Inr (verify_output v)"
  using assms
  by (auto simp: published_file_def reads_file_def reads_bundle_def verified_json_def strict_deserialize_def
      read_verify_input_def read_envelope verified_output Let_def)

lemma verifies_the_published_cross_language_vector_passes:
  assumes "published_file E vector_text description transaction expected succeeded v"
  shows "verifies_the_published_cross_language_vector E vector_text = Inr ()"
  using verified_file [OF assms] assms
  by (simp add: verifies_the_published_cross_language_vector_def published_file_def reads_bundle_def)

lemma vt_value_state: "vt_value v = vt_value w \<Longrightarrow> state_name (vt_state v) = state_name (vt_state w)"
  by (auto simp: vt_value_def)

lemma refuses_an_unregistered_profile_and_expected_divergence_passes:
  assumes "published_file E vector_text description transaction expected succeeded v"
  shows "refuses_an_unregistered_profile_and_expected_divergence E vector_text = Inr ()"
proof -
  have confirmed: "vt_state v = TS_EffectConfirmed" using assms by (simp add: published_file_def reads_bundle_def)
  then have other: "vt_value (v\<lparr>vt_state := TS_Succeeded\<rparr>) \<noteq> vt_value v" using vt_value_state by fastforce
  have "verified_json E (replace_first CORE_PROFILE ''effect-transaction/core/9.9'' vector_text)
      = Inl (CE_UnsupportedProfile ''effect-transaction/core/9.9'')"
    using assms
    by (auto simp: published_file_def reads_file_def reads_bundle_def verified_json_def strict_deserialize_def
        read_verify_input_def read_envelope) (simp add: CORE_PROFILE_def)
  moreover have "verified_json E (replace_first ''\"state\": \"effect_confirmed\"'' ''\"state\": \"succeeded\"'' vector_text)
      = Inl CE_ExpectedMismatch"
    using assms other
    by (auto simp: published_file_def reads_file_def reads_bundle_def verified_json_def strict_deserialize_def
        read_verify_input_def read_envelope Let_def)
  ultimately show ?thesis
    by (simp add: refuses_an_unregistered_profile_and_expected_divergence_def Let_def)
qed

text \<open>The envelope as a \<open>Value\<close>, and its copies without an expectation and with a further name.\<close>

definition envelope_fields :: "string \<Rightarrow> jvalue \<Rightarrow> (string \<times> jvalue) list \<Rightarrow> (string \<times> jvalue) list" where
  "envelope_fields description transaction between =
     [(''description'', JString description)] @ between @ [(''profile'', JString CORE_PROFILE), (''transaction'', transaction)]"

lemma content_leaf [simp]: "content_value (JString s) = JString s"
  by (simp add: content_value.simps)

lemma content_envelope:
  "content_value (envelope CORE_PROFILE d t e) = JObject (envelope_fields d (content_value t) [(''expected'', content_value e)])"
proof -
  have "set [''profile'', ''description'', ''transaction'', ''expected'']
    = set [''description'', ''expected'', ''profile'', ''transaction'']" by auto
  then have keys: "sorted_list_of_set (set [''profile'', ''description'', ''transaction'', ''expected''])
    = [''description'', ''expected'', ''profile'', ''transaction'']"
    by (simp only:) (rule sorted_list_of_set.idem_if_sorted_distinct; simp)
  show ?thesis
    using keys by (simp add: envelope_def content_value.simps [of "JObject _"] envelope_fields_def)
qed

lemma changed_refused:
  assumes between: "between = [] \<or> between = [(''expected'', e), (''model_comment'', JString ''untrusted'')]"
    and "content_value t = t" "safe_numbers t" "content_value e = e" "safe_numbers e" and "prints_and_reads E"
    and "\<forall>kvs. ''profile'' \<in> fst ` set kvs \<longrightarrow> ce_bundle E (JObject kvs) = None"
  shows "\<exists>bytes. value_bytes E (JObject (envelope_fields d t between)) = Inr bytes \<and> refused_as_json E bytes = Inr ()"
proof -
  let ?v = "JObject (envelope_fields d t between)"
  have "content_value ?v = ?v"
    using between assms(2,4) by (auto simp: content_object envelope_fields_def)
  moreover have "safe_numbers ?v"
    using between assms(3,5) by (auto simp: safe_numbers.simps [of "JObject _"] envelope_fields_def)
  ultimately obtain bytes where bytes: "ce_to_string E ?v = Some bytes" "ce_content E bytes = Some ?v"
    using assms(6) by (auto simp: prints_and_reads_def)
  have "read_vector E ?v = None"
    using between by (auto simp: read_vector_def strict_object_def envelope_fields_def field_def optional_def)
  moreover have "ce_bundle E ?v = None" using assms(7) by (simp add: envelope_fields_def)
  ultimately have "verified_json E bytes = Inl CE_Json"
    using bytes by (simp add: verified_json_def strict_deserialize_def read_verify_input_def)
  with bytes show ?thesis by (simp add: value_bytes_def refused_as_json_def)
qed

lemma keeps_bare_transactions_separate_from_strict_vector_envelopes_passes:
  assumes "published_file E vector_text description transaction expected succeeded v"
  shows "keeps_bare_transactions_separate_from_strict_vector_envelopes E vector_text = Inr ()"
proof -
  let ?t = "content_value transaction" and ?e = "vt_value v"
  note P = assms [unfolded published_file_def reads_file_def reads_bundle_def]
  have vector: "read_value E vector_text = Inr (JObject (envelope_fields description ?t [(''expected'', ?e)]))"
    using P by (simp add: read_value_def content_envelope)
  have "content_value expected = ?e" "safe_numbers (content_value expected)" using P by blast+
  then have safe: "safe_numbers ?t" "safe_numbers ?e" using P by auto
  obtain bare where bare: "ce_to_string E ?t = Some bare" "ce_content E bare = Some ?t"
    using P safe(1) content_idem unfolding prints_and_reads_def by blast
  have verified: "verified_json E bare = Inr (verify_output v)"
    using P bare by (auto simp: verified_json_def strict_deserialize_def read_verify_input_def verified_output Let_def)
  have refused: "\<exists>bytes. value_bytes E (JObject (envelope_fields description ?t between)) = Inr bytes \<and> refused_as_json E bytes = Inr ()"
    if "between = [] \<or> between = [(''expected'', ?e), (''model_comment'', JString ''untrusted'')]" for between
    using P that by (intro changed_refused [where e = ?e] content_idem content_vt_value safe) simp_all
  obtain b1 b2 where b: "value_bytes E (JObject (envelope_fields description ?t [])) = Inr b1" "refused_as_json E b1 = Inr ()"
    "value_bytes E (JObject (envelope_fields description ?t [(''expected'', ?e), (''model_comment'', JString ''untrusted'')])) = Inr b2"
    "refused_as_json E b2 = Inr ()"
    using refused [of "[]"] refused [of "[(''expected'', ?e), (''model_comment'', JString ''untrusted'')]"] by auto
  have parts: "value_index (JObject (envelope_fields description ?t [(''expected'', ?e)])) ''transaction'' = ?t"
    "filter (\<lambda>kv. fst kv \<noteq> ''expected'') (envelope_fields description ?t [(''expected'', ?e)]) = envelope_fields description ?t []"
    "map_insert ''model_comment'' (JString ''untrusted'') (envelope_fields description ?t [(''expected'', ?e)])
      = envelope_fields description ?t [(''expected'', ?e), (''model_comment'', JString ''untrusted'')]"
    by (simp_all add: value_index_def envelope_fields_def map_insert_def)
  have "vt_state v = TS_EffectConfirmed" using P by simp
  then show ?thesis
    using bare(1) b
    by (simp add: keeps_bare_transactions_separate_from_strict_vector_envelopes_def vector parts as_object_def
        verified value_bytes_def [of E ?t] Let_def)
qed

end
