(* ===== verification/Spec2Isabelle.thy ===== *)
theory Spec2Isabelle
  imports Core_Properties Memory_Properties Authority_Properties Authority_Vector_Test Sqlite_Properties
    Executor_Properties Executor_Views Executor_Typing Executor_Progress Refinement_Properties Cli_Properties
    Core_Tests_Pass Sqlite_Tests_Pass Executor_Tests_Pass Cli_Tests
begin

text \<open>
  Verification library of the Effect Transaction Protocol (ETP), Rust crates.

  \<^bold>\<open>The program.\<close> ETP records one external effect as a chain of six JSON records: task
  commitment, effect proposal, authorization decision, execution grant, effect receipt and
  reconciliation record. Each record names its predecessor by a hash of its canonical JSON. The
  grant may be used once: an executor claims it in a durable store, writes a dispatch marker,
  calls the adapter of the target, and records a receipt. The crates and the theories for them
  (paths under src/crates, always src/lib.rs unless named):

  \<^item> effect-transaction-core: data and limits in \<open>Core_Types\<close>; field checks and digests in
    \<open>Validation\<close>; \<open>canonical_json\<close> and \<open>hash_record\<close> in \<open>Canonical_Json\<close>; the records with
    \<open>validate\<close> and \<open>commitment\<close> in \<open>Records\<close>; \<open>parse_record\<close> in \<open>Parsing\<close>; \<open>verify_decision\<close> to
    \<open>verify_transaction\<close> in \<open>Chain\<close>; \<open>MemoryGrantStore\<close> in \<open>Memory_Store\<close>.
  \<^item> effect-transaction-authority: statements, snapshots, \<open>sign\<close> and \<open>verify_authority\<close> in
    \<open>Authority\<close>; examples/generate\_authority\_vector.rs in \<open>Authority_Vector\<close>.
  \<^item> effect-transaction-sqlite: tables, queries and helpers in \<open>Sqlite_Store\<close>; the operations
    of \<open>SqliteEffectStore\<close> in \<open>Sqlite_Operations\<close>; \<open>open\<close> in \<open>Sqlite_Schema\<close>.
  \<^item> effect-transaction-executor: the policy, the type-state values and all methods in
    \<open>Executor\<close>; their \<open>Debug\<close> output and accessors in \<open>Executor_Views\<close>.
  \<^item> effect-transaction-cli, src/main.rs: \<open>Cli\<close>.

  The executor calls the authority crate, the SQLite store and \<open>verify_grant\<close>; both stores call
  the verification functions of the core; the command line calls \<open>verify_transaction\<close>,
  \<open>parse_record\<close> and \<open>commitment\<close>. The theories call each other in the same way.

  \<^bold>\<open>How the model corresponds to the code.\<close> A struct is a \<open>record\<close>, its fields prefixed with the
  initials of the struct; an enum is a \<open>datatype\<close>; \<open>u64\<close> is \<open>64 word\<close>, so that arithmetic wraps
  (\<open>Prelude\<close>). A \<open>String\<close> or a byte vector is a \<open>string\<close> of bytes. \<open>Result\<close> is a sum with the error
  on the left, the question mark is \<open>rbind\<close>, and a sequence of guards is \<open>checks\<close>, so the order of
  errors is the one of the code. A method that mutates returns the new state.

  \<^item> The memory store is a record with the maps of \<open>MemoryGrantState\<close> as partial functions. Its
    mutex makes each critical section one step; poisoning is a flag of the state.
  \<^item> The SQLite store is one list of rows per table with the constraints and triggers of the
    schema. \<open>BEGIN IMMEDIATE\<close> serializes the operations of all connections, so an operation is
    one step, and a concurrent execution is a sequence of calls. Every statement may fail: the
    argument \<open>eng\<close> gives the error of each statement, and \<open>transact\<close> rolls back. Only \<open>lifecycle\<close>
    runs outside a transaction; its four queries see four databases.
  \<^item> \<open>open\<close> works on a file with pragmas, the journal mode, schema objects and data. What other
    connections do between two statements, whether SQLite can change the journal mode, and what
    it answers about the settings of the connection, is the argument \<open>env\<close>.
  \<^item> A method of the executor is a \<open>prog\<close> whose accesses to the database interleave with those
    of any other method (\<open>Executor_System\<close>). A state of the system is the database, the running
    methods, and the values that processes own; a step starts a method, makes one access,
    finishes, calls the adapter, lets a foreign caller use the store, or loses memory. Rust's
    moves are the removal of the consumed value from a multiset.
  \<^item> The command line is a function of its arguments and the record \<open>cli_env\<close> (files, tokenizer,
    printers) to an exit status with the line it prints.

  \<^bold>\<open>Interfaces.\<close> \<open>protocol_record\<close> (\<open>Records\<close>) is the trait \<open>ProtocolRecord\<close>, interpreted by the
  six records and the authority statement. \<open>append_only\<close> and \<open>single_use\<close> (\<open>Store_Interface\<close>) are
  the contract of a store, interpreted by the memory store, by the SQLite store (with the grant
  hash and with the attempt identifier as the key that a claim takes) and, for the executor, on
  the invariant \<open>sound\<close>. \<open>exact_use\<close> extends it: a store that holds nothing but what was won,
  interpreted by the memory store. \<open>lifecycle_ledgers\<close> (\<open>Lifecycle_Machine\<close>) is refinement of the abstract
  life of a grant, interpreted by both stores.

  \<^bold>\<open>What is shown.\<close>

  \<^item> Core: \<open>verify_transaction\<close> accepts exactly the bundles that meet the declarative
    specification of \<open>Lifecycle_Spec\<close>; commitments exist exactly for valid records and bind kind
    and fields; the hash of a receipt or of the last reconciliation record fixes everything
    before it. Binding is always stated up to an explicit pair of distinct texts with the same
    hash, never as injectivity of SHA-256; the instances are pairs of different records with
    the same hash (\<open>Fixture_Twins\<close>), which the checksum of the fixtures has. Canonical text is read back by the reader of
    \<open>Json_Reader\<close>, and valid records fit the transport limit and parse to themselves.
  \<^item> Stores: at most one claim per grant wins over any sequence of calls; every row or entry
    belongs to a verified lifecycle; nothing recorded changes afterwards; a dispatch marker is
    written once, under all its guards; claims and receipts are recorded exactly under the stated
    conditions; \<open>lifecycle\<close> returns verified lifecycles only; \<open>open\<close> changes nothing of an existing
    store but its journal mode. Each call of either store is at most one transition of the
    abstract ledger of one grant, and along any infinite sequence of calls of the SQLite store
    the ledger of a grant comes to rest after at most 10004 changes.
  \<^item> Authority: an accepted assertion is current, fits the snapshot and the context and was
    signed; what \<open>sign\<close> produces is accepted; the document of the generator, read back by the derived reader
    of the test, is accepted, and each of its mutations causes the error it names.
  \<^item> Executor: over all interleavings, crashes and failures no grant is dispatched twice, each
    dispatched effect is backed by a verified chain, two accepted authority checks, a claim and a
    marker inside the window; the document bytes stay sealed until then; an undisturbed attempt
    with honest inputs completes, and recovery closes each open attempt; digests stay
    well-formed.
  \<^item> Command line: the exact condition for success of \<open>verify\<close>, what the line printed by \<open>hash\<close>
    says of the record in the file, and the reports for bad input.

  The lemmas behind these stand between the model and the \<open>*_Properties\<close> theories:
  \<open>Memory_Invariant\<close>; \<open>Sqlite_Facts\<close> (what a successful call has done), \<open>Sqlite_Invariant\<close> (the
  schema), \<open>Sqlite_Stored\<close> (what the rows hold), \<open>Sqlite_Reading\<close> (what \<open>lifecycle\<close> returns),
  \<open>Sqlite_Progress\<close> (when calls succeed), \<open>Memory_Ledger\<close> and \<open>Sqlite_Ledger\<close> (refinement);
  \<open>Authority_Facts\<close>; \<open>Executor_Safety\<close> (the two invariants of the system), \<open>Executor_Typing\<close> and
  \<open>Executor_Progress\<close> (well-formed values, and the undisturbed run).

  \<^bold>\<open>The unit tests.\<close> The test functions in the \<open>mod tests\<close> blocks of the crates are definitions over
  the model, under their own names: \<open>Core_Tests\<close>, \<open>Sqlite_Tests\<close>, \<open>Authority_Tests\<close>, \<open>Executor_Tests\<close>
  and \<open>Cli_Tests\<close>, in the vocabulary of \<open>Test_Harness\<close> (a question mark, an assertion, a call that
  changes the state). A lemma \<open><test>_passes\<close> in \<open>Core_Tests_Pass\<close>, \<open>Sqlite_Tests_Pass\<close>,
  \<open>Authority_Tests_Pass\<close>, \<open>Executor_Tests_Pass\<close> or \<open>Cli_Tests\<close> says that the test passes, for every
  conforming library and, where a database is opened, every engine that opens it without
  interference. The records of the fixtures are those of the crates; their hashes are whatever the
  library computes. Where a test compares digests of different texts, the lemma assumes that these
  particular digests differ. \<open>Sqlite_Running\<close> and \<open>Executor_Running\<close> give the result of each operation
  on the small databases of the tests, and \<open>Authority_Vector_Test\<close> shows that the vector of the
  generator passes the consumer test. A property test is its predicate on one arbitrary input,
  and the two tests that start threads run the claims of the threads in any order, each claim being
  one transaction or critical section.

  Three theorems record behaviour that the documentation of the repository excludes:
  \<open>executor_dispatch_despite_receipt\<close> (a dispatch after a durable receipt that there was none),
  \<open>sql_lifecycle_between_writers\<close> (\<open>lifecycle\<close> reports corruption when a writer comes between its
  queries) and \<open>sql_open_race\<close> (two first openers); \<open>sql_open_result\<close> shows besides that a file of
  the right version without the tables is refused only after it was put into WAL mode.

  \<^bold>\<open>Assumptions on libraries.\<close> Code outside the repository is a field of \<open>lib\<close>, \<open>cose_lib\<close>, or
  \<open>cli_env\<close>. Theorems name what they need of it: \<open>quotes\<close> and \<open>quote_conforms\<close> (serde\_json escapes
  strings as section 5.2 of SPEC.md says), \<open>reads_records\<close> and \<open>reads_statements\<close> (derived
  deserializers read canonical text back), \<open>typed_readers\<close> (they build each digest with \<open>parse\<close>),
  \<open>nonzero_hash\<close> (SHA-256 has 32 bytes, not all zero), \<open>reports_read_back\<close> (the parser of serde\_json reads a
  printed report back), \<open>conforming\<close> (\<open>quote_conforms\<close>,
  \<open>reads_records\<close> and \<open>nonzero_hash\<close>), \<open>cose_conforms\<close> and \<open>ed25519_conforms\<close> (decoding inverts encoding; honest signatures
  verify). For the vector, \<open>authority_ready\<close> collects these for the key of the tests, and \<open>tag_18\<close>,
  \<open>signature_last\<close>, \<open>refuses_flipped\<close> and \<open>reads_back_statement\<close> say what coset, ed25519-dalek and
  serde answer for its changed encodings and its statement. \<open>Fixtures\<close>, \<open>Authority_Fixtures\<close>, \<open>Sqlite_Fixtures\<close> and \<open>Executor_Fixtures\<close> give
  functions that meet all of them at once, and run the whole lifecycle on the records of the
  crate's own test fixture; the witnesses of the properties use these runs.

  \<^bold>\<open>Bounds and termination.\<close> No definition that models code uses fuel: recursion is structural, or
  on the size of a JSON value (\<open>canonical_json\<close>, \<open>content_value\<close>) or on the length of the rest of
  a text (\<open>chars\<close>). The reader of \<open>Json_Reader\<close>, which is a specification and the parser of the
  fixtures, has a fuel argument: each call of it spends one unit, reading back a canonical text
  needs at most two units for every node of the value (\<open>encode_reads_back\<close>), and \<open>read_json\<close> supplies
  two for every character of the text and two more, so its property concludes that the value is
  found. Limits are the constants of the code: 2 to the 53 minus 1 for integers, one
  mebibyte of input, depth and node limits of canonical JSON, 10000 reconciliation records; a
  ledger therefore changes at most 10004 times.

  \<^bold>\<open>Not modelled.\<close> Constructors and accessors that only return a field; the texts of library
  errors; the argument parser clap; a panic of \<open>println!\<close> on a closed output; the pretty printer of
  JSON; SQLite itself below the level of statements (a process that opens two database files is
  two systems). The TypeScript implementation is another program, the
  conformance vectors, schemas and Python tools are data and test drivers, and the Lean and TLA
  files of the repository are models by its authors.
\<close>

end
